(* ===== verification/Prelude.thy ===== *)
theory Prelude
  imports Main "HOL-Library.AList" "HOL-Library.Word"
begin

text \<open>
  Shared vocabulary of the development.

  \<^item> \<open>time\<close>: a Go \<open>time.Time\<close> as nanoseconds since the Unix epoch; \<open>duration\<close>: a Go
    \<open>time.Duration\<close> in nanoseconds.  \<open>now.Before(t)\<close> is \<open>now < t\<close>, \<open>now.Add(d)\<close> is
    \<open>now + d\<close> and \<open>t.UnixMilli()\<close> rounds towards minus infinity.
  \<^item> \<open>gomap\<close>: a Go map as an association list with distinct keys.  Go leaves the order of a
    \<open>range\<close> over a map unspecified; the list order stands for one such order.
  \<^item> Two locale hierarchies: \<open>finite_map\<close> / \<open>expiring_map\<close> for the maps that the program
    prunes by an expiry time, and \<open>guarded_machine\<close> / \<open>capped_machine\<close> for components that
    are driven by a sequence of calls.
\<close>

named_theorems gomap_simps \<open>lookup, size and key facts of Go maps\<close>
named_theorems inv_intros \<open>preservation rules for component invariants\<close>

section \<open>Time\<close>

type_synonym time = int
type_synonym duration = int

abbreviation millisecond :: duration where "millisecond \<equiv> 1000000"
abbreviation second :: duration where "second \<equiv> 1000000000"
abbreviation minute :: duration where "minute \<equiv> 60 * second"
abbreviation hour :: duration where "hour \<equiv> 60 * minute"

text \<open>The zero value of \<open>time.Time\<close> (January 1 of year 1, UTC).\<close>

definition zero_time :: time where
  "zero_time = - 62135596800 * second"

definition unix_milli :: "time \<Rightarrow> int" where
  "unix_milli t = t div 1000000"

lemma unix_milli_mono: "s \<le> t \<Longrightarrow> unix_milli s \<le> unix_milli t"
  by (simp add: unix_milli_def zdiv_mono1)

section \<open>Go maps\<close>

type_synonym ('k, 'v) gomap = "('k \<times> 'v) list"

abbreviation gm_get :: "('k, 'v) gomap \<Rightarrow> 'k \<Rightarrow> 'v option" where
  "gm_get \<equiv> map_of"

abbreviation gm_put :: "'k \<Rightarrow> 'v \<Rightarrow> ('k, 'v) gomap \<Rightarrow> ('k, 'v) gomap" where
  "gm_put \<equiv> AList.update"

abbreviation gm_del :: "'k \<Rightarrow> ('k, 'v) gomap \<Rightarrow> ('k, 'v) gomap" where
  "gm_del \<equiv> AList.delete"

definition gm_ok :: "('k, 'v) gomap \<Rightarrow> bool" where
  "gm_ok m \<longleftrightarrow> distinct (map fst m)"

text \<open>A \<open>range\<close> loop that deletes the entries failing a test.\<close>

definition gm_retain :: "('k \<Rightarrow> 'v \<Rightarrow> bool) \<Rightarrow> ('k, 'v) gomap \<Rightarrow> ('k, 'v) gomap" where
  "gm_retain P m = filter (\<lambda>(k, v). P k v) m"

lemma gm_ok_Nil [simp, inv_intros]: "gm_ok []"
  by (simp add: gm_ok_def)

lemma gm_ok_put [simp, inv_intros]: "gm_ok m \<Longrightarrow> gm_ok (gm_put k v m)"
  by (simp add: gm_ok_def distinct_update)

lemma gm_ok_del [simp, inv_intros]: "gm_ok m \<Longrightarrow> gm_ok (gm_del k m)"
  by (simp add: gm_ok_def distinct_delete)

lemma gm_ok_retain [simp, inv_intros]: "gm_ok m \<Longrightarrow> gm_ok (gm_retain P m)"
  by (simp add: gm_ok_def gm_retain_def distinct_map_filter)

lemma gm_get_put [gomap_simps]: "gm_get (gm_put k v m) x = (if x = k then Some v else gm_get m x)"
  by (simp add: update_conv)

lemma gm_get_del [gomap_simps]: "gm_get (gm_del k m) x = (if x = k then None else gm_get m x)"
  by (simp add: delete_conv)

lemma gm_get_notin: "k \<notin> fst ` set m \<Longrightarrow> gm_get m k = None"
  by (simp add: map_of_eq_None_iff)

lemma gm_get_retain [gomap_simps]:
  "gm_ok m \<Longrightarrow> gm_get (gm_retain P m) k =
     (case gm_get m k of None \<Rightarrow> None | Some v \<Rightarrow> if P k v then Some v else None)"
proof (induction m)
  case Nil
  then show ?case by (simp add: gm_retain_def)
next
  case (Cons kv m)
  obtain a v where kv: "kv = (a, v)" by (cases kv)
  from Cons.prems kv have ok: "gm_ok m" and fresh: "gm_get m a = None"
    by (auto simp: gm_ok_def map_of_eq_None_iff)
  show ?case
    using Cons.IH [OF ok] fresh by (cases "k = a") (simp_all add: kv gm_retain_def)
qed

lemma gm_length_put [gomap_simps]:
  "length (gm_put k v m) = (if gm_get m k = None then Suc (length m) else length m)"
  by (induction m) auto

lemma gm_length_put_le: "length (gm_put k v m) \<le> Suc (length m)"
  by (simp add: gm_length_put)

lemma gm_length_del_le: "length (gm_del k m) \<le> length m"
  by (rule length_delete_le)

lemma gm_length_del_less: "gm_get m k \<noteq> None \<Longrightarrow> length (gm_del k m) < length m"
proof (induction m)
  case (Cons a m)
  then show ?case using gm_length_del_le [of k m] by (cases a) (auto split: if_splits)
qed simp

lemma gm_length_retain_le: "length (gm_retain P m) \<le> length m"
  by (simp add: gm_retain_def)

lemma gm_set_iff: "gm_ok m \<Longrightarrow> (k, v) \<in> set m \<longleftrightarrow> gm_get m k = Some v"
  by (simp add: gm_ok_def)

lemma gm_retain_set [gomap_simps]: "set (gm_retain P m) = {(k, v) \<in> set m. P k v}"
  by (auto simp: gm_retain_def)

lemma gm_retain_retain: "gm_retain P (gm_retain Q m) = gm_retain (\<lambda>k v. P k v \<and> Q k v) m"
  by (simp add: gm_retain_def case_prod_unfold conj_commute)

lemma gm_retain_all: "\<forall>(k, v) \<in> set m. P k v \<Longrightarrow> gm_retain P m = m"
  by (auto simp: gm_retain_def filter_id_conv)

text \<open>A map that is indexed by a field of its values, and a property of all its values.\<close>

definition keyed_by :: "('v \<Rightarrow> 'k) \<Rightarrow> ('k, 'v) gomap \<Rightarrow> bool" where
  "keyed_by f m \<longleftrightarrow> gm_ok m \<and> (\<forall>k v. gm_get m k = Some v \<longrightarrow> f v = k)"

definition gm_all :: "('v \<Rightarrow> bool) \<Rightarrow> ('k, 'v) gomap \<Rightarrow> bool" where
  "gm_all P m \<longleftrightarrow> (\<forall>k v. gm_get m k = Some v \<longrightarrow> P v)"

lemma keyed_by_ok: "keyed_by f m \<Longrightarrow> gm_ok m"
  by (simp add: keyed_by_def)

lemma keyed_byD: "keyed_by f m \<Longrightarrow> gm_get m k = Some v \<Longrightarrow> f v = k"
  by (simp add: keyed_by_def)

lemma keyed_by_Nil [simp, inv_intros]: "keyed_by f []"
  by (simp add: keyed_by_def)

lemma keyed_by_put [inv_intros]: "keyed_by f m \<Longrightarrow> f v = k \<Longrightarrow> keyed_by f (gm_put k v m)"
  unfolding keyed_by_def by (metis gm_get_put gm_ok_put option.inject)

lemma keyed_by_del [inv_intros]: "keyed_by f m \<Longrightarrow> keyed_by f (gm_del k m)"
  unfolding keyed_by_def by (metis gm_get_del gm_ok_del option.distinct(1))

lemma keyed_by_retain [inv_intros]: "keyed_by f m \<Longrightarrow> keyed_by f (gm_retain P m)"
  unfolding keyed_by_def by (auto simp: gm_get_retain split: option.splits if_splits)

lemma gm_allD: "gm_all P m \<Longrightarrow> gm_get m k = Some v \<Longrightarrow> P v"
  by (simp add: gm_all_def)

lemma gm_all_Nil [simp, inv_intros]: "gm_all P []"
  by (simp add: gm_all_def)

lemma gm_all_put [inv_intros]: "gm_all P m \<Longrightarrow> P v \<Longrightarrow> gm_all P (gm_put k v m)"
  unfolding gm_all_def by (metis gm_get_put option.inject)

lemma gm_all_del [inv_intros]: "gm_all P m \<Longrightarrow> gm_all P (gm_del k m)"
  unfolding gm_all_def by (metis gm_get_del option.distinct(1))

lemma gm_all_retain [inv_intros]: "gm_ok m \<Longrightarrow> gm_all P m \<Longrightarrow> gm_all P (gm_retain Q m)"
  unfolding gm_all_def by (auto simp: gm_get_retain split: option.splits if_splits)

lemma gm_length_mono:
  assumes "gm_ok a" and "gm_ok b" and "\<And>k v. gm_get a k = Some v \<Longrightarrow> gm_get b k \<noteq> None"
  shows "length a \<le> length b"
proof -
  have "fst ` set a \<subseteq> fst ` set b"
  proof
    fix k assume "k \<in> fst ` set a"
    then have "gm_get a k \<noteq> None" by (simp add: map_of_eq_None_iff)
    then have "gm_get b k \<noteq> None" using assms(3) by auto
    then show "k \<in> fst ` set b" by (simp add: map_of_eq_None_iff)
  qed
  then have "card (set (map fst a)) \<le> card (set (map fst b))" by (simp add: card_mono)
  moreover have "card (set (map fst a)) = length a" "card (set (map fst b)) = length b"
    using assms(1,2) distinct_card [of "map fst a"] distinct_card [of "map fst b"] by (simp_all add: gm_ok_def)
  ultimately show ?thesis by simp
qed

text \<open>Loading a list into a map: the entries that pass \<open>P\<close>, converted by \<open>g\<close>, later ones first.\<close>

definition gm_load :: "('v \<Rightarrow> 'k) \<Rightarrow> ('a \<Rightarrow> bool) \<Rightarrow> ('a \<Rightarrow> 'v) \<Rightarrow> 'a list \<Rightarrow> ('k, 'v) gomap" where
  "gm_load key P g xs = foldl (\<lambda>m x. if P x then gm_put (key (g x)) (g x) m else m) [] xs"

lemma gm_load_snoc:
  "gm_load key P g (xs @ [x]) = (if P x then gm_put (key (g x)) (g x) (gm_load key P g xs) else gm_load key P g xs)"
  by (simp add: gm_load_def)

lemma gm_load_Nil [simp]: "gm_load key P g [] = []"
  by (simp add: gm_load_def)

lemma gm_load_keyed: "keyed_by key (gm_load key P g xs)"
  by (induction xs rule: rev_induct) (auto simp: gm_load_snoc keyed_by_put)

lemma gm_load_length: "length (gm_load key P g xs) \<le> length xs"
proof (induction xs rule: rev_induct)
  case (snoc x xs)
  then show ?case using gm_length_put_le [of "key (g x)" "g x" "gm_load key P g xs"] by (auto simp: gm_load_snoc)
qed simp

lemma gm_load_mem: "gm_get (gm_load key P g xs) k = Some v \<Longrightarrow> \<exists>x\<in>set xs. P x \<and> v = g x \<and> key v = k"
  by (induction xs rule: rev_induct) (auto simp: gm_load_snoc gm_get_put split: if_splits)

lemma gm_load_get:
  assumes "distinct (map (\<lambda>x. key (g x)) xs)"
  shows "gm_get (gm_load key P g xs) k = Some v \<longleftrightarrow> (\<exists>x\<in>set xs. P x \<and> v = g x \<and> key v = k)"
  using assms
proof (induction xs rule: rev_induct)
  case (snoc x xs)
  show ?case
  proof (cases "P x \<and> key (g x) = k")
    case True
    have "k \<notin> (\<lambda>x. key (g x)) ` set xs" using snoc.prems True by auto
    then have "\<forall>y\<in>set xs. key (g y) \<noteq> k" by blast
    then show ?thesis using True by (auto simp: gm_load_snoc gm_get_put)
  next
    case False
    then have "gm_get (gm_load key P g (xs @ [x])) k = gm_get (gm_load key P g xs) k"
      by (auto simp: gm_load_snoc gm_get_put)
    then show ?thesis using snoc False by auto
  qed
qed simp

section \<open>The finite map interface\<close>

text \<open>What the components rely on of a Go map: lookup after insert, delete and a bounded size.\<close>

locale finite_map =
  fixes get :: "'m \<Rightarrow> 'k \<Rightarrow> 'v option"
    and put :: "'k \<Rightarrow> 'v \<Rightarrow> 'm \<Rightarrow> 'm"
    and del :: "'k \<Rightarrow> 'm \<Rightarrow> 'm"
    and card_of :: "'m \<Rightarrow> nat"
    and ok :: "'m \<Rightarrow> bool"
  assumes get_put: "get (put k v m) x = (if x = k then Some v else get m x)"
    and get_del: "get (del k m) x = (if x = k then None else get m x)"
    and card_put: "card_of (put k v m) = (if get m k = None then Suc (card_of m) else card_of m)"
    and card_del_le: "card_of (del k m) \<le> card_of m"
    and ok_put: "ok m \<Longrightarrow> ok (put k v m)"
    and ok_del: "ok m \<Longrightarrow> ok (del k m)"
begin

lemma get_put_same: "get (put k v m) k = Some v"
  by (simp add: get_put)

lemma put_within_cap:
  assumes "card_of m \<le> cap" and "get m k = None \<Longrightarrow> card_of m < cap"
  shows "card_of (put k v m) \<le> cap"
  using assms by (auto simp: card_put)

lemma replace_within_cap:
  assumes "get m k \<noteq> None"
  shows "card_of (put k v m) = card_of m"
  using assms by (simp add: card_put)

end

interpretation gm: finite_map gm_get gm_put gm_del length gm_ok
  by unfold_locales (auto simp: gomap_simps gm_length_del_le intro: gm_ok_put gm_ok_del)

text \<open>
  A map whose entries expire: \<open>prune t m\<close> deletes exactly the entries that are dead at \<open>t\<close>,
  and an entry that is dead stays dead.
\<close>

locale expiring_map = finite_map get put del card_of ok
  for get :: "'m \<Rightarrow> 'k \<Rightarrow> 'v option" and put :: "'k \<Rightarrow> 'v \<Rightarrow> 'm \<Rightarrow> 'm"
    and del :: "'k \<Rightarrow> 'm \<Rightarrow> 'm" and card_of :: "'m \<Rightarrow> nat" and ok :: "'m \<Rightarrow> bool" +
  fixes dead :: "time \<Rightarrow> 'v \<Rightarrow> bool"
    and prune :: "time \<Rightarrow> 'm \<Rightarrow> 'm"
  assumes get_prune: "ok m \<Longrightarrow> get (prune t m) k =
      (case get m k of None \<Rightarrow> None | Some v \<Rightarrow> if dead t v then None else Some v)"
    and card_prune_le: "card_of (prune t m) \<le> card_of m"
    and ok_prune: "ok m \<Longrightarrow> ok (prune t m)"
    and dead_mono: "dead s v \<Longrightarrow> s \<le> t \<Longrightarrow> dead t v"
begin

lemma prune_live:
  assumes "ok m" and "get (prune t m) k = Some v"
  shows "get m k = Some v \<and> \<not> dead t v"
  using assms by (auto simp: get_prune split: option.splits if_splits)

lemma prune_keeps:
  assumes "ok m" and "get m k = Some v" and "\<not> dead t v"
  shows "get (prune t m) k = Some v"
  using assms by (simp add: get_prune)

lemma prune_twice:
  assumes "ok m" and "s \<le> t"
  shows "get (prune t (prune s m)) k = get (prune t m) k"
  using assms dead_mono [of s _ t]
  by (auto simp: get_prune ok_prune split: option.splits)

end

section \<open>Components driven by a sequence of calls\<close>

fun run_calls :: "('s \<Rightarrow> 'e \<Rightarrow> 's) \<Rightarrow> 's \<Rightarrow> 'e list \<Rightarrow> 's" where
  "run_calls step s [] = s"
| "run_calls step s (e # es) = run_calls step (step s e) es"

fun calls_ok :: "('s \<Rightarrow> 'e \<Rightarrow> bool) \<Rightarrow> ('s \<Rightarrow> 'e \<Rightarrow> 's) \<Rightarrow> 's \<Rightarrow> 'e list \<Rightarrow> bool" where
  "calls_ok ok step s [] \<longleftrightarrow> True"
| "calls_ok ok step s (e # es) \<longleftrightarrow> ok s e \<and> calls_ok ok step (step s e) es"

lemma run_calls_append: "run_calls step s (xs @ ys) = run_calls step (run_calls step s xs) ys"
  by (induction xs arbitrary: s) auto

lemma calls_ok_append:
  "calls_ok ok step s (xs @ ys) \<longleftrightarrow> calls_ok ok step s xs \<and> calls_ok ok step (run_calls step s xs) ys"
  by (induction xs arbitrary: s) auto

lemma calls_ok_True [simp]: "calls_ok (\<lambda>_ _. True) step s es"
  by (induction es arbitrary: s) auto

text \<open>\<open>allowed s e\<close> is what the environment guarantees of a call, e.g. a clock that does not run backwards.\<close>

locale guarded_machine =
  fixes step :: "'s \<Rightarrow> 'e \<Rightarrow> 's"
    and allowed :: "'s \<Rightarrow> 'e \<Rightarrow> bool"
    and inv :: "'s \<Rightarrow> bool"
  assumes step_inv: "inv s \<Longrightarrow> allowed s e \<Longrightarrow> inv (step s e)"
begin

lemma run_inv: "inv s \<Longrightarrow> calls_ok allowed step s es \<Longrightarrow> inv (run_calls step s es)"
  by (induction es arbitrary: s) (auto intro: step_inv)

lemma run_prefix_inv:
  assumes "inv s" and "calls_ok allowed step s (xs @ ys)"
  shows "inv (run_calls step s xs)"
  using assms by (auto simp: calls_ok_append intro: run_inv)

end

text \<open>A machine that also has a load that its invariant keeps below a capacity no call changes.\<close>

locale capped_machine = guarded_machine step allowed inv
  for step :: "'s \<Rightarrow> 'e \<Rightarrow> 's" and allowed :: "'s \<Rightarrow> 'e \<Rightarrow> bool" and inv :: "'s \<Rightarrow> bool" +
  fixes load :: "'s \<Rightarrow> nat" and cap :: "'s \<Rightarrow> nat"
  assumes inv_load: "inv s \<Longrightarrow> load s \<le> cap s"
    and step_cap: "cap (step s e) = cap s"
begin

lemma run_cap: "cap (run_calls step s es) = cap s"
  by (induction es arbitrary: s) (auto simp: step_cap)

lemma run_load:
  assumes "inv s" and "calls_ok allowed step s es"
  shows "load (run_calls step s es) \<le> cap s"
  using inv_load [OF run_inv [OF assms]] by (simp add: run_cap)

end

end
