(* ===== verification/GoStrings.thy ===== *)
theory GoStrings
  imports Prelude "HOL-Library.Char_ord" "HOL-Library.List_Lexorder"
begin

text \<open>
  Go strings: byte sequences, modelled as \<open>string\<close> (a list of 8-bit characters), and the
  functions of \<open>strings\<close>, \<open>unicode\<close> and \<open>unicode/utf8\<close> that the program calls.  A
  \<open>for \_, r := range s\<close> loop sees the runes \<open>runes s\<close>; an invalid byte decodes as U+FFFD of
  width 1, as \<open>utf8.DecodeRuneInString\<close> does.  The tables of \<open>unicode.ToUpper\<close> and
  \<open>unicode.ToLower\<close> above ASCII are arguments (\<open>up\<close>, \<open>low\<close>): they are data of the Unicode
  version Go was built with.  Go's \<open><\<close> on strings is byte-wise, which is the order of
  \<open>Char_ord\<close> and \<open>List_Lexorder\<close>.
\<close>

section \<open>Bytes and runes\<close>

definition byte :: "char \<Rightarrow> nat" where
  "byte c = of_char c"

lemma byte_less [simp]: "byte c < 256"
  using range_nat_of_char by (auto simp: byte_def)

lemma byte_inject [simp]: "byte c = byte d \<longleftrightarrow> c = d"
  by (simp add: byte_def)

lemma byte_char_of [simp]: "n < 256 \<Longrightarrow> byte (char_of n) = n"
  by (simp add: byte_def)

lemma char_of_byte [simp]: "char_of (byte c) = c"
  by (simp add: byte_def)

definition is_ascii :: "string \<Rightarrow> bool" where
  "is_ascii s \<longleftrightarrow> list_all (\<lambda>c. byte c < 128) s"

definition in_range :: "nat \<Rightarrow> nat \<Rightarrow> char \<Rightarrow> bool" where
  "in_range lo hi c \<longleftrightarrow> lo \<le> byte c \<and> byte c \<le> hi"

abbreviation cont_byte :: "char \<Rightarrow> bool" where
  "cont_byte \<equiv> in_range 128 191"

abbreviation rune_error :: nat where "rune_error \<equiv> 65533"

text \<open>\<open>utf8.DecodeRuneInString\<close>: the rune and its width in bytes.\<close>

definition decode1 :: "string \<Rightarrow> nat \<times> nat" where
  "decode1 s = (case s of [] \<Rightarrow> (rune_error, 0) | c0 # r \<Rightarrow>
     let b0 = byte c0; bad = (rune_error, 1) in
     if b0 < 128 then (b0, 1)
     else if b0 < 194 then bad
     else if b0 < 224 then
       (case r of c1 # _ \<Rightarrow> if cont_byte c1 then ((b0 - 192) * 64 + (byte c1 - 128), 2) else bad | _ \<Rightarrow> bad)
     else if b0 < 240 then
       (case r of c1 # c2 # _ \<Rightarrow>
          if in_range (if b0 = 224 then 160 else 128) (if b0 = 237 then 159 else 191) c1 \<and> cont_byte c2
          then ((b0 - 224) * 4096 + (byte c1 - 128) * 64 + (byte c2 - 128), 3) else bad
        | _ \<Rightarrow> bad)
     else if b0 < 245 then
       (case r of c1 # c2 # c3 # _ \<Rightarrow>
          if in_range (if b0 = 240 then 144 else 128) (if b0 = 244 then 143 else 191) c1
             \<and> cont_byte c2 \<and> cont_byte c3
          then ((b0 - 240) * 262144 + (byte c1 - 128) * 4096 + (byte c2 - 128) * 64 + (byte c3 - 128), 4)
          else bad
        | _ \<Rightarrow> bad)
     else bad)"

text \<open>The runes of a string, each with the bytes it was decoded from.\<close>

fun segs :: "string \<Rightarrow> (nat \<times> string) list" where
  "segs [] = []"
| "segs (c # cs) = (case decode1 (c # cs) of (r, w) \<Rightarrow>
     (r, c # take (w - 1) cs) # segs (drop (w - 1) cs))"

definition runes :: "string \<Rightarrow> nat list" where
  "runes s = map fst (segs s)"

text \<open>\<open>utf8.Valid\<close>.\<close>

definition utf8_valid :: "string \<Rightarrow> bool" where
  "utf8_valid s \<longleftrightarrow> list_all (\<lambda>(r, b). \<not> (r = rune_error \<and> length b = 1)) (segs s)"

lemma segs_concat: "concat (map snd (segs s)) = s"
  by (induction s rule: segs.induct) (auto split: prod.split)

lemma decode1_ascii: "byte c < 128 \<Longrightarrow> decode1 (c # cs) = (byte c, 1)"
  by (simp add: decode1_def)

lemma segs_ascii: "is_ascii s \<Longrightarrow> segs s = map (\<lambda>c. (byte c, [c])) s"
  by (induction s) (auto simp: is_ascii_def decode1_ascii)

lemma runes_ascii: "is_ascii s \<Longrightarrow> runes s = map byte s"
  by (simp add: runes_def segs_ascii)

lemma segs_Cons_ascii: "byte c < 128 \<Longrightarrow> segs (c # cs) = (byte c, [c]) # segs cs"
  by (simp add: decode1_ascii)

lemma runes_Nil [simp]: "runes [] = []"
  by (simp add: runes_def)

lemma runes_Cons_ascii: "byte c < 128 \<Longrightarrow> runes (c # cs) = byte c # runes cs"
  by (simp add: runes_def segs_Cons_ascii del: segs.simps)

declare segs.simps(2) [simp del]

lemma is_ascii_Nil [simp]: "is_ascii []"
  by (simp add: is_ascii_def)

lemma is_ascii_Cons [simp]: "is_ascii (c # s) \<longleftrightarrow> byte c < 128 \<and> is_ascii s"
  by (simp add: is_ascii_def)

lemma is_ascii_append [simp]: "is_ascii (s @ t) \<longleftrightarrow> is_ascii s \<and> is_ascii t"
  by (simp add: is_ascii_def)

lemma is_ascii_take [intro]: "is_ascii s \<Longrightarrow> is_ascii (take n s)"
  by (auto simp: is_ascii_def list_all_iff dest: in_set_takeD)

lemma is_ascii_drop [intro]: "is_ascii s \<Longrightarrow> is_ascii (drop n s)"
  by (auto simp: is_ascii_def list_all_iff dest: in_set_dropD)

text \<open>A string whose runes are all ASCII consists of ASCII bytes.\<close>

lemma decode1_rune_ascii: "decode1 (c # cs) = (r, w) \<Longrightarrow> r < 128 \<Longrightarrow> r = byte c \<and> w = 1 \<and> byte c < 128"
  by (auto simp: decode1_def Let_def in_range_def split: if_splits list.splits)

lemma runes_ascii_iff: "list_all (\<lambda>r. r < 128) (runes s) \<longleftrightarrow> is_ascii s"
proof (induction s rule: segs.induct)
  case 1
  then show ?case by (simp add: runes_def)
next
  case (2 c cs)
  obtain r w where d: "decode1 (c # cs) = (r, w)" by (cases "decode1 (c # cs)")
  show ?case
  proof (cases "byte c < 128")
    case True
    with d have "r = byte c" "w = 1" by (simp_all add: decode1_ascii)
    with 2 [OF d [symmetric]] d True show ?thesis by (simp add: runes_def segs.simps(2))
  next
    case False
    with d have "\<not> r < 128" using decode1_rune_ascii [OF d] by blast
    with d False show ?thesis by (simp add: runes_def segs.simps(2))
  qed
qed

text \<open>\<open>utf8.AppendRune\<close>: surrogates and values above U+10FFFF encode as U+FFFD.\<close>

definition encode_rune :: "nat \<Rightarrow> string" where
  "encode_rune r =
    (if r < 128 then [char_of r]
     else if r < 2048 then [char_of (192 + r div 64), char_of (128 + r mod 64)]
     else if r > 1114111 \<or> (55296 \<le> r \<and> r \<le> 57343) then map char_of [239 :: nat, 191, 189]
     else if r < 65536 then
       [char_of (224 + r div 4096), char_of (128 + (r div 64) mod 64), char_of (128 + r mod 64)]
     else [char_of (240 + r div 262144), char_of (128 + (r div 4096) mod 64),
           char_of (128 + (r div 64) mod 64), char_of (128 + r mod 64)])"

definition encode_runes :: "nat list \<Rightarrow> string" where
  "encode_runes rs = concat (map encode_rune rs)"

lemma encode_runes_ascii: "is_ascii s \<Longrightarrow> encode_runes (map byte s) = s"
  by (induction s) (auto simp: encode_runes_def encode_rune_def)

section \<open>Case mapping\<close>

definition upper_rune :: "(nat \<Rightarrow> nat) \<Rightarrow> nat \<Rightarrow> nat" where
  "upper_rune up r = (if r < 128 then (if 97 \<le> r \<and> r \<le> 122 then r - 32 else r) else up r)"

definition lower_rune :: "(nat \<Rightarrow> nat) \<Rightarrow> nat \<Rightarrow> nat" where
  "lower_rune low r = (if r < 128 then (if 65 \<le> r \<and> r \<le> 90 then r + 32 else r) else low r)"

definition to_upper :: "(nat \<Rightarrow> nat) \<Rightarrow> string \<Rightarrow> string" where
  "to_upper up s = encode_runes (map (upper_rune up) (runes s))"

definition to_lower :: "(nat \<Rightarrow> nat) \<Rightarrow> string \<Rightarrow> string" where
  "to_lower low s = encode_runes (map (lower_rune low) (runes s))"

definition upper_char :: "char \<Rightarrow> char" where
  "upper_char c = char_of (upper_rune id (byte c))"

lemma to_upper_ascii: "is_ascii s \<Longrightarrow> to_upper up s = map upper_char s"
  by (induction s)
     (auto simp: to_upper_def runes_ascii encode_runes_def encode_rune_def upper_rune_def upper_char_def)

section \<open>White space\<close>

text \<open>\<open>unicode.IsSpace\<close>.\<close>

definition is_space :: "nat \<Rightarrow> bool" where
  "is_space r \<longleftrightarrow> (9 \<le> r \<and> r \<le> 13) \<or> r = 32 \<or> r = 133 \<or> r = 160 \<or> r = 5760
     \<or> (8192 \<le> r \<and> r \<le> 8202) \<or> r = 8232 \<or> r = 8233 \<or> r = 8239 \<or> r = 8287 \<or> r = 12288"

abbreviation space_seg :: "nat \<times> string \<Rightarrow> bool" where
  "space_seg \<equiv> \<lambda>(r, _). is_space r"

definition trim_space :: "string \<Rightarrow> string" where
  "trim_space s = concat (map snd (rev (dropWhile space_seg (rev (dropWhile space_seg (segs s))))))"

lemma trim_space_id:
  assumes "is_ascii s" and "s \<noteq> [] \<Longrightarrow> \<not> is_space (byte (hd s))"
    and "s \<noteq> [] \<Longrightarrow> \<not> is_space (byte (last s))"
  shows "trim_space s = s"
proof (cases "s = []")
  case True
  then show ?thesis by (simp add: trim_space_def)
next
  case False
  let ?f = "\<lambda>c. (byte c, [c])"
  have hd: "dropWhile space_seg (map ?f s) = map ?f s"
    using assms(2) [OF False] False by (cases s) auto
  have tl: "dropWhile space_seg (rev (map ?f s)) = rev (map ?f s)"
    using assms(3) [OF False] False by (cases s rule: rev_cases) auto
  show ?thesis
    using assms(1) by (simp add: trim_space_def segs_ascii hd tl comp_def)
qed

text \<open>\<open>strings.Fields\<close>: the maximal runs of non-space runes.\<close>

fun fields_segs :: "string \<Rightarrow> (nat \<times> string) list \<Rightarrow> string list" where
  "fields_segs acc [] = (if acc = [] then [] else [acc])"
| "fields_segs acc ((r, b) # ss) =
     (if is_space r then (if acc = [] then fields_segs [] ss else acc # fields_segs [] ss)
      else fields_segs (acc @ b) ss)"

definition str_fields :: "string \<Rightarrow> string list" where
  "str_fields s = fields_segs [] (segs s)"

section \<open>Prefixes, suffixes, search\<close>

definition has_prefix :: "string \<Rightarrow> string \<Rightarrow> bool" where
  "has_prefix s p \<longleftrightarrow> take (length p) s = p"

definition trim_prefix :: "string \<Rightarrow> string \<Rightarrow> string" where
  "trim_prefix s p = (if has_prefix s p then drop (length p) s else s)"

definition has_suffix :: "string \<Rightarrow> string \<Rightarrow> bool" where
  "has_suffix s p \<longleftrightarrow> length p \<le> length s \<and> drop (length s - length p) s = p"

definition trim_suffix :: "string \<Rightarrow> string \<Rightarrow> string" where
  "trim_suffix s p = (if has_suffix s p then take (length s - length p) s else s)"

lemma has_prefix_append [simp]: "has_prefix (p @ s) p"
  by (simp add: has_prefix_def)

lemma has_prefix_iff: "has_prefix s p \<longleftrightarrow> (\<exists>t. s = p @ t)"
  by (metis append_take_drop_id has_prefix_append has_prefix_def)

lemma trim_prefix_append [simp]: "trim_prefix (p @ s) p = s"
  by (simp add: trim_prefix_def)

lemma has_suffix_iff: "has_suffix s p \<longleftrightarrow> (\<exists>t. s = t @ p)"
proof
  assume "has_suffix s p"
  then show "\<exists>t. s = t @ p"
    unfolding has_suffix_def by (metis append_take_drop_id)
next
  assume "\<exists>t. s = t @ p"
  then show "has_suffix s p" by (auto simp: has_suffix_def)
qed

lemma trim_suffix_append [simp]: "trim_suffix (s @ p) p = s"
  by (simp add: trim_suffix_def has_suffix_def)

text \<open>\<open>strings.IndexByte\<close>, with \<open>None\<close> for -1.\<close>

fun index_byte :: "char \<Rightarrow> string \<Rightarrow> nat option" where
  "index_byte c [] = None"
| "index_byte c (d # s) = (if c = d then Some 0 else map_option Suc (index_byte c s))"

text \<open>\<open>strings.ReplaceAll\<close> of one byte by another.\<close>

definition replace_char :: "char \<Rightarrow> char \<Rightarrow> string \<Rightarrow> string" where
  "replace_char a b s = map (\<lambda>c. if c = a then b else c) s"

text \<open>\<open>strings.Split\<close> on a one-byte separator: always at least one part.\<close>

fun split_on :: "char \<Rightarrow> string \<Rightarrow> string list" where
  "split_on d [] = [[]]"
| "split_on d (c # s) =
     (if c = d then [] # split_on d s
      else (case split_on d s of p # ps \<Rightarrow> (c # p) # ps | [] \<Rightarrow> [[c]]))"

fun join_with :: "string \<Rightarrow> string list \<Rightarrow> string" where
  "join_with d [] = []"
| "join_with d [p] = p"
| "join_with d (p # q # ps) = p @ d @ join_with d (q # ps)"

lemma split_on_nonempty [simp]: "split_on d s \<noteq> []"
  by (induction s) (auto split: list.splits)

lemma split_on_sep: "split_on d (s @ d # t) = split_on d s @ split_on d t"
proof (induction s)
  case (Cons c s)
  then show ?case by (cases "split_on d s") auto
qed simp

lemma join_split: "join_with [d] (split_on d s) = s"
proof (induction s)
  case (Cons c s)
  obtain p ps where s: "split_on d s = p # ps" by (cases "split_on d s") auto
  then show ?case using Cons by (cases ps) auto
qed simp

text \<open>\<open>strings.EqualFold\<close>; \<open>simple_fold\<close> takes a rune beyond ASCII to a representative of its folding class.\<close>

definition equal_fold :: "(nat \<Rightarrow> nat) \<Rightarrow> string \<Rightarrow> string \<Rightarrow> bool" where
  "equal_fold simple_fold s t \<longleftrightarrow> map (lower_rune simple_fold) (runes s) = map (lower_rune simple_fold) (runes t)"

text \<open>\<open>strings.TrimRight\<close> / \<open>TrimLeft\<close> with a set of ASCII bytes.\<close>

definition trim_right_chars :: "string \<Rightarrow> string \<Rightarrow> string" where
  "trim_right_chars cs s = rev (dropWhile (\<lambda>c. c \<in> set cs) (rev s))"

definition trim_left_chars :: "string \<Rightarrow> string \<Rightarrow> string" where
  "trim_left_chars cs s = dropWhile (\<lambda>c. c \<in> set cs) s"

end
