(* ===== verification/FixedWindow.thy ===== *)
theory FixedWindow
  imports Prelude
begin

text \<open>
  The contract the three rate limiters of \<open>internal/auth\<close> share (the per-address counter of
  \<open>PairingManager\<close>, the per-address and the global bucket of \<open>requestLimiter\<close>): a counter
  for a window that opens with a call and closes a fixed time later.  The bound on what such a
  limiter lets through in one window is proved once, in the locale \<open>fixed_window\<close>.
\<close>

text \<open>The answers of a limiter to a sequence of calls.\<close>

fun call_all :: "('s \<Rightarrow> 'e \<Rightarrow> bool \<times> 's) \<Rightarrow> 's \<Rightarrow> 'e list \<Rightarrow> ('e \<times> bool) list" where
  "call_all call s [] = []"
| "call_all call s (e # es) = (case call s e of (b, s') \<Rightarrow> (e, b) # call_all call s' es)"

definition granted :: "('e \<Rightarrow> bool) \<Rightarrow> ('e \<times> bool) list \<Rightarrow> int" where
  "granted mine rs = int (length (filter (\<lambda>(e, b). mine e \<and> b) rs))"

lemma granted_Nil [simp]: "granted mine [] = 0"
  by (simp add: granted_def)

lemma granted_Cons [simp]: "granted mine ((e, b) # rs) = (if mine e \<and> b then 1 else 0) + granted mine rs"
  by (simp add: granted_def)

lemma granted_cong:
  "list_all (\<lambda>e. mine e \<longleftrightarrow> mine' e) es \<Longrightarrow> granted mine (call_all call s es) = granted mine' (call_all call s es)"
  by (induction es arbitrary: s) (auto split: prod.split)

text \<open>
  \<open>counter s\<close> is the end of the window that the state \<open>s\<close> counts in and what it has counted;
  \<open>mine e\<close> selects the calls the counter is about.  A rejected call may count (it does in
  \<open>PairingManager\<close>) or not (it does not in \<open>requestLimiter\<close>).
\<close>

locale fixed_window =
  fixes call :: "'s \<Rightarrow> 'e \<Rightarrow> bool \<times> 's"
    and stamp :: "'e \<Rightarrow> time"
    and mine :: "'e \<Rightarrow> bool"
    and counter :: "'s \<Rightarrow> (time \<times> int) option"
    and limit :: "'s \<Rightarrow> int"
    and window :: "'s \<Rightarrow> duration"
    and good :: "'s \<Rightarrow> bool"
  assumes good_step: "good s \<Longrightarrow> good (snd (call s e))"
    and limit_step: "limit (snd (call s e)) = limit s"
    and window_step: "window (snd (call s e)) = window s"
    and live_step: "good s \<Longrightarrow> counter s = Some (r, n) \<Longrightarrow> stamp e < r \<Longrightarrow>
      \<exists>n'. counter (snd (call s e)) = Some (r, n') \<and> n \<le> n'
        \<and> (mine e \<and> fst (call s e) \<longrightarrow> n + 1 \<le> n' \<and> n + 1 \<le> limit s)"
    and idle_step: "good s \<Longrightarrow> \<forall>r n. counter s = Some (r, n) \<longrightarrow> r \<le> stamp e \<Longrightarrow>
      (\<not> (mine e \<and> fst (call s e)) \<and> (counter (snd (call s e)) = None \<or> counter (snd (call s e)) = counter s))
      \<or> (\<exists>n'. counter (snd (call s e)) = Some (stamp e + window s, n') \<and> 0 \<le> n'
          \<and> (mine e \<and> fst (call s e) \<longrightarrow> 1 \<le> n' \<and> 1 \<le> limit s))"
begin

lemma live_bound:
  assumes "good s" and "counter s = Some (r, n)" and "list_all (\<lambda>e. stamp e < r) es"
  shows "granted mine (call_all call s es) \<le> max 0 (limit s - n)"
  using assms
proof (induction es arbitrary: s n)
  case Nil
  then show ?case by simp
next
  case (Cons e es)
  obtain b s' where c: "call s e = (b, s')" by fastforce
  from live_step [OF Cons.prems(1,2), of e] Cons.prems(3) c obtain n' where
    n': "counter s' = Some (r, n')" "n \<le> n'" "mine e \<and> b \<longrightarrow> n + 1 \<le> n' \<and> n + 1 \<le> limit s"
    by auto
  have "granted mine (call_all call s' es) \<le> max 0 (limit s' - n')"
    using good_step [OF Cons.prems(1), of e] c n'(1) Cons.prems(3) by (intro Cons.IH) auto
  moreover have "limit s' = limit s" using limit_step [of s e] c by simp
  ultimately show ?case using c n'(2,3) by auto
qed

text \<open>Calls in one window's time, starting when no counter is running.\<close>

lemma window_bound:
  assumes "good s" and "\<forall>r n. counter s = Some (r, n) \<longrightarrow> r \<le> t0"
    and "list_all (\<lambda>e. t0 \<le> stamp e \<and> stamp e < t0 + window s) es"
  shows "granted mine (call_all call s es) \<le> max 0 (limit s)"
  using assms
proof (induction es arbitrary: s)
  case Nil
  then show ?case by simp
next
  case (Cons e es)
  obtain b s' where c: "call s e = (b, s')" by fastforce
  have stamps: "t0 \<le> stamp e" "list_all (\<lambda>e. t0 \<le> stamp e \<and> stamp e < t0 + window s) es"
    using Cons.prems(3) by auto
  have good': "good s'" and lim: "limit s' = limit s" and win: "window s' = window s"
    using good_step [OF Cons.prems(1), of e] limit_step [of s e] window_step [of s e] c by auto
  have idle: "\<forall>r n. counter s = Some (r, n) \<longrightarrow> r \<le> stamp e"
    using Cons.prems(2) stamps(1) by force
  from idle_step [OF Cons.prems(1) idle] c consider
      "\<not> (mine e \<and> b)" "counter s' = None \<or> counter s' = counter s"
    | n' where "counter s' = Some (stamp e + window s, n')" "0 \<le> n'" "mine e \<and> b \<longrightarrow> 1 \<le> n' \<and> 1 \<le> limit s"
    by auto
  then show ?case
  proof cases
    case 1
    then have "granted mine (call_all call s' es) \<le> max 0 (limit s')"
      using good' Cons.prems(2) stamps(2) win by (intro Cons.IH) auto
    with 1(1) c lim show ?thesis by auto
  next
    case 2
    have "list_all (\<lambda>e'. stamp e' < stamp e + window s) es"
      using stamps by (auto simp: list_all_iff)
    with live_bound [OF good' 2(1)] have "granted mine (call_all call s' es) \<le> max 0 (limit s' - n')" .
    with 2(2,3) c lim show ?thesis by auto
  qed
qed

end

end
