(* ===== verification/Pairing.thy ===== *)
theory Pairing
  imports GoStrings FixedWindow
begin

text \<open>
  \<open>internal/auth/pairing.go\<close>: the one-time pairing code.  \<open>pairing_manager\<close> is the struct
  \<open>PairingManager\<close> (its mutex makes every method atomic, so a method is one state
  transformer); \<open>sha256\<close> is \<open>crypto/sha256.Sum256\<close> and the random bytes of \<open>crypto/rand\<close> are
  arguments.  Methods read the clock once, at the start, as the code does.
\<close>

section \<open>Random strings without modulo bias\<close>

text \<open>
  \<open>randomString\<close> fills buffers of random bytes and keeps the bytes below a threshold.  A
  buffer is \<open>Some bs\<close>, or \<open>None\<close> when \<open>rand.Read\<close> fails.  The outer loop has no bound of
  its own: \<open>RSMore\<close> is the state in which it asks for another buffer.
\<close>

datatype rs_result = RSErr string | RSMore | RSOk string

definition rs_threshold :: "string \<Rightarrow> 8 word" where
  "rs_threshold alphabet = of_nat (256 - 256 mod length alphabet)"

fun rs_scan :: "8 word \<Rightarrow> string \<Rightarrow> nat \<Rightarrow> string \<Rightarrow> 8 word list \<Rightarrow> string" where
  "rs_scan threshold alphabet n result [] = result"
| "rs_scan threshold alphabet n result (v # buffer) =
     (if threshold \<le> v then rs_scan threshold alphabet n result buffer
      else let result' = result @ [alphabet ! (unat v mod length alphabet)] in
        if length result' = n then result' else rs_scan threshold alphabet n result' buffer)"

fun rs_loop :: "8 word \<Rightarrow> string \<Rightarrow> nat \<Rightarrow> string \<Rightarrow> 8 word list option list \<Rightarrow> rs_result" where
  "rs_loop threshold alphabet n result buffers =
     (if length result < n then
        (case buffers of
           [] \<Rightarrow> RSMore
         | None # _ \<Rightarrow> RSErr ''rand''
         | Some b # rest \<Rightarrow> rs_loop threshold alphabet n (rs_scan threshold alphabet n result b) rest)
      else RSOk result)"

declare rs_loop.simps [simp del]

definition random_string :: "string \<Rightarrow> int \<Rightarrow> 8 word list option list \<Rightarrow> rs_result" where
  "random_string alphabet len buffers =
     (if len \<le> 0 \<or> length alphabet = 0 \<or> length alphabet > 256
      then RSErr ''invalid random string parameters''
      else rs_loop (rs_threshold alphabet) alphabet (nat len) [] buffers)"

definition pairing_alphabet :: string where
  "pairing_alphabet = ''ABCDEFGHJKMNPQRSTUVWXYZ23456789''"

definition session_alphabet :: string where
  "session_alphabet = ''abcdefghijklmnopqrstuvwxyzABCDEFGHIJKLMNOPQRSTUVWXYZ0123456789''"

section \<open>The manager\<close>

datatype pairing_failure =
  PairingInvalid | PairingExpired | PairingTooManyAttempts | PairingRateLimited | PairingNoSession

record pairing_result =
  pr_ok :: bool
  pr_session_id :: string
  pr_failure :: "pairing_failure option"
  pr_attempts_left :: int

definition failed :: "pairing_failure \<Rightarrow> int \<Rightarrow> pairing_result" where
  "failed f n = \<lparr>pr_ok = False, pr_session_id = [], pr_failure = Some f, pr_attempts_left = n\<rparr>"

definition paired :: "string \<Rightarrow> pairing_result" where
  "paired sid = \<lparr>pr_ok = True, pr_session_id = sid, pr_failure = None, pr_attempts_left = 0\<rparr>"

text \<open>\<open>PairingStateUnset\<close> is the empty string, the zero value of the field.\<close>

datatype pairing_state =
  PairingStateUnset | PairingStateIdle | PairingStateActive | PairingStateConsumed
| PairingStateExpired | PairingStateLocked | PairingStateInvalidated

record pairing_status =
  pst_state :: pairing_state
  pst_changed_at :: time

record pairing_options =
  po_ttl :: duration
  po_max_attempts :: int
  po_ip_limit :: int
  po_ip_window :: duration
  po_max_tracked_ips :: int

record pairing_session =
  ps_id :: string
  ps_hash :: string
  ps_created_at :: time
  ps_expires_at :: time
  ps_attempts_left :: int

record ip_counter =
  ic_count :: int
  ic_reset_at :: time

record pairing_manager =
  pm_ttl :: duration
  pm_max_attempts :: int
  pm_ip_limit :: int
  pm_ip_window :: duration
  pm_max_tracked_ips :: int
  pm_session :: "pairing_session option"
  pm_state :: pairing_state
  pm_changed_at :: time
  pm_ip_hits :: "(string, ip_counter) gomap"

definition new_pairing_manager :: "pairing_options \<Rightarrow> pairing_manager" where
  "new_pairing_manager opt =
    \<lparr>pm_ttl = (if po_ttl opt \<le> 0 then 5 * minute else po_ttl opt),
     pm_max_attempts = (if po_max_attempts opt \<le> 0 then 5 else po_max_attempts opt),
     pm_ip_limit = (if po_ip_limit opt \<le> 0 then 10 else po_ip_limit opt),
     pm_ip_window = (if po_ip_window opt \<le> 0 then minute else po_ip_window opt),
     pm_max_tracked_ips = (if po_max_tracked_ips opt \<le> 0 then 2048 else po_max_tracked_ips opt),
     pm_session = None, pm_state = PairingStateUnset, pm_changed_at = zero_time, pm_ip_hits = []\<rparr>"

text \<open>
  \<open>normalizePairingCode\<close>: the empty string for anything that is not eight letters of the
  alphabet, with or without the dash.  The length test and the slices count bytes of the
  upper-cased string, the last loop its runes.
\<close>

definition code_runes_ok :: "string \<Rightarrow> bool" where
  "code_runes_ok v \<longleftrightarrow> list_all (\<lambda>r. r \<in> set (map byte pairing_alphabet)) (runes v)"

definition normalize_pairing_code :: "(nat \<Rightarrow> nat) \<Rightarrow> string \<Rightarrow> string" where
  "normalize_pairing_code up input =
    (let v = to_upper up (trim_space input) in
     if length v = 8 then (if code_runes_ok v then v else [])
     else if length v = 9 then
       (if v ! 4 \<noteq> CHR ''-'' then []
        else let v' = take 4 v @ drop 5 v in if code_runes_ok v' then v' else [])
     else [])"

text \<open>The code shown to the user: two groups of four.\<close>

definition format_code :: "string \<Rightarrow> string" where
  "format_code raw = take 4 raw @ ''-'' @ drop 4 raw"

text \<open>
  \<open>Create\<close>: \<open>raw\<close> and \<open>sid\<close> are the results of the two \<open>randomString\<close> calls, \<open>None\<close> an
  error of theirs; nothing changes then.
\<close>

definition pm_create ::
  "(string \<Rightarrow> string) \<Rightarrow> string option \<Rightarrow> string option \<Rightarrow> time \<Rightarrow> pairing_manager
     \<Rightarrow> (string \<times> time) option \<times> pairing_manager" where
  "pm_create sha256 raw sid now m =
    (case (raw, sid) of
       (Some r, Some i) \<Rightarrow>
         (Some (format_code r, now + pm_ttl m),
          m\<lparr>pm_session := Some \<lparr>ps_id = i, ps_hash = sha256 r, ps_created_at = now,
               ps_expires_at = now + pm_ttl m, ps_attempts_left = pm_max_attempts m\<rparr>,
            pm_state := PairingStateActive, pm_changed_at := now\<rparr>)
     | _ \<Rightarrow> (None, m))"

definition ip_dead :: "time \<Rightarrow> ip_counter \<Rightarrow> bool" where
  "ip_dead now c \<longleftrightarrow> \<not> now < ic_reset_at c"

definition prune_ips :: "time \<Rightarrow> (string, ip_counter) gomap \<Rightarrow> (string, ip_counter) gomap" where
  "prune_ips now m = gm_retain (\<lambda>_ c. \<not> ip_dead now c) m"

definition allow_ip :: "string \<Rightarrow> time \<Rightarrow> pairing_manager \<Rightarrow> bool \<times> pairing_manager" where
  "allow_ip ip now m =
    (if ip = [] then (True, m)
     else let hits = prune_ips now (pm_ip_hits m) in
       case gm_get hits ip of
         None \<Rightarrow>
           if pm_max_tracked_ips m \<le> int (length hits) then (False, m\<lparr>pm_ip_hits := hits\<rparr>)
           else (True, m\<lparr>pm_ip_hits :=
                   gm_put ip \<lparr>ic_count = 1, ic_reset_at = now + pm_ip_window m\<rparr> hits\<rparr>)
       | Some c \<Rightarrow>
           let c' = c\<lparr>ic_count := ic_count c + 1\<rparr> in
           (ic_count c' \<le> pm_ip_limit m, m\<lparr>pm_ip_hits := gm_put ip c' hits\<rparr>))"

definition close_session :: "pairing_state \<Rightarrow> time \<Rightarrow> pairing_manager \<Rightarrow> pairing_manager" where
  "close_session st now m = m\<lparr>pm_session := None, pm_state := st, pm_changed_at := now\<rparr>"

text \<open>The part of \<open>Verify\<close> after the rate limit.\<close>

definition check_code ::
  "(string \<Rightarrow> string) \<Rightarrow> string \<Rightarrow> time \<Rightarrow> pairing_manager \<Rightarrow> pairing_result \<times> pairing_manager" where
  "check_code sha256 normalized now m =
    (case pm_session m of
       None \<Rightarrow> (failed PairingNoSession 0, m)
     | Some s \<Rightarrow>
         if \<not> now < ps_expires_at s then
           (failed PairingExpired 0, close_session PairingStateExpired now m)
         else if ps_attempts_left s \<le> 0 then
           (failed PairingTooManyAttempts 0, close_session PairingStateLocked now m)
         else if sha256 normalized = ps_hash s then
           (paired (ps_id s), close_session PairingStateConsumed now m)
         else
           let s' = s\<lparr>ps_attempts_left := ps_attempts_left s - 1\<rparr> in
           if ps_attempts_left s' \<le> 0 then
             (failed PairingTooManyAttempts 0, close_session PairingStateLocked now m)
           else (failed PairingInvalid (ps_attempts_left s'), m\<lparr>pm_session := Some s'\<rparr>))"

definition pm_verify ::
  "(nat \<Rightarrow> nat) \<Rightarrow> (string \<Rightarrow> string) \<Rightarrow> string \<Rightarrow> string \<Rightarrow> time \<Rightarrow> pairing_manager
     \<Rightarrow> pairing_result \<times> pairing_manager" where
  "pm_verify up sha256 input ip now m =
    (case allow_ip ip now m of
       (False, m') \<Rightarrow> (failed PairingRateLimited 0, m')
     | (True, m') \<Rightarrow> check_code sha256 (normalize_pairing_code up input) now m')"

definition pm_status :: "time \<Rightarrow> pairing_manager \<Rightarrow> pairing_status \<times> pairing_manager" where
  "pm_status now m =
    (let m' = (case pm_session m of
                 Some s \<Rightarrow> if \<not> now < ps_expires_at s then close_session PairingStateExpired now m else m
               | None \<Rightarrow> m);
         st = (if pm_state m' = PairingStateUnset then PairingStateIdle else pm_state m')
     in (\<lparr>pst_state = st, pst_changed_at = pm_changed_at m'\<rparr>, m'))"

definition pm_active :: "time \<Rightarrow> pairing_manager \<Rightarrow> bool \<times> pairing_manager" where
  "pm_active now m = (case pm_status now m of (st, m') \<Rightarrow> (pst_state st = PairingStateActive, m'))"

definition pm_invalidate :: "time \<Rightarrow> pairing_manager \<Rightarrow> pairing_manager" where
  "pm_invalidate now m = close_session PairingStateInvalidated now m"

section \<open>Random strings: bounds, fairness, termination\<close>

lemma rs_scan_inv:
  assumes "length result < n" and "set result \<subseteq> set alphabet" and "alphabet \<noteq> []"
  shows "length (rs_scan threshold alphabet n result buffer) \<le> n
    \<and> set (rs_scan threshold alphabet n result buffer) \<subseteq> set alphabet"
  using assms
proof (induction buffer arbitrary: result)
  case Nil
  then show ?case by simp
next
  case (Cons v buffer)
  let ?result = "result @ [alphabet ! (unat v mod length alphabet)]"
  have mem: "alphabet ! (unat v mod length alphabet) \<in> set alphabet"
    using Cons.prems(3) by simp
  show ?case
  proof (cases "threshold \<le> v \<or> length ?result = n")
    case True
    then show ?thesis using Cons mem by (auto simp: Let_def)
  next
    case False
    then have "length ?result < n" using Cons.prems(1) by auto
    then show ?thesis using Cons.IH [of ?result] Cons.prems False mem by (auto simp: Let_def)
  qed
qed

lemma rs_loop_inv:
  assumes "length result \<le> n" and "set result \<subseteq> set alphabet" and "alphabet \<noteq> []"
    and "rs_loop threshold alphabet n result buffers = RSOk s"
  shows "length s = n \<and> set s \<subseteq> set alphabet"
  using assms
proof (induction buffers arbitrary: result)
  case Nil
  then show ?case by (auto simp: rs_loop.simps split: if_splits)
next
  case (Cons b buffers)
  show ?case
  proof (cases "length result < n")
    case False
    then show ?thesis using Cons.prems by (simp add: rs_loop.simps)
  next
    case True
    then obtain bs where b: "b = Some bs"
      using Cons.prems(4) by (cases b) (auto simp: rs_loop.simps)
    then show ?thesis
      using Cons.IH [of "rs_scan threshold alphabet n result bs"] Cons.prems True
        rs_scan_inv [OF True Cons.prems(2,3), of threshold bs]
      by (auto simp: rs_loop.simps [of _ _ _ result])
  qed
qed

lemma random_string_sound:
  assumes "random_string alphabet len buffers = RSOk s"
  shows "int (length s) = len \<and> set s \<subseteq> set alphabet"
  using assms rs_loop_inv [of "[]" "nat len" alphabet "rs_threshold alphabet" buffers s]
  by (auto simp: random_string_def split: if_splits)

text \<open>The threshold, away from the wrap-around of \<open>byte(256)\<close>, is the largest multiple of the size.\<close>

lemma unat_rs_threshold:
  "unat (rs_threshold alphabet) =
     (if length alphabet dvd 256 then 0 else 256 - 256 mod length alphabet)"
proof -
  have "unat (rs_threshold alphabet) = (256 - 256 mod length alphabet) mod 256"
    unfolding rs_threshold_def by (subst unat_of_nat) simp
  then show ?thesis by (auto simp: dvd_eq_mod_eq_0)
qed

lemma rs_threshold_mult:
  assumes "\<not> length alphabet dvd 256"
  shows "unat (rs_threshold alphabet) = length alphabet * (256 div length alphabet)"
proof -
  have "256 mod length alphabet + length alphabet * (256 div length alphabet) = (256 :: nat)"
    by (rule mod_mult_div_eq)
  then have "256 - 256 mod length alphabet = length alphabet * (256 div length alphabet)"
    by linarith
  with assms show ?thesis by (simp add: unat_rs_threshold)
qed

lemma accepted_preimages:
  fixes t :: "8 word" and k q i :: nat
  assumes "unat t = k * q" and "i < k"
  shows "unat ` {v :: 8 word. v < t \<and> unat v mod k = i} = (\<lambda>j. i + k * j) ` {..<q}"
    (is "?L = ?R")
proof (rule set_eqI, rule iffI)
  fix x assume "x \<in> ?L"
  then obtain v :: "8 word" where v: "x = unat v" "v < t" "unat v mod k = i" by auto
  have "unat v < k * q" using v(2) assms(1) by (simp add: word_less_nat_alt)
  then have "unat v div k < q" by (simp add: less_mult_imp_div_less mult.commute)
  moreover have "x = i + k * (unat v div k)"
    using v(1,3) mod_mult_div_eq [of "unat v" k] by simp
  ultimately show "x \<in> ?R" by auto
next
  fix x assume "x \<in> ?R"
  then obtain j where j: "j < q" "x = i + k * j" by auto
  have "k * Suc j \<le> k * q" using j(1) by (intro mult_le_mono2) simp
  then have lt: "x < k * q" using j(2) assms(2) by simp
  have "unat t < 2 ^ LENGTH(8)" by (rule unsigned_less)
  then have "x < 256" using lt assms(1) by simp
  then have u: "unat (of_nat x :: 8 word) = x" by (simp add: unat_of_nat)
  have "x mod k = i" using j(2) assms(2) by simp
  with lt u assms(1) have "(of_nat x :: 8 word) \<in> {v. v < t \<and> unat v mod k = i}"
    by (simp add: word_less_nat_alt)
  with u show "x \<in> ?L" by (metis (mono_tags, lifting) image_eqI)
qed

lemma inj_unat: "inj (unat :: 'a :: len word \<Rightarrow> nat)"
  by (rule injI) (simp add: word_unat_eq_iff)

text \<open>
  every character of an alphabet is produced by the same number of accepted random bytes,
  so \<open>randomString\<close> has no modulo bias (whenever the alphabet size does not divide 256, as for
  the two alphabets the program uses).
\<close>

theorem random_string_unbiased:
  assumes "alphabet \<noteq> []" and "\<not> length alphabet dvd 256" and "i < length alphabet"
  shows "card {v :: 8 word. v < rs_threshold alphabet \<and> unat v mod length alphabet = i}
    = 256 div length alphabet"
proof -
  let ?k = "length alphabet"
  let ?A = "{v :: 8 word. v < rs_threshold alphabet \<and> unat v mod ?k = i}"
  have "card (unat ` ?A) = card ?A"
    by (rule card_image) (rule inj_on_subset [OF inj_unat], simp)
  moreover have "card (unat ` ?A) = card ((\<lambda>j. i + ?k * j) ` {..<256 div ?k})"
    using accepted_preimages [OF rs_threshold_mult [OF assms(2)] assms(3)] by simp
  moreover have "card ((\<lambda>j. i + ?k * j) ` {..<256 div ?k}) = 256 div ?k"
    using assms(1) by (subst card_image) (auto intro!: inj_onI)
  ultimately show ?thesis by simp
qed

lemma length_pairing_alphabet: "length pairing_alphabet = 31"
  by (simp add: pairing_alphabet_def)

theorem random_string_unbiased_witness:
  "card {v :: 8 word. v < rs_threshold pairing_alphabet \<and> unat v mod length pairing_alphabet = 7} = 8"
  using random_string_unbiased [of pairing_alphabet 7]
  by (simp add: length_pairing_alphabet) (simp add: pairing_alphabet_def)

lemma rs_scan_threshold_0: "rs_scan 0 alphabet n result buffer = result"
  by (induction buffer) auto

lemma rs_loop_threshold_0:
  "length result < n \<Longrightarrow> rs_loop 0 alphabet n result buffers = (if None \<in> set buffers then RSErr ''rand'' else RSMore)"
proof (induction buffers)
  case Nil
  then show ?case by (simp add: rs_loop.simps)
next
  case (Cons b buffers)
  then show ?case by (cases b) (simp_all add: rs_loop.simps [of _ _ _ result] rs_scan_threshold_0)
qed

text \<open>
  C37: If the size of the alphabet divides 256, \<open>byte(256)\<close> wraps to the threshold 0 and every random byte
  is rejected: \<open>randomString\<close> never returns a string, it asks for another buffer after every buffer it is
  given and ends only when the source of random bytes fails, with its error.  (The two alphabets of the program
  have 31 and 62 characters, so no caller reaches this.)
\<close>

theorem random_string_never_ends:
  assumes "length alphabet dvd 256" and "0 < len"
  shows "random_string alphabet len buffers = (if None \<in> set buffers then RSErr ''rand'' else RSMore)"
proof -
  have "rs_threshold alphabet = 0"
    using assms(1) by (simp add: unat_rs_threshold word_unat_eq_iff)
  moreover have "alphabet \<noteq> []" "length alphabet \<le> 256"
    using assms(1) by (auto dest: dvd_imp_le)
  ultimately show ?thesis
    using rs_loop_threshold_0 [of "[]" "nat len" alphabet buffers] assms(2) by (simp add: random_string_def)
qed

theorem random_string_never_ends_witness:
  "\<forall>n. random_string ''0123456789abcdef'' 4 (replicate n (Some [1, 2, 3, 4, 5, 6, 7, 8])) = RSMore"
proof -
  have "length ''0123456789abcdef'' = 16" by simp
  then have d: "length ''0123456789abcdef'' dvd 256" by presburger
  from random_string_never_ends [OF d, of 4] show ?thesis by simp
qed

text \<open>A buffer with enough accepted bytes finishes the string.\<close>

lemma rs_scan_enough:
  assumes "length result < n" and "n \<le> length result + length (filter (\<lambda>v. v < threshold) buffer)"
  shows "length (rs_scan threshold alphabet n result buffer) = n"
  using assms
proof (induction buffer arbitrary: result)
  case (Cons v buffer)
  then show ?case
    using Cons.IH [of result]
      Cons.IH [of "result @ [alphabet ! (unat v mod length alphabet)]"]
    by (auto simp: Let_def not_le split: if_splits)
qed simp

text \<open>
  \<open>randomString\<close> returns as soon as one buffer holds enough bytes below the threshold, and
  what it returns has the requested length and only characters of the alphabet.
\<close>

theorem random_string_returns:
  assumes "0 < len" and "alphabet \<noteq> []" and "length alphabet \<le> 256"
    and "nat len \<le> length (filter (\<lambda>v. v < rs_threshold alphabet) buffer)"
  shows "\<exists>s. random_string alphabet len (Some buffer # buffers) = RSOk s
    \<and> int (length s) = len \<and> set s \<subseteq> set alphabet"
proof -
  let ?s = "rs_scan (rs_threshold alphabet) alphabet (nat len) [] buffer"
  have "length ?s = nat len"
    using assms(1,4) by (intro rs_scan_enough) auto
  then have "random_string alphabet len (Some buffer # buffers) = RSOk ?s"
    using assms(1-3) by (simp add: random_string_def rs_loop.simps not_le [symmetric])
  then show ?thesis using random_string_sound by blast
qed

theorem random_string_returns_witness:
  "\<exists>s. random_string ''abc'' 2 [Some [255, 4, 0]] = RSOk s \<and> int (length s) = 2 \<and> set s \<subseteq> set ''abc''"
  by (rule random_string_returns) (simp_all add: rs_threshold_def)

section \<open>Codes\<close>

lemma pairing_alphabet_chars:
  "c \<in> set pairing_alphabet \<Longrightarrow>
     byte c < 128 \<and> \<not> is_space (byte c) \<and> c \<noteq> CHR ''-'' \<and> upper_char c = c"
  by (auto simp: pairing_alphabet_def byte_def is_space_def upper_char_def upper_rune_def)

lemma code_runes_ok_alphabet: "set v \<subseteq> set pairing_alphabet \<Longrightarrow> code_runes_ok v"
proof -
  assume v: "set v \<subseteq> set pairing_alphabet"
  then have "is_ascii v" using pairing_alphabet_chars by (auto simp: is_ascii_def list_all_iff)
  with v show ?thesis by (auto simp: code_runes_ok_def runes_ascii list_all_iff)
qed

lemma code_runes_ok_iff: "code_runes_ok v \<longleftrightarrow> set v \<subseteq> set pairing_alphabet"
proof
  assume ok: "code_runes_ok v"
  have "list_all (\<lambda>r. r < 128) (runes v)"
    using ok pairing_alphabet_chars by (fastforce simp: code_runes_ok_def list_all_iff)
  then have "is_ascii v" by (simp add: runes_ascii_iff)
  with ok show "set v \<subseteq> set pairing_alphabet"
    by (auto simp: code_runes_ok_def runes_ascii list_all_iff)
qed (rule code_runes_ok_alphabet)

lemma normalize_plain:
  assumes "is_ascii v" and "v \<noteq> []" and "\<not> is_space (byte (hd v))" and "\<not> is_space (byte (last v))"
  shows "to_upper up (trim_space v) = map upper_char v"
  using assms by (simp add: trim_space_id to_upper_ascii)

lemma map_upper_code: "set v \<subseteq> set pairing_alphabet \<Longrightarrow> map upper_char v = v"
  by (rule map_idI) (use pairing_alphabet_chars in blast)

lemma upper_char_id: "\<not> (97 \<le> byte c \<and> byte c \<le> 122) \<Longrightarrow> upper_char c = c"
  by (auto simp: upper_char_def upper_rune_def)

lemma code_ends:
  assumes "set v \<subseteq> set pairing_alphabet" and "v \<noteq> []"
  shows "is_ascii v" and "\<not> is_space (byte (hd v))" and "\<not> is_space (byte (last v))"
proof -
  show "is_ascii v" using assms(1) pairing_alphabet_chars by (auto simp: is_ascii_def list_all_iff)
  show "\<not> is_space (byte (hd v))"
    using pairing_alphabet_chars [OF subsetD [OF assms(1) hd_in_set [OF assms(2)]]] by simp
  show "\<not> is_space (byte (last v))"
    using pairing_alphabet_chars [OF subsetD [OF assms(1) last_in_set [OF assms(2)]]] by simp
qed

lemma normalize_code:
  assumes "length raw = 8" and "set raw \<subseteq> set pairing_alphabet"
  shows "normalize_pairing_code up (format_code raw) = raw \<and> normalize_pairing_code up raw = raw"
proof
  have ne: "raw \<noteq> []" using assms(1) by auto
  note ends = code_ends [OF assms(2) ne]
  have plain: "to_upper up (trim_space raw) = raw"
    using normalize_plain [OF ends(1) ne ends(2,3)] assms(2) by (simp add: map_upper_code)
  then show "normalize_pairing_code up raw = raw"
    using assms by (simp add: normalize_pairing_code_def code_runes_ok_alphabet)
  let ?f = "format_code raw"
  have f: "length ?f = 9" "?f ! 4 = CHR ''-''" "take 4 ?f @ drop 5 ?f = raw" "hd ?f = hd raw" "last ?f = last raw"
    using assms(1) ne by (auto simp: format_code_def nth_append hd_append last_drop)
  have "is_ascii ?f" using ends(1) by (auto simp: format_code_def byte_def)
  moreover have "map upper_char ?f = ?f"
    using assms(2) by (simp add: format_code_def map_upper_code drop_map [symmetric] take_map [symmetric])
      (simp add: upper_char_id byte_def)
  ultimately have "to_upper up (trim_space ?f) = ?f"
    using normalize_plain [of ?f] f ends by (metis length_0_conv zero_neq_numeral)
  then show "normalize_pairing_code up ?f = raw"
    using f assms(2) by (simp add: normalize_pairing_code_def code_runes_ok_alphabet)
qed

text \<open>
  the code the user is shown, dashed or not, normalises to exactly the eight characters that
  were hashed when the session was created.
\<close>

theorem pairing_code_roundtrip:
  assumes "length raw = 8" and "set raw \<subseteq> set pairing_alphabet"
  shows "normalize_pairing_code up (format_code raw) = raw \<and> normalize_pairing_code up raw = raw"
  using assms by (rule normalize_code)

theorem pairing_code_roundtrip_witness:
  "normalize_pairing_code id (format_code ''ABCD2345'') = ''ABCD2345''
    \<and> normalize_pairing_code id ''ABCD2345'' = ''ABCD2345''"
  by (rule pairing_code_roundtrip) (simp_all add: pairing_alphabet_def)

lemma normalize_shape:
  "normalize_pairing_code up input = [] \<or>
   (length (normalize_pairing_code up input) = 8 \<and> set (normalize_pairing_code up input) \<subseteq> set pairing_alphabet)"
  by (auto simp: normalize_pairing_code_def Let_def code_runes_ok_iff)

section \<open>The manager's invariant\<close>

definition pm_inv :: "pairing_manager \<Rightarrow> bool" where
  "pm_inv m \<longleftrightarrow> gm_ok (pm_ip_hits m) \<and> int (length (pm_ip_hits m)) \<le> pm_max_tracked_ips m
     \<and> 0 < pm_ttl m \<and> 0 < pm_max_attempts m \<and> 0 < pm_ip_limit m \<and> 0 < pm_ip_window m
     \<and> (pm_state m = PairingStateActive \<longleftrightarrow> pm_session m \<noteq> None)
     \<and> (\<forall>s. pm_session m = Some s \<longrightarrow> 0 < ps_attempts_left s \<and> ps_attempts_left s \<le> pm_max_attempts m)"

interpretation ip_hits: expiring_map gm_get gm_put gm_del length gm_ok ip_dead prune_ips
  by unfold_locales
     (auto simp: prune_ips_def ip_dead_def gomap_simps gm_length_retain_le split: option.splits)

lemma pm_inv_new: "pm_inv (new_pairing_manager opt)"
  by (simp add: pm_inv_def new_pairing_manager_def)

lemma prune_ips_length: "length (prune_ips now m) \<le> length m"
  by (rule ip_hits.card_prune_le)

lemma allow_ip_frame:
  "allow_ip ip now m = (b, m') \<Longrightarrow> \<exists>hits. m' = m\<lparr>pm_ip_hits := hits\<rparr>"
  by (auto simp: allow_ip_def Let_def split: if_splits option.splits intro: exI [of _ "pm_ip_hits m"])

lemma allow_ip_hits:
  assumes "allow_ip ip now m = (b, m')" and "gm_ok (pm_ip_hits m)"
    and "int (length (pm_ip_hits m)) \<le> pm_max_tracked_ips m"
  shows "gm_ok (pm_ip_hits m') \<and> int (length (pm_ip_hits m')) \<le> pm_max_tracked_ips m"
  using assms prune_ips_length [of now "pm_ip_hits m"] ip_hits.ok_prune [OF assms(2), of now]
  by (auto simp: allow_ip_def Let_def gomap_simps split: if_splits option.splits)

lemma allow_ip_inv [inv_intros]:
  assumes "pm_inv m" and "allow_ip ip now m = (b, m')"
  shows "pm_inv m'"
proof -
  from allow_ip_frame [OF assms(2)] obtain hits where m': "m' = m\<lparr>pm_ip_hits := hits\<rparr>" by blast
  show ?thesis
    using assms(1) allow_ip_hits [OF assms(2)] unfolding m' by (auto simp: pm_inv_def)
qed

lemma close_session_inv [inv_intros]:
  "pm_inv m \<Longrightarrow> st \<noteq> PairingStateActive \<Longrightarrow> pm_inv (close_session st now m)"
  by (auto simp: pm_inv_def close_session_def)

lemma check_code_inv [inv_intros]: "pm_inv m \<Longrightarrow> pm_inv (snd (check_code sha v now m))"
  by (auto simp: check_code_def Let_def intro: close_session_inv split: option.splits)
     (auto simp: pm_inv_def)

lemma pm_verify_inv [inv_intros]: "pm_inv m \<Longrightarrow> pm_inv (snd (pm_verify up sha input ip now m))"
  using allow_ip_inv by (auto simp: pm_verify_def split: prod.splits bool.splits intro: check_code_inv)

lemma pm_create_inv [inv_intros]: "pm_inv m \<Longrightarrow> pm_inv (snd (pm_create sha raw sid now m))"
  by (auto simp: pm_create_def pm_inv_def split: option.splits)

lemma pm_status_inv [inv_intros]: "pm_inv m \<Longrightarrow> pm_inv (snd (pm_status now m))"
  by (auto simp: pm_status_def Let_def intro: close_session_inv split: option.splits)

lemma pm_invalidate_inv [inv_intros]: "pm_inv m \<Longrightarrow> pm_inv (pm_invalidate now m)"
  by (simp add: pm_invalidate_def close_session_inv)

text \<open>The calls a server makes, as events.\<close>

datatype pairing_call =
    CallCreate "string option" "string option" time
  | CallVerify string string time
  | CallStatus time
  | CallInvalidate time

fun pm_step :: "(nat \<Rightarrow> nat) \<Rightarrow> (string \<Rightarrow> string) \<Rightarrow> pairing_manager \<Rightarrow> pairing_call \<Rightarrow> pairing_manager" where
  "pm_step up sha m (CallCreate raw sid now) = snd (pm_create sha raw sid now m)"
| "pm_step up sha m (CallVerify input ip now) = snd (pm_verify up sha input ip now m)"
| "pm_step up sha m (CallStatus now) = snd (pm_status now m)"
| "pm_step up sha m (CallInvalidate now) = pm_invalidate now m"

lemma check_code_config:
  "pm_max_tracked_ips (snd (check_code sha v now m)) = pm_max_tracked_ips m"
  by (auto simp: check_code_def close_session_def Let_def split: option.splits)

lemma pm_step_config: "pm_max_tracked_ips (pm_step up sha m e) = pm_max_tracked_ips m"
proof (cases e)
  case (CallVerify input ip now)
  obtain b m' where a: "allow_ip ip now m = (b, m')" by fastforce
  from allow_ip_frame [OF a] have "pm_max_tracked_ips m' = pm_max_tracked_ips m" by auto
  with a CallVerify show ?thesis
    by (cases b) (simp_all add: pm_verify_def check_code_config)
qed (auto simp: pm_create_def pm_status_def pm_invalidate_def close_session_def Let_def split: option.splits)

interpretation pairing: capped_machine "pm_step up sha" "\<lambda>_ _. True" pm_inv
    "\<lambda>m. length (pm_ip_hits m)" "\<lambda>m. nat (pm_max_tracked_ips m)" for up sha
proof unfold_locales
  fix m e assume "pm_inv m"
  then show "pm_inv (pm_step up sha m e)"
    by (cases e) (simp_all add: inv_intros)
qed (auto simp: pm_inv_def pm_step_config)

text \<open>
  whatever sequence of calls reaches a manager built by \<open>NewPairingManager\<close>, with any clock
  readings, a session exists exactly while the state is \<open>active\<close>, an open session always has
  between 1 and \<open>MaxAttempts\<close> attempts left, and at most \<open>MaxTrackedIPs\<close> addresses are kept.
\<close>

theorem pairing_state_consistent:
  fixes opt calls up sha
  defines "m \<equiv> run_calls (pm_step up sha) (new_pairing_manager opt) calls"
  shows "(pm_state m = PairingStateActive \<longleftrightarrow> pm_session m \<noteq> None)
    \<and> (case pm_session m of None \<Rightarrow> True
        | Some s \<Rightarrow> 1 \<le> ps_attempts_left s \<and> ps_attempts_left s \<le> pm_max_attempts m)
    \<and> length (pm_ip_hits m) \<le> nat (pm_max_tracked_ips (new_pairing_manager opt))"
proof -
  have "pm_inv m"
    unfolding m_def by (rule pairing.run_inv [OF pm_inv_new]) simp
  moreover have "length (pm_ip_hits m) \<le> nat (pm_max_tracked_ips (new_pairing_manager opt))"
    unfolding m_def by (rule pairing.run_load [OF pm_inv_new]) simp
  ultimately show ?thesis by (auto simp: pm_inv_def split: option.split)
qed

section \<open>What a verification does\<close>

lemma allow_ip_session:
  "allow_ip ip now m = (b, m') \<Longrightarrow> pm_session m' = pm_session m \<and> pm_state m' = pm_state m"
  using allow_ip_frame [of ip now m b m'] by auto

lemma check_code_ok:
  "pr_ok (fst (check_code sha v now m)) \<longleftrightarrow>
     (\<exists>s. pm_session m = Some s \<and> now < ps_expires_at s \<and> 0 < ps_attempts_left s \<and> sha v = ps_hash s)"
  by (auto simp: check_code_def failed_def paired_def Let_def split: option.splits)

lemma check_code_ok_effect:
  "pr_ok (fst (check_code sha v now m)) \<Longrightarrow>
     pm_session (snd (check_code sha v now m)) = None
     \<and> pm_state (snd (check_code sha v now m)) = PairingStateConsumed"
  by (auto simp: check_code_def failed_def paired_def close_session_def Let_def split: option.splits if_splits)

text \<open>
  \<open>Verify\<close> succeeds exactly when the address is not rate limited, a session is open and
  unexpired, attempts remain and the hash of the normalised input is the session's hash; a
  success closes the session, marks it consumed and returns the session's identifier.
\<close>

theorem pairing_verify_ok_iff:
  "pr_ok (fst (pm_verify up sha input ip now m)) \<longleftrightarrow>
     fst (allow_ip ip now m) \<and>
     (\<exists>s. pm_session m = Some s \<and> now < ps_expires_at s \<and> 0 < ps_attempts_left s
        \<and> sha (normalize_pairing_code up input) = ps_hash s
        \<and> pr_session_id (fst (pm_verify up sha input ip now m)) = ps_id s
        \<and> pm_session (snd (pm_verify up sha input ip now m)) = None
        \<and> pm_state (snd (pm_verify up sha input ip now m)) = PairingStateConsumed)"
proof -
  obtain b m' where a: "allow_ip ip now m = (b, m')" by fastforce
  then show ?thesis using allow_ip_session [OF a]
    by (cases b) (auto simp: pm_verify_def check_code_def failed_def paired_def close_session_def Let_def
        split: option.splits)
qed

text \<open>
  from creation to pairing: after \<open>Create\<close>, the displayed code entered before the session
  expires, from an address that is not rate limited, pairs with the new session.
\<close>

theorem pairing_create_then_verify:
  assumes "random_string pairing_alphabet 8 buffers = RSOk raw"
    and "pm_create sha (Some raw) (Some sid) t0 m = (Some (shown, expiry), m1)"
    and "pm_inv m" and "now < expiry" and "fst (allow_ip ip now m1)"
  shows "pm_verify up sha shown ip now m1 =
    (paired sid, close_session PairingStateConsumed now (snd (allow_ip ip now m1)))"
proof -
  have raw: "length raw = 8" "set raw \<subseteq> set pairing_alphabet"
    using random_string_sound [OF assms(1)] by auto
  have shown: "shown = format_code raw" and expiry: "expiry = t0 + pm_ttl m"
    and m1: "pm_session m1 = Some \<lparr>ps_id = sid, ps_hash = sha raw, ps_created_at = t0,
               ps_expires_at = t0 + pm_ttl m, ps_attempts_left = pm_max_attempts m\<rparr>"
    using assms(2) by (auto simp: pm_create_def)
  obtain m2 where a: "allow_ip ip now m1 = (True, m2)" using assms(5) by (metis (full_types) prod.collapse)
  have norm: "normalize_pairing_code up shown = raw"
    using normalize_code [OF raw] shown by simp
  show ?thesis
    using a allow_ip_session [OF a] m1 assms(3,4) expiry norm
    by (simp add: pm_verify_def check_code_def pm_inv_def)
qed

theorem pairing_create_then_verify_witness:
  "pm_verify id id ''AAAA-AAAA'' [] 5
      (snd (pm_create id (Some ''AAAAAAAA'') (Some ''s'') 0 (new_pairing_manager \<lparr>po_ttl = 10,
         po_max_attempts = 3, po_ip_limit = 1, po_ip_window = 1, po_max_tracked_ips = 1\<rparr>)))
    = (paired ''s'', close_session PairingStateConsumed 5 (snd (allow_ip [] 5
        (snd (pm_create id (Some ''AAAAAAAA'') (Some ''s'') 0 (new_pairing_manager \<lparr>po_ttl = 10,
         po_max_attempts = 3, po_ip_limit = 1, po_ip_window = 1, po_max_tracked_ips = 1\<rparr>))))))"
  by (rule pairing_create_then_verify [where buffers = "[Some [0, 0, 0, 0, 0, 0, 0, 0]]" and expiry = 10
        and m = "new_pairing_manager \<lparr>po_ttl = 10, po_max_attempts = 3, po_ip_limit = 1,
          po_ip_window = 1, po_max_tracked_ips = 1\<rparr>" and ?t0.0 = 0 and raw = "''AAAAAAAA''"])
     (simp_all add: random_string_def rs_loop.simps rs_threshold_def pairing_alphabet_def
        pm_create_def format_code_def new_pairing_manager_def allow_ip_def pm_inv_def)

section \<open>Guessing\<close>

fun verify_all :: "(nat \<Rightarrow> nat) \<Rightarrow> (string \<Rightarrow> string) \<Rightarrow> pairing_manager
    \<Rightarrow> (string \<times> string \<times> time) list \<Rightarrow> pairing_result list" where
  "verify_all up sha m [] = []"
| "verify_all up sha m ((input, ip, now) # es) =
     (case pm_verify up sha input ip now m of (r, m') \<Rightarrow> r # verify_all up sha m' es)"

text \<open>The results that tell a client whether its input was the code.\<close>

definition was_compared :: "pairing_result \<Rightarrow> bool" where
  "was_compared r \<longleftrightarrow> pr_ok r \<or> pr_failure r = Some PairingInvalid \<or> pr_failure r = Some PairingTooManyAttempts"

definition guesses_left :: "pairing_manager \<Rightarrow> nat" where
  "guesses_left m = (case pm_session m of None \<Rightarrow> 0 | Some s \<Rightarrow> nat (ps_attempts_left s))"

lemma check_code_guesses:
  assumes "pm_inv m"
  shows "guesses_left (snd (check_code sha v now m)) + (if was_compared (fst (check_code sha v now m)) then 1 else 0)
    \<le> guesses_left m"
proof (cases "pm_session m")
  case None
  then show ?thesis by (simp add: check_code_def guesses_left_def was_compared_def failed_def)
next
  case (Some s)
  with assms have "0 < ps_attempts_left s" by (simp add: pm_inv_def)
  with Some show ?thesis
    by (auto simp: check_code_def guesses_left_def was_compared_def failed_def paired_def close_session_def
        Let_def)
qed

lemma pm_verify_guesses:
  assumes "pm_inv m"
  shows "guesses_left (snd (pm_verify up sha input ip now m))
     + (if was_compared (fst (pm_verify up sha input ip now m)) then 1 else 0) \<le> guesses_left m"
proof -
  obtain b m' where a: "allow_ip ip now m = (b, m')" by fastforce
  have "guesses_left m' = guesses_left m"
    using allow_ip_session [OF a] by (simp add: guesses_left_def)
  then show ?thesis
    using a check_code_guesses [OF allow_ip_inv [OF assms a], of sha "normalize_pairing_code up input" now]
    by (cases b) (simp_all add: pm_verify_def was_compared_def failed_def)
qed

text \<open>
  C33: however many codes are tried, from whatever addresses and at whatever times, at most as
  many inputs are compared with the code as the session has attempts left.
\<close>

theorem pairing_guess_bound:
  assumes "pm_inv m"
  shows "length (filter was_compared (verify_all up sha m es)) \<le> guesses_left m"
  using assms
proof (induction es arbitrary: m)
  case Nil
  then show ?case by simp
next
  case (Cons e es)
  obtain input ip now where e: "e = (input, ip, now)" by (cases e)
  obtain r m' where v: "pm_verify up sha input ip now m = (r, m')" by fastforce
  have "pm_inv m'" using pm_verify_inv [OF Cons.prems, of up sha input ip now] v by simp
  with Cons.IH have "length (filter was_compared (verify_all up sha m' es)) \<le> guesses_left m'" .
  with pm_verify_guesses [OF Cons.prems, of up sha input ip now] v e show ?case
    by (auto split: if_splits)
qed

theorem pairing_guess_bound_witness:
  "length (filter was_compared (verify_all id id
      (snd (pm_create id (Some ''AAAAAAAA'') (Some ''s'') 0 (new_pairing_manager \<lparr>po_ttl = 0,
         po_max_attempts = 2, po_ip_limit = 0, po_ip_window = 0, po_max_tracked_ips = 0\<rparr>)))
      (replicate 9 (''BBBBBBBB'', [], 1)))) \<le> 2"
proof -
  let ?m = "snd (pm_create id (Some ''AAAAAAAA'') (Some ''s'') 0 (new_pairing_manager \<lparr>po_ttl = 0,
         po_max_attempts = 2, po_ip_limit = 0, po_ip_window = 0, po_max_tracked_ips = 0\<rparr>))"
  have "guesses_left ?m = 2"
    by (simp add: pm_create_def guesses_left_def new_pairing_manager_def)
  then show ?thesis
    using pairing_guess_bound [of ?m id id "replicate 9 (''BBBBBBBB'', [], 1)"] pm_create_inv [OF pm_inv_new]
    by metis
qed

section \<open>The per-address limit\<close>

definition call_allow_ip :: "pairing_manager \<Rightarrow> string \<times> time \<Rightarrow> bool \<times> pairing_manager" where
  "call_allow_ip m e = allow_ip (fst e) (snd e) m"

definition ip_counter_of :: "string \<Rightarrow> pairing_manager \<Rightarrow> (time \<times> int) option" where
  "ip_counter_of ip m = map_option (\<lambda>c. (ic_reset_at c, ic_count c)) (gm_get (pm_ip_hits m) ip)"

definition ip_good :: "pairing_manager \<Rightarrow> bool" where
  "ip_good m \<longleftrightarrow> gm_ok (pm_ip_hits m) \<and> 0 < pm_ip_limit m"

lemma call_allow_ip_frame:
  "pm_ip_limit (snd (call_allow_ip m e)) = pm_ip_limit m"
  "pm_ip_window (snd (call_allow_ip m e)) = pm_ip_window m"
  by (auto simp: call_allow_ip_def allow_ip_def Let_def split: option.splits)

lemma ip_good_step: "ip_good m \<Longrightarrow> ip_good (snd (call_allow_ip m e))"
  by (auto simp: ip_good_def call_allow_ip_def allow_ip_def Let_def ip_hits.ok_prune split: option.splits)

lemma ip_live_step:
  assumes "ip_good m" and "ip \<noteq> []" and "ip_counter_of ip m = Some (r, n)" and "snd e < r"
  shows "\<exists>n'. ip_counter_of ip (snd (call_allow_ip m e)) = Some (r, n') \<and> n \<le> n'
    \<and> (fst e = ip \<and> fst (call_allow_ip m e) \<longrightarrow> n + 1 \<le> n' \<and> n + 1 \<le> pm_ip_limit m)"
proof -
  obtain c where c: "gm_get (pm_ip_hits m) ip = Some c" "ic_reset_at c = r" "ic_count c = n"
    using assms(3) by (auto simp: ip_counter_of_def)
  have live: "gm_get (prune_ips (snd e) (pm_ip_hits m)) ip = Some c"
    using assms(1,4) c by (intro ip_hits.prune_keeps) (auto simp: ip_good_def ip_dead_def)
  show ?thesis
    using assms(2) c live
    by (auto simp: call_allow_ip_def allow_ip_def ip_counter_of_def Let_def gomap_simps
        split: if_splits option.splits)
qed

lemma ip_idle_step:
  assumes "ip_good m" and "ip \<noteq> []" and "\<forall>r n. ip_counter_of ip m = Some (r, n) \<longrightarrow> r \<le> snd e"
  shows "(\<not> (fst e = ip \<and> fst (call_allow_ip m e)) \<and> (ip_counter_of ip (snd (call_allow_ip m e)) = None
      \<or> ip_counter_of ip (snd (call_allow_ip m e)) = ip_counter_of ip m))
    \<or> (\<exists>n'. ip_counter_of ip (snd (call_allow_ip m e)) = Some (snd e + pm_ip_window m, n') \<and> 0 \<le> n'
      \<and> (fst e = ip \<and> fst (call_allow_ip m e) \<longrightarrow> 1 \<le> n' \<and> 1 \<le> pm_ip_limit m))"
proof -
  have "gm_get (prune_ips (snd e) (pm_ip_hits m)) ip = None"
    using assms(1,3) ip_hits.get_prune [of "pm_ip_hits m" "snd e" ip]
    by (auto simp: ip_good_def ip_counter_of_def ip_dead_def split: option.splits)
  then show ?thesis
    using assms(1,2)
    by (auto simp: call_allow_ip_def allow_ip_def ip_counter_of_def ip_good_def Let_def gomap_simps
        split: if_splits option.splits)
qed

definition mine_ip :: "string \<Rightarrow> string \<times> time \<Rightarrow> bool" where
  "mine_ip ip e \<longleftrightarrow> ip \<noteq> [] \<and> fst e = ip"

interpretation ip_window: fixed_window call_allow_ip snd "mine_ip ip" "\<lambda>m. if ip = [] then None else ip_counter_of ip m"
    pm_ip_limit pm_ip_window ip_good for ip
proof unfold_locales
  show "ip_good m \<Longrightarrow> ip_good (snd (call_allow_ip m e))" for m e by (rule ip_good_step)
  show "pm_ip_limit (snd (call_allow_ip m e)) = pm_ip_limit m"
    "pm_ip_window (snd (call_allow_ip m e)) = pm_ip_window m" for m e
    by (rule call_allow_ip_frame)+
qed (use ip_live_step ip_idle_step in \<open>auto simp: mine_ip_def split: if_splits\<close>)

text \<open>
  within one window, an address gets at most \<open>IPLimit\<close> attempts through, whatever the other
  addresses do: in an interval as long as the window, starting when the address has no counter
  that is still running, at most \<open>IPLimit\<close> of its attempts pass the rate limit.
\<close>

theorem pairing_ip_window_bound:
  assumes "pm_inv m" and "ip \<noteq> []"
    and "case gm_get (pm_ip_hits m) ip of None \<Rightarrow> True | Some c \<Rightarrow> ic_reset_at c \<le> t0"
    and "list_all (\<lambda>e. t0 \<le> snd e \<and> snd e < t0 + pm_ip_window m) es"
  shows "granted (\<lambda>e. fst e = ip) (call_all call_allow_ip m es) \<le> pm_ip_limit m"
proof -
  have "mine_ip ip = (\<lambda>e. fst e = ip)" using assms(2) by (auto simp: mine_ip_def)
  moreover have "ip_good m" "0 < pm_ip_limit m" using assms(1) by (auto simp: pm_inv_def ip_good_def)
  ultimately show ?thesis
    using ip_window.window_bound [of m ip t0 es] assms(2-4)
    by (auto simp: ip_counter_of_def split: option.splits)
qed

theorem pairing_ip_window_bound_witness:
  "granted (\<lambda>e. fst e = ''a'') (call_all call_allow_ip (new_pairing_manager \<lparr>po_ttl = 0, po_max_attempts = 0,
      po_ip_limit = 2, po_ip_window = 100, po_max_tracked_ips = 3\<rparr>)
      [(''a'', 0), (''b'', 1), (''a'', 1), (''a'', 50)]) \<le> 2"
  using pairing_ip_window_bound [OF pm_inv_new [of "\<lparr>po_ttl = 0, po_max_attempts = 0, po_ip_limit = 2,
        po_ip_window = 100, po_max_tracked_ips = 3\<rparr>"], of "''a''" 0
      "[(''a'', 0), (''b'', 1), (''a'', 1), (''a'', 50)]"]
  by (simp add: new_pairing_manager_def)

end
