(* ===== verification/RateLimit.thy ===== *)
theory RateLimit
  imports FixedWindow
begin

text \<open>
  \<open>internal/auth/limits.go\<close>: the limits of the OAuth server and \<open>requestLimiter\<close>, which
  decides the per-address and the global limit of one request under one lock.
\<close>

record oauth_limits =
  ol_max_pending :: int
  ol_registration_per_ip :: int
  ol_registration_global :: int
  ol_authorization_per_ip :: int
  ol_authorization_global :: int
  ol_max_tracked_addresses :: int
  ol_window :: duration

definition default_oauth_limits :: oauth_limits where
  "default_oauth_limits =
    \<lparr>ol_max_pending = 128, ol_registration_per_ip = 10, ol_registration_global = 100,
     ol_authorization_per_ip = 30, ol_authorization_global = 300,
     ol_max_tracked_addresses = 2048, ol_window = minute\<rparr>"

definition positive_or :: "int \<Rightarrow> int \<Rightarrow> int" where
  "positive_or v d = (if v \<le> 0 then d else v)"

definition normalize_oauth_limits :: "oauth_limits \<Rightarrow> oauth_limits" where
  "normalize_oauth_limits v =
    (let d = default_oauth_limits in
     \<lparr>ol_max_pending = positive_or (ol_max_pending v) (ol_max_pending d),
      ol_registration_per_ip = positive_or (ol_registration_per_ip v) (ol_registration_per_ip d),
      ol_registration_global = positive_or (ol_registration_global v) (ol_registration_global d),
      ol_authorization_per_ip = positive_or (ol_authorization_per_ip v) (ol_authorization_per_ip d),
      ol_authorization_global = positive_or (ol_authorization_global v) (ol_authorization_global d),
      ol_max_tracked_addresses = positive_or (ol_max_tracked_addresses v) (ol_max_tracked_addresses d),
      ol_window = positive_or (ol_window v) (ol_window d)\<rparr>)"

record rate_bucket =
  rb_start :: time
  rb_count :: int

record request_limiter =
  rl_per_address :: int
  rl_global :: int
  rl_window :: duration
  rl_max_addresses :: int
  rl_global_bucket :: rate_bucket
  rl_addresses :: "(string, rate_bucket) gomap"

definition new_request_limiter :: "int \<Rightarrow> int \<Rightarrow> duration \<Rightarrow> int \<Rightarrow> request_limiter" where
  "new_request_limiter per_address global w max_addresses =
    \<lparr>rl_per_address = per_address, rl_global = global, rl_window = w, rl_max_addresses = max_addresses,
     rl_global_bucket = \<lparr>rb_start = zero_time, rb_count = 0\<rparr>, rl_addresses = []\<rparr>"

definition bucket_over :: "duration \<Rightarrow> time \<Rightarrow> rate_bucket \<Rightarrow> bool" where
  "bucket_over w now b \<longleftrightarrow> \<not> now < rb_start b + w"

definition prune_buckets :: "duration \<Rightarrow> time \<Rightarrow> (string, rate_bucket) gomap \<Rightarrow> (string, rate_bucket) gomap" where
  "prune_buckets w now m = gm_retain (\<lambda>_ b. \<not> bucket_over w now b) m"

definition refresh_global :: "duration \<Rightarrow> time \<Rightarrow> rate_bucket \<Rightarrow> rate_bucket" where
  "refresh_global w now b =
    (if rb_start b = zero_time \<or> bucket_over w now b then \<lparr>rb_start = now, rb_count = 0\<rparr> else b)"

text \<open>\<open>Allow\<close>: prune, refresh the global window, look the address up, decide, count.\<close>

definition rl_allow :: "request_limiter \<Rightarrow> string \<times> time \<Rightarrow> bool \<times> request_limiter" where
  "rl_allow l e =
    (let address = fst e; now = snd e; w = rl_window l;
         addresses = prune_buckets w now (rl_addresses l);
         gb = refresh_global w now (rl_global_bucket l);
         l' = l\<lparr>rl_addresses := addresses, rl_global_bucket := gb\<rparr>;
         fresh = \<lparr>rb_start = now, rb_count = 0\<rparr>;
         decide = (\<lambda>bucket.
           if rl_per_address l \<le> rb_count bucket \<or> rl_global l \<le> rb_count gb then (False, l')
           else (True, l'\<lparr>rl_global_bucket := gb\<lparr>rb_count := rb_count gb + 1\<rparr>,
                 rl_addresses := gm_put address (bucket\<lparr>rb_count := rb_count bucket + 1\<rparr>) addresses\<rparr>))
     in case gm_get addresses address of
          None \<Rightarrow> if rl_max_addresses l \<le> int (length addresses) then (False, l') else decide fresh
        | Some bucket \<Rightarrow> if bucket_over w now bucket then decide fresh else decide bucket)"

interpretation buckets: expiring_map gm_get gm_put gm_del length gm_ok "bucket_over w" "prune_buckets w" for w
  by unfold_locales
     (auto simp: prune_buckets_def bucket_over_def gomap_simps gm_length_retain_le split: option.splits)

lemma rl_allow_False:
  "fst (rl_allow l e) = False \<Longrightarrow>
     snd (rl_allow l e) = l\<lparr>rl_addresses := prune_buckets (rl_window l) (snd e) (rl_addresses l),
       rl_global_bucket := refresh_global (rl_window l) (snd e) (rl_global_bucket l)\<rparr>"
  by (auto simp: rl_allow_def Let_def split: option.splits if_splits)

lemma prune_buckets_twice:
  "s \<le> t \<Longrightarrow> prune_buckets w t (prune_buckets w s m) = prune_buckets w t m"
  unfolding prune_buckets_def gm_retain_retain
  by (rule arg_cong [where f = "\<lambda>P. gm_retain P m"]) (auto simp: bucket_over_def fun_eq_iff)

lemma refresh_global_twice:
  "s \<le> t \<Longrightarrow> rb_count (refresh_global w t (refresh_global w s b)) = rb_count (refresh_global w t b)"
  by (auto simp: refresh_global_def bucket_over_def)

lemma rl_allow_decision:
  "fst (rl_allow l e) \<longleftrightarrow>
     (let m = prune_buckets (rl_window l) (snd e) (rl_addresses l) in
      rb_count (refresh_global (rl_window l) (snd e) (rl_global_bucket l)) < rl_global l \<and>
      (case gm_get m (fst e) of
         None \<Rightarrow> int (length m) < rl_max_addresses l \<and> 0 < rl_per_address l
       | Some b \<Rightarrow> (if bucket_over (rl_window l) (snd e) b then 0 else rb_count b) < rl_per_address l))"
  by (auto simp: rl_allow_def Let_def split: option.splits)

text \<open>
  a rejected request never consumes capacity: whatever was rejected, for whatever address and
  reason, the answer to any later request is the answer it would have got without it.
\<close>

theorem rejected_request_is_free:
  assumes "fst (rl_allow l r) = False" and "snd r \<le> snd e"
  shows "fst (rl_allow (snd (rl_allow l r)) e) = fst (rl_allow l e)"
  unfolding rl_allow_False [OF assms(1)] rl_allow_decision
  using assms(2) by (auto simp: prune_buckets_twice refresh_global_twice Let_def split: option.splits)

theorem rejected_request_is_free_witness:
  "fst (rl_allow (snd (rl_allow (snd (rl_allow (new_request_limiter 1 5 10 4) (''a'', 0))) (''a'', 1))) (''b'', 2))
    = fst (rl_allow (snd (rl_allow (new_request_limiter 1 5 10 4) (''a'', 0))) (''b'', 2))"
  by (rule rejected_request_is_free)
     (simp_all add: rl_allow_def new_request_limiter_def prune_buckets_def gm_retain_def refresh_global_def
        bucket_over_def zero_time_def Let_def)

section \<open>Bounds\<close>

definition rl_inv :: "request_limiter \<Rightarrow> bool" where
  "rl_inv l \<longleftrightarrow> gm_ok (rl_addresses l) \<and> int (length (rl_addresses l)) \<le> max 0 (rl_max_addresses l)
     \<and> (\<forall>a b. gm_get (rl_addresses l) a = Some b \<longrightarrow> 0 \<le> rb_count b \<and> rb_count b \<le> max 0 (rl_per_address l))
     \<and> 0 \<le> rb_count (rl_global_bucket l) \<and> rb_count (rl_global_bucket l) \<le> max 0 (rl_global l)"

lemma rl_inv_new: "rl_inv (new_request_limiter p g w n)"
  by (simp add: rl_inv_def new_request_limiter_def)

lemma rl_allow_config:
  "rl_per_address (snd (rl_allow l e)) = rl_per_address l" "rl_global (snd (rl_allow l e)) = rl_global l"
  "rl_window (snd (rl_allow l e)) = rl_window l" "rl_max_addresses (snd (rl_allow l e)) = rl_max_addresses l"
  by (auto simp: rl_allow_def Let_def split: option.splits)

lemma rl_allow_global:
  "rl_global_bucket (snd (rl_allow l e)) =
     (let gb = refresh_global (rl_window l) (snd e) (rl_global_bucket l)
      in if fst (rl_allow l e) then gb\<lparr>rb_count := rb_count gb + 1\<rparr> else gb)"
  by (auto simp: rl_allow_def Let_def split: option.splits)

lemma rl_allow_addresses:
  "rl_addresses (snd (rl_allow l e)) =
     (let m = prune_buckets (rl_window l) (snd e) (rl_addresses l);
          b = (case gm_get m (fst e) of
                 None \<Rightarrow> \<lparr>rb_start = snd e, rb_count = 0\<rparr>
               | Some b \<Rightarrow> if bucket_over (rl_window l) (snd e) b then \<lparr>rb_start = snd e, rb_count = 0\<rparr> else b)
      in if fst (rl_allow l e) then gm_put (fst e) (b\<lparr>rb_count := rb_count b + 1\<rparr>) m else m)"
  by (auto simp: rl_allow_def Let_def split: option.splits)

lemma rl_inv_addresses:
  assumes "rl_inv l"
  shows "gm_ok (rl_addresses (snd (rl_allow l e)))
    \<and> int (length (rl_addresses (snd (rl_allow l e)))) \<le> max 0 (rl_max_addresses l)
    \<and> (\<forall>a b. gm_get (rl_addresses (snd (rl_allow l e))) a = Some b \<longrightarrow>
          0 \<le> rb_count b \<and> rb_count b \<le> max 0 (rl_per_address l))"
proof -
  let ?m = "prune_buckets (rl_window l) (snd e) (rl_addresses l)"
  have ok: "gm_ok (rl_addresses l)" "gm_ok ?m" using assms by (auto simp: rl_inv_def buckets.ok_prune)
  have len: "int (length ?m) \<le> max 0 (rl_max_addresses l)"
    using assms buckets.card_prune_le [of "rl_window l" "snd e" "rl_addresses l"] by (auto simp: rl_inv_def)
  have cnt: "\<forall>a b. gm_get ?m a = Some b \<longrightarrow> 0 \<le> rb_count b \<and> rb_count b \<le> max 0 (rl_per_address l)"
    using assms buckets.prune_live [OF ok(1)] by (fastforce simp: rl_inv_def)
  show ?thesis
    using ok len cnt unfolding rl_allow_addresses rl_allow_decision
    by (auto simp: Let_def gomap_simps split: option.splits if_splits)
qed

lemma rl_allow_inv: "rl_inv l \<Longrightarrow> rl_inv (snd (rl_allow l e))"
proof -
  assume inv: "rl_inv l"
  have "0 \<le> rb_count (rl_global_bucket (snd (rl_allow l e)))
    \<and> rb_count (rl_global_bucket (snd (rl_allow l e))) \<le> max 0 (rl_global l)"
    using inv unfolding rl_allow_global rl_allow_decision
    by (auto simp: Let_def refresh_global_def rl_inv_def split: option.splits)
  with rl_inv_addresses [OF inv, of e] show ?thesis by (simp add: rl_inv_def rl_allow_config)
qed

interpretation limiter: capped_machine "\<lambda>l e. snd (rl_allow l e)" "\<lambda>_ _. True" rl_inv
    "\<lambda>l. length (rl_addresses l)" "\<lambda>l. nat (rl_max_addresses l)"
  by unfold_locales (auto simp: rl_allow_inv rl_allow_config, auto simp: rl_inv_def)

text \<open>
  the memory of the limiter is bounded: after any sequence of requests it tracks at most
  \<open>maxAddresses\<close> addresses.
\<close>

theorem limiter_memory_bound:
  "length (rl_addresses (run_calls (\<lambda>l e. snd (rl_allow l e)) (new_request_limiter p g w n) es)) \<le> nat n"
  using limiter.run_load [OF rl_inv_new, of p g w n es] by (simp add: new_request_limiter_def)

definition address_counter :: "string \<Rightarrow> request_limiter \<Rightarrow> (time \<times> int) option" where
  "address_counter a l = map_option (\<lambda>b. (rb_start b + rl_window l, rb_count b)) (gm_get (rl_addresses l) a)"

definition global_counter :: "request_limiter \<Rightarrow> (time \<times> int) option" where
  "global_counter l = (let b = rl_global_bucket l in
     if rb_start b = zero_time then None else Some (rb_start b + rl_window l, rb_count b))"

interpretation address_window: fixed_window rl_allow snd "\<lambda>e. fst e = a" "address_counter a"
    rl_per_address rl_window rl_inv for a
proof unfold_locales
  fix l :: request_limiter and e :: "string \<times> time" and r n
  assume l: "rl_inv l" "address_counter a l = Some (r, n)" "snd e < r"
  then obtain b where b: "gm_get (rl_addresses l) a = Some b" "r = rb_start b + rl_window l" "n = rb_count b"
    by (auto simp: address_counter_def)
  have "gm_get (prune_buckets (rl_window l) (snd e) (rl_addresses l)) a = Some b"
    using l b by (intro buckets.prune_keeps) (auto simp: rl_inv_def bucket_over_def)
  then show "\<exists>n'. address_counter a (snd (rl_allow l e)) = Some (r, n') \<and> n \<le> n'
      \<and> (fst e = a \<and> fst (rl_allow l e) \<longrightarrow> n + 1 \<le> n' \<and> n + 1 \<le> rl_per_address l)"
    using b l(3) unfolding address_counter_def rl_allow_addresses rl_allow_config rl_allow_decision
    by (auto simp: Let_def gomap_simps bucket_over_def split: option.splits if_splits)
next
  fix l :: request_limiter and e :: "string \<times> time"
  assume l: "rl_inv l" "\<forall>r n. address_counter a l = Some (r, n) \<longrightarrow> r \<le> snd e"
  have "gm_get (prune_buckets (rl_window l) (snd e) (rl_addresses l)) a = None"
    using l buckets.get_prune [of "rl_addresses l" "rl_window l" "snd e" a]
    by (auto simp: rl_inv_def address_counter_def bucket_over_def split: option.splits)
  then show "(\<not> (fst e = a \<and> fst (rl_allow l e)) \<and> (address_counter a (snd (rl_allow l e)) = None
        \<or> address_counter a (snd (rl_allow l e)) = address_counter a l))
      \<or> (\<exists>n'. address_counter a (snd (rl_allow l e)) = Some (snd e + rl_window l, n') \<and> 0 \<le> n'
          \<and> (fst e = a \<and> fst (rl_allow l e) \<longrightarrow> 1 \<le> n' \<and> 1 \<le> rl_per_address l))"
    unfolding address_counter_def rl_allow_addresses rl_allow_config rl_allow_decision
    by (auto simp: Let_def gomap_simps split: option.splits if_splits)
qed (simp_all add: rl_allow_inv rl_allow_config)

text \<open>
  in an interval as long as the window, starting when the address has no running bucket, at
  most \<open>perAddress\<close> requests of that address are allowed.
\<close>

theorem limiter_address_bound:
  assumes "rl_inv l" and "case gm_get (rl_addresses l) a of None \<Rightarrow> True | Some b \<Rightarrow> rb_start b + rl_window l \<le> t0"
    and "list_all (\<lambda>e. t0 \<le> snd e \<and> snd e < t0 + rl_window l) es"
  shows "granted (\<lambda>e. fst e = a) (call_all rl_allow l es) \<le> max 0 (rl_per_address l)"
  using assms by (intro address_window.window_bound) (auto simp: address_counter_def split: option.splits)

theorem limiter_address_bound_witness:
  "granted (\<lambda>e. fst e = ''a'') (call_all rl_allow (new_request_limiter 2 50 100 9)
     [(''a'', 0), (''a'', 1), (''b'', 2), (''a'', 3), (''a'', 99)]) \<le> 2"
  using limiter_address_bound [OF rl_inv_new [of 2 50 100 9], where a = "''a''" and ?t0.0 = 0 and
      es = "[(''a'', 0), (''a'', 1), (''b'', 2), (''a'', 3), (''a'', 99)]"]
  by (simp add: new_request_limiter_def)

interpretation global_window: fixed_window rl_allow snd "\<lambda>e. snd e \<noteq> zero_time" global_counter
    rl_global rl_window rl_inv
proof unfold_locales
  fix l :: request_limiter and e :: "string \<times> time" and r n
  assume l: "rl_inv l" "global_counter l = Some (r, n)" "snd e < r"
  then have "rb_start (rl_global_bucket l) \<noteq> zero_time" "\<not> bucket_over (rl_window l) (snd e) (rl_global_bucket l)"
    by (auto simp: global_counter_def bucket_over_def Let_def split: if_splits)
  then have "refresh_global (rl_window l) (snd e) (rl_global_bucket l) = rl_global_bucket l"
    by (simp add: refresh_global_def)
  then show "\<exists>n'. global_counter (snd (rl_allow l e)) = Some (r, n') \<and> n \<le> n'
      \<and> (snd e \<noteq> zero_time \<and> fst (rl_allow l e) \<longrightarrow> n + 1 \<le> n' \<and> n + 1 \<le> rl_global l)"
    using l(2) rl_allow_decision [of l e] unfolding global_counter_def rl_allow_global rl_allow_config
    by (auto simp: Let_def split: if_splits)
next
  fix l :: request_limiter and e :: "string \<times> time"
  assume l: "rl_inv l" "\<forall>r n. global_counter l = Some (r, n) \<longrightarrow> r \<le> snd e"
  then have "refresh_global (rl_window l) (snd e) (rl_global_bucket l) = \<lparr>rb_start = snd e, rb_count = 0\<rparr>"
    by (auto simp: refresh_global_def global_counter_def bucket_over_def Let_def split: if_splits)
  then show "(\<not> (snd e \<noteq> zero_time \<and> fst (rl_allow l e)) \<and> (global_counter (snd (rl_allow l e)) = None
        \<or> global_counter (snd (rl_allow l e)) = global_counter l))
      \<or> (\<exists>n'. global_counter (snd (rl_allow l e)) = Some (snd e + rl_window l, n') \<and> 0 \<le> n'
          \<and> (snd e \<noteq> zero_time \<and> fst (rl_allow l e) \<longrightarrow> 1 \<le> n' \<and> 1 \<le> rl_global l))"
    using rl_allow_decision [of l e] unfolding global_counter_def rl_allow_global rl_allow_config
    by (auto simp: Let_def)
qed (simp_all add: rl_allow_inv rl_allow_config)

text \<open>
  over all addresses together, at most \<open>global\<close> requests are allowed in an interval as long as
  the window that starts when no global window is running.
\<close>

theorem limiter_global_bound:
  assumes "rl_inv l"
    and "rb_start (rl_global_bucket l) = zero_time \<or> rb_start (rl_global_bucket l) + rl_window l \<le> t0"
    and "list_all (\<lambda>e. t0 \<le> snd e \<and> snd e < t0 + rl_window l \<and> snd e \<noteq> zero_time) es"
  shows "granted (\<lambda>_. True) (call_all rl_allow l es) \<le> max 0 (rl_global l)"
proof -
  have "granted (\<lambda>_. True) (call_all rl_allow l es) = granted (\<lambda>e. snd e \<noteq> zero_time) (call_all rl_allow l es)"
    using assms(3) by (intro granted_cong) (auto simp: list_all_iff)
  then show ?thesis
    using global_window.window_bound [OF assms(1), of t0 es] assms(2,3)
    by (auto simp: global_counter_def Let_def list_all_iff split: if_splits)
qed

theorem limiter_global_bound_witness:
  "granted (\<lambda>_. True) (call_all rl_allow (new_request_limiter 5 3 100 9)
     [(''a'', 1), (''b'', 1), (''c'', 2), (''d'', 3), (''e'', 99)]) \<le> 3"
  using limiter_global_bound [OF rl_inv_new [of 5 3 100 9], where ?t0.0 = 1 and
      es = "[(''a'', 1), (''b'', 1), (''c'', 2), (''d'', 3), (''e'', 99)]"]
  by (simp add: new_request_limiter_def zero_time_def)

end
