(* ===== verification/Paths.thy ===== *)
theory Paths
  imports GoStrings
begin

text \<open>
  Slash-separated paths: \<open>path.Clean\<close> (and \<open>filepath.Clean\<close> on Unix), \<open>filepath.Join\<close>,
  \<open>filepath.Rel\<close>, \<open>Base\<close> and \<open>Dir\<close>, on the list of a path's elements.  \<open>clean_elems\<close> keeps the
  elements that survive, most recent first: empty elements and \<open>.\<close> are dropped, \<open>..\<close>
  removes the element before it, and at the root it is dropped.
\<close>

definition slash :: char where "slash = CHR ''/''"

abbreviation elems :: "string \<Rightarrow> string list" where "elems \<equiv> split_on slash"
abbreviation join_elems :: "string list \<Rightarrow> string" where "join_elems \<equiv> join_with [slash]"

abbreviation dotdot :: string where "dotdot \<equiv> ''..''"

definition rooted :: "string \<Rightarrow> bool" where
  "rooted p \<longleftrightarrow> (case p of c # _ \<Rightarrow> c = slash | [] \<Rightarrow> False)"

fun clean_elems :: "bool \<Rightarrow> string list \<Rightarrow> string list \<Rightarrow> string list" where
  "clean_elems r out [] = rev out"
| "clean_elems r out (e # es) =
     (if e = [] \<or> e = ''.'' then clean_elems r out es
      else if e = dotdot then
        (case out of
           [] \<Rightarrow> if r then clean_elems r [] es else clean_elems r [dotdot] es
         | o1 # os \<Rightarrow> if o1 = dotdot then clean_elems r (dotdot # out) es else clean_elems r os es)
      else clean_elems r (e # out) es)"

definition go_clean :: "string \<Rightarrow> string" where
  "go_clean p =
    (let es = clean_elems (rooted p) [] (elems p) in
     if rooted p then slash # join_elems es else if es = [] then ''.'' else join_elems es)"

text \<open>\<open>filepath.Join\<close>: empty arguments are ignored, the rest is joined and cleaned.\<close>

definition go_join :: "string list \<Rightarrow> string" where
  "go_join ps = (let ps' = filter (\<lambda>p. p \<noteq> []) ps in if ps' = [] then [] else go_clean (join_elems ps'))"

section \<open>Elements\<close>

definition plain_elem :: "string \<Rightarrow> bool" where
  "plain_elem e \<longleftrightarrow> e \<noteq> [] \<and> e \<noteq> ''.'' \<and> slash \<notin> set e"

definition normal_elem :: "string \<Rightarrow> bool" where
  "normal_elem e \<longleftrightarrow> plain_elem e \<and> e \<noteq> dotdot"

lemma split_on_no_sep: "d \<notin> set s \<Longrightarrow> split_on d s = [s]"
  by (induction s) auto

lemma split_on_elem_no_sep: "e \<in> set (split_on d s) \<Longrightarrow> d \<notin> set e"
proof (induction s arbitrary: e)
  case (Cons c s)
  then show ?case by (cases "split_on d s") (auto split: if_splits)
qed simp

lemma split_on_append_sep: "split_on d (s @ d # t) = (if d \<in> set s then split_on d (s @ d # t) else s # split_on d t)"
  by (induction s) auto

lemma split_on_head: "d \<notin> set s \<Longrightarrow> split_on d (s @ d # t) = s # split_on d t"
  by (induction s) auto

lemma split_join: "es \<noteq> [] \<Longrightarrow> list_all (\<lambda>e. d \<notin> set e) es \<Longrightarrow> split_on d (join_with [d] es) = es"
proof (induction "[d]" es rule: join_with.induct)
  case (3 p q ps)
  then show ?case by (simp add: split_on_head)
qed (auto simp: split_on_no_sep)

lemma elems_plain: "e \<in> set (elems p) \<Longrightarrow> e \<noteq> [] \<Longrightarrow> e \<noteq> ''.'' \<Longrightarrow> plain_elem e"
  by (simp add: plain_elem_def split_on_elem_no_sep)

text \<open>The cleaned elements: some leading \<open>..\<close> (none in a rooted path), then ordinary names.\<close>

definition clean_shape :: "bool \<Rightarrow> string list \<Rightarrow> bool" where
  "clean_shape r es \<longleftrightarrow> (\<exists>n ns. es = replicate n dotdot @ ns \<and> list_all normal_elem ns \<and> (r \<longrightarrow> n = 0))"

lemma clean_shape_Nil: "clean_shape r []"
  unfolding clean_shape_def by (intro exI [of _ 0] exI [of _ "[]"]) simp

lemma clean_shape_snoc:
  assumes "clean_shape r es" and "normal_elem e"
  shows "clean_shape r (es @ [e])"
proof -
  from assms(1) obtain n ns where "es = replicate n dotdot @ ns" "list_all normal_elem ns" "r \<longrightarrow> n = 0"
    by (auto simp: clean_shape_def)
  with assms(2) show ?thesis
    unfolding clean_shape_def by (intro exI [of _ n] exI [of _ "ns @ [e]"]) simp
qed

lemma clean_shape_butlast:
  assumes "clean_shape r (es @ [e])" and "e \<noteq> dotdot"
  shows "clean_shape r es"
proof -
  from assms(1) obtain n ns where s: "es @ [e] = replicate n dotdot @ ns" "list_all normal_elem ns" "r \<longrightarrow> n = 0"
    by (auto simp: clean_shape_def)
  have "ns \<noteq> []"
  proof
    assume "ns = []"
    then have "e \<in> set (replicate n dotdot)" using s(1) by (metis append_Nil2 in_set_conv_decomp)
    with assms(2) show False by auto
  qed
  then obtain ns' where "ns = ns' @ [e]" using s(1) by (cases ns rule: rev_cases) auto
  with s show ?thesis unfolding clean_shape_def by auto
qed

lemma clean_shape_dotdot:
  assumes "clean_shape False (es @ [dotdot])"
  shows "clean_shape False (es @ [dotdot, dotdot])"
proof -
  from assms obtain n ns where s: "es @ [dotdot] = replicate n dotdot @ ns" "list_all normal_elem ns"
    by (auto simp: clean_shape_def)
  have "ns = []"
  proof (rule ccontr)
    assume "ns \<noteq> []"
    then have "normal_elem dotdot" using s by (cases ns rule: rev_cases) auto
    then show False by (simp add: normal_elem_def)
  qed
  then have "es @ [dotdot, dotdot] = replicate (Suc n) dotdot @ []"
    using s(1) by (metis append.assoc append_Cons append_Nil append_Nil2 replicate_append_same replicate_Suc)
  then show ?thesis
    unfolding clean_shape_def by (intro exI [of _ "Suc n"] exI [of _ "[]"] conjI) simp_all
qed

lemma clean_shape_rooted_last: "clean_shape True (es @ [e]) \<Longrightarrow> e \<noteq> dotdot"
  by (auto simp: clean_shape_def normal_elem_def list_all_iff dest: arg_cong [where f = set])

lemma clean_elems_shape:
  assumes "clean_shape r (rev out)" and "list_all (\<lambda>e. slash \<notin> set e) es"
  shows "clean_shape r (clean_elems r out es)"
  using assms
proof (induction r out es rule: clean_elems.induct)
  case (1 r out)
  then show ?case by simp
next
  case (2 r out e es)
  show ?case
  proof (cases "e = [] \<or> e = ''.''")
    case True
    then show ?thesis using 2 by auto
  next
    case plain: False
    show ?thesis
    proof (cases "e = dotdot")
      case False
      with plain "2.prems" have "clean_shape r (rev out @ [e])"
        by (intro clean_shape_snoc) (simp_all add: normal_elem_def plain_elem_def)
      with plain False 2 show ?thesis by auto
    next
      case dd: True
      show ?thesis
      proof (cases out)
        case Nil
        have "clean_shape False [dotdot]"
          unfolding clean_shape_def by (intro exI [of _ 1] exI [of _ "[]"]) simp
        with Nil dd 2 show ?thesis by (auto simp: clean_shape_Nil)
      next
        case (Cons o1 os)
        have s: "clean_shape r (rev os @ [o1])" using "2.prems"(1) Cons by simp
        show ?thesis
        proof (cases "o1 = dotdot")
          case False
          with clean_shape_butlast [OF s] dd Cons 2 show ?thesis by auto
        next
          case True
          with s clean_shape_rooted_last have "\<not> r" by (cases r) auto
          with s True clean_shape_dotdot [of "rev os"] dd Cons 2 show ?thesis by auto
        qed
      qed
    qed
  qed
qed

lemma clean_elems_fixed:
  assumes "list_all normal_elem es"
  shows "clean_elems r out es = rev out @ es"
  using assms by (induction es arbitrary: out) (auto simp: normal_elem_def plain_elem_def)

lemma clean_elems_idem:
  assumes "clean_shape r es"
  shows "clean_elems r [] es = es"
proof -
  from assms obtain n ns where s: "es = replicate n dotdot @ ns" "list_all normal_elem ns" "r \<longrightarrow> n = 0"
    by (auto simp: clean_shape_def)
  have dots: "clean_elems False (replicate m dotdot) (replicate n dotdot @ ns) = replicate (m + n) dotdot @ ns" for m
  proof (induction n arbitrary: m)
    case 0
    then show ?case using s(2) by (simp add: clean_elems_fixed)
  next
    case (Suc n)
    have "clean_elems False (replicate m dotdot) (dotdot # xs) = clean_elems False (replicate (Suc m) dotdot) xs" for xs
      by (cases m) auto
    from this [of "replicate n dotdot @ ns"] Suc [of "Suc m"] show ?case
      by (simp only: replicate_Suc append_Cons add_Suc add_Suc_right)
  qed
  show ?thesis
    using dots [of 0] s by (cases r) (auto simp: clean_elems_fixed)
qed

lemma plain_dotdot: "plain_elem dotdot"
  by (simp add: plain_elem_def slash_def)

lemma clean_shape_plain: "clean_shape r es \<Longrightarrow> list_all plain_elem es"
proof -
  assume "clean_shape r es"
  then obtain n ns where "es = replicate n dotdot @ ns" "list_all normal_elem ns"
    unfolding clean_shape_def by blast
  then show ?thesis
    using plain_dotdot by (simp add: list_all_iff normal_elem_def ball_Un)
qed

lemma elems_no_slash: "list_all (\<lambda>e. slash \<notin> set e) (elems p)"
  by (auto simp: list_all_iff dest: split_on_elem_no_sep)

lemma clean_shape_elems: "clean_shape (rooted p) (clean_elems (rooted p) [] (elems p))"
  by (rule clean_elems_shape) (simp_all add: clean_shape_Nil elems_no_slash)

lemma elems_join_plain:
  assumes "list_all plain_elem es" and "es \<noteq> []"
  shows "elems (join_elems es) = es" and "\<not> rooted (join_elems es)"
proof -
  show "elems (join_elems es) = es"
    using assms by (intro split_join) (auto simp: plain_elem_def list_all_iff)
  obtain e es' where es: "es = e # es'" using assms(2) by (cases es) auto
  then have "e \<noteq> []" "slash \<notin> set e" using assms(1) by (auto simp: plain_elem_def)
  then show "\<not> rooted (join_elems es)"
    using es by (cases e; cases es') (auto simp: rooted_def)
qed

text \<open>Cleaning twice is cleaning once.\<close>

lemma go_clean_idem: "go_clean (go_clean p) = go_clean p"
proof -
  let ?r = "rooted p" and ?es = "clean_elems (rooted p) [] (elems p)"
  note shape = clean_shape_elems [of p]
  note plain = clean_shape_plain [OF shape]
  show ?thesis
  proof (cases ?r)
    case True
    have "elems (slash # join_elems ?es) = [] # (if ?es = [] then [[]] else ?es)"
      using elems_join_plain(1) [OF plain] by (auto simp: slash_def)
    then have "clean_elems True [] (elems (slash # join_elems ?es)) = ?es"
      using clean_elems_idem [OF shape] True by auto
    then show ?thesis using True by (simp add: go_clean_def rooted_def Let_def)
  next
    case False
    show ?thesis
    proof (cases "?es = []")
      case True
      then have "go_clean p = ''.''" using False by (simp add: go_clean_def)
      then show ?thesis by (simp add: go_clean_def rooted_def slash_def)
    next
      case ne: False
      then have "go_clean p = join_elems ?es" using False by (simp add: go_clean_def)
      then show ?thesis
        using elems_join_plain [OF plain ne] clean_elems_idem [OF shape] False ne
        by (simp add: go_clean_def)
    qed
  qed
qed

text \<open>A clean relative path that does not start with \<open>..\<close> names something below its base.\<close>

lemma clean_relative_elems:
  assumes "go_clean p = p" and "\<not> rooted p" and "p \<noteq> ''.''" and "p \<noteq> dotdot"
    and "\<not> has_prefix p ''../''"
  shows "list_all normal_elem (elems p)"
proof -
  let ?es = "clean_elems (rooted p) [] (elems p)"
  note shape = clean_shape_elems [of p]
  note plain = clean_shape_plain [OF shape]
  have ne: "?es \<noteq> []" and p: "p = join_elems ?es"
    using assms(1-3) by (auto simp: go_clean_def Let_def split: if_splits)
  have es: "elems p = ?es" using elems_join_plain(1) [OF plain ne] p by simp
  obtain n ns where s: "?es = replicate n dotdot @ ns" "list_all normal_elem ns"
    using shape by (auto simp: clean_shape_def)
  have "n = 0"
  proof (rule ccontr)
    assume "n \<noteq> 0"
    then obtain rest where r: "?es = dotdot # rest" using s(1) by (cases n) auto
    show False
    proof (cases rest)
      case Nil
      then show False using r p assms(4) by simp
    next
      case (Cons q qs)
      then have "p = ''../'' @ join_elems (q # qs)" using r p by (simp add: slash_def)
      then show False using assms(5) by (metis has_prefix_append)
    qed
  qed
  with s es show ?thesis by simp
qed

end
