(* ===== verification/ControlModel.thy ===== *)
theory ControlModel
  imports Paths
begin

text \<open>
  \<open>internal/control/model.go\<close> and the validation half of \<open>internal/control/store.go\<close>: the
  records of the control workflow and the checks every submission and every stored record
  passes.  A Go \<open>*Error\<close> is \<open>Fail code message\<close>, any other error is \<open>Other what\<close>.
\<close>

section \<open>Data\<close>

abbreviation schema_version :: int where "schema_version \<equiv> 1"
abbreviation default_ttl :: duration where "default_ttl \<equiv> 2 * hour"
abbreviation min_ttl :: duration where "min_ttl \<equiv> minute"
abbreviation max_ttl :: duration where "max_ttl \<equiv> 4 * hour"
abbreviation retention :: duration where "retention \<equiv> 30 * minute"
abbreviation max_active :: nat where "max_active \<equiv> 16"

datatype ctl_error = Fail (err_code: string) string | Other string

definition invalid_argument :: "string \<Rightarrow> ctl_error" where
  "invalid_argument msg = Fail ''INVALID_ARGUMENT'' msg"

record plan_step =
  step_description :: string
  step_files :: "string list"
  step_tests :: "string list"

record submission =
  sub_request_id :: string
  sub_task_id :: string
  sub_iteration :: int
  sub_state :: string
  sub_summary :: string
  sub_plan :: "plan_step list"

record ctl_request =
  rq_schema_version :: int
  rq_workspace_id :: string
  rq_request_id :: string
  rq_task_id :: string
  rq_iteration :: int
  rq_status :: string
  rq_created_at :: time
  rq_expires_at :: time
  rq_submitted_at :: "time option"
  rq_response :: "submission option"
  rq_reused :: bool

record ctl_receipt =
  rc_accepted :: bool
  rc_duplicate :: bool
  rc_request_id :: string
  rc_task_id :: string
  rc_iteration :: int
  rc_state :: string
  rc_submitted_at :: time
  rc_expires_at :: time

section \<open>Identifiers\<close>

definition lower_hex :: "char \<Rightarrow> bool" where
  "lower_hex c \<longleftrightarrow> in_range 48 57 c \<or> in_range 97 102 c"

definition ascii_letter :: "char \<Rightarrow> bool" where
  "ascii_letter c \<longleftrightarrow> in_range 65 90 c \<or> in_range 97 122 c"

definition id_char :: "char \<Rightarrow> bool" where
  "id_char c \<longleftrightarrow> ascii_letter c \<or> in_range 48 57 c \<or> c = CHR ''_'' \<or> c = CHR ''-''"

text \<open>\<open>^cl\_[0-9a-f]{8}$\<close> and \<open>^cr\_[A-Za-z0-9\_-]{32}$\<close>; \<open>$\<close> is the end of the text.\<close>

definition task_pattern :: "string \<Rightarrow> bool" where
  "task_pattern s \<longleftrightarrow> length s = 11 \<and> has_prefix s ''cl_'' \<and> list_all lower_hex (drop 3 s)"

definition request_pattern :: "string \<Rightarrow> bool" where
  "request_pattern s \<longleftrightarrow> length s = 35 \<and> has_prefix s ''cr_'' \<and> list_all id_char (drop 3 s)"

definition validate_identity :: "string \<Rightarrow> int \<Rightarrow> ctl_error option" where
  "validate_identity task_id iteration =
    (if \<not> task_pattern task_id then Some (invalid_argument ''task_id must match cl_<8 lowercase hex characters>'')
     else if iteration < 0 \<or> 1000000 < iteration
     then Some (invalid_argument ''iteration must be between 0 and 1000000'')
     else None)"

section \<open>Submissions\<close>

definition has_control :: "string \<Rightarrow> bool" where
  "has_control s \<longleftrightarrow> list_ex (\<lambda>r. r < 32 \<or> r = 127) (runes s)"

definition drive_prefix :: "string \<Rightarrow> bool" where
  "drive_prefix p \<longleftrightarrow> (case p of a # b # _ \<Rightarrow> ascii_letter a \<and> b = CHR '':'' | _ \<Rightarrow> False)"

definition bad_plan_file :: "string \<Rightarrow> bool" where
  "bad_plan_file p \<longleftrightarrow> 512 < length p \<or> p = [] \<or> CHR 0x5C \<in> set p \<or> go_clean p \<noteq> p \<or> p = ''.''
     \<or> has_prefix p ''/'' \<or> drive_prefix p \<or> p = dotdot \<or> has_prefix p ''../'' \<or> has_control p"

definition bad_test_label :: "string \<Rightarrow> bool" where
  "bad_test_label t \<longleftrightarrow> length t = 0 \<or> 1024 < length t \<or> has_control t"

definition validate_step :: "plan_step \<Rightarrow> ctl_error option" where
  "validate_step st =
    (if trim_space (step_description st) = [] \<or> 2048 < length (step_description st)
        \<or> has_control (step_description st) \<or> 32 < length (step_files st) \<or> 16 < length (step_tests st)
     then Some (invalid_argument ''plan step exceeds a configured limit'')
     else if list_ex bad_plan_file (step_files st)
     then Some (invalid_argument ''plan file must be a normalized workspace-relative path'')
     else if list_ex bad_test_label (step_tests st)
     then Some (invalid_argument ''test label exceeds a configured limit'')
     else None)"

fun first_error :: "('a \<Rightarrow> 'e option) \<Rightarrow> 'a list \<Rightarrow> 'e option" where
  "first_error f [] = None"
| "first_error f (x # xs) = (case f x of Some e \<Rightarrow> Some e | None \<Rightarrow> first_error f xs)"

definition validate_submission :: "submission \<Rightarrow> ctl_error option" where
  "validate_submission s =
    (case validate_identity (sub_task_id s) (sub_iteration s) of
       Some e \<Rightarrow> Some e
     | None \<Rightarrow>
        if \<not> request_pattern (sub_request_id s) then Some (invalid_argument ''request_id has invalid format'')
        else if trim_space (sub_summary s) = [] \<or> 4096 < length (sub_summary s) \<or> has_control (sub_summary s)
        then Some (invalid_argument ''summary must contain 1 to 4096 bytes'')
        else if sub_state s \<noteq> ''PLAN'' \<and> sub_state s \<noteq> ''DONE'' \<and> sub_state s \<noteq> ''BLOCKED'' \<and> sub_state s \<noteq> ''ERROR''
        then Some (invalid_argument ''state must be PLAN, DONE, BLOCKED, or ERROR'')
        else if sub_state s = ''PLAN'' \<and> (length (sub_plan s) < 1 \<or> 16 < length (sub_plan s))
        then Some (invalid_argument ''PLAN requires 1 to 16 steps'')
        else if sub_state s \<noteq> ''PLAN'' \<and> length (sub_plan s) \<noteq> 0
        then Some (invalid_argument ''plan is allowed only for PLAN'')
        else first_error validate_step (sub_plan s))"

section \<open>Stored records\<close>

text \<open>\<open>canon\<close> is \<open>json.Marshal\<close> on a submission; \<open>wid\<close> the workspace of the store.\<close>

definition validate_record :: "(submission \<Rightarrow> string) \<Rightarrow> string \<Rightarrow> ctl_request \<Rightarrow> ctl_error option" where
  "validate_record canon wid r =
    (if rq_schema_version r \<noteq> schema_version \<or> rq_workspace_id r \<noteq> wid \<or> \<not> request_pattern (rq_request_id r)
        \<or> rq_reused r \<or> rq_created_at r = zero_time \<or> rq_expires_at r = zero_time
        \<or> \<not> rq_created_at r < rq_expires_at r
     then Some (invalid_argument ''invalid record metadata'')
     else case validate_identity (rq_task_id r) (rq_iteration r) of
       Some e \<Rightarrow> Some e
     | None \<Rightarrow>
        if rq_status r = ''pending'' then
          (if rq_response r \<noteq> None \<or> rq_submitted_at r \<noteq> None
           then Some (invalid_argument ''pending record contains response'')
           else let lifetime = rq_expires_at r - rq_created_at r in
             if lifetime < min_ttl \<or> max_ttl < lifetime
             then Some (invalid_argument ''pending lifetime exceeds limit'') else None)
        else if rq_status r = ''submitted'' then
          (case (rq_response r, rq_submitted_at r) of
             (Some resp, Some at) \<Rightarrow>
               if sub_request_id resp \<noteq> rq_request_id r \<or> sub_task_id resp \<noteq> rq_task_id r
                  \<or> sub_iteration resp \<noteq> rq_iteration r
               then Some (invalid_argument ''response identity mismatch'')
               else (case validate_submission resp of
                 Some e \<Rightarrow> Some e
               | None \<Rightarrow>
                  let kept = rq_expires_at r - at in
                  if at < rq_created_at r \<or> \<not> at < rq_expires_at r \<or> kept \<le> 0 \<or> retention < kept
                  then Some (invalid_argument ''submitted timestamps are invalid'')
                  else if 65536 < length (canon resp)
                  then Some (invalid_argument ''stored response exceeds 64 KiB'')
                  else None)
           | _ \<Rightarrow> Some (invalid_argument ''submitted record lacks response''))
        else Some (invalid_argument ''invalid record status''))"

section \<open>What a valid plan file is\<close>

lemma first_error_None: "first_error f xs = None \<longleftrightarrow> list_all (\<lambda>x. f x = None) xs"
  by (induction xs) (auto split: option.splits)

lemma not_bad_plan_file_elems:
  assumes "\<not> bad_plan_file p"
  shows "list_all normal_elem (elems p)"
proof -
  have "\<not> rooted p" using assms by (auto simp: bad_plan_file_def rooted_def has_prefix_def slash_def split: list.splits)
  then show ?thesis using assms by (intro clean_relative_elems) (auto simp: bad_plan_file_def)
qed

text \<open>
  every file label of a submission that \<open>validateSubmission\<close> accepts is a relative path all of
  whose elements are ordinary names: no empty element, no \<open>.\<close>, no \<open>..\<close>, no backslash, so joining
  it to a directory never leaves that directory.
\<close>

theorem accepted_plan_files_stay_inside:
  assumes "validate_submission s = None" and "st \<in> set (sub_plan s)" and "f \<in> set (step_files st)"
  shows "f \<noteq> [] \<and> length f \<le> 512 \<and> \<not> rooted f \<and> CHR 0x5C \<notin> set f \<and> list_all normal_elem (elems f)"
proof -
  have "first_error validate_step (sub_plan s) = None"
    using assms(1) by (auto simp: validate_submission_def split: option.splits if_splits)
  with assms(2) have "validate_step st = None" by (simp add: first_error_None list_all_iff)
  with assms(3) have ok: "\<not> bad_plan_file f"
    by (auto simp: validate_step_def list_ex_iff split: if_splits)
  then have "\<not> rooted f" by (auto simp: bad_plan_file_def rooted_def has_prefix_def slash_def split: list.splits)
  with ok not_bad_plan_file_elems [OF ok] show ?thesis by (auto simp: bad_plan_file_def)
qed

definition example_submission :: submission where
  "example_submission =
    \<lparr>sub_request_id = ''cr_ABCDEFGHIJKLMNOPQRSTUVWXYZ012345'', sub_task_id = ''cl_deadbeef'', sub_iteration = 3,
     sub_state = ''PLAN'', sub_summary = ''do it'',
     sub_plan = [\<lparr>step_description = ''edit'', step_files = [''src/a.go''], step_tests = [''go test''] \<rparr>]\<rparr>"

text \<open>The definitions to unfold when a validation is evaluated on ASCII literals.\<close>

lemmas validation_eval =
  validate_submission_def validate_identity_def validate_step_def task_pattern_def request_pattern_def
  has_prefix_def lower_hex_def id_char_def ascii_letter_def in_range_def trim_space_def segs_Cons_ascii
  runes_Cons_ascii has_control_def is_space_def bad_plan_file_def bad_test_label_def go_clean_def rooted_def
  slash_def drive_prefix_def byte_def

lemma example_submission_ok: "validate_submission example_submission = None"
  by (simp add: example_submission_def validation_eval)

theorem accepted_plan_files_stay_inside_witness:
  "list_all normal_elem (elems ''src/a.go'')"
  using accepted_plan_files_stay_inside [OF example_submission_ok, of "hd (sub_plan example_submission)" "''src/a.go''"]
  by (simp add: example_submission_def)

end
