(* ===== verification/ControlStore.thy ===== *)
theory ControlStore
  imports ControlModel
begin

text \<open>
  \<open>internal/control/store.go\<close>: the operations of the control store.  The mutex makes every method
  one state transformer (\<open>Cancel\<close>, which takes it twice, is two).  The environment of a call:

  \<^item> \<open>clk i\<close> is what the i-th call site of \<open>s.now()\<close> in the method reads, and \<open>sv i\<close> what the
    file system does at its i-th call site of \<open>saveLocked\<close>;
  \<^item> \<open>codec\<close> is what the store uses of \<open>encoding/json\<close> and \<open>crypto/sha256\<close>: the canonical text of
    a submission, its digest, and the length of the text of a list of records.  Cloning by a JSON
    round trip is the identity on fields that were decoded from JSON, which is where submissions come from.

  The control file is the JSON value it holds and its size in bytes.
\<close>

section \<open>State and environment\<close>

record codec =
  canon :: "submission \<Rightarrow> string"
  digest :: "string \<Rightarrow> string"
  text_length :: "ctl_request list \<Rightarrow> nat"

record ctl_file =
  cf_bytes :: nat
  cf_records :: "ctl_request list option"

record ctl_store =
  cs_workspace_id :: string
  cs_records :: "(string, ctl_request) gomap"
  cs_file :: "ctl_file option"

record save_env =
  sv_location :: "string option"
  sv_remove :: "string option"
  sv_write :: "string option"

abbreviation max_state_bytes :: nat where "max_state_bytes \<equiv> 1048576"
abbreviation max_response_bytes :: nat where "max_response_bytes \<equiv> 65536"

text \<open>
  \<open>saveLocked\<close>: \<open>sv_location\<close> is an error of \<open>validateLocation\<close> or of the checks on the file
  itself, \<open>sv_remove\<close> and \<open>sv_write\<close> are errors of \<open>os.Remove\<close> and \<open>WriteFileAtomic\<close> (which leave
  the file as it was).  A newline is appended to the text before it is written.
\<close>

definition sorted_records :: "(string, ctl_request) gomap \<Rightarrow> ctl_request list" where
  "sorted_records m = map snd (sort_key fst m)"

definition save_locked :: "codec \<Rightarrow> save_env \<Rightarrow> ctl_store \<Rightarrow> ctl_error option \<times> ctl_store" where
  "save_locked cd sv s =
    (case sv_location sv of
       Some e \<Rightarrow> (Some (Other e), s)
     | None \<Rightarrow>
        if cs_records s = [] then
          (case sv_remove sv of Some e \<Rightarrow> (Some (Other e), s) | None \<Rightarrow> (None, s\<lparr>cs_file := None\<rparr>))
        else let rs = sorted_records (cs_records s) in
          if max_state_bytes < text_length cd rs
          then (Some (Fail ''CONTROL_STATE_TOO_LARGE'' ''control state exceeds 1 MiB''), s)
          else (case sv_write sv of
                  Some e \<Rightarrow> (Some (Other e), s)
                | None \<Rightarrow> (None, s\<lparr>cs_file := Some \<lparr>cf_bytes = text_length cd rs + 1, cf_records = Some rs\<rparr>\<rparr>)))"

definition rq_expired :: "time \<Rightarrow> ctl_request \<Rightarrow> bool" where
  "rq_expired now r \<longleftrightarrow> \<not> now < rq_expires_at r"

definition prune_records :: "time \<Rightarrow> (string, ctl_request) gomap \<Rightarrow> (string, ctl_request) gomap" where
  "prune_records now m = gm_retain (\<lambda>_ r. \<not> rq_expired now r) m"

definition prune_locked :: "time \<Rightarrow> ctl_store \<Rightarrow> bool \<times> ctl_store" where
  "prune_locked now s =
    (length (prune_records now (cs_records s)) < length (cs_records s),
     s\<lparr>cs_records := prune_records now (cs_records s)\<rparr>)"

definition prune_and_save :: "codec \<Rightarrow> time \<Rightarrow> save_env \<Rightarrow> ctl_store \<Rightarrow> ctl_error option \<times> ctl_store" where
  "prune_and_save cd now sv s =
    (case prune_locked now s of
       (False, s') \<Rightarrow> (None, s')
     | (True, s') \<Rightarrow>
        (case save_locked cd sv s' of
           (Some e, s'') \<Rightarrow> (Some e, s''\<lparr>cs_records := cs_records s\<rparr>)
         | (None, s'') \<Rightarrow> (None, s'')))"

section \<open>Operations\<close>

definition same_tuple :: "string \<Rightarrow> int \<Rightarrow> ctl_request \<Rightarrow> bool" where
  "same_tuple task_id iteration r \<longleftrightarrow> rq_task_id r = task_id \<and> rq_iteration r = iteration"

definition find_tuple :: "string \<Rightarrow> int \<Rightarrow> (string, ctl_request) gomap \<Rightarrow> ctl_request option" where
  "find_tuple task_id iteration m = map_option snd (List.find (\<lambda>(_, r). same_tuple task_id iteration r) m)"

definition new_request :: "string \<Rightarrow> string \<Rightarrow> string \<Rightarrow> int \<Rightarrow> time \<Rightarrow> duration \<Rightarrow> ctl_request" where
  "new_request wid rid task_id iteration now ttl =
    \<lparr>rq_schema_version = schema_version, rq_workspace_id = wid, rq_request_id = rid,
     rq_task_id = task_id, rq_iteration = iteration, rq_status = ''pending'', rq_created_at = now,
     rq_expires_at = now + ttl, rq_submitted_at = None, rq_response = None, rq_reused = False\<rparr>"

text \<open>\<open>Prepare\<close>; \<open>rid\<close> is the random identifier, \<open>None\<close> when \<open>crypto/rand\<close> fails.\<close>

definition ctl_prepare ::
  "codec \<Rightarrow> (nat \<Rightarrow> time) \<Rightarrow> (nat \<Rightarrow> save_env) \<Rightarrow> string option \<Rightarrow> string \<Rightarrow> int \<Rightarrow> duration \<Rightarrow> ctl_store
     \<Rightarrow> (ctl_error + ctl_request) \<times> ctl_store" where
  "ctl_prepare cd clk sv rid task_id iteration ttl0 s =
    (case validate_identity task_id iteration of
       Some e \<Rightarrow> (Inl e, s)
     | None \<Rightarrow>
        let ttl = (if ttl0 = 0 then default_ttl else ttl0) in
        if ttl < min_ttl \<or> max_ttl < ttl
        then (Inl (invalid_argument ''ttl must be between 1 minute and 4 hours''), s)
        else case prune_and_save cd (clk 0) (sv 0) s of
          (Some e, s1) \<Rightarrow> (Inl e, s1)
        | (None, s1) \<Rightarrow>
            (case find_tuple task_id iteration (cs_records s1) of
               Some r \<Rightarrow> (Inr (r\<lparr>rq_reused := True\<rparr>), s1)
             | None \<Rightarrow>
                if max_active \<le> length (cs_records s1)
                then (Inl (Fail ''CONTROL_CAPACITY_EXCEEDED'' ''control request capacity reached''), s1)
                else case rid of
                  None \<Rightarrow> (Inl (Other ''rand''), s1)
                | Some i \<Rightarrow>
                    let r = new_request (cs_workspace_id s1) i task_id iteration (clk 1) ttl;
                        s2 = s1\<lparr>cs_records := gm_put i r (cs_records s1)\<rparr>
                    in case save_locked cd (sv 1) s2 of
                         (Some e, s3) \<Rightarrow> (Inl e, s3\<lparr>cs_records := gm_del i (cs_records s3)\<rparr>)
                       | (None, s3) \<Rightarrow> (Inr r, s3)))"

definition receipt :: "ctl_request \<Rightarrow> submission \<Rightarrow> time \<Rightarrow> bool \<Rightarrow> ctl_receipt" where
  "receipt r resp at duplicate =
    \<lparr>rc_accepted = True, rc_duplicate = duplicate, rc_request_id = rq_request_id r, rc_task_id = rq_task_id r,
     rc_iteration = rq_iteration r, rc_state = sub_state resp, rc_submitted_at = at,
     rc_expires_at = rq_expires_at r\<rparr>"

text \<open>The check both \<open>Submit\<close> and \<open>Get\<close> start with: the record asked for has expired.\<close>

definition drop_if_expired ::
  "codec \<Rightarrow> time \<Rightarrow> save_env \<Rightarrow> string \<Rightarrow> ctl_store \<Rightarrow> ctl_error option \<times> ctl_store" where
  "drop_if_expired cd now sv rid s =
    (case gm_get (cs_records s) rid of
       None \<Rightarrow> (None, s)
     | Some r \<Rightarrow>
        if \<not> rq_expired now r then (None, s)
        else case save_locked cd sv (s\<lparr>cs_records := gm_del rid (cs_records s)\<rparr>) of
          (Some e, s') \<Rightarrow> (Some e, s'\<lparr>cs_records := gm_put rid r (cs_records s')\<rparr>)
        | (None, s') \<Rightarrow> (Some (Fail ''CONTROL_REQUEST_EXPIRED'' ''control request expired''), s'))"

definition submitted_request :: "submission \<Rightarrow> time \<Rightarrow> ctl_request \<Rightarrow> ctl_request" where
  "submitted_request sub now r =
    r\<lparr>rq_status := ''submitted'', rq_submitted_at := Some now, rq_response := Some sub,
      rq_expires_at := now + retention\<rparr>"

text \<open>
  \<open>Submit\<close>.  A submitted record always has a response and a time (the invariant below); where
  the code would dereference a nil pointer, the model returns \<open>Other ''nil''\<close>.
\<close>

definition ctl_submit ::
  "codec \<Rightarrow> (nat \<Rightarrow> time) \<Rightarrow> (nat \<Rightarrow> save_env) \<Rightarrow> submission \<Rightarrow> ctl_store
     \<Rightarrow> (ctl_error + ctl_receipt) \<times> ctl_store" where
  "ctl_submit cd clk sv sub s =
    (case validate_submission sub of
       Some e \<Rightarrow> (Inl e, s)
     | None \<Rightarrow>
        if max_response_bytes < length (canon cd sub)
        then (Inl (invalid_argument ''control response exceeds 64 KiB''), s)
        else case drop_if_expired cd (clk 0) (sv 0) (sub_request_id sub) s of
          (Some e, s1) \<Rightarrow> (Inl e, s1)
        | (None, s1) \<Rightarrow>
        case prune_and_save cd (clk 1) (sv 1) s1 of
          (Some e, s2) \<Rightarrow> (Inl e, s2)
        | (None, s2) \<Rightarrow>
        case gm_get (cs_records s2) (sub_request_id sub) of
          None \<Rightarrow> (Inl (Fail ''CONTROL_REQUEST_NOT_FOUND'' ''control request was not found''), s2)
        | Some r \<Rightarrow>
            if rq_task_id r \<noteq> sub_task_id sub \<or> rq_iteration r \<noteq> sub_iteration sub
            then (Inl (Fail ''CONTROL_REQUEST_MISMATCH'' ''control request identity does not match''), s2)
            else if rq_status r = ''submitted'' then
              (case (rq_response r, rq_submitted_at r) of
                 (Some resp, Some at) \<Rightarrow>
                   if digest cd (canon cd resp) \<noteq> digest cd (canon cd sub)
                   then (Inl (Fail ''CONTROL_RESPONSE_CONFLICT'' ''control response is immutable''), s2)
                   else (Inr (receipt r resp at True), s2)
               | _ \<Rightarrow> (Inl (Other ''nil''), s2))
            else if rq_status r \<noteq> ''pending'' \<or> rq_expired (clk 2) r
            then (Inl (Fail ''CONTROL_REQUEST_EXPIRED'' ''control request is no longer active''), s2)
            else
              let r' = submitted_request sub (clk 3) r in
              case save_locked cd (sv 2) (s2\<lparr>cs_records := gm_put (sub_request_id sub) r' (cs_records s2)\<rparr>) of
                (Some e, s3) \<Rightarrow> (Inl e, s3\<lparr>cs_records := gm_put (sub_request_id sub) r (cs_records s3)\<rparr>)
              | (None, s3) \<Rightarrow> (Inr (receipt r' sub (clk 3) False), s3))"

definition ctl_get ::
  "codec \<Rightarrow> (nat \<Rightarrow> time) \<Rightarrow> (nat \<Rightarrow> save_env) \<Rightarrow> string \<Rightarrow> string \<Rightarrow> int \<Rightarrow> ctl_store
     \<Rightarrow> (ctl_error + ctl_request) \<times> ctl_store" where
  "ctl_get cd clk sv rid task_id iteration s =
    (case validate_identity task_id iteration of
       Some e \<Rightarrow> (Inl e, s)
     | None \<Rightarrow>
        case drop_if_expired cd (clk 0) (sv 0) rid s of
          (Some e, s1) \<Rightarrow> (Inl e, s1)
        | (None, s1) \<Rightarrow>
        case prune_and_save cd (clk 1) (sv 1) s1 of
          (Some e, s2) \<Rightarrow> (Inl e, s2)
        | (None, s2) \<Rightarrow>
        case gm_get (cs_records s2) rid of
          None \<Rightarrow> (Inl (Fail ''CONTROL_REQUEST_NOT_FOUND'' ''control request was not found''), s2)
        | Some r \<Rightarrow>
            if rq_task_id r \<noteq> task_id \<or> rq_iteration r \<noteq> iteration
            then (Inl (Fail ''CONTROL_REQUEST_MISMATCH'' ''control request identity does not match''), s2)
            else (Inr r, s2))"

text \<open>The second critical section of \<open>Cancel\<close>; \<open>got\<close> is what \<open>Get\<close> returned.\<close>

definition ctl_cancel_finish ::
  "codec \<Rightarrow> save_env \<Rightarrow> string \<Rightarrow> ctl_request \<Rightarrow> ctl_store \<Rightarrow> (ctl_error + ctl_request \<times> bool) \<times> ctl_store" where
  "ctl_cancel_finish cd sv rid got s =
    (case gm_get (cs_records s) rid of
       None \<Rightarrow> (Inl (Fail ''CONTROL_REQUEST_NOT_FOUND'' ''control request was not found''), s)
     | Some current \<Rightarrow>
        if rq_status current \<noteq> ''pending'' then (Inr (current, False), s)
        else case save_locked cd sv (s\<lparr>cs_records := gm_del rid (cs_records s)\<rparr>) of
          (Some e, s') \<Rightarrow> (Inl e, s'\<lparr>cs_records := gm_put rid current (cs_records s')\<rparr>)
        | (None, s') \<Rightarrow> (Inr (got, True), s'))"

text \<open>\<open>Cancel\<close> without another call between its two critical sections.\<close>

definition ctl_cancel ::
  "codec \<Rightarrow> (nat \<Rightarrow> time) \<Rightarrow> (nat \<Rightarrow> save_env) \<Rightarrow> string \<Rightarrow> string \<Rightarrow> int \<Rightarrow> ctl_store
     \<Rightarrow> (ctl_error + ctl_request \<times> bool) \<times> ctl_store" where
  "ctl_cancel cd clk sv rid task_id iteration s =
    (case ctl_get cd clk sv rid task_id iteration s of
       (Inl e, s1) \<Rightarrow> (Inl e, s1)
     | (Inr r, s1) \<Rightarrow> ctl_cancel_finish cd (sv 2) rid r s1)"

section \<open>Opening the store\<close>

definition workspace_id_pattern :: "string \<Rightarrow> bool" where
  "workspace_id_pattern s \<longleftrightarrow> 1 \<le> length s \<and> length s \<le> 128 \<and> list_all id_char s"

fun load_records ::
  "(submission \<Rightarrow> string) \<Rightarrow> string \<Rightarrow> ctl_request list \<Rightarrow> (string \<times> int) list \<Rightarrow> (string, ctl_request) gomap
     \<Rightarrow> ctl_error + (string, ctl_request) gomap" where
  "load_records cn wid [] seen m = Inr m"
| "load_records cn wid (r # rs) seen m =
    (case validate_record cn wid r of
       Some e \<Rightarrow> Inl e
     | None \<Rightarrow>
        if gm_get m (rq_request_id r) \<noteq> None \<or> (rq_task_id r, rq_iteration r) \<in> set seen
        then Inl (Other ''invalid control state: duplicate request identity'')
        else load_records cn wid rs ((rq_task_id r, rq_iteration r) # seen) (gm_put (rq_request_id r) r m))"

text \<open>
  \<open>NewStore\<close>: \<open>location\<close> is an error of \<open>validateLocation\<close>, \<open>file\<close> what \<open>Lstat\<close> finds (\<open>Inl\<close>
  an error or a file that is not a private regular file).  An empty file has no records.
\<close>

definition new_store ::
  "codec \<Rightarrow> string \<Rightarrow> string \<Rightarrow> string option \<Rightarrow> (string + ctl_file option) \<Rightarrow> time \<Rightarrow> (nat \<Rightarrow> save_env)
     \<Rightarrow> ctl_error + ctl_store" where
  "new_store cd wid workspace_root location file now sv =
    (if \<not> workspace_id_pattern wid then Inl (Other ''workspace ID is required'')
     else if trim_space workspace_root = [] then Inl (Other ''workspace root is required'')
     else case location of Some e \<Rightarrow> Inl (Other e) | None \<Rightarrow>
     case file of Inl e \<Rightarrow> Inl (Other e) | Inr content \<Rightarrow>
     let bytes = (case content of None \<Rightarrow> 0 | Some f \<Rightarrow> cf_bytes f) in
     if max_state_bytes < bytes
     then Inl (Fail ''CONTROL_STATE_TOO_LARGE'' ''control state exceeds 1 MiB'')
     else
     let loaded =
       (if bytes = 0 then Inr []
        else case Option.bind content cf_records of
          None \<Rightarrow> Inl (Other ''decode control state'')
        | Some rs \<Rightarrow>
            if max_active < length rs
            then Inl (Fail ''CONTROL_CAPACITY_EXCEEDED'' ''control request capacity reached'')
            else load_records (canon cd) wid rs [] [])
     in case loaded of
       Inl e \<Rightarrow> Inl e
     | Inr m \<Rightarrow>
        case prune_and_save cd now (sv 0) \<lparr>cs_workspace_id = wid, cs_records = m, cs_file = content\<rparr> of
          (Some e, _) \<Rightarrow> Inl e
        | (None, s) \<Rightarrow>
            if cs_records s = [] \<and> 0 < bytes
            then (case save_locked cd (sv 1) s of (Some e, _) \<Rightarrow> Inl e | (None, s') \<Rightarrow> Inr s')
            else Inr s)"

section \<open>Memory and disk\<close>

text \<open>The records of a store as a partial function, and what the control file must hold.\<close>

definition slots :: "ctl_store \<Rightarrow> string \<Rightarrow> ctl_request option" where
  "slots s = gm_get (cs_records s)"

definition file_holds :: "ctl_file option \<Rightarrow> (string \<Rightarrow> ctl_request option) \<Rightarrow> bool" where
  "file_holds f m \<longleftrightarrow>
    (case f of
       None \<Rightarrow> (\<forall>k. m k = None)
     | Some c \<Rightarrow> (cf_bytes c = 0 \<and> (\<forall>k. m k = None))
         \<or> (\<exists>rs. 0 < cf_bytes c \<and> cf_records c = Some rs \<and> distinct (map rq_request_id rs)
               \<and> (\<forall>k r. m k = Some r \<longleftrightarrow> r \<in> set rs \<and> rq_request_id r = k)))"

definition keyed :: "(string, ctl_request) gomap \<Rightarrow> bool" where
  "keyed m \<longleftrightarrow> gm_ok m \<and> (\<forall>k r. gm_get m k = Some r \<longrightarrow> rq_request_id r = k)"

definition durable :: "ctl_store \<Rightarrow> bool" where
  "durable s \<longleftrightarrow> keyed (cs_records s) \<and> file_holds (cs_file s) (slots s)"

lemma keyed_del [inv_intros]: "keyed m \<Longrightarrow> keyed (gm_del k m)"
  by (auto simp: keyed_def gomap_simps split: if_splits)

lemma keyed_put [inv_intros]: "keyed m \<Longrightarrow> rq_request_id r = k \<Longrightarrow> keyed (gm_put k r m)"
  by (auto simp: keyed_def gomap_simps split: if_splits)

lemma keyed_prune [inv_intros]: "keyed m \<Longrightarrow> keyed (prune_records now m)"
  by (auto simp: keyed_def prune_records_def gomap_simps split: option.splits if_splits)

interpretation records: expiring_map gm_get gm_put gm_del length gm_ok rq_expired prune_records
  by unfold_locales
     (auto simp: prune_records_def rq_expired_def gomap_simps gm_length_retain_le split: option.splits)

lemma sorted_records_set: "set (sorted_records m) = snd ` set m"
  by (simp add: sorted_records_def)

lemma sorted_records_ids:
  assumes "keyed m"
  shows "distinct (map rq_request_id (sorted_records m))"
proof -
  have "\<forall>p \<in> set (sort_key fst m). rq_request_id (snd p) = fst p"
    using assms by (auto simp: keyed_def gm_ok_def)
  then have "map rq_request_id (sorted_records m) = map fst (sort_key fst m)"
    by (simp add: sorted_records_def)
  moreover have "distinct (map fst (sort_key fst m))"
    using assms by (simp add: keyed_def gm_ok_def distinct_map inj_on_def)
  ultimately show ?thesis by simp
qed

lemma sorted_records_get:
  assumes "keyed m"
  shows "gm_get m k = Some r \<longleftrightarrow> r \<in> set (sorted_records m) \<and> rq_request_id r = k"
proof -
  have ok: "gm_ok m" and key: "\<And>k r. (k, r) \<in> set m \<Longrightarrow> rq_request_id r = k"
    using assms by (auto simp: keyed_def gm_set_iff)
  show ?thesis
    unfolding gm_set_iff [OF ok, symmetric] sorted_records_set
    using key by (auto intro: rev_image_eqI)
qed

text \<open>A save either fails and changes nothing, or leaves the file holding the records.\<close>

lemma save_locked_error: "save_locked cd sv s = (Some e, s') \<Longrightarrow> s' = s"
  by (auto simp: save_locked_def Let_def split: option.splits if_splits)

lemma save_locked_ok:
  assumes "save_locked cd sv s = (None, s')" and "keyed (cs_records s)"
  shows "cs_records s' = cs_records s \<and> cs_workspace_id s' = cs_workspace_id s \<and> durable s'"
  using assms sorted_records_ids [OF assms(2)] sorted_records_get [OF assms(2)]
  by (auto simp: save_locked_def durable_def file_holds_def slots_def Let_def split: option.splits if_splits)

lemma durable_same_slots:
  assumes "durable s" and "keyed m" and "gm_get m = slots s"
  shows "durable (s\<lparr>cs_records := m\<rparr>)"
  using assms by (simp add: durable_def slots_def)

lemma prune_records_same:
  "\<not> length (prune_records now m) < length m \<Longrightarrow> prune_records now m = m"
  unfolding prune_records_def gm_retain_def by (meson length_filter_less filter_id_conv)

lemma prune_and_save_spec:
  assumes "prune_and_save cd now sv s = (r, s')" and "durable s"
  shows "durable s' \<and> cs_workspace_id s' = cs_workspace_id s
    \<and> (case r of None \<Rightarrow> cs_records s' = prune_records now (cs_records s) | Some _ \<Rightarrow> s' = s)"
proof -
  let ?s = "s\<lparr>cs_records := prune_records now (cs_records s)\<rparr>"
  have keyed: "keyed (cs_records ?s)" using assms(2) by (simp add: durable_def keyed_prune)
  show ?thesis
  proof (cases "length (prune_records now (cs_records s)) < length (cs_records s)")
    case False
    then have "?s = s" using prune_records_same by fastforce
    with False assms show ?thesis
      by (auto simp: prune_and_save_def prune_locked_def prune_records_same)
  next
    case True
    obtain r1 s1 where sv: "save_locked cd sv ?s = (r1, s1)" by fastforce
    show ?thesis
    proof (cases r1)
      case None
      with sv True assms(1) save_locked_ok [OF _ keyed, of cd sv s1] show ?thesis
        by (auto simp: prune_and_save_def prune_locked_def)
    next
      case (Some e)
      with sv save_locked_error have "s1 = ?s" by blast
      with sv Some True assms show ?thesis by (auto simp: prune_and_save_def prune_locked_def)
    qed
  qed
qed

lemma restore_slots:
  assumes "gm_get m k = Some r"
  shows "gm_get (gm_put k r (gm_del k m)) = gm_get m"
  using assms by (auto simp: gomap_simps fun_eq_iff)

lemma drop_if_expired_spec:
  assumes "drop_if_expired cd now sv rid s = (r, s')" and "durable s"
  shows "durable s' \<and> cs_workspace_id s' = cs_workspace_id s
    \<and> (r = None \<longrightarrow> s' = s \<and> (\<forall>q. slots s rid = Some q \<longrightarrow> \<not> rq_expired now q))
    \<and> (slots s' = slots s \<or> (\<exists>q. slots s rid = Some q \<and> rq_expired now q \<and> slots s' = (slots s)(rid := None)))"
proof (cases "gm_get (cs_records s) rid")
  case None
  with assms show ?thesis by (auto simp: drop_if_expired_def slots_def)
next
  case (Some q)
  let ?s = "s\<lparr>cs_records := gm_del rid (cs_records s)\<rparr>"
  have keyed: "keyed (cs_records s)" "keyed (cs_records ?s)" "rq_request_id q = rid"
    using assms(2) Some by (auto simp: durable_def keyed_del) (auto simp: keyed_def)
  obtain r1 s1 where sv: "save_locked cd sv ?s = (r1, s1)" by fastforce
  show ?thesis
  proof (cases "rq_expired now q")
    case False
    with Some assms show ?thesis by (auto simp: drop_if_expired_def slots_def)
  next
    case True
    show ?thesis
    proof (cases r1)
      case None
      have "slots s1 = (slots s)(rid := None)"
        using save_locked_ok [OF sv [unfolded None] keyed(2)]
        by (auto simp: slots_def gomap_simps fun_eq_iff)
      with None sv Some True assms(1) save_locked_ok [OF sv [unfolded None] keyed(2)] show ?thesis
        by (auto simp: drop_if_expired_def slots_def)
    next
      case (Some e)
      with sv save_locked_error have s1: "s1 = ?s" by blast
      let ?m = "gm_put rid q (gm_del rid (cs_records s))"
      have "gm_get ?m = slots s" using restore_slots \<open>gm_get (cs_records s) rid = Some q\<close> by (simp add: slots_def)
      moreover have "keyed ?m" using keyed by (simp add: keyed_del keyed_put)
      moreover have "s' = s\<lparr>cs_records := ?m\<rparr>"
        using sv Some s1 assms(1) True \<open>gm_get (cs_records s) rid = Some q\<close> by (auto simp: drop_if_expired_def)
      moreover have "r \<noteq> None"
        using sv Some assms(1) True \<open>gm_get (cs_records s) rid = Some q\<close> by (auto simp: drop_if_expired_def)
      ultimately show ?thesis using durable_same_slots [OF assms(2)] by (auto simp: slots_def)
    qed
  qed
qed

section \<open>The abstract lifecycle\<close>

text \<open>
  What the documentation promises of the slots, as a step relation on the partial function from
  request identifiers to records: records expire, a free tuple gets a pending record, a pending
  record is filled once, a pending record is cancelled.  \<open>T\<close> are the clock readings of the step.
\<close>

type_synonym slot_map = "string \<Rightarrow> ctl_request option"

inductive slot_step :: "codec \<Rightarrow> string \<Rightarrow> time set \<Rightarrow> slot_map \<Rightarrow> slot_map \<Rightarrow> bool" for cd wid T where
  expire: "(\<And>k. m' k = m k \<or> m' k = None \<and> (\<exists>t\<in>T. \<exists>r. m k = Some r \<and> rq_expired t r)) \<Longrightarrow> slot_step cd wid T m m'"
| create: "m k = None \<Longrightarrow> (\<And>j r. m j = Some r \<Longrightarrow> \<not> same_tuple task iteration r) \<Longrightarrow> card (dom m) < max_active \<Longrightarrow>
    request_pattern k \<Longrightarrow> validate_identity task iteration = None \<Longrightarrow> t \<in> T \<Longrightarrow> zero_time < t \<Longrightarrow>
    min_ttl \<le> ttl \<Longrightarrow> ttl \<le> max_ttl \<Longrightarrow> slot_step cd wid T m (m(k \<mapsto> new_request wid k task iteration t ttl))"
| fill: "m k = Some r \<Longrightarrow> rq_status r = ''pending'' \<Longrightarrow> t1 \<in> T \<Longrightarrow> \<not> rq_expired t1 r \<Longrightarrow>
    validate_submission sub = None \<Longrightarrow> length (canon cd sub) \<le> max_response_bytes \<Longrightarrow>
    sub_request_id sub = k \<Longrightarrow> sub_task_id sub = rq_task_id r \<Longrightarrow> sub_iteration sub = rq_iteration r \<Longrightarrow>
    t2 \<in> T \<Longrightarrow> rq_created_at r \<le> t2 \<Longrightarrow> zero_time < t2 \<Longrightarrow>
    slot_step cd wid T m (m(k \<mapsto> submitted_request sub t2 r))"
| cancel: "m k = Some r \<Longrightarrow> rq_status r = ''pending'' \<Longrightarrow> slot_step cd wid T m (m(k := None))"

abbreviation slot_steps :: "codec \<Rightarrow> string \<Rightarrow> time set \<Rightarrow> slot_map \<Rightarrow> slot_map \<Rightarrow> bool" where
  "slot_steps cd wid T \<equiv> (slot_step cd wid T)\<^sup>*\<^sup>*"

lemma slot_step_prune:
  assumes "keyed (cs_records s)" and "t \<in> T"
  shows "slot_step cd wid T (slots s) (gm_get (prune_records t (cs_records s)))"
proof (rule slot_step.expire)
  fix k
  have "gm_ok (cs_records s)" using assms(1) by (simp add: keyed_def)
  from records.get_prune [OF this, of t k] assms(2)
  show "gm_get (prune_records t (cs_records s)) k = slots s k \<or> gm_get (prune_records t (cs_records s)) k = None
      \<and> (\<exists>t\<in>T. \<exists>r. slots s k = Some r \<and> rq_expired t r)"
    by (auto simp: slots_def split: option.splits if_splits)
qed

lemma prune_and_save_steps:
  assumes "prune_and_save cd t sv s = (r, s')" and "durable s" and "t \<in> T"
  shows "slot_steps cd wid T (slots s) (slots s')"
proof (cases r)
  case None
  then have "slots s' = gm_get (prune_records t (cs_records s))"
    using prune_and_save_spec [OF assms(1,2)] by (simp add: slots_def)
  then show ?thesis
    using slot_step_prune [of s t T cd wid] assms(2,3) by (auto simp: durable_def)
next
  case (Some e)
  then show ?thesis using prune_and_save_spec [OF assms(1,2)] by simp
qed

lemma drop_if_expired_steps:
  assumes "drop_if_expired cd t sv rid s = (r, s')" and "durable s" and "t \<in> T"
  shows "slot_steps cd wid T (slots s) (slots s')"
proof -
  from drop_if_expired_spec [OF assms(1,2)] consider "slots s' = slots s"
    | q where "slots s rid = Some q" "rq_expired t q" "slots s' = (slots s)(rid := None)" by blast
  then show ?thesis
  proof cases
    case 2
    then have "slot_step cd wid T (slots s) (slots s')"
      using assms(3) by (intro slot_step.expire) auto
    then show ?thesis by auto
  qed simp
qed

lemma card_slots:
  assumes "durable s"
  shows "card (dom (slots s)) = length (cs_records s)"
  using assms distinct_card [of "map fst (cs_records s)"]
  by (simp add: durable_def keyed_def gm_ok_def slots_def dom_map_of_conv_image_fst)

lemma find_tuple_Some:
  "find_tuple task iteration m = Some r \<Longrightarrow> same_tuple task iteration r \<and> (\<exists>k. (k, r) \<in> set m)"
  by (auto simp: find_tuple_def find_Some_iff) (metis nth_mem)

lemma find_tuple_None:
  "find_tuple task iteration m = None \<Longrightarrow> (k, r) \<in> set m \<Longrightarrow> \<not> same_tuple task iteration r"
  by (auto simp: find_tuple_def find_None_iff)

text \<open>One bundle for the three facts every operation establishes.\<close>

definition refines :: "codec \<Rightarrow> time set \<Rightarrow> ctl_store \<Rightarrow> ctl_store \<Rightarrow> bool" where
  "refines cd T s s' \<longleftrightarrow> durable s' \<and> cs_workspace_id s' = cs_workspace_id s
     \<and> slot_steps cd (cs_workspace_id s) T (slots s) (slots s')"

lemma refines_refl: "durable s \<Longrightarrow> refines cd T s s"
  by (simp add: refines_def)

lemma refines_trans: "refines cd T s s' \<Longrightarrow> refines cd T s' s'' \<Longrightarrow> refines cd T s s''"
  by (auto simp: refines_def)

lemma prune_and_save_refines:
  "prune_and_save cd t sv s = (r, s') \<Longrightarrow> durable s \<Longrightarrow> t \<in> T \<Longrightarrow> refines cd T s s'"
  using prune_and_save_spec prune_and_save_steps by (fastforce simp: refines_def)

lemma drop_if_expired_refines:
  "drop_if_expired cd t sv rid s = (r, s') \<Longrightarrow> durable s \<Longrightarrow> t \<in> T \<Longrightarrow> refines cd T s s'"
  using drop_if_expired_spec drop_if_expired_steps by (fastforce simp: refines_def)

text \<open>Storing one changed or removed record: the step, or everything as before.\<close>

lemma update_refines:
  assumes "durable s" and "keyed m" and "slot_step cd (cs_workspace_id s) T (slots s) (gm_get m)"
    and "save_locked cd sv (s\<lparr>cs_records := m\<rparr>) = (r, s1)"
  shows "(r = None \<longrightarrow> refines cd T s s1 \<and> slots s1 = gm_get m)
    \<and> (r \<noteq> None \<longrightarrow> s1 = s\<lparr>cs_records := m\<rparr>)"
proof (cases r)
  case None
  have "keyed (cs_records (s\<lparr>cs_records := m\<rparr>))" using assms(2) by simp
  from save_locked_ok [OF assms(4) [unfolded None] this] assms(3) None show ?thesis
    by (auto simp: refines_def slots_def)
next
  case (Some e)
  then show ?thesis using save_locked_error [OF assms(4) [unfolded Some]] by simp
qed

lemma restore_refines:
  assumes "durable s" and "s' = s\<lparr>cs_records := m\<rparr>" and "keyed m" and "gm_get m = slots s"
  shows "refines cd T s s'"
  using assms durable_same_slots [OF assms(1,3,4)] by (simp add: refines_def slots_def)

section \<open>The operations refine the lifecycle\<close>

lemma refines_shrinks:
  assumes "prune_and_save cd t sv s = (None, s')" and "durable s" and "slots s' k = Some r"
  shows "slots s k = Some r \<and> \<not> rq_expired t r"
  using assms prune_and_save_spec [OF assms(1,2)] records.prune_live [of "cs_records s" t k r]
  by (auto simp: slots_def durable_def keyed_def)

lemma prepare_refines:
  assumes "ctl_prepare cd clk sv rid task iteration ttl s = (res, s')" and "durable s"
    and "range clk \<subseteq> T" and "zero_time < clk 1"
    and "\<And>i. rid = Some i \<Longrightarrow> request_pattern i \<and> slots s i = None"
  shows "refines cd T s s'"
proof -
  obtain r1 s1 where p: "prune_and_save cd (clk 0) (sv 0) s = (r1, s1)" by fastforce
  have T: "clk i \<in> T" for i using assms(3) by auto
  note ref1 = prune_and_save_refines [OF p assms(2) T]
  then have d1: "durable s1" by (simp add: refines_def)
  let ?ttl = "if ttl = 0 then default_ttl else ttl"
  show ?thesis
  proof (cases "s' = s \<or> s' = s1")
    case True
    with ref1 refines_refl [OF assms(2)] show ?thesis by auto
  next
    case False
    then obtain i where i: "validate_identity task iteration = None" "\<not> (?ttl < min_ttl \<or> max_ttl < ?ttl)"
        "r1 = None" "find_tuple task iteration (cs_records s1) = None" "length (cs_records s1) < max_active" "rid = Some i"
      using assms(1) by (auto simp: ctl_prepare_def Let_def p split: option.splits if_splits)
    let ?r = "new_request (cs_workspace_id s1) i task iteration (clk 1) ?ttl"
    let ?m = "gm_put i ?r (cs_records s1)"
    obtain r2 s2 where sv: "save_locked cd (sv 1) (s1\<lparr>cs_records := ?m\<rparr>) = (r2, s2)" by fastforce
    have free: "slots s1 i = None"
      using assms(5) [OF i(6)] refines_shrinks [OF p [unfolded i(3)] assms(2), of i] by (cases "slots s1 i") auto
    have "slot_step cd (cs_workspace_id s1) T (slots s1) ((slots s1)(i \<mapsto> ?r))"
    proof (rule slot_step.create)
      show "card (dom (slots s1)) < max_active" using card_slots [OF d1] i(5) by simp
      show "\<not> same_tuple task iteration r" if "slots s1 j = Some r" for j r
        using find_tuple_None [OF i(4)] that by (auto simp: slots_def dest: map_of_SomeD)
    qed (use free assms(4) assms(5) [OF i(6)] i T in auto)
    then have step: "slot_step cd (cs_workspace_id s1) T (slots s1) (gm_get ?m)"
      by (simp add: slots_def update_conv')
    have km: "keyed ?m" using d1 by (intro keyed_put) (auto simp: durable_def new_request_def)
    note up = update_refines [OF d1 km step sv]
    show ?thesis
    proof (cases r2)
      case None
      then have "s' = s2" using assms(1) i sv by (simp add: ctl_prepare_def Let_def p)
      with up None refines_trans [OF ref1] show ?thesis by auto
    next
      case (Some e)
      then have "s' = s1\<lparr>cs_records := gm_del i ?m\<rparr>"
        using assms(1) i sv up by (simp add: ctl_prepare_def Let_def p)
      moreover have "gm_get (gm_del i ?m) = slots s1"
        using free by (auto simp: slots_def gomap_simps fun_eq_iff)
      ultimately show ?thesis
        using restore_refines [OF d1] keyed_del [OF km] refines_trans [OF ref1] by blast
    qed
  qed
qed

lemma get_refines:
  assumes "ctl_get cd clk sv rid task iteration s = (res, s')" and "durable s" and "range clk \<subseteq> T"
  shows "refines cd T s s'"
proof -
  obtain r1 s1 where d: "drop_if_expired cd (clk 0) (sv 0) rid s = (r1, s1)" by fastforce
  obtain r2 s2 where p: "prune_and_save cd (clk 1) (sv 1) s1 = (r2, s2)" by fastforce
  have T: "clk i \<in> T" for i using assms(3) by auto
  note ref1 = drop_if_expired_refines [OF d assms(2) T]
  then have d1: "durable s1" by (simp add: refines_def)
  note ref2 = refines_trans [OF ref1 prune_and_save_refines [OF p d1 T]]
  have "s' = s \<or> s' = s1 \<or> s' = s2"
    using assms(1) by (auto simp: ctl_get_def d p [simplified] split: option.splits if_splits)
  then show ?thesis using ref1 ref2 refines_refl [OF assms(2)] by auto
qed

lemma submit_refines:
  assumes "ctl_submit cd clk sv sub s = (res, s')" and "durable s" and "range clk \<subseteq> T"
    and "zero_time < clk 3" and "\<And>k r. slots s k = Some r \<Longrightarrow> rq_created_at r \<le> clk 3"
  shows "refines cd T s s'"
proof -
  let ?k = "sub_request_id sub"
  obtain r1 s1 where d: "drop_if_expired cd (clk 0) (sv 0) ?k s = (r1, s1)" by fastforce
  obtain r2 s2 where p: "prune_and_save cd (clk 1) (sv 1) s1 = (r2, s2)" by fastforce
  have T: "clk i \<in> T" for i using assms(3) by auto
  note ref1 = drop_if_expired_refines [OF d assms(2) T]
  then have d1: "durable s1" by (simp add: refines_def)
  note ref2 = refines_trans [OF ref1 prune_and_save_refines [OF p d1 T]]
  then have d2: "durable s2" by (simp add: refines_def)
  show ?thesis
  proof (cases "s' = s \<or> s' = s1 \<or> s' = s2")
    case True
    then show ?thesis using ref1 ref2 refines_refl [OF assms(2)] by auto
  next
    case False
    then obtain r where r: "validate_submission sub = None" "length (canon cd sub) \<le> max_response_bytes"
        "r1 = None" "r2 = None" "gm_get (cs_records s2) ?k = Some r" "rq_task_id r = sub_task_id sub"
        "rq_iteration r = sub_iteration sub" "rq_status r = ''pending''" "\<not> rq_expired (clk 2) r"
      using assms(1) by (auto simp: ctl_submit_def d p [simplified] split: option.splits if_splits)
    let ?r = "submitted_request sub (clk 3) r"
    let ?m = "gm_put ?k ?r (cs_records s2)"
    obtain r3 s3 where sv: "save_locked cd (sv 2) (s2\<lparr>cs_records := ?m\<rparr>) = (r3, s3)" by fastforce
    have s1: "s1 = s" using drop_if_expired_spec [OF d assms(2)] r(3) by simp
    have "slots s ?k = Some r"
      using refines_shrinks [OF p [unfolded r(4)] d1, of ?k r] r(5) s1 by (simp add: slots_def)
    then have created: "rq_created_at r \<le> clk 3" by (rule assms(5))
    have key: "rq_request_id r = ?k" using d2 r(5) by (auto simp: durable_def keyed_def)
    have "slot_step cd (cs_workspace_id s2) T (slots s2) ((slots s2)(?k \<mapsto> ?r))"
      using r created assms(4) T by (intro slot_step.fill) (auto simp: slots_def)
    then have step: "slot_step cd (cs_workspace_id s2) T (slots s2) (gm_get ?m)"
      by (simp add: slots_def update_conv')
    have km: "keyed ?m" using d2 key by (intro keyed_put) (auto simp: durable_def submitted_request_def)
    note up = update_refines [OF d2 km step sv]
    show ?thesis
    proof (cases r3)
      case None
      then have "s' = s3" using assms(1) r sv by (simp add: ctl_submit_def Let_def d p [simplified] not_less [symmetric])
      with up None refines_trans [OF ref2] show ?thesis by auto
    next
      case (Some e)
      then have "s' = s2\<lparr>cs_records := gm_put ?k r ?m\<rparr>"
        using assms(1) r sv up by (simp add: ctl_submit_def Let_def d p [simplified] not_less [symmetric])
      moreover have "gm_get (gm_put ?k r ?m) = slots s2"
        using r(5) by (auto simp: slots_def gomap_simps fun_eq_iff)
      ultimately show ?thesis
        using restore_refines [OF d2] keyed_put [OF km key] refines_trans [OF ref2] by blast
    qed
  qed
qed

lemma cancel_finish_refines:
  assumes "ctl_cancel_finish cd sv rid got s = (res, s')" and "durable s"
  shows "refines cd T s s'"
proof (cases "s' = s")
  case True
  then show ?thesis using refines_refl [OF assms(2)] by simp
next
  case False
  then obtain r where r: "gm_get (cs_records s) rid = Some r" "rq_status r = ''pending''"
    using assms(1) by (auto simp: ctl_cancel_finish_def split: option.splits if_splits)
  let ?m = "gm_del rid (cs_records s)"
  obtain r1 s1 where sv: "save_locked cd sv (s\<lparr>cs_records := ?m\<rparr>) = (r1, s1)" by fastforce
  have "slot_step cd (cs_workspace_id s) T (slots s) ((slots s)(rid := None))"
    using r by (intro slot_step.cancel) (auto simp: slots_def)
  then have step: "slot_step cd (cs_workspace_id s) T (slots s) (gm_get ?m)"
    by (simp add: slots_def delete_conv')
  have km: "keyed ?m" using assms(2) by (simp add: durable_def keyed_del)
  note up = update_refines [OF assms(2) km step sv]
  show ?thesis
  proof (cases r1)
    case None
    with up sv r assms(1) show ?thesis by (auto simp: ctl_cancel_finish_def)
  next
    case (Some e)
    then have "s' = s\<lparr>cs_records := gm_put rid r ?m\<rparr>"
      using assms(1) r sv up by (auto simp: ctl_cancel_finish_def)
    moreover have "rq_request_id r = rid" using assms(2) r(1) by (auto simp: durable_def keyed_def)
    ultimately show ?thesis
      using restore_refines [OF assms(2)] keyed_put [OF km] restore_slots [OF r(1)] by (auto simp: slots_def)
  qed
qed

text \<open>The calls of the control API, \<open>Cancel\<close> as its two critical sections.\<close>

datatype ctl_call =
    CallPrepare "nat \<Rightarrow> time" "nat \<Rightarrow> save_env" "string option" string int duration
  | CallSubmit "nat \<Rightarrow> time" "nat \<Rightarrow> save_env" submission
  | CallGet "nat \<Rightarrow> time" "nat \<Rightarrow> save_env" string string int
  | CallCancelFinish save_env string ctl_request

fun ctl_step :: "codec \<Rightarrow> ctl_store \<Rightarrow> ctl_call \<Rightarrow> ctl_store" where
  "ctl_step cd s (CallPrepare clk sv rid task iteration ttl) = snd (ctl_prepare cd clk sv rid task iteration ttl s)"
| "ctl_step cd s (CallSubmit clk sv sub) = snd (ctl_submit cd clk sv sub s)"
| "ctl_step cd s (CallGet clk sv rid task iteration) = snd (ctl_get cd clk sv rid task iteration s)"
| "ctl_step cd s (CallCancelFinish sv rid got) = snd (ctl_cancel_finish cd sv rid got s)"

fun call_times :: "ctl_call \<Rightarrow> time set" where
  "call_times (CallPrepare clk sv rid task iteration ttl) = range clk"
| "call_times (CallSubmit clk sv sub) = range clk"
| "call_times (CallGet clk sv rid task iteration) = range clk"
| "call_times (CallCancelFinish sv rid got) = {}"

text \<open>
  What the environment guarantees of a call: random identifiers are well formed and fresh, and
  the clock neither reads before year 1 nor before the creation of a stored record.
\<close>

fun ctl_allowed :: "ctl_store \<Rightarrow> ctl_call \<Rightarrow> bool" where
  "ctl_allowed s (CallPrepare clk sv rid task iteration ttl) \<longleftrightarrow>
     zero_time < clk 1 \<and> (\<forall>i. rid = Some i \<longrightarrow> request_pattern i \<and> slots s i = None)"
| "ctl_allowed s (CallSubmit clk sv sub) \<longleftrightarrow>
     zero_time < clk 3 \<and> (\<forall>k r. slots s k = Some r \<longrightarrow> rq_created_at r \<le> clk 3)"
| "ctl_allowed s (CallGet clk sv rid task iteration) \<longleftrightarrow> True"
| "ctl_allowed s (CallCancelFinish sv rid got) \<longleftrightarrow> True"

lemma ctl_step_refines:
  assumes "durable s" and "ctl_allowed s c"
  shows "refines cd (call_times c) s (ctl_step cd s c)"
proof (cases c)
  case (CallPrepare clk sv rid task iteration ttl)
  with assms show ?thesis by (cases "ctl_prepare cd clk sv rid task iteration ttl s")
      (auto intro!: prepare_refines [of cd clk sv rid task iteration ttl])
next
  case (CallSubmit clk sv sub)
  with assms show ?thesis by (cases "ctl_submit cd clk sv sub s") (auto intro!: submit_refines [of cd clk sv sub])
next
  case (CallGet clk sv rid task iteration)
  with assms show ?thesis by (cases "ctl_get cd clk sv rid task iteration s")
      (auto intro!: get_refines [of cd clk sv rid task iteration])
next
  case (CallCancelFinish sv rid got)
  with assms show ?thesis by (cases "ctl_cancel_finish cd sv rid got s")
      (auto intro!: cancel_finish_refines [of cd sv rid got])
qed

end
