(* ===== verification/ControlProps.thy ===== *)
theory ControlProps
  imports ControlStore
begin

text \<open>
  What the control store guarantees: the invariant of its records, agreement of memory and disk
  after every call, immutability of responses, idempotence of \<open>Prepare\<close> and \<open>Submit\<close>, and what
  reopening the store makes of the file it wrote.
\<close>

section \<open>The invariant of the slots\<close>

definition slot_inv :: "codec \<Rightarrow> string \<Rightarrow> slot_map \<Rightarrow> bool" where
  "slot_inv cd wid m \<longleftrightarrow>
     (\<forall>k r. m k = Some r \<longrightarrow> rq_request_id r = k \<and> validate_record (canon cd) wid r = None)
     \<and> (\<forall>k r j q. m k = Some r \<longrightarrow> m j = Some q \<longrightarrow> same_tuple (rq_task_id q) (rq_iteration q) r \<longrightarrow> k = j)
     \<and> finite (dom m) \<and> card (dom m) \<le> max_active"

lemma validate_new_request:
  assumes "request_pattern k" and "validate_identity task iteration = None" and "zero_time < t"
    and "min_ttl \<le> ttl" and "ttl \<le> max_ttl"
  shows "validate_record cn wid (new_request wid k task iteration t ttl) = None"
  using assms by (simp add: validate_record_def new_request_def)

lemma validate_submitted_request:
  assumes "validate_record cn wid r = None" and "rq_status r = ''pending''" and "validate_submission sub = None"
    and "length (cn sub) \<le> max_response_bytes" and "sub_request_id sub = rq_request_id r"
    and "sub_task_id sub = rq_task_id r" and "sub_iteration sub = rq_iteration r"
    and "rq_created_at r \<le> t" and "zero_time < t"
  shows "validate_record cn wid (submitted_request sub t r) = None"
  using assms by (auto simp: validate_record_def submitted_request_def Let_def split: if_splits option.splits)

lemma slot_inv_sub:
  assumes "slot_inv cd wid m" and "\<And>k r. m' k = Some r \<Longrightarrow> m k = Some r"
  shows "slot_inv cd wid m'"
proof -
  have "dom m' \<subseteq> dom m" using assms(2) by (auto simp: dom_def)
  then have "finite (dom m')" "card (dom m') \<le> card (dom m)"
    using assms(1) by (auto simp: slot_inv_def intro: finite_subset card_mono)
  with assms show ?thesis unfolding slot_inv_def by (meson order_trans)
qed

lemma slot_step_inv: "slot_step cd wid T m m' \<Longrightarrow> slot_inv cd wid m \<Longrightarrow> slot_inv cd wid m'"
proof (induction rule: slot_step.induct)
  case (expire m' m)
  then show ?case by (intro slot_inv_sub [OF expire.prems]) (metis option.distinct(1))
next
  case (cancel m k r)
  then show ?case by (intro slot_inv_sub [OF cancel.prems]) (auto split: if_splits)
next
  case (create m k task iteration t ttl)
  let ?r = "new_request wid k task iteration t ttl"
  have valid: "validate_record (canon cd) wid ?r = None" using create.hyps by (intro validate_new_request)
  have id: "rq_request_id ?r = k" "rq_task_id ?r = task" "rq_iteration ?r = iteration"
    by (simp_all add: new_request_def)
  have fin: "finite (dom (m(k \<mapsto> ?r)))" "card (dom (m(k \<mapsto> ?r))) \<le> max_active"
    using create.hyps(1,3) create.prems by (auto simp: slot_inv_def card_insert_if)
  have "\<forall>j q. m j = Some q \<longrightarrow> \<not> same_tuple task iteration q \<and> \<not> same_tuple (rq_task_id q) (rq_iteration q) ?r"
    using create.hyps(2) id by (auto simp: same_tuple_def)
  with create.prems valid id fin show ?case
    unfolding slot_inv_def by (auto split: if_splits)
next
  case (fill m k r t1 sub t2)
  let ?r = "submitted_request sub t2 r"
  have r: "rq_request_id r = k" "validate_record (canon cd) wid r = None"
    using fill.hyps(1) fill.prems by (auto simp: slot_inv_def)
  have valid: "validate_record (canon cd) wid ?r = None"
    using fill.hyps r by (intro validate_submitted_request) auto
  have id: "rq_request_id ?r = k" "rq_task_id ?r = rq_task_id r" "rq_iteration ?r = rq_iteration r"
    using r(1) by (simp_all add: submitted_request_def)
  have dom: "dom (m(k \<mapsto> ?r)) = dom m" using fill.hyps(1) by auto
  have "\<forall>j q. m j = Some q \<longrightarrow> same_tuple (rq_task_id q) (rq_iteration q) ?r \<longrightarrow> j = k"
    "\<forall>j q. m j = Some q \<longrightarrow> same_tuple (rq_task_id ?r) (rq_iteration ?r) q \<longrightarrow> j = k"
    using fill.hyps(1) fill.prems id by (auto simp: slot_inv_def same_tuple_def)
  then show ?case
    using fill.prems valid id(1) unfolding slot_inv_def dom by (auto split: if_splits)
qed

lemma slot_steps_inv: "slot_steps cd wid T m m' \<Longrightarrow> slot_inv cd wid m \<Longrightarrow> slot_inv cd wid m'"
  by (induction rule: rtranclp_induct) (auto intro: slot_step_inv)

lemma slot_step_submitted:
  assumes "slot_step cd wid T m m'" and "m k = Some r" and "rq_status r = ''submitted''"
  shows "m' k = Some r \<or> (\<exists>t\<in>T. rq_expired t r)"
  using assms
proof (induction rule: slot_step.induct)
  case (expire m' m)
  then show ?case by (metis option.inject)
qed (auto split: if_splits)

lemma slot_steps_submitted:
  assumes "slot_steps cd wid T m m'" and "m k = Some r" and "rq_status r = ''submitted''"
  shows "m' k = Some r \<or> (\<exists>t\<in>T. rq_expired t r)"
  using assms by (induction rule: rtranclp_induct) (auto dest: slot_step_submitted)

section \<open>Runs\<close>

definition ctl_inv :: "codec \<Rightarrow> ctl_store \<Rightarrow> bool" where
  "ctl_inv cd s \<longleftrightarrow> durable s \<and> slot_inv cd (cs_workspace_id s) (slots s)"

lemma ctl_step_inv: "ctl_inv cd s \<Longrightarrow> ctl_allowed s c \<Longrightarrow> ctl_inv cd (ctl_step cd s c)"
  using ctl_step_refines [of s c cd] slot_steps_inv by (auto simp: ctl_inv_def refines_def)

interpretation control: capped_machine "ctl_step cd" ctl_allowed "ctl_inv cd"
    "\<lambda>s. length (cs_records s)" "\<lambda>_. max_active" for cd
proof unfold_locales
  fix s assume "ctl_inv cd s"
  then show "length (cs_records s) \<le> max_active"
    using card_slots [of s] by (simp add: ctl_inv_def slot_inv_def)
qed (auto intro: ctl_step_inv)

definition records_ok :: "(submission \<Rightarrow> string) \<Rightarrow> string \<Rightarrow> slot_map \<Rightarrow> bool" where
  "records_ok cn wid m \<longleftrightarrow>
     (\<forall>k r. m k = Some r \<longrightarrow> rq_request_id r = k \<and> validate_record cn wid r = None)
     \<and> (\<forall>k r j q. m k = Some r \<longrightarrow> m j = Some q \<longrightarrow> same_tuple (rq_task_id q) (rq_iteration q) r \<longrightarrow> k = j)"

lemma records_ok_extend:
  assumes "records_ok cn wid m" and "validate_record cn wid r = None" and "rq_request_id r = k"
    and "\<And>j q. m j = Some q \<Longrightarrow> \<not> same_tuple (rq_task_id r) (rq_iteration r) q"
  shows "records_ok cn wid (m(k \<mapsto> r))"
  unfolding records_ok_def
proof (intro conjI allI impI)
  fix i p j q
  assume "(m(k \<mapsto> r)) i = Some p" and "(m(k \<mapsto> r)) j = Some q" and "same_tuple (rq_task_id q) (rq_iteration q) p"
  moreover have "\<not> same_tuple (rq_task_id q) (rq_iteration q) r" if "m x = Some q" for x q
    using assms(4) [OF that] by (auto simp: same_tuple_def)
  ultimately show "i = j" using assms(1,4) unfolding records_ok_def by (metis fun_upd_apply option.inject)
qed (use assms in \<open>auto simp: records_ok_def split: if_splits\<close>)

lemma load_records_ok:
  assumes "load_records cn wid rs seen m = Inr m'" and "gm_ok m" and "records_ok cn wid (gm_get m)"
    and "\<forall>k r. gm_get m k = Some r \<longrightarrow> (rq_task_id r, rq_iteration r) \<in> set seen"
  shows "gm_ok m' \<and> length m' = length m + length rs \<and> records_ok cn wid (gm_get m')
    \<and> distinct (map rq_request_id rs) \<and> (\<forall>r\<in>set rs. gm_get m (rq_request_id r) = None)
    \<and> (\<forall>k r. gm_get m' k = Some r \<longleftrightarrow> gm_get m k = Some r \<or> (r \<in> set rs \<and> rq_request_id r = k))"
  using assms
proof (induction rs arbitrary: seen m)
  case Nil
  then show ?case by simp
next
  case (Cons r rs)
  let ?k = "rq_request_id r" and ?seen = "(rq_task_id r, rq_iteration r) # seen"
  let ?m = "gm_put ?k r m"
  have r: "validate_record cn wid r = None" "gm_get m ?k = None" "(rq_task_id r, rq_iteration r) \<notin> set seen"
    "load_records cn wid rs ?seen ?m = Inr m'"
    using Cons.prems(1) by (auto split: option.splits if_splits)
  have fresh: "\<not> same_tuple (rq_task_id r) (rq_iteration r) q" if "gm_get m j = Some q" for j q
    using r(3) Cons.prems(4) that by (auto simp: same_tuple_def) metis
  have get: "gm_get ?m = (gm_get m)(?k \<mapsto> r)" by (simp add: update_conv')
  have ok: "gm_ok ?m" using Cons.prems(2) by (simp add: gm_ok_put)
  have len: "length ?m = Suc (length m)" using r(2) Cons.prems(2) by (simp add: gm_length_put)
  have recs: "records_ok cn wid (gm_get ?m)"
    unfolding get using records_ok_extend [OF Cons.prems(3) r(1) refl fresh] .
  have seen: "\<forall>k q. gm_get ?m k = Some q \<longrightarrow> (rq_task_id q, rq_iteration q) \<in> set ?seen"
    using Cons.prems(4) unfolding get by (auto split: if_splits)
  note IH = Cons.IH [OF r(4) ok recs seen]
  have apart: "rq_request_id q \<noteq> ?k \<and> gm_get m (rq_request_id q) = None" if "q \<in> set rs" for q
  proof -
    have "((gm_get m)(?k \<mapsto> r)) (rq_request_id q) = None" using IH that unfolding get by blast
    then show ?thesis by (simp split: if_splits)
  qed
  have "gm_get m' k = Some q \<longleftrightarrow> gm_get m k = Some q \<or> (q \<in> set (r # rs) \<and> rq_request_id q = k)" for k q
  proof -
    have "gm_get m' k = Some q \<longleftrightarrow> ((gm_get m)(?k \<mapsto> r)) k = Some q \<or> (q \<in> set rs \<and> rq_request_id q = k)"
      using IH unfolding get by blast
    then show ?thesis using r(2) by (cases "k = ?k") auto
  qed
  moreover have "?k \<notin> rq_request_id ` set rs" using apart by (metis imageE)
  then have "distinct (map rq_request_id (r # rs))" using IH by simp
  moreover have "\<forall>q\<in>set (r # rs). gm_get m (rq_request_id q) = None" using apart r(2) by simp
  ultimately show ?case using IH len by (intro conjI) simp_all
qed

section \<open>Opening\<close>

lemma slot_inv_records_ok:
  "slot_inv cd wid m \<longleftrightarrow> records_ok (canon cd) wid m \<and> finite (dom m) \<and> card (dom m) \<le> max_active"
  by (auto simp: slot_inv_def records_ok_def)

lemma keyed_records_ok: "gm_ok m \<Longrightarrow> records_ok cn wid (gm_get m) \<Longrightarrow> keyed m"
  by (simp add: keyed_def records_ok_def)

lemma card_slots_le: "gm_ok m \<Longrightarrow> card (dom (gm_get m)) \<le> length m"
  by (metis card_length dom_map_of_conv_image_fst length_map set_map)

lemma opened_inv:
  assumes "load_records (canon cd) wid rs [] [] = Inr m" and "length rs \<le> max_active"
    and "0 < cf_bytes f" and "cf_records f = Some rs"
  shows "ctl_inv cd \<lparr>cs_workspace_id = wid, cs_records = m, cs_file = Some f\<rparr>"
proof -
  have "records_ok (canon cd) wid (gm_get [])" by (simp add: records_ok_def)
  note m = load_records_ok [OF assms(1) gm_ok_Nil this]
  have "finite (dom (gm_get m))" by (rule finite_dom_map_of)
  moreover have "card (dom (gm_get m)) \<le> max_active" using m card_slots_le [of m] assms(2) by auto
  ultimately have "slot_inv cd wid (gm_get m)" using m by (simp add: slot_inv_records_ok)
  moreover have "keyed m" using m keyed_records_ok by auto
  ultimately show ?thesis using m assms(3,4) by (auto simp: ctl_inv_def durable_def slots_def file_holds_def)
qed

lemma prune_and_save_inv:
  "prune_and_save cd now sv s = (r, s') \<Longrightarrow> ctl_inv cd s
    \<Longrightarrow> ctl_inv cd s' \<and> cs_workspace_id s' = cs_workspace_id s"
  using prune_and_save_refines [of cd now sv s r s' "{now}"] slot_steps_inv by (auto simp: ctl_inv_def refines_def)

lemma new_store_inv:
  assumes "new_store cd wid root loc file now sv = Inr s"
  shows "ctl_inv cd s \<and> cs_workspace_id s = wid"
proof -
  obtain content where c: "file = Inr content"
    using assms by (auto simp: new_store_def split: option.splits if_splits sum.splits)
  let ?bytes = "case content of None \<Rightarrow> 0 | Some f \<Rightarrow> cf_bytes f"
  obtain m s1 where s1: "prune_and_save cd now (sv 0) \<lparr>cs_workspace_id = wid, cs_records = m, cs_file = content\<rparr> = (None, s1)"
    "s = s1 \<or> cs_records s1 = [] \<and> save_locked cd (sv 1) s1 = (None, s)"
    "ctl_inv cd \<lparr>cs_workspace_id = wid, cs_records = m, cs_file = content\<rparr>"
  proof (cases "?bytes = 0")
    case True
    have "ctl_inv cd \<lparr>cs_workspace_id = wid, cs_records = [], cs_file = content\<rparr>"
      using True by (auto simp: ctl_inv_def durable_def keyed_def slots_def file_holds_def slot_inv_def split: option.splits)
    with that [of "[]"] True assms show ?thesis
      by (auto simp: new_store_def c Let_def split: option.splits if_splits prod.splits)
  next
    case False
    then obtain f where f: "content = Some f" "0 < cf_bytes f" by (auto split: option.splits)
    then obtain rs m where rs: "cf_records f = Some rs" "length rs \<le> max_active"
        "load_records (canon cd) wid rs [] [] = Inr m"
      using assms by (auto simp: new_store_def c Let_def split: option.splits if_splits sum.splits prod.splits)
    from opened_inv [OF rs(3,2) f(2) rs(1)] that [of m] f rs assms show ?thesis
      by (auto simp: new_store_def c Let_def split: option.splits if_splits sum.splits prod.splits)
  qed
  from prune_and_save_inv [OF s1(1,3)] have i1: "ctl_inv cd s1" "cs_workspace_id s1 = wid" by auto
  show ?thesis
  proof (cases "s = s1")
    case False
    then have sv: "save_locked cd (sv 1) s1 = (None, s)" using s1(2) by auto
    have "keyed (cs_records s1)" using i1 by (simp add: ctl_inv_def durable_def)
    from save_locked_ok [OF sv this] i1 show ?thesis by (simp add: ctl_inv_def slots_def)
  qed (use i1 in simp)
qed

section \<open>The store over its life\<close>

abbreviation ctl_run :: "codec \<Rightarrow> ctl_store \<Rightarrow> ctl_call list \<Rightarrow> ctl_store" where
  "ctl_run cd \<equiv> run_calls (ctl_step cd)"

abbreviation ctl_calls_ok :: "codec \<Rightarrow> ctl_store \<Rightarrow> ctl_call list \<Rightarrow> bool" where
  "ctl_calls_ok cd \<equiv> calls_ok ctl_allowed (ctl_step cd)"

lemma run_submitted:
  assumes "ctl_inv cd s" and "ctl_calls_ok cd s cs" and "slots s k = Some r" and "rq_status r = ''submitted''"
    and "\<And>t. t \<in> \<Union> (call_times ` set cs) \<Longrightarrow> \<not> rq_expired t r"
  shows "slots (ctl_run cd s cs) k = Some r"
  using assms
proof (induction cs arbitrary: s)
  case (Cons c cs)
  have "slot_steps cd (cs_workspace_id s) (call_times c) (slots s) (slots (ctl_step cd s c))"
    using Cons.prems(1,2) ctl_step_refines [of s c cd] by (auto simp: ctl_inv_def refines_def)
  from slot_steps_submitted [OF this Cons.prems(3,4)] have "slots (ctl_step cd s c) k = Some r"
    using Cons.prems(5) by auto
  with Cons.IH [of "ctl_step cd s c"] Cons.prems show ?case by (auto intro: ctl_step_inv)
qed simp

lemma run_workspace:
  "ctl_inv cd s \<Longrightarrow> ctl_calls_ok cd s cs \<Longrightarrow> cs_workspace_id (ctl_run cd s cs) = cs_workspace_id s"
proof (induction cs arbitrary: s)
  case (Cons c cs)
  then show ?case using ctl_step_refines [of s c cd] ctl_step_inv [of cd s c] by (simp add: ctl_inv_def refines_def)
qed simp

text \<open>A codec, an environment and a short run for the witnesses.\<close>

definition tiny_codec :: codec where
  "tiny_codec = \<lparr>canon = (\<lambda>s. sub_summary s), digest = (\<lambda>s. s), text_length = (\<lambda>rs. 2 + length rs)\<rparr>"

definition good_save :: save_env where
  "good_save = \<lparr>sv_location = None, sv_remove = None, sv_write = None\<rparr>"

definition full_disk :: save_env where
  "full_disk = \<lparr>sv_location = None, sv_remove = None, sv_write = Some ''no space left on device''\<rparr>"

definition empty_store :: ctl_store where
  "empty_store = \<lparr>cs_workspace_id = ''ws_1'', cs_records = [], cs_file = None\<rparr>"

abbreviation example_id :: string where "example_id \<equiv> ''cr_ABCDEFGHIJKLMNOPQRSTUVWXYZ012345''"

definition example_prepare :: ctl_call where
  "example_prepare = CallPrepare (\<lambda>_. 1000) (\<lambda>_. good_save) (Some example_id) ''cl_deadbeef'' 3 0"

definition example_submit :: "(nat \<Rightarrow> save_env) \<Rightarrow> ctl_call" where
  "example_submit sv = CallSubmit (\<lambda>_. 2000) sv example_submission"

definition example_pending :: ctl_request where
  "example_pending = new_request ''ws_1'' example_id ''cl_deadbeef'' 3 1000 default_ttl"

definition example_submitted :: ctl_request where
  "example_submitted = submitted_request example_submission 2000 example_pending"

definition store_with :: "ctl_request \<Rightarrow> ctl_store" where
  "store_with r = \<lparr>cs_workspace_id = ''ws_1'', cs_records = [(example_id, r)],
     cs_file = Some \<lparr>cf_bytes = 4, cf_records = Some [r]\<rparr>\<rparr>"

lemmas run_eval =
  ctl_prepare_def ctl_submit_def prune_and_save_def prune_locked_def prune_records_def gm_retain_def save_locked_def
  find_tuple_def drop_if_expired_def rq_expired_def tiny_codec_def good_save_def full_disk_def sorted_records_def Let_def

lemma example_open: "new_store tiny_codec ''ws_1'' ''/work'' None (Inr None) 0 (\<lambda>_. good_save) = Inr empty_store"
  by (simp add: new_store_def workspace_id_pattern_def validation_eval run_eval empty_store_def)

lemma example_identity: "validate_identity ''cl_deadbeef'' 3 = None"
  by (simp add: validation_eval)

lemma example_prepare_step: "ctl_step tiny_codec empty_store example_prepare = store_with example_pending"
  by (simp add: example_prepare_def example_identity run_eval empty_store_def store_with_def example_pending_def)

lemma example_prepare_allowed: "ctl_allowed empty_store example_prepare"
  by (simp add: example_prepare_def zero_time_def empty_store_def slots_def validation_eval)

lemma example_pending_valid: "validate_record (canon tiny_codec) ''ws_1'' example_pending = None"
  using validate_new_request [of example_id "''cl_deadbeef''" 3 1000 default_ttl]
  by (simp add: example_pending_def example_identity zero_time_def) (simp add: validation_eval)

lemma example_submit_step: "ctl_step tiny_codec (store_with example_pending) (example_submit (\<lambda>_. good_save)) = store_with example_submitted"
  using example_submission_ok
  by (simp add: example_submit_def run_eval store_with_def example_submitted_def submitted_request_def
      example_pending_def new_request_def) (simp add: example_submission_def)

lemma example_submit_full_disk: "ctl_step tiny_codec (store_with example_pending) (example_submit (\<lambda>_. full_disk)) = store_with example_pending"
  using example_submission_ok
  by (simp add: example_submit_def run_eval store_with_def example_submitted_def submitted_request_def
      example_pending_def new_request_def)

lemma example_submit_allowed: "ctl_allowed (store_with example_pending) (example_submit sv)"
  by (simp add: example_submit_def zero_time_def store_with_def slots_def example_pending_def new_request_def)

lemma example_run_ok: "ctl_calls_ok tiny_codec empty_store [example_prepare, example_submit sv]"
  by (simp add: example_prepare_allowed example_prepare_step example_submit_allowed)

text \<open>
  C10: starting from any control file that \<open>NewStore\<close> accepts, after every sequence of calls, failed
  disk writes included, the control file holds exactly the records that are in memory.
\<close>

theorem control_memory_matches_disk:
  assumes "new_store cd wid root loc file now sv = Inr s" and "ctl_calls_ok cd s cs"
  shows "file_holds (cs_file (ctl_run cd s cs)) (slots (ctl_run cd s cs))"
proof -
  have "ctl_inv cd s" using new_store_inv [OF assms(1)] by simp
  from control.run_inv [OF this assms(2)] show ?thesis by (simp add: ctl_inv_def durable_def)
qed

theorem control_memory_matches_disk_witness:
  "file_holds (cs_file (ctl_run tiny_codec empty_store [example_prepare, example_submit (\<lambda>_. full_disk)]))
    (slots (ctl_run tiny_codec empty_store [example_prepare, example_submit (\<lambda>_. full_disk)]))
   \<and> slots (ctl_run tiny_codec empty_store [example_prepare, example_submit (\<lambda>_. full_disk)]) example_id = Some example_pending"
  using control_memory_matches_disk [OF example_open example_run_ok [of "\<lambda>_. full_disk"]]
  by (simp add: example_prepare_step example_submit_full_disk) (simp add: store_with_def slots_def)

text \<open>
  starting from any control file that \<open>NewStore\<close> accepts, after every sequence of calls the
  store has at most 16 records, each of them passes \<open>validateRecord\<close> under its own identifier, and
  no two of them are for the same task and iteration.
\<close>

theorem control_records_stay_valid:
  assumes "new_store cd wid root loc file now sv = Inr s" and "ctl_calls_ok cd s cs"
  shows "length (cs_records (ctl_run cd s cs)) \<le> max_active
    \<and> (\<forall>k r. slots (ctl_run cd s cs) k = Some r \<longrightarrow> rq_request_id r = k \<and> validate_record (canon cd) wid r = None)
    \<and> (\<forall>k r j q. slots (ctl_run cd s cs) k = Some r \<longrightarrow> slots (ctl_run cd s cs) j = Some q
         \<longrightarrow> rq_task_id r = rq_task_id q \<longrightarrow> rq_iteration r = rq_iteration q \<longrightarrow> k = j)"
proof -
  have inv: "ctl_inv cd s" and wid: "cs_workspace_id s = wid" using new_store_inv [OF assms(1)] by auto
  have "cs_workspace_id (ctl_run cd s cs) = wid" using run_workspace [OF inv assms(2)] wid by simp
  with control.run_inv [OF inv assms(2)] have m: "slot_inv cd wid (slots (ctl_run cd s cs))"
    by (simp add: ctl_inv_def)
  show ?thesis
  proof (intro conjI)
    show "length (cs_records (ctl_run cd s cs)) \<le> max_active" by (rule control.run_load [OF inv assms(2)])
  qed (use m in \<open>unfold slot_inv_def same_tuple_def, metis+\<close>)
qed

theorem control_records_stay_valid_witness:
  "slots (ctl_run tiny_codec empty_store [example_prepare]) example_id = Some example_pending
   \<and> validate_record (canon tiny_codec) ''ws_1'' example_pending = None"
proof -
  have "ctl_calls_ok tiny_codec empty_store [example_prepare]" by (simp add: example_prepare_allowed)
  moreover have got: "slots (ctl_run tiny_codec empty_store [example_prepare]) example_id = Some example_pending"
    by (simp add: example_prepare_step) (simp add: store_with_def slots_def)
  ultimately show ?thesis
    using control_records_stay_valid [OF example_open, THEN conjunct2, THEN conjunct1, rule_format, OF _ got]
    by blast
qed

text \<open>
  C8: once a response has been accepted for a request, no call of any kind changes or removes the
  record before it expires: later submissions, cancellations, failed writes and reads by other
  tasks included.
\<close>

theorem submitted_response_is_immutable:
  assumes "new_store cd wid root loc file now sv = Inr s" and "ctl_calls_ok cd s (cs @ cs')"
    and "slots (ctl_run cd s cs) k = Some r" and "rq_status r = ''submitted''"
    and "\<forall>c\<in>set cs'. \<forall>t\<in>call_times c. \<not> rq_expired t r"
  shows "slots (ctl_run cd s (cs @ cs')) k = Some r"
proof -
  have "ctl_inv cd s" using new_store_inv [OF assms(1)] by simp
  then have "ctl_inv cd (ctl_run cd s cs)" by (rule control.run_prefix_inv [OF _ assms(2)])
  moreover have "ctl_calls_ok cd (ctl_run cd s cs) cs'" using assms(2) by (simp add: calls_ok_append)
  ultimately show ?thesis
    using run_submitted [of cd "ctl_run cd s cs" cs' k r] assms(3-5) by (auto simp: run_calls_append)
qed

theorem submitted_response_is_immutable_witness:
  "slots (ctl_run tiny_codec empty_store ([example_prepare, example_submit (\<lambda>_. good_save)]
      @ [CallCancelFinish good_save example_id example_pending])) example_id = Some example_submitted"
  by (rule submitted_response_is_immutable [OF example_open])
     (simp_all add: example_prepare_allowed example_prepare_step example_submit_allowed example_submit_step,
      simp_all add: store_with_def slots_def example_submitted_def submitted_request_def)

section \<open>Idempotence\<close>

text \<open>What \<open>Submit\<close> leaves behind when it accepts.\<close>

lemma submit_accepted:
  assumes "ctl_submit cd clk sv sub s = (Inr rc, s')" and "durable s"
  shows "durable s' \<and> (\<exists>r resp at. slots s' (sub_request_id sub) = Some r \<and> rq_status r = ''submitted''
    \<and> rq_task_id r = sub_task_id sub \<and> rq_iteration r = sub_iteration sub
    \<and> rq_response r = Some resp \<and> digest cd (canon cd resp) = digest cd (canon cd sub) \<and> rq_submitted_at r = Some at)"
proof -
  let ?k = "sub_request_id sub"
  obtain r1 s1 where d: "drop_if_expired cd (clk 0) (sv 0) ?k s = (r1, s1)" by fastforce
  obtain r2 s2 where p: "prune_and_save cd (clk 1) (sv 1) s1 = (r2, s2)" by fastforce
  have d1: "durable s1" using drop_if_expired_spec [OF d assms(2)] by simp
  have d2: "durable s2" using prune_and_save_spec [OF p d1] by simp
  obtain r where r: "r1 = None" "r2 = None" "gm_get (cs_records s2) ?k = Some r" "rq_task_id r = sub_task_id sub"
      "rq_iteration r = sub_iteration sub" "validate_submission sub = None" "length (canon cd sub) \<le> max_response_bytes"
    using assms(1) by (auto simp: ctl_submit_def d p [simplified] split: option.splits if_splits)
  show ?thesis
  proof (cases "rq_status r = ''submitted''")
    case True
    with assms(1) r d2 show ?thesis
      by (auto simp: ctl_submit_def d p [simplified] slots_def not_less [symmetric] split: option.splits if_splits)
  next
    case False
    let ?r = "submitted_request sub (clk 3) r" let ?m = "gm_put ?k ?r (cs_records s2)"
    obtain r3 s3 where sv: "save_locked cd (sv 2) (s2\<lparr>cs_records := ?m\<rparr>) = (r3, s3)" by fastforce
    have ok: "r3 = None \<and> s' = s3"
      using assms(1) r False sv
      by (auto simp: ctl_submit_def Let_def d p [simplified] not_less [symmetric] split: option.splits if_splits)
    have "rq_request_id ?r = ?k" using d2 r(3) by (auto simp: durable_def keyed_def submitted_request_def)
    then have "keyed ?m" using d2 by (simp add: durable_def keyed_put)
    with save_locked_ok [of cd "sv 2" "s2\<lparr>cs_records := ?m\<rparr>" s3] sv ok
    have "durable s'" "slots s' ?k = Some ?r" by (simp_all add: slots_def gomap_simps)
    then show ?thesis using r(4,5) by (simp add: submitted_request_def)
  qed
qed

text \<open>\<open>Submit\<close> on a request that already has a response.\<close>

lemma submit_again:
  assumes "durable s" and "slots s (sub_request_id sub) = Some r" and "rq_status r = ''submitted''"
    and "rq_task_id r = sub_task_id sub" and "rq_iteration r = sub_iteration sub"
    and "rq_response r = Some resp" and "rq_submitted_at r = Some at"
    and "validate_submission sub = None" and "length (canon cd sub) \<le> max_response_bytes"
    and "\<not> rq_expired (clk 0) r" and "\<not> rq_expired (clk 1) r"
    and "prune_and_save cd (clk 1) (sv 1) s = (None, s')"
  shows "ctl_submit cd clk sv sub s =
      (if digest cd (canon cd resp) = digest cd (canon cd sub) then Inr (receipt r resp at True)
       else Inl (Fail ''CONTROL_RESPONSE_CONFLICT'' ''control response is immutable''), s')
    \<and> slots s' (sub_request_id sub) = Some r"
proof -
  have s': "slots s' (sub_request_id sub) = Some r"
    using prune_and_save_spec [OF assms(12,1)] assms(1,2,11)
      records.prune_keeps [of "cs_records s" "sub_request_id sub" r "clk 1"]
    by (simp add: slots_def durable_def keyed_def)
  have "drop_if_expired cd (clk 0) (sv 0) (sub_request_id sub) s = (None, s)"
    using assms(2,10) by (simp add: drop_if_expired_def slots_def)
  with s' assms(3-12) show ?thesis by (simp add: ctl_submit_def slots_def)
qed

text \<open>
  a submission repeated after it was accepted, for as long as the record has not expired, is
  answered with a receipt marked as a duplicate when its text has the digest of the stored
  response and with \<open>CONTROL_RESPONSE_CONFLICT\<close> otherwise; in both cases the stored response stays.
\<close>

theorem submit_is_idempotent:
  assumes "ctl_submit cd clk sv sub s = (Inr rc, s1)" and "durable s"
    and "sub_request_id sub' = sub_request_id sub" and "sub_task_id sub' = sub_task_id sub"
    and "sub_iteration sub' = sub_iteration sub"
    and "validate_submission sub' = None" and "length (canon cd sub') \<le> max_response_bytes"
    and "\<forall>i r. slots s1 (sub_request_id sub) = Some r \<longrightarrow> \<not> rq_expired (clk' i) r"
    and "fst (prune_and_save cd (clk' 1) (sv' 1) s1) = None"
  shows "\<exists>r resp at. slots s1 (sub_request_id sub) = Some r
    \<and> digest cd (canon cd resp) = digest cd (canon cd sub)
    \<and> slots (snd (ctl_submit cd clk' sv' sub' s1)) (sub_request_id sub) = Some r
    \<and> fst (ctl_submit cd clk' sv' sub' s1) =
        (if digest cd (canon cd sub') = digest cd (canon cd sub) then Inr (receipt r resp at True)
         else Inl (Fail ''CONTROL_RESPONSE_CONFLICT'' ''control response is immutable''))"
proof -
  obtain r resp at where r: "slots s1 (sub_request_id sub) = Some r" "rq_status r = ''submitted''"
      "rq_task_id r = sub_task_id sub" "rq_iteration r = sub_iteration sub" "rq_response r = Some resp"
      "digest cd (canon cd resp) = digest cd (canon cd sub)" "rq_submitted_at r = Some at"
    using submit_accepted [OF assms(1,2)] by blast
  have d1: "durable s1" using submit_accepted [OF assms(1,2)] by simp
  obtain s2 where p: "prune_and_save cd (clk' 1) (sv' 1) s1 = (None, s2)"
    using assms(9) by (metis prod.collapse)
  from submit_again [OF d1, of sub' r resp at cd clk' sv' s2] r p assms(3-8) show ?thesis
    by (intro exI [of _ r] exI [of _ resp] exI [of _ at]) simp
qed

theorem submit_is_idempotent_witness:
  "fst (ctl_submit tiny_codec (\<lambda>_. 3000) (\<lambda>_. full_disk) (example_submission\<lparr>sub_summary := ''other''\<rparr>) (store_with example_submitted))
     = Inl (Fail ''CONTROL_RESPONSE_CONFLICT'' ''control response is immutable'')"
proof -
  have first: "ctl_submit tiny_codec (\<lambda>_. 2000) (\<lambda>_. good_save) example_submission (store_with example_pending)
      = (Inr (receipt example_submitted example_submission 2000 False), store_with example_submitted)"
    using example_submission_ok
    by (simp add: run_eval store_with_def example_submitted_def submitted_request_def
        example_pending_def new_request_def) (simp add: example_submission_def)
  have "durable (store_with example_pending)"
    by (auto simp: durable_def keyed_def gm_ok_def store_with_def file_holds_def slots_def example_pending_def new_request_def)
  moreover have "validate_submission (example_submission\<lparr>sub_summary := ''other''\<rparr>) = None"
    by (simp add: example_submission_def validation_eval)
  ultimately show ?thesis
    using submit_is_idempotent [OF first, of "example_submission\<lparr>sub_summary := ''other''\<rparr>" "\<lambda>_. 3000" "\<lambda>_. full_disk"]
    by (simp add: run_eval store_with_def slots_def example_submitted_def submitted_request_def example_submission_def
        example_pending_def new_request_def)
qed

text \<open>What \<open>Prepare\<close> leaves behind when it answers.\<close>

lemma prepare_accepted:
  assumes "ctl_prepare cd clk sv rid task iteration ttl s = (Inr r, s')" and "durable s"
    and "\<And>i. rid = Some i \<Longrightarrow> slots s i = None"
  shows "\<exists>q. durable s' \<and> slots s' (rq_request_id r) = Some q \<and> rq_request_id q = rq_request_id r
    \<and> rq_expires_at q = rq_expires_at r \<and> same_tuple task iteration q"
proof -
  obtain r1 s1 where p: "prune_and_save cd (clk 0) (sv 0) s = (r1, s1)" by fastforce
  have d1: "durable s1" using prune_and_save_spec [OF p assms(2)] by simp
  show ?thesis
  proof (cases "find_tuple task iteration (cs_records s1)")
    case (Some q)
    then obtain k where k: "(k, q) \<in> set (cs_records s1)" "same_tuple task iteration q"
      using find_tuple_Some [OF Some] by blast
    then have "slots s1 k = Some q" "rq_request_id q = k"
      using d1 by (auto simp: durable_def keyed_def slots_def gm_set_iff)
    moreover have "s' = s1" "r = q\<lparr>rq_reused := True\<rparr>"
      using assms(1) Some by (auto simp: ctl_prepare_def Let_def p split: option.splits if_splits)
    ultimately show ?thesis using d1 k(2) by auto
  next
    case None
    then obtain i where i: "rid = Some i" "r1 = None"
      using assms(1) by (auto simp: ctl_prepare_def Let_def p split: option.splits if_splits)
    let ?r = "new_request (cs_workspace_id s1) i task iteration (clk 1) (if ttl = 0 then default_ttl else ttl)"
    let ?m = "gm_put i ?r (cs_records s1)"
    obtain r2 s2 where sv: "save_locked cd (sv 1) (s1\<lparr>cs_records := ?m\<rparr>) = (r2, s2)" by fastforce
    have ok: "r2 = None" "s' = s2" "r = ?r"
      using assms(1) i None sv by (auto simp: ctl_prepare_def Let_def p split: option.splits if_splits)
    have "keyed ?m" using d1 by (intro keyed_put) (auto simp: durable_def new_request_def)
    with save_locked_ok [of cd "sv 1" "s1\<lparr>cs_records := ?m\<rparr>" s2] sv ok
    show ?thesis by (auto simp: slots_def gomap_simps new_request_def same_tuple_def)
  qed
qed

text \<open>
  after \<open>Prepare\<close> has answered for a task and iteration, preparing the same pair again before
  the record expires creates nothing: it returns the same request identifier, marked as reused,
  whatever the new lifetime asked for and however full the store is.
\<close>

theorem prepare_is_idempotent:
  assumes "ctl_prepare cd clk sv rid task iteration ttl s = (Inr r, s1)" and "ctl_inv cd s"
    and "ctl_allowed s (CallPrepare clk sv rid task iteration ttl)"
    and "\<not> rq_expired (clk' 0) r" and "ttl' = 0 \<or> min_ttl \<le> ttl' \<and> ttl' \<le> max_ttl"
    and "fst (prune_and_save cd (clk' 0) (sv' 0) s1) = None"
  shows "\<exists>q. fst (ctl_prepare cd clk' sv' rid' task iteration ttl' s1) = Inr q
    \<and> rq_request_id q = rq_request_id r \<and> rq_reused q
    \<and> slots (snd (ctl_prepare cd clk' sv' rid' task iteration ttl' s1)) (rq_request_id r)
        = slots s1 (rq_request_id r)"
proof -
  let ?k = "rq_request_id r"
  have "ctl_inv cd s1" using ctl_step_inv [OF assms(2,3)] assms(1) by simp
  obtain q where q: "durable s1" "slots s1 ?k = Some q" "rq_expires_at q = rq_expires_at r"
      "same_tuple task iteration q"
    using prepare_accepted [OF assms(1)] assms(2,3) by (auto simp: ctl_inv_def)
  obtain s2 where p: "prune_and_save cd (clk' 0) (sv' 0) s1 = (None, s2)" using assms(6) by (metis prod.collapse)
  have i2: "ctl_inv cd s2" using prune_and_save_inv [OF p \<open>ctl_inv cd s1\<close>] by simp
  have s2: "slots s2 ?k = Some q"
    using prune_and_save_spec [OF p q(1)] q assms(4) records.prune_keeps [of "cs_records s1" ?k q "clk' 0"]
    by (simp add: slots_def durable_def keyed_def rq_expired_def)
  then obtain q' where q': "find_tuple task iteration (cs_records s2) = Some q'"
    using find_tuple_None q(4) by (metis map_of_SomeD option.exhaust slots_def)
  then obtain k' where k': "(k', q') \<in> set (cs_records s2)" "same_tuple task iteration q'"
    using find_tuple_Some by blast
  then have "slots s2 k' = Some q'" "rq_request_id q' = k'"
    using i2 by (auto simp: ctl_inv_def durable_def keyed_def slots_def gm_set_iff)
  moreover have "k' = ?k"
    using i2 s2 q(4) k'(2) \<open>slots s2 k' = Some q'\<close> by (auto simp: ctl_inv_def slot_inv_def same_tuple_def)
  ultimately have "rq_request_id q' = ?k" by simp
  moreover have "validate_identity task iteration = None"
    using assms(1) by (auto simp: ctl_prepare_def split: option.splits)
  then have "ctl_prepare cd clk' sv' rid' task iteration ttl' s1 = (Inr (q'\<lparr>rq_reused := True\<rparr>), s2)"
    using p q' assms(5) by (auto simp: ctl_prepare_def Let_def)
  ultimately show ?thesis using s2 q(2) by simp
qed

lemma store_with_inv: "ctl_inv tiny_codec (store_with example_pending)"
  using control.step_inv [OF _ example_prepare_allowed, of tiny_codec] new_store_inv [OF example_open] by (simp add: example_prepare_step)

theorem prepare_is_idempotent_witness:
  "\<exists>q. fst (ctl_prepare tiny_codec (\<lambda>_. 9000) (\<lambda>_. full_disk) None ''cl_deadbeef'' 3 minute (store_with example_pending)) = Inr q
    \<and> rq_request_id q = example_id \<and> rq_reused q"
proof -
  have first: "ctl_prepare tiny_codec (\<lambda>_. 1000) (\<lambda>_. good_save) (Some example_id) ''cl_deadbeef'' 3 0 empty_store
      = (Inr example_pending, store_with example_pending)"
    by (simp add: example_identity run_eval empty_store_def store_with_def example_pending_def)
  have inv: "ctl_inv tiny_codec empty_store" using new_store_inv [OF example_open] by simp
  have alive: "\<not> rq_expired 9000 example_pending" and id: "rq_request_id example_pending = example_id"
    by (simp_all add: rq_expired_def example_pending_def new_request_def)
  then have "fst (prune_and_save tiny_codec 9000 full_disk (store_with example_pending)) = None"
    by (simp add: prune_and_save_def prune_locked_def prune_records_def gm_retain_def store_with_def)
  with prepare_is_idempotent [OF first inv, of "\<lambda>_. 9000" minute "\<lambda>_. full_disk" None]
    example_prepare_allowed [unfolded example_prepare_def] alive id show ?thesis by (simp only:) auto
qed

section \<open>Reading and cancelling\<close>

text \<open>
  a record that \<open>Get\<close> returns is one the store held, is for the task and iteration asked for
  and has not expired at the time of the call.
\<close>

theorem get_returns_live_record:
  assumes "ctl_get cd clk sv rid task iteration s = (Inr r, s')" and "durable s"
  shows "slots s rid = Some r \<and> slots s' rid = Some r \<and> rq_request_id r = rid \<and> same_tuple task iteration r
    \<and> \<not> rq_expired (clk 0) r \<and> \<not> rq_expired (clk 1) r"
proof -
  obtain r1 s1 where d: "drop_if_expired cd (clk 0) (sv 0) rid s = (r1, s1)" by fastforce
  obtain r2 s2 where p: "prune_and_save cd (clk 1) (sv 1) s1 = (r2, s2)" by fastforce
  have ok: "r1 = None" "r2 = None" "s' = s2" "gm_get (cs_records s2) rid = Some r" "same_tuple task iteration r"
    using assms(1) by (auto simp: ctl_get_def d p [simplified] same_tuple_def split: option.splits if_splits)
  have s1: "s1 = s" and live: "\<And>q. slots s rid = Some q \<Longrightarrow> \<not> rq_expired (clk 0) q"
    using drop_if_expired_spec [OF d assms(2)] ok(1) by auto
  have "slots s rid = Some r \<and> \<not> rq_expired (clk 1) r"
    using refines_shrinks [OF p [unfolded ok(2)]] ok(4) s1 assms(2) by (simp add: slots_def)
  then show ?thesis using ok live assms(2) by (auto simp: slots_def durable_def keyed_def)
qed

theorem get_returns_live_record_witness:
  "slots (store_with example_pending) example_id = Some example_pending \<and> \<not> rq_expired 9000 example_pending"
proof -
  have "ctl_get tiny_codec (\<lambda>_. 9000) (\<lambda>_. good_save) example_id ''cl_deadbeef'' 3 (store_with example_pending)
      = (Inr example_pending, store_with example_pending)"
    by (simp add: ctl_get_def example_identity run_eval store_with_def example_pending_def new_request_def)
  from get_returns_live_record [OF this] store_with_inv show ?thesis by (simp add: ctl_inv_def)
qed

text \<open>
  \<open>Cancel\<close> reads the record in one critical section and deletes it in another; when a submission
  for the request is accepted in between, the cancellation reports that nothing was cancelled,
  returns the record with the accepted response, and changes neither memory nor disk.
\<close>

theorem cancel_loses_to_submit:
  assumes "ctl_get cd clk sv rid task iteration s = (Inr got, s1)" and "durable s"
    and "ctl_submit cd clk' sv' sub s1 = (Inr rc, s2)" and "sub_request_id sub = rid"
  shows "\<exists>r resp. ctl_cancel_finish cd sv'' rid got s2 = (Inr (r, False), s2) \<and> slots s2 rid = Some r
    \<and> rq_response r = Some resp \<and> digest cd (canon cd resp) = digest cd (canon cd sub)"
proof -
  have "durable s1" using get_refines [OF assms(1,2), of UNIV] by (simp add: refines_def)
  from submit_accepted [OF assms(3) this] assms(4) show ?thesis
    by (auto simp: ctl_cancel_finish_def slots_def)
qed

theorem cancel_loses_to_submit_witness:
  "\<exists>r resp. ctl_cancel_finish tiny_codec good_save example_id example_pending (store_with example_submitted)
      = (Inr (r, False), store_with example_submitted) \<and> rq_response r = Some resp"
proof -
  have get: "ctl_get tiny_codec (\<lambda>_. 1500) (\<lambda>_. good_save) example_id ''cl_deadbeef'' 3 (store_with example_pending)
      = (Inr example_pending, store_with example_pending)"
    by (simp add: ctl_get_def example_identity run_eval store_with_def example_pending_def new_request_def)
  have submit: "ctl_submit tiny_codec (\<lambda>_. 2000) (\<lambda>_. good_save) example_submission (store_with example_pending)
      = (Inr (receipt example_submitted example_submission 2000 False), store_with example_submitted)"
    using example_submission_ok
    by (simp add: run_eval store_with_def example_submitted_def submitted_request_def
        example_pending_def new_request_def) (simp add: example_submission_def)
  have "durable (store_with example_pending)" using store_with_inv by (simp add: ctl_inv_def)
  from cancel_loses_to_submit [OF get this submit] show ?thesis
    by (simp add: example_submission_def) blast
qed

section \<open>Reopening\<close>

lemma load_records_total:
  assumes "\<And>r. r \<in> set rs \<Longrightarrow> validate_record cn wid r = None"
    and "distinct (map rq_request_id rs)" and "distinct (map (\<lambda>r. (rq_task_id r, rq_iteration r)) rs)"
    and "\<And>r. r \<in> set rs \<Longrightarrow> gm_get m (rq_request_id r) = None"
    and "\<And>r. r \<in> set rs \<Longrightarrow> (rq_task_id r, rq_iteration r) \<notin> set seen"
  shows "\<exists>m'. load_records cn wid rs seen m = Inr m'"
  using assms
proof (induction rs arbitrary: seen m)
  case (Cons r rs)
  have "\<exists>m'. load_records cn wid rs ((rq_task_id r, rq_iteration r) # seen) (gm_put (rq_request_id r) r m) = Inr m'"
    using Cons.prems by (intro Cons.IH) (auto simp: gomap_simps image_iff)
  with Cons.prems show ?case by simp
qed simp

lemma length_le_card_slots:
  assumes "records_ok cn wid m" and "finite (dom m)" and "distinct (map rq_request_id rs)"
    and "\<And>r. r \<in> set rs \<Longrightarrow> m (rq_request_id r) = Some r"
  shows "length rs \<le> card (dom m)"
proof -
  have "length rs = card (rq_request_id ` set rs)"
    using assms(3) distinct_card [of "map rq_request_id rs"] by simp
  also have "\<dots> \<le> card (dom m)" using assms(2,4) by (intro card_mono) auto
  finally show ?thesis .
qed

lemma reopen_loads:
  assumes "slot_inv cd wid m" and "distinct (map rq_request_id rs)"
    and get: "\<And>k r. m k = Some r \<longleftrightarrow> r \<in> set rs \<and> rq_request_id r = k"
  shows "length rs \<le> max_active \<and> (\<exists>m'. load_records (canon cd) wid rs [] [] = Inr m' \<and> gm_ok m' \<and> gm_get m' = m)"
proof -
  have ok: "records_ok (canon cd) wid m" "finite (dom m)" "card (dom m) \<le> max_active"
    using assms(1) by (auto simp: slot_inv_records_ok)
  have mem: "m (rq_request_id r) = Some r" if "r \<in> set rs" for r using get that by auto
  have len: "length rs \<le> max_active" using length_le_card_slots [OF ok(1,2) assms(2) mem] ok(3) by simp
  have "inj_on (\<lambda>r. (rq_task_id r, rq_iteration r)) (set rs)"
  proof (rule inj_onI)
    fix r q assume "r \<in> set rs" "q \<in> set rs" "(rq_task_id r, rq_iteration r) = (rq_task_id q, rq_iteration q)"
    with mem ok(1) have "rq_request_id r = rq_request_id q"
      unfolding records_ok_def same_tuple_def by (metis prod.inject)
    with mem \<open>r \<in> set rs\<close> \<open>q \<in> set rs\<close> show "r = q" by (metis option.inject)
  qed
  then have "distinct (map (\<lambda>r. (rq_task_id r, rq_iteration r)) rs)"
    using assms(2) by (simp add: distinct_map)
  moreover have "validate_record (canon cd) wid r = None" if "r \<in> set rs" for r
    using mem [OF that] ok(1) by (simp add: records_ok_def)
  ultimately obtain m' where m': "load_records (canon cd) wid rs [] [] = Inr m'"
    using load_records_total [of rs "canon cd" wid "[]" "[]"] assms(2) by auto
  have "records_ok (canon cd) wid (gm_get [])" by (simp add: records_ok_def)
  from load_records_ok [OF m' gm_ok_Nil this] have "gm_ok m'"
    and "\<And>k r. gm_get m' k = Some r \<longleftrightarrow> m k = Some r" using get by auto
  then have "gm_get m' = m" by (intro ext) (metis not_Some_eq)
  with m' len \<open>gm_ok m'\<close> show ?thesis by blast
qed

lemma prune_nothing:
  assumes "gm_ok m" and "\<And>k r. gm_get m k = Some r \<Longrightarrow> \<not> rq_expired now r"
  shows "prune_records now m = m"
  unfolding prune_records_def using assms by (intro gm_retain_all) (auto simp: gm_set_iff)

lemma reopen_file:
  assumes "workspace_id_pattern wid" and "trim_space root \<noteq> []" and "slot_inv cd wid m" and "file_holds file m"
    and size: "\<And>f. file = Some f \<Longrightarrow> cf_bytes f \<le> max_state_bytes"
    and live: "\<And>k r. m k = Some r \<Longrightarrow> \<not> rq_expired now r"
    and "sv_location (sv 1) = None" and "sv_remove (sv 1) = None"
  shows "\<exists>s'. new_store cd wid root None (Inr file) now sv = Inr s' \<and> slots s' = m"
proof (cases "(case file of None \<Rightarrow> 0 | Some f \<Rightarrow> cf_bytes f) = 0")
  case True
  then have "m = (\<lambda>_. None)" using assms(4) by (auto simp: file_holds_def fun_eq_iff split: option.splits)
  with True assms(1,2) show ?thesis
    by (simp add: new_store_def Let_def prune_and_save_def prune_locked_def prune_records_def gm_retain_def slots_def)
next
  case False
  then obtain f where f: "file = Some f" "0 < cf_bytes f" by (auto split: option.splits)
  then obtain rs where rs: "cf_records f = Some rs" "distinct (map rq_request_id rs)"
      "\<And>k r. m k = Some r \<longleftrightarrow> r \<in> set rs \<and> rq_request_id r = k"
    using assms(4) by (auto simp: file_holds_def)
  obtain m' where m': "length rs \<le> max_active" "load_records (canon cd) wid rs [] [] = Inr m'" "gm_ok m'" "gm_get m' = m"
    using reopen_loads [OF assms(3) rs(2,3)] by blast
  have "prune_records now m' = m'" using prune_nothing [OF m'(3)] live m'(4) by simp
  then have "prune_and_save cd now (sv 0) \<lparr>cs_workspace_id = wid, cs_records = m', cs_file = file\<rparr>
      = (None, \<lparr>cs_workspace_id = wid, cs_records = m', cs_file = file\<rparr>)"
    by (simp add: prune_and_save_def prune_locked_def)
  with f size [OF f(1)] rs(1) m' assms(1,2,7,8) show ?thesis
    by (cases "m' = []") (auto simp: new_store_def Let_def save_locked_def slots_def)
qed

text \<open>
  closing the store after any sequence of calls and opening it again gives the same records,
  whenever the file is within the limit \<open>NewStore\<close> reads and no record has expired: whatever the
  store writes passes its own validation.
\<close>

theorem control_reopen_restores:
  assumes "new_store cd wid root loc file now0 sv0 = Inr s0" and "ctl_calls_ok cd s0 cs"
    and "\<forall>f. cs_file (ctl_run cd s0 cs) = Some f \<longrightarrow> cf_bytes f \<le> max_state_bytes"
    and "\<forall>k r. slots (ctl_run cd s0 cs) k = Some r \<longrightarrow> \<not> rq_expired now r"
    and "sv_location (sv 1) = None" and "sv_remove (sv 1) = None"
  shows "\<exists>s'. new_store cd wid root None (Inr (cs_file (ctl_run cd s0 cs))) now sv = Inr s'
    \<and> slots s' = slots (ctl_run cd s0 cs)"
proof (rule reopen_file)
  show "workspace_id_pattern wid" "trim_space root \<noteq> []"
    using assms(1) by (auto simp: new_store_def split: if_splits)
  have inv: "ctl_inv cd s0" and wid: "cs_workspace_id s0 = wid" using new_store_inv [OF assms(1)] by auto
  with run_workspace [OF inv assms(2)] control.run_inv [OF inv assms(2)]
  show "slot_inv cd wid (slots (ctl_run cd s0 cs))"
    and "file_holds (cs_file (ctl_run cd s0 cs)) (slots (ctl_run cd s0 cs))"
    by (simp_all add: ctl_inv_def durable_def)
qed (use assms(3-6) in auto)

theorem control_reopen_restores_witness:
  "\<exists>s'. new_store tiny_codec ''ws_1'' ''/work'' None
      (Inr (cs_file (ctl_run tiny_codec empty_store [example_prepare, example_submit (\<lambda>_. good_save)]))) 5000 (\<lambda>_. good_save) = Inr s'
    \<and> slots s' = slots (store_with example_submitted)"
proof -
  have run: "ctl_run tiny_codec empty_store [example_prepare, example_submit (\<lambda>_. good_save)] = store_with example_submitted"
    by (simp add: example_prepare_step example_submit_step)
  have live: "\<not> rq_expired 5000 example_submitted"
    by (simp add: rq_expired_def example_submitted_def submitted_request_def)
  show ?thesis
    using control_reopen_restores [OF example_open example_run_ok [of "\<lambda>_. good_save"], of 5000 "\<lambda>_. good_save"] live
    unfolding run by (simp add: good_save_def) (simp add: store_with_def slots_def)
qed

text \<open>
  \<open>saveLocked\<close> compares the text with 1 MiB before it appends the newline and \<open>NewStore\<close>
  compares the whole file: a store whose records encode to exactly 1 MiB is saved without an error
  and can never be opened again.
\<close>

theorem full_size_state_cannot_be_reopened:
  assumes "cs_records s \<noteq> []" and "text_length cd (sorted_records (cs_records s)) = max_state_bytes"
    and "sv_location sv = None" and "sv_write sv = None"
    and "workspace_id_pattern wid" and "trim_space root \<noteq> []"
  shows "fst (save_locked cd sv s) = None
    \<and> new_store cd wid root None (Inr (cs_file (snd (save_locked cd sv s)))) now sv'
        = Inl (Fail ''CONTROL_STATE_TOO_LARGE'' ''control state exceeds 1 MiB'')"
  using assms by (simp add: save_locked_def new_store_def Let_def)

theorem full_size_state_cannot_be_reopened_witness:
  "new_store (tiny_codec\<lparr>text_length := \<lambda>_. 1048576\<rparr>) ''ws_1'' ''/work'' None
     (Inr (cs_file (snd (save_locked (tiny_codec\<lparr>text_length := \<lambda>_. 1048576\<rparr>) good_save (store_with example_pending))))) 0
     (\<lambda>_. good_save) = Inl (Fail ''CONTROL_STATE_TOO_LARGE'' ''control state exceeds 1 MiB'')"
  using full_size_state_cannot_be_reopened [of "store_with example_pending" "tiny_codec\<lparr>text_length := \<lambda>_. 1048576\<rparr>"
      good_save "''ws_1''" "''/work''" 0 "\<lambda>_. good_save"]
  by (simp add: store_with_def tiny_codec_def good_save_def workspace_id_pattern_def validation_eval)

text \<open>
  C16: every call refines the lifecycle the documentation gives the requests: its effect on the
  records is a sequence of steps of \<open>slot_step\<close> (expiry, creation for a free task and iteration
  below the capacity, one response to a live pending request, cancellation of a pending request).
\<close>

theorem control_calls_refine_lifecycle:
  assumes "new_store cd wid root loc file now sv = Inr s0" and "ctl_calls_ok cd s0 (cs @ [c])"
  shows "slot_steps cd wid (call_times c) (slots (ctl_run cd s0 cs)) (slots (ctl_run cd s0 (cs @ [c])))"
proof -
  have inv: "ctl_inv cd s0" and wid: "cs_workspace_id s0 = wid" using new_store_inv [OF assms(1)] by auto
  have ok: "ctl_calls_ok cd s0 cs" "ctl_allowed (ctl_run cd s0 cs) c" using assms(2) by (simp_all add: calls_ok_append)
  then have "durable (ctl_run cd s0 cs)" using control.run_inv [OF inv] by (simp add: ctl_inv_def)
  from ctl_step_refines [OF this ok(2)] run_workspace [OF inv ok(1)] wid show ?thesis
    by (simp add: refines_def run_calls_append)
qed

theorem control_calls_refine_lifecycle_witness:
  "slot_steps tiny_codec ''ws_1'' {2000} (slots (store_with example_pending)) (slots (store_with example_submitted))"
  using control_calls_refine_lifecycle [OF example_open, of "[example_prepare]" "example_submit (\<lambda>_. good_save)"]
    example_run_ok [of "\<lambda>_. good_save"]
  by (simp add: example_prepare_step example_submit_step) (simp add: example_submit_def)

end
