(* ===== verification/Url.thy ===== *)
theory Url
  imports GoStrings
begin

text \<open>
  \<open>net/url\<close> of the Go standard library: \<open>Parse\<close>, the printing of a URL and \<open>Hostname\<close>, byte for byte.
  The functions of the program that decide on URLs are built from these.
\<close>

section \<open>Escaping\<close>

datatype url_mode = EncodePath | EncodeUserPassword | EncodeHost | EncodeZone | EncodeFragment

definition alnum :: "char \<Rightarrow> bool" where
  "alnum c \<longleftrightarrow> in_range 97 122 c \<or> in_range 65 90 c \<or> in_range 48 57 c"

definition should_escape :: "url_mode \<Rightarrow> char \<Rightarrow> bool" where
  "should_escape mode c =
    (if alnum c then False
     else if (mode = EncodeHost \<or> mode = EncodeZone) \<and> c \<in> set ''!$&'' \<union> {CHR 0x27} \<union> set ''()*+,;=:[]<>'' \<union> {CHR 0x22} then False
     else if c \<in> set ''-_.~'' then False
     else if c \<in> set ''$&+,/:;=?@'' then
       (case mode of EncodePath \<Rightarrow> c = CHR ''?''
        | EncodeUserPassword \<Rightarrow> c \<in> set ''@/?:''
        | EncodeFragment \<Rightarrow> False
        | _ \<Rightarrow> True)
     else if mode = EncodeFragment \<and> c \<in> set ''!()*'' then False
     else True)"

definition unhex :: "char \<Rightarrow> nat option" where
  "unhex c =
    (if in_range 48 57 c then Some (byte c - 48)
     else if in_range 97 102 c then Some (byte c - 87)
     else if in_range 65 70 c then Some (byte c - 55)
     else None)"

text \<open>\<open>unescape\<close>; \<open>None\<close> is an error.\<close>

fun url_unescape :: "url_mode \<Rightarrow> string \<Rightarrow> string option" where
  "url_unescape mode [] = Some []"
| "url_unescape mode (c # s) =
    (if c = CHR ''%'' then
       (case s of a # b # s' \<Rightarrow>
          (case (unhex a, unhex b) of
             (Some x, Some y) \<Rightarrow>
               if mode = EncodeHost \<and> x < 8 \<and> \<not> (a = CHR ''2'' \<and> b = CHR ''5'') then None
               else if mode = EncodeZone \<and> \<not> (a = CHR ''2'' \<and> b = CHR ''5'') \<and> x * 16 + y \<noteq> 32
                       \<and> should_escape EncodeHost (char_of (x * 16 + y)) then None
               else map_option (Cons (char_of (x * 16 + y))) (url_unescape mode s')
           | _ \<Rightarrow> None)
        | _ \<Rightarrow> None)
     else if (mode = EncodeHost \<or> mode = EncodeZone) \<and> byte c < 128 \<and> should_escape mode c then None
     else map_option (Cons c) (url_unescape mode s))"

definition upper_hex :: "nat \<Rightarrow> char" where
  "upper_hex n = ''0123456789ABCDEF'' ! n"

definition url_escape :: "url_mode \<Rightarrow> string \<Rightarrow> string" where
  "url_escape mode s = concat (map (\<lambda>c. if should_escape mode c
     then [CHR ''%'', upper_hex (byte c div 16), upper_hex (byte c mod 16)] else [c]) s)"

section \<open>Parsing\<close>

record url =
  u_scheme :: string
  u_opaque :: string
  u_user :: "(string \<times> string option) option"
  u_host :: string
  u_path :: string
  u_raw_path :: string
  u_omit_host :: bool
  u_force_query :: bool
  u_raw_query :: string
  u_fragment :: string
  u_raw_fragment :: string

definition empty_url :: url where
  "empty_url = \<lparr>u_scheme = [], u_opaque = [], u_user = None, u_host = [], u_path = [], u_raw_path = [],
     u_omit_host = False, u_force_query = False, u_raw_query = [], u_fragment = [], u_raw_fragment = []\<rparr>"

text \<open>\<open>strings.Cut\<close> at a byte: what is before it and what is after it.\<close>

definition cut :: "char \<Rightarrow> string \<Rightarrow> string \<times> string" where
  "cut c s = (takeWhile (\<lambda>d. d \<noteq> c) s, drop 1 (dropWhile (\<lambda>d. d \<noteq> c) s))"

text \<open>\<open>strings.LastIndexByte\<close>: what is before the last occurrence and what is after it.\<close>

definition cut_last :: "char \<Rightarrow> string \<Rightarrow> (string \<times> string) option" where
  "cut_last c s = (if c \<in> set s then (case cut c (rev s) of (b, a) \<Rightarrow> Some (rev a, rev b)) else None)"

text \<open>\<open>getScheme\<close>: \<open>None\<close> is \<open>missing protocol scheme\<close>.\<close>

fun scheme_loop :: "string \<Rightarrow> string \<Rightarrow> (string \<times> string) option" where
  "scheme_loop acc [] = Some ([], acc)"
| "scheme_loop acc (c # s) =
    (if in_range 97 122 c \<or> in_range 65 90 c then scheme_loop (acc @ [c]) s
     else if in_range 48 57 c \<or> c \<in> set ''+-.'' then
       (if acc = [] then Some ([], acc @ c # s) else scheme_loop (acc @ [c]) s)
     else if c = CHR '':'' then (if acc = [] then None else Some (acc, s))
     else Some ([], acc @ c # s))"

definition valid_userinfo :: "string \<Rightarrow> bool" where
  "valid_userinfo s \<longleftrightarrow> list_all (\<lambda>c. alnum c \<or> c \<in> set ''-._:~!$&'' \<union> {CHR 0x27} \<union> set ''()*+,;=%@'') s"

definition valid_optional_port :: "string \<Rightarrow> bool" where
  "valid_optional_port p \<longleftrightarrow> (case p of [] \<Rightarrow> True | c # ds \<Rightarrow> c = CHR '':'' \<and> list_all (in_range 48 57) ds)"

fun find_sub :: "string \<Rightarrow> string \<Rightarrow> nat option" where
  "find_sub p [] = (if p = [] then Some 0 else None)"
| "find_sub p (c # s) = (if has_prefix (c # s) p then Some 0 else map_option Suc (find_sub p s))"

definition parse_host :: "string \<Rightarrow> string option" where
  "parse_host host =
    (if has_prefix host ''['' then
       (case cut_last CHR '']'' host of
          None \<Rightarrow> None
        | Some (inside, port) \<Rightarrow>
            if \<not> valid_optional_port port then None
            else case find_sub ''%25'' inside of
              Some z \<Rightarrow>
                (case (url_unescape EncodeHost (take z inside), url_unescape EncodeZone (drop z inside),
                       url_unescape EncodeHost (CHR '']'' # port)) of
                   (Some a, Some b, Some c) \<Rightarrow> Some (a @ b @ c)
                 | _ \<Rightarrow> None)
            | None \<Rightarrow> url_unescape EncodeHost host)
     else case cut_last CHR '':'' host of
       Some (_, port) \<Rightarrow> if valid_optional_port (CHR '':'' # port) then url_unescape EncodeHost host else None
     | None \<Rightarrow> url_unescape EncodeHost host)"

definition parse_userinfo :: "string \<Rightarrow> (string \<times> string option) option" where
  "parse_userinfo s =
    (if \<not> valid_userinfo s then None
     else if CHR '':'' \<notin> set s then map_option (\<lambda>u. (u, None)) (url_unescape EncodeUserPassword s)
     else (case cut CHR '':'' s of (u, p) \<Rightarrow>
       (case (url_unescape EncodeUserPassword u, url_unescape EncodeUserPassword p) of
          (Some u', Some p') \<Rightarrow> Some (u', Some p')
        | _ \<Rightarrow> None)))"

definition parse_authority :: "string \<Rightarrow> ((string \<times> string option) option \<times> string) option" where
  "parse_authority a =
    (case cut_last CHR ''@'' a of
       None \<Rightarrow> map_option (\<lambda>h. (None, h)) (parse_host a)
     | Some (info, host) \<Rightarrow>
         (case (parse_host host, parse_userinfo info) of
            (Some h, Some u) \<Rightarrow> Some (Some u, h)
          | _ \<Rightarrow> None))"

definition set_path :: "string \<Rightarrow> url \<Rightarrow> url option" where
  "set_path p u =
    (case url_unescape EncodePath p of
       None \<Rightarrow> None
     | Some path \<Rightarrow> Some (u\<lparr>u_path := path, u_raw_path := (if p = url_escape EncodePath path then [] else p)\<rparr>))"

text \<open>What follows the scheme and precedes the query.\<close>

definition parse_rest :: "string \<Rightarrow> url \<Rightarrow> url option" where
  "parse_rest rest u =
    (if \<not> has_prefix rest ''/'' \<and> u_scheme u \<noteq> [] then Some (u\<lparr>u_opaque := rest\<rparr>)
     else if \<not> has_prefix rest ''/'' \<and> CHR '':'' \<in> set (fst (cut CHR ''/'' rest)) then None
     else if (u_scheme u \<noteq> [] \<or> \<not> has_prefix rest ''///'') \<and> has_prefix rest ''//'' then
       (let authority = takeWhile (\<lambda>c. c \<noteq> CHR ''/'') (drop 2 rest);
            path = dropWhile (\<lambda>c. c \<noteq> CHR ''/'') (drop 2 rest)
        in case parse_authority authority of
             None \<Rightarrow> None
           | Some (user, host) \<Rightarrow> set_path path (u\<lparr>u_user := user, u_host := host\<rparr>))
     else if u_scheme u \<noteq> [] \<and> has_prefix rest ''/'' then set_path rest (u\<lparr>u_omit_host := True\<rparr>)
     else set_path rest u)"

definition control_byte :: "char \<Rightarrow> bool" where
  "control_byte c \<longleftrightarrow> byte c < 32 \<or> byte c = 127"

definition parse_no_fragment :: "string \<Rightarrow> url option" where
  "parse_no_fragment raw =
    (if list_ex control_byte raw then None
     else if raw = ''*'' then Some (empty_url\<lparr>u_path := ''*''\<rparr>)
     else case scheme_loop [] raw of
       None \<Rightarrow> None
     | Some (scheme, rest) \<Rightarrow>
         let u = empty_url\<lparr>u_scheme := to_lower id scheme\<rparr> in
         if has_suffix rest ''?'' \<and> length (filter (\<lambda>c. c = CHR ''?'') rest) = 1
         then parse_rest (butlast rest) (u\<lparr>u_force_query := True\<rparr>)
         else (case cut CHR ''?'' rest of (r, query) \<Rightarrow> parse_rest r (u\<lparr>u_raw_query := query\<rparr>)))"

definition set_fragment :: "string \<Rightarrow> url \<Rightarrow> url option" where
  "set_fragment f u =
    (case url_unescape EncodeFragment f of
       None \<Rightarrow> None
     | Some frag \<Rightarrow> Some (u\<lparr>u_fragment := frag,
         u_raw_fragment := (if f = url_escape EncodeFragment frag then [] else f)\<rparr>))"

definition url_parse :: "string \<Rightarrow> url option" where
  "url_parse raw =
    (case cut CHR ''#'' raw of (r, frag) \<Rightarrow>
       (case parse_no_fragment r of
          None \<Rightarrow> None
        | Some u \<Rightarrow> if frag = [] then Some u else set_fragment frag u))"

section \<open>Printing\<close>

definition valid_encoded :: "url_mode \<Rightarrow> string \<Rightarrow> bool" where
  "valid_encoded mode s \<longleftrightarrow>
     list_all (\<lambda>c. c \<in> set ''!$&'' \<union> {CHR 0x27} \<union> set ''()*+,;=:@[]%'' \<or> \<not> should_escape mode c) s"

definition escaped_path :: "url \<Rightarrow> string" where
  "escaped_path u =
    (if u_raw_path u \<noteq> [] \<and> valid_encoded EncodePath (u_raw_path u)
        \<and> url_unescape EncodePath (u_raw_path u) = Some (u_path u) then u_raw_path u
     else if u_path u = ''*'' then ''*''
     else url_escape EncodePath (u_path u))"

definition escaped_fragment :: "url \<Rightarrow> string" where
  "escaped_fragment u =
    (if u_raw_fragment u \<noteq> [] \<and> valid_encoded EncodeFragment (u_raw_fragment u)
        \<and> url_unescape EncodeFragment (u_raw_fragment u) = Some (u_fragment u) then u_raw_fragment u
     else url_escape EncodeFragment (u_fragment u))"

definition user_string :: "string \<times> string option \<Rightarrow> string" where
  "user_string = (\<lambda>(u, p). url_escape EncodeUserPassword u
     @ (case p of None \<Rightarrow> [] | Some p \<Rightarrow> CHR '':'' # url_escape EncodeUserPassword p))"

definition hier_part :: "url \<Rightarrow> string" where
  "hier_part u =
    (let path = escaped_path u;
         authority =
           (if (u_scheme u \<noteq> [] \<or> u_host u \<noteq> [] \<or> u_user u \<noteq> None)
               \<and> \<not> (u_omit_host u \<and> u_host u = [] \<and> u_user u = None)
            then (if u_host u \<noteq> [] \<or> u_path u \<noteq> [] \<or> u_user u \<noteq> None then ''//'' else [])
              @ (case u_user u of None \<Rightarrow> [] | Some i \<Rightarrow> user_string i @ ''@'')
              @ (if u_host u \<noteq> [] then url_escape EncodeHost (u_host u) else [])
            else []);
         slash = (if path \<noteq> [] \<and> hd path \<noteq> CHR ''/'' \<and> u_host u \<noteq> [] then ''/'' else []);
         dot = (if u_scheme u = [] \<and> authority = [] \<and> slash = [] \<and> CHR '':'' \<in> set (fst (cut CHR ''/'' path))
                then ''./'' else [])
     in authority @ slash @ dot @ path)"

definition url_string :: "url \<Rightarrow> string" where
  "url_string u =
    (if u_scheme u \<noteq> [] then u_scheme u @ '':'' else [])
    @ (if u_opaque u \<noteq> [] then u_opaque u else hier_part u)
    @ (if u_force_query u \<or> u_raw_query u \<noteq> [] then CHR ''?'' # u_raw_query u else [])
    @ (if u_fragment u \<noteq> [] then CHR ''#'' # escaped_fragment u else [])"

text \<open>\<open>Hostname\<close>: without a valid port and without the brackets of an IPv6 address.\<close>

definition split_host_port :: "string \<Rightarrow> string \<times> string" where
  "split_host_port hp =
    (let (host, port) = (case cut_last CHR '':'' hp of
           Some (h, p) \<Rightarrow> if valid_optional_port (CHR '':'' # p) then (h, p) else (hp, [])
         | None \<Rightarrow> (hp, []))
     in (if has_prefix host ''['' \<and> has_suffix host '']'' then butlast (tl host) else host, port))"

definition url_hostname :: "url \<Rightarrow> string" where
  "url_hostname u = fst (split_host_port (u_host u))"

definition url_port :: "url \<Rightarrow> string" where
  "url_port u = snd (split_host_port (u_host u))"

end
