(* ===== verification/Encoding.thy ===== *)
theory Encoding
  imports GoStrings
begin

text \<open>
  The encodings of \<open>encoding/hex\<close>, \<open>encoding/base64\<close> (\<open>RawURLEncoding\<close>) and the
  \<open>time.RFC3339Nano\<close> layout in UTC, as far as the program uses them.
\<close>

section \<open>Hexadecimal\<close>

definition hex_digit :: "nat \<Rightarrow> char" where
  "hex_digit n = ''0123456789abcdef'' ! n"

definition hex_encode :: "string \<Rightarrow> string" where
  "hex_encode s = concat (map (\<lambda>c. [hex_digit (byte c div 16), hex_digit (byte c mod 16)]) s)"

lemma hex_digit_eq: "n < 16 \<Longrightarrow> m < 16 \<Longrightarrow> hex_digit n = hex_digit m \<longleftrightarrow> n = m"
proof -
  have "distinct ''0123456789abcdef''" by simp
  moreover assume "n < 16" "m < 16"
  ultimately show ?thesis
    using nth_eq_iff_index_eq [of "''0123456789abcdef''" n m] by (simp add: hex_digit_def del: distinct.simps)
qed

lemma hex_encode_inject [simp]: "hex_encode s = hex_encode t \<longleftrightarrow> s = t"
proof
  show "hex_encode s = hex_encode t \<Longrightarrow> s = t"
  proof (induction s arbitrary: t)
    case Nil
    then show ?case by (cases t) (auto simp: hex_encode_def)
  next
    case (Cons c s)
    then obtain d t' where t: "t = d # t'" by (cases t) (auto simp: hex_encode_def)
    have "byte c div 16 < 16" "byte d div 16 < 16" by (simp_all add: less_mult_imp_div_less)
    with Cons.prems have "byte c div 16 = byte d div 16" "byte c mod 16 = byte d mod 16" "hex_encode s = hex_encode t'"
      by (simp_all add: t hex_encode_def hex_digit_eq)
    with Cons.IH show ?case by (metis t byte_inject div_mult_mod_eq)
  qed
qed simp

section \<open>Base 64, URL alphabet, no padding\<close>

definition b64_alphabet :: string where
  "b64_alphabet = ''ABCDEFGHIJKLMNOPQRSTUVWXYZabcdefghijklmnopqrstuvwxyz0123456789-_''"

definition b64_char :: "nat \<Rightarrow> char" where
  "b64_char n = b64_alphabet ! (n mod 64)"

fun b64_encode :: "string \<Rightarrow> string" where
  "b64_encode [] = []"
| "b64_encode [a] = (let n = byte a * 16 in [b64_char (n div 64), b64_char n])"
| "b64_encode [a, b] = (let n = (byte a * 256 + byte b) * 4 in
     [b64_char (n div 4096), b64_char (n div 64), b64_char n])"
| "b64_encode (a # b # c # s) = (let n = byte a * 65536 + byte b * 256 + byte c in
     b64_char (n div 262144) # b64_char (n div 4096) # b64_char (n div 64) # b64_char n # b64_encode s)"

text \<open>
  \<open>DecodeString\<close> skips carriage returns and newlines; what remains must consist of letters of the
  alphabet, and one letter alone does not make a byte.
\<close>

definition b64_decodes :: "string \<Rightarrow> bool" where
  "b64_decodes s \<longleftrightarrow> (let t = filter (\<lambda>c. byte c \<noteq> 10 \<and> byte c \<noteq> 13) s in
     list_all (\<lambda>c. c \<in> set b64_alphabet) t \<and> length t mod 4 \<noteq> 1)"

lemma b64_alphabet_length: "length b64_alphabet = 64"
  by (simp add: b64_alphabet_def)

lemma b64_char_mem [simp]: "b64_char n \<in> set b64_alphabet"
  by (simp add: b64_char_def b64_alphabet_length)

lemma b64_encode_mem: "c \<in> set (b64_encode s) \<Longrightarrow> c \<in> set b64_alphabet"
  by (induction s rule: b64_encode.induct) (auto simp: Let_def)

lemma b64_encode_length: "length (b64_encode s) = (length s * 4 + 2) div 3"
  by (induction s rule: b64_encode.induct) (auto simp: Let_def)

lemma b64_alphabet_no_newline: "c \<in> set b64_alphabet \<Longrightarrow> byte c \<noteq> 10 \<and> byte c \<noteq> 13"
  by (auto simp: b64_alphabet_def byte_def)

lemma b64_encode_decodes: "b64_decodes (b64_encode s)"
proof -
  have "filter (\<lambda>c. byte c \<noteq> 10 \<and> byte c \<noteq> 13) (b64_encode s) = b64_encode s"
    using b64_encode_mem b64_alphabet_no_newline by (auto intro!: filter_True)
  moreover have "length (b64_encode s) mod 4 \<noteq> 1"
    by (induction s rule: b64_encode.induct) (auto simp: Let_def)
  ultimately show ?thesis using b64_encode_mem by (auto simp: b64_decodes_def Let_def list_all_iff)
qed

text \<open>
  What \<open>DecodeString\<close> returns: each group of four letters is a number of 24 bits, the bits that do
  not fill a byte at the end are ignored.
\<close>

definition b64_value :: "char \<Rightarrow> nat" where
  "b64_value c = (case index_byte c b64_alphabet of Some i \<Rightarrow> i | None \<Rightarrow> 0)"

fun b64_bytes :: "nat list \<Rightarrow> string" where
  "b64_bytes (a # b # c # d # vs) = (let n = ((a * 64 + b) * 64 + c) * 64 + d in
     char_of (n div 65536) # char_of (n div 256) # char_of n # b64_bytes vs)"
| "b64_bytes [a, b, c] = (let n = (a * 64 + b) * 64 + c in [char_of (n div 1024), char_of (n div 4)])"
| "b64_bytes [a, b] = [char_of ((a * 64 + b) div 16)]"
| "b64_bytes _ = []"

definition b64_decode :: "string \<Rightarrow> string option" where
  "b64_decode s =
    (if b64_decodes s then Some (b64_bytes (map b64_value (filter (\<lambda>c. byte c \<noteq> 10 \<and> byte c \<noteq> 13) s))) else None)"

lemma index_byte_nth: "distinct s \<Longrightarrow> i < length s \<Longrightarrow> index_byte (s ! i) s = Some i"
proof (induction s arbitrary: i)
  case (Cons c s)
  then show ?case by (cases i) auto
qed simp

lemma b64_alphabet_distinct: "distinct b64_alphabet"
  by (simp add: b64_alphabet_def)

lemma b64_value_char [simp]: "b64_value (b64_char n) = n mod 64"
  using index_byte_nth [OF b64_alphabet_distinct, of "n mod 64"]
  by (simp add: b64_value_def b64_char_def b64_alphabet_length)

lemma digits64: "n < 16777216 \<Longrightarrow>
    ((n div 262144 mod 64 * 64 + n div 4096 mod 64) * 64 + n div 64 mod 64) * 64 + n mod 64 = n" for n :: nat
proof -
  assume n: "n < 16777216"
  have d: "n div 4096 = n div 64 div 64" "n div 262144 = n div 64 div 64 div 64"
    by (simp_all add: div_mult2_eq [symmetric])
  have "n div 64 div 64 div 64 mod 64 = n div 64 div 64 div 64" using n by (simp add: div_mult2_eq [symmetric] less_mult_imp_div_less)
  then show ?thesis unfolding d by (simp only: div_mult_mod_eq)
qed

lemma byte_le: "byte c \<le> 255"
proof -
  have "byte c < 256" by (rule byte_less)
  then show ?thesis by linarith
qed

lemma char_of_mult: "char_of (k * 256 + byte c) = c"
proof -
  have "(k * 256 + byte c) mod 256 = byte c" by simp
  then show ?thesis using char_of_mod_256 [of "k * 256 + byte c"] by simp
qed

lemma b64_two: "n < 4096 \<Longrightarrow> b64_bytes [n div 64 mod 64, n mod 64] = [char_of (n div 16)]"
proof -
  assume "n < 4096"
  then have "n div 64 mod 64 = n div 64" by (intro mod_less) (simp add: less_mult_imp_div_less)
  then show ?thesis by (simp only: b64_bytes.simps div_mult_mod_eq)
qed

lemma b64_three:
  "n < 262144 \<Longrightarrow> b64_bytes [n div 4096 mod 64, n div 64 mod 64, n mod 64] = [char_of (n div 1024), char_of (n div 4)]"
proof -
  assume "n < 262144"
  moreover from this have "n div 262144 = 0" by simp
  ultimately have "(n div 4096 mod 64 * 64 + n div 64 mod 64) * 64 + n mod 64 = n"
    using digits64 [of n] by simp
  then show ?thesis by (simp only: b64_bytes.simps Let_def)
qed

lemma b64_four:
  "n < 16777216 \<Longrightarrow> b64_bytes (n div 262144 mod 64 # n div 4096 mod 64 # n div 64 mod 64 # n mod 64 # vs)
     = char_of (n div 65536) # char_of (n div 256) # char_of n # b64_bytes vs"
  by (simp only: b64_bytes.simps Let_def digits64)

lemma b64_bytes_encode: "b64_bytes (map b64_value (b64_encode s)) = s"
proof (induction s rule: b64_encode.induct)
  case (2 a)
  have "byte a * 16 < 4096" using byte_le [of a] by simp
  from b64_two [OF this] show ?case by (simp only: b64_encode.simps Let_def list.map b64_value_char) simp
next
  case (3 a b)
  let ?n = "(byte a * 256 + byte b) * 4"
  have "?n < 262144" using byte_le [of a] byte_le [of b] by simp
  moreover have "?n div 1024 = byte a" using byte_le [of b] by simp
  moreover have "?n div 4 = byte a * 256 + byte b" by simp
  ultimately show ?case
    by (simp only: b64_encode.simps Let_def list.map b64_value_char b64_three char_of_mult char_of_byte)
next
  case (4 a b c s)
  let ?n = "byte a * 65536 + byte b * 256 + byte c"
  have "?n < 16777216" using byte_le [of a] byte_le [of b] byte_le [of c] by simp
  moreover have "?n div 65536 = byte a" using byte_le [of b] byte_le [of c] by simp
  moreover have "?n div 256 = byte a * 256 + byte b" using byte_le [of c] by simp
  moreover have "char_of ?n = c" using char_of_mult [of "byte a * 256 + byte b" c] by (simp add: algebra_simps)
  ultimately show ?case
    by (simp only: b64_encode.simps Let_def list.map b64_value_char b64_four char_of_mult char_of_byte 4)
qed simp

text \<open>Decoding what was encoded gives it back.\<close>

lemma b64_round_trip: "b64_decode (b64_encode s) = Some s"
proof -
  have "filter (\<lambda>c. byte c \<noteq> 10 \<and> byte c \<noteq> 13) (b64_encode s) = b64_encode s"
    using b64_encode_mem b64_alphabet_no_newline by (auto intro!: filter_True)
  then show ?thesis by (simp add: b64_decode_def b64_encode_decodes b64_bytes_encode)
qed

section \<open>Times\<close>

text \<open>Decimal digits of a natural number, padded with zeros to a width.\<close>

fun digits :: "nat \<Rightarrow> string" where
  "digits n = (if n < 10 then [char_of (48 + n)] else digits (n div 10) @ [char_of (48 + n mod 10)])"

declare digits.simps [simp del]

definition pad0 :: "nat \<Rightarrow> nat \<Rightarrow> string" where
  "pad0 w n = (let d = digits n in replicate (w - length d) CHR ''0'' @ d)"

text \<open>
  Year, month and day of a number of days since 1970-01-01: \<open>n\<close> days into an era of 400 years
  (which starts on 1 March), \<open>k\<close> days into a year, month \<open>m\<close> of a year that starts in March.
\<close>

definition era_year :: "int \<Rightarrow> int" where
  "era_year n = (n - n div 1460 + n div 36524 - n div 146096) div 365"

definition year_start :: "int \<Rightarrow> int" where
  "year_start y = 365 * y + y div 4 - y div 100"

definition year_month :: "int \<Rightarrow> int" where
  "year_month k = (5 * k + 2) div 153"

definition month_start :: "int \<Rightarrow> int" where
  "month_start m = (153 * m + 2) div 5"

definition civil_month :: "int \<Rightarrow> int \<Rightarrow> int \<Rightarrow> int \<times> int \<times> int" where
  "civil_month y k m = (if m < 10 then (y, m + 3, k - month_start m + 1) else (y + 1, m - 9, k - month_start m + 1))"

definition civil_day :: "int \<Rightarrow> int \<Rightarrow> int \<times> int \<times> int" where
  "civil_day y k = civil_month y k (year_month k)"

definition civil_year :: "int \<Rightarrow> int \<Rightarrow> int \<Rightarrow> int \<times> int \<times> int" where
  "civil_year era n y = civil_day (y + era * 400) (n - year_start y)"

definition civil_era :: "int \<Rightarrow> int \<Rightarrow> int \<times> int \<times> int" where
  "civil_era era n = civil_year era n (era_year n)"

definition civil :: "int \<Rightarrow> int \<times> int \<times> int" where
  "civil days = civil_era ((days + 719468) div 146097) ((days + 719468) mod 146097)"

text \<open>\<open>t.UTC().Format(time.RFC3339Nano)\<close>: the fraction loses its trailing zeros.\<close>

definition fraction :: "nat \<Rightarrow> string" where
  "fraction ns = (if ns = 0 then [] else CHR ''.'' # trim_right_chars ''0'' (pad0 9 ns))"

definition date_text :: "int \<times> int \<times> int \<Rightarrow> string" where
  "date_text = (\<lambda>(y, m, d). (if y < 0 then ''-'' else []) @ pad0 4 (nat \<bar>y\<bar>) @ ''-'' @ pad0 2 (nat m) @ ''-'' @ pad0 2 (nat d))"

definition clock_text :: "nat \<Rightarrow> string" where
  "clock_text s = pad0 2 (s div 3600) @ '':'' @ pad0 2 (s div 60 mod 60) @ '':'' @ pad0 2 (s mod 60)"

definition rfc3339_nano :: "time \<Rightarrow> string" where
  "rfc3339_nano t =
    date_text (civil (t div second div 86400)) @ ''T'' @ clock_text (nat (t div second mod 86400))
      @ fraction (nat (t mod second)) @ ''Z''"

lemmas time_eval =
  rfc3339_nano_def date_text_def clock_text_def fraction_def civil_def civil_era_def civil_year_def civil_day_def
  civil_month_def month_start_def year_month_def year_start_def era_year_def pad0_def digits.simps
  trim_right_chars_def char_of_def bit_0

text \<open>The printed times do not sort in the order of time: the point of a fraction is less than \<open>Z\<close>.\<close>

lemma rfc3339_nano_examples:
  "rfc3339_nano 1700000000000000000 = ''2023-11-14T22:13:20Z''"
  "rfc3339_nano 1700000000500000000 = ''2023-11-14T22:13:20.5Z''"
  by (simp_all add: time_eval)

lemma char_of_is: "n < 256 \<Longrightarrow> char_of n = c \<longleftrightarrow> n = byte c" "n < 256 \<Longrightarrow> c = char_of n \<longleftrightarrow> n = byte c"
  by (metis byte_char_of char_of_byte)+

section \<open>Quoted text\<close>

text \<open>\<open>%q\<close> of printable text.\<close>

definition go_quote :: "string \<Rightarrow> string" where
  "go_quote s = [CHR 0x22] @ concat (map (\<lambda>c. if c = CHR 0x22 \<or> c = CHR 0x5C then [CHR 0x5C, c] else [c]) s) @ [CHR 0x22]"

end
