(* ===== verification/OAuthChecks.thy ===== *)
theory OAuthChecks
  imports Url Encoding
begin

text \<open>
  The stateless checks at the end of \<open>internal/auth/store.go\<close>: scopes, redirect URIs, resource
  URIs, PKCE.  \<open>sha256\<close> is \<open>sha256.Sum256\<close> as a function on byte strings, \<open>low\<close> the table of
  \<open>unicode.ToLower\<close> above ASCII.
\<close>

datatype auth_error =
    ErrInvalidGrant | ErrInvalidClient | ErrInvalidTarget | ErrInvalidScope | ErrCapacity
  | ErrSave string | ErrRandom | ErrMetadata string | ErrPanic

section \<open>Scopes\<close>

definition control_respond :: string where
  "control_respond = ''control.respond''"

definition supported_scopes :: "string list" where
  "supported_scopes = [''workspace.read'', ''workspace.search'', ''git.read'', ''execution.read'',
     control_respond, ''offline_access'']"

definition default_scopes :: "string list" where
  "default_scopes = [''workspace.read'', ''workspace.search'', ''git.read'', ''execution.read'', control_respond]"

fun scope_loop :: "string list \<Rightarrow> string list \<Rightarrow> string list option" where
  "scope_loop result [] = Some result"
| "scope_loop result (scope # rest) =
    (if scope \<notin> set supported_scopes then None
     else if scope \<in> set result then scope_loop result rest
     else scope_loop (result @ [scope]) rest)"

definition parse_scopes :: "string \<Rightarrow> auth_error + string list" where
  "parse_scopes requested =
    (if trim_space requested = [] then Inr default_scopes
     else case scope_loop [] (str_fields (replace_char CHR ''+'' CHR '' '' requested)) of
       None \<Rightarrow> Inl ErrInvalidScope
     | Some [] \<Rightarrow> Inl ErrInvalidScope
     | Some result \<Rightarrow> Inr result)"

definition contains_scope :: "string list \<Rightarrow> string \<Rightarrow> bool" where
  "contains_scope scopes target \<longleftrightarrow> list_ex (\<lambda>s. s = target) scopes"

text \<open>The scopes asked for, each at its first occurrence.\<close>

definition requested_scopes :: "string \<Rightarrow> string list" where
  "requested_scopes req = rev (remdups (rev (str_fields (replace_char CHR ''+'' CHR '' '' req))))"

lemma remdups_snoc: "remdups (xs @ [x]) = filter (\<lambda>y. y \<noteq> x) (remdups xs) @ [x]"
  by (induction xs) auto

lemma scope_loop_eq:
  "scope_loop acc xs =
    (if set xs \<subseteq> set supported_scopes then Some (acc @ filter (\<lambda>s. s \<notin> set acc) (rev (remdups (rev xs)))) else None)"
proof (induction xs arbitrary: acc)
  case (Cons x xs)
  have "filter (\<lambda>s. s \<notin> set acc) (rev (remdups (rev (x # xs))))
      = (if x \<in> set acc then [] else [x]) @ filter (\<lambda>s. s \<notin> set acc \<and> s \<noteq> x) (rev (remdups (rev xs)))"
    by (simp add: remdups_snoc rev_filter [symmetric] conj_commute)
  then show ?case
    by (auto simp: Cons.IH intro!: filter_cong)
qed simp

section \<open>Redirect and resource URIs\<close>

definition allowed_redirect_uri :: "(nat \<Rightarrow> nat) \<Rightarrow> string \<Rightarrow> bool" where
  "allowed_redirect_uri low value0 =
    (case url_parse value0 of
       None \<Rightarrow> False
     | Some u \<Rightarrow>
        if u_fragment u \<noteq> [] \<or> u_host u = [] \<or> u_user u \<noteq> None then False
        else if u_scheme u = ''https'' then True
        else if u_scheme u \<noteq> ''http'' then False
        else let host = to_lower low (url_hostname u) in host = ''localhost'' \<or> host = ''127.0.0.1'' \<or> host = ''::1'')"

definition canonical_resource :: "(nat \<Rightarrow> nat) \<Rightarrow> string \<Rightarrow> string option" where
  "canonical_resource low value0 =
    (case url_parse (trim_space value0) of
       None \<Rightarrow> None
     | Some u \<Rightarrow>
        if u_scheme u = [] \<or> u_host u = [] \<or> u_fragment u \<noteq> [] \<or> u_user u \<noteq> None then None
        else Some (trim_right_chars ''/'' (url_string
          (u\<lparr>u_scheme := to_lower low (u_scheme u), u_host := to_lower low (u_host u),
             u_path := (if u_path u = ''/'' then [] else u_path u), u_raw_query := []\<rparr>))))"

definition same_resource :: "(nat \<Rightarrow> nat) \<Rightarrow> string \<Rightarrow> string \<Rightarrow> bool" where
  "same_resource low left right =
    (case (canonical_resource low left, canonical_resource low right) of
       (Some l, Some r) \<Rightarrow> l = r
     | _ \<Rightarrow> False)"

section \<open>PKCE and random tokens\<close>

definition verifier_rune :: "nat \<Rightarrow> bool" where
  "verifier_rune r \<longleftrightarrow> (65 \<le> r \<and> r \<le> 90) \<or> (97 \<le> r \<and> r \<le> 122) \<or> (48 \<le> r \<and> r \<le> 57) \<or> r \<in> set (map byte ''-._~'')"

definition valid_verifier :: "string \<Rightarrow> bool" where
  "valid_verifier v \<longleftrightarrow> \<not> (length v < 43 \<or> 128 < length v) \<and> list_all verifier_rune (runes v)"

definition valid_challenge :: "string \<Rightarrow> bool" where
  "valid_challenge v \<longleftrightarrow> length v = 43 \<and> b64_decodes v"

definition pkce_challenge :: "(string \<Rightarrow> string) \<Rightarrow> string \<Rightarrow> string" where
  "pkce_challenge sha256 verifier = b64_encode (sha256 verifier)"

definition hash_value :: "(string \<Rightarrow> string) \<Rightarrow> string \<Rightarrow> string" where
  "hash_value sha256 v = hex_encode (sha256 v)"

text \<open>\<open>randomToken\<close>; \<open>None\<close> is a failing \<open>rand.Read\<close>, otherwise the bytes it drew.\<close>

definition random_token :: "string \<Rightarrow> string option \<Rightarrow> string option" where
  "random_token prefix draw = map_option (\<lambda>bytes. prefix @ ''_'' @ b64_encode bytes) draw"

definition safe_equal :: "string \<Rightarrow> string \<Rightarrow> bool" where
  "safe_equal left right \<longleftrightarrow> (if length left \<noteq> length right then False else left = right)"

definition truncate_runes :: "string \<Rightarrow> nat \<Rightarrow> string" where
  "truncate_runes v limit =
    (if length (runes v) \<le> limit then v else encode_runes (take limit (runes v)))"

section \<open>What the scope parser grants\<close>

text \<open>
  \<open>ParseScopes\<close> grants exactly the scopes that were asked for, each once and in the order of
  their first mention, and only when every one of them is supported and at least one was named; a
  blank request gets the default scopes.
\<close>

theorem parse_scopes_ok_iff:
  "parse_scopes req = Inr r \<longleftrightarrow>
    (if trim_space req = [] then r = default_scopes
     else r = requested_scopes req \<and> r \<noteq> [] \<and> set r \<subseteq> set supported_scopes)"
proof -
  have "scope_loop [] (str_fields (replace_char CHR ''+'' CHR '' '' req))
      = (if set (requested_scopes req) \<subseteq> set supported_scopes then Some (requested_scopes req) else None)"
    by (simp add: scope_loop_eq requested_scopes_def)
  then show ?thesis by (cases "requested_scopes req") (auto simp: parse_scopes_def)
qed

section \<open>What a redirect URI is\<close>

lemma cut_append: "cut c s = (a, b) \<Longrightarrow> (\<exists>t. s = a @ t \<and> (t = [] \<or> t = c # b)) \<and> c \<notin> set a"
proof -
  assume "cut c s = (a, b)"
  then have a: "a = takeWhile (\<lambda>d. d \<noteq> c) s" and b: "b = drop 1 (dropWhile (\<lambda>d. d \<noteq> c) s)" by (auto simp: cut_def)
  have "dropWhile (\<lambda>d. d \<noteq> c) s = [] \<or> dropWhile (\<lambda>d. d \<noteq> c) s = c # b"
    using hd_dropWhile [of "\<lambda>d. d \<noteq> c" s] b by (cases "dropWhile (\<lambda>d. d \<noteq> c) s") auto
  moreover have "c \<notin> set a" using a set_takeWhileD by fastforce
  ultimately show ?thesis using a by (metis takeWhile_dropWhile_id)
qed

lemma scheme_loop_split:
  "scheme_loop acc s = Some (sch, rest) \<Longrightarrow> sch \<noteq> [] \<Longrightarrow> acc @ s = sch @ CHR '':'' # rest"
  by (induction acc s rule: scheme_loop.induct) (auto split: if_splits)

lemma set_path_fields:
  "set_path p u = Some v \<Longrightarrow> u_host v = u_host u \<and> u_user v = u_user u \<and> u_scheme v = u_scheme u"
  by (auto simp: set_path_def split: option.splits)

lemma parse_rest_authority:
  assumes "parse_rest r u = Some v" and "u_host v \<noteq> []" and "u_host u = []" and "u_user v = None"
  shows "\<exists>auth path. r = ''//'' @ auth @ path \<and> CHR ''/'' \<notin> set auth \<and> CHR ''@'' \<notin> set auth
    \<and> (path = [] \<or> hd path = CHR ''/'') \<and> parse_host auth = Some (u_host v) \<and> u_scheme v = u_scheme u"
proof -
  let ?auth = "takeWhile (\<lambda>c. c \<noteq> CHR ''/'') (drop 2 r)" and ?path = "dropWhile (\<lambda>c. c \<noteq> CHR ''/'') (drop 2 r)"
  have slashes: "has_prefix r ''//''"
    using assms(1-3) set_path_fields by (fastforce simp: parse_rest_def split: if_splits)
  have "has_prefix r ''/''" using slashes by (auto simp: has_prefix_iff)
  then obtain user host where pa: "parse_authority ?auth = Some (user, host)"
      and sp: "set_path ?path (u\<lparr>u_user := user, u_host := host\<rparr>) = Some v"
    using assms(1-3) slashes set_path_fields
    by (fastforce simp: parse_rest_def Let_def split: if_splits option.splits prod.splits)
  from set_path_fields [OF sp] assms(4) have v: "user = None" "host = u_host v" "u_scheme v = u_scheme u" by auto
  then have "CHR ''@'' \<notin> set ?auth" "parse_host ?auth = Some (u_host v)"
    using pa by (auto simp: parse_authority_def cut_last_def split: option.splits prod.splits if_splits)
  moreover have "r = ''//'' @ ?auth @ ?path" using slashes by (auto simp: has_prefix_iff)
  moreover have "?path = [] \<or> hd ?path = CHR ''/''" using hd_dropWhile by blast
  moreover have "CHR ''/'' \<notin> set ?auth" using set_takeWhileD by fastforce
  ultimately show ?thesis using v(3) by blast
qed

lemma parse_no_fragment_authority:
  assumes "parse_no_fragment raw = Some v" and "u_host v \<noteq> []" and "u_scheme v \<noteq> []" and "u_user v = None"
  shows "\<exists>sch auth rest. raw = sch @ ''://'' @ auth @ rest \<and> to_lower id sch = u_scheme v
    \<and> CHR ''/'' \<notin> set auth \<and> CHR ''@'' \<notin> set auth \<and> CHR ''?'' \<notin> set auth
    \<and> (rest = [] \<or> hd rest \<in> {CHR ''/'', CHR ''?''}) \<and> parse_host auth = Some (u_host v)"
proof -
  have "raw \<noteq> ''*''" using assms(1,2) by (auto simp: parse_no_fragment_def empty_url_def split: if_splits)
  then obtain scheme rest r t u where s: "scheme_loop [] raw = Some (scheme, rest)" "parse_rest r u = Some v"
      "u_host u = []" "u_scheme u = to_lower id scheme" "rest = r @ t" "t = [] \<or> hd t = CHR ''?''" "CHR ''?'' \<notin> set r"
  proof -
    obtain scheme rest where sl: "scheme_loop [] raw = Some (scheme, rest)"
      using assms(1) \<open>raw \<noteq> ''*''\<close> by (auto simp: parse_no_fragment_def split: if_splits option.splits)
    let ?u = "empty_url\<lparr>u_scheme := to_lower id scheme\<rparr>"
    show ?thesis
    proof (cases "has_suffix rest ''?'' \<and> length (filter (\<lambda>c. c = CHR ''?'') rest) = 1")
      case True
      then obtain r where r: "rest = r @ ''?''" by (auto simp: has_suffix_iff)
      with True have "filter (\<lambda>c. c = CHR ''?'') r = []" by simp
      then have "CHR ''?'' \<notin> set r" by (auto simp: filter_empty_conv)
      moreover have "parse_rest r (?u\<lparr>u_force_query := True\<rparr>) = Some v"
        using assms(1) sl True r \<open>raw \<noteq> ''*''\<close>
        by (auto simp: parse_no_fragment_def Let_def split: if_splits)
      ultimately show ?thesis using sl r by (intro that [of scheme rest r _ "''?''"]) (auto simp: empty_url_def)
    next
      case False
      obtain r q where c: "cut CHR ''?'' rest = (r, q)" by fastforce
      have "parse_rest r (?u\<lparr>u_raw_query := q\<rparr>) = Some v"
        using assms(1) sl False c \<open>raw \<noteq> ''*''\<close>
        by (simp add: parse_no_fragment_def Let_def split: if_splits)
      with cut_append [OF c] sl show ?thesis by (auto simp: empty_url_def intro!: that [of scheme rest r _ "drop (length r) rest"])
    qed
  qed
  from parse_rest_authority [OF s(2) assms(2) s(3) assms(4)] obtain auth path where
    a: "r = ''//'' @ auth @ path" "CHR ''/'' \<notin> set auth" "CHR ''@'' \<notin> set auth" "path = [] \<or> hd path = CHR ''/''"
      "parse_host auth = Some (u_host v)" "u_scheme v = u_scheme u" by blast
  have "scheme \<noteq> []" using a(6) s(4) assms(3) by (auto simp: to_lower_def encode_runes_def)
  with scheme_loop_split [OF s(1)] s(5) a(1) have "raw = scheme @ ''://'' @ auth @ (path @ t)" by simp
  moreover have "path @ t = [] \<or> hd (path @ t) \<in> {CHR ''/'', CHR ''?''}" using a(4) s(6) by (cases path) auto
  moreover have "CHR ''?'' \<notin> set auth" using s(7) a(1) by simp
  ultimately show ?thesis using a s(4) by metis
qed

lemma url_parse_authority:
  assumes "url_parse v = Some u" and "u_host u \<noteq> []" and "u_scheme u \<noteq> []" and "u_user u = None"
  shows "\<exists>sch auth rest. v = sch @ ''://'' @ auth @ rest \<and> to_lower id sch = u_scheme u
    \<and> set auth \<inter> set ''/@?#'' = {} \<and> (rest = [] \<or> hd rest \<in> set ''/?#'') \<and> parse_host auth = Some (u_host u)"
proof -
  obtain r f where c: "cut CHR ''#'' v = (r, f)" by fastforce
  then obtain w where w: "parse_no_fragment r = Some w" "u_host w = u_host u" "u_scheme w = u_scheme u" "u_user w = u_user u"
    using assms(1) by (auto simp: url_parse_def set_fragment_def split: option.splits if_splits)
  from parse_no_fragment_authority [OF w(1)] w(2-4) assms(2-4) obtain sch auth rest where
    a: "r = sch @ ''://'' @ auth @ rest" "to_lower id sch = u_scheme u" "CHR ''/'' \<notin> set auth" "CHR ''@'' \<notin> set auth"
      "CHR ''?'' \<notin> set auth" "rest = [] \<or> hd rest \<in> {CHR ''/'', CHR ''?''}" "parse_host auth = Some (u_host u)"
    by auto
  from cut_append [OF c] obtain t where t: "v = r @ t" "t = [] \<or> hd t = CHR ''#''" "CHR ''#'' \<notin> set r" by auto
  have "v = sch @ ''://'' @ auth @ (rest @ t)" using a(1) t(1) by simp
  moreover have "rest @ t = [] \<or> hd (rest @ t) \<in> set ''/?#''" using a(6) t(2) by (cases rest) auto
  moreover have "set auth \<inter> set ''/@?#'' = {}" using a t(3) by auto
  ultimately show ?thesis using a(2,7) by blast
qed

text \<open>
  a redirect URI that is accepted is, as text, an absolute URI with an authority in which no
  user part can hide, and unless its scheme is \<open>https\<close> that authority names the local host.
\<close>

theorem allowed_redirect_is_https_or_local:
  assumes "allowed_redirect_uri low v"
  shows "\<exists>sch auth rest h. v = sch @ ''://'' @ auth @ rest \<and> set auth \<inter> set ''/@?#'' = {}
    \<and> (rest = [] \<or> hd rest \<in> set ''/?#'') \<and> parse_host auth = Some h \<and> h \<noteq> []
    \<and> (to_lower id sch = ''https'' \<or> to_lower id sch = ''http''
         \<and> to_lower low (fst (split_host_port h)) \<in> {''localhost'', ''127.0.0.1'', ''::1''})"
proof -
  obtain u where u: "url_parse v = Some u" "u_host u \<noteq> []" "u_user u = None"
      "u_scheme u = ''https'' \<or> u_scheme u = ''http'' \<and> to_lower low (url_hostname u) \<in> {''localhost'', ''127.0.0.1'', ''::1''}"
    using assms by (auto simp: allowed_redirect_uri_def Let_def simp del: not_None_eq split: option.splits if_splits)
  then have "u_scheme u \<noteq> []" by auto
  from url_parse_authority [OF u(1,2) this u(3)] u(2,4) show ?thesis
    unfolding url_hostname_def by metis
qed

lemmas url_eval =
  allowed_redirect_uri_def canonical_resource_def url_parse_def parse_no_fragment_def parse_rest_def parse_authority_def
  parse_host_def cut_def cut_last_def set_path_def empty_url_def has_prefix_def has_suffix_def alnum_def in_range_def
  should_escape_def valid_optional_port_def split_host_port_def url_hostname_def to_lower_def runes_Cons_ascii
  lower_rune_def encode_runes_def encode_rune_def control_byte_def byte_def url_escape_def Let_def char_of_def bit_0
  trim_space_def segs_Cons_ascii is_space_def url_string_def hier_part_def escaped_path_def trim_right_chars_def

theorem allowed_redirect_is_https_or_local_witness:
  "allowed_redirect_uri id ''http://localhost:8080/cb'' \<and> parse_host ''localhost:8080'' = Some ''localhost:8080''"
proof -
  have ok: "allowed_redirect_uri id ''http://localhost:8080/cb''" by (simp add: url_eval)
  show ?thesis using allowed_redirect_is_https_or_local [OF ok] ok by (simp add: url_eval)
qed

section \<open>Resources and challenges\<close>

lemma same_resource_sym: "same_resource low a b = same_resource low b a"
  by (auto simp: same_resource_def split: option.splits)

lemma same_resource_trans: "same_resource low a b \<Longrightarrow> same_resource low b c \<Longrightarrow> same_resource low a c"
  by (auto simp: same_resource_def split: option.splits)

text \<open>
  \<open>CanonicalResource\<close> drops the query but not the question mark of an empty query: a resource
  URI that ends in \<open>?\<close> denotes another resource than the one without it, while every other query
  is ignored.
\<close>

theorem empty_query_changes_resource:
  "same_resource id ''https://h/mcp?a=1'' ''https://H/mcp'' \<and> \<not> same_resource id ''https://h/mcp?'' ''https://h/mcp''"
proof -
  have "canonical_resource id ''https://h/mcp?a=1'' = Some ''https://h/mcp''" by (simp add: url_eval)
  moreover have "canonical_resource id ''https://H/mcp'' = Some ''https://h/mcp''" by (simp add: url_eval)
  moreover have "canonical_resource id ''https://h/mcp?'' = Some ''https://h/mcp?''" by (simp add: url_eval)
  moreover have "canonical_resource id ''https://h/mcp'' = Some ''https://h/mcp''" by (simp add: url_eval)
  ultimately show ?thesis by (simp add: same_resource_def)
qed

text \<open>
  the challenge computed from a verifier, with a digest of 32 bytes, passes \<open>ValidChallenge\<close>.
\<close>

theorem pkce_challenge_is_valid:
  assumes "length (sha256 verifier) = 32"
  shows "valid_challenge (pkce_challenge sha256 verifier)"
  using assms by (simp add: valid_challenge_def pkce_challenge_def b64_encode_length b64_encode_decodes)

theorem pkce_challenge_is_valid_witness:
  "valid_challenge (pkce_challenge (\<lambda>s. replicate 32 (hd s)) ''verifier'')"
  by (rule pkce_challenge_is_valid) simp

text \<open>
  \<open>ValidChallenge\<close> also accepts challenges that contain a line break, which the base 64 decoder
  skips; no verifier answers such a challenge.
\<close>

theorem newline_challenge_cannot_be_met:
  "valid_challenge (replicate 42 CHR ''A'' @ [char_of (10 :: nat)])
   \<and> pkce_challenge sha256 verifier \<noteq> replicate 42 CHR ''A'' @ [char_of (10 :: nat)]"
proof -
  have "char_of (10 :: nat) \<notin> set b64_alphabet" using b64_alphabet_no_newline [of "char_of (10 :: nat)"] by auto
  moreover have "c \<in> set (pkce_challenge sha256 verifier) \<Longrightarrow> c \<in> set b64_alphabet" for c
    by (auto simp: pkce_challenge_def dest: b64_encode_mem)
  moreover have "CHR ''A'' \<in> set b64_alphabet" by (simp add: b64_alphabet_def)
  ultimately show ?thesis
    by (auto simp: valid_challenge_def b64_decodes_def Let_def list_all_iff byte_def)
qed

end
