(* ===== verification/ClientMetadata.thy ===== *)
theory ClientMetadata
  imports OAuthChecks
begin

text \<open>
  \<open>internal/auth/client_metadata.go\<close>: normalisation of client metadata, the address filter and
  the cache of the metadata resolver, and the matching of redirect URIs.  \<open>low\<close> and \<open>simple_fold\<close> are
  the tables of \<open>unicode.ToLower\<close> and of case folding above ASCII.
\<close>

section \<open>Normalisation\<close>

record client_metadata =
  cm_client_id :: string
  cm_client_name :: string
  cm_client_uri :: string
  cm_logo_uri :: string
  cm_redirect_uris :: "string list"
  cm_grant_types :: "string list"
  cm_response_types :: "string list"
  cm_auth_method :: string
  cm_auth_methods_supported :: "string list"
  cm_signing_alg :: string
  cm_jwks_uri :: string
  cm_application_type :: string
  cm_scope :: string

text \<open>\<open>Rejected\<close> is an error with its text, \<open>Panics\<close> a dereference of a nil pointer.\<close>

datatype metadata_error = Rejected string | Panics

abbreviation max_uri_bytes :: nat where "max_uri_bytes \<equiv> 2048"
abbreviation max_value_bytes :: nat where "max_value_bytes \<equiv> 128"

definition contains_string :: "string list \<Rightarrow> string \<Rightarrow> bool" where
  "contains_string vs target \<longleftrightarrow> list_ex (\<lambda>v. v = target) vs"

fun unique_loop :: "string list \<Rightarrow> string list \<Rightarrow> string list" where
  "unique_loop out [] = out"
| "unique_loop out (v # vs) =
    (let t = trim_space v in
     if t = [] then unique_loop out vs
     else if t \<in> set out then unique_loop out vs
     else unique_loop (out @ [t]) vs)"

definition unique_strings :: "string list \<Rightarrow> string list" where
  "unique_strings vs = unique_loop [] vs"

text \<open>The first violated bound, in the order of the checks.\<close>

definition over :: "nat \<Rightarrow> string \<Rightarrow> string \<Rightarrow> string option" where
  "over limit name v = (if limit < length v then Some (name @ '' exceeds '' @ digits limit @ '' bytes'') else None)"

fun first_some :: "'a option list \<Rightarrow> 'a option" where
  "first_some [] = None"
| "first_some (Some x # xs) = Some x"
| "first_some (None # xs) = first_some xs"

definition over_values :: "string \<Rightarrow> string list \<Rightarrow> string option" where
  "over_values name vs =
    (if 16 < length vs then Some (name @ '' exceeds '' @ digits 16 @ '' entries'')
     else first_some (map (\<lambda>v. if max_value_bytes < length v
       then Some (name @ '' contains a value longer than '' @ digits max_value_bytes @ '' bytes'') else None) vs))"

definition validate_bounds :: "client_metadata \<Rightarrow> string option" where
  "validate_bounds m = first_some
    [over max_uri_bytes ''client_id'' (cm_client_id m), over max_uri_bytes ''client_uri'' (cm_client_uri m),
     over max_uri_bytes ''logo_uri'' (cm_logo_uri m), over max_uri_bytes ''jwks_uri'' (cm_jwks_uri m),
     over 1024 ''client_name'' (cm_client_name m), over 4096 ''scope'' (cm_scope m),
     (if 32 < length (cm_redirect_uris m) then Some (''redirect_uris exceeds '' @ digits 32 @ '' entries'') else None),
     first_some (map (over max_uri_bytes ''redirect URI'') (cm_redirect_uris m)),
     over_values ''grant_types'' (cm_grant_types m), over_values ''response_types'' (cm_response_types m),
     over_values ''token_endpoint_auth_methods_supported'' (cm_auth_methods_supported m),
     over max_value_bytes ''token_endpoint_auth_method'' (cm_auth_method m),
     over max_value_bytes ''application_type'' (cm_application_type m),
     over max_value_bytes ''token_endpoint_auth_signing_alg'' (cm_signing_alg m)]"

text \<open>\<open>strconv.Atoi\<close> on a string of digits.\<close>

definition atoi_digits :: "string \<Rightarrow> int option" where
  "atoi_digits s =
    (if s \<noteq> [] \<and> list_all (in_range 48 57) s
     then let n = foldl (\<lambda>n c. n * 10 + int (byte c - 48)) 0 s in if n < 2 ^ 63 then Some n else None
     else None)"

definition parse_metadata_client_id :: "string \<Rightarrow> url option" where
  "parse_metadata_client_id client_id0 =
    (let client_id = trim_space client_id0 in
     if max_uri_bytes < length client_id then None
     else case url_parse client_id of
       None \<Rightarrow> None
     | Some u \<Rightarrow>
        if u_scheme u \<noteq> ''https'' \<or> u_host u = [] \<or> u_user u \<noteq> None \<or> u_fragment u \<noteq> [] then None
        else if u_path u = [] \<or> u_path u = ''/'' then None
        else if url_port u \<noteq> [] \<and> atoi_digits (url_port u) \<noteq> Some 443 then None
        else Some u)"

definition is_metadata_client_id :: "string \<Rightarrow> bool" where
  "is_metadata_client_id client_id \<longleftrightarrow> parse_metadata_client_id client_id \<noteq> None"

text \<open>The part of \<open>normalized\<close> that settles the authentication scheme.\<close>

definition auth_method_of :: "client_metadata \<Rightarrow> metadata_error + string" where
  "auth_method_of m =
    (if 0 < length (cm_auth_methods_supported m) then
       (let meth = (if cm_auth_method m = [] then
              (if contains_string (cm_auth_methods_supported m) ''none'' then ''none'' else [])
            else cm_auth_method m)
        in if \<not> contains_string (cm_auth_methods_supported m) meth
           then Inl (Rejected (''preferred token endpoint authentication m'' @ ''ethod is not supported''))
           else Inr meth)
     else Inr (if cm_auth_method m = [] then ''none'' else cm_auth_method m))"

definition check_private_key :: "(nat \<Rightarrow> nat) \<Rightarrow> client_metadata \<Rightarrow> metadata_error option" where
  "check_private_key simple_fold m =
    (if cm_signing_alg m \<noteq> ''RS256'' then Some (Rejected ''private_key_jwt requires RS256'')
     else case parse_metadata_client_id (cm_jwks_uri m) of
       None \<Rightarrow> Some (Rejected ''invalid jwks_uri'')
     | Some jwks \<Rightarrow>
        (case url_parse (cm_client_id m) of
           None \<Rightarrow> Some Panics
         | Some client \<Rightarrow>
            if \<not> equal_fold simple_fold (url_hostname jwks) (url_hostname client)
            then Some (Rejected ''jwks_uri must use the client metadata host'') else None))"

text \<open>The part of \<open>normalized\<close> after the authentication scheme.\<close>

definition or_default :: "string list \<Rightarrow> string list \<Rightarrow> string list" where
  "or_default vs defaults = (if length vs = 0 then defaults else vs)"

definition finish_metadata :: "client_metadata \<Rightarrow> metadata_error + client_metadata" where
  "finish_metadata m =
    (let grants = or_default (cm_grant_types m) [''authorization_code'', ''refresh_token''];
         responses = or_default (cm_response_types m) [''code'']
     in if \<not> contains_string grants ''authorization_code'' then Inl (Rejected ''grant_types must include authorization_code'')
        else case find (\<lambda>g. g \<noteq> ''authorization_code'' \<and> g \<noteq> ''refresh_token'') grants of
          Some g \<Rightarrow> Inl (Rejected (''unsupported grant_type: '' @ g))
        | None \<Rightarrow>
        if \<not> contains_string responses ''code'' then Inl (Rejected ''response_types must include code'')
        else case find (\<lambda>r. r \<noteq> ''code'') responses of
          Some r \<Rightarrow> Inl (Rejected (''unsupported response_type: '' @ r))
        | None \<Rightarrow>
        if cm_application_type m \<noteq> [] \<and> cm_application_type m \<noteq> ''native'' \<and> cm_application_type m \<noteq> ''web''
        then Inl (Rejected ''application_type must be native or web'')
        else Inr (m\<lparr>cm_grant_types := grants, cm_response_types := responses\<rparr>))"

definition trimmed_metadata :: "client_metadata \<Rightarrow> client_metadata" where
  "trimmed_metadata m = m\<lparr>cm_client_id := trim_space (cm_client_id m),
     cm_client_name := truncate_runes (trim_space (cm_client_name m)) 200,
     cm_auth_method := trim_space (cm_auth_method m),
     cm_auth_methods_supported := unique_strings (cm_auth_methods_supported m),
     cm_application_type := trim_space (cm_application_type m),
     cm_grant_types := unique_strings (cm_grant_types m),
     cm_response_types := unique_strings (cm_response_types m),
     cm_redirect_uris := unique_strings (cm_redirect_uris m)\<rparr>"

definition normalized_metadata ::
  "(nat \<Rightarrow> nat) \<Rightarrow> (nat \<Rightarrow> nat) \<Rightarrow> client_metadata \<Rightarrow> metadata_error + client_metadata" where
  "normalized_metadata low simple_fold m0 =
    (case validate_bounds m0 of
       Some what \<Rightarrow> Inl (Rejected what)
     | None \<Rightarrow>
        let m = trimmed_metadata m0 in
        if length (cm_redirect_uris m) = 0 then Inl (Rejected ''at least one redirect URI is required'')
        else case find (\<lambda>r. \<not> allowed_redirect_uri low r) (cm_redirect_uris m) of
          Some r \<Rightarrow> Inl (Rejected (''invalid redirect URI: '' @ r))
        | None \<Rightarrow>
        case auth_method_of m of
          Inl e \<Rightarrow> Inl e
        | Inr meth \<Rightarrow>
            if meth \<noteq> ''none'' \<and> meth \<noteq> ''private_key_jwt''
            then Inl (Rejected (''unsupported token_endpoint_auth_method: '' @ meth))
            else let m' = m\<lparr>cm_auth_method := meth\<rparr> in
              case (if meth = ''private_key_jwt'' then check_private_key simple_fold m' else None) of
                Some e \<Rightarrow> Inl e
              | None \<Rightarrow> finish_metadata m')"

section \<open>Addresses the resolver may connect to\<close>

text \<open>
  \<open>netip.Addr\<close> as its value and the length of its family; \<open>AddrFromSlice\<close> reads 4 or 16 bytes in
  network order and \<open>Unmap\<close> turns an IPv4-mapped IPv6 address into the IPv4 address.
\<close>

datatype ip_addr = IPv4 nat | IPv6 nat

definition bytes_value :: "string \<Rightarrow> nat" where
  "bytes_value bs = foldl (\<lambda>n c. n * 256 + byte c) 0 bs"

definition addr_from_slice :: "string \<Rightarrow> ip_addr option" where
  "addr_from_slice bs =
    (if length bs = 4 then Some (IPv4 (bytes_value bs))
     else if length bs = 16 then Some (IPv6 (bytes_value bs)) else None)"

fun unmap_addr :: "ip_addr \<Rightarrow> ip_addr" where
  "unmap_addr (IPv4 v) = IPv4 v"
| "unmap_addr (IPv6 v) = (if v div 2 ^ 32 = 65535 then IPv4 (v mod 2 ^ 32) else IPv6 v)"

fun prefix_contains :: "ip_addr \<times> nat \<Rightarrow> ip_addr \<Rightarrow> bool" where
  "prefix_contains (IPv4 p, n) (IPv4 v) \<longleftrightarrow> v div 2 ^ (32 - n) = p div 2 ^ (32 - n)"
| "prefix_contains (IPv6 p, n) (IPv6 v) \<longleftrightarrow> v div 2 ^ (128 - n) = p div 2 ^ (128 - n)"
| "prefix_contains (_, n) _ \<longleftrightarrow> False"

definition v4 :: "nat \<Rightarrow> nat \<Rightarrow> nat \<Rightarrow> nat \<Rightarrow> ip_addr" where
  "v4 a b c d = IPv4 (((a * 256 + b) * 256 + c) * 256 + d)"

text \<open>An IPv6 address by its first two 16-bit groups and the value of the other six.\<close>

definition v6 :: "nat \<Rightarrow> nat \<Rightarrow> nat \<Rightarrow> ip_addr" where
  "v6 g h rest = IPv6 ((g * 65536 + h) * 2 ^ 96 + rest)"

definition blocked_metadata_prefixes :: "(ip_addr \<times> nat) list" where
  "blocked_metadata_prefixes =
    [(v4 0 0 0 0, 8), (v4 10 0 0 0, 8), (v4 100 64 0 0, 10), (v4 127 0 0 0, 8), (v4 169 254 0 0, 16),
     (v4 172 16 0 0, 12), (v4 192 0 0 0, 24), (v4 192 0 2 0, 24), (v4 192 168 0 0, 16), (v4 198 18 0 0, 15),
     (v4 198 51 100 0, 24), (v4 203 0 113 0, 24), (v4 224 0 0 0, 4), (v4 240 0 0 0, 4),
     (v6 0 0 0, 128), (v6 0 0 1, 128), (v6 0xFC00 0 0, 7), (v6 0xFE80 0 0, 10), (v6 0xFF00 0 0, 8),
     (v6 0x2001 0xDB8 0, 32)]"

fun is_global_unicast :: "ip_addr \<Rightarrow> bool" where
  "is_global_unicast (IPv4 v) \<longleftrightarrow> v \<noteq> 0 \<and> v \<noteq> 2 ^ 32 - 1 \<and> v div 2 ^ 24 \<noteq> 127 \<and> v div 2 ^ 28 \<noteq> 14 \<and> v div 2 ^ 16 \<noteq> 43518"
| "is_global_unicast (IPv6 v) \<longleftrightarrow> v \<noteq> 0 \<and> v \<noteq> 1 \<and> v div 2 ^ 120 \<noteq> 255 \<and> v div 2 ^ 118 \<noteq> 1018"

definition public_metadata_ip :: "string \<Rightarrow> bool" where
  "public_metadata_ip ip =
    (case addr_from_slice ip of
       None \<Rightarrow> False
     | Some a \<Rightarrow>
        let address = unmap_addr a in
        if list_ex (\<lambda>p. prefix_contains p address) blocked_metadata_prefixes then False
        else is_global_unicast address)"

section \<open>The metadata cache\<close>

record 'c cache_entry =
  ce_client :: 'c
  ce_expires_at :: time
  ce_last_used :: time

definition entry_dead :: "time \<Rightarrow> 'c cache_entry \<Rightarrow> bool" where
  "entry_dead now e \<longleftrightarrow> \<not> now < ce_expires_at e"

definition prune_cache :: "time \<Rightarrow> (string, 'c cache_entry) gomap \<Rightarrow> (string, 'c cache_entry) gomap" where
  "prune_cache now m = gm_retain (\<lambda>_ e. \<not> entry_dead now e) m"

text \<open>The loop of \<open>evictOldestLocked\<close> over the map in some order; the empty key is \<open>nothing yet\<close>.\<close>

fun oldest_loop :: "string \<Rightarrow> time \<Rightarrow> (string \<times> 'c cache_entry) list \<Rightarrow> string" where
  "oldest_loop oldest_key oldest [] = oldest_key"
| "oldest_loop oldest_key oldest ((key, e) # es) =
    (if oldest_key = [] \<or> ce_last_used e < oldest \<or> (ce_last_used e = oldest \<and> key < oldest_key)
     then oldest_loop key (ce_last_used e) es else oldest_loop oldest_key oldest es)"

definition evict_oldest :: "(string, 'c cache_entry) gomap \<Rightarrow> (string, 'c cache_entry) gomap" where
  "evict_oldest m = (let k = oldest_loop [] zero_time m in if k \<noteq> [] then gm_del k m else m)"

text \<open>The two critical sections of \<open>Resolve\<close>: the lookup and the insertion of what was fetched.\<close>

definition cache_lookup :: "time \<Rightarrow> string \<Rightarrow> (string, 'c cache_entry) gomap \<Rightarrow> 'c option \<times> (string, 'c cache_entry) gomap" where
  "cache_lookup now client_id m0 =
    (let m = prune_cache now m0 in
     case gm_get m client_id of
       Some e \<Rightarrow> (Some (ce_client e), gm_put client_id (e\<lparr>ce_last_used := now\<rparr>) m)
     | None \<Rightarrow> (None, m))"

definition cache_insert :: "nat \<Rightarrow> duration \<Rightarrow> time \<Rightarrow> string \<Rightarrow> 'c \<Rightarrow> (string, 'c cache_entry) gomap \<Rightarrow> (string, 'c cache_entry) gomap" where
  "cache_insert max_entries ttl now client_id client m0 =
    (let m = prune_cache now m0;
         m' = (if max_entries \<le> length m then evict_oldest m else m)
     in gm_put client_id \<lparr>ce_client = client, ce_expires_at = now + ttl, ce_last_used = now\<rparr> m')"

section \<open>Matching redirect URIs\<close>

definition is_loopback_redirect_host :: "string \<Rightarrow> bool" where
  "is_loopback_redirect_host host \<longleftrightarrow> host = ''localhost'' \<or> host = ''127.0.0.1'' \<or> host = ''::1''"

definition loopback_redirect_matches :: "(nat \<Rightarrow> nat) \<Rightarrow> string \<Rightarrow> string \<Rightarrow> bool" where
  "loopback_redirect_matches low registered requested =
    (case (url_parse registered, url_parse requested) of
       (Some l, Some r) \<Rightarrow>
         if u_scheme l \<noteq> ''http'' \<or> u_scheme r \<noteq> ''http'' then False
         else if u_user l \<noteq> None \<or> u_user r \<noteq> None \<or> u_fragment l \<noteq> [] \<or> u_fragment r \<noteq> [] then False
         else if url_port l \<noteq> [] \<or> url_port r = [] then False
         else let lh = to_lower low (url_hostname l); rh = to_lower low (url_hostname r) in
           if \<not> is_loopback_redirect_host lh \<or> lh \<noteq> rh then False
           else escaped_path l = escaped_path r \<and> u_raw_query l = u_raw_query r
     | _ \<Rightarrow> False)"

definition redirect_uri_matches :: "(nat \<Rightarrow> nat) \<Rightarrow> string list \<Rightarrow> string \<Rightarrow> bool" where
  "redirect_uri_matches low registered requested \<longleftrightarrow>
     list_ex (\<lambda>c. c = requested \<or> loopback_redirect_matches low c requested) registered"

section \<open>What normalised metadata looks like\<close>

lemma unique_loop_spec:
  "distinct out \<Longrightarrow> distinct (unique_loop out vs) \<and> set (unique_loop out vs) = set out \<union> (trim_space ` set vs - {[]})"
proof (induction vs arbitrary: out)
  case (Cons v vs)
  then show ?case by (cases "trim_space v = []"; cases "trim_space v \<in> set out") (auto simp: Let_def)
qed simp

lemma unique_strings_distinct: "distinct (unique_strings vs)"
  using unique_loop_spec [of "[]" vs] by (simp add: unique_strings_def)

lemma unique_strings_set: "set (unique_strings vs) = trim_space ` set vs - {[]}"
  using unique_loop_spec [of "[]" vs] by (simp add: unique_strings_def)

lemma finish_metadata_ok:
  assumes "finish_metadata m = Inr m'"
  shows "cm_redirect_uris m' = cm_redirect_uris m \<and> cm_auth_method m' = cm_auth_method m
    \<and> ''authorization_code'' \<in> set (cm_grant_types m') \<and> set (cm_grant_types m') \<subseteq> {''authorization_code'', ''refresh_token''}
    \<and> set (cm_response_types m') = {''code''} \<and> cm_application_type m' \<in> {[], ''native'', ''web''}"
proof -
  let ?g = "or_default (cm_grant_types m) [''authorization_code'', ''refresh_token'']"
    and ?r = "or_default (cm_response_types m) [''code'']"
  have ok: "contains_string ?g ''authorization_code''" "contains_string ?r ''code''"
    "find (\<lambda>g. g \<noteq> ''authorization_code'' \<and> g \<noteq> ''refresh_token'') ?g = None" "find (\<lambda>r. r \<noteq> ''code'') ?r = None"
    "\<not> (cm_application_type m \<noteq> [] \<and> cm_application_type m \<noteq> ''native'' \<and> cm_application_type m \<noteq> ''web'')"
    "m' = m\<lparr>cm_grant_types := ?g, cm_response_types := ?r\<rparr>"
    using assms unfolding finish_metadata_def Let_def
    by (simp_all only: sum.simps not_False_eq_True option.simps split: if_splits option.splits)
  from ok(1-4) have "''authorization_code'' \<in> set ?g" "set ?g \<subseteq> {''authorization_code'', ''refresh_token''}" "set ?r = {''code''}"
    unfolding contains_string_def list_ex_iff find_None_iff by blast+
  moreover have "cm_application_type m \<in> {[], ''native'', ''web''}" using ok(5) by blast
  ultimately show ?thesis by (simp only: ok(6)) simp
qed

lemma normalized_metadata_cases:
  assumes "normalized_metadata low simple_fold m0 = Inr m'"
  shows "\<exists>meth. cm_redirect_uris (trimmed_metadata m0) \<noteq> []
    \<and> find (\<lambda>r. \<not> allowed_redirect_uri low r) (cm_redirect_uris (trimmed_metadata m0)) = None
    \<and> (meth = ''none'' \<or> meth = ''private_key_jwt''
          \<and> check_private_key simple_fold (trimmed_metadata m0\<lparr>cm_auth_method := meth\<rparr>) = None)
    \<and> finish_metadata (trimmed_metadata m0\<lparr>cm_auth_method := meth\<rparr>) = Inr m'"
  using assms
  by (auto simp: normalized_metadata_def Let_def split: option.splits sum.splits if_splits)

text \<open>
  C36: metadata that \<open>normalized\<close> accepts has at least one redirect URI, each of them once and each
  allowed; its grants are \<open>authorization_code\<close> and possibly \<open>refresh_token\<close>, its only response
  type is \<open>code\<close>, and its authentication scheme is one the server implements.
\<close>

theorem normalized_metadata_is_safe:
  assumes "normalized_metadata low simple_fold m0 = Inr m"
  shows "cm_redirect_uris m \<noteq> [] \<and> distinct (cm_redirect_uris m) \<and> list_all (allowed_redirect_uri low) (cm_redirect_uris m)
    \<and> ''authorization_code'' \<in> set (cm_grant_types m) \<and> set (cm_grant_types m) \<subseteq> {''authorization_code'', ''refresh_token''}
    \<and> set (cm_response_types m) = {''code''} \<and> cm_auth_method m \<in> {''none'', ''private_key_jwt''}
    \<and> (cm_auth_method m = ''private_key_jwt'' \<longrightarrow> cm_signing_alg m = ''RS256'')"
proof -
  obtain meth where m: "cm_redirect_uris (trimmed_metadata m0) \<noteq> []"
      "find (\<lambda>r. \<not> allowed_redirect_uri low r) (cm_redirect_uris (trimmed_metadata m0)) = None"
      "meth = ''none'' \<or> meth = ''private_key_jwt''
          \<and> check_private_key simple_fold (trimmed_metadata m0\<lparr>cm_auth_method := meth\<rparr>) = None"
      "finish_metadata (trimmed_metadata m0\<lparr>cm_auth_method := meth\<rparr>) = Inr m"
    using normalized_metadata_cases [OF assms] by blast
  have "cm_signing_alg m = cm_signing_alg (trimmed_metadata m0)"
    using m(4) by (auto simp: finish_metadata_def Let_def split: if_splits option.splits)
  moreover have "meth = ''private_key_jwt'' \<longrightarrow> cm_signing_alg (trimmed_metadata m0) = ''RS256''"
    using m(3) by (auto simp: check_private_key_def split: if_splits option.splits)
  moreover have "distinct (cm_redirect_uris (trimmed_metadata m0))"
    by (simp add: trimmed_metadata_def unique_strings_distinct)
  moreover have "list_all (allowed_redirect_uri low) (cm_redirect_uris (trimmed_metadata m0))"
    using m(2) by (simp add: list_all_iff find_None_iff)
  moreover have "meth \<in> {''none'', ''private_key_jwt''}" using m(3) by blast
  moreover note finish_metadata_ok [OF m(4)]
  ultimately show ?thesis using m(1) by simp
qed

definition example_metadata :: client_metadata where
  "example_metadata =
    \<lparr>cm_client_id = [], cm_client_name = ''C'', cm_client_uri = [], cm_logo_uri = [],
     cm_redirect_uris = [''https://h/cb''], cm_grant_types = [], cm_response_types = [], cm_auth_method = [],
     cm_auth_methods_supported = [], cm_signing_alg = [], cm_jwks_uri = [], cm_application_type = [], cm_scope = []\<rparr>"

lemmas metadata_eval =
  normalized_metadata_def validate_bounds_def over_def over_values_def trimmed_metadata_def unique_strings_def
  auth_method_of_def check_private_key_def finish_metadata_def or_default_def contains_string_def truncate_runes_def
  parse_metadata_client_id_def url_port_def equal_fold_def

lemma example_metadata_ok:
  "normalized_metadata id id example_metadata = Inr (example_metadata\<lparr>cm_auth_method := ''none'',
     cm_grant_types := [''authorization_code'', ''refresh_token''], cm_response_types := [''code'']\<rparr>)"
  by (simp add: example_metadata_def metadata_eval url_eval)

theorem normalized_metadata_is_safe_witness:
  "allowed_redirect_uri id ''https://h/cb''"
  using normalized_metadata_is_safe [OF example_metadata_ok] by (simp add: example_metadata_def)

text \<open>
  a registration that asks for \<open>private_key_jwt\<close> with a client identifier that is no URL makes
  \<open>normalized\<close> dereference a nil pointer: the error of \<open>url.Parse\<close> on the identifier is ignored.
\<close>

theorem private_key_registration_panics:
  "normalized_metadata id id (example_metadata\<lparr>cm_client_id := ''%'', cm_auth_method := ''private_key_jwt'',
     cm_signing_alg := ''RS256'', cm_jwks_uri := ''https://h/k''\<rparr>) = Inl Panics"
  by (simp add: example_metadata_def metadata_eval url_eval)

section \<open>Which addresses pass the filter\<close>

lemma div_split: "r < m \<Longrightarrow> (q * m + r) div m = q" for q m r :: nat
  by simp

lemma v4_div:
  fixes a b c d :: nat
  assumes "a < 256" and "b < 256" and "c < 256" and "d < 256"
  defines "v \<equiv> ((a * 256 + b) * 256 + c) * 256 + d"
  shows "v div 16777216 = a" and "v div 65536 = a * 256 + b" and "v div 256 = (a * 256 + b) * 256 + c"
    and "v div 4194304 = a * 4 + b div 64" and "v div 1048576 = a * 16 + b div 16" and "v div 131072 = a * 128 + b div 2"
    and "v div 268435456 = a div 16" and "v < 4294967296"
proof -
  have low: "c * 256 + d < 65536" using assms(3,4) by simp
  show "v div 256 = (a * 256 + b) * 256 + c" using assms(4) by (simp add: v_def)
  have v16: "v = (a * 256 + b) * 65536 + (c * 256 + d)" by (simp add: v_def)
  then show "v div 65536 = a * 256 + b" using low by (simp add: div_split)
  have "v = a * 16777216 + (b * 65536 + (c * 256 + d))" by (simp add: v_def)
  then show v24: "v div 16777216 = a" using low assms(2) by (simp add: div_split)
  have b: "v div (m * 65536) = a * n + b div m" if mn: "m * n = 256" "0 < m" for m n
  proof -
    obtain q r where q: "b = q * m + r" "r < m" using mn(2) by (metis div_mod_decomp mod_less_divisor)
    have "v = (a * (m * n) + b) * 65536 + (c * 256 + d)" using v16 mn(1) by simp
    also have "\<dots> = (a * n + q) * (m * 65536) + (r * 65536 + (c * 256 + d))"
      by (simp add: q(1) algebra_simps)
    finally have "v = (a * n + q) * (m * 65536) + (r * 65536 + (c * 256 + d))" .
    moreover have "r * 65536 + (c * 256 + d) < m * 65536"
    proof -
      have "r * 65536 + (c * 256 + d) < (r + 1) * 65536" using low by simp
      also have "\<dots> \<le> m * 65536" using q(2) by (intro mult_le_mono1) simp
      finally show ?thesis .
    qed
    ultimately show ?thesis using q by (simp only: div_split)
  qed
  show "v div 4194304 = a * 4 + b div 64" "v div 1048576 = a * 16 + b div 16" "v div 131072 = a * 128 + b div 2"
    using b [of 64 4] b [of 16 16] b [of 2 128] by simp_all
  have "v div 268435456 = v div 16777216 div 16" by (simp add: div_mult2_eq [symmetric])
  with v24 show "v div 268435456 = a div 16" by simp
  show "v < 4294967296" using assms by (simp add: v_def)
qed

definition v4_bytes :: "nat \<Rightarrow> nat \<Rightarrow> nat \<Rightarrow> nat \<Rightarrow> string" where
  "v4_bytes a b c d = map char_of [a, b, c, d]"

definition mapped_bytes :: "nat \<Rightarrow> nat \<Rightarrow> nat \<Rightarrow> nat \<Rightarrow> string" where
  "mapped_bytes a b c d = map char_of ([0, 0, 0, 0, 0, 0, 0, 0, 0, 0, 255, 255, a, b, c, d] :: nat list)"

text \<open>The IPv4 addresses that are not blocked, by their octets.\<close>

definition public_v4 :: "nat \<Rightarrow> nat \<Rightarrow> nat \<Rightarrow> nat \<Rightarrow> bool" where
  "public_v4 a b c d \<longleftrightarrow> a \<noteq> 0 \<and> a \<noteq> 10 \<and> a \<noteq> 127 \<and> a < 224
     \<and> \<not> (a = 100 \<and> 64 \<le> b \<and> b < 128) \<and> \<not> (a = 169 \<and> b = 254) \<and> \<not> (a = 172 \<and> 16 \<le> b \<and> b < 32)
     \<and> \<not> (a = 192 \<and> b = 0 \<and> (c = 0 \<or> c = 2)) \<and> \<not> (a = 192 \<and> b = 168) \<and> \<not> (a = 198 \<and> 18 \<le> b \<and> b < 20)
     \<and> \<not> (a = 198 \<and> b = 51 \<and> c = 100) \<and> \<not> (a = 203 \<and> b = 0 \<and> c = 113)"

lemma addr_of_mapped:
  assumes "a < 256" and "b < 256" and "c < 256" and "d < 256"
  shows "map_option unmap_addr (addr_from_slice (mapped_bytes a b c d)) = Some (v4 a b c d)"
proof -
  let ?v = "((a * 256 + b) * 256 + c) * 256 + d"
  have "bytes_value (mapped_bytes a b c d) = 65535 * 2 ^ 32 + ?v"
    using assms by (simp add: bytes_value_def mapped_bytes_def)
  moreover have "?v < 2 ^ 32" using v4_div(8) [OF assms] by simp
  moreover have "(65535 * 2 ^ 32 + ?v) div 2 ^ 32 = 65535" "(65535 * 2 ^ 32 + ?v) mod 2 ^ 32 = ?v"
    using \<open>?v < 2 ^ 32\<close> by (simp_all only: div_split mod_mult_self3 mod_less)
  moreover have "length (mapped_bytes a b c d) = 16" by (simp add: mapped_bytes_def)
  ultimately show ?thesis by (simp only: addr_from_slice_def v4_def) simp
qed

lemma base_eq:
  fixes a b m p q :: nat
  assumes "b < m" and "q < m"
  shows "a * m + b = p * m + q \<longleftrightarrow> a = p \<and> b = q"
proof
  assume eq: "a * m + b = p * m + q"
  then have "(a * m + b) div m = (p * m + q) div m" by simp
  then have "a = p" by (simp only: div_split [OF assms(1)] div_split [OF assms(2)])
  with eq show "a = p \<and> b = q" by simp
qed simp

lemma div_eq_iff: "0 < m \<Longrightarrow> b div m = k \<longleftrightarrow> k * m \<le> b \<and> b < Suc k * m" for b k m :: nat
  by (metis div_nat_eqI less_eq_div_iff_mult_less_eq mult.commute dividend_less_div_times
      add.commute mult_Suc order_refl)

lemma public_addr_v4:
  assumes "a < 256" and "b < 256" and "c < 256" and "d < 256"
  shows "(\<not> list_ex (\<lambda>p. prefix_contains p (v4 a b c d)) blocked_metadata_prefixes \<and> is_global_unicast (v4 a b c d))
    \<longleftrightarrow> public_v4 a b c d"
proof -
  define v where "v = ((a * 256 + b) * 256 + c) * 256 + d"
  have addr: "v4 a b c d = IPv4 v" by (simp add: v4_def v_def)
  note d = v4_div [OF assms, folded v_def]
  have n8: "prefix_contains (v4 p 0 0 0, 8) (IPv4 v) \<longleftrightarrow> a = p" for p by (simp add: v4_def d(1))
  have n4: "prefix_contains (v4 p 0 0 0, 4) (IPv4 v) \<longleftrightarrow> a div 16 = p div 16" for p by (simp add: v4_def d(7))
  have n16: "prefix_contains (v4 p q 0 0, 16) (IPv4 v) \<longleftrightarrow> a = p \<and> b = q" if "q < 256" for p q
  proof -
    have "prefix_contains (v4 p q 0 0, 16) (IPv4 v) \<longleftrightarrow> a * 256 + b = p * 256 + q" by (simp add: v4_def d(2) mult.commute [of p])
    also have "\<dots> \<longleftrightarrow> a = p \<and> b = q" by (rule base_eq [OF assms(2) that])
    finally show ?thesis .
  qed
  have n24: "prefix_contains (v4 p q r 0, 24) (IPv4 v) \<longleftrightarrow> a = p \<and> b = q \<and> c = r" if "q < 256" "r < 256" for p q r
  proof -
    have "prefix_contains (v4 p q r 0, 24) (IPv4 v) \<longleftrightarrow> (a * 256 + b) * 256 + c = (p * 256 + q) * 256 + r"
      by (simp add: v4_def d(3) mult.commute [of p] mult.commute [of q])
    also have "\<dots> \<longleftrightarrow> a = p \<and> b = q \<and> c = r" using assms(2,3) that by (simp only: base_eq) blast
    finally show ?thesis .
  qed
  have high: "b div 64 < 4" "b div 16 < 16" "b div 2 < 128" using assms(2) by simp_all
  have "prefix_contains (v4 100 64 0 0, 10) (IPv4 v) \<longleftrightarrow> a * 4 + b div 64 = 100 * 4 + 1" by (simp add: v4_def d(4))
  also have "\<dots> \<longleftrightarrow> a = 100 \<and> 64 \<le> b \<and> b < 128" using high by (subst base_eq) (simp_all add: div_eq_iff)
  finally have p100: "prefix_contains (v4 100 64 0 0, 10) (IPv4 v) \<longleftrightarrow> a = 100 \<and> 64 \<le> b \<and> b < 128" .
  have "prefix_contains (v4 172 16 0 0, 12) (IPv4 v) \<longleftrightarrow> a * 16 + b div 16 = 172 * 16 + 1" by (simp add: v4_def d(5))
  also have "\<dots> \<longleftrightarrow> a = 172 \<and> 16 \<le> b \<and> b < 32" using high by (subst base_eq) (simp_all add: div_eq_iff)
  finally have p172: "prefix_contains (v4 172 16 0 0, 12) (IPv4 v) \<longleftrightarrow> a = 172 \<and> 16 \<le> b \<and> b < 32" .
  have "prefix_contains (v4 198 18 0 0, 15) (IPv4 v) \<longleftrightarrow> a * 128 + b div 2 = 198 * 128 + 9" by (simp add: v4_def d(6))
  also have "\<dots> \<longleftrightarrow> a = 198 \<and> 18 \<le> b \<and> b < 20" using high by (subst base_eq) (simp_all add: div_eq_iff)
  finally have p198: "prefix_contains (v4 198 18 0 0, 15) (IPv4 v) \<longleftrightarrow> a = 198 \<and> 18 \<le> b \<and> b < 20" .
  have v6: "\<not> prefix_contains (v6 g h r, n) (IPv4 v)" for g h r n by (simp add: v6_def)
  have ex: "list_ex (\<lambda>p. prefix_contains p (IPv4 v)) blocked_metadata_prefixes \<longleftrightarrow>
    a = 0 \<or> a = 10 \<or> (a = 100 \<and> 64 \<le> b \<and> b < 128) \<or> a = 127 \<or> (a = 169 \<and> b = 254) \<or> (a = 172 \<and> 16 \<le> b \<and> b < 32)
    \<or> (a = 192 \<and> b = 0 \<and> c = 0) \<or> (a = 192 \<and> b = 0 \<and> c = 2) \<or> (a = 192 \<and> b = 168) \<or> (a = 198 \<and> 18 \<le> b \<and> b < 20)
    \<or> (a = 198 \<and> b = 51 \<and> c = 100) \<or> (a = 203 \<and> b = 0 \<and> c = 113) \<or> a div 16 = 14 \<or> a div 16 = 15"
    unfolding blocked_metadata_prefixes_def n8 p100 p172 p198 n4
    by (simp add: n8 p100 p172 p198 n4 n16 n24 v6)
  have big: "a div 16 = 14 \<or> a div 16 = 15 \<longleftrightarrow> \<not> a < 224" using assms(1) by (auto simp: div_eq_iff)
  have "v div 65536 \<noteq> 43518 \<longleftrightarrow> a * 256 + b \<noteq> 169 * 256 + 254" by (simp add: d(2))
  also have "\<dots> \<longleftrightarrow> \<not> (a = 169 \<and> b = 254)" using base_eq [OF assms(2), of 254 a 169] by simp
  finally have local: "v div 65536 \<noteq> 43518 \<longleftrightarrow> \<not> (a = 169 \<and> b = 254)" .
  have uni: "is_global_unicast (IPv4 v) \<longleftrightarrow> v \<noteq> 0 \<and> v \<noteq> 4294967295 \<and> a \<noteq> 127 \<and> a div 16 \<noteq> 14 \<and> \<not> (a = 169 \<and> b = 254)"
    using local by (simp add: d(1,7))
  have "v = 0 \<Longrightarrow> a = 0" "v = 4294967295 \<Longrightarrow> a = 255" using d(1) by auto
  then have ends: "v = 0 \<Longrightarrow> a = 0" "v = 4294967295 \<Longrightarrow> \<not> a < 224" by simp_all
  show ?thesis
  proof (cases "a < 224")
    case True
    with big ends have n: "a div 16 \<noteq> 14" "a div 16 \<noteq> 15" "v \<noteq> 4294967295" by auto
    show ?thesis
    proof (cases "v = 0")
      case True
      with ends(1) have "a = 0" by simp
      then show ?thesis unfolding addr ex uni public_v4_def by simp
    next
      case False
      with n True show ?thesis unfolding addr ex uni public_v4_def by (simp add: conj_disj_distribL) argo
    qed
  next
    case False
    with big have "a div 16 = 14 \<or> a div 16 = 15" by simp
    with False show ?thesis unfolding addr ex uni public_v4_def by auto
  qed
qed
text \<open>
  of the IPv4 addresses, in plain form or mapped into IPv6, the resolver connects exactly to
  those outside the blocked ranges: no loopback, private, link-local, shared, documentation,
  benchmarking, multicast or reserved address passes.
\<close>

theorem public_metadata_ip_v4_iff:
  assumes "a < 256" and "b < 256" and "c < 256" and "d < 256"
  shows "public_metadata_ip (v4_bytes a b c d) = public_v4 a b c d
    \<and> public_metadata_ip (mapped_bytes a b c d) = public_v4 a b c d"
proof -
  have "addr_from_slice (v4_bytes a b c d) = Some (v4 a b c d)"
    using assms by (simp add: addr_from_slice_def v4_bytes_def v4_def bytes_value_def)
  moreover have "unmap_addr (v4 a b c d) = v4 a b c d" by (simp add: v4_def)
  moreover obtain x where "addr_from_slice (mapped_bytes a b c d) = Some x" "unmap_addr x = v4 a b c d"
    using addr_of_mapped [OF assms] by auto
  ultimately show ?thesis
    unfolding public_metadata_ip_def by (simp add: Let_def public_addr_v4 [OF assms, symmetric])
qed

theorem public_metadata_ip_v4_iff_witness:
  "\<not> public_metadata_ip (mapped_bytes 10 0 0 1) \<and> public_metadata_ip (v4_bytes 8 8 8 8)"
  using public_metadata_ip_v4_iff [of 10 0 0 1] public_metadata_ip_v4_iff [of 8 8 8 8] by (simp add: public_v4_def)

section \<open>The cache stays small\<close>

lemma oldest_loop_mem:
  "k \<noteq> [] \<Longrightarrow> oldest_loop k t es \<in> insert k (fst ` set es) - {[]} \<or> (\<exists>e. ([], e) \<in> set es)"
proof (induction es arbitrary: k t)
  case (Cons p es)
  obtain key e where p: "p = (key, e)" by fastforce
  show ?case
  proof (cases "key = []")
    case True
    then show ?thesis using p by auto
  next
    case False
    from Cons.IH [OF Cons.prems] Cons.IH [OF False] show ?thesis unfolding p by (auto split: if_splits)
  qed
qed simp

lemma evict_oldest_less:
  assumes "m \<noteq> []" and "[] \<notin> fst ` set m"
  shows "length (evict_oldest m) < length m"
proof -
  obtain k e es where m: "m = (k, e) # es" using assms(1) by (cases m) auto
  let ?k = "oldest_loop [] zero_time m"
  have "?k = oldest_loop k (ce_last_used e) es" by (simp add: m)
  moreover have "k \<noteq> []" using assms(2) m by auto
  ultimately have "?k \<in> fst ` set m - {[]}" using oldest_loop_mem [of k "ce_last_used e" es] assms(2) m by force
  then have "?k \<noteq> []" "gm_get m ?k \<noteq> None" by (auto simp: map_of_eq_None_iff)
  then show ?thesis by (simp add: evict_oldest_def Let_def gm_length_del_less)
qed

datatype 'c cache_call = CacheLookup time string | CacheInsert time string 'c

fun cache_step :: "nat \<Rightarrow> duration \<Rightarrow> (string, 'c cache_entry) gomap \<Rightarrow> 'c cache_call \<Rightarrow> (string, 'c cache_entry) gomap" where
  "cache_step cap ttl m (CacheLookup now k) = snd (cache_lookup now k m)"
| "cache_step cap ttl m (CacheInsert now k c) = cache_insert cap ttl now k c m"

fun cache_call_ok :: "(string, 'c cache_entry) gomap \<Rightarrow> 'c cache_call \<Rightarrow> bool" where
  "cache_call_ok m (CacheLookup now k) \<longleftrightarrow> True"
| "cache_call_ok m (CacheInsert now k c) \<longleftrightarrow> is_metadata_client_id k"

definition cache_inv :: "nat \<Rightarrow> (string, 'c cache_entry) gomap \<Rightarrow> bool" where
  "cache_inv cap m \<longleftrightarrow> gm_ok m \<and> length m \<le> cap \<and> 0 < cap \<and> gm_get m [] = None"

interpretation entries: expiring_map gm_get gm_put gm_del length gm_ok entry_dead prune_cache
  by unfold_locales
     (auto simp: prune_cache_def entry_dead_def gomap_simps gm_length_retain_le split: option.splits)

lemma metadata_id_nonempty: "is_metadata_client_id k \<Longrightarrow> k \<noteq> []"
  by (auto simp: is_metadata_client_id_def parse_metadata_client_id_def url_eval split: if_splits)

lemma prune_cache_inv: "cache_inv cap m \<Longrightarrow> cache_inv cap (prune_cache now m)"
  using entries.card_prune_le [of now m] by (auto simp: cache_inv_def entries.get_prune entries.ok_prune)

lemma cache_step_inv: "cache_inv cap m \<Longrightarrow> cache_call_ok m c \<Longrightarrow> cache_inv cap (cache_step cap ttl m c)"
proof (cases c)
  case (CacheLookup now k)
  assume "cache_inv cap m"
  note inv = prune_cache_inv [OF this, of now]
  show ?thesis
  proof (cases "gm_get (prune_cache now m) k")
    case None
    with inv CacheLookup show ?thesis by (simp add: cache_lookup_def)
  next
    case (Some e)
    then have "k \<noteq> []" using inv by (auto simp: cache_inv_def)
    with inv Some CacheLookup show ?thesis by (simp add: cache_lookup_def cache_inv_def gomap_simps)
  qed
next
  case (CacheInsert now k x)
  assume "cache_inv cap m" and ok: "cache_call_ok m c"
  let ?m = "prune_cache now m" let ?e = "if cap \<le> length ?m then evict_oldest ?m else ?m"
  have inv: "cache_inv cap ?m" by (rule prune_cache_inv) fact
  then have nil: "[] \<notin> fst ` set ?m" by (simp add: cache_inv_def map_of_eq_None_iff)
  have len: "length ?e < cap"
  proof (cases "cap \<le> length ?m")
    case True
    then have "?m \<noteq> []" using inv by (auto simp: cache_inv_def)
    from evict_oldest_less [OF this nil] True inv show ?thesis by (simp add: cache_inv_def)
  qed simp
  have ok_e: "gm_ok ?e" "gm_get ?e [] = None"
    using inv by (auto simp: cache_inv_def evict_oldest_def Let_def gomap_simps)
  have "k \<noteq> []" using ok CacheInsert metadata_id_nonempty by auto
  then show ?thesis using len ok_e inv CacheInsert le_trans [OF gm_length_put_le, of ?e cap]
    by (simp add: cache_inv_def cache_insert_def Let_def gomap_simps)
qed

interpretation metadata_cache: capped_machine "cache_step cap ttl" cache_call_ok "cache_inv cap" length "\<lambda>_. cap" for cap ttl
proof unfold_locales
  show "length s \<le> cap" if "cache_inv cap s" for s :: "(string, 'a cache_entry) gomap"
    using that by (simp add: cache_inv_def)
qed (auto intro: cache_step_inv)

text \<open>Where the entries of the cache come from.\<close>

definition cache_from :: "duration \<Rightarrow> 'c cache_call list \<Rightarrow> (string, 'c cache_entry) gomap \<Rightarrow> bool" where
  "cache_from ttl es m \<longleftrightarrow> gm_ok m \<and> (\<forall>k e. gm_get m k = Some e \<longrightarrow>
     (\<exists>t. CacheInsert t k (ce_client e) \<in> set es \<and> ce_expires_at e = t + ttl))"

lemma cache_from_step:
  assumes "cache_from ttl es m"
  shows "cache_from ttl (es @ [c]) (cache_step cap ttl m c)"
proof -
  have pr: "cache_from ttl es (prune_cache now m)" for now
    using assms entries.prune_live [of m now] by (auto simp: cache_from_def entries.ok_prune)
  show ?thesis
  proof (cases c)
    case (CacheLookup now k)
    with pr [of now] show ?thesis
      by (auto simp: cache_from_def cache_lookup_def Let_def gomap_simps split: option.splits if_splits)
  next
    case (CacheInsert now k x)
    have "cache_from ttl es (if cap \<le> length (prune_cache now m) then evict_oldest (prune_cache now m) else prune_cache now m)"
      using pr [of now] by (auto simp: cache_from_def evict_oldest_def Let_def gomap_simps split: if_splits)
    with CacheInsert show ?thesis
      by (auto simp: cache_from_def cache_insert_def Let_def gomap_simps)
  qed
qed

lemma cache_from_run: "cache_from ttl es m \<Longrightarrow> cache_from ttl (es @ cs) (run_calls (cache_step cap ttl) m cs)"
proof (induction cs arbitrary: es m)
  case (Cons c cs)
  from Cons.IH [OF cache_from_step [OF Cons.prems, of c cap]] show ?case by simp
qed simp

text \<open>
  whatever sequence of lookups and insertions the resolver performs, its cache never holds more
  than the configured number of entries, and a client it answers from the cache was fetched for that
  very identifier less than the lifetime ago.
\<close>

theorem metadata_cache_bounded_and_fresh:
  assumes "calls_ok cache_call_ok (cache_step cap ttl) [] es" and "0 < cap"
    and "fst (cache_lookup now k (run_calls (cache_step cap ttl) [] es)) = Some c"
  shows "length (run_calls (cache_step cap ttl) [] es) \<le> cap \<and> (\<exists>t. CacheInsert t k c \<in> set es \<and> now < t + ttl)"
proof -
  let ?m = "run_calls (cache_step cap ttl) [] es"
  have "cache_inv cap []" using assms(2) by (simp add: cache_inv_def)
  then have "length ?m \<le> cap" by (rule metadata_cache.run_load [OF _ assms(1)])
  moreover have from_es: "cache_from ttl es ?m" using cache_from_run [of ttl "[]" "[]" es cap] by (simp add: cache_from_def)
  then have ok: "gm_ok ?m" by (simp add: cache_from_def)
  moreover obtain e where e: "gm_get (prune_cache now ?m) k = Some e" "ce_client e = c"
    using assms(3) by (auto simp: cache_lookup_def Let_def split: option.splits)
  from entries.prune_live [OF ok e(1)] from_es e(2)
  have "\<exists>t. CacheInsert t k c \<in> set es \<and> now < t + ttl" unfolding cache_from_def entry_dead_def by metis
  ultimately show ?thesis by blast
qed

theorem metadata_cache_bounded_and_fresh_witness:
  "length (run_calls (cache_step 1 minute) [] [CacheInsert 5 ''https://h/a'' (1 :: int), CacheInsert 6 ''https://h/b'' 2]) \<le> 1"
proof -
  have id: "is_metadata_client_id ''https://h/a''" "is_metadata_client_id ''https://h/b''"
    by (simp_all add: is_metadata_client_id_def metadata_eval url_eval)
  have "fst (cache_lookup 7 ''https://h/b'' (run_calls (cache_step 1 minute) [] [CacheInsert 5 ''https://h/a'' (1 :: int), CacheInsert 6 ''https://h/b'' 2])) = Some 2"
    by (simp add: cache_lookup_def cache_insert_def prune_cache_def gm_retain_def entry_dead_def evict_oldest_def Let_def)
  from metadata_cache_bounded_and_fresh [OF _ _ this] id show ?thesis by simp
qed

section \<open>Matching keeps to allowed URIs\<close>

text \<open>
  a redirect URI that matches a list of allowed registered URIs is itself allowed: the exception
  for the port of a loopback callback never admits another host, a user part or a fragment.
\<close>

theorem matched_redirect_is_allowed:
  assumes "redirect_uri_matches low registered requested" and "list_all (allowed_redirect_uri low) registered"
  shows "allowed_redirect_uri low requested"
proof -
  obtain c where c: "c \<in> set registered" "c = requested \<or> loopback_redirect_matches low c requested"
    using assms(1) by (auto simp: redirect_uri_matches_def list_ex_iff)
  show ?thesis
  proof (cases "c = requested")
    case True
    with c(1) assms(2) show ?thesis by (simp add: list_all_iff)
  next
    case False
    with c(2) have lm: "loopback_redirect_matches low c requested" by simp
    obtain l r where lr: "url_parse c = Some l" "url_parse requested = Some r"
      using lm by (auto simp: loopback_redirect_matches_def split: option.splits)
    with lm have r: "u_scheme r = ''http''" "u_user r = None" "u_fragment r = []" "url_port r \<noteq> []"
        "is_loopback_redirect_host (to_lower low (url_hostname r))"
      by (auto simp: loopback_redirect_matches_def Let_def simp del: not_None_eq split: if_splits)
    have "u_host r \<noteq> []" using r(4) by (auto simp: url_port_def split_host_port_def cut_last_def)
    with lr r show ?thesis by (auto simp: allowed_redirect_uri_def is_loopback_redirect_host_def Let_def)
  qed
qed

theorem matched_redirect_is_allowed_witness:
  "allowed_redirect_uri id ''http://localhost:4711/cb''"
proof (rule matched_redirect_is_allowed)
  show "redirect_uri_matches id [''http://localhost/cb''] ''http://localhost:4711/cb''"
    by (simp add: redirect_uri_matches_def loopback_redirect_matches_def is_loopback_redirect_host_def url_port_def url_eval)
  show "list_all (allowed_redirect_uri id) [''http://localhost/cb'']" by (simp add: url_eval)
qed

text \<open>
  the filter lets two kinds of IPv6 addresses pass that are reserved or reach private hosts: the
  discard-only block 100::/64 and the IPv4 address 10.0.0.1 behind the translation prefix 64:ff9b::/96.
\<close>

theorem filter_admits_translated_private_address:
  "public_metadata_ip (map char_of ([0, 0x64, 0xFF, 0x9B, 0, 0, 0, 0, 0, 0, 0, 0, 10, 0, 0, 1] :: nat list))
   \<and> public_metadata_ip (map char_of ([1, 0, 0, 0, 0, 0, 0, 0, 0, 0, 0, 0, 0, 0, 0, 1] :: nat list))"
  by (simp add: public_metadata_ip_def addr_from_slice_def bytes_value_def blocked_metadata_prefixes_def v4_def v6_def)

end
