(* ===== verification/AuthStore.thy ===== *)
theory AuthStore
  imports ClientMetadata "HOL-Library.Product_Lexorder"
begin

text \<open>
  \<open>internal/auth/store.go\<close>: the store of OAuth clients, authorization codes, tokens and refresh
  tombstones.  Each method holds the mutex, so it is one state transformer.  Its environment:

  \<^item> \<open>clk i\<close>: what the i-th call site of \<open>s.now()\<close> reads, in program order with calls inlined;
  \<^item> random draws as \<open>string option\<close>: the bytes, or a failure of \<open>crypto/rand\<close>;
  \<^item> \<open>err\<close>: the error of \<open>WriteFileAtomic\<close>, which leaves the old file in place;
  \<^item> \<open>auth_lib\<close>: SHA-256, the length of the JSON text of a state, the Unicode tables.
\<close>

section \<open>State\<close>

record auth_client =
  ac_id :: string
  ac_name :: string
  ac_redirect_uris :: "string list"
  ac_auth_method :: string
  ac_grant_types :: "string list"
  ac_response_types :: "string list"
  ac_application_type :: string
  ac_jwks_uri :: string
  ac_signing_alg :: string
  ac_created_at :: string

record token_record =
  tk_hash :: string
  tk_kind :: string
  tk_client_id :: string
  tk_workspace_id :: string
  tk_audience :: string
  tk_scopes :: "string list"
  tk_family_id :: string
  tk_refresh_allowed :: bool
  tk_issued_at :: int
  tk_expires_at :: int

record refresh_tombstone =
  tb_hash :: string
  tb_family_id :: string
  tb_audience :: string
  tb_expires_at :: int

record auth_code =
  co_hash :: string
  co_client_id :: string
  co_redirect_uri :: string
  co_challenge :: string
  co_scopes :: "string list"
  co_workspace_id :: string
  co_pairing_id :: string
  co_audience :: string
  co_refresh_allowed :: bool
  co_expires_at :: time

record code_request =
  cr_client_id :: string
  cr_redirect_uri :: string
  cr_challenge :: string
  cr_scopes :: "string list"
  cr_pairing_id :: string
  cr_audience :: string
  cr_refresh_allowed :: bool

record persisted_state =
  ps_clients :: "auth_client list"
  ps_tokens :: "token_record list"
  ps_tombstones :: "refresh_tombstone list"

record store_options =
  so_access_ttl :: duration
  so_refresh_ttl :: duration
  so_code_ttl :: duration
  so_max_clients :: int
  so_max_tokens :: int
  so_max_codes :: int
  so_max_tombstones :: int
  so_max_state_bytes :: int

record auth_store =
  as_workspace_id :: string
  as_options :: store_options
  as_clients :: "(string, auth_client) gomap"
  as_tokens :: "(string, token_record) gomap"
  as_codes :: "(string, auth_code) gomap"
  as_tombstones :: "(string, refresh_tombstone) gomap"
  as_file :: "persisted_state option"

record token_set =
  ts_access :: string
  ts_refresh :: string
  ts_expires_in :: int
  ts_scopes :: "string list"

record principal =
  pr_token :: string
  pr_client_id :: string
  pr_workspace_id :: string
  pr_audience :: string
  pr_scopes :: "string list"
  pr_expires_at :: time

record auth_lib =
  al_sha256 :: "string \<Rightarrow> string"
  al_text_length :: "persisted_state \<Rightarrow> int"
  al_lower :: "nat \<Rightarrow> nat"

abbreviation hv :: "auth_lib \<Rightarrow> string \<Rightarrow> string" where
  "hv lib \<equiv> hash_value (al_sha256 lib)"

section \<open>Opening\<close>

definition default_int :: "int \<Rightarrow> int \<Rightarrow> int" where
  "default_int v d = (if v \<le> 0 then d else v)"

definition apply_store_defaults :: "store_options \<Rightarrow> store_options" where
  "apply_store_defaults opts =
    \<lparr>so_access_ttl = default_int (so_access_ttl opts) hour,
     so_refresh_ttl = default_int (so_refresh_ttl opts) (30 * 24 * hour),
     so_code_ttl = default_int (so_code_ttl opts) (5 * minute),
     so_max_clients = default_int (so_max_clients opts) 256,
     so_max_tokens = default_int (so_max_tokens opts) 4096,
     so_max_codes = default_int (so_max_codes opts) 256,
     so_max_tombstones = default_int (so_max_tombstones opts) 4096,
     so_max_state_bytes = default_int (so_max_state_bytes opts) (8 * 1024 * 1024)\<rparr>"

text \<open>A refresh token of version 1.0 with the \<open>offline_access\<close> scope stays usable.\<close>

definition upgrade_token :: "token_record \<Rightarrow> token_record" where
  "upgrade_token t =
    (if tk_kind t = ''refresh'' \<and> \<not> tk_refresh_allowed t \<and> contains_scope (tk_scopes t) ''offline_access''
     then t\<lparr>tk_refresh_allowed := True\<rparr> else t)"

definition load_clients :: "auth_client list \<Rightarrow> (string, auth_client) gomap" where
  "load_clients cs = gm_load ac_id (\<lambda>_. True) (\<lambda>c. c) cs"

definition load_tokens :: "int \<Rightarrow> token_record list \<Rightarrow> (string, token_record) gomap" where
  "load_tokens now ts = gm_load tk_hash (\<lambda>t. \<not> tk_expires_at t \<le> now) upgrade_token ts"

definition load_tombstones :: "int \<Rightarrow> refresh_tombstone list \<Rightarrow> (string, refresh_tombstone) gomap" where
  "load_tombstones now ts = gm_load tb_hash (\<lambda>t. now < tb_expires_at t) (\<lambda>t. t) ts"

text \<open>
  \<open>NewStore\<close>: \<open>file\<close> is \<open>Inl\<close> an error of \<open>Stat\<close>, \<open>ReadFile\<close> or \<open>Unmarshal\<close>, or the content and
  its size in bytes.
\<close>

definition new_auth_store ::
  "string \<Rightarrow> store_options \<Rightarrow> (string + (persisted_state \<times> int) option) \<Rightarrow> time \<Rightarrow> string + auth_store" where
  "new_auth_store wid opts0 file now =
    (let opts = apply_store_defaults opts0;
         empty = \<lparr>as_workspace_id = wid, as_options = opts, as_clients = [], as_tokens = [], as_codes = [],
                  as_tombstones = [], as_file = None\<rparr>
     in case file of
       Inl e \<Rightarrow> Inl e
     | Inr None \<Rightarrow> Inr empty
     | Inr (Some (st, bytes)) \<Rightarrow>
         if so_max_state_bytes opts < bytes then Inl ''auth state exceeds the limit''
         else if so_max_clients opts < int (length (ps_clients st)) \<or> so_max_tokens opts < int (length (ps_tokens st))
                 \<or> so_max_tombstones opts < int (length (ps_tombstones st))
         then Inl ''auth state exceeds configured capacity''
         else Inr (empty\<lparr>as_clients := load_clients (ps_clients st),
                         as_tokens := load_tokens (unix_milli now) (ps_tokens st),
                         as_tombstones := load_tombstones (unix_milli now) (ps_tombstones st),
                         as_file := Some st\<rparr>))"

section \<open>Pruning and saving\<close>

definition token_dead :: "int \<Rightarrow> token_record \<Rightarrow> bool" where
  "token_dead now t \<longleftrightarrow> tk_expires_at t \<le> now"

definition tombstone_dead :: "int \<Rightarrow> refresh_tombstone \<Rightarrow> bool" where
  "tombstone_dead now t \<longleftrightarrow> tb_expires_at t \<le> now"

definition code_dead :: "time \<Rightarrow> auth_code \<Rightarrow> bool" where
  "code_dead now c \<longleftrightarrow> \<not> now < co_expires_at c"

definition prune_tokens :: "time \<Rightarrow> (string, token_record) gomap \<Rightarrow> (string, token_record) gomap" where
  "prune_tokens now m = gm_retain (\<lambda>_ t. \<not> token_dead (unix_milli now) t) m"

definition prune_tombstones :: "time \<Rightarrow> (string, refresh_tombstone) gomap \<Rightarrow> (string, refresh_tombstone) gomap" where
  "prune_tombstones now m = gm_retain (\<lambda>_ t. \<not> tombstone_dead (unix_milli now) t) m"

definition prune_codes :: "time \<Rightarrow> (string, auth_code) gomap \<Rightarrow> (string, auth_code) gomap" where
  "prune_codes now m = gm_retain (\<lambda>_ c. \<not> code_dead now c) m"

definition as_prune :: "time \<Rightarrow> auth_store \<Rightarrow> auth_store" where
  "as_prune now s = s\<lparr>as_tokens := prune_tokens now (as_tokens s),
     as_tombstones := prune_tombstones now (as_tombstones s), as_codes := prune_codes now (as_codes s)\<rparr>"

definition persisted :: "auth_store \<Rightarrow> persisted_state" where
  "persisted s = \<lparr>ps_clients = map snd (sort_key fst (as_clients s)), ps_tokens = map snd (sort_key fst (as_tokens s)),
     ps_tombstones = map snd (sort_key fst (as_tombstones s))\<rparr>"

definition as_save :: "auth_lib \<Rightarrow> time \<Rightarrow> string option \<Rightarrow> auth_store \<Rightarrow> auth_error option \<times> auth_store" where
  "as_save lib now err s0 =
    (let s = as_prune now s0; st = persisted s in
     if so_max_state_bytes (as_options s) < al_text_length lib st then (Some ErrCapacity, s)
     else case err of Some e \<Rightarrow> (Some (ErrSave e), s) | None \<Rightarrow> (None, s\<lparr>as_file := Some st\<rparr>))"

section \<open>Clients\<close>

definition active_clients :: "auth_store \<Rightarrow> string set" where
  "active_clients s = (tk_client_id \<circ> snd) ` set (as_tokens s) \<union> (co_client_id \<circ> snd) ` set (as_codes s)"

definition eviction_order :: "auth_store \<Rightarrow> auth_client list" where
  "eviction_order s =
    sort_key (\<lambda>c. (ac_created_at c, ac_id c))
      (filter (\<lambda>c. ac_id c \<notin> active_clients s) (map snd (as_clients s)))"

fun evict_clients :: "int \<Rightarrow> auth_client list \<Rightarrow> (string, auth_client) gomap \<Rightarrow> (string, auth_client) gomap" where
  "evict_clients cap [] m = m"
| "evict_clients cap (c # cs) m = (if int (length m) < cap then m else evict_clients cap cs (gm_del (ac_id c) m))"

definition make_client_room :: "auth_store \<Rightarrow> auth_store" where
  "make_client_room s =
    (let cap = so_max_clients (as_options s) in
     if int (length (as_clients s)) < cap then s
     else s\<lparr>as_clients := evict_clients cap (eviction_order s) (as_clients s)\<rparr>)"

definition client_of :: "string \<Rightarrow> string \<Rightarrow> client_metadata \<Rightarrow> auth_client" where
  "client_of i created m =
    \<lparr>ac_id = i, ac_name = cm_client_name m, ac_redirect_uris = cm_redirect_uris m, ac_auth_method = cm_auth_method m,
     ac_grant_types = cm_grant_types m, ac_response_types = cm_response_types m,
     ac_application_type = cm_application_type m, ac_jwks_uri = cm_jwks_uri m, ac_signing_alg = cm_signing_alg m,
     ac_created_at = created\<rparr>"

definition register_client_metadata ::
  "auth_lib \<Rightarrow> (nat \<Rightarrow> nat) \<Rightarrow> (nat \<Rightarrow> time) \<Rightarrow> string option \<Rightarrow> string option \<Rightarrow> client_metadata \<Rightarrow> auth_store
     \<Rightarrow> (auth_error + auth_client) \<times> auth_store" where
  "register_client_metadata lib simple_fold clk err draw meta0 s =
    (case normalized_metadata (al_lower lib) simple_fold meta0 of
       Inl Panics \<Rightarrow> (Inl ErrPanic, s)
     | Inl (Rejected what) \<Rightarrow> (Inl (ErrMetadata what), s)
     | Inr meta \<Rightarrow>
        case random_token ''cl_client'' draw of
          None \<Rightarrow> (Inl ErrRandom, s)
        | Some i \<Rightarrow>
            let client = client_of i (rfc3339_nano (clk 0)) meta;
                s1 = as_prune (clk 1) s;
                s2 = make_client_room s1
            in if so_max_clients (as_options s2) \<le> int (length (as_clients s2)) then (Inl ErrCapacity, s2)
               else case as_save lib (clk 2) err (s2\<lparr>as_clients := gm_put i client (as_clients s2)\<rparr>) of
                 (Some e, s3) \<Rightarrow> (Inl e, s3\<lparr>as_clients := as_clients s1\<rparr>)
               | (None, s3) \<Rightarrow> (Inr client, s3))"

definition find_client :: "string \<Rightarrow> auth_store \<Rightarrow> auth_client option" where
  "find_client i s = gm_get (as_clients s) i"

section \<open>Authorization codes\<close>

definition code_record :: "auth_lib \<Rightarrow> auth_store \<Rightarrow> code_request \<Rightarrow> time \<Rightarrow> string \<Rightarrow> auth_code" where
  "code_record lib s q now code =
    \<lparr>co_hash = hv lib code, co_client_id = cr_client_id q, co_redirect_uri = cr_redirect_uri q,
     co_challenge = cr_challenge q, co_scopes = cr_scopes q, co_workspace_id = as_workspace_id s,
     co_pairing_id = cr_pairing_id q, co_audience = cr_audience q,
     co_refresh_allowed = cr_refresh_allowed q, co_expires_at = now + so_code_ttl (as_options s)\<rparr>"

definition create_authorization_code ::
  "auth_lib \<Rightarrow> (nat \<Rightarrow> time) \<Rightarrow> string option \<Rightarrow> code_request \<Rightarrow> auth_store \<Rightarrow> (auth_error + string) \<times> auth_store" where
  "create_authorization_code lib clk draw q s =
    (case random_token ''cl_ac'' draw of
       None \<Rightarrow> (Inl ErrRandom, s)
     | Some code \<Rightarrow>
        let s1 = as_prune (clk 1) s
        in if so_max_codes (as_options s1) \<le> int (length (as_codes s1)) then (Inl ErrCapacity, s1)
           else (Inr code, s1\<lparr>as_codes := gm_put (hv lib code) (code_record lib s q (clk 0) code) (as_codes s1)\<rparr>))"

section \<open>Issuing tokens\<close>

definition access_record :: "auth_store \<Rightarrow> string \<Rightarrow> string \<Rightarrow> string list \<Rightarrow> string \<Rightarrow> string \<Rightarrow> bool \<Rightarrow> time \<Rightarrow> token_record" where
  "access_record s hash client_id scopes audience family refresh_allowed now =
    \<lparr>tk_hash = hash, tk_kind = ''access'', tk_client_id = client_id, tk_workspace_id = as_workspace_id s,
     tk_audience = audience, tk_scopes = scopes, tk_family_id = family, tk_refresh_allowed = refresh_allowed,
     tk_issued_at = unix_milli now, tk_expires_at = unix_milli (now + so_access_ttl (as_options s))\<rparr>"

definition refresh_record :: "auth_store \<Rightarrow> string \<Rightarrow> string \<Rightarrow> string list \<Rightarrow> string \<Rightarrow> string \<Rightarrow> time \<Rightarrow> token_record" where
  "refresh_record s hash client_id scopes audience family now =
    \<lparr>tk_hash = hash, tk_kind = ''refresh'', tk_client_id = client_id, tk_workspace_id = as_workspace_id s,
     tk_audience = audience, tk_scopes = scopes, tk_family_id = family, tk_refresh_allowed = True,
     tk_issued_at = unix_milli now, tk_expires_at = unix_milli (now + so_refresh_ttl (as_options s))\<rparr>"

record draws =
  dr_access :: "string option"
  dr_family :: "string option"
  dr_refresh :: "string option"

text \<open>\<open>int(ttl.Seconds())\<close>: whole seconds of a positive duration.\<close>

definition issue_tokens ::
  "auth_lib \<Rightarrow> (nat \<Rightarrow> time) \<Rightarrow> draws \<Rightarrow> string option \<Rightarrow> string \<Rightarrow> string list \<Rightarrow> string \<Rightarrow> string \<Rightarrow> bool \<Rightarrow> auth_store
     \<Rightarrow> (auth_error + token_set) \<times> auth_store" where
  "issue_tokens lib clk dr err client_id scopes audience family0 refresh_allowed s0 =
    (let s = as_prune (clk 0) s0;
         issue_refresh = (refresh_allowed \<and> contains_scope scopes ''offline_access'');
         needed = (if issue_refresh then 2 else 1)
     in if so_max_tokens (as_options s) < int (length (as_tokens s)) + needed then (Inl ErrCapacity, s)
     else case random_token ''cl_at'' (dr_access dr) of None \<Rightarrow> (Inl ErrRandom, s) | Some access \<Rightarrow>
     case (if family0 = [] then random_token ''family'' (dr_family dr) else Some family0) of
       None \<Rightarrow> (Inl ErrRandom, s)
     | Some family \<Rightarrow>
        let now = clk 1; ah = hv lib access;
            s1 = s\<lparr>as_tokens := gm_put ah (access_record s ah client_id scopes audience family refresh_allowed now) (as_tokens s)\<rparr>
        in case (if issue_refresh then map_option Some (random_token ''cl_rt'' (dr_refresh dr)) else Some None) of
          None \<Rightarrow> (Inl ErrRandom, s1\<lparr>as_tokens := gm_del ah (as_tokens s1)\<rparr>)
        | Some refresh \<Rightarrow>
            let s2 = (case refresh of None \<Rightarrow> s1
                      | Some r \<Rightarrow> s1\<lparr>as_tokens := gm_put (hv lib r) (refresh_record s (hv lib r) client_id scopes audience family now) (as_tokens s1)\<rparr>)
            in case as_save lib (clk 2) err s2 of
                 (Some e, s3) \<Rightarrow>
                   let t = gm_del ah (as_tokens s3)
                   in (Inl e, s3\<lparr>as_tokens := (case refresh of None \<Rightarrow> t | Some r \<Rightarrow> gm_del (hv lib r) t)\<rparr>)
               | (None, s3) \<Rightarrow>
                   (Inr \<lparr>ts_access = access, ts_refresh = (case refresh of None \<Rightarrow> [] | Some r \<Rightarrow> r),
                         ts_expires_in = so_access_ttl (as_options s) div second, ts_scopes = scopes\<rparr>, s3))"

definition exchange_authorization_code ::
  "auth_lib \<Rightarrow> (nat \<Rightarrow> time) \<Rightarrow> draws \<Rightarrow> string option \<Rightarrow> string \<Rightarrow> string \<Rightarrow> string \<Rightarrow> string \<Rightarrow> string \<Rightarrow> auth_store
     \<Rightarrow> (auth_error + token_set) \<times> auth_store" where
  "exchange_authorization_code lib clk dr err code client_id redirect_uri verifier audience s0 =
    (let hash = hv lib code; s1 = as_prune (clk 0) s0;
         s = s1\<lparr>as_codes := gm_del hash (as_codes s1)\<rparr>
     in case gm_get (as_codes s1) hash of
       None \<Rightarrow> (Inl ErrInvalidGrant, s)
     | Some r \<Rightarrow>
        if \<not> clk 1 < co_expires_at r then (Inl ErrInvalidGrant, s)
        else if redirect_uri = [] \<or> co_client_id r \<noteq> client_id \<or> co_redirect_uri r \<noteq> redirect_uri
        then (Inl ErrInvalidGrant, s)
        else if audience \<noteq> [] \<and> \<not> same_resource (al_lower lib) audience (co_audience r)
        then (Inl ErrInvalidTarget, s)
        else if \<not> valid_verifier verifier \<or> \<not> safe_equal (pkce_challenge (al_sha256 lib) verifier) (co_challenge r)
        then (Inl ErrInvalidGrant, s)
        else issue_tokens lib (\<lambda>i. clk (i + 2)) dr err client_id (co_scopes r) (co_audience r) [] (co_refresh_allowed r) s)"

section \<open>Refreshing, verifying, revoking\<close>

definition revoke_family :: "string \<Rightarrow> auth_store \<Rightarrow> auth_store" where
  "revoke_family family s =
    (if family = [] then s
     else s\<lparr>as_tokens := gm_retain (\<lambda>_ t. tk_family_id t \<noteq> family) (as_tokens s)\<rparr>)"

definition refresh_refused :: "auth_lib \<Rightarrow> time \<Rightarrow> string \<Rightarrow> string \<Rightarrow> token_record \<Rightarrow> auth_store \<Rightarrow> auth_error option" where
  "refresh_refused lib now client_id audience r s =
    (if tk_kind r \<noteq> ''refresh'' \<or> \<not> tk_refresh_allowed r \<or> tk_expires_at r \<le> unix_milli now then Some ErrInvalidGrant
     else if tk_client_id r \<noteq> client_id then Some ErrInvalidClient
     else if (case gm_get (as_clients s) client_id of
               Some c \<Rightarrow> \<not> contains_string (ac_grant_types c) ''refresh_token'' | None \<Rightarrow> False)
     then Some ErrInvalidGrant
     else if audience \<noteq> [] \<and> \<not> same_resource (al_lower lib) audience (tk_audience r) then Some ErrInvalidTarget
     else if so_max_tombstones (as_options s) \<le> int (length (as_tombstones s)) then Some ErrCapacity
     else None)"

definition tombstone_of :: "token_record \<Rightarrow> string \<Rightarrow> refresh_tombstone" where
  "tombstone_of r hash = \<lparr>tb_hash = hash, tb_family_id = tk_family_id r, tb_audience = tk_audience r,
     tb_expires_at = tk_expires_at r\<rparr>"

definition as_refresh ::
  "auth_lib \<Rightarrow> (nat \<Rightarrow> time) \<Rightarrow> draws \<Rightarrow> string option \<Rightarrow> string \<Rightarrow> string \<Rightarrow> string \<Rightarrow> auth_store
     \<Rightarrow> (auth_error + token_set) \<times> auth_store" where
  "as_refresh lib clk dr err refresh_token client_id audience s0 =
    (let hash = hv lib refresh_token; s = as_prune (clk 0) s0
     in case gm_get (as_tokens s) hash of
       None \<Rightarrow>
         (case gm_get (as_tombstones s) hash of
            None \<Rightarrow> (Inl ErrInvalidGrant, s)
          | Some tomb \<Rightarrow>
              (case as_save lib (clk 1) err (revoke_family (tb_family_id tomb) s) of
                 (Some e, s1) \<Rightarrow> (Inl e, s1)
               | (None, s1) \<Rightarrow> (Inl ErrInvalidGrant, s1)))
     | Some r \<Rightarrow>
         case refresh_refused lib (clk 2) client_id audience r s of
           Some e \<Rightarrow> (Inl e, s)
         | None \<Rightarrow>
             let s1 = s\<lparr>as_tokens := gm_del hash (as_tokens s),
                        as_tombstones := gm_put hash (tombstone_of r hash) (as_tombstones s)\<rparr>
             in case issue_tokens lib (\<lambda>i. clk (i + 3)) dr err client_id (tk_scopes r) (tk_audience r) (tk_family_id r) True s1 of
                  (Inl e, s2) \<Rightarrow>
                    (Inl e, s2\<lparr>as_tombstones := gm_del hash (as_tombstones s2), as_tokens := gm_put hash r (as_tokens s2)\<rparr>)
                | (Inr ts, s2) \<Rightarrow> (Inr ts, s2))"

datatype verify_error = Unknown | Expired | WrongWorkspace | WrongAudience

definition verify_access :: "auth_lib \<Rightarrow> time \<Rightarrow> string \<Rightarrow> string \<Rightarrow> auth_store \<Rightarrow> verify_error + principal" where
  "verify_access lib now token audience s =
    (case gm_get (as_tokens s) (hv lib token) of
       None \<Rightarrow> Inl Unknown
     | Some r \<Rightarrow>
        if tk_kind r \<noteq> ''access'' then Inl Unknown
        else if tk_expires_at r \<le> unix_milli now then Inl Expired
        else if tk_workspace_id r \<noteq> as_workspace_id s then Inl WrongWorkspace
        else if audience \<noteq> [] \<and> \<not> same_resource (al_lower lib) audience (tk_audience r) then Inl WrongAudience
        else Inr \<lparr>pr_token = token, pr_client_id = tk_client_id r, pr_workspace_id = tk_workspace_id r,
                  pr_audience = tk_audience r, pr_scopes = tk_scopes r, pr_expires_at = tk_expires_at r * 1000000\<rparr>)"

definition as_revoke :: "auth_lib \<Rightarrow> time \<Rightarrow> string option \<Rightarrow> string \<Rightarrow> auth_store \<Rightarrow> auth_error option \<times> auth_store" where
  "as_revoke lib now err token s =
    (let hash = hv lib token;
         s1 = (case gm_get (as_tokens s) hash of
                 Some r \<Rightarrow> if tk_family_id r = [] then s\<lparr>as_tokens := gm_del hash (as_tokens s)\<rparr>
                           else revoke_family (tk_family_id r) s
               | None \<Rightarrow> (case gm_get (as_tombstones s) hash of
                   Some tomb \<Rightarrow> revoke_family (tb_family_id tomb) s
                 | None \<Rightarrow> s))
     in as_save lib now err s1)"

definition revoke_all :: "auth_lib \<Rightarrow> time \<Rightarrow> string option \<Rightarrow> auth_store \<Rightarrow> int \<times> auth_error option \<times> auth_store" where
  "revoke_all lib now err s =
    (int (length (as_tokens s)), as_save lib now err (s\<lparr>as_tokens := [], as_codes := [], as_tombstones := []\<rparr>))"

definition token_count :: "time \<Rightarrow> auth_store \<Rightarrow> int" where
  "token_count now s = int (length (filter (\<lambda>(_, t). unix_milli now < tk_expires_at t) (as_tokens s)))"

definition client_count :: "auth_store \<Rightarrow> int" where
  "client_count s = int (length (as_clients s))"

definition token_count_for_audience :: "auth_lib \<Rightarrow> time \<Rightarrow> string \<Rightarrow> auth_store \<Rightarrow> int" where
  "token_count_for_audience lib now audience s = int (length (filter
     (\<lambda>(_, t). unix_milli now < tk_expires_at t \<and> same_resource (al_lower lib) (tk_audience t) audience) (as_tokens s)))"

definition has_active_scope_for_audience :: "auth_lib \<Rightarrow> time \<Rightarrow> string \<Rightarrow> string \<Rightarrow> auth_store \<Rightarrow> bool" where
  "has_active_scope_for_audience lib now audience scope s \<longleftrightarrow> list_ex
     (\<lambda>(_, t). unix_milli now < tk_expires_at t \<and> same_resource (al_lower lib) (tk_audience t) audience
        \<and> list_ex (\<lambda>g. g = scope) (tk_scopes t)) (as_tokens s)"

definition revoke_audience ::
  "auth_lib \<Rightarrow> time \<Rightarrow> string option \<Rightarrow> string \<Rightarrow> auth_store \<Rightarrow> int \<times> auth_error option \<times> auth_store" where
  "revoke_audience lib now err audience s =
    (let same = (\<lambda>a. same_resource (al_lower lib) a audience)
     in (int (length (filter (\<lambda>(_, t). same (tk_audience t)) (as_tokens s))),
         as_save lib now err (s\<lparr>as_tokens := gm_retain (\<lambda>_ t. \<not> same (tk_audience t)) (as_tokens s),
                                as_tombstones := gm_retain (\<lambda>_ t. \<not> same (tb_audience t)) (as_tombstones s)\<rparr>)))"

definition has_scope :: "principal \<Rightarrow> string \<Rightarrow> bool" where
  "has_scope p scope \<longleftrightarrow> contains_scope (pr_scopes p) scope"

end
