(* ===== verification/AuthProps.thy ===== *)
theory AuthProps
  imports AuthStore
begin

text \<open>
  What the OAuth store guarantees: capacities, single use of codes, who may exchange and refresh,
  rotation and replay of refresh tokens, revocation, uniform families, and what reopening reads.
\<close>

section \<open>The maps\<close>

interpretation tokens: expiring_map gm_get gm_put gm_del length gm_ok "\<lambda>t. token_dead (unix_milli t)" prune_tokens
  by unfold_locales
     (auto simp: prune_tokens_def token_dead_def gomap_simps gm_length_retain_le intro: order_trans unix_milli_mono split: option.splits)

interpretation tombstones: expiring_map gm_get gm_put gm_del length gm_ok "\<lambda>t. tombstone_dead (unix_milli t)" prune_tombstones
  by unfold_locales
     (auto simp: prune_tombstones_def tombstone_dead_def gomap_simps gm_length_retain_le intro: order_trans unix_milli_mono split: option.splits)

interpretation codes: expiring_map gm_get gm_put gm_del length gm_ok code_dead prune_codes
  by unfold_locales
     (auto simp: prune_codes_def code_dead_def gomap_simps gm_length_retain_le split: option.splits)

text \<open>Every map is indexed by the key of its records.\<close>

definition as_keyed :: "auth_store \<Rightarrow> bool" where
  "as_keyed s \<longleftrightarrow> keyed_by ac_id (as_clients s) \<and> keyed_by tk_hash (as_tokens s) \<and> keyed_by co_hash (as_codes s)
     \<and> keyed_by tb_hash (as_tombstones s) \<and> gm_all (\<lambda>t. upgrade_token t = t) (as_tokens s)"

definition as_within :: "auth_store \<Rightarrow> bool" where
  "as_within s \<longleftrightarrow>
     int (length (as_clients s)) \<le> so_max_clients (as_options s)
     \<and> int (length (as_tokens s)) \<le> so_max_tokens (as_options s)
     \<and> int (length (as_codes s)) \<le> so_max_codes (as_options s)
     \<and> int (length (as_tombstones s)) \<le> so_max_tombstones (as_options s)"

lemma as_keyed_ok [simp]:
  "as_keyed s \<Longrightarrow> gm_ok (as_clients s)" "as_keyed s \<Longrightarrow> gm_ok (as_tokens s)"
  "as_keyed s \<Longrightarrow> gm_ok (as_codes s)" "as_keyed s \<Longrightarrow> gm_ok (as_tombstones s)"
  by (auto simp: as_keyed_def dest: keyed_by_ok)

lemma as_prune_simps [simp]:
  "as_workspace_id (as_prune t s) = as_workspace_id s" "as_options (as_prune t s) = as_options s"
  "as_clients (as_prune t s) = as_clients s" "as_tokens (as_prune t s) = prune_tokens t (as_tokens s)"
  "as_codes (as_prune t s) = prune_codes t (as_codes s)"
  "as_tombstones (as_prune t s) = prune_tombstones t (as_tombstones s)" "as_file (as_prune t s) = as_file s"
  by (simp_all add: as_prune_def)

lemma get_prune_tokens:
  "gm_ok m \<Longrightarrow> gm_get (prune_tokens t m) k = Some r \<longleftrightarrow> gm_get m k = Some r \<and> \<not> token_dead (unix_milli t) r"
  by (auto simp: tokens.get_prune split: option.splits)

lemma get_prune_tombstones:
  "gm_ok m \<Longrightarrow> gm_get (prune_tombstones t m) k = Some r \<longleftrightarrow> gm_get m k = Some r \<and> \<not> tombstone_dead (unix_milli t) r"
  by (auto simp: tombstones.get_prune split: option.splits)

lemma get_prune_codes:
  "gm_ok m \<Longrightarrow> gm_get (prune_codes t m) k = Some r \<longleftrightarrow> gm_get m k = Some r \<and> \<not> code_dead t r"
  by (auto simp: codes.get_prune split: option.splits)

lemmas get_prune = get_prune_tokens get_prune_tombstones get_prune_codes

lemma as_prune_keyed: "as_keyed s \<Longrightarrow> as_keyed (as_prune t s)"
  unfolding as_keyed_def as_prune_simps prune_tokens_def prune_codes_def prune_tombstones_def
  by (intro conjI keyed_by_retain gm_all_retain) (auto dest: keyed_by_ok)

lemma as_prune_within: "as_within s \<Longrightarrow> as_within (as_prune t s)"
  using tokens.card_prune_le [of t "as_tokens s"] tombstones.card_prune_le [of t "as_tombstones s"]
    codes.card_prune_le [of t "as_codes s"]
  by (auto simp: as_within_def)

lemma as_save_eq:
  assumes "as_save lib t err s = (e, s')"
  shows "\<exists>f. s' = (as_prune t s)\<lparr>as_file := f\<rparr> \<and> (e = None \<longrightarrow> f = Some (persisted (as_prune t s)))
    \<and> (e \<noteq> None \<longrightarrow> f = as_file s)"
proof (cases e)
  case None
  with assms show ?thesis by (auto simp: as_save_def Let_def split: if_splits option.splits)
next
  case (Some x)
  with assms have "s' = as_prune t s" by (auto simp: as_save_def Let_def split: if_splits option.splits)
  then show ?thesis using Some by (intro exI [of _ "as_file s"]) (simp add: as_prune_def)
qed

lemma as_file_update_keyed [simp]: "as_keyed (s\<lparr>as_file := f\<rparr>) = as_keyed s"
  by (simp add: as_keyed_def)

lemma as_file_update_within [simp]: "as_within (s\<lparr>as_file := f\<rparr>) = as_within s"
  by (simp add: as_within_def)

lemma as_save_keyed: "as_save lib t err s = (e, s') \<Longrightarrow> as_keyed s \<Longrightarrow> as_keyed s'"
  by (drule as_save_eq) (auto simp: as_prune_keyed)

lemma as_save_within: "as_save lib t err s = (e, s') \<Longrightarrow> as_within s \<Longrightarrow> as_within s'"
  by (drule as_save_eq) (auto simp: as_prune_within)

lemma map_le_iff: "m' \<subseteq>\<^sub>m m \<longleftrightarrow> (\<forall>k v. m' k = Some v \<longrightarrow> m k = Some v)"
  by (metis domD domI map_le_def)

text \<open>The state that results when a call only forgets: no new token, code or tombstone.\<close>

definition forgets :: "auth_store \<Rightarrow> auth_store \<Rightarrow> bool" where
  "forgets s s' \<longleftrightarrow> as_workspace_id s' = as_workspace_id s \<and> as_options s' = as_options s
     \<and> gm_get (as_tokens s') \<subseteq>\<^sub>m gm_get (as_tokens s) \<and> gm_get (as_codes s') \<subseteq>\<^sub>m gm_get (as_codes s)
     \<and> gm_get (as_tombstones s') \<subseteq>\<^sub>m gm_get (as_tombstones s)"

lemma forgets_refl [simp]: "forgets s s"
  by (simp add: forgets_def)

lemma forgets_trans: "forgets s s' \<Longrightarrow> forgets s' s'' \<Longrightarrow> forgets s s''"
  unfolding forgets_def by (auto intro: map_le_trans)

lemma forgets_token: "forgets s s' \<Longrightarrow> gm_get (as_tokens s') k = Some r \<Longrightarrow> gm_get (as_tokens s) k = Some r"
  by (auto simp: forgets_def map_le_iff)

lemma forgets_code: "forgets s s' \<Longrightarrow> gm_get (as_codes s') k = Some r \<Longrightarrow> gm_get (as_codes s) k = Some r"
  by (auto simp: forgets_def map_le_iff)

lemma forgets_within:
  assumes "forgets s s'" and "as_keyed s" and "as_keyed s'" and "as_within s" and "as_clients s' = as_clients s"
  shows "as_within s'"
proof -
  have "length (as_tokens s') \<le> length (as_tokens s)" "length (as_codes s') \<le> length (as_codes s)"
    "length (as_tombstones s') \<le> length (as_tombstones s)"
    using assms(1-3) by (auto intro!: gm_length_mono simp: forgets_def map_le_iff)
  then show ?thesis using assms by (auto simp: as_within_def forgets_def)
qed

lemma as_prune_forgets: "as_keyed s \<Longrightarrow> forgets s (as_prune t s)"
  by (simp add: forgets_def map_le_iff get_prune)

lemma as_save_forgets: "as_save lib t err s = (e, s') \<Longrightarrow> as_keyed s \<Longrightarrow> forgets s s' \<and> as_clients s' = as_clients s"
  by (drule as_save_eq, drule as_prune_forgets [of s t]) (auto simp: forgets_def)

text \<open>The two records a grant consists of.\<close>

definition with_token :: "string \<Rightarrow> token_record \<Rightarrow> auth_store \<Rightarrow> auth_store" where
  "with_token k r s = s\<lparr>as_tokens := gm_put k r (as_tokens s)\<rparr>"

definition without_token :: "string \<Rightarrow> auth_store \<Rightarrow> auth_store" where
  "without_token k s = s\<lparr>as_tokens := gm_del k (as_tokens s)\<rparr>"

lemma with_token_simps [simp]:
  "as_workspace_id (with_token k r s) = as_workspace_id s" "as_options (with_token k r s) = as_options s"
  "as_clients (with_token k r s) = as_clients s" "as_tokens (with_token k r s) = gm_put k r (as_tokens s)"
  "as_codes (with_token k r s) = as_codes s" "as_tombstones (with_token k r s) = as_tombstones s"
  "as_workspace_id (without_token k s) = as_workspace_id s" "as_options (without_token k s) = as_options s"
  "as_clients (without_token k s) = as_clients s" "as_tokens (without_token k s) = gm_del k (as_tokens s)"
  "as_codes (without_token k s) = as_codes s" "as_tombstones (without_token k s) = as_tombstones s"
  by (simp_all add: with_token_def without_token_def)

lemma with_token_keyed:
  "as_keyed s \<Longrightarrow> tk_hash r = k \<Longrightarrow> upgrade_token r = r \<Longrightarrow> as_keyed (with_token k r s)"
  by (simp add: as_keyed_def keyed_by_put gm_all_put)

lemma without_token_keyed: "as_keyed s \<Longrightarrow> as_keyed (without_token k s)"
  by (simp add: as_keyed_def keyed_by_del gm_all_del)

lemma access_record_ok [simp]:
  "tk_hash (access_record s k c sc a f ra t) = k" "upgrade_token (access_record s k c sc a f ra t) = access_record s k c sc a f ra t"
  "tk_hash (refresh_record s k c sc a f t) = k" "upgrade_token (refresh_record s k c sc a f t) = refresh_record s k c sc a f t"
  by (simp_all add: access_record_def refresh_record_def upgrade_token_def)

text \<open>\<open>issueTokensLocked\<close> either adds its records and saves, or leaves nothing behind.\<close>

definition granted_store ::
  "auth_lib \<Rightarrow> string \<Rightarrow> string option \<Rightarrow> string \<Rightarrow> string \<Rightarrow> string list \<Rightarrow> string \<Rightarrow> bool \<Rightarrow> time \<Rightarrow> auth_store \<Rightarrow> auth_store" where
  "granted_store lib access refresh client_id family scopes audience ra now s =
    (let s1 = with_token (hv lib access) (access_record s (hv lib access) client_id scopes audience family ra now) s
     in case refresh of None \<Rightarrow> s1
        | Some r \<Rightarrow> with_token (hv lib r) (refresh_record s (hv lib r) client_id scopes audience family now) s1)"

lemma granted_store_keyed: "as_keyed s \<Longrightarrow> as_keyed (granted_store lib access refresh client_id family scopes audience ra now s)"
  by (auto simp: granted_store_def Let_def with_token_keyed split: option.splits)

lemma issue_tokens_ok:
  assumes "issue_tokens lib clk dr err client_id scopes audience family0 ra s0 = (Inr ts, s')"
  shows "\<exists>family refresh. (family0 \<noteq> [] \<longrightarrow> family = family0) \<and> (family0 = [] \<longrightarrow> random_token ''family'' (dr_family dr) = Some family)
    \<and> random_token ''cl_at'' (dr_access dr) = Some (ts_access ts)
    \<and> (if ra \<and> contains_scope scopes ''offline_access''
       then refresh = Some (ts_refresh ts) \<and> random_token ''cl_rt'' (dr_refresh dr) = refresh
       else refresh = None \<and> ts_refresh ts = [])
    \<and> ts_scopes ts = scopes \<and> ts_expires_in ts = so_access_ttl (as_options s0) div second
    \<and> int (length (as_tokens (as_prune (clk 0) s0))) + (if refresh = None then 1 else 2) \<le> so_max_tokens (as_options s0)
    \<and> as_save lib (clk 2) err (granted_store lib (ts_access ts) refresh client_id family scopes audience ra (clk 1) (as_prune (clk 0) s0)) = (None, s')"
  using assms
  by (auto simp: issue_tokens_def Let_def granted_store_def with_token_def split: if_splits option.splits prod.splits)

definition ungrant :: "auth_lib \<Rightarrow> string \<Rightarrow> string option \<Rightarrow> auth_store \<Rightarrow> auth_store" where
  "ungrant lib access refresh s =
    (let t = without_token (hv lib access) s in case refresh of None \<Rightarrow> t | Some r \<Rightarrow> without_token (hv lib r) t)"

lemma issue_tokens_error_cases:
  assumes "issue_tokens lib clk dr err client_id scopes audience family0 ra s0 = (Inl e, s')"
  shows "s' = as_prune (clk 0) s0
    \<or> (\<exists>access family. s' = ungrant lib access None (granted_store lib access None client_id family scopes audience ra (clk 1) (as_prune (clk 0) s0)))
    \<or> (\<exists>access refresh family e s3.
        as_save lib (clk 2) err (granted_store lib access refresh client_id family scopes audience ra (clk 1) (as_prune (clk 0) s0)) = (Some e, s3)
        \<and> s' = ungrant lib access refresh s3)"
  using assms
  by (auto simp: issue_tokens_def Let_def granted_store_def ungrant_def with_token_def without_token_def
      split: if_splits option.splits prod.splits) blast+

lemma ungrant_granted_forgets:
  assumes "forgets (granted_store lib access refresh client_id family scopes audience ra now s) s'"
  shows "forgets s (ungrant lib access refresh s')"
  using assms
  by (auto simp: forgets_def ungrant_def granted_store_def Let_def map_le_iff gomap_simps split: option.splits if_splits)

lemma ungrant_keyed: "as_keyed s \<Longrightarrow> as_keyed (ungrant lib access refresh s)"
  by (auto simp: ungrant_def Let_def without_token_keyed split: option.splits)

lemma ungrant_clients [simp]: "as_clients (ungrant lib access refresh s) = as_clients s"
  by (auto simp: ungrant_def Let_def split: option.splits)

lemma granted_clients [simp]:
  "as_clients (granted_store lib access refresh client_id family scopes audience ra now s) = as_clients s"
  by (auto simp: granted_store_def Let_def split: option.splits)

lemma issue_tokens_error:
  assumes "issue_tokens lib clk dr err client_id scopes audience family0 ra s0 = (Inl e, s')" and "as_keyed s0"
  shows "forgets s0 s' \<and> as_keyed s' \<and> as_clients s' = as_clients s0"
proof -
  let ?s = "as_prune (clk 0) s0"
  let ?g = "\<lambda>access refresh family. granted_store lib access refresh client_id family scopes audience ra (clk 1) ?s"
  have k: "as_keyed ?s" "forgets s0 ?s" "as_clients ?s = as_clients s0"
    using assms(2) by (simp_all add: as_prune_keyed as_prune_forgets)
  have gk: "as_keyed (?g access refresh family)" for access refresh family using k(1) by (rule granted_store_keyed)
  from issue_tokens_error_cases [OF assms(1)] consider "s' = ?s"
    | access family where "s' = ungrant lib access None (?g access None family)"
    | access refresh family e s3 where "as_save lib (clk 2) err (?g access refresh family) = (Some e, s3)" "s' = ungrant lib access refresh s3"
    by blast
  then show ?thesis
  proof cases
    case 1
    with k show ?thesis by simp
  next
    case (2 access family)
    then have "forgets ?s s'" using ungrant_granted_forgets [OF forgets_refl] by simp
    with k(2) have "forgets s0 s'" by (rule forgets_trans)
    then show ?thesis using 2 gk ungrant_keyed k(3) by simp
  next
    case (3 access refresh family e s3)
    note sv = as_save_forgets [OF 3(1) gk] as_save_keyed [OF 3(1) gk]
    then have "forgets ?s s'" using ungrant_granted_forgets 3(2) by blast
    with k(2) have "forgets s0 s'" by (rule forgets_trans)
    then show ?thesis using 3(2) sv ungrant_keyed k(3) by simp
  qed
qed

text \<open>A successful grant.\<close>

lemma granted_store_get:
  "gm_get (as_tokens (granted_store lib access refresh client_id family scopes audience ra now s)) k =
    (if map_option (hv lib) refresh = Some k then Some (refresh_record s k client_id scopes audience family now)
     else if k = hv lib access then Some (access_record s k client_id scopes audience family ra now)
     else gm_get (as_tokens s) k)"
  by (auto simp: granted_store_def Let_def gomap_simps split: option.splits)

lemma granted_store_others [simp]:
  "as_workspace_id (granted_store lib access refresh client_id family scopes audience ra now s) = as_workspace_id s"
  "as_options (granted_store lib access refresh client_id family scopes audience ra now s) = as_options s"
  "as_codes (granted_store lib access refresh client_id family scopes audience ra now s) = as_codes s"
  "as_tombstones (granted_store lib access refresh client_id family scopes audience ra now s) = as_tombstones s"
  by (auto simp: granted_store_def Let_def split: option.splits)

lemma granted_store_length:
  "length (as_tokens (granted_store lib access refresh client_id family scopes audience ra now s))
    \<le> length (as_tokens s) + (if refresh = None then 1 else 2)"
proof (cases refresh)
  case None
  then show ?thesis using gm_length_put_le by (auto simp: granted_store_def Let_def)
next
  case (Some r)
  let ?m = "gm_put (hv lib access) (access_record s (hv lib access) client_id scopes audience family ra now) (as_tokens s)"
  have "length ?m \<le> Suc (length (as_tokens s))" by (rule gm_length_put_le)
  with gm_length_put_le [of "hv lib r" "refresh_record s (hv lib r) client_id scopes audience family now" ?m] Some
  show ?thesis by (simp add: granted_store_def Let_def)
qed

lemma issue_tokens_inv:
  assumes "issue_tokens lib clk dr err client_id scopes audience family0 ra s0 = (res, s')"
    and "as_keyed s0" and "as_within s0"
  shows "as_keyed s' \<and> as_within s' \<and> as_options s' = as_options s0"
proof (cases res)
  case (Inl e)
  from issue_tokens_error [OF assms(1) [unfolded Inl] assms(2)] assms(2,3) show ?thesis
    by (auto intro: forgets_within simp: forgets_def)
next
  case (Inr ts)
  let ?s = "as_prune (clk 0) s0"
  obtain family refresh where ok:
    "int (length (as_tokens ?s)) + (if refresh = None then 1 else 2) \<le> so_max_tokens (as_options s0)"
    "as_save lib (clk 2) err (granted_store lib (ts_access ts) refresh client_id family scopes audience ra (clk 1) ?s) = (None, s')"
    using issue_tokens_ok [OF assms(1) [unfolded Inr]] by blast
  let ?g = "granted_store lib (ts_access ts) refresh client_id family scopes audience ra (clk 1) ?s"
  have "as_keyed ?g" using assms(2) by (intro granted_store_keyed as_prune_keyed)
  moreover have "as_within ?g"
    using as_prune_within [OF assms(3), of "clk 0"] ok(1)
      granted_store_length [of lib "ts_access ts" refresh client_id family scopes audience ra "clk 1" ?s]
    by (auto simp: as_within_def split: if_splits)
  ultimately show ?thesis using as_save_keyed [OF ok(2)] as_save_within [OF ok(2)] as_save_forgets [OF ok(2)]
    by (auto simp: forgets_def)
qed

section \<open>Every operation keeps the invariant\<close>

definition as_inv :: "auth_store \<Rightarrow> bool" where
  "as_inv s \<longleftrightarrow> as_keyed s \<and> as_within s"

lemma as_prune_inv: "as_inv s \<Longrightarrow> as_inv (as_prune t s)"
  by (simp add: as_inv_def as_prune_keyed as_prune_within)

lemma as_save_inv: "as_save lib t err s = (e, s') \<Longrightarrow> as_inv s \<Longrightarrow> as_inv s'"
  by (auto simp: as_inv_def as_save_keyed as_save_within)

lemma evict_clients_le: "length (evict_clients cap cs m) \<le> length m"
  by (induction cs arbitrary: m) (auto intro: order_trans gm_length_del_le)

lemma evict_clients_keyed: "keyed_by f m \<Longrightarrow> keyed_by f (evict_clients cap cs m)"
  by (induction cs arbitrary: m) (auto intro: keyed_by_del)

lemma make_client_room_simps [simp]:
  "as_workspace_id (make_client_room s) = as_workspace_id s" "as_options (make_client_room s) = as_options s"
  "as_tokens (make_client_room s) = as_tokens s" "as_codes (make_client_room s) = as_codes s"
  "as_tombstones (make_client_room s) = as_tombstones s"
  by (simp_all add: make_client_room_def Let_def)

lemma make_client_room_inv:
  assumes "as_inv s" shows "as_inv (make_client_room s)"
proof -
  have "keyed_by ac_id (as_clients (make_client_room s))"
    using assms evict_clients_keyed by (auto simp: make_client_room_def Let_def as_inv_def as_keyed_def)
  moreover have "length (as_clients (make_client_room s)) \<le> length (as_clients s)"
    using evict_clients_le by (simp add: make_client_room_def Let_def)
  ultimately show ?thesis using assms by (simp add: as_inv_def as_keyed_def as_within_def)
qed

lemma register_inv:
  assumes "register_client_metadata lib simple_fold clk err draw meta0 s = (res, s')" and "as_inv s"
  shows "as_inv s' \<and> as_options s' = as_options s"
proof -
  let ?s1 = "as_prune (clk 1) s" let ?s2 = "make_client_room ?s1"
  have i1: "as_inv ?s1" and i2: "as_inv ?s2" using assms(2) by (simp_all add: as_prune_inv make_client_room_inv)
  show ?thesis
  proof (cases "s' = s \<or> s' = ?s2")
    case True
    then show ?thesis using assms(2) i2 by auto
  next
    case False
    then obtain meta i where m: "normalized_metadata (al_lower lib) simple_fold meta0 = Inr meta"
        "random_token ''cl_client'' draw = Some i" "int (length (as_clients ?s2)) < so_max_clients (as_options ?s2)"
      using assms(1) by (auto simp: register_client_metadata_def Let_def not_le split: sum.splits metadata_error.splits option.splits if_splits)
    let ?c = "client_of i (rfc3339_nano (clk 0)) meta"
    let ?s3 = "?s2\<lparr>as_clients := gm_put i ?c (as_clients ?s2)\<rparr>"
    obtain e s4 where sv: "as_save lib (clk 2) err ?s3 = (e, s4)" by fastforce
    have "as_keyed ?s3" using i2 by (simp add: as_inv_def as_keyed_def keyed_by_put client_of_def)
    moreover have "int (length (gm_put i ?c (as_clients ?s2))) \<le> so_max_clients (as_options ?s2)"
      using gm_length_put_le [of i ?c "as_clients ?s2"] m(3) by simp
    with i2 have "as_within ?s3" by (simp add: as_inv_def as_within_def)
    ultimately have i4: "as_inv s4" and o4: "as_options s4 = as_options s"
      using as_save_inv [OF sv] as_save_forgets [OF sv] by (auto simp: as_inv_def forgets_def)
    have "s' = s4 \<or> s' = s4\<lparr>as_clients := as_clients ?s1\<rparr>"
      using assms(1) m sv by (auto simp: register_client_metadata_def Let_def not_le [symmetric] split: option.splits)
    then show ?thesis
    proof
      assume s': "s' = s4\<lparr>as_clients := as_clients ?s1\<rparr>"
      have "as_keyed s'" using i4 i1 by (simp add: s' as_inv_def as_keyed_def)
      moreover have "as_within s'" using i4 i1 o4 by (simp add: s' as_inv_def as_within_def)
      ultimately show ?thesis using s' o4 by (simp add: as_inv_def)
    qed (use i4 o4 in simp)
  qed
qed

lemma create_code_cases:
  assumes "create_authorization_code lib clk draw q s = (res, s')"
  shows "s' = s \<or> s' = as_prune (clk 1) s
    \<or> (\<exists>code. random_token ''cl_ac'' draw = Some code \<and> res = Inr code
        \<and> int (length (prune_codes (clk 1) (as_codes s))) < so_max_codes (as_options s)
        \<and> s' = (as_prune (clk 1) s)\<lparr>as_codes := gm_put (hv lib code) (code_record lib s q (clk 0) code) (prune_codes (clk 1) (as_codes s))\<rparr>)"
  using assms by (auto simp: create_authorization_code_def Let_def split: option.splits if_splits)

lemma create_code_inv:
  assumes "create_authorization_code lib clk draw q s = (res, s')" and "as_inv s"
  shows "as_inv s' \<and> as_options s' = as_options s"
proof -
  let ?s = "as_prune (clk 1) s"
  have i: "as_inv ?s" by (rule as_prune_inv [OF assms(2)])
  from create_code_cases [OF assms(1)] consider "s' = s" | "s' = ?s"
    | code where "s' = ?s\<lparr>as_codes := gm_put (hv lib code) (code_record lib s q (clk 0) code) (as_codes ?s)\<rparr>"
        "int (length (as_codes ?s)) < so_max_codes (as_options ?s)"
    by auto
  then show ?thesis
  proof cases
    case (3 code)
    let ?r = "code_record lib s q (clk 0) code"
    have "int (length (gm_put (hv lib code) ?r (as_codes ?s))) \<le> so_max_codes (as_options ?s)"
      using gm_length_put_le [of "hv lib code" ?r "as_codes ?s"] 3(2) by simp
    moreover have "co_hash ?r = hv lib code" by (simp add: code_record_def)
    ultimately show ?thesis using i 3(1) by (simp add: as_inv_def as_keyed_def as_within_def keyed_by_put)
  qed (use assms(2) i in auto)
qed

lemma drop_code_inv: "as_inv s \<Longrightarrow> as_inv (s\<lparr>as_codes := gm_del h (as_codes s)\<rparr>)"
  using gm_length_del_le [of h "as_codes s"] by (auto simp: as_inv_def as_keyed_def as_within_def keyed_by_del)

lemma exchange_inv:
  assumes "exchange_authorization_code lib clk dr err code client_id redirect verifier audience s = (res, s')" and "as_inv s"
  shows "as_inv s' \<and> as_options s' = as_options s"
proof -
  let ?s = "as_prune (clk 0) s" let ?d = "?s\<lparr>as_codes := gm_del (hv lib code) (as_codes ?s)\<rparr>"
  have i: "as_inv ?d" using assms(2) by (intro drop_code_inv as_prune_inv)
  consider "s' = ?d"
    | scopes aud ra where "issue_tokens lib (\<lambda>i. clk (i + 2)) dr err client_id scopes aud [] ra ?d = (res, s')"
    using assms(1) by (auto simp: exchange_authorization_code_def Let_def split: option.splits if_splits)
  then show ?thesis
  proof cases
    case (2 scopes aud ra)
    from issue_tokens_inv [OF this] i show ?thesis by (auto simp: as_inv_def)
  qed (use i in simp)
qed

lemma revoke_family_inv: "as_inv s \<Longrightarrow> as_inv (revoke_family f s)"
  using gm_length_retain_le [of "\<lambda>_ t. tk_family_id t \<noteq> f" "as_tokens s"]
  by (auto simp: revoke_family_def as_inv_def as_keyed_def as_within_def keyed_by_retain intro: gm_all_retain keyed_by_ok)

lemma revoke_family_simps [simp]:
  "as_options (revoke_family f s) = as_options s" "as_workspace_id (revoke_family f s) = as_workspace_id s"
  "as_clients (revoke_family f s) = as_clients s" "as_codes (revoke_family f s) = as_codes s"
  "as_tombstones (revoke_family f s) = as_tombstones s"
  by (simp_all add: revoke_family_def)

lemma save_inv: "as_save lib t err s = (e, s') \<Longrightarrow> as_inv s \<Longrightarrow> as_inv s' \<and> as_options s' = as_options s"
  using as_save_inv as_save_eq by fastforce

text \<open>Rotation of a refresh token and its undoing.\<close>

definition rotated :: "auth_lib \<Rightarrow> string \<Rightarrow> token_record \<Rightarrow> auth_store \<Rightarrow> auth_store" where
  "rotated lib token r s = s\<lparr>as_tokens := gm_del (hv lib token) (as_tokens s),
     as_tombstones := gm_put (hv lib token) (tombstone_of r (hv lib token)) (as_tombstones s)\<rparr>"

definition unrotated :: "auth_lib \<Rightarrow> string \<Rightarrow> token_record \<Rightarrow> auth_store \<Rightarrow> auth_store" where
  "unrotated lib token r s = s\<lparr>as_tombstones := gm_del (hv lib token) (as_tombstones s),
     as_tokens := gm_put (hv lib token) r (as_tokens s)\<rparr>"

lemma as_refresh_cases:
  assumes "as_refresh lib clk dr err token client_id audience s = (res, s')"
  shows "s' = as_prune (clk 0) s
    \<or> (\<exists>tomb e. gm_get (as_tokens (as_prune (clk 0) s)) (hv lib token) = None
        \<and> gm_get (as_tombstones (as_prune (clk 0) s)) (hv lib token) = Some tomb
        \<and> as_save lib (clk 1) err (revoke_family (tb_family_id tomb) (as_prune (clk 0) s)) = (e, s'))
    \<or> (\<exists>r s2. gm_get (as_tokens (as_prune (clk 0) s)) (hv lib token) = Some r
        \<and> refresh_refused lib (clk 2) client_id audience r (as_prune (clk 0) s) = None
        \<and> issue_tokens lib (\<lambda>i. clk (i + 3)) dr err client_id (tk_scopes r) (tk_audience r) (tk_family_id r) True
             (rotated lib token r (as_prune (clk 0) s)) = (res, s2)
        \<and> s' = (case res of Inl _ \<Rightarrow> unrotated lib token r s2 | Inr _ \<Rightarrow> s2))"
proof -
  let ?s = "as_prune (clk 0) s" and ?h = "hv lib token"
  note def = as_refresh_def Let_def rotated_def [symmetric] unrotated_def [symmetric]
  show ?thesis
  proof (cases "gm_get (as_tokens ?s) ?h")
    case None
    show ?thesis
    proof (cases "gm_get (as_tombstones ?s) ?h")
      case n: None
      then have "s' = ?s" using assms None unfolding def by simp
      then show ?thesis by blast
    next
      case (Some tomb)
      obtain e s1 where sv: "as_save lib (clk 1) err (revoke_family (tb_family_id tomb) ?s) = (e, s1)" by fastforce
      then have "s' = s1" using assms None Some unfolding def by (simp split: option.splits)
      then show ?thesis using None Some sv by blast
    qed
  next
    case (Some r)
    show ?thesis
    proof (cases "refresh_refused lib (clk 2) client_id audience r ?s")
      case None
      obtain q s2 where q: "issue_tokens lib (\<lambda>i. clk (i + 3)) dr err client_id (tk_scopes r) (tk_audience r) (tk_family_id r) True
          (rotated lib token r ?s) = (q, s2)" by fastforce
      then have "res = q \<and> s' = (case q of Inl _ \<Rightarrow> unrotated lib token r s2 | Inr _ \<Rightarrow> s2)"
        using assms Some None unfolding def by (cases q) auto
      then show ?thesis using Some None q by blast
    next
      case (Some e)
      then have "s' = ?s" using assms \<open>gm_get (as_tokens ?s) ?h = Some r\<close> unfolding def by simp
      then show ?thesis by blast
    qed
  qed
qed

lemma rotated_inv:
  assumes "as_inv s" and "gm_get (as_tokens s) (hv lib token) = Some r" and "refresh_refused lib t client_id audience r s = None"
  shows "as_inv (rotated lib token r s)"
proof -
  have "int (length (as_tombstones s)) < so_max_tombstones (as_options s)"
    using assms(3) by (auto simp: refresh_refused_def split: if_splits)
  moreover have "length (gm_put (hv lib token) (tombstone_of r (hv lib token)) (as_tombstones s)) \<le> Suc (length (as_tombstones s))"
    by (rule gm_length_put_le)
  moreover have "length (gm_del (hv lib token) (as_tokens s)) \<le> length (as_tokens s)" by (rule gm_length_del_le)
  moreover have "tb_hash (tombstone_of r (hv lib token)) = hv lib token" by (simp add: tombstone_of_def)
  ultimately have "as_within (rotated lib token r s)"
    using assms(1) unfolding as_inv_def as_within_def rotated_def by simp
  moreover have "as_keyed (rotated lib token r s)"
    using assms(1) by (simp add: rotated_def as_inv_def as_keyed_def keyed_by_put keyed_by_del gm_all_del tombstone_of_def)
  ultimately show ?thesis by (simp add: as_inv_def)
qed

lemma unrotated_inv:
  assumes "as_inv s" and "gm_get (as_tokens s) (hv lib token) = Some r" and "forgets (rotated lib token r s) s2" and "as_inv s2"
  shows "as_inv (unrotated lib token r s2)"
proof -
  let ?h = "hv lib token"
  have r: "tk_hash r = ?h" "upgrade_token r = r"
    using assms(1) keyed_byD [OF _ assms(2)] gm_allD [OF _ assms(2), of "\<lambda>t. upgrade_token t = t"]
    by (simp_all add: as_inv_def as_keyed_def)
  then have k: "as_keyed (unrotated lib token r s2)"
    using assms(4) by (simp add: unrotated_def as_inv_def as_keyed_def keyed_by_put keyed_by_del gm_all_put)
  have "length (gm_put ?h r (as_tokens s2)) \<le> length (as_tokens s)"
  proof (rule gm_length_mono)
    fix k v assume "gm_get (gm_put ?h r (as_tokens s2)) k = Some v"
    then show "gm_get (as_tokens s) k \<noteq> None"
      using assms(2,3) by (auto simp: gomap_simps forgets_def map_le_iff rotated_def split: if_splits)
  qed (use assms(1,4) in \<open>simp_all add: as_inv_def\<close>)
  moreover have "length (gm_del ?h (as_tombstones s2)) \<le> length (as_tombstones s2)" by (rule gm_length_del_le)
  moreover have "as_options s2 = as_options s" using assms(3) by (simp add: forgets_def rotated_def)
  ultimately have "as_within (unrotated lib token r s2)"
    using assms(1,4) by (auto simp: as_inv_def as_within_def unrotated_def)
  with k show ?thesis by (simp add: as_inv_def)
qed

lemma refresh_inv:
  assumes "as_refresh lib clk dr err token client_id audience s = (res, s')" and "as_inv s"
  shows "as_inv s' \<and> as_options s' = as_options s"
proof -
  let ?s = "as_prune (clk 0) s"
  have i: "as_inv ?s" by (rule as_prune_inv [OF assms(2)])
  from as_refresh_cases [OF assms(1)] show ?thesis
  proof (elim disjE exE conjE)
    assume "s' = ?s"
    then show ?thesis using i by simp
  next
    fix tomb e assume "as_save lib (clk 1) err (revoke_family (tb_family_id tomb) ?s) = (e, s')"
    from save_inv [OF this] show ?thesis using revoke_family_inv [OF i] by simp
  next
    fix r s2 assume r: "gm_get (as_tokens ?s) (hv lib token) = Some r"
        "refresh_refused lib (clk 2) client_id audience r ?s = None"
      and issue: "issue_tokens lib (\<lambda>i. clk (i + 3)) dr err client_id (tk_scopes r) (tk_audience r) (tk_family_id r) True
         (rotated lib token r ?s) = (res, s2)"
      and s': "s' = (case res of Inl _ \<Rightarrow> unrotated lib token r s2 | Inr _ \<Rightarrow> s2)"
    have rot: "as_inv (rotated lib token r ?s)" by (rule rotated_inv [OF i r])
    have s2: "as_inv s2" "as_options s2 = as_options s"
      using issue_tokens_inv [OF issue] rot by (auto simp: as_inv_def rotated_def)
    show ?thesis
    proof (cases res)
      case (Inl e)
      from issue_tokens_error [OF issue [unfolded Inl]] rot
      have "forgets (rotated lib token r ?s) s2" by (simp add: as_inv_def)
      from unrotated_inv [OF i r(1) this s2(1)] show ?thesis using s' Inl s2(2) by (simp add: unrotated_def)
    qed (use s' s2 in simp)
  qed
qed

section \<open>Calls and runs\<close>

datatype auth_call =
    CallRegister "nat \<Rightarrow> time" "string option" "string option" client_metadata
  | CallCode "nat \<Rightarrow> time" "string option" code_request
  | CallExchange "nat \<Rightarrow> time" draws "string option" string string string string string
  | CallRefresh "nat \<Rightarrow> time" draws "string option" string string string
  | CallRevoke time "string option" string
  | CallRevokeAll time "string option"
  | CallRevokeAudience time "string option" string

fun auth_step :: "auth_lib \<Rightarrow> (nat \<Rightarrow> nat) \<Rightarrow> auth_store \<Rightarrow> auth_call \<Rightarrow> auth_store" where
  "auth_step lib sf s (CallRegister clk err draw m) = snd (register_client_metadata lib sf clk err draw m s)"
| "auth_step lib sf s (CallCode clk draw q) = snd (create_authorization_code lib clk draw q s)"
| "auth_step lib sf s (CallExchange clk dr err code client redirect verifier aud) =
     snd (exchange_authorization_code lib clk dr err code client redirect verifier aud s)"
| "auth_step lib sf s (CallRefresh clk dr err token client aud) = snd (as_refresh lib clk dr err token client aud s)"
| "auth_step lib sf s (CallRevoke t err token) = snd (as_revoke lib t err token s)"
| "auth_step lib sf s (CallRevokeAll t err) = snd (snd (revoke_all lib t err s))"
| "auth_step lib sf s (CallRevokeAudience t err aud) = snd (snd (revoke_audience lib t err aud s))"

text \<open>What \<open>Revoke\<close> saves.\<close>

lemma as_revoke_eq:
  "\<exists>s1. as_revoke lib t err token s = as_save lib t err s1
    \<and> (s1 = without_token (hv lib token) s \<or> (\<exists>f. s1 = revoke_family f s) \<or> s1 = s)"
proof (cases "gm_get (as_tokens s) (hv lib token)")
  case (Some r)
  then show ?thesis by (cases "tk_family_id r = []") (auto simp: as_revoke_def Let_def without_token_def)
next
  case None
  then show ?thesis by (cases "gm_get (as_tombstones s) (hv lib token)") (auto simp: as_revoke_def Let_def)
qed

lemma without_token_inv: "as_inv s \<Longrightarrow> as_inv (without_token k s)"
  using gm_length_del_le [of k "as_tokens s"] by (auto simp: as_inv_def without_token_keyed as_within_def)

lemma revoke_inv:
  assumes "as_inv s" shows "as_inv (snd (as_revoke lib t err token s)) \<and> as_options (snd (as_revoke lib t err token s)) = as_options s"
proof -
  obtain s1 where s1: "as_revoke lib t err token s = as_save lib t err s1"
      "s1 = without_token (hv lib token) s \<or> (\<exists>f. s1 = revoke_family f s) \<or> s1 = s"
    using as_revoke_eq by blast
  obtain e s2 where sv: "as_save lib t err s1 = (e, s2)" by fastforce
  have "as_inv s1 \<and> as_options s1 = as_options s"
    using s1(2) assms by (auto simp: without_token_inv revoke_family_inv)
  with save_inv [OF sv] show ?thesis by (simp add: s1(1) sv)
qed

lemma revoke_all_inv:
  assumes "as_inv s" and "0 \<le> so_max_tokens (as_options s)" and "0 \<le> so_max_codes (as_options s)" and "0 \<le> so_max_tombstones (as_options s)"
  shows "as_inv (snd (snd (revoke_all lib t err s))) \<and> as_options (snd (snd (revoke_all lib t err s))) = as_options s"
proof -
  let ?s = "s\<lparr>as_tokens := [], as_codes := [], as_tombstones := []\<rparr>"
  obtain e s2 where sv: "as_save lib t err ?s = (e, s2)" by fastforce
  have "as_inv ?s" using assms by (simp add: as_inv_def as_keyed_def as_within_def)
  from save_inv [OF sv this] show ?thesis by (simp add: revoke_all_def sv)
qed

lemma revoke_audience_inv:
  assumes "as_inv s"
  shows "as_inv (snd (snd (revoke_audience lib t err aud s))) \<and> as_options (snd (snd (revoke_audience lib t err aud s))) = as_options s"
proof -
  let ?P = "\<lambda>_ t. \<not> same_resource (al_lower lib) (tk_audience t) aud"
  let ?Q = "\<lambda>_ t. \<not> same_resource (al_lower lib) (tb_audience t) aud"
  let ?s = "s\<lparr>as_tokens := gm_retain ?P (as_tokens s), as_tombstones := gm_retain ?Q (as_tombstones s)\<rparr>"
  obtain e s2 where sv: "as_save lib t err ?s = (e, s2)" by fastforce
  have "as_keyed ?s" using assms
    by (auto simp: as_inv_def as_keyed_def intro: keyed_by_retain gm_all_retain keyed_by_ok)
  moreover have "as_within ?s"
    using assms gm_length_retain_le [of ?P "as_tokens s"] gm_length_retain_le [of ?Q "as_tombstones s"]
    by (simp add: as_inv_def as_within_def)
  ultimately have "as_inv ?s" by (simp add: as_inv_def)
  from save_inv [OF sv this] show ?thesis by (simp add: revoke_audience_def Let_def sv)
qed

definition auth_good :: "auth_store \<Rightarrow> bool" where
  "auth_good s \<longleftrightarrow> as_inv s \<and> 0 < so_max_tokens (as_options s) \<and> 0 < so_max_codes (as_options s)
     \<and> 0 < so_max_tombstones (as_options s)"

lemma auth_step_inv:
  assumes "auth_good s"
  shows "auth_good (auth_step lib sf s c) \<and> as_options (auth_step lib sf s c) = as_options s"
proof -
  have "as_inv (auth_step lib sf s c) \<and> as_options (auth_step lib sf s c) = as_options s"
  proof (cases c)
    case (CallRegister clk err draw m)
    then show ?thesis using assms register_inv [OF prod.collapse [symmetric]] by (simp add: auth_good_def)
  next
    case (CallCode clk draw q)
    then show ?thesis using assms create_code_inv [OF prod.collapse [symmetric]] by (simp add: auth_good_def)
  next
    case (CallExchange clk dr err code client redirect verifier aud)
    then show ?thesis using assms exchange_inv [OF prod.collapse [symmetric]] by (simp add: auth_good_def)
  next
    case (CallRefresh clk dr err token client aud)
    then show ?thesis using assms refresh_inv [OF prod.collapse [symmetric]] by (simp add: auth_good_def)
  next
    case (CallRevoke t err token)
    then show ?thesis using assms revoke_inv by (simp add: auth_good_def)
  next
    case (CallRevokeAll t err)
    then show ?thesis using assms revoke_all_inv [of s lib t err] by (simp add: auth_good_def)
  next
    case (CallRevokeAudience t err aud)
    then show ?thesis using assms revoke_audience_inv [of s lib t err aud] by (simp add: auth_good_def)
  qed
  with assms show ?thesis by (simp add: auth_good_def)
qed

interpretation auth: guarded_machine "auth_step lib sf" "\<lambda>_ _. True" auth_good for lib sf
  by unfold_locales (simp add: auth_step_inv)

lemma auth_run_options: "auth_good s \<Longrightarrow> as_options (run_calls (auth_step lib sf) s cs) = as_options s"
  by (induction cs arbitrary: s) (simp_all add: auth_step_inv)

section \<open>Opening\<close>

lemma upgrade_twice [simp]: "upgrade_token (upgrade_token t) = upgrade_token t"
  by (simp add: upgrade_token_def)

lemma new_auth_store_good:
  assumes "new_auth_store wid opts file now = Inr s"
  shows "auth_good s \<and> as_workspace_id s = wid \<and> as_options s = apply_store_defaults opts"
proof -
  let ?o = "apply_store_defaults opts"
  have pos: "0 < so_max_clients ?o" "0 < so_max_tokens ?o" "0 < so_max_codes ?o" "0 < so_max_tombstones ?o"
    by (auto simp: apply_store_defaults_def default_int_def)
  consider "s = \<lparr>as_workspace_id = wid, as_options = ?o, as_clients = [], as_tokens = [], as_codes = [],
        as_tombstones = [], as_file = None\<rparr>"
    | st where "s = \<lparr>as_workspace_id = wid, as_options = ?o, as_clients = load_clients (ps_clients st),
        as_tokens = load_tokens (unix_milli now) (ps_tokens st), as_codes = [],
        as_tombstones = load_tombstones (unix_milli now) (ps_tombstones st), as_file = Some st\<rparr>"
      "int (length (ps_clients st)) \<le> so_max_clients ?o" "int (length (ps_tokens st)) \<le> so_max_tokens ?o"
      "int (length (ps_tombstones st)) \<le> so_max_tombstones ?o"
    using assms by (auto simp: new_auth_store_def Let_def not_less split: sum.splits option.splits prod.splits if_splits)
  then show ?thesis
  proof cases
    case 1
    with pos show ?thesis by (simp add: auth_good_def as_inv_def as_keyed_def as_within_def)
  next
    case (2 st)
    have "gm_all (\<lambda>t. upgrade_token t = t) (load_tokens (unix_milli now) (ps_tokens st))"
      unfolding gm_all_def load_tokens_def using gm_load_mem by fastforce
    moreover have "length (load_clients (ps_clients st)) \<le> length (ps_clients st)"
      "length (load_tokens (unix_milli now) (ps_tokens st)) \<le> length (ps_tokens st)"
      "length (load_tombstones (unix_milli now) (ps_tombstones st)) \<le> length (ps_tombstones st)"
      by (simp_all add: load_clients_def load_tokens_def load_tombstones_def gm_load_length)
    ultimately show ?thesis using 2 pos
      by (simp add: auth_good_def as_inv_def as_keyed_def as_within_def load_clients_def load_tokens_def
          load_tombstones_def gm_load_keyed)
  qed
qed

text \<open>
  after any sequence of calls, with any clocks, random draws and write errors, the store stays
  within every configured capacity: clients, tokens, authorization codes and replay records.
\<close>

theorem auth_store_stays_within_capacity:
  assumes "new_auth_store wid opts file now = Inr s"
  shows "int (length (as_clients (run_calls (auth_step lib sf) s cs))) \<le> so_max_clients (apply_store_defaults opts)
    \<and> int (length (as_tokens (run_calls (auth_step lib sf) s cs))) \<le> so_max_tokens (apply_store_defaults opts)
    \<and> int (length (as_codes (run_calls (auth_step lib sf) s cs))) \<le> so_max_codes (apply_store_defaults opts)
    \<and> int (length (as_tombstones (run_calls (auth_step lib sf) s cs))) \<le> so_max_tombstones (apply_store_defaults opts)"
proof -
  have good: "auth_good s" "as_options s = apply_store_defaults opts" using new_auth_store_good [OF assms] by auto
  have "auth_good (run_calls (auth_step lib sf) s cs)" by (rule auth.run_inv [OF good(1)]) simp
  then show ?thesis using auth_run_options [OF good(1)] good(2) by (simp add: auth_good_def as_inv_def as_within_def)
qed

text \<open>A store that starts without a file, and a call.\<close>

definition example_lib :: auth_lib where
  "example_lib = \<lparr>al_sha256 = id, al_text_length = (\<lambda>_. 0), al_lower = id\<rparr>"

definition example_options :: store_options where
  "example_options = \<lparr>so_access_ttl = 0, so_refresh_ttl = 0, so_code_ttl = 0, so_max_clients = 2, so_max_tokens = 4,
     so_max_codes = 1, so_max_tombstones = 4, so_max_state_bytes = 0\<rparr>"

definition example_store :: auth_store where
  "example_store = \<lparr>as_workspace_id = ''w'', as_options = apply_store_defaults example_options, as_clients = [],
     as_tokens = [], as_codes = [], as_tombstones = [], as_file = None\<rparr>"

definition example_request :: code_request where
  "example_request = \<lparr>cr_client_id = ''c'', cr_redirect_uri = ''r'', cr_challenge = ''h'', cr_scopes = [''git.read''],
     cr_pairing_id = ''p'', cr_audience = [], cr_refresh_allowed = False\<rparr>"

lemma example_store_opens: "new_auth_store ''w'' example_options (Inr None) 0 = Inr example_store"
  by (simp add: new_auth_store_def example_store_def)

lemma example_store_good: "auth_good example_store"
  using new_auth_store_good [OF example_store_opens] by simp

theorem auth_store_stays_within_capacity_witness:
  "int (length (as_codes (run_calls (auth_step example_lib id) example_store
     [CallCode (\<lambda>i. int i) (Some ''a'') example_request, CallCode (\<lambda>i. int i) (Some ''b'') example_request]))) \<le> 1"
proof -
  have "so_max_codes (apply_store_defaults example_options) = 1"
    by (simp add: apply_store_defaults_def default_int_def example_options_def)
  then show ?thesis
    using auth_store_stays_within_capacity [OF example_store_opens, of example_lib id
        "[CallCode (\<lambda>i. int i) (Some ''a'') example_request, CallCode (\<lambda>i. int i) (Some ''b'') example_request]"]
    by simp
qed

section \<open>Authorization codes\<close>

lemma save_codes:
  assumes "as_save lib t err s = (e, s')" and "gm_ok (as_codes s)" and "gm_get (as_codes s') k = Some r"
  shows "gm_get (as_codes s) k = Some r"
  using as_save_eq [OF assms(1)] assms(2,3) by (auto simp: get_prune_codes)

lemma issue_codes:
  assumes "issue_tokens lib clk dr err client_id scopes audience family0 ra s0 = (res, s')" and "as_keyed s0"
    and "gm_get (as_codes s') k = Some r"
  shows "gm_get (as_codes s0) k = Some r"
proof (cases res)
  case (Inl e)
  with issue_tokens_error [OF _ assms(2)] assms(1,3) forgets_code show ?thesis by blast
next
  case (Inr ts)
  obtain family refresh where
    sv: "as_save lib (clk 2) err (granted_store lib (ts_access ts) refresh client_id family scopes audience ra (clk 1) (as_prune (clk 0) s0)) = (None, s')"
    using issue_tokens_ok [OF assms(1) [unfolded Inr]] by blast
  have "gm_ok (prune_codes (clk 0) (as_codes s0))" using assms(2) by (simp add: codes.ok_prune)
  then show ?thesis using save_codes [OF sv _ assms(3)] assms(2) by (simp add: get_prune_codes)
qed

lemma exchange_codes:
  assumes "exchange_authorization_code lib clk dr err code client_id redirect verifier audience s = (res, s')" and "as_keyed s"
    and "gm_get (as_codes s') k = Some r"
  shows "gm_get (as_codes s) k = Some r \<and> k \<noteq> hv lib code"
proof -
  let ?s = "as_prune (clk 0) s" let ?d = "?s\<lparr>as_codes := gm_del (hv lib code) (as_codes ?s)\<rparr>"
  have d: "as_keyed ?d" using as_prune_keyed [OF assms(2), of "clk 0"] by (simp add: as_keyed_def keyed_by_del)
  consider "s' = ?d"
    | scopes aud ra where "issue_tokens lib (\<lambda>i. clk (i + 2)) dr err client_id scopes aud [] ra ?d = (res, s')"
    using assms(1) by (auto simp: exchange_authorization_code_def Let_def split: option.splits if_splits)
  then have "gm_get (as_codes ?d) k = Some r"
  proof cases
    case (2 scopes aud ra)
    then show ?thesis using issue_codes [OF _ d] assms(3) by blast
  qed (use assms(3) in simp)
  then show ?thesis using assms(2) by (auto simp: gomap_simps get_prune_codes split: if_splits)
qed

lemma register_codes:
  assumes "gm_get (as_codes (snd (register_client_metadata lib sf clk err draw m s))) k = Some r" and "as_keyed s"
  shows "gm_get (as_codes s) k = Some r"
proof -
  let ?s2 = "make_client_room (as_prune (clk 1) s)"
  have ok: "gm_ok (prune_codes (clk 1) (as_codes s))" using assms(2) by (simp add: codes.ok_prune)
  consider "gm_get (as_codes s) k = Some r" | "gm_get (prune_codes (clk 1) (as_codes s)) k = Some r"
    | cs e s4 where "as_save lib (clk 2) err (?s2\<lparr>as_clients := cs\<rparr>) = (e, s4)" "gm_get (as_codes s4) k = Some r"
    using assms(1) by (auto simp: register_client_metadata_def Let_def split: sum.splits metadata_error.splits option.splits if_splits prod.splits)
  then show ?thesis
  proof cases
    case (3 cs e s4)
    then show ?thesis using save_codes [OF 3(1)] ok assms(2) by (simp add: get_prune_codes)
  qed (use assms(2) in \<open>simp_all add: get_prune_codes\<close>)
qed

lemma refresh_codes:
  assumes "as_refresh lib clk dr err token client_id audience s = (res, s')" and "as_inv s" and "gm_get (as_codes s') k = Some r"
  shows "gm_get (as_codes s) k = Some r"
proof -
  let ?s = "as_prune (clk 0) s"
  have i: "as_inv ?s" by (rule as_prune_inv [OF assms(2)])
  have "gm_get (as_codes ?s) k = Some r"
    using as_refresh_cases [OF assms(1)]
  proof (elim disjE exE conjE)
    fix tomb e assume "as_save lib (clk 1) err (revoke_family (tb_family_id tomb) ?s) = (e, s')"
    from save_codes [OF this] show ?thesis using as_keyed_ok [of ?s] i assms(3) by (simp add: as_inv_def)
  next
    fix q s2 assume q: "gm_get (as_tokens ?s) (hv lib token) = Some q"
        "refresh_refused lib (clk 2) client_id audience q ?s = None"
      and issue: "issue_tokens lib (\<lambda>i. clk (i + 3)) dr err client_id (tk_scopes q) (tk_audience q) (tk_family_id q) True
         (rotated lib token q ?s) = (res, s2)"
      and s': "s' = (case res of Inl _ \<Rightarrow> unrotated lib token q s2 | Inr _ \<Rightarrow> s2)"
    have "gm_get (as_codes s2) k = Some r" using assms(3) s' by (auto simp: unrotated_def split: sum.splits)
    moreover have "as_keyed (rotated lib token q ?s)" using rotated_inv [OF i q] by (simp add: as_inv_def)
    ultimately have "gm_get (as_codes (rotated lib token q ?s)) k = Some r" using issue_codes [OF issue] by blast
    then show ?thesis by (simp add: rotated_def)
  qed (use assms(3) in simp)
  then show ?thesis using assms(2) by (simp add: as_inv_def get_prune_codes)
qed

lemma revoke_codes:
  assumes "gm_get (as_codes (snd (as_revoke lib t err token s))) k = Some r" and "as_keyed s"
  shows "gm_get (as_codes s) k = Some r"
proof -
  obtain s1 where s1: "as_revoke lib t err token s = as_save lib t err s1"
      "s1 = without_token (hv lib token) s \<or> (\<exists>f. s1 = revoke_family f s) \<or> s1 = s"
    using as_revoke_eq by blast
  then have "as_codes s1 = as_codes s" by auto
  moreover obtain e s2 where sv: "as_save lib t err s1 = (e, s2)" by fastforce
  ultimately show ?thesis using save_codes [OF sv] assms s1(1) by simp
qed

text \<open>Only \<open>CreateAuthorizationCode\<close> adds a code.\<close>

lemma auth_step_codes:
  assumes "auth_good s" and "gm_get (as_codes (auth_step lib sf s c)) k = Some r"
  shows "gm_get (as_codes s) k = Some r
    \<or> (\<exists>clk draw q code. c = CallCode clk draw q \<and> random_token ''cl_ac'' draw = Some code \<and> hv lib code = k)"
proof -
  have i: "as_inv s" and keyed: "as_keyed s" using assms(1) by (simp_all add: auth_good_def as_inv_def)
  show ?thesis
  proof (cases c)
    case (CallRegister clk err draw m)
    then show ?thesis using register_codes [OF _ keyed] assms(2) by simp
  next
    case (CallCode clk draw q)
    obtain res s' where cc: "create_authorization_code lib clk draw q s = (res, s')" by fastforce
    then have get: "gm_get (as_codes s') k = Some r" using assms(2) CallCode by simp
    from create_code_cases [OF cc] show ?thesis
    proof (elim disjE exE conjE)
      fix code assume code: "random_token ''cl_ac'' draw = Some code"
        "s' = (as_prune (clk 1) s)\<lparr>as_codes := gm_put (hv lib code) (code_record lib s q (clk 0) code) (prune_codes (clk 1) (as_codes s))\<rparr>"
      show ?thesis
      proof (cases "k = hv lib code")
        case True
        with code CallCode show ?thesis by blast
      next
        case False
        with get code(2) keyed show ?thesis by (simp add: gomap_simps get_prune_codes)
      qed
    qed (use get keyed in \<open>simp_all add: get_prune_codes\<close>)
  next
    case (CallExchange clk dr err code client redirect verifier aud)
    then show ?thesis using exchange_codes [OF prod.collapse [symmetric] keyed] assms(2) by simp
  next
    case (CallRefresh clk dr err token client aud)
    then show ?thesis using refresh_codes [OF prod.collapse [symmetric] i] assms(2) by simp
  next
    case (CallRevoke t err token)
    then show ?thesis using revoke_codes [OF _ keyed] assms(2) by simp
  next
    case (CallRevokeAll t err)
    obtain e s2 where sv: "as_save lib t err (s\<lparr>as_tokens := [], as_codes := [], as_tombstones := []\<rparr>) = (e, s2)"
      by fastforce
    have "gm_get (as_codes s2) k = Some r" using assms(2) CallRevokeAll sv by (simp add: revoke_all_def)
    from save_codes [OF sv _ this] show ?thesis by simp
  next
    case (CallRevokeAudience t err aud)
    obtain s1 where s1: "snd (revoke_audience lib t err aud s) = as_save lib t err s1" "as_codes s1 = as_codes s"
      by (simp add: revoke_audience_def Let_def)
    obtain e s2 where sv: "as_save lib t err s1 = (e, s2)" by fastforce
    have "gm_get (as_codes s2) k = Some r" using assms(2) CallRevokeAudience s1 sv by simp
    from save_codes [OF sv _ this] show ?thesis using s1(2) keyed by simp
  qed
qed

text \<open>A call that does not create this very code.\<close>

definition other_code :: "auth_lib \<Rightarrow> string \<Rightarrow> auth_call \<Rightarrow> bool" where
  "other_code lib code c \<longleftrightarrow>
    (case c of CallCode clk draw q \<Rightarrow> (case random_token ''cl_ac'' draw of None \<Rightarrow> True | Some i \<Rightarrow> hv lib i \<noteq> hv lib code)
     | _ \<Rightarrow> True)"

lemma run_without_code:
  assumes "auth_good s" and "gm_get (as_codes s) (hv lib code) = None" and "list_all (other_code lib code) cs"
  shows "gm_get (as_codes (run_calls (auth_step lib sf) s cs)) (hv lib code) = None"
  using assms
proof (induction cs arbitrary: s)
  case (Cons c cs)
  have "gm_get (as_codes (auth_step lib sf s c)) (hv lib code) = None"
  proof (rule ccontr)
    assume "gm_get (as_codes (auth_step lib sf s c)) (hv lib code) \<noteq> None"
    then obtain r where "gm_get (as_codes (auth_step lib sf s c)) (hv lib code) = Some r" by blast
    from auth_step_codes [OF Cons.prems(1) this] Cons.prems(2,3) show False by (auto simp: other_code_def)
  qed
  with Cons.IH [of "auth_step lib sf s c"] Cons.prems show ?case by (simp add: auth_step_inv)
qed simp

lemma exchange_unknown:
  assumes "gm_get (as_codes s) (hv lib code) = None" and "as_keyed s"
  shows "fst (exchange_authorization_code lib clk dr err code client redirect verifier aud s) = Inl ErrInvalidGrant"
proof -
  have "gm_get (prune_codes (clk 0) (as_codes s)) (hv lib code) = None"
    using assms by (simp add: codes.get_prune)
  then show ?thesis by (simp add: exchange_authorization_code_def Let_def)
qed

text \<open>
  C23: an authorization code is spent by the first attempt to exchange it, whatever the outcome:
  after that attempt and any further calls, exchanging the same code again is refused.
\<close>

theorem authorization_code_is_single_use:
  assumes "auth_good s" and "list_all (other_code lib code) cs"
  shows "fst (exchange_authorization_code lib clk' dr' err' code client' redirect' verifier' aud'
     (run_calls (auth_step lib sf) (snd (exchange_authorization_code lib clk dr err code client redirect verifier aud s)) cs))
     = Inl ErrInvalidGrant"
proof -
  obtain res s1 where ex: "exchange_authorization_code lib clk dr err code client redirect verifier aud s = (res, s1)" by fastforce
  have keyed: "as_keyed s" using assms(1) by (simp add: auth_good_def as_inv_def)
  have "gm_get (as_codes s1) (hv lib code) = None"
    using exchange_codes [OF ex keyed, of "hv lib code"] by (cases "gm_get (as_codes s1) (hv lib code)") auto
  moreover have good: "auth_good s1" using auth_step_inv [OF assms(1), of lib sf "CallExchange clk dr err code client redirect verifier aud"] ex by simp
  ultimately have none: "gm_get (as_codes (run_calls (auth_step lib sf) s1 cs)) (hv lib code) = None"
    using run_without_code assms(2) by blast
  have "auth_good (run_calls (auth_step lib sf) s1 cs)" by (rule auth.run_inv [OF good]) simp
  then have "as_keyed (run_calls (auth_step lib sf) s1 cs)" by (simp add: auth_good_def as_inv_def)
  from exchange_unknown [OF none this] show ?thesis by (simp add: ex)
qed

theorem authorization_code_is_single_use_witness:
  "fst (exchange_authorization_code example_lib int \<lparr>dr_access = None, dr_family = None, dr_refresh = None\<rparr> None
       ''cl_ac_YQ'' ''c'' ''r'' ''v'' []
     (run_calls (auth_step example_lib id)
       (snd (exchange_authorization_code example_lib int \<lparr>dr_access = None, dr_family = None, dr_refresh = None\<rparr> None
          ''cl_ac_YQ'' ''c'' ''r'' ''v'' [] (auth_step example_lib id example_store (CallCode int (Some ''a'') example_request))))
       [CallRevoke 3 None ''x''])) = Inl ErrInvalidGrant"
proof (rule authorization_code_is_single_use)
  show "auth_good (auth_step example_lib id example_store (CallCode int (Some ''a'') example_request))"
    using auth_step_inv [OF example_store_good] by blast
qed (simp add: other_code_def)

end
