(* ===== verification/Resolver.thy ===== *)
theory Resolver
  imports AuthProps
begin

text \<open>
  \<open>HTTPClientMetadataResolver\<close> of \<open>internal/auth/client_metadata.go\<close>: the whole of \<open>Resolve\<close>.  The
  network is the environment: \<open>net_lookup\<close> is the DNS resolver (the addresses of a host as byte
  strings), \<open>net_fetch\<close> the HTTPS request over a connection to one of the approved addresses, which
  yields a status and a body, and \<open>net_decode\<close> the JSON decoder (one object and nothing after it).
\<close>

record net_env =
  net_lookup :: "string \<Rightarrow> string list option"
  net_fetch :: "string list \<Rightarrow> url \<Rightarrow> (nat \<times> string option) option"
  net_decode :: "string \<Rightarrow> client_metadata option"
  net_lower :: "nat \<Rightarrow> nat"
  net_fold :: "nat \<Rightarrow> nat"

record metadata_resolver =
  mr_timeout :: duration
  mr_cache_ttl :: duration
  mr_max_entries :: int
  mr_cache :: "(string, auth_client cache_entry) gomap"

datatype resolve_error =
    BadClientId | LookupFailed | NonPublicAddress | FetchFailed | BadStatus nat | ReadFailed
  | DocumentTooLarge | BadDocument | BadMetadata metadata_error | ClientIdMismatch | NoClientName

definition new_metadata_resolver :: metadata_resolver where
  "new_metadata_resolver = \<lparr>mr_timeout = 8 * second, mr_cache_ttl = 5 * minute, mr_max_entries = 128, mr_cache = []\<rparr>"

text \<open>The zero value is usable: \<open>Resolve\<close> fills in the defaults.\<close>

definition resolver_defaults :: "metadata_resolver \<Rightarrow> metadata_resolver" where
  "resolver_defaults r = r\<lparr>mr_timeout := default_int (mr_timeout r) (8 * second),
     mr_cache_ttl := default_int (mr_cache_ttl r) (5 * minute), mr_max_entries := default_int (mr_max_entries r) 128\<rparr>"

text \<open>All addresses of the host must be public; one that is not refuses the host.\<close>

fun approve_addresses :: "string list \<Rightarrow> string list \<Rightarrow> string list option" where
  "approve_addresses approved [] = Some approved"
| "approve_addresses approved (a # as) =
    (if \<not> public_metadata_ip a then None else approve_addresses (approved @ [a]) as)"

text \<open>The dialer tries the approved addresses in turn.\<close>

fun dial_approved :: "(string \<Rightarrow> 'e + 'c) \<Rightarrow> 'e option \<Rightarrow> string list \<Rightarrow> ('e option) + 'c" where
  "dial_approved dial last_err [] = Inl last_err"
| "dial_approved dial last_err (ip # ips) =
    (case dial ip of Inr connection \<Rightarrow> Inr connection | Inl e \<Rightarrow> dial_approved dial (Some e) ips)"

definition client_of_document :: "string \<Rightarrow> time \<Rightarrow> client_metadata \<Rightarrow> auth_client" where
  "client_of_document client_id now m =
    \<lparr>ac_id = client_id, ac_name = cm_client_name m, ac_redirect_uris = cm_redirect_uris m,
     ac_auth_method = cm_auth_method m, ac_grant_types = cm_grant_types m, ac_response_types = cm_response_types m,
     ac_application_type = cm_application_type m, ac_jwks_uri = cm_jwks_uri m, ac_signing_alg = cm_signing_alg m,
     ac_created_at = rfc3339_nano now\<rparr>"

text \<open>From the response to the client.\<close>

definition check_document ::
  "net_env \<Rightarrow> string \<Rightarrow> time \<Rightarrow> nat \<times> string option \<Rightarrow> resolve_error + auth_client" where
  "check_document env client_id now response =
    (if fst response \<noteq> 200 then Inl (BadStatus (fst response))
     else case snd response of
       None \<Rightarrow> Inl ReadFailed
     | Some body \<Rightarrow>
        if 256 * 1024 < length body then Inl DocumentTooLarge
        else case net_decode env body of
          None \<Rightarrow> Inl BadDocument
        | Some metadata0 \<Rightarrow>
           case normalized_metadata (net_lower env) (net_fold env) metadata0 of
             Inl e \<Rightarrow> Inl (BadMetadata e)
           | Inr metadata \<Rightarrow>
              if cm_client_id metadata \<noteq> client_id then Inl ClientIdMismatch
              else if cm_client_name metadata = [] then Inl NoClientName
              else Inr (client_of_document client_id now metadata))"

text \<open>What happens between the two critical sections.\<close>

definition fetch_client :: "net_env \<Rightarrow> string \<Rightarrow> url \<Rightarrow> time \<Rightarrow> resolve_error + auth_client" where
  "fetch_client env client_id parsed now =
    (case net_lookup env (url_hostname parsed) of
       None \<Rightarrow> Inl LookupFailed
     | Some addresses \<Rightarrow>
        if length addresses = 0 then Inl LookupFailed
        else case approve_addresses [] addresses of
          None \<Rightarrow> Inl NonPublicAddress
        | Some approved \<Rightarrow>
            case net_fetch env approved parsed of
              None \<Rightarrow> Inl FetchFailed
            | Some response \<Rightarrow> check_document env client_id now response)"

text \<open>
  \<open>Resolve\<close>: the clock is read before the cache lookup (\<open>clk 0\<close>), for the creation time (\<open>clk 1\<close>) and
  before the insertion (\<open>clk 2\<close>).
\<close>

definition resolve_client ::
  "net_env \<Rightarrow> (nat \<Rightarrow> time) \<Rightarrow> string \<Rightarrow> metadata_resolver \<Rightarrow> (resolve_error + auth_client) \<times> metadata_resolver" where
  "resolve_client env clk client_id r0 =
    (case parse_metadata_client_id client_id of
       None \<Rightarrow> (Inl BadClientId, r0)
     | Some parsed \<Rightarrow>
        let r = resolver_defaults r0;
            (cached, cache1) = cache_lookup (clk 0) client_id (mr_cache r);
            r1 = r\<lparr>mr_cache := cache1\<rparr>
        in case cached of
             Some c \<Rightarrow> (Inr c, r1)
           | None \<Rightarrow>
               case fetch_client env client_id parsed (clk 1) of
                 Inl e \<Rightarrow> (Inl e, r1)
               | Inr c \<Rightarrow>
                   (Inr c, r1\<lparr>mr_cache := cache_insert (nat (mr_max_entries r)) (mr_cache_ttl r) (clk 2) client_id c cache1\<rparr>))"

section \<open>Which clients it returns\<close>

lemma approve_addresses_ok: "approve_addresses acc as = Some r \<Longrightarrow> r = acc @ as \<and> list_all public_metadata_ip as"
  by (induction as arbitrary: acc) (fastforce split: if_splits)+

lemma dial_approved_public:
  "dial_approved dial e ips = Inr c \<Longrightarrow> \<exists>ip\<in>set ips. dial ip = Inr c"
  by (induction ips arbitrary: e) (auto split: sum.splits)

text \<open>What a client identified by a metadata document must satisfy.\<close>

definition document_client :: "(nat \<Rightarrow> nat) \<Rightarrow> string \<Rightarrow> auth_client \<Rightarrow> bool" where
  "document_client low client_id c \<longleftrightarrow> ac_id c = client_id \<and> ac_name c \<noteq> [] \<and> ac_redirect_uris c \<noteq> []
     \<and> list_all (allowed_redirect_uri low) (ac_redirect_uris c)
     \<and> ''authorization_code'' \<in> set (ac_grant_types c) \<and> ac_auth_method c \<in> {''none'', ''private_key_jwt''}"

definition resolver_inv :: "(nat \<Rightarrow> nat) \<Rightarrow> metadata_resolver \<Rightarrow> bool" where
  "resolver_inv low r \<longleftrightarrow> gm_ok (mr_cache r)
     \<and> (\<forall>k e. gm_get (mr_cache r) k = Some e \<longrightarrow> document_client low k (ce_client e))"

lemma check_document_client:
  assumes "check_document env client_id now response = Inr c" and "low = net_lower env"
  shows "document_client low client_id c"
proof -
  obtain m0 m where m: "normalized_metadata (net_lower env) (net_fold env) m0 = Inr m" "cm_client_id m = client_id"
      "cm_client_name m \<noteq> []" "c = client_of_document client_id now m"
    using assms(1) by (auto simp: check_document_def split: if_splits option.splits sum.splits)
  obtain meth where n: "cm_redirect_uris (trimmed_metadata m0) \<noteq> []"
      "find (\<lambda>r. \<not> allowed_redirect_uri low r) (cm_redirect_uris (trimmed_metadata m0)) = None"
      "meth = ''none'' \<or> meth = ''private_key_jwt''"
      "finish_metadata (trimmed_metadata m0\<lparr>cm_auth_method := meth\<rparr>) = Inr m"
    using normalized_metadata_cases [OF m(1)] assms(2) by blast
  have "list_all (allowed_redirect_uri low) (cm_redirect_uris (trimmed_metadata m0))"
    using n(2) by (simp add: list_all_iff find_None_iff)
  then show ?thesis using n(1,3) m finish_metadata_ok [OF n(4)]
    by (auto simp: document_client_def client_of_document_def)
qed

lemma cache_lookup_inv:
  assumes "cache_lookup now k m = (x, m')" and "gm_ok m"
  shows "gm_ok m' \<and> (\<forall>k' e'. gm_get m' k' = Some e' \<longrightarrow> (\<exists>e. gm_get m k' = Some e \<and> ce_client e = ce_client e'))
    \<and> (\<forall>c. x = Some c \<longrightarrow> (\<exists>e. gm_get m k = Some e \<and> ce_client e = c))"
proof -
  have sub: "gm_get m k' = Some e" if "gm_get (prune_cache now m) k' = Some e" for k' e
    using that assms(2) by (auto simp: entries.get_prune split: option.splits if_splits)
  show ?thesis
  proof (cases "gm_get (prune_cache now m) k")
    case None
    with assms sub show ?thesis by (auto simp: cache_lookup_def entries.ok_prune)
  next
    case (Some e)
    with assms sub show ?thesis
      by (auto simp: cache_lookup_def entries.ok_prune gomap_simps split: if_splits)
  qed
qed

lemma cache_insert_get:
  assumes "gm_ok m"
  shows "gm_ok (cache_insert cap ttl now k c m)
    \<and> (\<forall>k' e. gm_get (cache_insert cap ttl now k c m) k' = Some e \<longrightarrow> k' = k \<and> ce_client e = c \<or> gm_get m k' = Some e)"
proof -
  have "gm_get m k' = Some e" if "gm_get (prune_cache now m) k' = Some e" for k' e
    using that assms by (auto simp: entries.get_prune split: option.splits if_splits)
  moreover have "gm_ok (prune_cache now m)" using assms by (simp add: entries.ok_prune)
  ultimately show ?thesis by (auto simp: cache_insert_def evict_oldest_def Let_def gomap_simps split: if_splits)
qed

lemma resolve_client_inv:
  assumes "resolver_inv (net_lower env) r"
  shows "resolver_inv (net_lower env) (snd (resolve_client env clk client_id r))
    \<and> (\<forall>c. fst (resolve_client env clk client_id r) = Inr c \<longrightarrow> document_client (net_lower env) client_id c)"
proof (cases "parse_metadata_client_id client_id")
  case None
  with assms show ?thesis by (simp add: resolve_client_def)
next
  case (Some parsed)
  let ?r = "resolver_defaults r"
  obtain x m' where lk: "cache_lookup (clk 0) client_id (mr_cache ?r) = (x, m')" by fastforce
  have inv: "resolver_inv (net_lower env) ?r" using assms by (simp add: resolver_inv_def resolver_defaults_def)
  note lki = cache_lookup_inv [OF lk]
  have inv': "resolver_inv (net_lower env) (?r\<lparr>mr_cache := m'\<rparr>)"
    using lki inv unfolding resolver_inv_def by (metis metadata_resolver.select_convs(4) metadata_resolver.surjective metadata_resolver.update_convs(4))
  show ?thesis
  proof (cases x)
    case (Some c)
    then have "document_client (net_lower env) client_id c" using lki inv by (auto simp: resolver_inv_def)
    with Some inv' \<open>parse_metadata_client_id client_id = Some parsed\<close> lk show ?thesis by (simp add: resolve_client_def Let_def)
  next
    case None
    note def = resolve_client_def Let_def \<open>parse_metadata_client_id client_id = Some parsed\<close> lk None
    show ?thesis
    proof (cases "fetch_client env client_id parsed (clk 1)")
      case (Inl e)
      with inv' show ?thesis by (simp add: def)
    next
      case (Inr c)
      then obtain response where "check_document env client_id (clk 1) response = Inr c"
        by (auto simp: fetch_client_def split: option.splits if_splits)
      then have c: "document_client (net_lower env) client_id c" by (rule check_document_client) simp
      have "gm_ok m'" using lki inv by (simp add: resolver_inv_def)
      from cache_insert_get [OF this] c inv' Inr show ?thesis by (fastforce simp: def resolver_inv_def)
    qed
  qed
qed

text \<open>A request to resolve a client.\<close>

type_synonym resolve_call = "(nat \<Rightarrow> time) \<times> string"

definition resolve_step :: "net_env \<Rightarrow> metadata_resolver \<Rightarrow> resolve_call \<Rightarrow> metadata_resolver" where
  "resolve_step env r e = snd (resolve_client env (fst e) (snd e) r)"

interpretation resolver: guarded_machine "resolve_step env" "\<lambda>_ _. True" "resolver_inv (net_lower env)" for env
  by unfold_locales (use resolve_client_inv in \<open>auto simp: resolve_step_def\<close>)

text \<open>The network in which only requests to public addresses are answered.\<close>

definition public_only :: "net_env \<Rightarrow> net_env" where
  "public_only env = env\<lparr>net_fetch := (\<lambda>ips u. if list_all public_metadata_ip ips \<and> ips \<noteq> [] then net_fetch env ips u else None)\<rparr>"

lemma public_only_simps [simp]:
  "net_lookup (public_only env) = net_lookup env" "net_decode (public_only env) = net_decode env"
  "net_lower (public_only env) = net_lower env" "net_fold (public_only env) = net_fold env"
  by (simp_all add: public_only_def)

lemma net_fetch_public [simp]:
  "list_all public_metadata_ip ips \<Longrightarrow> ips \<noteq> [] \<Longrightarrow> net_fetch (public_only env) ips u = net_fetch env ips u"
  by (simp add: public_only_def)

lemma fetch_public_only: "fetch_client (public_only env) client_id u now = fetch_client env client_id u now"
proof (cases "net_lookup env (url_hostname u)")
  case (Some ips)
  have d: "check_document (public_only env) = check_document env" 
    unfolding fun_eq_iff check_document_def public_only_simps by simp
  show ?thesis
  proof (cases "approve_addresses [] ips")
    case None
    then show ?thesis by (simp add: fetch_client_def Some)
  next
    case (Some approved)
    then have "approved = ips" "list_all public_metadata_ip ips" using approve_addresses_ok by fastforce+
    then show ?thesis
      using \<open>net_lookup env (url_hostname u) = Some ips\<close> Some
      by (cases "ips = []") (auto simp: fetch_client_def d split: option.split)
  qed
qed (simp add: fetch_client_def)

text \<open>
  over any sequence of requests, every client the resolver returns, fetched or cached, carries the
  identifier that was asked for, a name, and only redirect URIs that are allowed; and the resolver
  behaves the same in a network that answers only requests to addresses the address filter admits, so
  it never relies on contacting any other address.
\<close>

theorem resolver_returns_checked_clients:
  assumes "mr_cache r = []" and "fst (resolve_client env clk client_id (run_calls (resolve_step env) r es)) = Inr c"
  shows "document_client (net_lower env) client_id c
    \<and> resolve_client (public_only env) clk client_id r' = resolve_client env clk client_id r'"
proof -
  have "resolver_inv (net_lower env) r" using assms(1) by (simp add: resolver_inv_def)
  then have "resolver_inv (net_lower env) (run_calls (resolve_step env) r es)" by (rule resolver.run_inv) simp
  from resolve_client_inv [OF this] assms(2) have "document_client (net_lower env) client_id c" by blast
  moreover have "resolve_client (public_only env) clk client_id r' = resolve_client env clk client_id r'"
    unfolding resolve_client_def fetch_public_only by simp
  ultimately show ?thesis by blast
qed

text \<open>The document of the examples.\<close>

definition example_net :: net_env where
  "example_net = \<lparr>net_lookup = (\<lambda>_. Some [v4_bytes 8 8 8 8]), net_fetch = (\<lambda>_ _. Some (200, Some ''x'')),
     net_decode = (\<lambda>_. Some (example_metadata\<lparr>cm_client_id := ''https://h/c''\<rparr>)), net_lower = id, net_fold = id\<rparr>"

lemma example_fetch:
  "fst (resolve_client example_net int ''https://h/c'' new_metadata_resolver)
     = Inr (client_of_document ''https://h/c'' 1 (example_metadata\<lparr>cm_client_id := ''https://h/c'', cm_auth_method := ''none'',
     cm_grant_types := [''authorization_code'', ''refresh_token''], cm_response_types := [''code'']\<rparr>))"
proof -
  have "addr_from_slice (v4_bytes 8 8 8 8) = Some (v4 8 8 8 8)" "unmap_addr (v4 8 8 8 8) = v4 8 8 8 8"
    by (simp_all add: addr_from_slice_def v4_bytes_def v4_def bytes_value_def)
  then have a: "public_metadata_ip (v4_bytes 8 8 8 8)"
    using public_addr_v4 [of 8 8 8 8] by (simp add: public_v4_def public_metadata_ip_def)
  have name: "cm_client_name example_metadata = ''C''" by (simp add: example_metadata_def)
  obtain u where u: "parse_metadata_client_id ''https://h/c'' = Some u"
    by (simp add: metadata_eval url_eval)
  have n: "normalized_metadata id id (example_metadata\<lparr>cm_client_id := ''https://h/c''\<rparr>)
    = Inr (example_metadata\<lparr>cm_client_id := ''https://h/c'', cm_auth_method := ''none'',
     cm_grant_types := [''authorization_code'', ''refresh_token''], cm_response_types := [''code'']\<rparr>)"
    by (simp add: example_metadata_def metadata_eval url_eval)
  show ?thesis
    by (simp add: resolve_client_def u resolver_defaults_def new_metadata_resolver_def cache_lookup_def prune_cache_def gm_retain_def
        fetch_client_def example_net_def a check_document_def n Let_def name)
qed

theorem resolver_returns_checked_clients_witness:
  "allowed_redirect_uri id ''https://h/cb''"
  using resolver_returns_checked_clients [of new_metadata_resolver example_net int "''https://h/c''" "[]", unfolded run_calls.simps, OF _ example_fetch]
  by (simp add: new_metadata_resolver_def document_client_def client_of_document_def example_metadata_def example_net_def)

end
