(* ===== verification/Regex.thy ===== *)
theory Regex
  imports GoStrings
begin

text \<open>
  Package \<open>regexp\<close> for the expressions the program compiles: runes, \<open>.\<close>, character classes, escaped
  punctuation, \<open>(?:...)\<close>, \<open>*\<close> and \<open>?\<close>, between \<open>^\<close> and \<open>$\<close>.  The text is parsed as the package does, with
  a stack of open groups; syntax the program never writes (alternation, \<open>+\<close>, counted repetition,
  anchors inside) is refused.  Matching is by derivatives, and agrees with the language of the
  expression.
\<close>

section \<open>Expressions and their language\<close>

datatype regex = Nothing | Eps | Cls bool "(nat \<times> nat) list" | Cat regex regex | Alt regex regex | Rep regex

definition class_has :: "bool \<Rightarrow> (nat \<times> nat) list \<Rightarrow> nat \<Rightarrow> bool" where
  "class_has negated ranges r \<longleftrightarrow> negated \<noteq> list_ex (\<lambda>(lo, hi). lo \<le> r \<and> r \<le> hi) ranges"

text \<open>\<open>.\<close> matches every rune but the newline, \<open>[^/]\<close> every rune but the slash, newline included.\<close>

abbreviation Dot :: regex where "Dot \<equiv> Cls True [(10, 10)]"
abbreviation Lit :: "nat \<Rightarrow> regex" where "Lit r \<equiv> Cls False [(r, r)]"

inductive re_lang :: "regex \<Rightarrow> nat list \<Rightarrow> bool" where
  lang_eps: "re_lang Eps []"
| lang_cls: "class_has n rs r \<Longrightarrow> re_lang (Cls n rs) [r]"
| lang_cat: "re_lang p a \<Longrightarrow> re_lang q b \<Longrightarrow> re_lang (Cat p q) (a @ b)"
| lang_left: "re_lang p a \<Longrightarrow> re_lang (Alt p q) a"
| lang_right: "re_lang q a \<Longrightarrow> re_lang (Alt p q) a"
| lang_stop: "re_lang (Rep p) []"
| lang_more: "re_lang p a \<Longrightarrow> re_lang (Rep p) b \<Longrightarrow> re_lang (Rep p) (a @ b)"

inductive_simps re_lang_simps [simp]:
  "re_lang Nothing s" "re_lang Eps s" "re_lang (Cls n rs) s" "re_lang (Cat p q) s" "re_lang (Alt p q) s"

section \<open>Matching\<close>

primrec nullable :: "regex \<Rightarrow> bool" where
  "nullable Nothing = False"
| "nullable Eps = True"
| "nullable (Cls n rs) = False"
| "nullable (Cat p q) = (nullable p \<and> nullable q)"
| "nullable (Alt p q) = (nullable p \<or> nullable q)"
| "nullable (Rep p) = True"

primrec deriv :: "nat \<Rightarrow> regex \<Rightarrow> regex" where
  "deriv r Nothing = Nothing"
| "deriv r Eps = Nothing"
| "deriv r (Cls n rs) = (if class_has n rs r then Eps else Nothing)"
| "deriv r (Cat p q) = (if nullable p then Alt (Cat (deriv r p) q) (deriv r q) else Cat (deriv r p) q)"
| "deriv r (Alt p q) = Alt (deriv r p) (deriv r q)"
| "deriv r (Rep p) = Cat (deriv r p) (Rep p)"

primrec re_match :: "regex \<Rightarrow> nat list \<Rightarrow> bool" where
  "re_match p [] = nullable p"
| "re_match p (r # s) = re_match (deriv r p) s"

lemma nullable_lang: "nullable p \<longleftrightarrow> re_lang p []"
  by (induction p) (auto intro: lang_stop)

lemma rep_first:
  "re_lang q s \<Longrightarrow> q = Rep p \<Longrightarrow> s = r # t \<Longrightarrow> \<exists>a b. t = a @ b \<and> re_lang p (r # a) \<and> re_lang (Rep p) b"
proof (induction q s arbitrary: t rule: re_lang.induct)
  case (lang_more p' a b)
  then show ?case by (cases a) (auto simp: append_eq_Cons_conv)
qed auto

lemma deriv_lang: "re_lang (deriv r p) s \<longleftrightarrow> re_lang p (r # s)"
proof (induction p arbitrary: s)
  case (Cat p q)
  then show ?case by (auto simp: nullable_lang Cons_eq_append_conv)
next
  case (Rep p)
  show ?case
  proof
    assume "re_lang (deriv r (Rep p)) s"
    then show "re_lang (Rep p) (r # s)" using Rep lang_more [of p "r # _"] by auto
  next
    assume "re_lang (Rep p) (r # s)"
    then show "re_lang (deriv r (Rep p)) s" using rep_first [OF _ refl refl] Rep by fastforce
  qed
qed auto

lemma re_match_lang: "re_match p s \<longleftrightarrow> re_lang p s"
  by (induction s arbitrary: p) (simp_all add: nullable_lang deriv_lang)

lemma rep_class_lang: "re_lang (Rep (Cls n rs)) s \<longleftrightarrow> list_all (class_has n rs) s"
proof (induction s)
  case (Cons r s)
  have "re_lang (Rep (Cls n rs)) (r # s) \<longleftrightarrow> re_lang (deriv r (Rep (Cls n rs))) s" by (simp only: deriv_lang)
  then show ?case using Cons by auto
qed (simp add: lang_stop)

section \<open>Classes\<close>

text \<open>The POSIX classes of the package and their complements.\<close>

definition posix_classes :: "(string \<times> (nat \<times> nat) list) list" where
  "posix_classes =
    [(''alnum'', [(48, 57), (65, 90), (97, 122)]), (''alpha'', [(65, 90), (97, 122)]), (''ascii'', [(0, 127)]),
     (''blank'', [(9, 9), (32, 32)]), (''cntrl'', [(0, 31), (127, 127)]), (''digit'', [(48, 57)]), (''graph'', [(33, 126)]),
     (''lower'', [(97, 122)]), (''print'', [(32, 126)]), (''punct'', [(33, 47), (58, 64), (91, 96), (123, 126)]),
     (''space'', [(9, 13), (32, 32)]), (''upper'', [(65, 90)]), (''word'', [(48, 57), (65, 90), (95, 95), (97, 122)]),
     (''xdigit'', [(48, 57), (65, 70), (97, 102)])]"

fun outside_ranges :: "nat \<Rightarrow> (nat \<times> nat) list \<Rightarrow> (nat \<times> nat) list" where
  "outside_ranges start [] = [(start, 1114111)]"
| "outside_ranges start ((lo, hi) # rs) = (if start < lo then [(start, lo - 1)] else []) @ outside_ranges (Suc hi) rs"

definition posix_class :: "string \<Rightarrow> (nat \<times> nat) list option" where
  "posix_class name =
    (case name of c # rest \<Rightarrow>
        if c = CHR ''^'' then map_option (outside_ranges 0) (map_of posix_classes rest) else map_of posix_classes name
      | [] \<Rightarrow> None)"

text \<open>\<open>nextRune\<close> and \<open>parseClassChar\<close>; a backslash only ever escapes punctuation.\<close>

definition next_rune :: "string \<Rightarrow> (nat \<times> string) option" where
  "next_rune s = (case s of [] \<Rightarrow> None | c # cs \<Rightarrow>
     (case decode1 s of (r, w) \<Rightarrow> if r = rune_error \<and> w = 1 then None else Some (r, drop (w - 1) cs)))"

definition punctuation :: "char \<Rightarrow> bool" where
  "punctuation c \<longleftrightarrow> byte c < 128 \<and> \<not> (in_range 48 57 c \<or> in_range 65 90 c \<or> in_range 97 122 c)"

definition class_char :: "string \<Rightarrow> (nat \<times> string) option" where
  "class_char s =
    (case s of c # d # rest \<Rightarrow>
        if c = CHR 0x5C then (if punctuation d then Some (byte d, rest) else None) else next_rune s
      | _ \<Rightarrow> if s = [CHR 0x5C] then None else next_rune s)"

fun find_colon :: "string \<Rightarrow> (string \<times> string) option" where
  "find_colon (c # d # s) =
    (if c = CHR '':'' \<and> d = CHR '']'' then Some ([], s) else map_option (\<lambda>(a, b). (c # a, b)) (find_colon (d # s)))"
| "find_colon _ = None"

text \<open>\<open>parseNamedClass\<close>: no named class here (\<open>None\<close>), an error (\<open>Some None\<close>), or its ranges.\<close>

definition named_class :: "string \<Rightarrow> ((nat \<times> nat) list \<times> string) option option" where
  "named_class t =
    (if \<not> has_prefix t ''[:'' \<or> length t < 3 then None
     else case find_colon (drop 2 t) of
       None \<Rightarrow> None
     | Some (name, rest) \<Rightarrow> Some (map_option (\<lambda>g. (g, rest)) (posix_class name)))"

text \<open>A single character or a range, with what follows it.\<close>

definition class_range :: "string \<Rightarrow> ((nat \<times> nat) \<times> string) option" where
  "class_range t =
    (case class_char t of
       None \<Rightarrow> None
     | Some (lo, t1) \<Rightarrow>
        (case t1 of d # e # _ \<Rightarrow>
            if d = CHR ''-'' \<and> e \<noteq> CHR '']'' then
              (case class_char (drop 1 t1) of
                 None \<Rightarrow> None
               | Some (hi, t2) \<Rightarrow> if hi < lo then None else Some ((lo, hi), t2))
            else Some ((lo, lo), t1)
          | _ \<Rightarrow> Some ((lo, lo), t1)))"

lemma next_rune_shorter: "next_rune s = Some (r, t) \<Longrightarrow> length t < length s"
  by (cases s) (auto simp: next_rune_def split: prod.splits if_splits)

lemma class_char_shorter: "class_char s = Some (r, t) \<Longrightarrow> length t < length s"
  by (auto simp: class_char_def split: list.splits if_splits dest!: next_rune_shorter)

lemma class_range_shorter: "class_range s = Some (r, t) \<Longrightarrow> length t < length s"
  by (auto simp: class_range_def split: option.splits list.splits if_splits dest!: class_char_shorter)

lemma find_colon_shorter: "find_colon s = Some (a, t) \<Longrightarrow> length t < length s"
  by (induction s arbitrary: a rule: find_colon.induct) (force split: if_splits)+

lemma named_class_shorter: "named_class s = Some (Some (g, t)) \<Longrightarrow> length t < length s"
  by (auto simp: named_class_def split: if_splits option.splits dest!: find_colon_shorter)

function class_loop :: "bool \<Rightarrow> (nat \<times> nat) list \<Rightarrow> string \<Rightarrow> ((nat \<times> nat) list \<times> string) option" where
  "class_loop first acc t =
    (if t \<noteq> [] \<and> hd t = CHR '']'' \<and> \<not> first then Some (acc, tl t)
     else case named_class t of
       Some None \<Rightarrow> None
     | Some (Some (g, rest)) \<Rightarrow> class_loop False (acc @ g) rest
     | None \<Rightarrow>
        (case class_range t of None \<Rightarrow> None | Some (rg, rest) \<Rightarrow> class_loop False (acc @ [rg]) rest))"
  by pat_completeness auto

termination
  by (relation "measure (\<lambda>(_, _, t). length t)") (auto dest: named_class_shorter class_range_shorter)

declare class_loop.simps [simp del]

text \<open>\<open>parseClass\<close>, after its opening bracket.\<close>

definition parse_class :: "string \<Rightarrow> (regex \<times> string) option" where
  "parse_class s =
    (let negated = has_prefix s ''^''; t = trim_prefix s ''^''
     in map_option (\<lambda>(ranges, rest). (Cls negated ranges, rest)) (class_loop True [] t))"

lemma class_loop_shorter: "class_loop first acc t = Some (r, u) \<Longrightarrow> length u < length t"
proof (induction "length t" arbitrary: first acc t rule: less_induct)
  case less
  show ?case
  proof (cases "t \<noteq> [] \<and> hd t = CHR '']'' \<and> \<not> first")
    case True
    then show ?thesis using less(2) unfolding class_loop.simps [of first acc t] by (cases t) simp_all
  next
    case False
    note step = class_loop.simps [of first acc t, unfolded if_not_P [OF False]]
    show ?thesis
    proof (cases "named_class t")
      case None
      then obtain rg rest where "class_range t = Some (rg, rest)" "class_loop False (acc @ [rg]) rest = Some (r, u)"
        using less(2) unfolding step by (auto split: option.splits)
      then show ?thesis using less(1) class_range_shorter less_trans by blast
    next
      case (Some n)
      then obtain g rest where "named_class t = Some (Some (g, rest))" "class_loop False (acc @ g) rest = Some (r, u)"
        using less(2) unfolding step by (auto split: option.splits)
      then show ?thesis using less(1) named_class_shorter less_trans by blast
    qed
  qed
qed

lemma parse_class_shorter: "parse_class s = Some (r, t) \<Longrightarrow> length t < length s"
  by (auto simp: parse_class_def Let_def trim_prefix_def split: if_splits dest!: class_loop_shorter)

section \<open>The parser\<close>

primrec cat_all :: "regex list \<Rightarrow> regex" where
  "cat_all [] = Eps"
| "cat_all (r # rs) = Cat r (cat_all rs)"

text \<open>
  \<open>items\<close> holds the parsed items of the innermost open group, the last one first; \<open>repeated\<close> says that
  the last item was a repetition, which must not be repeated again.
\<close>

function re_parse :: "regex list list \<Rightarrow> bool \<Rightarrow> string \<Rightarrow> regex option" where
  "re_parse st repeated [] = (case st of [items] \<Rightarrow> Some (cat_all (rev items)) | _ \<Rightarrow> None)"
| "re_parse [] repeated (c # s) = None"
| "re_parse (items # outer) repeated (c # s) =
    (if has_prefix (c # s) ''(?:'' then re_parse ([] # items # outer) False (drop 2 s)
     else if c = CHR '')'' then
       (case outer of next # rest \<Rightarrow> re_parse ((cat_all (rev items) # next) # rest) False s | [] \<Rightarrow> None)
     else if c = CHR ''*'' \<or> c = CHR ''?'' then
       (case items of p # ps \<Rightarrow>
           if repeated then None
           else re_parse (((if c = CHR ''*'' then Rep p else Alt p Eps) # ps) # outer) True s
         | [] \<Rightarrow> None)
     else if c = CHR ''['' then
       (case parse_class s of None \<Rightarrow> None | Some (k, rest) \<Rightarrow> re_parse ((k # items) # outer) False rest)
     else if c = CHR ''.'' then re_parse ((Dot # items) # outer) False s
     else if c = CHR 0x5C then
       (case s of d # s' \<Rightarrow> if punctuation d then re_parse ((Lit (byte d) # items) # outer) False s' else None | [] \<Rightarrow> None)
     else if c \<in> set ''^$|+{('' then None
     else case next_rune (c # s) of
       None \<Rightarrow> None
     | Some (r, rest) \<Rightarrow> re_parse ((Lit r # items) # outer) False rest)"
  by pat_completeness auto

termination
  by (relation "measure (\<lambda>(_, _, s). length s)") (auto dest: parse_class_shorter next_rune_shorter)

declare re_parse.simps(3) [simp del]

text \<open>
  \<open>regexp.Compile\<close> of \<open>^...$\<close>: the anchors make the expression match the whole text.
\<close>

definition regexp_compile :: "string \<Rightarrow> regex option" where
  "regexp_compile text =
    (if has_prefix text ''^'' \<and> has_suffix text ''$'' then re_parse [[]] False (butlast (drop 1 text)) else None)"

definition match_string :: "regex \<Rightarrow> string \<Rightarrow> bool" where
  "match_string re s = re_match re (runes s)"

text \<open>\<open>regexp.QuoteMeta\<close>.\<close>

definition special_bytes :: string where
  "special_bytes = CHR 0x5C # ''.+*?()|[]{}^$''"

definition quote_meta :: "string \<Rightarrow> string" where
  "quote_meta s = concat (map (\<lambda>c. if c \<in> set special_bytes then [CHR 0x5C, c] else [c]) s)"

end
