(* ===== verification/Policy.thy ===== *)
theory Policy
  imports Regex
begin

text \<open>
  \<open>internal/workspace/policy.go\<close>: the ignore rules that keep credentials and build output away from
  readers of a workspace.  A pattern is turned into the text of a regular expression, which is
  compiled; the model does the same, and its matcher is compared with a direct reading of the pattern.
\<close>

section \<open>Pattern lists\<close>

definition sensitive_patterns :: "string list" where
  "sensitive_patterns =
    [''.env'', ''.env.*'', ''!.env.example'', ''*.pem'', ''*.key'', ''*.p12'', ''*.pfx'', ''*.jks'', ''*.keystore'',
     ''id_rsa'', ''id_rsa.*'', ''id_ed25519'', ''id_ed25519.*'', ''id_ecdsa'', ''id_ecdsa.*'', ''id_dsa'', ''id_dsa.*'',
     ''.ssh/'', ''.aws/'', ''.azure/'', ''.gnupg/'', ''.kube/'', ''.docker/config.json'', ''.npmrc'', ''.pypirc'',
     ''.netrc'', ''_netrc'', ''.git-credentials'', ''*.keychain'', ''*.keychain-db'', ''.cloudflared/'',
     ''credentials.json'', ''service-account*.json'', ''secrets.json'', ''cookies.sqlite'', ''Cookies'',
     ''.codexlink-secrets*'', ''.c2c-secrets*'']"

definition noise_patterns :: "string list" where
  "noise_patterns =
    [''.git/'', ''node_modules/'', ''dist/'', ''build/'', ''out/'', ''.next/'', ''.nuxt/'', ''.svelte-kit/'', ''coverage/'',
     ''.cache/'', ''.turbo/'', ''.venv/'', ''venv/'', ''__pycache__/'', ''.pytest_cache/'', ''.mypy_cache/'', ''target/'',
     ''.gradle/'', ''.idea/'', ''.tooling/'', ''.pnpm-store/'', ''vendor/'', ''.DS_Store'', ''*.lock'', ''pnpm-lock.yaml'',
     ''package-lock.json'', ''yarn.lock'']"

section \<open>Rules\<close>

record ignore_rule =
  ir_negated :: bool
  ir_re :: regex

text \<open>The first half of \<open>compileIgnoreRule\<close>: negation, anchoring, directories, and what is left.\<close>

definition rule_parts :: "string \<Rightarrow> (bool \<times> bool \<times> bool \<times> string) option" where
  "rule_parts raw =
    (let p0 = trim_space raw in
     if p0 = [] \<or> has_prefix p0 ''#'' then None
     else let negated = (\<not> has_prefix p0 [CHR 0x5C, CHR ''!''] \<and> has_prefix p0 ''!'');
              p1 = (if has_prefix p0 [CHR 0x5C, CHR ''!''] then trim_prefix p0 [CHR 0x5C] else trim_prefix p0 ''!'');
              p2 = replace_char CHR 0x5C CHR ''/'' p1;
              anchored = has_prefix p2 ''/'';
              p3 = trim_prefix p2 ''/'';
              directory_only = has_suffix p3 ''/'';
              p4 = trim_suffix p3 ''/''
       in if p4 = [] then None else Some (negated, anchored \<or> CHR ''/'' \<in> set p4, directory_only, p4))"

definition class_text :: "string \<Rightarrow> string" where
  "class_text cls = (if has_prefix cls ''!'' then ''^'' @ quote_meta (trim_prefix cls ''!'') else quote_meta cls)"

text \<open>The loop that writes the body of the expression; \<open>string(ch)\<close> of a byte is the rune of that value.\<close>

function glob_body :: "string \<Rightarrow> string" where
  "glob_body [] = []"
| "glob_body (c # s) =
    (if c = CHR ''*'' then
       (if has_prefix s ''*'' then
          (if has_prefix (drop 1 s) ''/'' then ''(?:.*/)?'' @ glob_body (drop 2 s) else ''.*'' @ glob_body (drop 1 s))
        else ''[^/]*'' @ glob_body s)
     else if c = CHR ''?'' then ''[^/]'' @ glob_body s
     else if c = CHR ''['' then
       (case index_byte CHR '']'' s of
          Some e \<Rightarrow> ''['' @ class_text (take e s) @ '']'' @ glob_body (drop (Suc e) s)
        | None \<Rightarrow> [CHR 0x5C, CHR ''[''] @ glob_body s)
     else quote_meta (encode_rune (byte c)) @ glob_body s)"
  by pat_completeness auto

termination
  by (relation "measure length") (auto simp: has_prefix_def)

declare glob_body.simps(2) [simp del]

definition compile_ignore_rule :: "string \<Rightarrow> ignore_rule option" where
  "compile_ignore_rule raw =
    (case rule_parts raw of
       None \<Rightarrow> None
     | Some (negated, rooted_pattern, directory_only, p) \<Rightarrow>
        let start = (if rooted_pattern then ''^'' else ''^(?:.*/)?'');
            end_text = (if directory_only then ''(?:/.*)?$'' else ''$'')
        in map_option (\<lambda>re. \<lparr>ir_negated = negated, ir_re = re\<rparr>) (regexp_compile (start @ glob_body p @ end_text)))"

definition new_rule_set :: "string list \<Rightarrow> ignore_rule list" where
  "new_rule_set patterns = List.map_filter compile_ignore_rule patterns"

definition normalize_relative :: "string \<Rightarrow> string" where
  "normalize_relative path = trim_suffix (trim_prefix (trim_prefix path ''./'') ''/'') ''/''"

definition rule_set_matches :: "ignore_rule list \<Rightarrow> string \<Rightarrow> bool" where
  "rule_set_matches rules path =
    (let p = normalize_relative path
     in foldl (\<lambda>ignored rule. if match_string (ir_re rule) p then \<not> ir_negated rule else ignored) False rules)"

section \<open>The policy\<close>

record policy =
  po_sensitive :: "ignore_rule list"
  po_noise :: "ignore_rule list"
  po_custom :: "ignore_rule list"

text \<open>
  \<open>bufio.Scanner\<close> over a whole buffer: lines without their newline and one carriage return before it;
  a line that does not fit the buffer of 64 KiB ends the scan.
\<close>

definition drop_cr :: "string \<Rightarrow> string" where
  "drop_cr l = (if l \<noteq> [] \<and> last l = CHR 0x0D then butlast l else l)"

definition scan_lines :: "string \<Rightarrow> string list" where
  "scan_lines data =
    (let ls = split_on CHR 0x0A data;
         ls' = (if last ls = [] then butlast ls else ls)
     in map drop_cr (takeWhile (\<lambda>l. length l < 65536) ls'))"

text \<open>\<open>read\<close> is \<open>readBoundedRegularFile\<close> in the root of the workspace.\<close>

definition custom_patterns :: "(string \<Rightarrow> string option) \<Rightarrow> string list" where
  "custom_patterns read =
    (case read ''.codexlinkignore'' of
       Some data \<Rightarrow> scan_lines data
     | None \<Rightarrow> (case read ''.c2cignore'' of Some data \<Rightarrow> scan_lines data | None \<Rightarrow> []))"

definition new_policy :: "(string \<Rightarrow> string option) \<Rightarrow> policy" where
  "new_policy read = \<lparr>po_sensitive = new_rule_set sensitive_patterns, po_noise = new_rule_set noise_patterns,
     po_custom = new_rule_set (custom_patterns read)\<rparr>"

definition is_sensitive :: "policy \<Rightarrow> string \<Rightarrow> bool" where
  "is_sensitive p path0 =
    (let path = normalize_relative path0
     in if path = [] \<or> path = ''.'' then False
        else rule_set_matches (po_sensitive p) path \<or> rule_set_matches (po_custom p) path)"

definition is_noise :: "policy \<Rightarrow> string \<Rightarrow> bool" where
  "is_noise p path0 =
    (let path = normalize_relative path0
     in if path = [] \<or> path = ''.'' then False else rule_set_matches (po_noise p) path)"

definition is_hidden :: "policy \<Rightarrow> string \<Rightarrow> bool" where
  "is_hidden p path \<longleftrightarrow> is_sensitive p path \<or> is_noise p path"

definition match_glob :: "string \<Rightarrow> string \<Rightarrow> bool" where
  "match_glob pattern path =
    (case compile_ignore_rule pattern of
       None \<Rightarrow> False
     | Some rule \<Rightarrow> match_string (ir_re rule) (normalize_relative path))"

section \<open>A direct reading of patterns\<close>

text \<open>
  The meaning of a pattern without brackets, token by token.  \<open>TDirs\<close> is any number of leading
  directories, \<open>TUnder\<close> the entry itself or anything under it.  No token but \<open>TOne\<close> and \<open>TStar\<close> passes
  a newline, and those two do not pass a slash.
\<close>

datatype glob_token = TLit nat | TOne | TStar | TAll | TDirs | TUnder

function glob_tokens :: "string \<Rightarrow> glob_token list" where
  "glob_tokens [] = []"
| "glob_tokens (c # s) =
    (if c = CHR ''*'' then
       (if has_prefix s ''*'' then
          (if has_prefix (drop 1 s) ''/'' then TDirs # glob_tokens (drop 2 s) else TAll # glob_tokens (drop 1 s))
        else TStar # glob_tokens s)
     else if c = CHR ''?'' then TOne # glob_tokens s
     else TLit (byte c) # glob_tokens s)"
  by pat_completeness auto

termination
  by (relation "measure length") (auto simp: has_prefix_def)

declare glob_tokens.simps(2) [simp del]

definition rule_tokens :: "bool \<Rightarrow> bool \<Rightarrow> string \<Rightarrow> glob_token list" where
  "rule_tokens rooted_pattern directory_only p =
    (if rooted_pattern then [] else [TDirs]) @ glob_tokens p @ (if directory_only then [TUnder] else [])"

text \<open>What is left of a path after some of its leading directories.\<close>

fun after_dirs :: "nat list \<Rightarrow> nat list list" where
  "after_dirs [] = []"
| "after_dirs (r # s) = (if r = 10 then [] else if r = 47 then s # after_dirs s else after_dirs s)"

fun drop_runs :: "nat \<Rightarrow> nat list \<Rightarrow> nat list list" where
  "drop_runs stop [] = [[]]"
| "drop_runs stop (r # s) = (r # s) # (if r = stop then [] else drop_runs stop s)"

fun token_rest :: "glob_token \<Rightarrow> nat list \<Rightarrow> nat list list" where
  "token_rest (TLit q) s = (case s of [] \<Rightarrow> [] | r # t \<Rightarrow> if r = q then [t] else [])"
| "token_rest TOne s = (case s of [] \<Rightarrow> [] | r # t \<Rightarrow> if r \<noteq> 47 then [t] else [])"
| "token_rest TStar s = drop_runs 47 s"
| "token_rest TAll s = drop_runs 10 s"
| "token_rest TDirs s = s # after_dirs s"
| "token_rest TUnder s = s # (case s of [] \<Rightarrow> [] | r # t \<Rightarrow> if r = 47 then drop_runs 10 t else [])"

primrec glob_match :: "glob_token list \<Rightarrow> nat list \<Rightarrow> bool" where
  "glob_match [] s = (s = [])"
| "glob_match (t # ts) s = list_ex (glob_match ts) (token_rest t s)"

end
