(* ===== verification/PolicyProps.thy ===== *)
theory PolicyProps
  imports Policy
begin

text \<open>
  What the ignore rules mean: a pattern without brackets matches exactly the paths its direct reading
  matches, built-in credential patterns cannot be lifted by a custom rule, and two gaps of the rules.
\<close>

section \<open>Patterns and expressions\<close>

primrec token_re :: "glob_token \<Rightarrow> regex" where
  "token_re (TLit r) = Lit r"
| "token_re TOne = Cls True [(47, 47)]"
| "token_re TStar = Rep (Cls True [(47, 47)])"
| "token_re TAll = Rep Dot"
| "token_re TDirs = Alt (Cat (Rep Dot) (Cat (Lit 47) Eps)) Eps"
| "token_re TUnder = Alt (Cat (Lit 47) (Cat (Rep Dot) Eps)) Eps"

lemma class_single: "class_has n [(q, q)] r \<longleftrightarrow> n \<noteq> (r = q)"
  by (auto simp: class_has_def)

lemma drop_runs_iff: "u \<in> set (drop_runs q s) \<longleftrightarrow> (\<exists>a. s = a @ u \<and> q \<notin> set a)"
proof (induction s)
  case (Cons r s)
  show ?case
  proof
    assume "u \<in> set (drop_runs q (r # s))"
    then consider "u = r # s" | "r \<noteq> q" "u \<in> set (drop_runs q s)" by (auto split: if_splits)
    then show "\<exists>a. r # s = a @ u \<and> q \<notin> set a"
    proof cases
      case 2
      then obtain a where "s = a @ u" "q \<notin> set a" using Cons by blast
      then have "r # s = (r # a) @ u \<and> q \<notin> set (r # a)" using 2 by simp
      then show ?thesis by blast
    qed (auto intro: exI [of _ "[]"])
  next
    assume "\<exists>a. r # s = a @ u \<and> q \<notin> set a"
    then show "u \<in> set (drop_runs q (r # s))" using Cons by (auto simp: Cons_eq_append_conv)
  qed
qed auto

lemma rep_single: "re_lang (Rep (Cls True [(q, q)])) s \<longleftrightarrow> q \<notin> set s"
  unfolding rep_class_lang by (induction s) (auto simp: class_single)

lemma rep_then: "re_lang (Cat (Rep (Cls True [(q, q)])) k) s \<longleftrightarrow> list_ex (re_lang k) (drop_runs q s)"
  unfolding list_ex_iff Bex_def drop_runs_iff by (simp add: rep_single) blast

lemma class_then: "re_lang (Cat (Cls n rs) k) s \<longleftrightarrow> (case s of [] \<Rightarrow> False | r # t \<Rightarrow> class_has n rs r \<and> re_lang k t)"
proof (cases s)
  case (Cons r t)
  have "re_lang (Cat (Cls n rs) k) (r # t) \<longleftrightarrow> re_lang (deriv r (Cat (Cls n rs) k)) t" by (simp only: deriv_lang)
  then show ?thesis by (simp add: Cons)
qed simp

lemma optional_then: "re_lang (Cat (Alt p Eps) k) s \<longleftrightarrow> re_lang k s \<or> (\<exists>a u. s = a @ u \<and> re_lang p a \<and> re_lang k u)"
  by (simp only: re_lang_simps) auto

lemma after_dirs_iff: "u \<in> set (after_dirs s) \<longleftrightarrow> (\<exists>a. s = a @ 47 # u \<and> 10 \<notin> set a)"
proof (induction s)
  case (Cons r s)
  show ?case
  proof
    assume "u \<in> set (after_dirs (r # s))"
    then consider "r = 47" "u = s" | "r \<noteq> 10" "u \<in> set (after_dirs s)" by (auto split: if_splits)
    then show "\<exists>a. r # s = a @ 47 # u \<and> 10 \<notin> set a"
    proof cases
      case 1
      then have "r # s = [] @ 47 # u \<and> 10 \<notin> set ([] :: nat list)" by simp
      then show ?thesis by blast
    next
      case 2
      then obtain a where "s = a @ 47 # u" "10 \<notin> set a" using Cons by blast
      then have "r # s = (r # a) @ 47 # u \<and> 10 \<notin> set (r # a)" using 2 by simp
      then show ?thesis by blast
    qed
  next
    assume "\<exists>a. r # s = a @ 47 # u \<and> 10 \<notin> set a"
    then show "u \<in> set (after_dirs (r # s))" using Cons by (auto simp: Cons_eq_append_conv)
  qed
qed simp

lemma token_rest_lang: "re_lang (Cat (token_re t) k) s \<longleftrightarrow> list_ex (re_lang k) (token_rest t s)"
proof (cases t)
  case TDirs
  have d: "re_lang (Cat (Rep Dot) (Cat (Lit 47) Eps)) a \<longleftrightarrow> (\<exists>b. a = b @ [47] \<and> 10 \<notin> set b)" for a
    by (auto simp: rep_single class_single)
  have "(\<exists>a u. s = a @ u \<and> (\<exists>b. a = b @ [47] \<and> 10 \<notin> set b) \<and> re_lang k u)
      \<longleftrightarrow> (\<exists>u\<in>set (after_dirs s). re_lang k u)"
    unfolding Bex_def after_dirs_iff
  proof (intro iffI; elim exE conjE)
    fix a u b assume "s = a @ u" "a = b @ [47]" "10 \<notin> set b" "re_lang k u"
    then show "\<exists>u. (\<exists>a. s = a @ 47 # u \<and> 10 \<notin> set a) \<and> re_lang k u" by auto
  next
    fix u a assume "s = a @ 47 # u" "10 \<notin> set a" "re_lang k u"
    then have "s = (a @ [47]) @ u \<and> (\<exists>b. a @ [47] = b @ [47] \<and> 10 \<notin> set b) \<and> re_lang k u" by simp
    then show "\<exists>a u. s = a @ u \<and> (\<exists>b. a = b @ [47] \<and> 10 \<notin> set b) \<and> re_lang k u" by blast
  qed
  then show ?thesis unfolding TDirs token_re.simps optional_then d by (simp add: list_ex_iff)
next
  case TUnder
  have d: "re_lang (Cat (Lit 47) (Cat (Rep Dot) Eps)) a \<longleftrightarrow> (\<exists>b. a = 47 # b \<and> 10 \<notin> set b)" for a
    by (auto simp: rep_single class_single)
  have "(\<exists>a u. s = a @ u \<and> (\<exists>b. a = 47 # b \<and> 10 \<notin> set b) \<and> re_lang k u)
      \<longleftrightarrow> (\<exists>t. s = 47 # t \<and> (\<exists>u\<in>set (drop_runs 10 t). re_lang k u))"
    unfolding Bex_def drop_runs_iff
  proof (intro iffI; elim exE conjE)
    fix a u b assume "s = a @ u" "a = 47 # b" "10 \<notin> set b" "re_lang k u"
    then have "s = 47 # (b @ u) \<and> (\<exists>a. b @ u = a @ u \<and> 10 \<notin> set a) \<and> re_lang k u" by simp
    then show "\<exists>t. s = 47 # t \<and> (\<exists>x. (\<exists>a. t = a @ x \<and> 10 \<notin> set a) \<and> re_lang k x)" by blast
  next
    fix t u a assume "s = 47 # t" "t = a @ u" "10 \<notin> set a" "re_lang k u"
    then have "s = (47 # a) @ u \<and> (\<exists>b. 47 # a = 47 # b \<and> 10 \<notin> set b) \<and> re_lang k u" by simp
    then show "\<exists>a u. s = a @ u \<and> (\<exists>b. a = 47 # b \<and> 10 \<notin> set b) \<and> re_lang k u" by blast
  qed
  then show ?thesis unfolding TUnder token_re.simps optional_then d by (cases s) (auto simp: list_ex_iff)
next
  case TStar
  then show ?thesis unfolding TStar token_re.simps rep_then by simp
next
  case TAll
  then show ?thesis unfolding TAll token_re.simps rep_then by simp
next
  case (TLit r)
  then show ?thesis unfolding TLit token_re.simps class_then by (simp add: class_single split: list.splits)
next
  case TOne
  then show ?thesis unfolding TOne token_re.simps class_then by (simp add: class_single split: list.splits)
qed

lemma glob_match_lang: "glob_match ts s \<longleftrightarrow> re_lang (cat_all (map token_re ts)) s"
proof (induction ts arbitrary: s)
  case (Cons t ts)
  have "re_lang (cat_all (map token_re (t # ts))) s \<longleftrightarrow> list_ex (re_lang (cat_all (map token_re ts))) (token_rest t s)"
    by (simp add: token_rest_lang del: re_lang_simps)
  then show ?case using Cons by (simp add: list_ex_iff)
qed simp

section \<open>The text of a pattern is parsed back\<close>

lemma decode_encoded_byte:
  "decode1 (encode_rune (byte c) @ s) = (byte c, length (encode_rune (byte c)))"
proof (cases "byte c < 128")
  case True
  then show ?thesis by (simp add: encode_rune_def decode1_ascii)
next
  case False
  define q m where qm: "q = byte c div 64" "m = byte c mod 64"
  have "2 \<le> q" using div_le_mono [of 128 "byte c" 64] False by (simp add: qm)
  moreover have "q < 4" using byte_less [of c] by (simp add: qm less_mult_imp_div_less)
  ultimately have q: "q = 2 \<or> q = 3" by linarith
  have m: "m < 64" by (simp add: qm)
  have c: "byte c = q * 64 + m" by (simp add: qm)
  have "encode_rune (byte c) = [char_of (192 + q), char_of (128 + m)]"
  proof -
    have "byte c < 2048" using byte_less [of c] by (rule less_trans) simp
    then show ?thesis using False by (simp add: encode_rune_def flip: qm)
  qed
  moreover have "decode1 ([char_of (192 + q), char_of (128 + m)] @ s) = (q * 64 + m, 2)"
  proof -
    have b: "byte (char_of (192 + q)) = 192 + q" "byte (char_of (128 + m)) = 128 + m" using q m by auto
    show ?thesis using q m unfolding decode1_def in_range_def by (auto simp: b Let_def)
  qed
  ultimately show ?thesis by (simp add: c)
qed

lemma special_byte:
  "c \<in> set special_bytes \<Longrightarrow> punctuation c" "c \<notin> set special_bytes \<Longrightarrow> c \<notin> set (CHR 0x5C # ''()*?[.^$|+{'')"
  by (auto simp: special_bytes_def punctuation_def in_range_def byte_def)

lemma prefix_group: "c \<noteq> CHR ''('' \<Longrightarrow> \<not> has_prefix (c # s) ''(?:''"
  by (simp add: has_prefix_def)

lemma parse_plain:
  assumes "c \<notin> set special_bytes" "next_rune (c # s) = Some (r, rest)"
  shows "re_parse [items] repeated (c # s) = re_parse [Lit r # items] False rest"
  using special_byte(2) [OF assms(1)] prefix_group [of c s] assms(2) by (simp add: re_parse.simps(3))

lemma parse_literal:
  "re_parse [items] repeated (quote_meta (encode_rune (byte c)) @ s) = re_parse [Lit (byte c) # items] False s"
proof (cases "byte c < 128")
  case True
  then have e: "encode_rune (byte c) = [c]" by (simp add: encode_rune_def)
  show ?thesis
  proof (cases "c \<in> set special_bytes")
    case True
    then show ?thesis using special_byte(1) [OF True] by (simp add: e quote_meta_def re_parse.simps(3) has_prefix_def)
  next
    case False
    have "next_rune (c # s) = Some (byte c, s)" using True by (simp add: next_rune_def decode1_ascii)
    from parse_plain [OF False this] False show ?thesis by (simp add: e quote_meta_def)
  qed
next
  case False
  then obtain a b where e: "encode_rune (byte c) = [a, b]" "128 \<le> byte a" "128 \<le> byte b"
    using byte_less [of c] by (fastforce simp: encode_rune_def)
  then have sp: "a \<notin> set special_bytes" "b \<notin> set special_bytes" by (auto simp: special_bytes_def byte_def)
  have "next_rune (a # b # s) = Some (byte c, s)"
    using decode_encoded_byte [of c s] byte_less [of c] by (simp add: e next_rune_def)
  from parse_plain [OF sp(1) this] sp show ?thesis by (simp add: e quote_meta_def)
qed

lemma parse_not_slash: "parse_class (''^/]'' @ u) = Some (Cls True [(47, 47)], u)"
proof -
  have "class_loop True [] (''/]'' @ u) = Some ([(47, 47)], u)"
    by (cases u) (simp_all add: class_loop.simps named_class_def has_prefix_def class_range_def class_char_def next_rune_def decode1_ascii
        byte_def)
  then show ?thesis by (simp add: parse_class_def has_prefix_def trim_prefix_def)
qed

text \<open>Each token of a pattern is written and parsed by itself.\<close>

lemma glob_step:
  assumes "c \<noteq> CHR ''[''"
  shows "\<exists>bs t s'. glob_body (c # s) = bs @ glob_body s' \<and> glob_tokens (c # s) = t # glob_tokens s'
    \<and> length s' \<le> length s \<and> set s' \<subseteq> set s
    \<and> (\<forall>items repeated u. \<exists>repeated'. re_parse [items] repeated (bs @ u) = re_parse [token_re t # items] repeated' u)"
    (is "\<exists>bs t s'. ?step bs t s'")
proof -
  note parse = re_parse.simps(3) has_prefix_def
  consider "c = CHR ''*''" "has_prefix s ''*''" "has_prefix (drop 1 s) ''/''" | "c = CHR ''*''" "has_prefix s ''*''" "\<not> has_prefix (drop 1 s) ''/''"
    | "c = CHR ''*''" "\<not> has_prefix s ''*''" | "c = CHR ''?''" | "c \<notin> set ''*?[''"
    using assms by auto
  then show ?thesis
  proof cases
    case 1
    then have "?step ''(?:.*/)?'' TDirs (drop 2 s)"
      using set_drop_subset [of 2 s]
      by (simp add: glob_body.simps(2) glob_tokens.simps(2)) (auto simp: parse next_rune_def decode1_ascii byte_def)
    then show ?thesis by blast
  next
    case 2
    then have "?step ''.*'' TAll (drop 1 s)"
      using set_drop_subset [of 1 s] by (simp add: glob_body.simps(2) glob_tokens.simps(2)) (auto simp: parse)
    then show ?thesis by blast
  next
    case 3
    have "re_parse [items] repeated (''[^/]*'' @ u) = re_parse [token_re TStar # items] True u" for items repeated u
      using parse_not_slash [of "CHR ''*'' # u"] by (simp add: parse)
    then have "?step ''[^/]*'' TStar s" using 3 by (simp only: glob_body.simps(2) glob_tokens.simps(2)) auto
    then show ?thesis by blast
  next
    case 4
    have "re_parse [items] repeated (''[^/]'' @ u) = re_parse [token_re TOne # items] False u" for items repeated u
      using parse_not_slash [of u] by (simp add: parse)
    then have "?step ''[^/]'' TOne s" using 4 by (simp only: glob_body.simps(2) glob_tokens.simps(2)) auto
    then show ?thesis by blast
  next
    case 5
    then have "?step (quote_meta (encode_rune (byte c))) (TLit (byte c)) s"
      using parse_literal by (simp add: glob_body.simps(2) glob_tokens.simps(2)) blast
    then show ?thesis by blast
  qed
qed

lemma parse_tokens:
  "CHR ''['' \<notin> set p \<Longrightarrow> \<exists>repeated'. re_parse [items] repeated (glob_body p @ rest)
     = re_parse [rev (map token_re (glob_tokens p)) @ items] repeated' rest"
proof (induction "length p" arbitrary: p items repeated rule: less_induct)
  case less
  show ?case
  proof (cases p)
    case (Cons c s)
    then obtain bs t s' where step: "glob_body p = bs @ glob_body s'" "glob_tokens p = t # glob_tokens s'"
        "length s' \<le> length s" "set s' \<subseteq> set s"
        "\<forall>items repeated u. \<exists>repeated'. re_parse [items] repeated (bs @ u) = re_parse [token_re t # items] repeated' u"
      using glob_step [of c s] less(2) by auto
    then obtain repeated1 where "re_parse [items] repeated (glob_body p @ rest) = re_parse [token_re t # items] repeated1 (glob_body s' @ rest)"
      unfolding step(1) append_assoc by blast
    moreover obtain repeated2 where "re_parse [token_re t # items] repeated1 (glob_body s' @ rest)
        = re_parse [rev (map token_re (glob_tokens s')) @ token_re t # items] repeated2 rest"
      using less(1) [of s' "token_re t # items" repeated1] less(2) step(3,4) Cons by auto
    ultimately show ?thesis by (auto simp: step(2))
  qed auto
qed

lemma compile_pattern:
  assumes "rule_parts raw = Some (negated, rooted_pattern, directory_only, p)" and "CHR ''['' \<notin> set p"
  shows "compile_ignore_rule raw = Some \<lparr>ir_negated = negated, ir_re = cat_all (map token_re (rule_tokens rooted_pattern directory_only p))\<rparr>"
proof -
  note parse = re_parse.simps(3) has_prefix_def next_rune_def decode1_ascii byte_def
  let ?first = "if rooted_pattern then [] else [token_re TDirs]" and ?last = "if directory_only then [token_re TUnder] else []"
  have start: "re_parse [[]] False ((if rooted_pattern then [] else ''(?:.*/)?'') @ u) = re_parse [?first] (\<not> rooted_pattern) u" for u
    by (simp add: parse)
  have ending: "re_parse [items] repeated (if directory_only then ''(?:/.*)?'' else []) = Some (cat_all (rev items @ ?last))" for items repeated
    by (simp add: parse)
  obtain repeated where "re_parse [?first] (\<not> rooted_pattern) (glob_body p @ (if directory_only then ''(?:/.*)?'' else []))
      = re_parse [rev (map token_re (glob_tokens p)) @ ?first] repeated (if directory_only then ''(?:/.*)?'' else [])"
    using parse_tokens [OF assms(2)] by blast
  then have "re_parse [[]] False ((if rooted_pattern then [] else ''(?:.*/)?'') @ glob_body p @ (if directory_only then ''(?:/.*)?'' else []))
      = Some (cat_all (map token_re (rule_tokens rooted_pattern directory_only p)))"
    unfolding start ending by (simp add: rule_tokens_def)
  then show ?thesis
    by (cases rooted_pattern; cases directory_only)
      (simp_all add: compile_ignore_rule_def assms(1) regexp_compile_def has_suffix_def has_prefix_def butlast_append)
qed

section \<open>What a pattern matches\<close>

text \<open>
  C17: a glob without brackets matches a path exactly when the direct reading of the pattern does: the
  detour over the text of a regular expression, with its quoting and parsing, changes nothing.
\<close>

theorem glob_matches_direct_reading:
  assumes "rule_parts pattern = Some (negated, rooted_pattern, directory_only, p)" and "CHR ''['' \<notin> set p"
  shows "match_glob pattern path = glob_match (rule_tokens rooted_pattern directory_only p) (runes (normalize_relative path))"
  by (simp add: match_glob_def compile_pattern [OF assms] match_string_def re_match_lang glob_match_lang)

lemmas glob_eval = rule_parts_def trim_space_def has_prefix_def has_suffix_def trim_prefix_def trim_suffix_def replace_char_def
  segs_Cons_ascii byte_def is_space_def rule_tokens_def glob_tokens.simps(2) normalize_relative_def runes_Cons_ascii Let_def

theorem glob_matches_direct_reading_witness:
  "match_glob ''src/**/*.go'' ''./src/a/b/m.go'' \<and> \<not> match_glob ''src/*.go'' ''src/a/m.go''"
proof -
  have "rule_parts ''src/**/*.go'' = Some (False, True, False, ''src/**/*.go'')" "rule_parts ''src/*.go'' = Some (False, True, False, ''src/*.go'')"
    by (simp_all add: glob_eval)
  from this [THEN glob_matches_direct_reading] show ?thesis by (simp add: glob_eval)
qed

section \<open>Bytes and runes\<close>

lemma decode1_before_ascii:
  assumes "byte c < 128" "s \<noteq> []"
  shows "decode1 (s @ c # t) = decode1 s"
proof -
  have c: "\<not> in_range lo hi c" if "128 \<le> lo" for lo hi using assms(1) that by (simp add: in_range_def)
  obtain a s1 where s: "s = a # s1" using assms(2) by (cases s) auto
  show ?thesis
  proof (cases s1)
    case Nil
    then show ?thesis by (cases t) (auto simp: s decode1_def c Let_def split: list.splits)
  next
    case (Cons b s2)
    show ?thesis
    proof (cases s2)
      case Nil
      then show ?thesis by (cases t) (auto simp: s \<open>s1 = b # s2\<close> decode1_def c Let_def)
    next
      case (Cons d s3)
      then show ?thesis by (cases s3) (auto simp: s \<open>s1 = b # s2\<close> decode1_def c Let_def)
    qed
  qed
qed

lemma decode1_width: "s \<noteq> [] \<Longrightarrow> decode1 s = (r, w) \<Longrightarrow> w \<le> length s"
  by (auto simp: decode1_def Let_def split: list.splits if_splits)

lemma segs_before_ascii: "byte c < 128 \<Longrightarrow> segs (s @ c # t) = segs s @ segs (c # t)"
proof (induction s rule: segs.induct)
  case (2 a s)
  obtain r w where d: "decode1 (a # s) = (r, w)" by (cases "decode1 (a # s)")
  then have "decode1 ((a # s) @ c # t) = (r, w)" using decode1_before_ascii [OF 2(2), of "a # s"] by simp
  moreover have "w - 1 \<le> length s" using decode1_width [OF _ d] by simp
  ultimately show ?case using 2(1) [OF d [symmetric] 2(2)] d by (simp add: segs.simps(2))
qed simp

lemma runes_before_ascii: "byte c < 128 \<Longrightarrow> runes (s @ c # t) = runes s @ runes (c # t)"
  by (simp add: runes_def segs_before_ascii)

lemma byte_of_rune: "b < 128 \<Longrightarrow> b \<in> set (runes s) \<Longrightarrow> char_of b \<in> set s"
proof (induction s rule: segs.induct)
  case (2 a s)
  obtain r w where d: "decode1 (a # s) = (r, w)" by (cases "decode1 (a # s)")
  then have "runes (a # s) = r # runes (drop (w - 1) s)" by (simp add: runes_def segs.simps(2))
  then have "b = r \<or> b \<in> set (runes (drop (w - 1) s))" using 2(3) by simp
  then show ?case
  proof
    assume "b = r"
    then have "r = byte a" using decode1_rune_ascii [OF d] 2(2) by simp
    then show ?thesis using \<open>b = r\<close> by simp
  next
    assume "b \<in> set (runes (drop (w - 1) s))"
    then have "char_of b \<in> set (drop (w - 1) s)" using 2(1) [OF d [symmetric]] 2(2) by blast
    then show ?thesis by (auto dest: in_set_dropD)
  qed
qed (simp add: runes_def)

section \<open>Credentials stay hidden\<close>

text \<open>File names the built-in rules are about, and the patterns after the only negated one.\<close>

definition secret_files :: "string list" where
  "secret_files = [''id_rsa'', ''id_ed25519'', ''id_ecdsa'', ''id_dsa'', ''.npmrc'', ''.pypirc'', ''.netrc'', ''_netrc'',
     ''.git-credentials'', ''credentials.json'', ''secrets.json'', ''cookies.sqlite'', ''Cookies'']"

definition secret_endings :: "string list" where
  "secret_endings = [''.pem'', ''.key'', ''.p12'', ''.pfx'', ''.jks'', ''.keystore'', ''.keychain'', ''.keychain-db'']"

definition secret_name :: "string \<Rightarrow> bool" where
  "secret_name name \<longleftrightarrow> CHR ''/'' \<notin> set name \<and> (name \<in> set secret_files \<or> list_ex (has_suffix name) secret_endings)"

definition plain_rule :: "string \<Rightarrow> bool" where
  "plain_rule p \<longleftrightarrow> (case rule_parts p of None \<Rightarrow> False | Some (negated, _, _, q) \<Rightarrow> \<not> negated \<and> CHR ''['' \<notin> set q)"

lemma later_patterns_plain: "list_all plain_rule (drop 3 sensitive_patterns)"
  by (simp add: sensitive_patterns_def plain_rule_def glob_eval)

abbreviation last_rule :: "string \<Rightarrow> bool \<Rightarrow> ignore_rule \<Rightarrow> bool" where
  "last_rule path \<equiv> \<lambda>ignored rule. if match_string (ir_re rule) path then \<not> ir_negated rule else ignored"

lemma plain_rules_keep: "list_all plain_rule ps \<Longrightarrow> foldl (last_rule path) True (new_rule_set ps)"
proof (induction ps)
  case (Cons p ps)
  obtain rp d q where q: "rule_parts p = Some (False, rp, d, q)" "CHR ''['' \<notin> set q"
    using Cons(2) by (auto simp: plain_rule_def split: option.splits prod.splits)
  from Cons show ?case by (simp add: new_rule_set_def List.map_filter_simps compile_pattern [OF q])
qed (simp add: new_rule_set_def List.map_filter_simps)

lemma plain_rules_match:
  assumes "list_all plain_rule ps" and "p \<in> set ps" and "rule_parts p = Some (False, False, False, q)"
    and "glob_match (TDirs # glob_tokens q) (runes path)"
  shows "foldl (last_rule path) acc (new_rule_set ps)"
  using assms(1,2)
proof (induction ps arbitrary: acc)
  case (Cons p' ps)
  obtain rp d q' where q': "rule_parts p' = Some (False, rp, d, q')" "CHR ''['' \<notin> set q'"
    using Cons(2) by (auto simp: plain_rule_def split: option.splits prod.splits)
  note c = compile_pattern [OF q']
  show ?case
  proof (cases "p = p'")
    case True
    then have "rp = False \<and> d = False \<and> q' = q" using q' assms(3) by simp
    then have "match_string (cat_all (map token_re (rule_tokens rp d q'))) path"
      using assms(4) unfolding match_string_def re_match_lang glob_match_lang by (simp add: rule_tokens_def)
    then show ?thesis using plain_rules_keep [of ps] Cons(2) by (simp add: new_rule_set_def List.map_filter_simps c)
  next
    case False
    then show ?thesis using Cons by (simp add: new_rule_set_def List.map_filter_simps c)
  qed
qed simp

lemma new_rule_set_append: "new_rule_set (ps @ qs) = new_rule_set ps @ new_rule_set qs"
  by (simp add: new_rule_set_def List.map_filter_def)

lemma literal_tokens: "CHR ''*'' \<notin> set p \<Longrightarrow> CHR ''?'' \<notin> set p \<Longrightarrow> glob_tokens p = map (\<lambda>c. TLit (byte c)) p"
  by (induction p) (auto simp: glob_tokens.simps(2))

lemma glob_literals: "glob_match (map (\<lambda>c. TLit (byte c)) p) s \<longleftrightarrow> s = map byte p"
  by (induction p arbitrary: s) (auto split: list.splits)

lemma char_of_slash: "char_of (47 :: nat) = CHR ''/''" "char_of (10 :: nat) = CHR 0x0A"
  by (rule byte_inject [THEN iffD1], simp add: byte_def)+

lemma glob_ending:
  assumes "is_ascii (c # e)" and "CHR ''/'' \<notin> set b"
  shows "glob_match (TStar # map (\<lambda>c. TLit (byte c)) (c # e)) (runes (b @ c # e))"
proof -
  have "47 \<notin> set (runes b)" using byte_of_rune [of 47 b] assms(2) by (auto simp: char_of_slash)
  moreover have "runes (b @ c # e) = runes b @ map byte (c # e)"
    using assms(1) runes_before_ascii [of c b e] by (simp add: runes_ascii)
  ultimately have "map byte (c # e) \<in> set (drop_runs 47 (runes (b @ c # e)))" by (auto simp: drop_runs_iff)
  then show ?thesis unfolding glob_match.simps token_rest.simps list_ex_iff glob_literals by blast
qed

lemma glob_below:
  assumes "d = [] \<or> last d = CHR ''/''" and "CHR 0x0A \<notin> set d" and "glob_match ts (runes name)"
  shows "glob_match (TDirs # ts) (runes (d @ name))"
proof (cases d rule: rev_cases)
  case Nil
  then show ?thesis using assms(3) by simp
next
  case (snoc d' c)
  then have c: "c = CHR ''/''" using assms(1) by simp
  have "10 \<notin> set (runes d')" using byte_of_rune [of 10 d'] assms(2) snoc by (auto simp: char_of_slash)
  moreover have "runes (d @ name) = runes d' @ 47 # runes name"
    using runes_before_ascii [of c d' name] by (simp add: snoc c runes_Cons_ascii byte_def)
  ultimately have "runes name \<in> set (after_dirs (runes (d @ name)))" by (auto simp: after_dirs_iff)
  then show ?thesis using assms(3) by (auto simp: list_ex_iff)
qed

lemma secret_pattern:
  assumes "secret_name name"
  shows "\<exists>p q. p \<in> set (drop 3 sensitive_patterns) \<and> rule_parts p = Some (False, False, False, q) \<and> glob_match (glob_tokens q) (runes name)"
proof -
  have files: "\<forall>f\<in>set secret_files. f \<in> set (drop 3 sensitive_patterns) \<and> rule_parts f = Some (False, False, False, f)
      \<and> is_ascii f \<and> CHR ''*'' \<notin> set f \<and> CHR ''?'' \<notin> set f"
    by (simp add: secret_files_def sensitive_patterns_def glob_eval)
  have endings: "\<forall>e\<in>set secret_endings. CHR ''*'' # e \<in> set (drop 3 sensitive_patterns)
      \<and> rule_parts (CHR ''*'' # e) = Some (False, False, False, CHR ''*'' # e) \<and> e \<noteq> []
      \<and> is_ascii e \<and> CHR ''*'' \<notin> set e \<and> CHR ''?'' \<notin> set e"
    by (simp add: secret_endings_def sensitive_patterns_def glob_eval)
  from assms consider "name \<in> set secret_files" | e where "e \<in> set secret_endings" "has_suffix name e"
    by (auto simp: secret_name_def list_ex_iff)
  then show ?thesis
  proof cases
    case 1
    then have "glob_match (glob_tokens name) (runes name)"
      using files by (simp add: literal_tokens glob_literals runes_ascii)
    then show ?thesis using 1 files by blast
  next
    case 2
    obtain c e' where e: "e = c # e'" using endings 2(1) by (cases e) auto
    obtain b where b: "name = b @ c # e'" using 2(2) e by (auto simp: has_suffix_iff)
    have "\<not> has_prefix e ''*''" using endings 2(1) e by (auto simp: has_prefix_def)
    then have "glob_tokens (CHR ''*'' # e) = TStar # map (\<lambda>c. TLit (byte c)) (c # e')"
      using literal_tokens [of e] endings [rule_format, OF 2(1)] e by (simp add: glob_tokens.simps(2) [of "CHR ''*''"])
    moreover have "glob_match (TStar # map (\<lambda>c. TLit (byte c)) (c # e')) (runes name)"
      unfolding b using endings 2(1) e assms b by (intro glob_ending) (auto simp: secret_name_def)
    ultimately show ?thesis using endings 2(1) by metis
  qed
qed

lemma normalize_keeps_name:
  assumes "d = [] \<or> last d = CHR ''/''" and "CHR 0x0A \<notin> set d" and "CHR ''/'' \<notin> set name" and "2 \<le> length name"
  shows "\<exists>d'. normalize_relative (d @ name) = d' @ name \<and> (d' = [] \<or> last d' = CHR ''/'') \<and> CHR 0x0A \<notin> set d'"
proof -
  let ?ok = "\<lambda>d. (d = [] \<or> last d = CHR ''/'') \<and> CHR 0x0A \<notin> set d"
  have dot: "\<exists>d'. trim_prefix (d @ name) ''./'' = d' @ name \<and> ?ok d'" if ok: "?ok d" for d
  proof (cases d)
    case Nil
    then show ?thesis using assms(3) by (cases name; cases "tl name") (auto simp: trim_prefix_def has_prefix_def)
  next
    case (Cons a d1)
    then show ?thesis using ok by (cases d1) (auto simp: trim_prefix_def has_prefix_def split: if_splits)
  qed
  have sl: "\<exists>d'. trim_prefix (d @ name) ''/'' = d' @ name \<and> ?ok d'" if ok: "?ok d" for d
  proof (cases d)
    case Nil
    then show ?thesis using assms(3) by (cases name) (auto simp: trim_prefix_def has_prefix_def)
  next
    case (Cons a d1)
    then show ?thesis using ok by (auto simp: trim_prefix_def has_prefix_def split: if_splits)
  qed
  obtain d1 where d1: "trim_prefix (d @ name) ''./'' = d1 @ name" "?ok d1" using dot [of d] assms(1,2) by blast
  obtain d2 where d2: "trim_prefix (d1 @ name) ''/'' = d2 @ name" "?ok d2" using sl [of d1] d1(2) by blast
  have "\<not> has_suffix (d2 @ name) ''/''"
    using assms(3,4) by (cases name rule: rev_cases) (auto simp: has_suffix_iff)
  then show ?thesis using d1 d2 by (auto simp: normalize_relative_def trim_suffix_def)
qed

text \<open>
  C11: a file with a credential name, in any directory whose path has no newline, is sensitive, whatever
  the ignore file of the workspace says: no custom pattern, negated or not, makes it readable.
\<close>

theorem builtin_secrets_stay_hidden:
  assumes "secret_name name" and "d = [] \<or> last d = CHR ''/''" and "CHR 0x0A \<notin> set d"
  shows "is_sensitive (new_policy read) (d @ name)"
proof -
  have name: "CHR ''/'' \<notin> set name" "2 \<le> length name"
    using assms(1) by (auto simp: secret_name_def secret_files_def secret_endings_def has_suffix_iff)
  obtain d1 where d1: "normalize_relative (d @ name) = d1 @ name" "d1 = [] \<or> last d1 = CHR ''/''" "CHR 0x0A \<notin> set d1"
    using normalize_keeps_name [OF assms(2,3) name] by blast
  obtain d2 where d2: "normalize_relative (d1 @ name) = d2 @ name" "d2 = [] \<or> last d2 = CHR ''/''" "CHR 0x0A \<notin> set d2"
    using normalize_keeps_name [OF d1(2,3) name] by blast
  obtain p q where p: "p \<in> set (drop 3 sensitive_patterns)" "rule_parts p = Some (False, False, False, q)"
      "glob_match (glob_tokens q) (runes name)"
    using secret_pattern [OF assms(1)] by blast
  have "foldl (last_rule (d2 @ name)) acc (new_rule_set (drop 3 sensitive_patterns))" for acc
    using plain_rules_match [OF later_patterns_plain p(1,2) glob_below [OF d2(2,3) p(3)]] .
  then have "foldl (last_rule (d2 @ name)) False (new_rule_set (take 3 sensitive_patterns @ drop 3 sensitive_patterns))"
    unfolding new_rule_set_append foldl_append .
  then have "rule_set_matches (new_rule_set sensitive_patterns) (d1 @ name)"
    by (simp add: rule_set_matches_def d2(1))
  moreover have "d1 @ name \<noteq> []" "d1 @ name \<noteq> ''.''"
    using name(2) by (auto dest: arg_cong [of _ _ length])
  ultimately show ?thesis by (simp add: is_sensitive_def new_policy_def d1(1))
qed

theorem builtin_secrets_stay_hidden_witness:
  "is_sensitive (new_policy (\<lambda>_. Some ''!*.pem'')) ''certs/server.pem''"
  using builtin_secrets_stay_hidden [of "''server.pem''" "''certs/''" "\<lambda>_. Some ''!*.pem''"]
  by (simp add: secret_name_def secret_endings_def has_suffix_def)

section \<open>Gaps\<close>

definition rule_misses :: "string \<Rightarrow> string \<Rightarrow> bool" where
  "rule_misses path p \<longleftrightarrow> (case rule_parts p of None \<Rightarrow> False
     | Some (_, rp, d, q) \<Rightarrow> CHR ''['' \<notin> set q \<and> \<not> glob_match (rule_tokens rp d q) (runes path))"

lemma missed_rules: "list_all (rule_misses path) ps \<Longrightarrow> foldl (last_rule path) acc (new_rule_set ps) = acc"
proof (induction ps)
  case (Cons p ps)
  then obtain n rp d q where q: "rule_parts p = Some (n, rp, d, q)" "CHR ''['' \<notin> set q" "\<not> glob_match (rule_tokens rp d q) (runes path)"
    by (auto simp: rule_misses_def split: option.splits prod.splits)
  then have "\<not> match_string (cat_all (map token_re (rule_tokens rp d q))) path"
    by (simp add: match_string_def re_match_lang glob_match_lang)
  then show ?case using Cons by (simp add: new_rule_set_def List.map_filter_simps compile_pattern [OF q(1,2)])
qed (simp add: new_rule_set_def List.map_filter_simps)

text \<open>
  the dot of a compiled pattern does not match a newline, so a credential file in a directory whose
  name has a newline is not recognised.
\<close>

theorem newline_directory_exposes_secret:
  "\<not> is_sensitive (new_policy (\<lambda>_. None)) ([CHR ''a'', CHR 0x0A, CHR ''b''] @ ''/id_rsa'')"
proof -
  define path where "path = [CHR ''a'', CHR 0x0A, CHR ''b''] @ ''/id_rsa''"
  have n: "normalize_relative path = path" "path \<noteq> []" "path \<noteq> ''.''"
    by (simp_all add: path_def normalize_relative_def trim_prefix_def trim_suffix_def has_prefix_def has_suffix_def)
  have "runes path = [97, 10, 98, 47, 105, 100, 95, 114, 115, 97]" by (simp add: path_def runes_Cons_ascii byte_def)
  then have "list_all (rule_misses path) sensitive_patterns"
    by (simp add: sensitive_patterns_def rule_misses_def glob_eval)
  from missed_rules [OF this] have "\<not> is_sensitive (new_policy (\<lambda>_. None)) path"
    by (simp add: is_sensitive_def new_policy_def custom_patterns_def rule_set_matches_def n new_rule_set_def [of "[]"]
        List.map_filter_simps Let_def)
  then show ?thesis by (simp only: path_def not_False_eq_True)
qed

text \<open>
  the bytes of a pattern are written into the expression one by one, each as the rune of its value;
  a pattern with a character beyond ASCII (here the two bytes of \<open>e\<close> with an acute accent) does not
  match the file of that very name.
\<close>

theorem non_ascii_pattern_matches_nothing:
  "\<not> match_glob [CHR 0xC3, CHR 0xA9] [CHR 0xC3, CHR 0xA9]"
proof -
  have "segs [CHR 0xC3, CHR 0xA9] = [(233, [CHR 0xC3, CHR 0xA9])]" by (simp add: segs.simps(2) decode1_def in_range_def byte_def)
  then have s: "trim_space [CHR 0xC3, CHR 0xA9] = [CHR 0xC3, CHR 0xA9]" "runes [CHR 0xC3, CHR 0xA9] = [233]"
    by (simp_all add: trim_space_def runes_def is_space_def)
  have "rule_parts [CHR 0xC3, CHR 0xA9] = Some (False, False, False, [CHR 0xC3, CHR 0xA9])"
    by (simp add: rule_parts_def s has_prefix_def has_suffix_def trim_prefix_def trim_suffix_def replace_char_def)
  from glob_matches_direct_reading [OF this] show ?thesis
    by (simp add: glob_eval s)
qed

end
