(* ===== verification/Workspace.thy ===== *)
theory Workspace
  imports Policy Paths Encoding
begin

text \<open>
  \<open>internal/workspace/workspace.go\<close>: the workspace, its project configuration, and how a requested
  path is resolved inside the root.  The operating system is a record of what its calls answer: \<open>Lstat\<close>
  and \<open>Stat\<close>, reading a file, reading a directory, and \<open>EvalSymlinks\<close>.  Paths are those of Unix;
  \<open>os_folds\<close> says that the system ignores case (\<open>runtime.GOOS\<close> is darwin or windows).
\<close>

section \<open>Errors\<close>

datatype error_code =
    InvalidPath | OutsideWorkspace | SensitiveFile | FileNotFound | NotFile | NotDirectory | BinaryFile | FileTooLarge
  | InvalidExpression | InvalidConfig | RepositoryNeeded | RepositoryMissing | RepositoryLimit | InvalidArgument
  | UnsupportedType

text \<open>The errors of the package, and those of the operating system.\<close>

datatype ws_error = WsError error_code string | OsError string

section \<open>The operating system\<close>

datatype entry_kind = Regular int | Directory | Symlink | OtherKind

datatype stat_result = StatMissing | StatFailed string | StatOk entry_kind

record dir_entry =
  de_name :: string
  de_kind :: entry_kind
  de_info :: bool

record os_env =
  os_folds :: bool
  os_lower :: "nat \<Rightarrow> nat"
  os_lstat :: "string \<Rightarrow> stat_result"
  os_stat :: "string \<Rightarrow> stat_result"
  os_read :: "string \<Rightarrow> string + string"
  os_readdir :: "string \<Rightarrow> dir_entry list option"
  os_eval :: "string \<Rightarrow> string option"

text \<open>
  \<open>readBoundedRegularFile\<close>; the checks of the opened file repeat those of \<open>Lstat\<close>, which fail only if
  the file is replaced in between, and \<open>None\<close> is a missing file.
\<close>

definition read_bounded :: "os_env \<Rightarrow> string \<Rightarrow> int \<Rightarrow> (string + string) option" where
  "read_bounded env path limit =
    (case os_lstat env path of
       StatMissing \<Rightarrow> None
     | StatFailed e \<Rightarrow> Some (Inl e)
     | StatOk kind \<Rightarrow>
        Some (case kind of
          Regular sz \<Rightarrow>
            if limit < sz then Inl ''file is not a bounded regular file''
            else (case os_read env path of
                    Inl e \<Rightarrow> Inl e
                  | Inr data \<Rightarrow> if limit < int (length data) then Inl ''file exceeds safety limit'' else Inr data)
        | _ \<Rightarrow> Inl ''file is not a bounded regular file''))"

section \<open>Project configuration\<close>

record project_config =
  pc_name :: string
  pc_max_iterations :: int
  pc_profile :: string
  pc_depth :: int
  pc_repositories :: "string list"

definition empty_config :: project_config where
  "empty_config = \<lparr>pc_name = [], pc_max_iterations = 0, pc_profile = [], pc_depth = 0, pc_repositories = []\<rparr>"

definition default_config :: project_config where
  "default_config = empty_config\<lparr>pc_max_iterations := 12, pc_profile := ''current'', pc_depth := 3\<rparr>"

definition bad_config :: "string \<Rightarrow> ws_error + 'a" where
  "bad_config text = Inl (WsError InvalidConfig text)"

text \<open>
  The file of the configuration: the first of the two names that exists.  \<open>decode\<close> is the strict JSON
  decoding of exactly one object (the text of the error on failure).
\<close>

definition config_source ::
  "os_env \<Rightarrow> (string \<Rightarrow> string \<Rightarrow> string + project_config) \<Rightarrow> string \<Rightarrow> string list \<Rightarrow> (ws_error + (string \<times> project_config)) option" where
  "config_source env decode root names =
    (case List.find (\<lambda>name. read_bounded env (go_join [root, name]) (256 * 1024) \<noteq> None) names of
       None \<Rightarrow> None
     | Some name \<Rightarrow>
        Some (case read_bounded env (go_join [root, name]) (256 * 1024) of
                Some (Inr data) \<Rightarrow>
                  (case decode name data of
                     Inl text \<Rightarrow> bad_config text
                   | Inr cfg \<Rightarrow> Inr (name, cfg))
              | Some (Inl e) \<Rightarrow> bad_config (''cannot read '' @ name @ '': '' @ e)
              | None \<Rightarrow> bad_config []))"

text \<open>The loop over the repositories: the normalised list, or the first entry that is refused.\<close>

definition repository_name :: "string \<Rightarrow> string option" where
  "repository_name raw =
    (let r = trim_space (replace_char CHR 0x5C CHR ''/'' raw)
     in if r = [] \<or> CHR 0x00 \<in> set r then None
        else let r' = trim_suffix r ''/'' in Some (if r' = [] then ''.'' else r'))"

fun repository_loop :: "string \<Rightarrow> nat \<Rightarrow> string list \<Rightarrow> string list \<Rightarrow> ws_error + string list" where
  "repository_loop source i seen [] = Inr seen"
| "repository_loop source i seen (raw # rest) =
    (case repository_name raw of
       None \<Rightarrow> bad_config (source @ '' repositories['' @ digits i @ ''] is invalid'')
     | Some r \<Rightarrow>
        if r \<in> set seen then bad_config (source @ '' repositories contains duplicate path '' @ go_quote r)
        else repository_loop source (Suc i) (seen @ [r]) rest)"

definition chatgpt_profiles :: "string list" where
  "chatgpt_profiles = [''current'', ''fast'', ''balanced'', ''deep'', ''pro'']"

definition check_config :: "string \<Rightarrow> project_config \<Rightarrow> ws_error + project_config" where
  "check_config source cfg0 =
    (let cfg = cfg0\<lparr>pc_name := trim_space (pc_name cfg0)\<rparr>;
         iterations = (if pc_max_iterations cfg = 0 then 12 else pc_max_iterations cfg);
         profile0 = trim_space (pc_profile cfg);
         profile = (if profile0 = [] then ''current'' else profile0);
         depth = (if pc_depth cfg = 0 then 3 else pc_depth cfg)
     in if 160 < length (runes (pc_name cfg)) \<or> list_ex (\<lambda>c. c \<in> set (pc_name cfg)) [CHR 0x0D, CHR 0x0A, CHR 0x00]
        then bad_config (source @ '' name must be a single line of at most 160 characters'')
        else if iterations < 1 \<or> 50 < iterations then bad_config (source @ '' maxIterations must be between 1 and 50'')
        else if profile \<notin> set chatgpt_profiles
        then bad_config (source @ '' chatgptProfile must be current, fast, balanced, deep, or pro'')
        else if depth < 1 \<or> 6 < depth then bad_config (source @ '' repositoryDepth must be between 1 and 6'')
        else if 128 < length (pc_repositories cfg)
        then bad_config (source @ '' repositories may contain at most 128 entries'')
        else case repository_loop source 0 [] (pc_repositories cfg) of
          Inl e \<Rightarrow> Inl e
        | Inr rs \<Rightarrow> Inr (cfg\<lparr>pc_max_iterations := iterations, pc_profile := profile, pc_depth := depth, pc_repositories := rs\<rparr>))"

definition load_project_config ::
  "os_env \<Rightarrow> (string \<Rightarrow> string \<Rightarrow> string + project_config) \<Rightarrow> string \<Rightarrow> ws_error + project_config" where
  "load_project_config env decode root =
    (case config_source env decode root [''.codexlink.json'', ''.c2c.json''] of
       None \<Rightarrow> Inr default_config
     | Some (Inl e) \<Rightarrow> Inl e
     | Some (Inr (source, cfg)) \<Rightarrow> check_config source cfg)"

section \<open>The workspace\<close>

record workspace =
  ws_root :: string
  ws_id :: string
  ws_name :: string
  ws_policy :: policy
  ws_config :: project_config

text \<open>
  The text of the identity is hashed; on systems that ignore case it is folded first.  \<open>absolute\<close> is
  \<open>filepath.Abs\<close>, \<open>sha\<close> is SHA-256.
\<close>

definition workspace_identity :: "os_env \<Rightarrow> string \<Rightarrow> string" where
  "workspace_identity env real = (if os_folds env then to_lower (os_lower env) real else real)"

definition go_base :: "string \<Rightarrow> string" where
  "go_base p = (let es = filter (\<lambda>e. e \<noteq> []) (elems p) in if p = [] then ''.'' else if es = [] then [slash] else last es)"

definition bounded_reader :: "os_env \<Rightarrow> string \<Rightarrow> string \<Rightarrow> string option" where
  "bounded_reader env root name =
    (case read_bounded env (go_join [root, name]) (256 * 1024) of Some (Inr data) \<Rightarrow> Some data | _ \<Rightarrow> None)"

definition new_workspace ::
  "os_env \<Rightarrow> (string \<Rightarrow> string option) \<Rightarrow> (string \<Rightarrow> string) \<Rightarrow> (string \<Rightarrow> string \<Rightarrow> string + project_config) \<Rightarrow> string \<Rightarrow> ws_error + workspace" where
  "new_workspace env absolute sha decode root_input =
    (case absolute root_input of
       None \<Rightarrow> Inl (WsError InvalidPath ''invalid workspace path'')
     | Some abs_root \<Rightarrow>
        case os_eval env abs_root of
          None \<Rightarrow> Inl (WsError FileNotFound (''workspace root does not exist: '' @ root_input))
        | Some real0 \<Rightarrow>
           case os_stat env real0 of
             StatOk Directory \<Rightarrow>
               (let real = go_clean real0 in
                case load_project_config env decode real of
                  Inl e \<Rightarrow> Inl e
                | Inr cfg \<Rightarrow> Inr \<lparr>ws_root = real, ws_id = take 12 (hex_encode (sha (workspace_identity env real))),
                    ws_name = (if pc_name cfg = [] then go_base real else pc_name cfg),
                    ws_policy = new_policy (bounded_reader env real), ws_config = cfg\<rparr>)
           | StatOk _ \<Rightarrow> Inl (WsError NotDirectory (''workspace root is not a directory: '' @ root_input))
           | _ \<Rightarrow> Inl (WsError FileNotFound (''workspace root does not exist: '' @ root_input)))"

section \<open>Paths\<close>

text \<open>
  \<open>filepath.Rel\<close> on clean paths: the elements the paths share are dropped, each one left of the base
  becomes \<open>..\<close>, and a base that goes on with \<open>..\<close> is an error.
\<close>

definition path_elems :: "string \<Rightarrow> string list" where
  "path_elems p = clean_elems (rooted p) [] (elems p)"

fun drop_shared :: "string list \<Rightarrow> string list \<Rightarrow> string list \<times> string list" where
  "drop_shared (b # bs) (t # ts) = (if b = t then drop_shared bs ts else (b # bs, t # ts))"
| "drop_shared bs ts = (bs, ts)"

definition go_rel :: "string \<Rightarrow> string \<Rightarrow> string option" where
  "go_rel base target =
    (if go_clean base = go_clean target then Some ''.''
     else if rooted base \<noteq> rooted target then None
     else case drop_shared (path_elems base) (path_elems target) of
       (bs, ts) \<Rightarrow> if bs \<noteq> [] \<and> hd bs = dotdot then None
                   else Some (join_elems (replicate (length bs) dotdot @ ts)))"

definition ws_contains :: "os_env \<Rightarrow> workspace \<Rightarrow> string \<Rightarrow> bool" where
  "ws_contains env w candidate0 =
    (let fold_case = (\<lambda>p. if os_folds env then to_lower (os_lower env) p else p);
         root = fold_case (go_clean (ws_root w)); candidate = fold_case (go_clean candidate0)
     in case go_rel root candidate of
          None \<Rightarrow> False
        | Some rel \<Rightarrow> rel \<noteq> dotdot \<and> \<not> has_prefix rel ''../'' \<and> \<not> rooted rel)"

text \<open>
  \<open>canonicalizeDeepest\<close> on an absolute path: the longest prefix that exists is resolved, and the rest
  is appended.  The loop over \<open>Dir\<close> and \<open>Base\<close> is a recursion on the elements, last one first.
\<close>

primrec canonicalize_from :: "(string \<Rightarrow> string option) \<Rightarrow> string list \<Rightarrow> string list \<Rightarrow> string option" where
  "canonicalize_from ev [] suffix = map_option (\<lambda>real. go_join (real # suffix)) (ev [slash])"
| "canonicalize_from ev (e # es) suffix =
    (case ev (slash # join_elems (rev (e # es))) of
       Some real \<Rightarrow> Some (go_join (real # suffix))
     | None \<Rightarrow> canonicalize_from ev es (e # suffix))"

definition canonicalize_deepest :: "(string \<Rightarrow> string option) \<Rightarrow> string \<Rightarrow> string option" where
  "canonicalize_deepest ev p = canonicalize_from ev (rev (path_elems p)) []"

text \<open>What a requested path stands for, before symbolic links are resolved.\<close>

definition requested_path :: "os_env \<Rightarrow> workspace \<Rightarrow> string \<Rightarrow> string" where
  "requested_path env w requested =
    (let v0 = replace_char CHR 0x5C CHR ''/'' (trim_space requested);
         v1 = (if has_prefix (to_lower (os_lower env) v0) ''workspace:''
               then trim_left_chars ''/'' (drop (length ''workspace:'') v0) else v0);
         v = (if v1 = [] \<or> v1 = ''/'' then ''.'' else v1)
     in if rooted v then go_clean v else go_join [ws_root w, v])"

definition ws_resolve :: "os_env \<Rightarrow> workspace \<Rightarrow> string \<Rightarrow> bool \<Rightarrow> ws_error + (string \<times> string)" where
  "ws_resolve env w requested allow_sensitive =
    (if CHR 0x00 \<in> set requested then Inl (WsError InvalidPath ''path contains a NUL byte'')
     else case canonicalize_deepest (os_eval env) (requested_path env w requested) of
       None \<Rightarrow> Inl (WsError InvalidPath (''cannot canonicalize path: '' @ requested))
     | Some canonical \<Rightarrow>
        if \<not> ws_contains env w canonical
        then Inl (WsError OutsideWorkspace (''path resolves outside the connected workspace: '' @ requested))
        else case go_rel (ws_root w) canonical of
          None \<Rightarrow> Inl (WsError OutsideWorkspace (''path resolves outside the connected workspace: '' @ requested))
        | Some rel0 \<Rightarrow>
            let rel = (if rel0 = [] then ''.'' else rel0)
            in if \<not> allow_sensitive \<and> rel \<noteq> ''.'' \<and> is_sensitive (ws_policy w) rel
               then Inl (WsError SensitiveFile (CHR 0x27 # rel @ CHR 0x27 # '' is blocked by the sensitive-file policy''))
               else Inr (canonical, rel))"

end
