(* ===== verification/WorkspaceRead.thy ===== *)
theory WorkspaceRead
  imports Workspace
begin

text \<open>
  \<open>internal/workspace/text.go\<close> and \<open>read_many.go\<close>: reading a range of lines of a text file within a
  budget of bytes, and reading several files within one budget.  Line numbers are \<open>int\<close>: the sums the
  code forms stay far from the limits of 64 bits for every file that exists, and a start beyond the
  file selects nothing in both.
\<close>

section \<open>Text\<close>

text \<open>\<open>utf8SafePrefix\<close>: the longest valid prefix within the limit.\<close>

fun safe_end :: "string \<Rightarrow> nat \<Rightarrow> nat" where
  "safe_end data 0 = 0"
| "safe_end data (Suc n) = (if utf8_valid (take (Suc n) data) then Suc n else safe_end data n)"

definition utf8_safe_prefix :: "string \<Rightarrow> nat \<Rightarrow> string" where
  "utf8_safe_prefix data limit = (if length data \<le> limit then data else take (safe_end data limit) data)"

text \<open>\<open>isBinary\<close> looks for a NUL byte in the first 8192 bytes.\<close>

definition is_binary :: "string \<Rightarrow> bool" where
  "is_binary data \<longleftrightarrow> CHR 0x00 \<in> set (take 8192 data)"

definition control_to_space :: "nat \<Rightarrow> nat" where
  "control_to_space r = (if r < 32 \<or> r = 127 then 32 else r)"

definition bounded_single_line :: "string \<Rightarrow> nat \<Rightarrow> string" where
  "bounded_single_line s max_bytes =
    utf8_safe_prefix (join_with '' '' (str_fields (encode_runes (map control_to_space (runes s))))) max_bytes"

section \<open>A text file of the workspace\<close>

record text_file =
  tf_absolute :: string
  tf_relative :: string
  tf_size :: int

definition resolve_text_file :: "os_env \<Rightarrow> workspace \<Rightarrow> string \<Rightarrow> bool \<Rightarrow> int \<Rightarrow> ws_error + text_file" where
  "resolve_text_file env w requested allow_sensitive max_source =
    (case ws_resolve env w requested allow_sensitive of
       Inl e \<Rightarrow> Inl e
     | Inr (absolute, relative) \<Rightarrow>
        (case os_stat env absolute of
           StatMissing \<Rightarrow> Inl (WsError FileNotFound (''file not found: '' @ relative))
         | StatFailed e \<Rightarrow> Inl (OsError e)
         | StatOk (Regular sz) \<Rightarrow>
             if 0 < max_source \<and> max_source < sz
             then Inl (WsError FileTooLarge (''file exceeds '' @ digits (nat max_source) @ '' bytes: '' @ relative))
             else (case os_read env absolute of
                     Inl e \<Rightarrow> Inl (OsError e)
                   | Inr data \<Rightarrow>
                      if is_binary data
                      then Inl (WsError BinaryFile (''binary file ('' @ digits (nat sz) @ '' bytes): '' @ relative))
                      else Inr \<lparr>tf_absolute = absolute, tf_relative = relative, tf_size = sz\<rparr>)
         | StatOk _ \<Rightarrow> Inl (WsError NotFile (''not a regular file: '' @ relative))))"

section \<open>A range of lines\<close>

record read_options =
  ro_start :: int
  ro_end :: int
  ro_max_lines :: int
  ro_max_bytes :: int

record read_result =
  rr_path :: string
  rr_size :: int
  rr_total :: int
  rr_start :: int
  rr_end :: int
  rr_truncated :: bool
  rr_remaining :: int
  rr_next :: "int option"
  rr_content :: string

text \<open>The options, made to fit their limits: first and last line, and the budget.\<close>

definition range_start :: "read_options \<Rightarrow> int" where
  "range_start opts = (if ro_start opts < 1 then 1 else ro_start opts)"

definition range_lines :: "read_options \<Rightarrow> int" where
  "range_lines opts = (let n = (if ro_max_lines opts < 1 then 400 else ro_max_lines opts) in if 2000 < n then 2000 else n)"

definition range_end :: "read_options \<Rightarrow> int" where
  "range_end opts =
    (let start = range_start opts;
         e = (if ro_end opts < start then start + range_lines opts - 1 else ro_end opts)
     in if start + 2000 - 1 < e then start + 2000 - 1 else e)"

definition range_bytes :: "read_options \<Rightarrow> int" where
  "range_bytes opts =
    (let b = (if ro_max_bytes opts < 1024 then 256 * 1024 else ro_max_bytes opts) in if 1024 * 1024 < b then 1024 * 1024 else b)"

text \<open>The lines the reader delivers: without the newline, and without one carriage return before it.\<close>

definition file_lines :: "string \<Rightarrow> string list" where
  "file_lines data =
    (let ls = split_on CHR 0x0A data; ls' = (if last ls = [] then butlast ls else ls)
     in map (\<lambda>l. trim_suffix l [CHR 0x0D]) ls')"

record line_scan =
  sc_total :: int
  sc_end :: int
  sc_used :: int
  sc_cut :: bool
  sc_selected :: "string list"

definition scan_line :: "int \<Rightarrow> int \<Rightarrow> int \<Rightarrow> line_scan \<Rightarrow> string \<Rightarrow> line_scan" where
  "scan_line start last_line max_bytes st0 line =
    (let st = st0\<lparr>sc_total := sc_total st0 + 1\<rparr>
     in if start \<le> sc_total st \<and> sc_total st \<le> last_line \<and> \<not> sc_cut st then
          (let cost = int (length line) + (if sc_selected st \<noteq> [] then 1 else 0) in
           if sc_used st + cost \<le> max_bytes
           then st\<lparr>sc_selected := sc_selected st @ [line], sc_used := sc_used st + cost, sc_end := sc_total st\<rparr>
           else if sc_selected st = []
           then (let prefix = utf8_safe_prefix line (nat max_bytes)
                 in st\<lparr>sc_selected := [prefix], sc_used := int (length prefix), sc_end := sc_total st, sc_cut := True\<rparr>)
           else st\<lparr>sc_cut := True\<rparr>)
        else st)"

definition scan_range :: "int \<Rightarrow> int \<Rightarrow> int \<Rightarrow> string list \<Rightarrow> line_scan" where
  "scan_range start last_line max_bytes ls =
    foldl (scan_line start last_line max_bytes)
      \<lparr>sc_total = 0, sc_end = start - 1, sc_used = 0, sc_cut = False, sc_selected = []\<rparr> ls"

definition range_result :: "text_file \<Rightarrow> int \<Rightarrow> line_scan \<Rightarrow> read_result" where
  "range_result source start st =
    (let remaining = (if sc_total st - sc_end st < 0 then 0 else sc_total st - sc_end st);
         v = (if sc_cut st \<and> length (sc_selected st) = 1 \<and> sc_end st = start then 0 else sc_end st + 1)
     in \<lparr>rr_path = tf_relative source, rr_size = tf_size source, rr_total = sc_total st, rr_start = start,
         rr_end = sc_end st, rr_truncated = (0 < remaining \<or> sc_cut st), rr_remaining = remaining,
         rr_next = (if (0 < remaining \<or> sc_cut st) \<and> 0 < v then Some v else None),
         rr_content = join_with [CHR 0x0A] (sc_selected st)\<rparr>)"

definition read_text_range :: "os_env \<Rightarrow> text_file \<Rightarrow> read_options \<Rightarrow> ws_error + read_result" where
  "read_text_range env source opts =
    (case os_read env (tf_absolute source) of
       Inl e \<Rightarrow> Inl (OsError e)
     | Inr data \<Rightarrow>
        let start = range_start opts
        in Inr (range_result source start (scan_range start (range_end opts) (range_bytes opts) (file_lines data))))"

definition ws_read_file :: "os_env \<Rightarrow> workspace \<Rightarrow> string \<Rightarrow> read_options \<Rightarrow> ws_error + read_result" where
  "ws_read_file env w requested opts =
    (case resolve_text_file env w requested False 0 of
       Inl e \<Rightarrow> Inl e
     | Inr file \<Rightarrow> read_text_range env file opts)"

section \<open>Several files\<close>

record file_request =
  fr_path :: string
  fr_start :: int
  fr_end :: int

record files_item =
  fi_path :: string
  fi_outcome :: "(error_code \<times> string) + read_result"

record files_result =
  fs_requested :: nat
  fs_processed :: nat
  fs_successes :: nat
  fs_errors :: nat
  fs_bytes :: int
  fs_truncated :: bool
  fs_remaining :: nat
  fs_items :: "files_item list"

definition normalize_identity_path :: "os_env \<Rightarrow> string \<Rightarrow> string" where
  "normalize_identity_path env p = (let c = go_clean p in if os_folds env then to_lower (os_lower env) c else c)"

definition bad_argument :: "string \<Rightarrow> ws_error + 'a" where
  "bad_argument text = Inl (WsError InvalidArgument text)"

text \<open>The checks of one request; its path becomes the resolved one.\<close>

definition check_file_request :: "os_env \<Rightarrow> workspace \<Rightarrow> nat \<Rightarrow> file_request \<Rightarrow> ws_error + file_request" where
  "check_file_request env w i q0 =
    (let q = q0\<lparr>fr_start := (if fr_start q0 = 0 then 1 else fr_start q0)\<rparr>; at = ''files['' @ digits i @ '']'' in
     if trim_space (fr_path q0) = [] then bad_argument (at @ ''.path is required'')
     else if fr_start q < 1 \<or> (fr_end q \<noteq> 0 \<and> fr_end q < fr_start q) then bad_argument (at @ '' has an invalid line range'')
     else if fr_end q \<noteq> 0 \<and> 400 < fr_end q - fr_start q + 1 then bad_argument (at @ '' requests more than 400 lines'')
     else case ws_resolve env w (fr_path q) True of
       Inl e \<Rightarrow> Inl e
     | Inr (_, relative) \<Rightarrow> Inr (q\<lparr>fr_path := relative\<rparr>))"

fun check_requests :: "os_env \<Rightarrow> workspace \<Rightarrow> nat \<Rightarrow> string list \<Rightarrow> file_request list \<Rightarrow> ws_error + file_request list" where
  "check_requests env w i seen [] = Inr []"
| "check_requests env w i seen (q # qs) =
    (case check_file_request env w i q of
       Inl e \<Rightarrow> Inl e
     | Inr q' \<Rightarrow>
        let k = normalize_identity_path env (fr_path q')
        in if k \<in> set seen then bad_argument (''files contains duplicate path '' @ go_quote (fr_path q'))
           else map_sum id ((#) q') (check_requests env w (Suc i) (k # seen) qs))"

definition error_text :: "ws_error \<Rightarrow> error_code \<times> string" where
  "error_text e = (case e of WsError code text \<Rightarrow> (code, text) | OsError text \<Rightarrow> (InvalidArgument, text))"

definition read_one :: "os_env \<Rightarrow> workspace \<Rightarrow> int \<Rightarrow> file_request \<Rightarrow> files_item" where
  "read_one env w budget q =
    (case resolve_text_file env w (fr_path q) False (2 * 1024 * 1024) of
       Inl e \<Rightarrow> \<lparr>fi_path = fr_path q, fi_outcome = Inl (error_text e)\<rparr>
     | Inr file \<Rightarrow> \<lparr>fi_path = tf_relative file,
         fi_outcome = (case read_text_range env file
             \<lparr>ro_start = fr_start q, ro_end = fr_end q, ro_max_lines = 400, ro_max_bytes = budget\<rparr> of
           Inl e \<Rightarrow> Inl (error_text e) | Inr r \<Rightarrow> Inr r)\<rparr>)"

text \<open>The loop over the checked requests; it ends when the budget left is below 1024 bytes.\<close>

fun read_loop :: "os_env \<Rightarrow> workspace \<Rightarrow> int \<Rightarrow> file_request list \<Rightarrow> files_result \<Rightarrow> files_result" where
  "read_loop env w budget [] res = res"
| "read_loop env w budget (q # qs) res =
    (let left = budget - fs_bytes res in
     if left < 1024 then res\<lparr>fs_truncated := True, fs_remaining := Suc (length qs)\<rparr>
     else let item = read_one env w left q;
              res1 = (case fi_outcome item of
                 Inl _ \<Rightarrow> res\<lparr>fs_errors := Suc (fs_errors res)\<rparr>
               | Inr r \<Rightarrow>
                  let bytes = fs_bytes res + int (length (rr_content r))
                  in res\<lparr>fs_bytes := bytes, fs_successes := Suc (fs_successes res),
                         fs_truncated := (fs_truncated res \<or> (rr_truncated r \<and> budget \<le> bytes))\<rparr>)
          in read_loop env w budget qs
               (res1\<lparr>fs_items := fs_items res1 @ [item], fs_processed := Suc (fs_processed res1)\<rparr>))"

definition ws_read_files :: "os_env \<Rightarrow> workspace \<Rightarrow> file_request list \<Rightarrow> int \<Rightarrow> ws_error + files_result" where
  "ws_read_files env w files max_bytes =
    (if length files < 1 \<or> 16 < length files then bad_argument ''files must contain between 1 and 16 items''
     else let budget = (if max_bytes = 0 then 256 * 1024 else max_bytes) in
       if budget < 4 * 1024 \<or> 512 * 1024 < budget then bad_argument ''max_bytes must be between 4096 and 524288''
       else case check_requests env w 0 [] files of
         Inl e \<Rightarrow> Inl e
       | Inr checked \<Rightarrow>
          let res = read_loop env w budget checked
                \<lparr>fs_requested = length checked, fs_processed = 0, fs_successes = 0, fs_errors = 0, fs_bytes = 0,
                 fs_truncated = False, fs_remaining = 0, fs_items = []\<rparr>
          in Inr (if fs_remaining res = 0 then res\<lparr>fs_remaining := fs_requested res - fs_processed res\<rparr> else res))"

end
