(* ===== verification/WorkspaceProps.thy ===== *)
theory WorkspaceProps
  imports Workspace PolicyProps
begin

text \<open>
  Requested paths stay inside the workspace, whatever they contain and wherever symbolic links lead,
  and accepted project configurations are within their limits.
\<close>

section \<open>Relative paths\<close>

lemma path_elems_plain: "list_all plain_elem (path_elems p)"
  unfolding path_elems_def by (rule clean_shape_plain [OF clean_shape_elems])

lemma rooted_clean: "rooted (go_clean p) = rooted p"
proof (cases "rooted p")
  case False
  then show ?thesis
    using elems_join_plain(2) [OF path_elems_plain [of p, unfolded path_elems_def]]
    by (auto simp: go_clean_def Let_def rooted_def [of "''.''"] slash_def)
qed (simp add: go_clean_def rooted_def Let_def)

lemma path_elems_clean: "path_elems (go_clean p) = path_elems p"
proof (cases "rooted p")
  case True
  then have "path_elems (slash # join_elems (path_elems p)) = path_elems p"
    using elems_join_plain(1) [OF path_elems_plain [of p]] clean_elems_idem [OF clean_shape_elems [of p]]
    by (cases "path_elems p = []") (auto simp: path_elems_def rooted_def slash_def)
  then show ?thesis using True by (simp add: go_clean_def path_elems_def)
next
  case False
  show ?thesis
  proof (cases "path_elems p = []")
    case True
    then show ?thesis using False by (simp add: go_clean_def path_elems_def rooted_def slash_def)
  next
    case ne: False
    from elems_join_plain [OF path_elems_plain ne] clean_elems_idem [OF clean_shape_elems [of p]] False ne
    show ?thesis by (simp add: go_clean_def path_elems_def)
  qed
qed

lemma clean_eq_iff: "go_clean p = go_clean q \<longleftrightarrow> path_elems p = path_elems q"
  if r: "rooted p" "rooted q"
proof
  assume "go_clean p = go_clean q"
  then have "path_elems (go_clean p) = path_elems (go_clean q)" by simp
  then show "path_elems p = path_elems q" by (simp add: path_elems_clean)
qed (use r in \<open>simp add: go_clean_def path_elems_def\<close>)

lemma drop_shared_append: "drop_shared bs ts = (bs', ts') \<Longrightarrow> \<exists>cs. bs = cs @ bs' \<and> ts = cs @ ts'"
proof (induction bs ts rule: drop_shared.induct)
  case (1 b bs t ts)
  show ?case
  proof (cases "b = t")
    case True
    then obtain cs where "bs = cs @ bs'" "ts = cs @ ts'" using 1 by auto
    then show ?thesis using True by (intro exI [of _ "b # cs"]) simp
  qed (use 1 in simp)
qed auto

lemma rooted_elems_normal: "rooted p \<Longrightarrow> list_all normal_elem (path_elems p)"
  using clean_shape_elems [of p] by (auto simp: clean_shape_def path_elems_def)

lemma dotdot_prefix: "has_prefix (join_elems (dotdot # es)) ''../'' \<or> join_elems (dotdot # es) = dotdot"
  by (cases es) (simp_all add: has_prefix_def slash_def)

lemma rel_inside:
  assumes "go_rel base target = Some rel" and "rooted base" and "rooted target"
    and "rel \<noteq> dotdot" and "\<not> has_prefix rel ''../''"
  shows "path_elems target = path_elems base @ (if rel = ''.'' then [] else elems rel) \<and> (rel = ''.'' \<or> list_all normal_elem (elems rel))"
proof (cases "go_clean base = go_clean target")
  case True
  then show ?thesis using assms(1) clean_eq_iff [OF assms(2,3)] by (simp add: go_rel_def)
next
  case False
  obtain bs ts where d: "drop_shared (path_elems base) (path_elems target) = (bs, ts)" by fastforce
  have rel: "rel = join_elems (replicate (length bs) dotdot @ ts)"
    using assms(1-3) False d by (auto simp: go_rel_def split: if_splits)
  have "bs = []"
  proof (rule ccontr)
    assume "bs \<noteq> []"
    then obtain n where "length bs = Suc n" by (cases bs) auto
    then have "rel = join_elems (dotdot # replicate n dotdot @ ts)" using rel by simp
    with dotdot_prefix [of "replicate n dotdot @ ts"] assms(4,5) show False by simp
  qed
  then have t: "path_elems target = path_elems base @ ts" using drop_shared_append [OF d] by auto
  then have "ts \<noteq> []" using False clean_eq_iff [OF assms(2,3)] by auto
  moreover have n: "list_all normal_elem ts" using rooted_elems_normal [OF assms(3)] t by simp
  ultimately have "elems rel = ts" using elems_join_plain(1) [of ts] rel \<open>bs = []\<close> by (auto simp: normal_elem_def list_all_iff)
  moreover have "rel \<noteq> ''.''"
  proof
    assume "rel = ''.''"
    then have "ts = [''.'']" using \<open>elems rel = ts\<close> by (simp add: slash_def)
    then show False using n by (simp add: normal_elem_def plain_elem_def)
  qed
  ultimately show ?thesis using t n by simp
qed

lemma join_rooted:
  assumes "rooted real"
  shows "go_clean (go_join (real # suffix)) = go_join (real # suffix) \<and> rooted (go_join (real # suffix))"
proof -
  have "real \<noteq> []" using assms by (auto simp: rooted_def)
  then have j: "go_join (real # suffix) = go_clean (join_elems (real # filter (\<lambda>p. p \<noteq> []) suffix))" by (simp add: go_join_def)
  have "rooted (join_elems (real # ps))" for ps
    using assms by (cases real; cases ps) (auto simp: rooted_def)
  then show ?thesis unfolding j by (simp add: go_clean_idem rooted_clean)
qed

lemma canonicalize_rooted:
  assumes "\<And>q r. rooted q \<Longrightarrow> ev q = Some r \<Longrightarrow> rooted r"
  shows "canonicalize_from ev es suffix = Some p \<Longrightarrow> go_clean p = p \<and> rooted p"
proof (induction es arbitrary: suffix)
  case Nil
  then show ?case using assms [of "[slash]"] join_rooted by (auto simp: rooted_def)
next
  case (Cons e es)
  have "rooted (slash # join_elems (rev (e # es)))" by (simp add: rooted_def)
  then show ?case using assms join_rooted Cons by (auto split: option.splits)
qed

section \<open>Resolution\<close>

lemma resolved_inside:
  assumes "ws_resolve env w requested allow = Inr (p, rel)" and "\<not> os_folds env" and "rooted (ws_root w)"
    and "\<forall>q r. rooted q \<and> os_eval env q = Some r \<longrightarrow> rooted r"
  shows "go_clean p = p \<and> path_elems p = path_elems (ws_root w) @ (if rel = ''.'' then [] else elems rel)
    \<and> (rel = ''.'' \<or> list_all normal_elem (elems rel)) \<and> (allow \<or> rel = ''.'' \<or> \<not> is_sensitive (ws_policy w) rel)"
proof -
  obtain rel0 where c: "canonicalize_deepest (os_eval env) (requested_path env w requested) = Some p" "ws_contains env w p"
      "go_rel (ws_root w) p = Some rel0" "rel = (if rel0 = [] then ''.'' else rel0)"
      "allow \<or> rel = ''.'' \<or> \<not> is_sensitive (ws_policy w) rel"
    using assms(1) by (auto simp: ws_resolve_def Let_def split: if_splits option.splits)
  have p: "go_clean p = p" "rooted p"
    using c(1) assms(4) canonicalize_rooted [of "os_eval env"] unfolding canonicalize_deepest_def by blast+
  have "go_rel (go_clean (ws_root w)) (go_clean p) = go_rel (ws_root w) p"
    by (simp add: go_rel_def go_clean_idem rooted_clean path_elems_clean)
  then have n: "rel0 \<noteq> dotdot" "\<not> has_prefix rel0 ''../''"
    using c(2,3) assms(2) by (simp_all add: ws_contains_def Let_def)
  from rel_inside [OF c(3) assms(3) p(2) n] have "path_elems p = path_elems (ws_root w) @ (if rel0 = ''.'' then [] else elems rel0)"
      "rel0 = ''.'' \<or> list_all normal_elem (elems rel0)" by blast+
  moreover from this(2) have "rel0 \<noteq> []" by (auto simp: normal_elem_def plain_elem_def)
  ultimately show ?thesis using p(1) c(4,5) by simp
qed

text \<open>Where the system ignores case, the containment is that of the lower-cased texts.\<close>

definition path_case :: "os_env \<Rightarrow> string \<Rightarrow> string" where
  "path_case env p = (if os_folds env then to_lower (os_lower env) p else p)"

lemma rooted_path_case: "rooted p \<Longrightarrow> rooted (path_case env p)"
  by (cases p)
    (auto simp: path_case_def rooted_def slash_def to_lower_def runes_Cons_ascii encode_runes_def encode_rune_def lower_rune_def
      byte_def char_of_is)

lemma contained_folded:
  assumes "ws_contains env w p" and "rooted (ws_root w)" and "rooted p" and "go_clean p = p"
  shows "\<exists>names. list_all normal_elem names \<and> path_elems (path_case env p) = path_elems (path_case env (go_clean (ws_root w))) @ names"
proof -
  let ?root = "path_case env (go_clean (ws_root w))"
  obtain rel where "go_rel ?root (path_case env p) = Some rel" "rel \<noteq> dotdot" "\<not> has_prefix rel ''../''"
    using assms(1,4) by (auto simp: ws_contains_def path_case_def Let_def split: option.splits)
  moreover have "rooted ?root" "rooted (path_case env p)"
    using assms(2,3) by (simp_all add: rooted_path_case rooted_clean)
  ultimately have "path_elems (path_case env p) = path_elems ?root @ (if rel = ''.'' then [] else elems rel)"
      "rel = ''.'' \<or> list_all normal_elem (elems rel)"
    using rel_inside by blast+
  then show ?thesis by (intro exI [of _ "if rel = ''.'' then [] else elems rel"]) auto
qed

text \<open>
  C12: A path that \<open>Resolve\<close> accepts lies in the workspace after symbolic links are resolved, whatever was asked
  for: its elements are those of the root followed by ordinary names (no parent elements), the elements of the
  lower-cased texts where the system ignores case, those of the texts themselves where it does not.  The relative
  path that is returned is the one from the root to it and is not a sensitive one unless the caller allows that;
  where the system respects case it lists exactly the names below the root.  (Where case is ignored, the relative
  path need not: see \<open>folded_root_escapes_relative_path\<close>.)
\<close>

theorem resolved_paths_stay_inside:
  assumes "ws_resolve env w requested allow = Inr (p, rel)" and "rooted (ws_root w)"
    and "\<forall>q r. rooted q \<and> os_eval env q = Some r \<longrightarrow> rooted r"
  shows "go_clean p = p \<and> rooted p
    \<and> (\<exists>names. list_all normal_elem names \<and> path_elems (path_case env p) = path_elems (path_case env (go_clean (ws_root w))) @ names)
    \<and> (rel = ''.'' \<or> go_rel (ws_root w) p = Some rel)
    \<and> (allow \<or> rel = ''.'' \<or> \<not> is_sensitive (ws_policy w) rel)
    \<and> (os_folds env \<or> path_elems p = path_elems (ws_root w) @ (if rel = ''.'' then [] else elems rel)
         \<and> (rel = ''.'' \<or> list_all normal_elem (elems rel)))"
proof -
  obtain rel0 where c: "canonicalize_deepest (os_eval env) (requested_path env w requested) = Some p" "ws_contains env w p"
      "go_rel (ws_root w) p = Some rel0" "rel = (if rel0 = [] then ''.'' else rel0)"
      "allow \<or> rel = ''.'' \<or> \<not> is_sensitive (ws_policy w) rel"
    using assms(1) by (auto simp: ws_resolve_def Let_def split: if_splits option.splits)
  have p: "go_clean p = p" "rooted p"
    using c(1) assms(3) canonicalize_rooted [of "os_eval env"] unfolding canonicalize_deepest_def by blast+
  have "rel = ''.'' \<or> go_rel (ws_root w) p = Some rel" using c(3,4) by auto
  moreover have "os_folds env \<or> path_elems p = path_elems (ws_root w) @ (if rel = ''.'' then [] else elems rel)
      \<and> (rel = ''.'' \<or> list_all normal_elem (elems rel))"
    using resolved_inside [OF assms(1) _ assms(2,3)] by blast
  ultimately show ?thesis using p c(5) contained_folded [OF c(2) assms(2) p(2,1)] by blast
qed

definition open_env :: "bool \<Rightarrow> os_env" where
  "open_env folds = \<lparr>os_folds = folds, os_lower = (\<lambda>r. if 65 \<le> r \<and> r \<le> 90 then r + 32 else r), os_lstat = (\<lambda>_. StatMissing),
     os_stat = (\<lambda>_. StatMissing), os_read = (\<lambda>_. Inl []), os_readdir = (\<lambda>_. None), os_eval = Some\<rparr>"

definition plain_workspace :: "string \<Rightarrow> workspace" where
  "plain_workspace root = \<lparr>ws_root = root, ws_id = [], ws_name = [], ws_policy = \<lparr>po_sensitive = [], po_noise = [], po_custom = []\<rparr>,
     ws_config = default_config\<rparr>"

lemmas path_eval = char_of_is trim_left_chars_def ws_resolve_def requested_path_def canonicalize_deepest_def path_elems_def go_clean_def go_join_def go_rel_def
  ws_contains_def rooted_def slash_def to_lower_def encode_runes_def encode_rune_def lower_rune_def runes_Cons_ascii
  is_sensitive_def rule_set_matches_def open_env_def plain_workspace_def glob_eval

theorem resolved_paths_stay_inside_witness:
  "ws_resolve (open_env False) (plain_workspace ''/w'') ''a/../b.txt'' False = Inr (''/w/b.txt'', ''b.txt'')
    \<and> list_all normal_elem (elems ''b.txt'') \<and> path_elems ''/w/b.txt'' = path_elems ''/w'' @ [''b.txt'']"
proof -
  have r: "ws_resolve (open_env False) (plain_workspace ''/w'') ''a/../b.txt'' False = Inr (''/w/b.txt'', ''b.txt'')"
    by (simp add: path_eval)
  have e: "elems ''b.txt'' = [''b.txt'']" by (simp add: slash_def)
  from resolved_paths_stay_inside [OF r] e show ?thesis using r by (simp add: open_env_def plain_workspace_def rooted_def slash_def)
qed

text \<open>
  where case is ignored, the root is compared folded but the relative path is computed from the
  texts as they are: a request that spells the root in another case is accepted as inside, with a
  relative path that climbs out of the workspace, to which anchored ignore rules do not apply.
\<close>

theorem folded_root_escapes_relative_path:
  "ws_resolve (open_env True) (plain_workspace ''/Home/P'') ''/home/p/a.txt'' False
    = Inr (''/home/p/a.txt'', ''../../home/p/a.txt'')"
  by (simp add: path_eval)

section \<open>Configuration\<close>

lemma repository_loop_distinct:
  "repository_loop source i seen raws = Inr rs \<Longrightarrow> distinct seen \<Longrightarrow> distinct rs \<and> length rs = length seen + length raws
     \<and> set rs \<subseteq> set seen \<union> {r. \<exists>raw. repository_name raw = Some r}"
proof (induction raws arbitrary: i seen)
  case (Cons raw raws)
  then obtain r where r: "repository_name raw = Some r" "r \<notin> set seen" "repository_loop source (Suc i) (seen @ [r]) raws = Inr rs"
    by (auto simp: bad_config_def split: option.splits if_splits)
  from Cons.IH [OF r(3)] r(1,2) Cons.prems(2) show ?case by auto
qed auto

lemma repository_name_ok: "repository_name raw = Some r \<Longrightarrow> r \<noteq> [] \<and> CHR 0x00 \<notin> set r"
  by (auto simp: repository_name_def Let_def trim_suffix_def split: if_splits dest: in_set_takeD)

definition config_ok :: "project_config \<Rightarrow> bool" where
  "config_ok cfg \<longleftrightarrow> 1 \<le> pc_max_iterations cfg \<and> pc_max_iterations cfg \<le> 50 \<and> pc_profile cfg \<in> set chatgpt_profiles
     \<and> 1 \<le> pc_depth cfg \<and> pc_depth cfg \<le> 6 \<and> length (pc_repositories cfg) \<le> 128 \<and> distinct (pc_repositories cfg)
     \<and> list_all (\<lambda>r. r \<noteq> [] \<and> CHR 0x00 \<notin> set r) (pc_repositories cfg)
     \<and> length (runes (pc_name cfg)) \<le> 160 \<and> CHR 0x0A \<notin> set (pc_name cfg)"

lemma check_config_ok:
  assumes "check_config source cfg0 = Inr cfg"
  shows "config_ok cfg"
proof -
  let ?name = "trim_space (pc_name cfg0)" and ?it = "if pc_max_iterations cfg0 = 0 then 12 else pc_max_iterations cfg0"
  let ?p0 = "trim_space (pc_profile cfg0)" and ?d = "if pc_depth cfg0 = 0 then 3 else pc_depth cfg0"
  let ?p = "if ?p0 = [] then ''current'' else ?p0"
  obtain rs where rs: "repository_loop source 0 [] (pc_repositories cfg0) = Inr rs"
      and cfg: "cfg = cfg0\<lparr>pc_name := ?name, pc_max_iterations := ?it, pc_profile := ?p, pc_depth := ?d, pc_repositories := rs\<rparr>"
      and c: "length (runes ?name) \<le> 160" "CHR 0x0A \<notin> set ?name" "1 \<le> ?it" "?it \<le> 50" "?p \<in> set chatgpt_profiles" "1 \<le> ?d" "?d \<le> 6"
        "length (pc_repositories cfg0) \<le> 128"
    using assms unfolding check_config_def Let_def bad_config_def
    by (simp only: project_config.simps split: if_split_asm sum.splits) (auto simp: not_less)
  have l: "distinct rs" "length rs = length (pc_repositories cfg0)" "set rs \<subseteq> {r. \<exists>raw. repository_name raw = Some r}"
    using repository_loop_distinct [OF rs] by simp_all
  have "list_all (\<lambda>r. r \<noteq> [] \<and> CHR 0x00 \<notin> set r) rs"
    unfolding list_all_iff using l(3) repository_name_ok by blast
  then show ?thesis using c l(1,2) by (simp add: config_ok_def cfg)
qed

lemma loaded_config_limits:
  assumes "load_project_config env decode root = Inr cfg"
  shows "config_ok cfg"
proof -
  have "config_ok default_config" by (simp add: config_ok_def default_config_def empty_config_def chatgpt_profiles_def)
  then show ?thesis
    using assms check_config_ok by (auto simp: load_project_config_def split: option.splits sum.splits prod.splits)
qed

text \<open>
  a project configuration that is loaded, from whichever file or by default, is within the limits
  the program relies on, and its repositories are distinct.
\<close>

theorem loaded_config_is_within_limits:
  assumes "load_project_config env decode root = Inr cfg"
  shows "config_ok cfg"
  by (rule loaded_config_limits [OF assms])

theorem loaded_config_is_within_limits_witness:
  "config_ok (default_config\<lparr>pc_max_iterations := 7, pc_repositories := [''a'']\<rparr>)"
proof -
  let ?env = "(open_env False)\<lparr>os_lstat := \<lambda>_. StatOk (Regular 2), os_read := \<lambda>_. Inr ''{}''\<rparr>"
  let ?decode = "\<lambda>_ _. Inr (empty_config\<lparr>pc_max_iterations := 7, pc_repositories := [''a/'']\<rparr>)"
  have "load_project_config ?env ?decode ''/w'' = Inr (default_config\<lparr>pc_max_iterations := 7, pc_repositories := [''a'']\<rparr>)"
    by (simp add: load_project_config_def config_source_def read_bounded_def check_config_def empty_config_def default_config_def
        chatgpt_profiles_def repository_name_def glob_eval)
  from loaded_config_is_within_limits [OF this] show ?thesis .
qed

end
