(* ===== verification/WorkspaceReadProps.thy ===== *)
theory WorkspaceReadProps
  imports WorkspaceRead WorkspaceProps
begin

text \<open>
  What a range of lines contains: the pages of a file follow each other, and every answer keeps to its
  budget, for one file and for several.
\<close>

section \<open>The scan of the lines\<close>

abbreviation newline_join :: "string list \<Rightarrow> string" where "newline_join \<equiv> join_with [CHR 0x0A]"

lemma newline_join_snoc: "newline_join (ls @ [l]) = (if ls = [] then l else newline_join ls @ [CHR 0x0A] @ l)"
proof (induction ls)
  case (Cons a ls)
  then show ?case by (cases ls) auto
qed simp

lemma safe_end_le: "safe_end data n \<le> n"
  by (induction n) (simp_all add: le_SucI)

lemma utf8_safe_prefix_length: "length (utf8_safe_prefix data limit) \<le> limit"
  using safe_end_le [of data limit] by (simp add: utf8_safe_prefix_def)

lemma utf8_safe_prefix_is_prefix: "take (length (utf8_safe_prefix data limit)) data = utf8_safe_prefix data limit"
  using safe_end_le [of data limit] by (simp add: utf8_safe_prefix_def min_def)

text \<open>\<open>selected\<close> is a run of lines from the first requested one, or the cut first line alone.\<close>

definition scan_inv :: "int \<Rightarrow> int \<Rightarrow> int \<Rightarrow> string list \<Rightarrow> line_scan \<Rightarrow> bool" where
  "scan_inv start last_line max_bytes ls st \<longleftrightarrow>
     (let rest = drop (nat (start - 1)) ls; m = length (sc_selected st) in
      sc_total st = int (length ls) \<and> sc_end st = start - 1 + int m \<and> sc_used st = int (length (newline_join (sc_selected st)))
      \<and> sc_used st \<le> max_bytes \<and> m \<le> length rest \<and> m \<le> nat (last_line - start + 1)
      \<and> ((\<exists>later. rest = sc_selected st @ later) \<or> sc_cut st \<and> m = 1)
      \<and> (\<not> sc_cut st \<longrightarrow> sc_selected st = take (nat (last_line - start + 1)) rest)
      \<and> (sc_cut st \<longrightarrow> m \<noteq> 0 \<and> (sc_end st < sc_total st \<or> m = 1)))"

lemma scan_line_inv:
  assumes inv: "scan_inv start last_line max_bytes ls st" and start: "1 \<le> start" and mb: "0 \<le> max_bytes"
  shows "scan_inv start last_line max_bytes (ls @ [line]) (scan_line start last_line max_bytes st line)"
proof -
  let ?k = "nat (start - 1)" and ?N = "nat (last_line - start + 1)" and ?sel = "sc_selected st"
  let ?rest = "drop ?k ls" and ?m = "length (sc_selected st)"
  note i = inv [unfolded scan_inv_def Let_def]
  have tot: "sc_total st = int (length ls)" using i by blast
  consider (skip) "\<not> (start \<le> sc_total st + 1 \<and> sc_total st + 1 \<le> last_line) \<or> sc_cut st"
    | (take) "start \<le> sc_total st + 1" "sc_total st + 1 \<le> last_line" "\<not> sc_cut st" by blast
  then show ?thesis
  proof cases
    case skip
    then have step: "scan_line start last_line max_bytes st line = st\<lparr>sc_total := sc_total st + 1\<rparr>" by (auto simp: scan_line_def Let_def)
    have same: "take ?N (drop ?k (ls @ [line])) = take ?N ?rest" if "\<not> sc_cut st"
    proof (cases "length ls < ?k")
      case False
      then have "?N \<le> length ?rest" using skip that tot start by auto
      then show ?thesis by simp
    qed simp
    obtain more where more: "drop ?k (ls @ [line]) = ?rest @ more" by simp
    have "?m \<le> length ?rest" using i by blast
    then have len: "?m \<le> length (drop ?k (ls @ [line]))" by simp
    have prefix: "(\<exists>later. drop ?k (ls @ [line]) = ?sel @ later) \<or> sc_cut st \<and> ?m = 1"
    proof -
      from i consider later where "?rest = ?sel @ later" | "sc_cut st" "?m = 1" by blast
      then show ?thesis
      proof cases
        case 1
        then have "drop ?k (ls @ [line]) = ?sel @ (later @ more)" using more by simp
        then show ?thesis by blast
      qed simp
    qed
    have "\<not> sc_cut st \<longrightarrow> ?sel = take ?N ?rest" using i by blast
    then have all: "\<not> sc_cut st \<longrightarrow> ?sel = take ?N (drop ?k (ls @ [line]))" using same by simp
    have cut: "sc_cut st \<longrightarrow> ?m \<noteq> 0 \<and> (sc_end st < sc_total st + 1 \<or> ?m = 1)" using i by linarith
    have upd: "sc_total (st\<lparr>sc_total := n\<rparr>) = n" "sc_end (st\<lparr>sc_total := n\<rparr>) = sc_end st" "sc_used (st\<lparr>sc_total := n\<rparr>) = sc_used st"
      "sc_cut (st\<lparr>sc_total := n\<rparr>) = sc_cut st" "sc_selected (st\<lparr>sc_total := n\<rparr>) = ?sel" for n by simp_all
    have total: "sc_total st + 1 = int (length (ls @ [line]))" using tot by simp
    show ?thesis
      unfolding step scan_inv_def Let_def upd by (intro conjI) (rule total len prefix all cut | use i in blast)+
  next
    case take
    then have k: "?k \<le> length ls" and N: "length ?rest < ?N" using tot start by auto
    have "?sel = take ?N ?rest" using i take(3) by blast
    then have sel: "?sel = ?rest" using N by simp
    have used: "sc_used st = int (length (newline_join ?sel))" and e: "sc_end st = start - 1 + int ?m" using i by blast+
    have len: "int (length ?rest) = int (length ls) - (start - 1)" using k start by simp
    define rest where "rest = ?rest"
    have rest': "drop ?k (ls @ [line]) = rest @ [line]" using k by (simp add: rest_def)
    note facts = tot used [unfolded sel] e [unfolded sel] len N sel
    note facts = facts [folded rest_def]
    let ?cost = "int (length line) + (if rest \<noteq> [] then 1 else 0)"
    have step: "scan_line start last_line max_bytes st line =
        (let st1 = st\<lparr>sc_total := sc_total st + 1\<rparr>
         in if sc_used st + ?cost \<le> max_bytes
            then st1\<lparr>sc_selected := rest @ [line], sc_used := sc_used st + ?cost, sc_end := sc_total st + 1\<rparr>
            else if rest = [] then st1\<lparr>sc_selected := [utf8_safe_prefix line (nat max_bytes)],
                   sc_used := int (length (utf8_safe_prefix line (nat max_bytes))), sc_end := sc_total st + 1, sc_cut := True\<rparr>
            else st1\<lparr>sc_cut := True\<rparr>)"
      using take facts by (simp add: scan_line_def Let_def)
    have mu: "sc_used st \<le> max_bytes" using i by blast
    show ?thesis
    proof (cases "sc_used st + ?cost \<le> max_bytes")
      case True
      then show ?thesis unfolding step scan_inv_def Let_def rest' using facts take(3) by (auto simp: newline_join_snoc)
    next
      case False
      show ?thesis
      proof (cases "rest = []")
        case True
        then show ?thesis unfolding step scan_inv_def Let_def rest'
          using False facts utf8_safe_prefix_length [of line "nat max_bytes"] mb by auto
      next
        case ne: False
        then show ?thesis unfolding step scan_inv_def Let_def rest' using False facts mu by auto
      qed
    qed
  qed
qed

lemma scan_range_inv:
  assumes "1 \<le> start" "0 \<le> max_bytes"
  shows "scan_inv start last_line max_bytes ls (scan_range start last_line max_bytes ls)"
proof (induction ls rule: rev_induct)
  case Nil
  show ?case using assms by (simp add: scan_inv_def scan_range_def)
next
  case (snoc l ls)
  from scan_line_inv [OF snoc assms] show ?case by (simp add: scan_range_def)
qed

lemma range_options:
  "1 \<le> range_start opts" "range_start opts \<le> range_end opts" "range_end opts \<le> range_start opts + 1999"
  "0 \<le> range_bytes opts" "range_bytes opts \<le> 1024 * 1024"
  by (auto simp: range_start_def range_end_def range_lines_def range_bytes_def Let_def)

section \<open>Pages\<close>

lemma read_text_range_ok:
  assumes "read_text_range env source opts = Inr r"
  obtains data st where "os_read env (tf_absolute source) = Inr data" "r = range_result source (range_start opts) st"
    "scan_inv (range_start opts) (range_end opts) (range_bytes opts) (file_lines data) st"
  using assms scan_range_inv [OF range_options(1,4)] by (auto simp: read_text_range_def Let_def split: sum.splits)

lemma scanned_next_page:
  assumes inv: "scan_inv (range_start opts) (range_end opts) (range_bytes opts) (file_lines data) st"
    and r: "r = range_result source (range_start opts) st"
  shows "case rr_next r of
      Some n \<Rightarrow> rr_start r < n \<and> n \<le> rr_total r \<and> rr_content r
          = newline_join (take (nat (n - rr_start r)) (drop (nat (rr_start r - 1)) (file_lines data)))
    | None \<Rightarrow> rr_truncated r \<or> rr_content r = newline_join (drop (nat (rr_start r - 1)) (file_lines data))"
proof -
  define start where "start = range_start opts"
  define rest where "rest = drop (nat (start - 1)) (file_lines data)"
  have start: "1 \<le> start" and last_line: "start \<le> range_end opts" using range_options [of opts] by (simp_all add: start_def)
  note i = inv [unfolded scan_inv_def Let_def, folded start_def, folded rest_def]
  let ?m = "length (sc_selected st)"
  have tot: "sc_total st = int (length (file_lines data))" and e: "sc_end st = start - 1 + int ?m" using i by blast+
  have sel: "sc_selected st = take ?m rest" if whole: "\<not> (sc_cut st \<and> ?m = 1)"
  proof -
    obtain later where "rest = sc_selected st @ later" using i whole by blast
    then show ?thesis by simp
  qed
  have len: "int (length rest) = (if start - 1 \<le> sc_total st then sc_total st - (start - 1) else 0)"
    using start by (simp add: rest_def tot)
  show ?thesis
  proof (cases "rr_next r")
    case None
    have "rr_truncated r \<or> sc_selected st = rest"
    proof (cases "rr_truncated r")
      case False
      then have "\<not> sc_cut st" "sc_total st \<le> sc_end st" by (auto simp: r range_result_def Let_def split: if_splits)
      moreover from this have "length rest \<le> ?m" using e len by (simp split: if_splits)
      ultimately show ?thesis using sel by simp
    qed simp
    then show ?thesis using None by (auto simp: r range_result_def Let_def rest_def start_def)
  next
    case (Some n)
    then have n: "n = sc_end st + 1" "0 < sc_total st - sc_end st \<or> sc_cut st" "\<not> (sc_cut st \<and> ?m = 1)"
      using e by (auto simp: r range_result_def Let_def start_def split: if_splits)
    have m: "?m \<noteq> 0"
    proof
      assume 0: "?m = 0"
      then have nc: "\<not> sc_cut st" using i by blast
      then have "sc_selected st = take (nat (range_end opts - start + 1)) rest" using i by blast
      then have "length (take (nat (range_end opts - start + 1)) rest) = 0" using 0 by simp
      then have "rest = []" using last_line by (simp add: min_def split: if_splits)
      then show False using n(2) nc e 0 len by (simp split: if_splits)
    qed
    have "sc_cut st \<longrightarrow> sc_end st < sc_total st \<or> ?m = 1" using i by blast
    then have "sc_end st < sc_total st" using n(2,3) by auto
    moreover have "nat (n - start) = ?m" using n(1) e by simp
    moreover have "rr_start r = start" "rr_total r = sc_total st" "rr_content r = newline_join (sc_selected st)"
      by (simp_all add: r range_result_def Let_def start_def)
    ultimately show ?thesis using Some m n sel [OF n(3)] e by (simp flip: rest_def)
  qed
qed

text \<open>
  C27: The pages of a file follow each other: a page starts at the line that was asked for (at the first line when
  none or a negative one was), and reaches no further than a last line that was asked for; a page that names a next
  line holds exactly the lines from its start up to that line, at least one, so that a page asked from that line
  continues where it ended; and a page that is not truncated holds all lines from its start to the end of the file.
\<close>

theorem pages_follow_each_other:
  assumes "read_text_range env source opts = Inr r" and "os_read env (tf_absolute source) = Inr data"
  shows "rr_start r = max 1 (ro_start opts) \<and> rr_total r = int (length (file_lines data))
    \<and> (rr_start r \<le> ro_end opts \<longrightarrow> rr_end r \<le> ro_end opts)
    \<and> (case rr_next r of
      Some n \<Rightarrow> rr_start r < n \<and> n \<le> rr_total r \<and> rr_content r
          = newline_join (take (nat (n - rr_start r)) (drop (nat (rr_start r - 1)) (file_lines data)))
    | None \<Rightarrow> rr_truncated r \<or> rr_content r = newline_join (drop (nat (rr_start r - 1)) (file_lines data)))"
  (is "?page \<and> ?total \<and> ?last \<and> ?next")
proof -
  obtain st where r: "r = range_result source (range_start opts) st"
    and inv: "scan_inv (range_start opts) (range_end opts) (range_bytes opts) (file_lines data) st"
    using read_text_range_ok [OF assms(1)] assms(2) by (metis sum.inject(2))
  note i = inv [unfolded scan_inv_def Let_def]
  let ?m = "length (sc_selected st)"
  have tot: "sc_total st = int (length (file_lines data))" and e: "sc_end st = range_start opts - 1 + int ?m"
    and m: "?m \<le> nat (range_end opts - range_start opts + 1)" using i by blast+
  have "?page" by (simp add: r range_result_def Let_def range_start_def max_def)
  moreover have "?total" by (simp add: r range_result_def Let_def tot)
  moreover have "?last"
  proof
    assume "rr_start r \<le> ro_end opts"
    then have "range_end opts \<le> ro_end opts" by (simp add: r range_result_def Let_def range_end_def)
    then show "rr_end r \<le> ro_end opts" using m e range_options [of opts] by (simp add: r range_result_def Let_def)
  qed
  ultimately show ?thesis using scanned_next_page [OF inv r] by blast
qed

text \<open>
  an answer never exceeds its budget of bytes, which is at most 1 MiB, nor 2000 lines.
\<close>

theorem page_fits_its_budget:
  assumes "read_text_range env source opts = Inr r"
  shows "int (length (rr_content r)) \<le> range_bytes opts \<and> range_bytes opts \<le> 1024 * 1024 \<and> rr_end r - rr_start r < 2000
    \<and> rr_remaining r = max 0 (rr_total r - rr_end r)"
proof -
  obtain data st where r: "r = range_result source (range_start opts) st"
    and inv: "scan_inv (range_start opts) (range_end opts) (range_bytes opts) (file_lines data) st"
    using read_text_range_ok [OF assms] by metis
  note i = inv [unfolded scan_inv_def Let_def]
  have "sc_used st = int (length (newline_join (sc_selected st)))" "sc_used st \<le> range_bytes opts"
    "sc_end st = range_start opts - 1 + int (length (sc_selected st))"
    "length (sc_selected st) \<le> nat (range_end opts - range_start opts + 1)" using i by blast+
  then show ?thesis using range_options [of opts] by (simp add: r range_result_def Let_def)
qed

definition text_env :: "string \<Rightarrow> os_env" where
  "text_env data = \<lparr>os_folds = False, os_lower = id, os_lstat = (\<lambda>_. StatOk (Regular (int (length data)))),
     os_stat = (\<lambda>_. StatOk (Regular (int (length data)))), os_read = (\<lambda>_. Inr data), os_readdir = (\<lambda>_. None), os_eval = Some\<rparr>"

definition some_file :: text_file where
  "some_file = \<lparr>tf_absolute = ''/w/a'', tf_relative = ''a'', tf_size = 5\<rparr>"

definition first_lines :: "int \<Rightarrow> int \<Rightarrow> read_options" where
  "first_lines n bytes = \<lparr>ro_start = 1, ro_end = 0, ro_max_lines = n, ro_max_bytes = bytes\<rparr>"

definition three_lines :: string where
  "three_lines = [CHR ''a'', CHR 0x0A, CHR ''b'', CHR 0x0A, CHR ''c'']"

lemmas range_eval = read_text_range_def range_start_def range_end_def range_lines_def range_bytes_def first_lines_def text_env_def
  scan_range_def scan_line_def range_result_def some_file_def Let_def

lemma first_page:
  "read_text_range (text_env three_lines) some_file (first_lines 2 0) = Inr \<lparr>rr_path = ''a'', rr_size = 5, rr_total = 3, rr_start = 1,
     rr_end = 2, rr_truncated = True, rr_remaining = 1, rr_next = Some 3, rr_content = [CHR ''a'', CHR 0x0A, CHR ''b'']\<rparr>"
  by (simp add: range_eval three_lines_def file_lines_def trim_suffix_def has_suffix_def)

theorem pages_follow_each_other_witness:
  "\<exists>r. read_text_range (text_env three_lines) some_file (first_lines 2 0) = Inr r \<and> rr_start r = 1 \<and> rr_next r = Some 3
     \<and> rr_content r = newline_join (take 2 (file_lines three_lines))"
proof -
  from pages_follow_each_other [OF first_page, of three_lines] show ?thesis by (simp add: first_page) (simp add: text_env_def)
qed

theorem page_fits_its_budget_witness:
  "\<exists>r. read_text_range (text_env three_lines) some_file (first_lines 2 0) = Inr r \<and> int (length (rr_content r)) \<le> 256 * 1024"
  using page_fits_its_budget [OF first_page] unfolding first_page by (simp add: range_bytes_def first_lines_def)

text \<open>
  when the budget has room for the first line but not for the second, the answer is marked as
  truncated with lines remaining, but names no next line: the test for a cut first line takes a page of
  one whole line for one.
\<close>

theorem page_of_one_line_has_no_next:
  "\<exists>r. read_text_range (text_env (replicate 1000 CHR ''a'' @ [CHR 0x0A] @ replicate 100 CHR ''b'')) some_file (first_lines 400 1024) = Inr r
     \<and> rr_content r = replicate 1000 CHR ''a'' \<and> rr_total r = 2 \<and> rr_remaining r = 1 \<and> rr_truncated r \<and> rr_next r = None"
proof -
  have ab: "split_on CHR 0x0A (replicate 1000 CHR ''a'' @ [CHR 0x0A] @ replicate 100 CHR ''b'') = [replicate 1000 CHR ''a'', replicate 100 CHR ''b'']"
    using split_on_head [of "CHR 0x0A" "replicate 1000 CHR ''a''" "replicate 100 CHR ''b''"]
    by (simp add: split_on_no_sep)
  have cr: "trim_suffix (replicate n c) [CHR 0x0D] = replicate n c" if "c \<noteq> CHR 0x0D" for n c
    using that by (cases n) (auto simp: trim_suffix_def has_suffix_iff append_eq_append_conv2 simp flip: replicate_append_same)
  have "file_lines (replicate 1000 CHR ''a'' @ [CHR 0x0A] @ replicate 100 CHR ''b'') = [replicate 1000 CHR ''a'', replicate 100 CHR ''b'']"
    unfolding file_lines_def ab by (simp add: cr)
  then show ?thesis by (simp add: range_eval)
qed

section \<open>One budget for several files\<close>

definition item_bytes :: "files_item \<Rightarrow> int" where
  "item_bytes item = (case fi_outcome item of Inl _ \<Rightarrow> 0 | Inr r \<Rightarrow> int (length (rr_content r)))"

lemma read_one_budget:
  assumes "1024 \<le> budget" and "budget \<le> 512 * 1024"
  shows "item_bytes (read_one env w budget q) \<le> budget" "0 \<le> item_bytes (read_one env w budget q)"
proof -
  have "int (length (rr_content r)) \<le> budget"
    if "read_text_range env source \<lparr>ro_start = fr_start q, ro_end = fr_end q, ro_max_lines = 400, ro_max_bytes = budget\<rparr> = Inr r" for source r
    using page_fits_its_budget [OF that] assms by (simp add: range_bytes_def)
  then show "item_bytes (read_one env w budget q) \<le> budget"
    using assms by (auto simp: read_one_def item_bytes_def split: sum.splits)
  show "0 \<le> item_bytes (read_one env w budget q)" by (simp add: item_bytes_def split: sum.split)
qed

definition loop_inv :: "int \<Rightarrow> files_result \<Rightarrow> bool" where
  "loop_inv budget res \<longleftrightarrow> fs_bytes res = sum_list (map item_bytes (fs_items res)) \<and> 0 \<le> fs_bytes res \<and> fs_bytes res \<le> budget
     \<and> fs_processed res = length (fs_items res) \<and> fs_processed res = fs_successes res + fs_errors res"

lemma read_loop_inv:
  assumes "loop_inv budget res" and "budget \<le> 512 * 1024" and "fs_remaining res = 0"
  shows "loop_inv budget (read_loop env w budget qs res)
    \<and> fs_requested (read_loop env w budget qs res) = fs_requested res
    \<and> (fs_remaining (read_loop env w budget qs res) = 0 \<longrightarrow> fs_processed (read_loop env w budget qs res) = fs_processed res + length qs)
    \<and> (fs_remaining (read_loop env w budget qs res) \<noteq> 0 \<longrightarrow>
        fs_processed (read_loop env w budget qs res) + fs_remaining (read_loop env w budget qs res) = fs_processed res + length qs)"
  using assms
proof (induction qs arbitrary: res)
  case (Cons q qs)
  let ?left = "budget - fs_bytes res"
  show ?case
  proof (cases "?left < 1024")
    case True
    then show ?thesis using Cons.prems by (simp add: loop_inv_def)
  next
    case False
    define item where "item = read_one env w ?left q"
    have b: "item_bytes item \<le> ?left" "0 \<le> item_bytes item"
      using read_one_budget [of ?left env w q] False Cons.prems by (simp_all add: item_def loop_inv_def)
    define res1 where "res1 = (case fi_outcome item of Inl _ \<Rightarrow> res\<lparr>fs_errors := Suc (fs_errors res)\<rparr>
      | Inr r \<Rightarrow> (let bytes = fs_bytes res + int (length (rr_content r))
                  in res\<lparr>fs_bytes := bytes, fs_successes := Suc (fs_successes res),
                         fs_truncated := (fs_truncated res \<or> (rr_truncated r \<and> budget \<le> bytes))\<rparr>))"
    define res2 where "res2 = res1\<lparr>fs_items := fs_items res1 @ [item], fs_processed := Suc (fs_processed res1)\<rparr>"
    have step: "read_loop env w budget (q # qs) res = read_loop env w budget qs res2"
      using False by (simp add: res1_def res2_def item_def Let_def)
    have "loop_inv budget res2 \<and> fs_remaining res2 = 0 \<and> fs_requested res2 = fs_requested res \<and> fs_processed res2 = Suc (fs_processed res)"
      using Cons.prems b by (cases "fi_outcome item") (auto simp: loop_inv_def res1_def res2_def item_bytes_def Let_def)
    then show ?thesis using Cons.IH [of res2] Cons.prems(2) unfolding step by simp
  qed
qed simp

lemma check_requests_length: "check_requests env w i seen qs = Inr qs' \<Longrightarrow> length qs' = length qs"
proof (induction qs arbitrary: i seen qs')
  case (Cons q qs)
  obtain q' where q: "check_file_request env w i q = Inr q'" using Cons.prems by (auto split: sum.splits)
  let ?k = "normalize_identity_path env (fr_path q')"
  have "?k \<notin> set seen" using Cons.prems q by (auto simp: bad_argument_def Let_def)
  then have m: "map_sum id ((#) q') (check_requests env w (Suc i) (?k # seen) qs) = Inr qs'" using Cons.prems q by (simp add: Let_def)
  then obtain qs1 where "check_requests env w (Suc i) (?k # seen) qs = Inr qs1" "qs' = q' # qs1"
    by (cases "check_requests env w (Suc i) (?k # seen) qs") auto
  then show ?case using Cons.IH by simp
qed simp

text \<open>
  reading several files is answered for each request or counts it as remaining, and the contents
  together never exceed the budget, which is at most 512 KiB.
\<close>

theorem files_share_one_budget:
  assumes "ws_read_files env w files max_bytes = Inr res"
  shows "sum_list (map item_bytes (fs_items res)) = fs_bytes res \<and> fs_bytes res \<le> (if max_bytes = 0 then 256 * 1024 else max_bytes)
    \<and> fs_bytes res \<le> 512 * 1024 \<and> length (fs_items res) = fs_successes res + fs_errors res
    \<and> length files = length (fs_items res) + fs_remaining res"
proof -
  let ?budget = "if max_bytes = 0 then 256 * 1024 else max_bytes"
  obtain checked where c: "check_requests env w 0 [] files = Inr checked" and budget: "4 * 1024 \<le> ?budget" "?budget \<le> 512 * 1024"
    using assms by (auto simp: ws_read_files_def bad_argument_def Let_def split: if_splits sum.splits)
  let ?res0 = "\<lparr>fs_requested = length checked, fs_processed = 0, fs_successes = 0, fs_errors = 0, fs_bytes = 0,
                 fs_truncated = False, fs_remaining = 0, fs_items = []\<rparr>"
  define r where "r = read_loop env w ?budget checked ?res0"
  have res: "res = (if fs_remaining r = 0 then r\<lparr>fs_remaining := fs_requested r - fs_processed r\<rparr> else r)"
    using assms c budget by (auto simp: ws_read_files_def bad_argument_def r_def Let_def split: if_splits)
  have "loop_inv ?budget ?res0" using budget by (simp add: loop_inv_def)
  from read_loop_inv [OF this budget(2), of env w checked, folded r_def] check_requests_length [OF c] budget
  show ?thesis by (auto simp: res loop_inv_def)
qed

lemma resolve_example: "ws_resolve (text_env data) (plain_workspace ''/w'') ''a'' allow = Inr (''/w/a'', ''a'')"
  by (simp add: path_eval text_env_def)

theorem files_share_one_budget_witness:
  "\<exists>res. ws_read_files (text_env three_lines) (plain_workspace ''/w'') [\<lparr>fr_path = ''a'', fr_start = 0, fr_end = 2\<rparr>] 4096 = Inr res
     \<and> fs_bytes res \<le> 4096 \<and> length (fs_items res) + fs_remaining res = 1"
proof -
  have "trim_space ''a'' = ''a''" by (simp add: glob_eval)
  then obtain res where "ws_read_files (text_env three_lines) (plain_workspace ''/w'') [\<lparr>fr_path = ''a'', fr_start = 0, fr_end = 2\<rparr>] 4096 = Inr res"
    by (simp add: ws_read_files_def check_file_request_def resolve_example Let_def)
  from files_share_one_budget [OF this] this show ?thesis by (intro exI [of _ res]) simp
qed

end
