(* ===== verification/WorkspaceList.thy ===== *)
theory WorkspaceList
  imports WorkspaceProps "HOL-Library.Product_Lexorder"
begin

text \<open>
  \<open>ListDirectory\<close> of \<open>internal/workspace/workspace.go\<close>: a depth-first listing of a directory without
  hidden entries and symbolic links, cut off at a cap, of which one page is returned.
\<close>

section \<open>The walk\<close>

record listed_entry =
  le_path :: string
  le_is_dir :: bool
  le_size :: "int option"

record listing =
  li_all :: "listed_entry list"
  li_skipped :: nat

definition is_directory :: "dir_entry \<Rightarrow> bool" where
  "is_directory e \<longleftrightarrow> de_kind e = Directory"

text \<open>
  Directories first, then by folded name.  \<open>sort.Slice\<close> leaves entries with equal folded names in no
  particular order; here they keep the order of \<open>ReadDir\<close>.
\<close>

definition sorted_entries :: "(nat \<Rightarrow> nat) \<Rightarrow> dir_entry list \<Rightarrow> dir_entry list" where
  "sorted_entries low es = sort_key (\<lambda>e. (\<not> is_directory e, to_lower low (de_name e))) es"

definition child_path :: "string \<Rightarrow> string \<Rightarrow> string" where
  "child_path dir name = (if dir \<noteq> [] \<and> dir \<noteq> ''.'' then trim_suffix dir ''/'' @ ''/'' @ name else name)"

text \<open>The entries of a directory, an unreadable one counts as empty.\<close>

definition read_entries :: "os_env \<Rightarrow> string \<Rightarrow> dir_entry list" where
  "read_entries env dir = (case os_readdir env dir of None \<Rightarrow> [] | Some es \<Rightarrow> sorted_entries (os_lower env) es)"

definition file_entry :: "string \<Rightarrow> dir_entry \<Rightarrow> listed_entry list" where
  "file_entry path e = (case de_kind e of
     Regular sz \<Rightarrow> if de_info e then [\<lparr>le_path = path, le_is_dir = False, le_size = Some sz\<rparr>] else []
   | _ \<Rightarrow> [])"

text \<open>
  The closure \<open>walk\<close> over the remaining entries of a directory; \<open>levels\<close> is how many levels may still
  be entered below it.
\<close>

function walk_entries :: "os_env \<Rightarrow> policy \<Rightarrow> nat \<Rightarrow> nat \<Rightarrow> string \<Rightarrow> string \<Rightarrow> dir_entry list \<Rightarrow> listing \<Rightarrow> listing" where
  "walk_entries env pol cap levels dir rel [] st = st"
| "walk_entries env pol cap levels dir rel (e # es) st =
    (if cap \<le> length (li_all st) then st
     else let path = child_path rel (de_name e) in
       if is_hidden pol path then walk_entries env pol cap levels dir rel es st
       else if de_kind e = Symlink then walk_entries env pol cap levels dir rel es (st\<lparr>li_skipped := Suc (li_skipped st)\<rparr>)
       else if is_directory e then
         (let below = go_join [dir, de_name e];
              st1 = st\<lparr>li_all := li_all st @ [\<lparr>le_path = path @ ''/'', le_is_dir = True, le_size = None\<rparr>]\<rparr>;
              st2 = (if levels = 0 then st1 else walk_entries env pol cap (levels - 1) below path (read_entries env below) st1)
          in walk_entries env pol cap levels dir rel es st2)
       else walk_entries env pol cap levels dir rel es (st\<lparr>li_all := li_all st @ file_entry path e\<rparr>))"
  by pat_completeness auto

termination
  by (relation "measures [\<lambda>(_, _, _, levels, _, _, _, _). levels, \<lambda>(_, _, _, _, _, _, es, _). length es]") auto

declare walk_entries.simps(2) [simp del]

section \<open>A page\<close>

record list_options =
  lo_depth :: int
  lo_limit :: int
  lo_offset :: int

record list_result =
  lr_path :: string
  lr_entries :: "listed_entry list"
  lr_total :: nat
  lr_offset :: nat
  lr_limit :: nat
  lr_has_more :: bool
  lr_skipped :: nat

definition list_depth :: "list_options \<Rightarrow> nat" where
  "list_depth opts = nat (if lo_depth opts < 1 then 1 else if 4 < lo_depth opts then 4 else lo_depth opts)"

definition list_limit :: "list_options \<Rightarrow> nat" where
  "list_limit opts = nat (if lo_limit opts < 1 then 200 else if 1000 < lo_limit opts then 1000 else lo_limit opts)"

definition list_offset :: "list_options \<Rightarrow> nat" where
  "list_offset opts = nat (if lo_offset opts < 0 then 0 else lo_offset opts)"

text \<open>The number of entries after which the walk stops; the sum wraps around at the width of \<open>int\<close>.\<close>

definition list_cap :: "list_options \<Rightarrow> nat" where
  "list_cap opts = nat (signed_take_bit 63 (int (list_offset opts + list_limit opts + 2000)))"

definition list_all_entries :: "os_env \<Rightarrow> policy \<Rightarrow> nat \<Rightarrow> nat \<Rightarrow> string \<Rightarrow> string \<Rightarrow> listing" where
  "list_all_entries env pol cap depth absolute relative =
    walk_entries env pol cap (depth - 1) absolute (if relative = ''.'' then [] else relative) (read_entries env absolute)
      \<lparr>li_all = [], li_skipped = 0\<rparr>"

definition list_page :: "string \<Rightarrow> nat \<Rightarrow> nat \<Rightarrow> listing \<Rightarrow> list_result" where
  "list_page relative limit offset st =
    (let total = length (li_all st);
         start = (if total < offset then total else offset);
         stop = (if total < start + limit then total else start + limit)
     in \<lparr>lr_path = relative, lr_entries = take (stop - start) (drop start (li_all st)), lr_total = total, lr_offset = offset,
         lr_limit = limit, lr_has_more = stop < total, lr_skipped = li_skipped st\<rparr>)"

definition list_directory :: "os_env \<Rightarrow> workspace \<Rightarrow> string \<Rightarrow> list_options \<Rightarrow> ws_error + list_result" where
  "list_directory env w requested opts =
    (case ws_resolve env w requested False of
       Inl e \<Rightarrow> Inl e
     | Inr (absolute, relative) \<Rightarrow>
        (case os_stat env absolute of
           StatMissing \<Rightarrow> Inl (WsError FileNotFound (''directory not found: '' @ relative))
         | StatFailed e \<Rightarrow> Inl (OsError e)
         | StatOk Directory \<Rightarrow>
             let limit = list_limit opts; offset = list_offset opts
             in Inr (list_page relative limit offset
                  (list_all_entries env (ws_policy w) (list_cap opts) (list_depth opts) absolute relative))
         | StatOk _ \<Rightarrow> Inl (WsError NotDirectory (''not a directory: '' @ relative))))"

section \<open>The listing without a cap\<close>

text \<open>What a directory lists, entry by entry, with no accumulator and no cap.\<close>

function full_entries :: "os_env \<Rightarrow> policy \<Rightarrow> nat \<Rightarrow> string \<Rightarrow> string \<Rightarrow> dir_entry list \<Rightarrow> listed_entry list" where
  "full_entries env pol levels dir rel [] = []"
| "full_entries env pol levels dir rel (e # es) =
    (let path = child_path rel (de_name e); below = go_join [dir, de_name e] in
     (if is_hidden pol path \<or> de_kind e = Symlink then []
      else if is_directory e
      then \<lparr>le_path = path @ ''/'', le_is_dir = True, le_size = None\<rparr>
             # (if levels = 0 then [] else full_entries env pol (levels - 1) below path (read_entries env below))
      else file_entry path e)
     @ full_entries env pol levels dir rel es)"
  by pat_completeness auto

termination
  by (relation "measures [\<lambda>(_, _, levels, _, _, _). levels, \<lambda>(_, _, _, _, _, es). length es]") auto

declare full_entries.simps(2) [simp del]

lemma file_entry_length: "length (file_entry path e) \<le> 1"
  by (auto simp: file_entry_def split: entry_kind.splits)

lemma take_take_append: "take c (take c xs @ ys) = take c (xs @ ys)"
  by (cases "c \<le> length xs") auto

text \<open>The capped walk lists exactly the first entries of the full listing.\<close>

lemma walk_is_prefix:
  "length (li_all st) \<le> cap \<Longrightarrow>
    li_all (walk_entries env pol cap levels dir rel es st) = take cap (li_all st @ full_entries env pol levels dir rel es)"
proof (induction env pol cap levels dir rel es st rule: walk_entries.induct)
  case (2 env pol cap levels dir rel e es st)
  let ?path = "child_path rel (de_name e)" and ?below = "go_join [dir, de_name e]"
  show ?case
  proof (cases "cap \<le> length (li_all st)")
    case True
    then show ?thesis using 2(6) by (simp add: walk_entries.simps(2))
  next
    case room: False
    show ?thesis
    proof (cases "is_hidden pol ?path \<or> de_kind e = Symlink")
      case True
      then show ?thesis using 2 room by (auto simp: walk_entries.simps(2) full_entries.simps(2) Let_def)
    next
      case shown: False
      show ?thesis
      proof (cases "is_directory e")
        case False
        have "length (li_all st @ file_entry ?path e) \<le> cap" using file_entry_length [of ?path e] room by simp
        then show ?thesis using 2(5) [OF room refl] shown False room by (simp add: walk_entries.simps(2) full_entries.simps(2) Let_def)
      next
        case dir: True
        let ?st1 = "st\<lparr>li_all := li_all st @ [\<lparr>le_path = ?path @ ''/'', le_is_dir = True, le_size = None\<rparr>]\<rparr>"
        let ?sub = "if levels = 0 then [] else full_entries env pol (levels - 1) ?below ?path (read_entries env ?below)"
        let ?st2 = "if levels = 0 then ?st1 else walk_entries env pol cap (levels - 1) ?below ?path (read_entries env ?below) ?st1"
        have l1: "length (li_all ?st1) \<le> cap" using room by simp
        then have st2: "li_all ?st2 = take cap (li_all ?st1 @ ?sub)"
          using 2(3) [OF room refl _ _ dir refl refl] shown by simp
        then have "length (li_all ?st2) \<le> cap" by simp
        then have "li_all (walk_entries env pol cap levels dir rel es ?st2) = take cap (li_all ?st2 @ full_entries env pol levels dir rel es)"
          using 2(4) [OF room refl _ _ dir refl refl refl] shown by simp
        moreover have "take cap (li_all ?st2 @ ys) = take cap (li_all ?st1 @ ?sub @ ys)" for ys
          unfolding st2 by (simp only: take_take_append append_assoc)
        ultimately show ?thesis
          using room shown dir by (simp add: walk_entries.simps(2) full_entries.simps(2) Let_def)
      qed
    qed
  qed
qed simp

lemma list_all_is_prefix:
  "li_all (list_all_entries env pol cap depth absolute relative)
    = take cap (full_entries env pol (depth - 1) absolute (if relative = ''.'' then [] else relative) (read_entries env absolute))"
  using walk_is_prefix [of "\<lparr>li_all = [], li_skipped = 0\<rparr>" cap] by (simp add: list_all_entries_def)

section \<open>What a page shows\<close>

lemma list_page_window:
  "lr_entries (list_page relative limit offset st) = take limit (drop offset (li_all st))"
  "lr_has_more (list_page relative limit offset st) \<longleftrightarrow> offset + limit < length (li_all st)"
  "lr_limit (list_page relative limit offset st) = limit" "lr_offset (list_page relative limit offset st) = offset"
  by (auto simp: list_page_def Let_def min_def)

lemma list_cap_fits:
  assumes "lo_offset opts < 2 ^ 62"
  shows "list_cap opts = list_offset opts + list_limit opts + 2000"
proof -
  have "list_offset opts < 2 ^ 62" "list_limit opts \<le> 1000" using assms by (auto simp: list_offset_def list_limit_def)
  then have "signed_take_bit 63 (int (list_offset opts + list_limit opts + 2000)) = int (list_offset opts + list_limit opts + 2000)"
    by (intro signed_take_bit_int_eq_self) auto
  then show ?thesis by (simp add: list_cap_def)
qed

text \<open>
  A page of \<open>ListDirectory\<close> is the same as if the whole directory had been listed without a cap:
  it holds the entries from the offset on, at most \<open>limit\<close> of them, and says truly whether more follow.
\<close>

theorem listing_pages_agree:
  assumes "list_directory env w requested opts = Inr r"
    and "ws_resolve env w requested False = Inr (absolute, relative)"
    and "lo_offset opts < 2 ^ 62"
  shows "let full = full_entries env (ws_policy w) (list_depth opts - 1) absolute (if relative = ''.'' then [] else relative)
               (read_entries env absolute)
         in lr_entries r = take (lr_limit r) (drop (lr_offset r) full) \<and> lr_limit r = list_limit opts
          \<and> lr_offset r = list_offset opts \<and> (lr_has_more r \<longleftrightarrow> list_offset opts + list_limit opts < length full)"
proof -
  define full where "full = full_entries env (ws_policy w) (list_depth opts - 1) absolute (if relative = ''.'' then [] else relative) (read_entries env absolute)"
  let ?cap = "list_offset opts + list_limit opts + 2000"
  obtain st where r: "r = list_page relative (list_limit opts) (list_offset opts) st" and st: "li_all st = take ?cap full"
    using assms list_all_is_prefix unfolding full_def
    by (auto simp: list_directory_def list_cap_fits Let_def split: stat_result.splits entry_kind.splits)
  have "take (list_limit opts) (drop (list_offset opts) (take ?cap full)) = take (list_limit opts) (drop (list_offset opts) full)"
    by (simp add: drop_take)
  then show ?thesis unfolding full_def [symmetric] by (simp add: r st list_page_window Let_def)
qed

definition one_file_env :: os_env where
  "one_file_env = (open_env False)\<lparr>os_stat := \<lambda>_. StatOk Directory,
     os_readdir := \<lambda>d. Some [\<lparr>de_name = ''a'', de_kind = Regular 2, de_info = True\<rparr>]\<rparr>"

lemma one_file_resolves: "ws_resolve one_file_env (plain_workspace ''/w'') ''d'' False = Inr (''/w/d'', ''d'')"
  by (simp add: path_eval one_file_env_def)

theorem listing_pages_agree_witness:
  "\<exists>r. list_directory one_file_env (plain_workspace ''/w'') ''d'' \<lparr>lo_depth = 1, lo_limit = 0, lo_offset = 0\<rparr> = Inr r
     \<and> map le_path (lr_entries r) = [''d/a''] \<and> \<not> lr_has_more r"
proof -
  let ?opts = "\<lparr>lo_depth = 1, lo_limit = 0, lo_offset = 0\<rparr>" and ?w = "plain_workspace ''/w''"
  have "os_stat one_file_env ''/w/d'' = StatOk Directory" by (simp add: one_file_env_def)
  then obtain r where r: "list_directory one_file_env ?w ''d'' ?opts = Inr r"
    by (simp add: list_directory_def one_file_resolves Let_def)
  have "full_entries one_file_env (ws_policy ?w) 0 ''/w/d'' ''d'' (read_entries one_file_env ''/w/d'')
      = [\<lparr>le_path = ''d/a'', le_is_dir = False, le_size = Some 2\<rparr>]"
    by (simp add: one_file_env_def read_entries_def sorted_entries_def full_entries.simps(2) child_path_def trim_suffix_def
        is_hidden_def is_noise_def is_directory_def file_entry_def path_eval Let_def)
  then show ?thesis
    using r listing_pages_agree [OF r one_file_resolves]
    by (intro exI [of _ r]) (simp add: list_depth_def list_limit_def list_offset_def)
qed

text \<open>What a listing may name: a visible path, with a trailing slash for a directory.\<close>

definition visible_entry :: "policy \<Rightarrow> listed_entry \<Rightarrow> bool" where
  "visible_entry pol e \<longleftrightarrow> (\<exists>path. \<not> is_hidden pol path \<and> le_path e = (if le_is_dir e then path @ ''/'' else path))"

lemma file_entry_visible: "e \<in> set (file_entry path d) \<Longrightarrow> \<not> is_hidden pol path \<Longrightarrow> visible_entry pol e"
  by (auto simp: file_entry_def visible_entry_def split: if_splits entry_kind.splits)

lemma dir_entry_visible:
  "\<not> is_hidden pol path \<Longrightarrow> visible_entry pol \<lparr>le_path = path @ ''/'', le_is_dir = True, le_size = None\<rparr>"
  by (auto simp: visible_entry_def)

lemma full_entries_visible: "e \<in> set (full_entries env pol levels dir rel es) \<Longrightarrow> visible_entry pol e"
proof (induction env pol levels dir rel es rule: full_entries.induct)
  case (2 env pol levels dir rel d es)
  then show ?case
    by (auto simp: full_entries.simps(2) Let_def dir_entry_visible dest: file_entry_visible split: if_splits)
qed simp

text \<open>
  \<open>ListDirectory\<close> never names a hidden path, whatever the page, and never more than a thousand entries.
\<close>

theorem listing_hides_hidden_entries:
  assumes "list_directory env w requested opts = Inr r"
  shows "list_all (visible_entry (ws_policy w)) (lr_entries r) \<and> length (lr_entries r) \<le> 1000"
proof -
  obtain absolute relative where res: "ws_resolve env w requested False = Inr (absolute, relative)"
    using assms by (auto simp: list_directory_def split: sum.splits)
  define st where "st = list_all_entries env (ws_policy w) (list_cap opts) (list_depth opts) absolute relative"
  have r: "lr_entries r = take (list_limit opts) (drop (list_offset opts) (li_all st))"
    using assms res by (auto simp: list_directory_def Let_def st_def list_page_window split: stat_result.splits entry_kind.splits)
  then have "set (lr_entries r) \<subseteq> set (li_all st)" by (metis set_drop_subset set_take_subset subset_trans)
  moreover have "\<forall>e \<in> set (li_all st). visible_entry (ws_policy w) e"
    by (auto simp: st_def list_all_is_prefix dest!: in_set_takeD full_entries_visible)
  moreover have "length (lr_entries r) \<le> 1000" by (auto simp: r list_limit_def min_def)
  ultimately show ?thesis by (auto simp: list_all_iff)
qed

theorem listing_hides_hidden_entries_witness:
  "\<exists>r. list_directory one_file_env (plain_workspace ''/w'') ''d'' \<lparr>lo_depth = 1, lo_limit = 0, lo_offset = 0\<rparr> = Inr r
     \<and> list_all (visible_entry (ws_policy (plain_workspace ''/w''))) (lr_entries r)"
proof -
  have "os_stat one_file_env ''/w/d'' = StatOk Directory" by (simp add: one_file_env_def)
  then obtain r where "list_directory one_file_env (plain_workspace ''/w'') ''d'' \<lparr>lo_depth = 1, lo_limit = 0, lo_offset = 0\<rparr> = Inr r"
    by (simp add: list_directory_def one_file_resolves Let_def)
  from listing_hides_hidden_entries [OF this] this show ?thesis by (intro exI [of _ r]) simp
qed

end
