(* ===== verification/WorkspaceFind.thy ===== *)
theory WorkspaceFind
  imports WorkspaceList
begin

text \<open>
  \<open>FindFiles\<close> of \<open>internal/workspace/catalog.go\<close>: the ordinary files below a directory whose path matches
  a glob, sorted, of which one page is returned.
\<close>

section \<open>The walk\<close>

abbreviation find_max_depth :: int where "find_max_depth \<equiv> 32"
abbreviation find_max_limit :: int where "find_max_limit \<equiv> 500"
abbreviation find_max_offset :: int where "find_max_offset \<equiv> 10000"
abbreviation find_max_entries :: nat where "find_max_entries \<equiv> 50000"
abbreviation find_max_glob_bytes :: nat where "find_max_glob_bytes \<equiv> 256"

record find_options =
  fo_path :: string
  fo_glob :: string
  fo_depth :: int
  fo_limit :: int
  fo_offset :: int

record file_match =
  fm_path :: string
  fm_size :: int

text \<open>\<open>fw_checks\<close> counts how often the context was asked whether it has ended.\<close>

record find_state =
  fw_all :: "file_match list"
  fw_scanned :: nat
  fw_symlinks :: nat
  fw_truncated :: bool
  fw_checks :: nat

definition start_find :: find_state where
  "start_find = \<lparr>fw_all = [], fw_scanned = 0, fw_symlinks = 0, fw_truncated = False, fw_checks = 0\<rparr>"

definition find_child :: "string \<Rightarrow> string \<Rightarrow> string" where
  "find_child dir name = (if dir \<noteq> [] then trim_suffix dir ''/'' @ ''/'' @ name else name)"

definition file_matches :: "string \<Rightarrow> string \<Rightarrow> dir_entry \<Rightarrow> file_match list" where
  "file_matches glob path e = (case de_kind e of
     Regular sz \<Rightarrow> if de_info e \<and> match_glob glob path then [\<lparr>fm_path = path, fm_size = sz\<rparr>] else []
   | _ \<Rightarrow> [])"

definition tick :: "find_state \<Rightarrow> find_state" where
  "tick st = st\<lparr>fw_checks := Suc (fw_checks st)\<rparr>"

definition scanned :: "find_state \<Rightarrow> find_state" where
  "scanned st = st\<lparr>fw_scanned := Suc (fw_scanned st)\<rparr>"

text \<open>Whether a directory is entered, and the state after an entry that is not.\<close>

definition enters :: "policy \<Rightarrow> nat \<Rightarrow> string \<Rightarrow> dir_entry \<Rightarrow> bool" where
  "enters pol levels path e \<longleftrightarrow> \<not> is_hidden pol path \<and> de_kind e \<noteq> Symlink \<and> is_directory e \<and> levels \<noteq> 0"

definition pass_entry :: "policy \<Rightarrow> string \<Rightarrow> string \<Rightarrow> dir_entry \<Rightarrow> find_state \<Rightarrow> find_state" where
  "pass_entry pol glob path e st =
    (if is_hidden pol path then st
     else if de_kind e = Symlink then st\<lparr>fw_symlinks := Suc (fw_symlinks st)\<rparr>
     else if is_directory e then st
     else st\<lparr>fw_all := fw_all st @ file_matches glob path e\<rparr>)"

text \<open>
  The closure \<open>walk\<close> over the remaining entries of a directory; the first component is the error of the
  context, and \<open>levels\<close> is how many levels may still be entered.
\<close>

function find_entries ::
  "os_env \<Rightarrow> policy \<Rightarrow> (nat \<Rightarrow> string option) \<Rightarrow> string \<Rightarrow> nat \<Rightarrow> string \<Rightarrow> string \<Rightarrow> dir_entry list \<Rightarrow> find_state
     \<Rightarrow> string option \<times> find_state" where
  "find_entries env pol ctx glob levels dir rel [] st = (None, st)"
| "find_entries env pol ctx glob levels dir rel (e # es) st =
    (case ctx (fw_checks st) of
       Some err \<Rightarrow> (Some err, tick st)
     | None \<Rightarrow>
       if find_max_entries \<le> fw_scanned st then (None, (tick st)\<lparr>fw_truncated := True\<rparr>)
       else
       let st1 = scanned (tick st); path = find_child rel (de_name e); below = go_join [dir, de_name e] in
       if \<not> enters pol levels path e then find_entries env pol ctx glob levels dir rel es (pass_entry pol glob path e st1)
       else case ctx (fw_checks st1) of
         Some err \<Rightarrow> (Some err, tick st1)
       | None \<Rightarrow>
          (case os_readdir env below of
             None \<Rightarrow> find_entries env pol ctx glob levels dir rel es (tick st1)
           | Some sub \<Rightarrow>
              (case find_entries env pol ctx glob (levels - 1) below path sub (tick st1) of
                 (Some err, st2) \<Rightarrow> (Some err, st2)
               | (None, st2) \<Rightarrow> find_entries env pol ctx glob levels dir rel es st2)))"
  by pat_completeness auto

termination
  by (relation "measures [\<lambda>(_, _, _, _, levels, _, _, _, _). levels, \<lambda>(_, _, _, _, _, _, _, es, _). length es]") (auto simp: enters_def)

declare find_entries.simps(2) [simp del]

definition find_walk ::
  "os_env \<Rightarrow> policy \<Rightarrow> (nat \<Rightarrow> string option) \<Rightarrow> string \<Rightarrow> nat \<Rightarrow> string \<Rightarrow> string \<Rightarrow> string option \<times> find_state" where
  "find_walk env pol ctx glob depth dir rel =
    (case ctx 0 of Some err \<Rightarrow> (Some err, tick start_find)
     | None \<Rightarrow> (case os_readdir env dir of
         None \<Rightarrow> (None, tick start_find)
       | Some es \<Rightarrow> find_entries env pol ctx glob (depth - 1) dir rel es (tick start_find)))"

section \<open>A page\<close>

record find_result =
  fd_path :: string
  fd_glob :: string
  fd_depth :: int
  fd_offset :: int
  fd_limit :: int
  fd_matches :: "file_match list"
  fd_returned :: nat
  fd_has_more :: bool
  fd_next :: "nat option"
  fd_scanned :: nat
  fd_symlinks :: nat
  fd_scan_truncated :: bool
  fd_page_truncated :: bool

definition sorted_matches :: "(nat \<Rightarrow> nat) \<Rightarrow> file_match list \<Rightarrow> file_match list" where
  "sorted_matches low ms = sort_key (\<lambda>m. (to_lower low (fm_path m), fm_path m)) ms"

definition finish_find_files_page :: "file_match list \<Rightarrow> nat \<Rightarrow> nat \<Rightarrow> find_result \<Rightarrow> find_result" where
  "finish_find_files_page ms offset limit r =
    (let start = (if length ms < offset then length ms else offset);
         stop = (if length ms < start + limit then length ms else start + limit);
         page = fd_matches r @ take (stop - start) (drop start ms);
         r1 = r\<lparr>fd_matches := page, fd_returned := length page\<rparr>
     in if stop < length ms \<and> stop \<le> nat find_max_offset then r1\<lparr>fd_has_more := True, fd_next := Some stop\<rparr>
        else if stop < length ms then r1\<lparr>fd_page_truncated := True\<rparr>
        else r1)"

definition find_depth :: "find_options \<Rightarrow> int" where
  "find_depth opts = (if fo_depth opts = 0 then 12 else fo_depth opts)"

definition find_limit :: "find_options \<Rightarrow> int" where
  "find_limit opts = (if fo_limit opts = 0 then 100 else fo_limit opts)"

definition check_find :: "find_options \<Rightarrow> ws_error option" where
  "check_find opts =
    (let glob = trim_space (fo_glob opts) in
     if glob = [] \<or> find_max_glob_bytes < length glob \<or> CHR 0x00 \<in> set glob
     then Some (WsError InvalidArgument ''glob must contain between 1 and 256 bytes'')
     else if compile_ignore_rule glob = None then Some (WsError InvalidExpression ''glob is invalid'')
     else if find_depth opts < 1 \<or> find_max_depth < find_depth opts then Some (WsError InvalidArgument ''max_depth must be between 1 and 32'')
     else if find_limit opts < 1 \<or> find_max_limit < find_limit opts then Some (WsError InvalidArgument ''limit must be between 1 and 500'')
     else if fo_offset opts < 0 \<or> find_max_offset < fo_offset opts then Some (WsError InvalidArgument ''offset must be between 0 and 10000'')
     else None)"

definition find_page :: "os_env \<Rightarrow> string \<Rightarrow> find_options \<Rightarrow> find_state \<Rightarrow> find_result" where
  "find_page env relative opts st =
    finish_find_files_page (sorted_matches (os_lower env) (fw_all st)) (nat (fo_offset opts)) (nat (find_limit opts))
      \<lparr>fd_path = relative, fd_glob = trim_space (fo_glob opts), fd_depth = find_depth opts, fd_offset = fo_offset opts,
       fd_limit = find_limit opts, fd_matches = [], fd_returned = 0, fd_has_more = False, fd_next = None,
       fd_scanned = fw_scanned st, fd_symlinks = fw_symlinks st, fd_scan_truncated = fw_truncated st, fd_page_truncated = False\<rparr>"

definition find_files :: "os_env \<Rightarrow> workspace \<Rightarrow> (nat \<Rightarrow> string option) \<Rightarrow> find_options \<Rightarrow> ws_error + find_result" where
  "find_files env w ctx opts =
    (case ws_resolve env w (if trim_space (fo_path opts) = [] then ''.'' else fo_path opts) False of
       Inl e \<Rightarrow> Inl e
     | Inr (absolute, relative) \<Rightarrow>
        (case os_stat env absolute of
           StatMissing \<Rightarrow> Inl (WsError FileNotFound (''directory not found: '' @ relative))
         | StatFailed e \<Rightarrow> Inl (OsError e)
         | StatOk Directory \<Rightarrow>
            (case check_find opts of
               Some e \<Rightarrow> Inl e
             | None \<Rightarrow>
                (case find_walk env (ws_policy w) ctx (trim_space (fo_glob opts)) (nat (find_depth opts)) absolute
                        (if relative = ''.'' then [] else relative) of
                   (Some e, _) \<Rightarrow> Inl (OsError e)
                 | (None, st) \<Rightarrow> Inr (find_page env relative opts st)))
         | StatOk _ \<Rightarrow> Inl (WsError NotDirectory (''not a directory: '' @ relative))))"

section \<open>Every match\<close>

text \<open>The matches below a directory, with no state, no bound and no context.\<close>

function all_matches :: "os_env \<Rightarrow> policy \<Rightarrow> string \<Rightarrow> nat \<Rightarrow> string \<Rightarrow> string \<Rightarrow> dir_entry list \<Rightarrow> file_match list" where
  "all_matches env pol glob levels dir rel [] = []"
| "all_matches env pol glob levels dir rel (e # es) =
    (let path = find_child rel (de_name e); below = go_join [dir, de_name e] in
     (if is_hidden pol path \<or> de_kind e = Symlink then []
      else if is_directory e
      then (if levels = 0 then []
            else case os_readdir env below of None \<Rightarrow> [] | Some sub \<Rightarrow> all_matches env pol glob (levels - 1) below path sub)
      else file_matches glob path e)
     @ all_matches env pol glob levels dir rel es)"
  by pat_completeness auto

termination
  by (relation "measures [\<lambda>(_, _, _, levels, _, _, _). levels, \<lambda>(_, _, _, _, _, _, es). length es]") auto

declare all_matches.simps(2) [simp del]

lemma tick_scanned [simp]:
  "fw_all (tick st) = fw_all st" "fw_all (scanned st) = fw_all st"
  "fw_truncated (tick st) = fw_truncated st" "fw_truncated (scanned st) = fw_truncated st"
  "fw_scanned (tick st) = fw_scanned st" "fw_scanned (scanned st) = Suc (fw_scanned st)"
  by (simp_all add: tick_def scanned_def)

text \<open>
  What a walk guarantees: the mark of truncation stays, the number of entries stays bounded, and a walk
  that neither fails nor is truncated appends exactly the matches.
\<close>

definition walk_ok :: "file_match list \<Rightarrow> find_state \<Rightarrow> string option \<times> find_state \<Rightarrow> bool" where
  "walk_ok ms st r \<longleftrightarrow> (fw_truncated st \<longrightarrow> fw_truncated (snd r))
     \<and> (fw_scanned st \<le> find_max_entries \<longrightarrow> fw_scanned (snd r) \<le> find_max_entries)
     \<and> (fst r = None \<and> \<not> fw_truncated (snd r) \<longrightarrow> fw_all (snd r) = fw_all st @ ms)"

lemma walk_ok_trans:
  "walk_ok ms1 st (None, st1) \<Longrightarrow> walk_ok ms2 st1 r \<Longrightarrow> walk_ok (ms1 @ ms2) st r"
  by (auto simp: walk_ok_def)

lemma walk_ok_step:
  assumes "walk_ok ms st1 r" and "fw_truncated st1 = fw_truncated st" and "fw_all st1 = fw_all st @ ms0"
    and "fw_scanned st1 \<le> find_max_entries"
  shows "walk_ok (ms0 @ ms) st r"
  using assms by (auto simp: walk_ok_def)

lemma walk_ok_error: "fw_truncated st1 = fw_truncated st \<Longrightarrow> fw_scanned st1 \<le> find_max_entries \<Longrightarrow> walk_ok ms st (Some err, st1)"
  by (simp add: walk_ok_def)

text \<open>The matches an entry that is not entered has of its own.\<close>

definition own_matches :: "policy \<Rightarrow> string \<Rightarrow> string \<Rightarrow> dir_entry \<Rightarrow> file_match list" where
  "own_matches pol glob path e =
    (if is_hidden pol path \<or> de_kind e = Symlink \<or> is_directory e then [] else file_matches glob path e)"

lemma pass_entry_state:
  "fw_truncated (pass_entry pol glob path e st) = fw_truncated st" "fw_scanned (pass_entry pol glob path e st) = fw_scanned st"
  "fw_all (pass_entry pol glob path e st) = fw_all st @ own_matches pol glob path e"
  by (simp_all add: pass_entry_def own_matches_def)

lemma all_matches_passed:
  "\<not> enters pol levels (find_child rel (de_name e)) e \<Longrightarrow> all_matches env pol glob levels dir rel (e # es)
    = own_matches pol glob (find_child rel (de_name e)) e @ all_matches env pol glob levels dir rel es"
  by (auto simp: all_matches.simps(2) enters_def own_matches_def Let_def)

lemma all_matches_entered:
  "enters pol levels (find_child rel (de_name e)) e \<Longrightarrow> all_matches env pol glob levels dir rel (e # es)
    = (case os_readdir env (go_join [dir, de_name e]) of None \<Rightarrow> []
       | Some sub \<Rightarrow> all_matches env pol glob (levels - 1) (go_join [dir, de_name e]) (find_child rel (de_name e)) sub)
      @ all_matches env pol glob levels dir rel es"
  by (simp add: all_matches.simps(2) enters_def Let_def)

lemma find_entries_ok: "walk_ok (all_matches env pol glob levels dir rel es) st (find_entries env pol ctx glob levels dir rel es st)"
proof (induction env pol ctx glob levels dir rel es st rule: find_entries.induct)
  case (1 env pol ctx glob levels dir rel st)
  then show ?case by (simp add: walk_ok_def)
next
  case (2 env pol ctx glob levels dir rel e es st)
  note IH = 2
  let ?path = "find_child rel (de_name e)" and ?below = "go_join [dir, de_name e]" and ?st1 = "scanned (tick st)"
  show ?case
  proof (cases "ctx (fw_checks st) \<noteq> None \<or> find_max_entries \<le> fw_scanned st")
    case True
    then show ?thesis by (auto simp: find_entries.simps(2) walk_ok_def split: option.split)
  next
    case False
    then have run: "ctx (fw_checks st) = None" and room: "\<not> find_max_entries \<le> fw_scanned st" by auto
    note unfolds = find_entries.simps(2) Let_def run room option.case if_False
    from room have max: "fw_scanned ?st1 \<le> find_max_entries" by simp
    consider (pass) "\<not> enters pol levels ?path e"
      | (error) err where "\<not> \<not> enters pol levels ?path e" "ctx (fw_checks ?st1) = Some err"
      | (enter) "\<not> \<not> enters pol levels ?path e" "ctx (fw_checks ?st1) = None"
      by (cases "ctx (fw_checks ?st1)") auto
    then show ?thesis
    proof cases
      case pass
      with walk_ok_step [OF IH(1) [OF run room refl refl refl pass]] max show ?thesis
        by (simp add: unfolds pass_entry_state all_matches_passed)
    next
      case error
      then show ?thesis using max by (simp add: unfolds walk_ok_error)
    next
      case enter
      then show ?thesis
      proof (cases "os_readdir env ?below")
        case None
        with walk_ok_step [OF IH(2) [OF run room refl refl refl enter None], of st "[]"] enter max show ?thesis
          by (simp add: unfolds all_matches_entered)
      next
        case (Some sub)
        let ?r = "find_entries env pol ctx glob (levels - 1) ?below ?path sub (tick ?st1)"
        have sub: "walk_ok (all_matches env pol glob (levels - 1) ?below ?path sub) st ?r"
          using walk_ok_step [OF IH(3) [OF run room refl refl refl enter Some], of st "[]"] max by simp
        obtain err st2 where r: "?r = (err, st2)" by (cases ?r)
        show ?thesis
        proof (cases err)
          case None
          from walk_ok_trans [OF sub [unfolded r None] IH(4) [OF run room refl refl refl enter Some r [unfolded None, symmetric] refl]]
          show ?thesis using enter Some r None by (simp add: unfolds all_matches_entered)
        next
          case (Some err')
          then show ?thesis using sub enter r \<open>os_readdir env ?below = Some sub\<close> by (auto simp: unfolds walk_ok_def)
        qed
      qed
    qed
  qed
qed

section \<open>What a search returns\<close>

lemma finish_page:
  assumes "fd_matches r = []" "fd_next r = None" "\<not> fd_page_truncated r"
  shows "fd_matches (finish_find_files_page ms offset limit r) = take limit (drop offset ms)"
    and "fd_next (finish_find_files_page ms offset limit r)
          = (if offset + limit < length ms \<and> offset + limit \<le> 10000 then Some (offset + limit) else None)"
    and "fd_page_truncated (finish_find_files_page ms offset limit r) \<longleftrightarrow> offset + limit < length ms \<and> 10000 < offset + limit"
    and "fd_glob (finish_find_files_page ms offset limit r) = fd_glob r" "fd_depth (finish_find_files_page ms offset limit r) = fd_depth r"
    and "fd_offset (finish_find_files_page ms offset limit r) = fd_offset r" "fd_limit (finish_find_files_page ms offset limit r) = fd_limit r"
    and "fd_scan_truncated (finish_find_files_page ms offset limit r) = fd_scan_truncated r"
    and "fd_scanned (finish_find_files_page ms offset limit r) = fd_scanned r"
  using assms by (auto simp: finish_find_files_page_def Let_def min_def)

lemma find_walk_all:
  assumes "find_walk env pol ctx glob depth dir rel = (None, st)" and "os_readdir env dir = Some es"
  shows "fw_scanned st \<le> find_max_entries \<and> (\<not> fw_truncated st \<longrightarrow> fw_all st = all_matches env pol glob (depth - 1) dir rel es)"
  using assms find_entries_ok [of env pol glob "depth - 1" dir rel es "tick start_find" ctx]
  by (auto simp: find_walk_def walk_ok_def start_find_def split: option.splits)

text \<open>
  C28: A search that does not report truncation finds every visible file that matches: its page is the
  slice of the sorted matches of the whole directory, and the next offset says truly whether more follow.
\<close>

theorem find_lists_every_match:
  assumes found: "find_files env w ctx opts = Inr r"
    and path: "ws_resolve env w (if trim_space (fo_path opts) = [] then ''.'' else fo_path opts) False = Inr (absolute, relative)"
    and dir: "os_readdir env absolute = Some es"
    and whole: "\<not> fd_scan_truncated r"
  shows "let full = sorted_matches (os_lower env) (all_matches env (ws_policy w) (fd_glob r) (nat (fd_depth r) - 1) absolute
               (if relative = ''.'' then [] else relative) es);
             next = nat (fd_offset r) + nat (fd_limit r)
         in fd_matches r = take (nat (fd_limit r)) (drop (nat (fd_offset r)) full)
          \<and> fd_next r = (if next < length full \<and> next \<le> 10000 then Some next else None)
          \<and> (fd_page_truncated r \<longleftrightarrow> next < length full \<and> 10000 < next)"
proof -
  obtain st where walk: "find_walk env (ws_policy w) ctx (trim_space (fo_glob opts)) (nat (find_depth opts)) absolute
        (if relative = ''.'' then [] else relative) = (None, st)"
    and r: "r = find_page env relative opts st"
    using found path by (auto simp: find_files_def split: stat_result.splits entry_kind.splits option.splits prod.splits)
  from whole have "\<not> fw_truncated st" by (simp add: r find_page_def finish_page)
  with find_walk_all [OF walk dir] show ?thesis by (simp add: r find_page_def finish_page Let_def)
qed

lemma glob_a: "compile_ignore_rule ''a'' \<noteq> None"
proof -
  have "rule_parts ''a'' = Some (False, False, False, ''a'')" by (simp add: glob_eval)
  from compile_pattern [OF this] show ?thesis by simp
qed

definition find_example :: find_options where
  "find_example = \<lparr>fo_path = ''d'', fo_glob = ''a'', fo_depth = 0, fo_limit = 0, fo_offset = 0\<rparr>"

theorem find_lists_every_match_witness:
  "\<exists>r. find_files one_file_env (plain_workspace ''/w'') (\<lambda>_. None) find_example = Inr r \<and> fd_limit r = 100
     \<and> (fd_page_truncated r \<longrightarrow> 10000 < nat (fd_offset r) + nat (fd_limit r))"
proof -
  let ?w = "plain_workspace ''/w''" and ?e = "\<lparr>de_name = ''a'', de_kind = Regular 2, de_info = True\<rparr>"
  have space: "trim_space ''d'' = ''d''" "trim_space ''a'' = ''a''" by (simp_all add: glob_eval)
  have path: "ws_resolve one_file_env ?w (if trim_space (fo_path find_example) = [] then ''.'' else fo_path find_example) False
      = Inr (''/w/d'', ''d'')" by (simp add: find_example_def space one_file_resolves)
  have dir: "os_readdir one_file_env ''/w/d'' = Some [?e]" "os_stat one_file_env ''/w/d'' = StatOk Directory"
    by (simp_all add: one_file_env_def)
  have check: "check_find find_example = None"
    using glob_a by (auto simp: check_find_def find_example_def space find_depth_def find_limit_def Let_def)
  obtain st where walk: "find_walk one_file_env (ws_policy ?w) (\<lambda>_. None) ''a'' 12 ''/w/d'' ''d'' = (None, st)" "\<not> fw_truncated st"
    by (simp add: find_walk_def dir find_entries.simps(2) enters_def is_directory_def pass_entry_state start_find_def)
  then have r: "find_files one_file_env ?w (\<lambda>_. None) find_example = Inr (find_page one_file_env ''d'' find_example st)"
    using path dir check space
    by (simp add: find_files_def) (simp add: find_example_def find_depth_def space)
  have "\<not> fd_scan_truncated (find_page one_file_env ''d'' find_example st)" using walk by (simp add: find_page_def finish_page)
  from find_lists_every_match [OF r path dir(1) this]
  have "fd_page_truncated (find_page one_file_env ''d'' find_example st) \<longrightarrow>
      10000 < nat (fd_offset (find_page one_file_env ''d'' find_example st)) + nat (fd_limit (find_page one_file_env ''d'' find_example st))"
    by (simp add: Let_def)
  moreover have "fd_limit (find_page one_file_env ''d'' find_example st) = 100"
    by (simp add: find_page_def finish_page find_limit_def find_example_def)
  ultimately show ?thesis using r by blast
qed

end
