(* ===== verification/Json.thy ===== *)
theory Json
  imports Encoding
begin

text \<open>
  JSON as \<open>encoding/json\<close> reads and writes it.  A value is a tree; the parser of the text is a parameter
  of the models that use it, while the rules by which a tree is stored into a Go variable and by which a
  value is written are modelled here: the first error is kept while decoding goes on, \<open>null\<close> leaves a
  variable as it is, the keys of a struct are matched without regard to case, the keys of a map exactly.
\<close>

section \<open>Values\<close>

text \<open>A number is an integer literal, or another literal.\<close>

datatype json_number = Whole int | Literal string

datatype jvalue =
    JsNull
  | JsBool bool
  | JsNumber json_number
  | JsString string
  | JsArray "jvalue list"
  | JsObject "(string \<times> jvalue) list"

text \<open>A Go map: distinct keys in the order in which they are written.\<close>

type_synonym js_map = "(string \<times> jvalue) list"

fun js_put :: "string \<Rightarrow> 'a \<Rightarrow> (string \<times> 'a) list \<Rightarrow> (string \<times> 'a) list" where
  "js_put k v [] = [(k, v)]"
| "js_put k v ((k', v') # m) =
    (if k = k' then (k, v) # m else if map byte k < map byte k' then (k, v) # (k', v') # m else (k', v') # js_put k v m)"

definition js_merge :: "(string \<times> 'a) list \<Rightarrow> (string \<times> 'a) list \<Rightarrow> (string \<times> 'a) list" where
  "js_merge m kvs = foldl (\<lambda>m (k, v). js_put k v m) m kvs"

text \<open>A value stored into an \<open>any\<close>: objects become maps and numbers become floating point.\<close>

primrec js_any :: "(json_number \<Rightarrow> json_number) \<Rightarrow> jvalue \<Rightarrow> jvalue" where
  "js_any fl JsNull = JsNull"
| "js_any fl (JsBool b) = JsBool b"
| "js_any fl (JsNumber n) = JsNumber (fl n)"
| "js_any fl (JsString s) = JsString s"
| "js_any fl (JsArray vs) = JsArray (map (js_any fl) vs)"
| "js_any fl (JsObject kvs) = JsObject (js_merge [] (map (map_prod id (js_any fl)) kvs))"

section \<open>Storing into variables\<close>

text \<open>The new content of the variable, and whether the value had its type.\<close>

definition into_string :: "jvalue \<Rightarrow> string \<Rightarrow> string \<times> bool" where
  "into_string v old = (case v of JsString s \<Rightarrow> (s, True) | JsNull \<Rightarrow> (old, True) | _ \<Rightarrow> (old, False))"

definition into_bool :: "jvalue \<Rightarrow> bool \<Rightarrow> bool \<times> bool" where
  "into_bool v old = (case v of JsBool b \<Rightarrow> (b, True) | JsNull \<Rightarrow> (old, True) | _ \<Rightarrow> (old, False))"

definition into_int :: "jvalue \<Rightarrow> int \<Rightarrow> int \<times> bool" where
  "into_int v old = (case v of
     JsNumber (Whole n) \<Rightarrow> if - (2 ^ 63) \<le> n \<and> n < 2 ^ 63 then (n, True) else (old, False)
   | JsNull \<Rightarrow> (old, True) | _ \<Rightarrow> (old, False))"

text \<open>A map is created when there is none, and keeps the entries it has.\<close>

definition into_map :: "(jvalue \<Rightarrow> jvalue) \<Rightarrow> jvalue \<Rightarrow> js_map option \<Rightarrow> js_map option \<times> bool" where
  "into_map f v old = (case v of
     JsObject kvs \<Rightarrow> (Some (js_merge (case old of None \<Rightarrow> [] | Some m \<Rightarrow> m) (map (map_prod id f) kvs)), True)
   | JsNull \<Rightarrow> (None, True) | _ \<Rightarrow> (old, False))"

text \<open>Elements are stored over those the slice already has.\<close>

fun into_elems :: "(jvalue \<Rightarrow> 'a \<Rightarrow> 'a \<times> bool) \<Rightarrow> 'a \<Rightarrow> jvalue list \<Rightarrow> 'a list \<Rightarrow> 'a list \<times> bool" where
  "into_elems f zero [] old = ([], True)"
| "into_elems f zero (v # vs) old =
    (let (x, ok) = f v (case old of [] \<Rightarrow> zero | y # _ \<Rightarrow> y);
         (xs, oks) = into_elems f zero vs (tl old)
     in (x # xs, ok \<and> oks))"

definition into_slice :: "(jvalue \<Rightarrow> 'a \<Rightarrow> 'a \<times> bool) \<Rightarrow> 'a \<Rightarrow> jvalue \<Rightarrow> 'a list \<Rightarrow> 'a list \<times> bool" where
  "into_slice f zero v old = (case v of
     JsArray vs \<Rightarrow> into_elems f zero vs old | JsNull \<Rightarrow> ([], True) | _ \<Rightarrow> (old, False))"

text \<open>
  The folding of \<open>encoding/json\<close> over names of ASCII letters: letters of either case, the Kelvin sign and
  the long s.
\<close>

definition fold_rune :: "nat \<Rightarrow> nat" where
  "fold_rune r = (if 65 \<le> r \<and> r \<le> 90 then r + 32 else if r = 0x212A then 107 else if r = 0x17F then 115 else r)"

definition name_matches :: "string \<Rightarrow> string \<Rightarrow> bool" where
  "name_matches name key \<longleftrightarrow> map fold_rune (runes key) = map fold_rune (runes name)"

text \<open>The fields of a struct, each with its name and the assignment to it.\<close>

type_synonym 'r js_fields = "(string \<times> (jvalue \<Rightarrow> 'r \<Rightarrow> 'r \<times> bool)) list"

definition field_for :: "'r js_fields \<Rightarrow> string \<Rightarrow> (jvalue \<Rightarrow> 'r \<Rightarrow> 'r \<times> bool) option" where
  "field_for fs key = (case map_of fs key of
     Some f \<Rightarrow> Some f
   | None \<Rightarrow> map_option snd (find (\<lambda>(name, _). name_matches name key) fs))"

text \<open>\<open>strict\<close> is \<open>DisallowUnknownFields\<close>.\<close>

fun into_fields :: "bool \<Rightarrow> 'r js_fields \<Rightarrow> (string \<times> jvalue) list \<Rightarrow> 'r \<Rightarrow> 'r \<times> bool" where
  "into_fields strict fs [] r = (r, True)"
| "into_fields strict fs ((key, v) # kvs) r =
    (let (r', ok) = (case field_for fs key of None \<Rightarrow> (r, \<not> strict) | Some f \<Rightarrow> f v r);
         (r'', oks) = into_fields strict fs kvs r'
     in (r'', ok \<and> oks))"

definition into_struct :: "bool \<Rightarrow> 'r js_fields \<Rightarrow> jvalue \<Rightarrow> 'r \<Rightarrow> 'r \<times> bool" where
  "into_struct strict fs v r = (case v of
     JsObject kvs \<Rightarrow> into_fields strict fs kvs r | JsNull \<Rightarrow> (r, True) | _ \<Rightarrow> (r, False))"

section \<open>Writing\<close>

definition short_escape :: "nat \<Rightarrow> char option" where
  "short_escape n = map_of [(0x22, CHR 0x22), (0x5C, CHR 0x5C), (8, CHR ''b''), (12, CHR ''f''), (10, CHR ''n''),
     (13, CHR ''r''), (9, CHR ''t'')] n"

definition js_rune :: "nat \<times> string \<Rightarrow> string" where
  "js_rune = (\<lambda>(r, bytes).
     case short_escape r of Some c \<Rightarrow> [CHR 0x5C, c]
   | None \<Rightarrow> if r < 0x20 \<or> r = 0x3C \<or> r = 0x3E \<or> r = 0x26 then CHR 0x5C # ''u00'' @ [hex_digit (r div 16), hex_digit (r mod 16)]
            else if r = rune_error \<and> length bytes = 1 then CHR 0x5C # ''ufffd''
            else if r = 0x2028 \<or> r = 0x2029 then CHR 0x5C # ''u202'' @ [hex_digit (r mod 16)]
            else bytes)"

definition js_string :: "string \<Rightarrow> string" where
  "js_string s = [CHR 0x22] @ concat (map js_rune (segs s)) @ [CHR 0x22]"

definition js_number :: "json_number \<Rightarrow> string" where
  "js_number n = (case n of
     Whole i \<Rightarrow> if i < 0 then ''-'' @ digits (nat (- i)) else digits (nat i) | Literal s \<Rightarrow> s)"

text \<open>\<open>Marshal\<close>.\<close>

primrec js_text :: "jvalue \<Rightarrow> string" where
  "js_text JsNull = ''null''"
| "js_text (JsBool b) = (if b then ''true'' else ''false'')"
| "js_text (JsNumber n) = js_number n"
| "js_text (JsString s) = js_string s"
| "js_text (JsArray vs) = ''['' @ join_with '','' (map js_text vs) @ '']''"
| "js_text (JsObject kvs) =
    ''{'' @ join_with '','' (map (\<lambda>(k, t). js_string k @ '':'' @ t) (map (map_prod id js_text) kvs)) @ ''}''"

text \<open>\<open>MarshalIndent\<close> with two spaces; \<open>pad\<close> is the line break of the enclosing level.\<close>

primrec js_indent :: "jvalue \<Rightarrow> string \<Rightarrow> string" where
  "js_indent JsNull = (\<lambda>pad. ''null'')"
| "js_indent (JsBool b) = (\<lambda>pad. if b then ''true'' else ''false'')"
| "js_indent (JsNumber n) = (\<lambda>pad. js_number n)"
| "js_indent (JsString s) = (\<lambda>pad. js_string s)"
| "js_indent (JsArray vs) = (\<lambda>pad. if vs = [] then ''[]''
     else ''['' @ pad @ ''  '' @ join_with ('','' @ pad @ ''  '') (map (\<lambda>t. t (pad @ ''  '')) (map js_indent vs)) @ pad @ '']'')"
| "js_indent (JsObject kvs) = (\<lambda>pad. if kvs = [] then ''{}''
     else ''{'' @ pad @ ''  '' @ join_with ('','' @ pad @ ''  '')
            (map (\<lambda>(k, t). js_string k @ '': '' @ t (pad @ ''  '')) (map (map_prod id js_indent) kvs)) @ pad @ ''}'')"

definition marshal_indent :: "jvalue \<Rightarrow> string" where
  "marshal_indent v = js_indent v [CHR 0x0A]"

text \<open>Plain text is written between quotes as it is.\<close>

definition plain_js :: "char \<Rightarrow> bool" where
  "plain_js c \<longleftrightarrow> 32 \<le> byte c \<and> byte c < 128 \<and> byte c \<notin> {0x22, 0x5C, 0x3C, 0x3E, 0x26}"

lemma js_rune_plain: "plain_js c \<Longrightarrow> js_rune (byte c, [c]) = [c]"
  by (auto simp: plain_js_def js_rune_def short_escape_def)

lemma js_string_plain: "list_all plain_js s \<Longrightarrow> js_string s = [CHR 0x22] @ s @ [CHR 0x22]"
proof -
  assume plain: "list_all plain_js s"
  then have "is_ascii s" by (induction s) (auto simp: plain_js_def)
  moreover have "concat (map (\<lambda>c. js_rune (byte c, [c])) s) = s"
    using plain by (induction s) (auto simp: js_rune_plain)
  ultimately show ?thesis by (simp add: js_string_def segs_ascii comp_def)
qed

section \<open>Base 64, standard alphabet, padded\<close>

definition std_to_url :: "char \<Rightarrow> char" where
  "std_to_url c = (if c = CHR ''+'' then CHR ''-'' else if c = CHR ''/'' then CHR ''_'' else c)"

definition unpadded :: "string \<Rightarrow> string" where
  "unpadded t = (if has_suffix t ''=='' then take (length t - 2) t else trim_suffix t ''='')"

definition std_decode :: "string \<Rightarrow> string option" where
  "std_decode s =
    (let t = filter (\<lambda>c. byte c \<noteq> 10 \<and> byte c \<noteq> 13) s; body = unpadded t
     in if length t mod 4 = 0 \<and> list_all (\<lambda>c. std_to_url c \<in> set b64_alphabet \<and> c \<noteq> CHR ''-'' \<and> c \<noteq> CHR ''_'') body
        then b64_decode (map std_to_url body) else None)"

definition url_to_std :: "char \<Rightarrow> char" where
  "url_to_std c = (if c = CHR ''-'' then CHR ''+'' else if c = CHR ''_'' then CHR ''/'' else c)"

definition std_encode :: "string \<Rightarrow> string" where
  "std_encode s = (let t = map url_to_std (b64_encode s) in t @ replicate ((4 - length t mod 4) mod 4) (CHR ''=''))"

end
