(* ===== verification/StateFiles.thy ===== *)
theory StateFiles
  imports Policy Paths Json
begin

text \<open>
  \<open>internal/state/repository.go\<close> and \<open>internal/execution/records.go\<close>: the files in which the bridge keeps
  its state, and the log of executions.  A disk maps paths to contents; what may go wrong in an operation
  is an argument of it.
\<close>

section \<open>Paths\<close>

type_synonym disk = "string \<Rightarrow> string option"

abbreviation back_slash :: char where "back_slash \<equiv> CHR 0x5C"

definition safe_component :: "string \<Rightarrow> bool" where
  "safe_component v \<longleftrightarrow> v \<noteq> [] \<and> v \<noteq> ''.'' \<and> v \<noteq> dotdot \<and> slash \<notin> set v \<and> back_slash \<notin> set v \<and> CHR 0x00 \<notin> set v"

definition repository_root :: "string \<Rightarrow> string" where
  "repository_root root = go_clean root"

text \<open>\<open>mkdir\<close> is the error of creating the directory.\<close>

definition repo_bucket :: "string \<Rightarrow> string option \<Rightarrow> string \<Rightarrow> string + string" where
  "repo_bucket root mkdir name =
    (if \<not> safe_component name then Inl ''invalid state bucket''
     else case mkdir of Some e \<Rightarrow> Inl e | None \<Rightarrow> Inr (go_join [root, name]))"

definition repo_path :: "string \<Rightarrow> string option \<Rightarrow> string \<Rightarrow> string \<Rightarrow> string \<Rightarrow> string + string" where
  "repo_path root mkdir bucket key extension =
    (if \<not> safe_component bucket \<or> \<not> safe_component key then Inl ''invalid state path component''
     else if extension \<noteq> [] \<and> (\<not> has_prefix extension ''.'' \<or> slash \<in> set extension \<or> back_slash \<in> set extension)
     then Inl ''invalid state extension''
     else case repo_bucket root mkdir bucket of Inl e \<Rightarrow> Inl e | Inr dir \<Rightarrow> Inr (go_join [dir, key @ extension]))"

section \<open>Whole files\<close>

text \<open>
  What can fail on the way of an atomic write: a write leaves some of its bytes in the temporary file, a
  refused change of permissions counts only when permission was not the reason.
\<close>

record write_faults =
  wf_mkdir :: "string option"
  wf_temp :: "string + string"
  wf_chmod :: "string option"
  wf_write :: "(nat \<times> string) option"
  wf_sync :: "string option"
  wf_close :: "string option"
  wf_rename :: "string option"

text \<open>The deferred removal of the temporary file happens on every way out.\<close>

definition write_file_atomic :: "write_faults \<Rightarrow> string \<Rightarrow> string \<Rightarrow> disk \<Rightarrow> string option \<times> disk" where
  "write_file_atomic flt path data d =
    (case wf_mkdir flt of Some e \<Rightarrow> (Some e, d)
     | None \<Rightarrow>
       (case wf_temp flt of Inl e \<Rightarrow> (Some e, d)
        | Inr temp \<Rightarrow>
           let created = d(temp \<mapsto> []); removed = (\<lambda>d'. d'(temp := None)) in
           (case wf_chmod flt of Some e \<Rightarrow> (Some e, removed created)
            | None \<Rightarrow>
              (case wf_write flt of Some (n, e) \<Rightarrow> (Some e, removed (created(temp \<mapsto> take n data)))
               | None \<Rightarrow>
                  let written = created(temp \<mapsto> data) in
                  (case wf_sync flt of Some e \<Rightarrow> (Some e, removed written)
                   | None \<Rightarrow>
                     (case wf_close flt of Some e \<Rightarrow> (Some e, removed written)
                      | None \<Rightarrow>
                        (case wf_rename flt of Some e \<Rightarrow> (Some e, removed written)
                         | None \<Rightarrow> (None, (removed written)(path \<mapsto> data)))))))))"

text \<open>\<open>enc\<close> is \<open>MarshalIndent\<close> of the value.\<close>

definition write_json_file :: "write_faults \<Rightarrow> string \<Rightarrow> string + string \<Rightarrow> disk \<Rightarrow> string option \<times> disk" where
  "write_json_file flt path enc d =
    (case enc of Inl e \<Rightarrow> (Some e, d) | Inr data \<Rightarrow> write_file_atomic flt path (data @ [CHR 0x0A]) d)"

text \<open>\<open>rd\<close> is an error of reading other than a missing file, \<open>dec\<close> the decoder.\<close>

definition read_json_file :: "string option \<Rightarrow> (string \<Rightarrow> 'a option) \<Rightarrow> string \<Rightarrow> disk \<Rightarrow> string + 'a option" where
  "read_json_file rd dec path d =
    (case rd of Some e \<Rightarrow> Inl e
     | None \<Rightarrow> (case d path of None \<Rightarrow> Inr None
        | Some data \<Rightarrow> (case dec data of None \<Rightarrow> Inl (''decode '' @ path) | Some v \<Rightarrow> Inr (Some v))))"

definition repo_read_json :: "string \<Rightarrow> string option \<Rightarrow> string option \<Rightarrow> (string \<Rightarrow> 'a option) \<Rightarrow> string \<Rightarrow> string \<Rightarrow> disk \<Rightarrow> string + 'a option" where
  "repo_read_json root mkdir rd dec bucket key d =
    (case repo_path root mkdir bucket key ''.json'' of Inl e \<Rightarrow> Inl e | Inr path \<Rightarrow> read_json_file rd dec path d)"

definition repo_write_json :: "string \<Rightarrow> write_faults \<Rightarrow> string \<Rightarrow> string \<Rightarrow> string + string \<Rightarrow> disk \<Rightarrow> string option \<times> disk" where
  "repo_write_json root flt bucket key enc d =
    (case repo_path root (wf_mkdir flt) bucket key ''.json'' of Inl e \<Rightarrow> (Some e, d) | Inr path \<Rightarrow> write_json_file flt path enc d)"

definition repo_remove :: "string \<Rightarrow> string option \<Rightarrow> string option \<Rightarrow> string \<Rightarrow> string \<Rightarrow> string \<Rightarrow> disk \<Rightarrow> string option \<times> disk" where
  "repo_remove root mkdir rm bucket key extension d =
    (case repo_path root mkdir bucket key extension of Inl e \<Rightarrow> (Some e, d)
     | Inr path \<Rightarrow> (case d path of None \<Rightarrow> (None, d)
        | Some _ \<Rightarrow> (case rm of Some e \<Rightarrow> (Some e, d) | None \<Rightarrow> (None, d(path := None)))))"

section \<open>Lines of JSON\<close>

text \<open>A write that fails has appended some of its bytes; a failed sync has appended them all.\<close>

record append_faults =
  af_mkdir :: "string option"
  af_open :: "string option"
  af_write :: "(nat \<times> string) option"
  af_sync :: "string option"

definition append_text :: "string \<Rightarrow> string \<Rightarrow> disk \<Rightarrow> disk" where
  "append_text path t d = d(path \<mapsto> (case d path of None \<Rightarrow> t | Some old \<Rightarrow> old @ t))"

definition append_json_line :: "string \<Rightarrow> append_faults \<Rightarrow> string \<Rightarrow> string \<Rightarrow> string + string \<Rightarrow> disk \<Rightarrow> string option \<times> disk" where
  "append_json_line root af bucket key enc d =
    (case repo_path root (af_mkdir af) bucket key ''.jsonl'' of Inl e \<Rightarrow> (Some e, d)
     | Inr path \<Rightarrow>
       (case enc of Inl e \<Rightarrow> (Some e, d)
        | Inr data \<Rightarrow>
          let line = data @ [CHR 0x0A] in
          (case af_open af of Some e \<Rightarrow> (Some e, d)
           | None \<Rightarrow>
             (case af_write af of Some (n, e) \<Rightarrow> (Some e, append_text path (take n line) d)
              | None \<Rightarrow> (af_sync af, append_text path line d)))))"

text \<open>
  The lines \<open>bufio.Scanner\<close> yields with a buffer of at most 2 MiB, and whether it stops at a line that
  does not fit.
\<close>

abbreviation max_line :: nat where "max_line \<equiv> 2 * 1024 * 1024"

definition text_lines :: "string \<Rightarrow> string list" where
  "text_lines data = (let ls = split_on CHR 0x0A data in if last ls = [] then butlast ls else ls)"

definition scan_json_lines :: "string \<Rightarrow> string option \<Rightarrow> string option \<Rightarrow> string \<Rightarrow> string \<Rightarrow> disk \<Rightarrow> string list \<times> string option" where
  "scan_json_lines root mkdir open_error bucket key d =
    (case repo_path root mkdir bucket key ''.jsonl'' of Inl e \<Rightarrow> ([], Some e)
     | Inr path \<Rightarrow>
       (case d path of None \<Rightarrow> ([], None)
        | Some data \<Rightarrow>
          (case open_error of Some e \<Rightarrow> ([], Some e)
           | None \<Rightarrow>
              let ls = text_lines data
              in (map drop_cr (takeWhile (\<lambda>l. length l < max_line) ls),
                  if list_all (\<lambda>l. length l < max_line) ls then None else Some ''bufio.Scanner: token too long''))))"

section \<open>The log of executions\<close>

record exec_record =
  ex_task :: string
  ex_iteration :: int
  ex_changed :: jvalue
  ex_tests :: "string option"
  ex_status :: string
  ex_timestamp :: string
  ex_notes :: string

definition zero_record :: exec_record where
  "zero_record = \<lparr>ex_task = [], ex_iteration = 0, ex_changed = JsNull, ex_tests = None, ex_status = [], ex_timestamp = [], ex_notes = []\<rparr>"

definition into_pointer :: "jvalue \<Rightarrow> string option \<Rightarrow> string option \<times> bool" where
  "into_pointer v old = (case v of JsString s \<Rightarrow> (Some s, True) | JsNull \<Rightarrow> (None, True) | _ \<Rightarrow> (old, False))"

definition exec_fields :: "(json_number \<Rightarrow> json_number) \<Rightarrow> exec_record js_fields" where
  "exec_fields fl =
    [(''taskId'', \<lambda>v r. let (x, ok) = into_string v (ex_task r) in (r\<lparr>ex_task := x\<rparr>, ok)),
     (''iteration'', \<lambda>v r. let (x, ok) = into_int v (ex_iteration r) in (r\<lparr>ex_iteration := x\<rparr>, ok)),
     (''changedFiles'', \<lambda>v r. (r\<lparr>ex_changed := js_any fl v\<rparr>, True)),
     (''tests'', \<lambda>v r. let (x, ok) = into_pointer v (ex_tests r) in (r\<lparr>ex_tests := x\<rparr>, ok)),
     (''exitStatus'', \<lambda>v r. let (x, ok) = into_string v (ex_status r) in (r\<lparr>ex_status := x\<rparr>, ok)),
     (''timestamp'', \<lambda>v r. let (x, ok) = into_string v (ex_timestamp r) in (r\<lparr>ex_timestamp := x\<rparr>, ok)),
     (''notes'', \<lambda>v r. let (x, ok) = into_string v (ex_notes r) in (r\<lparr>ex_notes := x\<rparr>, ok))]"

text \<open>\<open>parse\<close> reads the text of a line, \<open>fl\<close> is the rounding of numbers to floating point.\<close>

definition decode_record :: "(string \<Rightarrow> jvalue option) \<Rightarrow> (json_number \<Rightarrow> json_number) \<Rightarrow> string \<Rightarrow> exec_record option" where
  "decode_record parse fl l =
    (case parse l of None \<Rightarrow> None
     | Some v \<Rightarrow> (case into_struct False (exec_fields fl) v zero_record of (r, ok) \<Rightarrow> if ok then Some r else None))"

definition record_json :: "exec_record \<Rightarrow> jvalue" where
  "record_json r = JsObject
    ([(''taskId'', JsString (ex_task r)), (''iteration'', JsNumber (Whole (ex_iteration r))), (''changedFiles'', ex_changed r),
      (''tests'', case ex_tests r of None \<Rightarrow> JsNull | Some t \<Rightarrow> JsString t), (''exitStatus'', JsString (ex_status r)),
      (''timestamp'', JsString (ex_timestamp r))] @ (if ex_notes r = [] then [] else [(''notes'', JsString (ex_notes r))]))"

definition exec_append :: "string \<Rightarrow> append_faults \<Rightarrow> string \<Rightarrow> exec_record \<Rightarrow> disk \<Rightarrow> string option \<times> disk" where
  "exec_append root af workspace_id r d = append_json_line root af ''executions'' workspace_id (Inr (js_text (record_json r))) d"

definition exec_limit :: "int \<Rightarrow> nat" where
  "exec_limit limit = nat (if limit < 1 then 10 else if 50 < limit then 50 else limit)"

text \<open>The ring buffer: its slots and the number of records that went into it.\<close>

definition ring_put :: "nat \<Rightarrow> 'a list \<times> nat \<Rightarrow> 'a \<Rightarrow> 'a list \<times> nat" where
  "ring_put limit = (\<lambda>(ring, count) x. (ring[count mod limit := x], Suc count))"

definition ring_result :: "nat \<Rightarrow> 'a list \<times> nat \<Rightarrow> 'a list" where
  "ring_result limit = (\<lambda>(ring, count).
     let n = (if limit < count then limit else count); start = count - n
     in map (\<lambda>i. ring ! ((start + i) mod limit)) [0..<n])"

record read_faults =
  rf_mkdir :: "string option"
  rf_open :: "string option"

definition exec_read ::
  "string \<Rightarrow> read_faults \<Rightarrow> (string \<Rightarrow> exec_record option) \<Rightarrow> string \<Rightarrow> int \<Rightarrow> disk \<Rightarrow> string + exec_record list" where
  "exec_read root rf dec workspace_id limit0 d =
    (let limit = exec_limit limit0;
         (ls, err) = scan_json_lines root (rf_mkdir rf) (rf_open rf) ''executions'' workspace_id d;
         ring = foldl (\<lambda>st l. case dec l of None \<Rightarrow> st | Some r \<Rightarrow> ring_put limit st r) (replicate limit zero_record, 0) ls
     in case err of Some e \<Rightarrow> Inl e | None \<Rightarrow> Inr (ring_result limit ring))"

definition exec_latest ::
  "string \<Rightarrow> read_faults \<Rightarrow> (string \<Rightarrow> exec_record option) \<Rightarrow> string \<Rightarrow> disk \<Rightarrow> string + exec_record option" where
  "exec_latest root rf dec workspace_id d =
    (case exec_read root rf dec workspace_id 1 d of Inl e \<Rightarrow> Inl e
     | Inr [] \<Rightarrow> Inr None
     | Inr (r # _) \<Rightarrow> Inr (Some r))"

section \<open>The ring buffer reads the end of the log\<close>

lemma ring_fold:
  assumes "0 < limit"
  shows "foldl (ring_put limit) (replicate limit z, 0) xs = (ring, count) \<Longrightarrow>
    count = length xs \<and> length ring = limit \<and> (\<forall>j < length xs. length xs \<le> j + limit \<longrightarrow> ring ! (j mod limit) = xs ! j)"
proof (induction xs arbitrary: ring count rule: rev_induct)
  case (snoc x xs)
  obtain ring0 count0 where old: "foldl (ring_put limit) (replicate limit z, 0) xs = (ring0, count0)"
    by (cases "foldl (ring_put limit) (replicate limit z, 0) xs")
  note IH = snoc.IH [OF old]
  from snoc.prems old have new: "ring = ring0[length xs mod limit := x]" "count = Suc (length xs)"
    using IH by (simp_all add: ring_put_def)
  have "ring ! (j mod limit) = (xs @ [x]) ! j" if j: "j < Suc (length xs)" "Suc (length xs) \<le> j + limit" for j
  proof (cases "j = length xs")
    case True
    then show ?thesis using IH assms by (simp add: new)
  next
    case False
    then have "j < length xs" using j by simp
    moreover have "j mod limit \<noteq> length xs mod limit"
    proof
      assume "j mod limit = length xs mod limit"
      then obtain k where k: "length xs - j = limit * k" using mod_eq_dvd_iff_nat [of j "length xs" limit] \<open>j < length xs\<close> by auto
      have "0 < length xs - j" "length xs - j < limit" using j \<open>j < length xs\<close> by auto
      then show False using k by (cases k) auto
    qed
    ultimately show ?thesis using IH j by (simp add: new nth_append)
  qed
  then show ?case using IH new by simp
qed simp

lemma ring_fold_result:
  assumes "0 < limit"
  shows "ring_result limit (foldl (ring_put limit) (replicate limit z, 0) xs) = drop (length xs - limit) xs"
proof -
  obtain ring count where f: "foldl (ring_put limit) (replicate limit z, 0) xs = (ring, count)"
    by (cases "foldl (ring_put limit) (replicate limit z, 0) xs")
  note inv = ring_fold [OF assms f]
  show ?thesis
    unfolding f by (rule nth_equalityI) (use inv in \<open>auto simp: ring_result_def Let_def\<close>)
qed

lemma foldl_decode:
  "foldl (\<lambda>st l. case dec l of None \<Rightarrow> st | Some r \<Rightarrow> f st r) st ls = foldl f st (List.map_filter dec ls)"
  by (induction ls arbitrary: st) (auto simp: List.map_filter_simps split: option.split)

text \<open>
  C34: \<open>Read\<close> returns the last records of the log in the order in which they were appended: the ring
  buffer, which overwrites its slots round and round, is the end of the list of all readable records.
\<close>

theorem read_returns_the_end_of_the_log:
  assumes "exec_read root rf dec workspace_id limit d = Inr rs"
  shows "\<exists>ls. scan_json_lines root (rf_mkdir rf) (rf_open rf) ''executions'' workspace_id d = (ls, None)
     \<and> rs = drop (length (List.map_filter dec ls) - exec_limit limit) (List.map_filter dec ls)
     \<and> length rs \<le> 50"
proof -
  obtain ls err where scan: "scan_json_lines root (rf_mkdir rf) (rf_open rf) ''executions'' workspace_id d = (ls, err)"
    by (cases "scan_json_lines root (rf_mkdir rf) (rf_open rf) ''executions'' workspace_id d")
  have limit: "0 < exec_limit limit" "exec_limit limit \<le> 50" by (auto simp: exec_limit_def)
  have "err = None" and rs: "rs = drop (length (List.map_filter dec ls) - exec_limit limit) (List.map_filter dec ls)"
    using assms scan ring_fold_result [OF limit(1), of zero_record]
    by (auto simp: exec_read_def foldl_decode Let_def split: option.splits)
  moreover have "length rs \<le> 50" using limit by (simp add: rs)
  ultimately show ?thesis using scan by blast
qed

section \<open>Appending and reading\<close>

text \<open>A log that was written without faults: every line is ended.\<close>

definition ended :: "string \<Rightarrow> bool" where
  "ended data \<longleftrightarrow> data = [] \<or> last data = CHR 0x0A"

lemma text_lines_ended:
  assumes "ended data" and "CHR 0x0A \<notin> set l"
  shows "text_lines (data @ l @ [CHR 0x0A]) = text_lines data @ [l]"
proof (cases data rule: rev_cases)
  case Nil
  then show ?thesis using assms by (simp add: text_lines_def split_on_sep [of _ l "[]", simplified] split_on_no_sep)
next
  case (snoc ys y)
  then have y: "data = ys @ [CHR 0x0A]" using assms by (simp add: ended_def)
  show ?thesis
    using split_on_sep [of "CHR 0x0A" ys "l @ [CHR 0x0A]"] split_on_sep [of "CHR 0x0A" l "[]"] split_on_sep [of "CHR 0x0A" ys "[]"] assms(2)
    by (simp add: y text_lines_def split_on_no_sep butlast_append)
qed

definition exec_path :: "string \<Rightarrow> string \<Rightarrow> string" where
  "exec_path root workspace_id = go_join [go_join [root, ''executions''], workspace_id @ ''.jsonl'']"

lemma repo_path_executions:
  "repo_path root mkdir ''executions'' key ''.jsonl'' =
    (if \<not> safe_component key then Inl ''invalid state path component''
     else case mkdir of Some e \<Rightarrow> Inl e | None \<Rightarrow> Inr (exec_path root key))"
  by (auto simp: repo_path_def repo_bucket_def exec_path_def safe_component_def slash_def has_prefix_def split: option.split)

definition no_read_faults :: read_faults where
  "no_read_faults = \<lparr>rf_mkdir = None, rf_open = None\<rparr>"

text \<open>What a log holds when every line can be read.\<close>

definition log_text :: "string \<Rightarrow> string \<Rightarrow> disk \<Rightarrow> string" where
  "log_text root workspace_id d = (case d (exec_path root workspace_id) of None \<Rightarrow> [] | Some t \<Rightarrow> t)"

definition readable_log :: "string \<Rightarrow> bool" where
  "readable_log t \<longleftrightarrow> ended t \<and> list_all (\<lambda>l. length l < max_line) (text_lines t)"

lemma text_lines_empty: "text_lines [] = []"
  by (simp add: text_lines_def)

lemma takeWhile_all: "list_all P xs \<Longrightarrow> takeWhile P xs = xs"
  by (simp add: list_all_iff takeWhile_eq_all_conv)

lemma scan_log:
  assumes "safe_component workspace_id" and "list_all (\<lambda>l. length l < max_line) (text_lines (log_text root workspace_id d))"
  shows "scan_json_lines root None None ''executions'' workspace_id d = (map drop_cr (text_lines (log_text root workspace_id d)), None)"
  using assms by (cases "d (exec_path root workspace_id)")
    (simp_all add: scan_json_lines_def repo_path_executions log_text_def text_lines_empty takeWhile_all Let_def)

lemma append_log:
  assumes "safe_component workspace_id" and "exec_append root af workspace_id r d = (None, d')"
  shows "log_text root workspace_id d' = log_text root workspace_id d @ js_text (record_json r) @ [CHR 0x0A]"
  using assms
  by (auto simp: exec_append_def append_json_line_def repo_path_executions log_text_def append_text_def Let_def split: option.splits)

text \<open>
  A record that \<open>Append\<close> wrote without an error is what \<open>Latest\<close> returns, if the decoder reads back
  what was written and the line fits the scanner.
\<close>

theorem appended_record_is_latest:
  assumes ok: "exec_append root af workspace_id r d = (None, d')" and id: "safe_component workspace_id"
    and log: "readable_log (log_text root workspace_id d)"
    and line: "CHR 0x0A \<notin> set (js_text (record_json r))" "length (js_text (record_json r)) < max_line"
    and dec: "dec (drop_cr (js_text (record_json r))) = Some r"
  shows "exec_latest root no_read_faults dec workspace_id d' = Inr (Some r)"
proof -
  let ?l = "js_text (record_json r)"
  have lines: "text_lines (log_text root workspace_id d') = text_lines (log_text root workspace_id d) @ [?l]"
    using append_log [OF id ok] text_lines_ended log line(1) by (simp add: readable_log_def)
  with log line(2) have "list_all (\<lambda>l. length l < max_line) (text_lines (log_text root workspace_id d'))"
    by (simp add: readable_log_def)
  from scan_log [OF id this] have scan: "scan_json_lines root None None ''executions'' workspace_id d'
      = (map drop_cr (text_lines (log_text root workspace_id d)) @ [drop_cr ?l], None)" by (simp add: lines)
  have "exec_read root no_read_faults dec workspace_id 1 d' = Inr [r]"
    using ring_fold_result [of 1 zero_record]
    by (simp add: exec_read_def no_read_faults_def scan foldl_decode exec_limit_def List.map_filter_def dec del: foldl_append)
  then show ?thesis by (simp add: exec_latest_def)
qed

text \<open>
  After an append that failed half way, the next record is lost although its append succeeds: it is
  written behind the torn line, and a reader skips what both make together.
\<close>

theorem torn_line_swallows_next_record:
  assumes id: "safe_component workspace_id" and log: "readable_log (log_text root workspace_id d)"
    and torn: "exec_append root af workspace_id r1 d = (Some e, d1)" "af_mkdir af = None" "af_open af = None"
      "af_write af = Some (n, e)" "n \<le> length (js_text (record_json r1))"
    and later: "exec_append root af2 workspace_id r2 d1 = (None, d2)"
    and line: "CHR 0x0A \<notin> set (js_text (record_json r1))" "CHR 0x0A \<notin> set (js_text (record_json r2))"
      "n + length (js_text (record_json r2)) < max_line"
    and glued: "dec (drop_cr (take n (js_text (record_json r1)) @ js_text (record_json r2))) = None"
  shows "exec_read root no_read_faults dec workspace_id limit d2 = exec_read root no_read_faults dec workspace_id limit d"
proof -
  let ?t = "take n (js_text (record_json r1))" and ?l = "js_text (record_json r2)"
  have "log_text root workspace_id d1 = log_text root workspace_id d @ ?t"
    using id torn by (auto simp: exec_append_def append_json_line_def repo_path_executions log_text_def append_text_def Let_def split: option.splits)
  then have "log_text root workspace_id d2 = log_text root workspace_id d @ (?t @ ?l) @ [CHR 0x0A]"
    using append_log [OF id later] by simp
  then have lines: "text_lines (log_text root workspace_id d2) = text_lines (log_text root workspace_id d) @ [?t @ ?l]"
    using text_lines_ended [of "log_text root workspace_id d" "?t @ ?l"] log line(1,2)
    by (auto simp: readable_log_def dest: in_set_takeD)
  have short: "list_all (\<lambda>l. length l < max_line) (text_lines (log_text root workspace_id d2))"
    using log line(3) torn(5) by (simp add: readable_log_def lines)
  have old: "list_all (\<lambda>l. length l < max_line) (text_lines (log_text root workspace_id d))"
    using log by (simp add: readable_log_def)
  show ?thesis
    by (simp add: exec_read_def no_read_faults_def scan_log [OF id short] scan_log [OF id old] lines foldl_decode List.map_filter_def glued
        del: foldl_append)
qed

section \<open>Examples\<close>

definition record_example :: "string \<Rightarrow> exec_record" where
  "record_example t = \<lparr>ex_task = t, ex_iteration = 0, ex_changed = JsArray [], ex_tests = None, ex_status = ''ok'', ex_timestamp = [], ex_notes = []\<rparr>"

definition line_example :: string where
  "line_example = js_text (record_json (record_example ''t''))"

lemma line_example_text: "line_example = ''{'' @ js_string ''taskId'' @ '':'' @ js_string ''t'' @ '','' @ js_string ''iteration'' @ '':0,''
    @ js_string ''changedFiles'' @ '':[],'' @ js_string ''tests'' @ '':null,'' @ js_string ''exitStatus'' @ '':'' @ js_string ''ok'' @ '',''
    @ js_string ''timestamp'' @ '':'' @ js_string [] @ ''}''"
  by (simp add: line_example_def record_json_def record_example_def js_number_def digits.simps char_of_is byte_def)

lemma line_example_plain: "CHR 0x0A \<notin> set line_example" "length line_example < 200" "last line_example = CHR ''}''"
  by (simp_all add: line_example_text js_string_plain plain_js_def byte_def)

definition two_lines :: disk where
  "two_lines = [''/s/executions/w.jsonl'' \<mapsto> line_example @ [CHR 0x0A] @ line_example @ [CHR 0x0A]]"

lemma exec_path_example: "exec_path ''/s'' ''w'' = ''/s/executions/w.jsonl''"
  by (simp add: exec_path_def go_join_def go_clean_def rooted_def slash_def)

lemma safe_w: "safe_component ''w''"
  by (simp add: safe_component_def slash_def)

lemma two_lines_log: "text_lines (log_text ''/s'' ''w'' two_lines) = [line_example, line_example]"
  using split_on_sep [of "CHR 0x0A" line_example "line_example @ [CHR 0x0A]"] split_on_sep [of "CHR 0x0A" line_example "[]"]
    line_example_plain(1)
  by (simp add: log_text_def exec_path_example two_lines_def text_lines_def split_on_no_sep)

lemma line_example_cr: "drop_cr line_example = line_example"
  using line_example_plain(3) by (simp add: drop_cr_def)

theorem read_returns_the_end_of_the_log_witness:
  "\<exists>rs. exec_read ''/s'' no_read_faults (\<lambda>l. if l = line_example then Some (record_example ''t'') else None) ''w'' 1 two_lines = Inr rs
    \<and> rs = [record_example ''t''] \<and> length rs \<le> 50"
proof -
  let ?dec = "\<lambda>l. if l = line_example then Some (record_example ''t'') else None"
  have scan: "scan_json_lines ''/s'' None None ''executions'' ''w'' two_lines = ([line_example, line_example], None)"
    using scan_log [OF safe_w, of "''/s''" two_lines] line_example_plain(2)
    by (simp add: two_lines_log line_example_cr)
  then obtain rs where r: "exec_read ''/s'' no_read_faults ?dec ''w'' 1 two_lines = Inr rs"
    by (simp add: exec_read_def no_read_faults_def Let_def)
  from read_returns_the_end_of_the_log [OF r] show ?thesis
    using scan r by (auto simp: no_read_faults_def exec_limit_def List.map_filter_simps)
qed

definition no_append_faults :: append_faults where
  "no_append_faults = \<lparr>af_mkdir = None, af_open = None, af_write = None, af_sync = None\<rparr>"

definition torn_append :: append_faults where
  "torn_append = \<lparr>af_mkdir = None, af_open = None, af_write = Some (3, ''no space left on device''), af_sync = None\<rparr>"

lemma two_lines_readable: "readable_log (log_text ''/s'' ''w'' two_lines)"
  using line_example_plain(2) by (simp add: readable_log_def two_lines_log) (simp add: log_text_def exec_path_example two_lines_def ended_def)

theorem appended_record_is_latest_witness:
  "exec_latest ''/s'' no_read_faults (\<lambda>l. if l = line_example then Some (record_example ''t'') else None) ''w''
     (snd (exec_append ''/s'' no_append_faults ''w'' (record_example ''t'') two_lines)) = Inr (Some (record_example ''t''))"
proof -
  obtain d' where d': "exec_append ''/s'' no_append_faults ''w'' (record_example ''t'') two_lines = (None, d')"
    by (simp add: exec_append_def append_json_line_def repo_path_executions safe_w no_append_faults_def Let_def)
  show ?thesis
    unfolding d' snd_conv
    by (rule appended_record_is_latest [OF d' safe_w two_lines_readable])
      (use line_example_plain line_example_cr in \<open>simp_all add: line_example_def [symmetric]\<close>)
qed

theorem torn_line_swallows_next_record_witness:
  "exec_append ''/s'' no_append_faults ''w'' (record_example ''t'') (snd (exec_append ''/s'' torn_append ''w'' (record_example ''t'') two_lines))
      = (None, snd (exec_append ''/s'' no_append_faults ''w'' (record_example ''t'') (snd (exec_append ''/s'' torn_append ''w'' (record_example ''t'') two_lines))))
   \<and> exec_read ''/s'' no_read_faults (\<lambda>l. if l = line_example then Some (record_example ''t'') else None) ''w'' 5
      (snd (exec_append ''/s'' no_append_faults ''w'' (record_example ''t'') (snd (exec_append ''/s'' torn_append ''w'' (record_example ''t'') two_lines))))
     = exec_read ''/s'' no_read_faults (\<lambda>l. if l = line_example then Some (record_example ''t'') else None) ''w'' 5 two_lines"
proof -
  obtain d1 where d1: "exec_append ''/s'' torn_append ''w'' (record_example ''t'') two_lines = (Some ''no space left on device'', d1)"
    by (simp add: exec_append_def append_json_line_def repo_path_executions safe_w torn_append_def Let_def)
  obtain d2 where d2: "exec_append ''/s'' no_append_faults ''w'' (record_example ''t'') d1 = (None, d2)"
    by (simp add: exec_append_def append_json_line_def repo_path_executions safe_w no_append_faults_def Let_def)
  have "length (take 3 line_example) = 3" by (simp add: line_example_text)
  then have glued: "drop_cr (take 3 line_example @ line_example) \<noteq> line_example"
    using line_example_plain(3) by (auto simp: drop_cr_def dest: arg_cong [where f = length])
  show ?thesis
    unfolding d1 d2 snd_conv
    by (rule conjI [OF refl torn_line_swallows_next_record [OF safe_w two_lines_readable d1 _ _ _ _ d2, where n = 3]])
      (use line_example_plain glued in \<open>simp_all add: line_example_def [symmetric] torn_append_def\<close>, simp add: line_example_text)
qed

end
