(* ===== verification/McpProtocol.thy ===== *)
theory McpProtocol
  imports Json
begin

text \<open>
  The messages of the MCP endpoint and the checks of \<open>internal/mcp/http_validation.go\<close>, with
  \<open>internal/mcp/protocol.go\<close> and \<open>internal/buildinfo\<close>: which protocol a request speaks, and that its
  headers say the same as its body.
\<close>

section \<open>Versions\<close>

definition modern_protocol :: string where
  "modern_protocol = ''2026-07-28''"

definition latest_legacy_protocol :: string where
  "latest_legacy_protocol = ''2025-11-25''"

definition supported_protocol_versions :: "string list" where
  "supported_protocol_versions = [modern_protocol, latest_legacy_protocol, ''2025-06-18'', ''2025-03-26'']"

definition supports_protocol :: "string \<Rightarrow> bool" where
  "supports_protocol version \<longleftrightarrow> version \<in> set supported_protocol_versions"

definition is_modern_protocol :: "string \<Rightarrow> bool" where
  "is_modern_protocol version \<longleftrightarrow> version = modern_protocol"

definition is_legacy_protocol :: "string \<Rightarrow> bool" where
  "is_legacy_protocol version \<longleftrightarrow> version \<noteq> modern_protocol \<and> supports_protocol version"

section \<open>Messages\<close>

record rpc_request =
  rpc_version :: string
  rpc_id :: "jvalue option"
  rpc_op :: string
  rpc_params :: "jvalue option"

definition empty_request :: rpc_request where
  "empty_request = \<lparr>rpc_version = [], rpc_id = None, rpc_op = [], rpc_params = None\<rparr>"

definition request_fields :: "rpc_request js_fields" where
  "request_fields =
    [(''jsonrpc'', \<lambda>v r. let (s, ok) = into_string v (rpc_version r) in (r\<lparr>rpc_version := s\<rparr>, ok)),
     (''id'', \<lambda>v r. (r\<lparr>rpc_id := Some v\<rparr>, True)),
     (''met'' @ ''hod'', \<lambda>v r. let (s, ok) = into_string v (rpc_op r) in (r\<lparr>rpc_op := s\<rparr>, ok)),
     (''params'', \<lambda>v r. (r\<lparr>rpc_params := Some v\<rparr>, True))]"

definition into_request :: "jvalue \<Rightarrow> rpc_request \<Rightarrow> rpc_request \<times> bool" where
  "into_request = into_struct False request_fields"

record rpc_error =
  re_code :: int
  re_message :: string
  re_data :: "jvalue option"

definition plain_error :: "int \<Rightarrow> string \<Rightarrow> rpc_error" where
  "plain_error code message = \<lparr>re_code = code, re_message = message, re_data = None\<rparr>"

abbreviation header_mismatch_code :: int where "header_mismatch_code \<equiv> -32020"
abbreviation missing_client_capability_code :: int where "missing_client_capability_code \<equiv> -32021"
abbreviation unsupported_protocol_code :: int where "unsupported_protocol_code \<equiv> -32022"

text \<open>A missing \<open>id\<close> and a \<open>null\<close> one make a notification.\<close>

definition is_notification :: "rpc_request \<Rightarrow> bool" where
  "is_notification q \<longleftrightarrow> rpc_id q = None \<or> rpc_id q = Some JsNull"

definition response_id :: "jvalue option \<Rightarrow> jvalue" where
  "response_id i = (case i of None \<Rightarrow> JsNull | Some v \<Rightarrow> v)"

section \<open>The metadata of a request\<close>

record request_metadata =
  rm_protocol_version :: string
  rm_has_meta :: bool
  rm_has_capabilities :: bool

definition no_metadata :: request_metadata where
  "no_metadata = \<lparr>rm_protocol_version = [], rm_has_meta = False, rm_has_capabilities = False\<rparr>"

definition protocol_version_key :: string where
  "protocol_version_key = ''io.modelcontextprotocol/protocolVersion''"

definition client_info_key :: string where
  "client_info_key = ''io.modelcontextprotocol/clientInfo''"

definition client_capabilities_key :: string where
  "client_capabilities_key = ''io.modelcontextprotocol/clientCapabilities''"

definition server_info_key :: string where
  "server_info_key = ''io.modelcontextprotocol/serverInfo''"

definition is_object :: "jvalue \<Rightarrow> bool" where
  "is_object v \<longleftrightarrow> (case v of JsObject _ \<Rightarrow> True | _ \<Rightarrow> False)"

text \<open>A map of raw values: the last of equal keys counts.\<close>

definition raw_entries :: "jvalue \<Rightarrow> js_map option" where
  "raw_entries v = (case v of JsObject kvs \<Rightarrow> Some (js_merge [] kvs) | JsNull \<Rightarrow> Some [] | _ \<Rightarrow> None)"

text \<open>
  The second component says that there was no error; after one, what was read so far is still returned.
\<close>

definition parse_meta_object :: "js_map \<Rightarrow> request_metadata \<Rightarrow> request_metadata \<times> bool" where
  "parse_meta_object m r0 =
    (let (r1, ok1) = (case map_of m protocol_version_key of
            None \<Rightarrow> (r0, True)
          | Some v \<Rightarrow> (case into_string v [] of (s, ok) \<Rightarrow> (r0\<lparr>rm_protocol_version := s\<rparr>, ok)))
     in if \<not> ok1 then (r1, False)
        else case map_of m client_capabilities_key of
          Some v \<Rightarrow> (r1\<lparr>rm_has_capabilities := True\<rparr>,
            is_object v \<and> (case map_of m client_info_key of None \<Rightarrow> True | Some i \<Rightarrow> is_object i))
        | None \<Rightarrow> (r1, case map_of m client_info_key of None \<Rightarrow> True | Some i \<Rightarrow> is_object i))"

definition parse_request_metadata :: "jvalue option \<Rightarrow> request_metadata \<times> bool" where
  "parse_request_metadata params =
    (case params of None \<Rightarrow> (no_metadata, True)
     | Some v \<Rightarrow>
        (case raw_entries v of
           None \<Rightarrow> (no_metadata, False)
         | Some object \<Rightarrow>
            (case map_of object ''_meta'' of
               None \<Rightarrow> (no_metadata, True)
             | Some raw \<Rightarrow>
                (case raw_entries raw of
                   None \<Rightarrow> (no_metadata\<lparr>rm_has_meta := True\<rparr>, False)
                 | Some m \<Rightarrow> parse_meta_object m (no_metadata\<lparr>rm_has_meta := True\<rparr>)))))"

definition server_metadata :: "string \<Rightarrow> jvalue" where
  "server_metadata version =
    JsObject [(server_info_key, JsObject [(''name'', JsString ''codexlink-bridge''), (''version'', JsString version)])]"

section \<open>Headers\<close>

text \<open>The values of a header, in the order in which they were sent.\<close>

record mcp_request =
  mq_verb :: string
  mq_version :: "string list"
  mq_op :: "string list"
  mq_name :: "string list"
  mq_body :: "string option"

record mcp_lib =
  ml_parse :: "string \<Rightarrow> jvalue option"
  ml_float :: "json_number \<Rightarrow> json_number"
  ml_quote :: "string \<Rightarrow> string"
  ml_version :: string

text \<open>\<open>singleHeader\<close>: the content, whether it is present, and whether there was no error.\<close>

definition single_header :: "string list \<Rightarrow> string \<times> bool \<times> bool" where
  "single_header vs = (case vs of [] \<Rightarrow> ([], False, True) | [v] \<Rightarrow> (v, True, True) | _ \<Rightarrow> ([], True, False))"

definition header_error :: "string \<Rightarrow> string" where
  "header_error name = name @ '' must appear exactly once''"

definition safe_plain_header_value :: "string \<Rightarrow> bool" where
  "safe_plain_header_value v \<longleftrightarrow> v \<noteq> [] \<and> trim_space v = v \<and> list_all (\<lambda>r. 0x20 \<le> r \<and> r \<le> 0x7E) (runes v)"

definition mirror_prefix :: string where
  "mirror_prefix = ''=?base64?''"

definition mirror_suffix :: string where
  "mirror_suffix = ''?=''"

definition decode_mirrored_header :: "string \<Rightarrow> string + string" where
  "decode_mirrored_header v =
    (if has_prefix v mirror_prefix \<and> has_suffix v mirror_suffix
     then (let encoded = trim_suffix (trim_prefix v mirror_prefix) mirror_suffix
       in if encoded = [] then Inl ''empty base64 payload''
          else case std_decode encoded of
            None \<Rightarrow> Inl ''invalid base64 payload''
          | Some decoded \<Rightarrow> if \<not> utf8_valid decoded then Inl ''decoded value is not UTF-8'' else Inr decoded)
     else if has_prefix v mirror_prefix \<or> has_suffix v mirror_suffix then Inl ''invalid base64 sentinel''
     else if \<not> safe_plain_header_value v then Inl ''plain value contains unsafe characters''
     else Inr v)"

section \<open>What the body says\<close>

record call_names =
  cn_name :: string
  cn_uri :: string

definition call_name_fields :: "call_names js_fields" where
  "call_name_fields =
    [(''name'', \<lambda>v r. let (s, ok) = into_string v (cn_name r) in (r\<lparr>cn_name := s\<rparr>, ok)),
     (''uri'', \<lambda>v r. let (s, ok) = into_string v (cn_uri r) in (r\<lparr>cn_uri := s\<rparr>, ok))]"

text \<open>\<open>Unmarshal\<close> of missing parameters is an error.\<close>

definition into_params :: "'r js_fields \<Rightarrow> jvalue option \<Rightarrow> 'r \<Rightarrow> 'r \<times> bool" where
  "into_params fs params r = (case params of None \<Rightarrow> (r, False) | Some v \<Rightarrow> into_struct False fs v r)"

text \<open>The name, whether one is required, and whether there was no error.\<close>

definition routing_name :: "rpc_request \<Rightarrow> string \<times> bool \<times> bool" where
  "routing_name q =
    (let (names, ok) = into_params call_name_fields (rpc_params q) \<lparr>cn_name = [], cn_uri = []\<rparr>
     in if rpc_op q = ''tools/call'' \<or> rpc_op q = ''prompts/get'' then (if ok then cn_name names else [], True, ok)
        else if rpc_op q = ''resources/read'' then (if ok then cn_uri names else [], True, ok)
        else ([], False, True))"

definition initialize_protocol_version :: "rpc_request \<Rightarrow> string" where
  "initialize_protocol_version q =
    (if rpc_op q \<noteq> ''initialize'' then []
     else let (s, ok) = into_params [(''protocolVersion'', into_string)] (rpc_params q) []
          in if \<not> ok then [] else trim_space s)"

definition modern_request_intent :: "string \<Rightarrow> string \<Rightarrow> string \<Rightarrow> bool" where
  "modern_request_intent op header meta \<longleftrightarrow> op = ''server/discover''
     \<or> list_ex (\<lambda>version. version \<noteq> [] \<and> (is_modern_protocol version \<or> \<not> is_legacy_protocol version)) [header, meta]"

definition select_legacy_protocol :: "string \<Rightarrow> string \<Rightarrow> string \<Rightarrow> string" where
  "select_legacy_protocol header meta initial =
    (case find is_legacy_protocol [initial, header, meta] of
       Some version \<Rightarrow> version
     | None \<Rightarrow> if initial \<noteq> [] then latest_legacy_protocol else ''2025-03-26'')"

section \<open>The checks\<close>

record protocol_context =
  pc_version :: string
  pc_modern :: bool

type_synonym request_failure = "nat \<times> rpc_error"

definition header_failure :: "string \<Rightarrow> request_failure" where
  "header_failure message = (400, plain_error header_mismatch_code (''Header mismatch: '' @ message))"

definition invalid_params_failure :: "string \<Rightarrow> request_failure" where
  "invalid_params_failure message = (400, plain_error (-32602) message)"

definition unsupported_protocol_failure :: "string \<Rightarrow> request_failure" where
  "unsupported_protocol_failure requested =
    (400, \<lparr>re_code = unsupported_protocol_code, re_message = ''Unsupported protocol version.'',
      re_data = Some (JsObject [(''requested'', JsString requested),
        (''supported'', JsArray (map JsString supported_protocol_versions))])\<rparr>)"

definition mismatch :: "mcp_lib \<Rightarrow> string \<Rightarrow> string \<Rightarrow> string \<Rightarrow> request_failure" where
  "mismatch lib header v w = header_failure (header @ '' header value '' @ ml_quote lib v @ '' does not match body value '' @ ml_quote lib w @ ''.'')"

definition check_modern :: "mcp_lib \<Rightarrow> mcp_request \<Rightarrow> rpc_request \<Rightarrow> request_failure + protocol_context" where
  "check_modern lib hq q =
    (let (version, version_present, _) = single_header (mq_version hq);
         (op, op_present, _) = single_header (mq_op hq);
         (name, name_present, _) = single_header (mq_name hq);
         (meta, meta_ok) = parse_request_metadata (rpc_params q);
         (source, required, source_ok) = routing_name q
     in if \<not> meta_ok \<or> \<not> rm_has_meta meta then Inl (invalid_params_failure ''Modern MCP requests require an object params._meta field.'')
        else if rm_protocol_version meta = [] then Inl (invalid_params_failure ''params._meta is missing io.modelcontextprotocol/protocolVersion.'')
        else if \<not> rm_has_capabilities meta then Inl (invalid_params_failure ''params._meta is missing io.modelcontextprotocol/clientCapabilities.'')
        else if \<not> version_present \<or> version = [] then Inl (header_failure ''MCP-Protocol-Version is required for modern MCP requests.'')
        else if \<not> safe_plain_header_value version then Inl (header_failure ''MCP-Protocol-Version contains invalid characters.'')
        else if version \<noteq> rm_protocol_version meta then Inl (mismatch lib ''MCP-Protocol-Version'' version (rm_protocol_version meta))
        else if \<not> supports_protocol (rm_protocol_version meta) \<or> \<not> is_modern_protocol (rm_protocol_version meta)
        then Inl (unsupported_protocol_failure (rm_protocol_version meta))
        else if \<not> op_present \<or> op = [] then Inl (header_failure ''Mcp-Method is required for modern MCP requests.'')
        else if \<not> safe_plain_header_value op then Inl (header_failure ''Mcp-Method contains invalid characters.'')
        else if op \<noteq> rpc_op q then Inl (mismatch lib ''Mcp-Method'' op (rpc_op q))
        else if required then
          (if \<not> source_ok \<or> source = [] then Inl (invalid_params_failure (''The request body is missing the routing name required by this met'' @ ''hod.''))
           else if \<not> name_present \<or> name = [] then Inl (header_failure (''Mcp-Name is required for this MCP met'' @ ''hod.''))
           else case decode_mirrored_header name of
             Inl e \<Rightarrow> Inl (header_failure (''Mcp-Name is malformed: '' @ e))
           | Inr decoded \<Rightarrow>
              if decoded \<noteq> source then Inl (mismatch lib ''Mcp-Name'' decoded source)
              else Inr \<lparr>pc_version = rm_protocol_version meta, pc_modern = True\<rparr>)
        else if name_present then Inl (header_failure (''Mcp-Name is not valid for this MCP met'' @ ''hod.''))
        else Inr \<lparr>pc_version = rm_protocol_version meta, pc_modern = True\<rparr>)"

definition check_legacy :: "mcp_lib \<Rightarrow> mcp_request \<Rightarrow> rpc_request \<Rightarrow> request_failure + protocol_context" where
  "check_legacy lib hq q =
    (let (version, version_present, _) = single_header (mq_version hq);
         (op, op_present, _) = single_header (mq_op hq);
         (name, name_present, _) = single_header (mq_name hq);
         (meta, meta_ok) = parse_request_metadata (rpc_params q);
         meta_version = (if meta_ok then rm_protocol_version meta else []);
         (source, required, source_ok) = routing_name q
     in if op_present \<and> (\<not> safe_plain_header_value op \<or> op \<noteq> rpc_op q) then Inl (mismatch lib ''Mcp-Method'' op (rpc_op q))
        else if name_present \<and> (\<not> source_ok \<or> \<not> required)
        then Inl (header_failure ''Mcp-Name does not correspond to a routing value in the request body.'')
        else if name_present \<and> decode_mirrored_header name \<noteq> Inr source then Inl (mismatch lib ''Mcp-Name'' name source)
        else if version_present \<and> version \<noteq> [] \<and> \<not> supports_protocol version then Inl (unsupported_protocol_failure version)
        else Inr \<lparr>pc_version = select_legacy_protocol version meta_version (initialize_protocol_version q), pc_modern = False\<rparr>)"

definition validate_http_request :: "mcp_lib \<Rightarrow> mcp_request \<Rightarrow> rpc_request \<Rightarrow> request_failure + protocol_context" where
  "validate_http_request lib hq q =
    (let (version, _, version_ok) = single_header (mq_version hq);
         (_, _, op_ok) = single_header (mq_op hq);
         (_, _, name_ok) = single_header (mq_name hq);
         (meta, _) = parse_request_metadata (rpc_params q)
     in if \<not> version_ok then Inl (header_failure (header_error ''MCP-Protocol-Version''))
        else if \<not> op_ok then Inl (header_failure (header_error ''Mcp-Method''))
        else if \<not> name_ok then Inl (header_failure (header_error ''Mcp-Name''))
        else if modern_request_intent (rpc_op q) version (rm_protocol_version meta) then check_modern lib hq q
        else check_legacy lib hq q)"

end
