(* ===== verification/McpProps.thy ===== *)
theory McpProps
  imports McpTools
begin

text \<open>
  What the MCP endpoint guarantees: which state a request may change, that the headers of a request name
  the tool it calls, and what the registry lists.
\<close>

section \<open>Headers and bodies\<close>

text \<open>The name that the router reads and the name that is called are read from different structs.\<close>

lemma name_field_for:
  "field_for call_name_fields key = (if key = ''name'' \<or> key \<noteq> ''uri'' \<and> name_matches ''name'' key
     then Some (snd (call_name_fields ! 0))
     else if key = ''uri'' \<or> name_matches ''uri'' key then Some (snd (call_name_fields ! 1)) else None)"
  by (simp add: field_for_def call_name_fields_def)

lemma call_field_for:
  "field_for (call_fields fl) key = (if key = ''name'' \<or> key \<noteq> ''arguments'' \<and> name_matches ''name'' key
     then Some (snd (call_fields fl ! 0))
     else if key = ''arguments'' \<or> name_matches ''arguments'' key then Some (snd (call_fields fl ! 1)) else None)"
  by (simp add: field_for_def call_fields_def)

lemma field_setters:
  "snd (call_name_fields ! 0) v r = (let (x, ok) = into_string v (cn_name r) in (r\<lparr>cn_name := x\<rparr>, ok))"
  "snd (call_name_fields ! Suc 0) v r = (let (x, ok) = into_string v (cn_uri r) in (r\<lparr>cn_uri := x\<rparr>, ok))"
  "snd (call_fields fl ! 0) v r' = (let (x, ok) = into_string v (cp_name r') in (r'\<lparr>cp_name := x\<rparr>, ok))"
  "snd (call_fields fl ! Suc 0) v r' = (let (m, ok) = into_map (js_any fl) v (cp_arguments r') in (r'\<lparr>cp_arguments := m\<rparr>, ok))"
  by (simp_all add: call_name_fields_def call_fields_def)

lemmas name_eval = name_matches_def runes_Cons_ascii byte_def fold_rune_def

lemma name_matches_others: "\<not> name_matches ''name'' ''uri''" "\<not> name_matches ''name'' ''arguments''"
  by (simp_all add: name_eval)

lemma into_fields_names:
  "cn_name r = cp_name r' \<Longrightarrow> into_fields False call_name_fields kvs r = (s, True) \<Longrightarrow>
    into_fields False (call_fields fl) kvs r' = (s', True) \<Longrightarrow> cn_name s = cp_name s'"
proof (induction kvs arbitrary: r r')
  case (Cons kv kvs)
  obtain key v where kv: "kv = (key, v)" by (cases kv)
  consider (name) "key = ''name'' \<or> name_matches ''name'' key" | (other) "key \<noteq> ''name''" "\<not> name_matches ''name'' key" by blast
  then show ?case
  proof cases
    case name
    then have "key = ''name'' \<or> key \<noteq> ''uri'' \<and> key \<noteq> ''arguments'' \<and> name_matches ''name'' key" using name_matches_others by blast
    then have "field_for call_name_fields key = Some (snd (call_name_fields ! 0))" "field_for (call_fields fl) key = Some (snd (call_fields fl ! 0))"
      by (auto simp: name_field_for call_field_for)
    then show ?thesis
      using Cons.prems Cons.IH [of "fst (snd (call_name_fields ! 0) v r)" "fst (snd (call_fields fl ! 0) v r')"]
      by (auto simp: kv field_setters Let_def split: prod.splits)
  next
    case other
    let ?a = "case field_for call_name_fields key of None \<Rightarrow> (r, \<not> False) | Some f \<Rightarrow> f v r"
    let ?b = "case field_for (call_fields fl) key of None \<Rightarrow> (r', \<not> False) | Some f \<Rightarrow> f v r'"
    have "cn_name (fst ?a) = cn_name r" using other by (auto simp: name_field_for field_setters Let_def split: prod.splits)
    moreover have "cp_name (fst ?b) = cp_name r'" using other by (auto simp: call_field_for field_setters Let_def split: prod.splits)
    ultimately show ?thesis
      using Cons.prems Cons.IH [of "fst ?a" "fst ?b"] by (cases ?a; cases ?b) (auto simp: kv Let_def split: prod.splits)
  qed
qed simp

lemma routed_name_is_called:
  assumes "routing_name q = (source, True, True)" and "rpc_op q = ''tools/call''" and "call_parameters_of lib q = Some ps"
  shows "source = cp_name ps"
proof -
  obtain v where v: "rpc_params q = Some v" using assms(3) by (auto simp: call_parameters_of_def into_params_def split: option.splits if_splits)
  have s: "into_struct False call_name_fields v \<lparr>cn_name = [], cn_uri = []\<rparr> = (r, ok) \<Longrightarrow> ok \<and> source = cn_name r" for r ok
    using assms(1,2) by (auto simp: routing_name_def into_params_def v Let_def split: if_splits)
  have p: "into_struct False (call_fields (ml_float lib)) v \<lparr>cp_name = [], cp_arguments = None\<rparr> = (r, ok) \<Longrightarrow> ok \<and> ps = r" for r ok
    using assms(3) by (auto simp: call_parameters_of_def into_params_def v Let_def split: if_splits)
  show ?thesis
  proof (cases v)
    case (JsObject kvs)
    obtain r ok r' ok' where f: "into_fields False call_name_fields kvs \<lparr>cn_name = [], cn_uri = []\<rparr> = (r, ok)"
      "into_fields False (call_fields (ml_float lib)) kvs \<lparr>cp_name = [], cp_arguments = None\<rparr> = (r', ok')" by fastforce
    with s p have "ok" "ok'" "source = cn_name r" "ps = r'" by (auto simp: JsObject into_struct_def)
    with f into_fields_names [of "\<lparr>cn_name = [], cn_uri = []\<rparr>" "\<lparr>cp_name = [], cp_arguments = None\<rparr>"] show ?thesis by simp
  qed (use s p in \<open>auto simp: into_struct_def\<close>)
qed

lemma check_modern_ok:
  assumes "check_modern lib hq q = Inr c" and "single_header (mq_version hq) = (version, vp, vok)"
    and "single_header (mq_op hq) = (op, op_present, ook)" and "single_header (mq_name hq) = (name, name_present, nok)"
    and "routing_name q = (source, required, source_ok)"
  shows "vp \<and> op_present \<and> op = rpc_op q \<and> version = modern_protocol \<and> c = \<lparr>pc_version = modern_protocol, pc_modern = True\<rparr>
    \<and> (required \<longrightarrow> source_ok \<and> name_present \<and> decode_mirrored_header name = Inr source)"
  using assms(1) unfolding check_modern_def assms(2-5)
  by (auto simp: Let_def is_modern_protocol_def split: if_splits prod.splits sum.splits)

lemma select_legacy: "is_legacy_protocol (select_legacy_protocol header meta initial)"
  by (auto simp: select_legacy_protocol_def latest_legacy_protocol_def is_legacy_protocol_def supports_protocol_def modern_protocol_def
      supported_protocol_versions_def find_Some_iff split: option.splits)

lemma check_legacy_ok:
  assumes "check_legacy lib hq q = Inr c" and "single_header (mq_version hq) = (version, vp, vok)"
    and "single_header (mq_op hq) = (op, op_present, ook)" and "single_header (mq_name hq) = (name, name_present, nok)"
    and "routing_name q = (source, required, source_ok)"
  shows "(op_present \<longrightarrow> op = rpc_op q) \<and> \<not> pc_modern c \<and> is_legacy_protocol (pc_version c)
    \<and> (name_present \<longrightarrow> required \<and> source_ok \<and> decode_mirrored_header name = Inr source)"
  using assms(1) unfolding check_legacy_def assms(2-5)
  by (auto simp: Let_def select_legacy split: if_splits prod.splits)

text \<open>
  C22: The headers of an accepted request say the same as its body: the operation header, where there is
  one, is the operation, and the name header decodes to the name of the tool that is called; a modern
  request has both.
\<close>

theorem accepted_headers_name_the_call:
  assumes "validate_http_request lib hq q = Inr c"
  shows "(mq_op hq = [] \<and> \<not> pc_modern c \<or> mq_op hq = [rpc_op q])
     \<and> (\<forall>ps. rpc_op q = ''tools/call'' \<and> call_parameters_of lib q = Some ps \<longrightarrow>
          mq_name hq = [] \<and> \<not> pc_modern c \<or> (\<exists>h. mq_name hq = [h] \<and> decode_mirrored_header h = Inr (cp_name ps)))
     \<and> (pc_modern c \<longrightarrow> mq_version hq = [modern_protocol] \<and> pc_version c = modern_protocol)
     \<and> (\<not> pc_modern c \<longrightarrow> is_legacy_protocol (pc_version c))"
proof -
  obtain version vp version_ok where v: "single_header (mq_version hq) = (version, vp, version_ok)" by (cases "single_header (mq_version hq)") auto
  obtain op op_present op_ok where o: "single_header (mq_op hq) = (op, op_present, op_ok)" by (cases "single_header (mq_op hq)") auto
  obtain name name_present name_ok where n: "single_header (mq_name hq) = (name, name_present, name_ok)" by (cases "single_header (mq_name hq)") auto
  obtain meta meta_ok where m: "parse_request_metadata (rpc_params q) = (meta, meta_ok)" by fastforce
  obtain source required source_ok where r: "routing_name q = (source, required, source_ok)" by (cases "routing_name q") auto
  have ok: "version_ok" "op_ok" "name_ok" using assms by (auto simp: validate_http_request_def v o n m Let_def split: if_splits)
  then have headers: "mq_version hq = (if vp then [version] else [])" "mq_op hq = (if op_present then [op] else [])"
    "mq_name hq = (if name_present then [name] else [])"
    using v o n by (auto simp: single_header_def split: list.splits)
  have named: "source = cp_name ps" if "rpc_op q = ''tools/call''" "call_parameters_of lib q = Some ps" "source_ok" for ps
    using routed_name_is_called [of q source] r that by (auto simp: routing_name_def Let_def split: prod.splits)
  consider (modern) "check_modern lib hq q = Inr c" | (legacy) "check_legacy lib hq q = Inr c"
    using assms by (auto simp: validate_http_request_def v o n m Let_def split: if_splits)
  then show ?thesis
  proof cases
    case modern
    have "required" if "rpc_op q = ''tools/call''" using r that by (auto simp: routing_name_def Let_def split: prod.splits)
    then show ?thesis
      using check_modern_ok [OF modern v o n r] headers named by auto
  next
    case legacy
    then show ?thesis
      using check_legacy_ok [OF legacy v o n r] headers named by auto
  qed
qed

definition example_lib :: mcp_lib where
  "example_lib = \<lparr>ml_parse = (\<lambda>_. None), ml_float = id, ml_quote = id, ml_version = ''dev''\<rparr>"

definition example_call :: rpc_request where
  "example_call = \<lparr>rpc_version = ''2.0'', rpc_id = Some (JsNumber (Whole 1)), rpc_op = ''tools/call'',
     rpc_params = Some (JsObject [(''name'', JsString ''read_file''), (''_meta'', JsObject
       [(protocol_version_key, JsString modern_protocol), (client_capabilities_key, JsObject [])])])\<rparr>"

definition example_http :: mcp_request where
  "example_http = \<lparr>mq_verb = ''POST'', mq_version = [modern_protocol], mq_op = [''tools/call''], mq_name = [''read_file''], mq_body = None\<rparr>"

lemma example_validates:
  "validate_http_request example_lib example_http example_call = Inr \<lparr>pc_version = modern_protocol, pc_modern = True\<rparr>"
proof -
  have meta: "parse_request_metadata (rpc_params example_call)
      = (\<lparr>rm_protocol_version = modern_protocol, rm_has_meta = True, rm_has_capabilities = True\<rparr>, True)"
    by (simp add: parse_request_metadata_def example_call_def raw_entries_def js_merge_def byte_def parse_meta_object_def no_metadata_def
        into_string_def protocol_version_key_def client_capabilities_key_def client_info_key_def is_object_def)
  have name: "routing_name example_call = (''read_file'', True, True)"
    by (simp add: routing_name_def into_params_def example_call_def into_struct_def name_field_for field_setters into_string_def
        name_matches_others name_eval Let_def)
  have safe: "safe_plain_header_value modern_protocol" "safe_plain_header_value ''tools/call''" "safe_plain_header_value ''read_file''"
    by (simp_all add: safe_plain_header_value_def modern_protocol_def trim_space_def segs_Cons_ascii is_space_def runes_Cons_ascii byte_def)
  have decode: "decode_mirrored_header ''read_file'' = Inr ''read_file''"
    using safe(3) by (simp add: decode_mirrored_header_def mirror_prefix_def mirror_suffix_def has_prefix_def has_suffix_def)
  have "modern_request_intent (rpc_op example_call) modern_protocol modern_protocol"
    by (simp add: modern_request_intent_def is_modern_protocol_def modern_protocol_def)
  then show ?thesis
    unfolding validate_http_request_def check_modern_def meta name
    using safe decode
    by (simp add: example_http_def single_header_def Let_def is_modern_protocol_def supports_protocol_def supported_protocol_versions_def)
      (simp add: example_call_def modern_protocol_def)
qed

theorem accepted_headers_name_the_call_witness:
  "validate_http_request example_lib example_http example_call = Inr \<lparr>pc_version = modern_protocol, pc_modern = True\<rparr>
    \<and> mq_version example_http = [modern_protocol] \<and> mq_op example_http = [rpc_op example_call]"
  using example_validates accepted_headers_name_the_call [OF example_validates] by simp

section \<open>What a request may change\<close>

text \<open>One call of a registered tool by someone who may call it.\<close>

inductive tool_step :: "('s, 'v) registry \<Rightarrow> principal \<Rightarrow> 's \<Rightarrow> 's \<Rightarrow> bool" for reg p where
  "gm_get (rg_tools reg) n = Some t \<Longrightarrow> may_call p t \<Longrightarrow> tool_step reg p s (snd (the (tl_handler t) args s))"

abbreviation tool_steps :: "('s, 'v) registry \<Rightarrow> principal \<Rightarrow> 's \<Rightarrow> 's \<Rightarrow> bool" where
  "tool_steps reg p \<equiv> (tool_step reg p)\<^sup>*\<^sup>*"

lemma call_tool_steps: "call_tool lib render reg p q protocol s = (r, s') \<Longrightarrow> tool_steps reg p s s'"
  by (auto simp: call_tool_def split: option.splits if_splits prod.splits sum.splits intro!: r_into_rtranclp
      dest: tool_step.intros [where s = s])
    (metis tool_step.intros snd_conv)+

lemma dispatch_steps: "dispatch lib render reg p q protocol s = (r, s') \<Longrightarrow> tool_steps reg p s s'"
  using call_tool_steps [of lib render reg p q protocol s]
  by (cases "call_tool lib render reg p q protocol s") (auto simp: dispatch_def Let_def split: if_splits)

lemma batch_steps: "batch_loop lib render reg p hq qs selected rs s = (r, s') \<Longrightarrow> tool_steps reg p s s'"
proof (induction qs arbitrary: selected rs s)
  case (Cons q qs)
  then show ?case
    by (auto split: sum.splits prod.splits if_splits dest!: dispatch_steps intro: rtranclp_trans)
qed simp

lemma serve_steps: "mcp_serve lib render reg p hq s = (r, s') \<Longrightarrow> tool_steps reg p s s'"
  by (auto simp: mcp_serve_def handle_legacy_batch_def Let_def dest!: batch_steps dispatch_steps
      split: if_splits option.splits list.splits sum.splits prod.splits)

lemma rg_register_get: "rg_register t r = Inr r' \<Longrightarrow> gm_get (rg_tools r') n = (if n = tool_name t then Some t else gm_get (rg_tools r) n)"
  by (auto simp: rg_register_def update_conv' split: if_splits)

lemma register_all_get: "register_all ts r = Inr r' \<Longrightarrow> gm_get (rg_tools r') n = Some t \<Longrightarrow>
    gm_get (rg_tools r) n = Some t \<or> t \<in> set ts \<and> tool_name t = n"
proof (induction ts arbitrary: r)
  case (Cons t0 ts)
  from Cons.prems(1) obtain r1 where r1: "rg_register t0 r = Inr r1" "register_all ts r1 = Inr r'" by (auto split: sum.splits)
  from Cons.IH [OF r1(2) Cons.prems(2)] show ?case by (auto simp: rg_register_get [OF r1(1)] split: if_splits)
qed simp

lemma new_registry_get: "new_registry ts = Inr reg \<Longrightarrow> gm_get (rg_tools reg) n = Some t \<Longrightarrow> t \<in> set ts \<and> tool_name t = n"
  using register_all_get [of ts empty_registry] by (auto simp: new_registry_def empty_registry_def)

lemma read_only_keeps_store: "ms_store (snd (the (tl_handler (new_read_only_tool d scope fs zero h)) args s)) = ms_store s"
  by (simp add: new_read_only_tool_def bind_args_def next_call_def)

lemma data_tool_keeps_store: "ms_store (snd (the (tl_handler (new_workspace_data_tool d scope fs zero h)) args s)) = ms_store s"
  by (simp add: new_workspace_data_tool_def read_only_keeps_store)

lemmas tool_defs = workspace_info_tool_def list_directory_tool_def read_file_tool_def search_workspace_tool_def find_files_tool_def
  read_files_tool_def file_outline_tool_def git_status_tool_def git_diff_tool_def git_log_tool_def test_status_tool_def
  execution_summary_tool_def

lemma only_control_changes_store:
  "t \<in> set (workspace_toolset ws @ git_toolset @ execution_toolset b @ (if control then control_toolset cd else [])) \<Longrightarrow>
    tl_scope t = control_respond \<or> ms_store (snd (the (tl_handler t) args s)) = ms_store s"
  by (auto simp: workspace_toolset_def git_toolset_def execution_toolset_def control_toolset_def tool_defs
      data_tool_keeps_store read_only_keeps_store split: if_splits)

lemma step_needs_scope:
  assumes "workspace_tools b control = Inr reg" and "tool_step reg p s s'"
  shows "has_scope p control_respond \<or> ms_store s' = ms_store s"
  using assms(2)
proof cases
  case (1 n t args)
  then have "t \<in> set (workspace_toolset (tb_workspace b) @ git_toolset @ execution_toolset b @ (if control then control_toolset (tb_codec b) else []))"
    using new_registry_get assms(1) unfolding workspace_tools_def by blast
  from only_control_changes_store [OF this, of args s] have "tl_scope t = control_respond \<or> ms_store s' = ms_store s"
    using 1(1) by simp
  then show ?thesis using 1(3) by (auto simp: may_call_def control_respond_def)
qed

lemma steps_need_scope:
  assumes "workspace_tools b control = Inr reg" and "tool_steps reg p s s'"
  shows "has_scope p control_respond \<or> ms_store s' = ms_store s"
  using assms(2)
proof induction
  case (step y z)
  then show ?case using step_needs_scope [OF assms(1) step.hyps(2)] by auto
qed simp

text \<open>
  C9: Whatever is sent to the MCP endpoint, alone or in a batch, in any protocol: the control store stays
  as it is unless the token of the caller carries the scope to respond to control requests.
\<close>

theorem control_store_needs_scope:
  assumes "workspace_tools b control = Inr reg" and "\<not> has_scope p control_respond"
  shows "ms_store (snd (mcp_serve lib render reg p hq s)) = ms_store s"
  using steps_need_scope [OF assms(1)] assms(2) serve_steps [of lib render reg p hq s] by (metis surjective_pairing)

section \<open>The registry\<close>

definition registry_ok :: "('s, 'v) registry \<Rightarrow> bool" where
  "registry_ok r \<longleftrightarrow> sorted (map (map byte) (rg_order r)) \<and> distinct (rg_order r)
     \<and> (\<forall>n. n \<in> set (rg_order r) \<longleftrightarrow> gm_get (rg_tools r) n \<noteq> None)
     \<and> (\<forall>n t. gm_get (rg_tools r) n = Some t \<longrightarrow> tool_name t = n \<and> tl_handler t \<noteq> None)"

lemma register_keeps_ok: "registry_ok r \<Longrightarrow> rg_register t r = Inr r' \<Longrightarrow> registry_ok r'"
  by (auto simp: rg_register_def registry_ok_def sort_strings_def gm_get_put split: if_splits)

lemma register_all_ok: "registry_ok r \<Longrightarrow> register_all ts r = Inr r' \<Longrightarrow> registry_ok r'"
proof (induction ts arbitrary: r)
  case (Cons t ts)
  then obtain r1 where r1: "rg_register t r = Inr r1" "register_all ts r1 = Inr r'" by (auto split: sum.splits)
  show ?case by (rule Cons.IH [OF register_keeps_ok [OF Cons.prems(1) r1(1)] r1(2)])
qed simp

lemma empty_registry_ok: "registry_ok empty_registry"
  by (simp add: empty_registry_def registry_ok_def)

lemma new_registry_ok: "new_registry ts = Inr r \<Longrightarrow> registry_ok r"
  unfolding new_registry_def by (rule register_all_ok [OF empty_registry_ok])

lemma register_all_keeps: "register_all ts r = Inr r' \<Longrightarrow> gm_get (rg_tools r) n = Some t \<Longrightarrow> gm_get (rg_tools r') n = Some t"
proof (induction ts arbitrary: r)
  case (Cons t0 ts)
  from Cons.prems(1) obtain r1 where r1: "rg_register t0 r = Inr r1" "register_all ts r1 = Inr r'" by (auto split: sum.splits)
  moreover have "gm_get (rg_tools r1) n = Some t"
    using r1(1) Cons.prems(2) by (auto simp: rg_register_get [OF r1(1)]) (auto simp: rg_register_def split: if_splits)
  ultimately show ?case using Cons.IH by blast
qed simp

lemma register_all_has: "register_all ts r = Inr r' \<Longrightarrow> t \<in> set ts \<Longrightarrow> gm_get (rg_tools r') (tool_name t) = Some t"
proof (induction ts arbitrary: r)
  case (Cons t0 ts)
  from Cons.prems(1) obtain r1 where r1: "rg_register t0 r = Inr r1" "register_all ts r1 = Inr r'" by (auto split: sum.splits)
  then show ?case
    using Cons.IH [OF r1(2)] Cons.prems(2) register_all_keeps [OF r1(2)] by (auto simp: rg_register_get [OF r1(1)])
qed simp

lemma list_names:
  assumes "registry_ok r"
  shows "map td_name (rg_list allowed r) = filter (\<lambda>n. allowed (the (gm_get (rg_tools r) n))) (rg_order r)"
proof -
  have "\<forall>n \<in> set ns. \<exists>t. gm_get (rg_tools r) n = Some t \<and> tool_name t = n \<Longrightarrow>
      map td_name (map tl_definition (filter allowed (List.map_filter (gm_get (rg_tools r)) ns)))
        = filter (\<lambda>n. allowed (the (gm_get (rg_tools r) n))) ns" for ns
    by (induction ns) (auto simp: List.map_filter_simps)
  moreover have "\<forall>n \<in> set (rg_order r). \<exists>t. gm_get (rg_tools r) n = Some t \<and> tool_name t = n"
    using assms by (auto simp: registry_ok_def)
  ultimately show ?thesis by (simp add: rg_list_def)
qed

text \<open>
  \<open>tools/list\<close> names each tool once, in order, and names exactly the tools that \<open>tools/call\<close> does not
  refuse to the caller.
\<close>

theorem listed_tools_are_callable:
  assumes "new_registry ts = Inr reg"
  shows "let names = map td_name (rg_list (may_call p) reg) in
     sorted (map (map byte) names) \<and> distinct names
     \<and> (\<forall>n. n \<in> set names \<longleftrightarrow> (\<exists>t \<in> set ts. tool_name t = n \<and> may_call p t))"
proof -
  note ok = new_registry_ok [OF assms]
  have order: "n \<in> set (rg_order reg) \<longleftrightarrow> gm_get (rg_tools reg) n \<noteq> None" for n using ok by (simp add: registry_ok_def)
  note has = register_all_has [OF assms [unfolded new_registry_def]]
  have callable: "n \<in> set (rg_order reg) \<and> may_call p (the (gm_get (rg_tools reg) n))
      \<longleftrightarrow> (\<exists>t \<in> set ts. tool_name t = n \<and> may_call p t)" for n
  proof (cases "gm_get (rg_tools reg) n")
    case None
    then show ?thesis using order [of n] has by fastforce
  next
    case (Some t)
    have "t' = t" if "t' \<in> set ts" "tool_name t' = n" for t' using has [OF that(1)] that(2) Some by simp
    then show ?thesis using Some order [of n] new_registry_get [OF assms Some] by auto
  qed
  have "sorted (map (map byte) (rg_order reg))" "distinct (rg_order reg)" using ok by (auto simp: registry_ok_def)
  then show ?thesis unfolding list_names [OF ok] Let_def by (simp add: sorted_filter callable)
qed

lemma register_all_succeeds:
  "\<forall>t \<in> set ts. tool_name t \<noteq> [] \<and> tl_handler t \<noteq> None \<Longrightarrow> distinct (map tool_name ts) \<Longrightarrow>
    \<forall>t \<in> set ts. gm_get (rg_tools r) (tool_name t) = None \<Longrightarrow> \<exists>r'. register_all ts r = Inr r'"
proof (induction ts arbitrary: r)
  case (Cons t ts)
  then obtain r1 where r1: "rg_register t r = Inr r1" by (auto simp: rg_register_def)
  moreover have "\<forall>t \<in> set ts. gm_get (rg_tools r1) (tool_name t) = None"
    using Cons.prems by (auto simp: rg_register_get [OF r1] image_iff)
  ultimately show ?case using Cons.IH [of r1] Cons.prems by auto
qed simp

lemma tool_facts:
  "tool_name (new_read_only_tool d scope fs zero h) = td_name d" "\<exists>f. tl_handler (new_read_only_tool d scope fs zero h) = Some f"
  "tl_scope (new_read_only_tool d scope fs zero h) = scope"
  "tool_name (new_workspace_data_tool d scope fs zero h) = td_name d" "\<exists>f. tl_handler (new_workspace_data_tool d scope fs zero h) = Some f"
  "tl_scope (new_workspace_data_tool d scope fs zero h) = scope"
  by (simp_all add: new_read_only_tool_def new_workspace_data_tool_def)

lemmas toolset_defs = workspace_toolset_def git_toolset_def execution_toolset_def control_toolset_def

lemmas definition_defs = workspace_info_definition_def list_directory_definition_def read_file_definition_def
  search_workspace_definition_def find_files_definition_def read_files_definition_def file_outline_definition_def
  git_status_definition_def git_diff_definition_def git_log_definition_def test_status_definition_def
  execution_summary_definition_def submit_control_response_definition_def

lemma tool_names:
  "map tool_name (workspace_toolset ws @ git_toolset @ execution_toolset b @ control_toolset cd) =
    [''workspace_info'', ''list_directory'', ''read_file'', ''search_workspace'', ''find_files'', ''read_files'', ''file_outline'',
     ''git_status'', ''git_diff'', ''git_log'', ''test_status'', ''execution_summary'', ''submit_control_response'']"
  by (simp add: toolset_defs tool_defs tool_facts) (simp add: definition_defs)

lemma workspace_tools_ok: "\<exists>reg. workspace_tools b True = Inr reg"
proof -
  let ?ts = "workspace_toolset (tb_workspace b) @ git_toolset @ execution_toolset b @ control_toolset (tb_codec b)"
  have "distinct (map tool_name ?ts)" unfolding tool_names by simp
  moreover have "[] \<notin> set (map tool_name ?ts)" unfolding tool_names by simp
  then have "\<forall>t \<in> set ?ts. tool_name t \<noteq> []" by (auto simp: image_iff)
  moreover have "\<forall>t \<in> set ?ts. tl_handler t \<noteq> None" by (simp add: toolset_defs tool_defs tool_facts)
  ultimately show ?thesis
    unfolding workspace_tools_def new_registry_def if_True by (intro register_all_succeeds) (auto simp: empty_registry_def)
qed

definition example_principal :: "string list \<Rightarrow> principal" where
  "example_principal scopes = \<lparr>pr_token = [], pr_client_id = [], pr_workspace_id = [], pr_audience = [], pr_scopes = scopes, pr_expires_at = 0\<rparr>"

theorem listed_tools_are_callable_witness:
  "\<forall>b. \<exists>reg. workspace_tools b True = Inr reg
    \<and> ''git_log'' \<in> set (map td_name (rg_list (may_call (example_principal [''git.read''])) reg))"
proof
  fix b
  obtain reg where reg: "workspace_tools b True = Inr reg" using workspace_tools_ok by blast
  have "git_log_tool \<in> set (workspace_toolset (tb_workspace b) @ git_toolset @ execution_toolset b @ control_toolset (tb_codec b))"
    by (simp add: git_toolset_def)
  moreover have "tool_name git_log_tool = ''git_log''" "may_call (example_principal [''git.read'']) git_log_tool"
    by (simp_all add: git_log_tool_def tool_facts git_log_definition_def may_call_def has_scope_def contains_scope_def example_principal_def)
  ultimately show "\<exists>reg. workspace_tools b True = Inr reg
      \<and> ''git_log'' \<in> set (map td_name (rg_list (may_call (example_principal [''git.read''])) reg))"
    using reg listed_tools_are_callable [OF reg [unfolded workspace_tools_def], of "example_principal [''git.read'']"]
    by (auto simp: Let_def)
qed

theorem control_store_needs_scope_witness:
  "\<forall>b s. \<exists>reg. workspace_tools b True = Inr reg
    \<and> ms_store (snd (mcp_serve example_lib (\<lambda>_. None) reg (example_principal [''git.read'']) example_http s)) = ms_store s"
proof (intro allI)
  fix b s
  obtain reg where reg: "workspace_tools b True = Inr reg" using workspace_tools_ok by blast
  have "\<not> has_scope (example_principal [''git.read'']) control_respond"
    by (simp add: has_scope_def contains_scope_def example_principal_def control_respond_def)
  from control_store_needs_scope [OF reg this] show "\<exists>reg. workspace_tools b True = Inr reg
      \<and> ms_store (snd (mcp_serve example_lib (\<lambda>_. None) reg (example_principal [''git.read'']) example_http s)) = ms_store s"
    using reg by blast
qed

section \<open>Batches\<close>

definition batch_http :: mcp_request where
  "batch_http = \<lparr>mq_verb = ''POST'', mq_version = [], mq_op = [], mq_name = [], mq_body = Some ''[...]''\<rparr>"

definition batch_call :: "string \<Rightarrow> rpc_request" where
  "batch_call n = \<lparr>rpc_version = ''2.0'', rpc_id = Some (JsNumber (Whole 1)), rpc_op = ''tools/call'',
     rpc_params = Some (JsObject [(''name'', JsString n)])\<rparr>"

lemma batch_call_validates:
  "validate_http_request lib batch_http (batch_call n) = Inr \<lparr>pc_version = ''2025-03-26'', pc_modern = False\<rparr>"
proof -
  have meta: "parse_request_metadata (rpc_params (batch_call n)) = (no_metadata, True)"
    by (simp add: parse_request_metadata_def batch_call_def raw_entries_def js_merge_def)
  have legacy: "select_legacy_protocol [] [] [] = ''2025-03-26''"
    by (simp add: select_legacy_protocol_def is_legacy_protocol_def supports_protocol_def supported_protocol_versions_def
        modern_protocol_def latest_legacy_protocol_def)
  obtain source required ok where r: "routing_name (batch_call n) = (source, required, ok)" by (cases "routing_name (batch_call n)") auto
  have initial: "initialize_protocol_version (batch_call n) = []" by (simp add: initialize_protocol_version_def batch_call_def)
  show ?thesis
    unfolding validate_http_request_def check_legacy_def meta r
    using legacy by (simp add: batch_http_def single_header_def no_metadata_def modern_request_intent_def initial)
      (simp add: batch_call_def)
qed

lemma modern_call_fails:
  "\<exists>e. validate_http_request lib batch_http example_call = Inl (400, e)"
proof -
  have meta: "parse_request_metadata (rpc_params example_call)
      = (\<lparr>rm_protocol_version = modern_protocol, rm_has_meta = True, rm_has_capabilities = True\<rparr>, True)"
    by (simp add: parse_request_metadata_def example_call_def raw_entries_def js_merge_def byte_def parse_meta_object_def no_metadata_def
        into_string_def protocol_version_key_def client_capabilities_key_def client_info_key_def is_object_def)
  obtain source required ok where r: "routing_name example_call = (source, required, ok)" by (cases "routing_name example_call") auto
  have "modern_request_intent (rpc_op example_call) [] modern_protocol"
    by (simp add: modern_request_intent_def is_modern_protocol_def modern_protocol_def)
  then show ?thesis
    unfolding validate_http_request_def check_modern_def meta r
    by (simp add: batch_http_def single_header_def modern_protocol_def header_failure_def Let_def)
qed

lemma batch_call_parameters: "n \<noteq> [] \<Longrightarrow> call_parameters_of lib (batch_call n) = Some \<lparr>cp_name = n, cp_arguments = None\<rparr>"
  by (simp add: call_parameters_of_def into_params_def batch_call_def into_struct_def call_field_for field_setters into_string_def Let_def)

text \<open>
  A batch with a modern request in it is refused, but not as a whole: the calls in front of that
  request have run and changed the state, and their results are not in the reply.
\<close>

theorem refused_batch_has_run_its_calls:
  assumes "requests_of (ml_parse lib body) = Some [batch_call n, example_call]"
    and "gm_get (rg_tools reg) n = Some t" and "n \<noteq> []" and "may_call p t"
  shows "\<exists>e. handle_legacy_batch lib render reg p batch_http body s
    = (rpc_json 400 (OneResponse (rpc_failed (rpc_id example_call) e)), snd (the (tl_handler t) [] s))"
proof -
  obtain e where e: "validate_http_request lib batch_http example_call = Inl (400, e)" using modern_call_fails by blast
  obtain r s1 where h: "the (tl_handler t) [] s = (r, s1)" by fastforce
  have "snd (dispatch lib render reg p (batch_call n) ''2025-03-26'' s) = s1"
    using assms h batch_call_parameters [OF assms(3), of lib]
    by (auto simp: dispatch_def call_tool_def batch_call_def is_notification_def split: sum.split)
  then obtain x where d: "dispatch lib render reg p (batch_call n) ''2025-03-26'' s = (x, s1)"
    by (cases "dispatch lib render reg p (batch_call n) ''2025-03-26'' s") auto
  have "batch_loop lib render reg p batch_http [batch_call n, example_call] [] [] s
      = (rpc_json 400 (OneResponse (rpc_failed (rpc_id example_call) e)), s1)"
    by (simp add: batch_call_validates e d)
  moreover have "single_header (mq_version batch_http) = ([], False, True)" "first_value (mq_op batch_http) = []" "first_value (mq_name batch_http) = []"
    by (simp_all add: batch_http_def single_header_def first_value_def)
  ultimately show ?thesis
    using h by (intro exI [of _ e]) (simp add: handle_legacy_batch_def assms(1) is_modern_protocol_def modern_protocol_def)
qed

definition counting_tool :: "(nat, nat) tool" where
  "counting_tool = \<lparr>tl_definition = \<lparr>td_name = ''count'', td_title = [], td_description = [], td_schema = JsNull, td_annotations = JsNull\<rparr>,
     tl_scope = [], tl_handler = Some (\<lambda>_ n. (Inr n, Suc n))\<rparr>"

definition batch_lib :: mcp_lib where
  "batch_lib = example_lib\<lparr>ml_parse := \<lambda>_. Some (JsArray
     [JsObject [(''jsonrpc'', JsString ''2.0''), (''id'', JsNumber (Whole 1)), (''met'' @ ''hod'', JsString ''tools/call''),
        (''params'', JsObject [(''name'', JsString ''count'')])],
      JsObject [(''jsonrpc'', JsString ''2.0''), (''id'', JsNumber (Whole 1)), (''met'' @ ''hod'', JsString ''tools/call''),
        (''params'', the (rpc_params example_call))]])\<rparr>"

lemma batch_lib_requests: "requests_of (ml_parse batch_lib []) = Some [batch_call ''count'', example_call]"
  by (simp add: batch_lib_def requests_of_def into_slice_def into_request_def into_struct_def request_fields_def field_for_def
      into_string_def empty_request_def Let_def batch_call_def) (simp add: example_call_def)

theorem refused_batch_has_run_its_calls_witness:
  "\<exists>reg e. rg_register counting_tool empty_registry = Inr reg
    \<and> handle_legacy_batch batch_lib (\<lambda>_. None) reg (example_principal []) batch_http [] (0 :: nat)
      = (rpc_json 400 (OneResponse (rpc_failed (rpc_id example_call) e)), 1)"
proof -
  obtain reg where reg: "rg_register counting_tool empty_registry = Inr reg"
    by (simp add: rg_register_def counting_tool_def empty_registry_def)
  have t: "gm_get (rg_tools reg) ''count'' = Some counting_tool" "may_call (example_principal []) counting_tool"
    by (simp_all add: rg_register_get [OF reg] counting_tool_def may_call_def)
  from refused_batch_has_run_its_calls [OF batch_lib_requests t(1) _ t(2), of "\<lambda>_. None" 0] reg show ?thesis
    by (auto simp: counting_tool_def)
qed

section \<open>Encoded names\<close>

lemma b64_back_all:
  "list_all (\<lambda>c. std_to_url (url_to_std c) = c \<and> url_to_std c \<notin> {CHR ''-'', CHR ''_'', CHR ''=''}
     \<and> byte (url_to_std c) \<noteq> 10 \<and> byte (url_to_std c) \<noteq> 13) b64_alphabet"
  by (simp add: b64_alphabet_def std_to_url_def url_to_std_def byte_def)

lemma b64_back:
  assumes "c \<in> set (b64_encode s)"
  shows "std_to_url (url_to_std c) = c" "url_to_std c \<noteq> CHR ''-''" "url_to_std c \<noteq> CHR ''_''"
    "url_to_std c \<noteq> CHR ''=''" "byte (url_to_std c) \<noteq> 10" "byte (url_to_std c) \<noteq> 13"
  using b64_back_all b64_encode_mem [OF assms] by (auto simp: list_all_iff)

lemma b64_length_mod: "length (b64_encode s) mod 4 \<noteq> 1"
  by (induction s rule: b64_encode.induct) (auto simp: Let_def)

lemma byte_equals: "byte CHR ''='' = 61"
  by (simp add: byte_def)

lemma unpadded_replicate: "CHR ''='' \<notin> set t \<Longrightarrow> n \<le> 2 \<Longrightarrow> unpadded (t @ replicate n (CHR ''='')) = t"
proof -
  assume t: "CHR ''='' \<notin> set t" and n: "n \<le> 2"
  then consider "n = 0" | "n = 1" | "n = 2" by linarith
  then show ?thesis
  proof cases
    case 1
    then show ?thesis using t by (cases t rule: rev_cases) (auto simp: unpadded_def has_suffix_def trim_suffix_def Cons_eq_append_conv)
  next
    case 2
    have "\<not> has_suffix (t @ ''='') ''==''" using t by (cases t rule: rev_cases) (auto simp: has_suffix_def)
    moreover have "trim_suffix (t @ ''='') ''='' = t" by (simp add: trim_suffix_def has_suffix_def)
    ultimately show ?thesis using 2 by (simp add: unpadded_def)
  next
    case 3
    then have "replicate n (CHR ''='') = ''==''" by (simp add: numeral_2_eq_2)
    then show ?thesis by (simp add: unpadded_def has_suffix_def)
  qed
qed

lemma padding_length:
  fixes l :: nat
  assumes "l mod 4 \<noteq> 1"
  shows "(4 - l mod 4) mod 4 \<le> 2" "(l + (4 - l mod 4) mod 4) mod 4 = 0"
proof -
  have "l mod 4 < 4" by simp
  then consider "l mod 4 = 0" | "l mod 4 = 2" | "l mod 4 = 3" using assms by linarith
  then have "(4 - l mod 4) mod 4 \<le> 2 \<and> (l + (4 - l mod 4) mod 4) mod 4 = 0"
  proof cases
    case 2
    then have "(l + 2) mod 4 = 0" by presburger
    then show ?thesis using 2 by simp
  next
    case 3
    then have "(l + 1) mod 4 = 0" by presburger
    then show ?thesis using 3 by simp
  qed simp
  then show "(4 - l mod 4) mod 4 \<le> 2" "(l + (4 - l mod 4) mod 4) mod 4 = 0" by simp_all
qed

lemma std_round_trip: "std_decode (std_encode s) = Some s"
proof -
  let ?t = "map url_to_std (b64_encode s)"
  define n where "n = (4 - length ?t mod 4) mod 4"
  have n: "n \<le> 2" using padding_length(1) [OF b64_length_mod [of s]] by (simp add: n_def)
  have "CHR ''='' \<notin> set ?t" using b64_back(4) by (metis (no_types, lifting) image_iff list.set_map)
  then have body: "unpadded (?t @ replicate n (CHR ''='')) = ?t" using n by (rule unpadded_replicate)
  have newline: "filter (\<lambda>c. byte c \<noteq> 10 \<and> byte c \<noteq> 13) (?t @ replicate n (CHR ''='')) = ?t @ replicate n (CHR ''='')"
  proof (rule filter_True, rule ballI)
    fix c assume "c \<in> set (?t @ replicate n (CHR ''=''))"
    then consider "c = CHR ''=''" | d where "d \<in> set (b64_encode s)" "c = url_to_std d" by (auto split: if_splits)
    then show "byte c \<noteq> 10 \<and> byte c \<noteq> 13" by cases (simp_all add: byte_equals b64_back)
  qed
  have "map std_to_url ?t = b64_encode s" using b64_back(1) by (simp add: map_idI)
  moreover have "(length ?t + n) mod 4 = 0" using padding_length(2) [OF b64_length_mod [of s]] by (simp add: n_def)
  moreover have "list_all (\<lambda>c. std_to_url c \<in> set b64_alphabet \<and> c \<noteq> CHR ''-'' \<and> c \<noteq> CHR ''_'') ?t"
    unfolding list_all_iff
  proof
    fix c assume "c \<in> set ?t"
    then obtain d where "d \<in> set (b64_encode s)" "c = url_to_std d" by auto
    then show "std_to_url c \<in> set b64_alphabet \<and> c \<noteq> CHR ''-'' \<and> c \<noteq> CHR ''_''" by (simp add: b64_back b64_encode_mem)
  qed
  moreover have "std_encode s = ?t @ replicate n (CHR ''='')" by (simp add: std_encode_def n_def)
  ultimately show ?thesis using newline body b64_round_trip by (simp add: std_decode_def Let_def)
qed

text \<open>
  A name of any characters survives its way through a header: a client that sends it in base 64
  between the markers names exactly that tool.
\<close>

theorem mirrored_header_round_trip:
  assumes "n \<noteq> []" and "utf8_valid n"
  shows "decode_mirrored_header (mirror_prefix @ std_encode n @ mirror_suffix) = Inr n"
proof -
  let ?v = "mirror_prefix @ std_encode n @ mirror_suffix"
  have "std_encode n \<noteq> []" using assms(1) by (cases n rule: b64_encode.cases) (simp_all add: std_encode_def Let_def)
  moreover have "has_prefix ?v mirror_prefix" "has_suffix ?v mirror_suffix" "trim_prefix ?v mirror_prefix = std_encode n @ mirror_suffix"
    "trim_suffix (std_encode n @ mirror_suffix) mirror_suffix = std_encode n"
    by (simp_all add: trim_prefix_def has_suffix_def trim_suffix_def)
  ultimately show ?thesis using assms(2) std_round_trip [of n] by (simp add: decode_mirrored_header_def Let_def)
qed

theorem mirrored_header_round_trip_witness:
  "decode_mirrored_header (mirror_prefix @ std_encode [CHR 0xC3, CHR 0xA9] @ mirror_suffix) = Inr [CHR 0xC3, CHR 0xA9]"
  by (rule mirrored_header_round_trip) (simp_all add: utf8_valid_def segs.simps(2) decode1_def byte_def in_range_def)

end
