(* ===== verification/Session.thy ===== *)
theory Session
  imports StateFiles OAuthChecks
begin

text \<open>
  \<open>internal/session/session.go\<close>: the saved conversation of a workspace, how a patch is merged into it
  and which conversation mode follows from it.
\<close>

section \<open>Data\<close>

datatype conversation_mode = NoMode | LongChat | ProjectMode | OtherMode string

record saved_session =
  ss_url :: string
  ss_title :: string
  ss_task :: string
  ss_iteration :: int
  ss_last_state :: string
  ss_saved_at :: string
  ss_mode :: conversation_mode
  ss_project :: string
  ss_connector :: string

definition empty_session :: saved_session where
  "empty_session = \<lparr>ss_url = [], ss_title = [], ss_task = [], ss_iteration = 0, ss_last_state = [], ss_saved_at = [],
     ss_mode = NoMode, ss_project = [], ss_connector = []\<rparr>"

record session_patch =
  sp_url :: "string option"
  sp_title :: "string option"
  sp_task :: "string option"
  sp_iteration :: "int option"
  sp_last_state :: "string option"
  sp_mode :: "conversation_mode option"
  sp_project :: "string option"
  sp_connector :: "string option"

definition empty_patch :: session_patch where
  "empty_patch = \<lparr>sp_url = None, sp_title = None, sp_task = None, sp_iteration = None, sp_last_state = None, sp_mode = None,
     sp_project = None, sp_connector = None\<rparr>"

record session_view =
  vw_mode :: conversation_mode
  vw_reason :: string
  vw_project :: "string option"
  vw_project_ready :: bool
  vw_chat :: "string option"
  vw_connector :: "string option"
  vw_reuse :: bool

section \<open>Project addresses\<close>

text \<open>The path \<open>/g/(g-p-[A-Za-z0-9]+)/project/?\<close>: the captured identifier.\<close>

definition project_id :: "string \<Rightarrow> string option" where
  "project_id path =
    (let body = (if has_suffix path ''/project/'' then trim_suffix path ''/project/'' else trim_suffix path ''/project'');
         i = trim_prefix body ''/g/''
     in if (has_suffix path ''/project/'' \<or> has_suffix path ''/project'') \<and> has_prefix body ''/g/''
           \<and> has_prefix i ''g-p-'' \<and> 4 < length i \<and> list_all alnum (drop 4 i)
        then Some i else None)"

definition normalize_project_url :: "string \<Rightarrow> string + string" where
  "normalize_project_url v =
    (case url_parse (trim_space v) of
       None \<Rightarrow> Inl ''project URL must be a chatgpt.com Project URL''
     | Some u \<Rightarrow>
        if u_scheme u \<noteq> ''https'' \<or> u_user u \<noteq> None \<or> u_fragment u \<noteq> []
           \<or> url_hostname u \<noteq> ''chatgpt.com'' \<and> url_hostname u \<noteq> ''www.chatgpt.com''
        then Inl ''project URL must be a chatgpt.com Project URL''
        else case project_id (u_path u) of
          None \<Rightarrow> Inl ''project URL must look like https://chatgpt.com/g/g-p-.../project''
        | Some i \<Rightarrow> Inr (''https://chatgpt.com/g/'' @ i @ ''/project''))"

section \<open>Resolving and merging\<close>

definition nonempty :: "string \<Rightarrow> string option" where
  "nonempty s = (if s \<noteq> [] then Some s else None)"

definition resolve_session :: "saved_session option \<Rightarrow> session_view" where
  "resolve_session saved =
    (case saved of
       None \<Rightarrow> \<lparr>vw_mode = ProjectMode, vw_reason = ''new-workspace'', vw_project = None, vw_project_ready = False,
         vw_chat = None, vw_connector = None, vw_reuse = False\<rparr>
     | Some s \<Rightarrow>
        let project = (if ss_project s \<noteq> [] then (case normalize_project_url (ss_project s) of Inl _ \<Rightarrow> None | Inr p \<Rightarrow> Some p) else None);
            chat = nonempty (ss_url s); connector = nonempty (ss_connector s)
        in if ss_mode s = ProjectMode \<or> project \<noteq> None
           then \<lparr>vw_mode = ProjectMode, vw_reason = ''project'', vw_project = project, vw_project_ready = (project \<noteq> None),
             vw_chat = chat, vw_connector = connector, vw_reuse = False\<rparr>
           else \<lparr>vw_mode = LongChat, vw_reason = ''existing-long-chat'', vw_project = None, vw_project_ready = False,
             vw_chat = chat, vw_connector = connector, vw_reuse = (chat \<noteq> None)\<rparr>)"

definition patched :: "'a option \<Rightarrow> 'a \<Rightarrow> 'a" where
  "patched p old = (case p of None \<Rightarrow> old | Some x \<Rightarrow> x)"

text \<open>\<open>now\<close> is the text of the clock reading.\<close>

definition merge_session :: "string \<Rightarrow> saved_session option \<Rightarrow> session_patch \<Rightarrow> string + saved_session" where
  "merge_session now previous p =
    (let old = (case previous of None \<Rightarrow> empty_session | Some s \<Rightarrow> s);
         new = old\<lparr>ss_url := patched (sp_url p) (ss_url old), ss_title := patched (sp_title p) (ss_title old),
           ss_task := patched (sp_task p) (ss_task old), ss_iteration := patched (sp_iteration p) (ss_iteration old),
           ss_last_state := patched (sp_last_state p) (ss_last_state old), ss_mode := patched (sp_mode p) (ss_mode old),
           ss_connector := patched (sp_connector p) (ss_connector old)\<rparr>
     in case (case sp_project p of None \<Rightarrow> Inr (ss_project old) | Some v \<Rightarrow> normalize_project_url v) of
          Inl e \<Rightarrow> Inl e
        | Inr project \<Rightarrow>
           let next = new\<lparr>ss_project := project\<rparr>
           in if ss_mode next = ProjectMode \<and> project = [] then Inl ''project mode requires --project-url''
              else if ss_url next = [] \<and> project = [] \<and> ss_task next = [] \<and> ss_mode next = NoMode then Inl ''nothing to save''
              else Inr (next\<lparr>ss_saved_at := now\<rparr>))"

section \<open>The file of a session\<close>

record session_io =
  si_root :: string
  si_mkdir :: "string option"
  si_read :: "string option"
  si_write :: write_faults
  si_remove :: "string option"
  si_now :: string
  si_decode :: "string \<Rightarrow> saved_session option"
  si_encode :: "saved_session \<Rightarrow> string + string"

definition read_session :: "session_io \<Rightarrow> string \<Rightarrow> disk \<Rightarrow> string + saved_session option" where
  "read_session io workspace_id d = repo_read_json (si_root io) (si_mkdir io) (si_read io) (si_decode io) ''sessions'' workspace_id d"

definition write_session :: "session_io \<Rightarrow> string \<Rightarrow> saved_session \<Rightarrow> disk \<Rightarrow> (string + saved_session) \<times> disk" where
  "write_session io workspace_id s d =
    (let s' = s\<lparr>ss_saved_at := si_now io\<rparr>
     in case repo_write_json (si_root io) (si_write io) ''sessions'' workspace_id (si_encode io s') d of
          (Some e, d') \<Rightarrow> (Inl e, d') | (None, d') \<Rightarrow> (Inr s', d'))"

text \<open>Whether something was cleared, whether a project was kept, and the error.\<close>

definition clear_chat :: "session_io \<Rightarrow> string \<Rightarrow> disk \<Rightarrow> (bool \<times> bool \<times> string option) \<times> disk" where
  "clear_chat io workspace_id d =
    (case read_session io workspace_id d of
       Inl e \<Rightarrow> ((False, False, Some e), d)
     | Inr None \<Rightarrow> ((False, False, None), d)
     | Inr (Some saved) \<Rightarrow>
        let view = resolve_session (Some saved)
        in case vw_project view of
             Some project \<Rightarrow>
               if vw_mode view = ProjectMode
               then (case write_session io workspace_id
                       (empty_session\<lparr>ss_mode := ProjectMode, ss_project := project, ss_connector := ss_connector saved\<rparr>) d of
                     (r, d') \<Rightarrow> ((True, True, case r of Inl e \<Rightarrow> Some e | Inr _ \<Rightarrow> None), d'))
               else (case repo_remove (si_root io) (si_mkdir io) (si_remove io) ''sessions'' workspace_id ''.json'' d of
                     (e, d') \<Rightarrow> ((True, False, e), d'))
           | None \<Rightarrow> (case repo_remove (si_root io) (si_mkdir io) (si_remove io) ''sessions'' workspace_id ''.json'' d of
                     (e, d') \<Rightarrow> ((True, False, e), d')))"

section \<open>Normal forms\<close>

definition project_url :: "string \<Rightarrow> string" where
  "project_url i = ''https://chatgpt.com'' @ ''/g/'' @ i @ ''/project''"

definition project_ident :: "string \<Rightarrow> bool" where
  "project_ident i \<longleftrightarrow> has_prefix i ''g-p-'' \<and> 4 < length i \<and> list_all alnum (drop 4 i)"

lemma normalize_form: "normalize_project_url v = Inr p \<Longrightarrow> \<exists>i. p = project_url i \<and> project_ident i"
  by (auto simp: normalize_project_url_def project_url_def project_ident_def project_id_def Let_def split: option.splits if_splits)

lemma has_suffix_last: "has_suffix s p \<Longrightarrow> p \<noteq> [] \<Longrightarrow> last s = last p"
  by (auto simp: has_suffix_def) (metis drop_eq_Nil2 last_drop list.size(3) not_le_imp_less)

lemma project_id_of: "project_ident i \<Longrightarrow> project_id (''/g/'' @ i @ ''/project'') = Some i"
proof -
  assume i: "project_ident i"
  have "\<not> has_suffix (''/g/'' @ i @ ''/project'') ''/project/''" by (auto dest: has_suffix_last)
  moreover have "has_suffix (''/g/'' @ i @ ''/project'') ''/project''" "trim_suffix (''/g/'' @ i @ ''/project'') ''/project'' = ''/g/'' @ i"
    by (simp_all add: has_suffix_def trim_suffix_def)
  moreover have "has_prefix (''/g/'' @ i) ''/g/''" "trim_prefix (''/g/'' @ i) ''/g/'' = i"
    by (simp_all add: has_prefix_def trim_prefix_def)
  ultimately show ?thesis using i unfolding project_id_def project_ident_def by (simp add: Let_def)
qed

text \<open>A path of letters, digits, hyphens and slashes is read as it stands.\<close>

definition path_char :: "char \<Rightarrow> bool" where
  "path_char c \<longleftrightarrow> alnum c \<or> c = CHR ''-'' \<or> c = CHR ''/''"

lemma path_char_plain:
  assumes "path_char c"
  shows "c \<noteq> CHR ''#''" "c \<noteq> CHR ''?''" "c \<noteq> CHR ''%''" "\<not> control_byte c" "\<not> should_escape EncodePath c"
  using assms by (auto simp: path_char_def alnum_def in_range_def byte_def control_byte_def should_escape_def)

lemma path_plain:
  assumes "list_all path_char p"
  shows "CHR ''#'' \<notin> set p" "CHR ''?'' \<notin> set p" "\<not> list_ex control_byte p" "url_unescape EncodePath p = Some p" "url_escape EncodePath p = p"
proof -
  have "c \<in> set p \<Longrightarrow> path_char c" for c using assms by (simp add: list_all_iff)
  then show "CHR ''#'' \<notin> set p" "CHR ''?'' \<notin> set p" using path_char_plain(1,2) by blast+
  show "\<not> list_ex control_byte p" "url_unescape EncodePath p = Some p" "url_escape EncodePath p = p"
    using assms by (induction p) (auto simp: path_char_plain url_escape_def)
qed

lemma cut_nothing: "c \<notin> set s \<Longrightarrow> cut c s = (s, [])"
  by (induction s) (auto simp: cut_def)

lemma url_parse_plain:
  assumes "list_all path_char p" and "p = CHR ''/'' # q"
  shows "url_parse (''https://chatgpt.com'' @ p) = Some (empty_url\<lparr>u_scheme := ''https'', u_host := ''chatgpt.com'', u_path := p\<rparr>)"
proof -
  note plain = path_plain [OF assms(1)]
  define raw rest where "raw = ''https://chatgpt.com'' @ p" and "rest = ''//chatgpt.com'' @ p"
  have cuts: "cut CHR ''#'' raw = (raw, [])" "cut CHR ''?'' rest = (rest, [])"
    using plain by (intro cut_nothing; simp add: raw_def rest_def)+
  have scheme: "scheme_loop [] raw = Some (''https'', rest)" by (simp add: raw_def rest_def in_range_def byte_def)
  have bytes: "\<not> list_ex control_byte raw" using plain by (simp add: raw_def control_byte_def byte_def)
  have "CHR ''?'' \<notin> set rest" using plain by (simp add: rest_def)
  then have query: "filter (\<lambda>c. c = CHR ''?'') rest = []" by (auto simp: filter_empty_conv)
  have "parse_authority ''chatgpt.com'' = Some (None, ''chatgpt.com'')" by (simp add: url_eval)
  then have "parse_rest rest (empty_url\<lparr>u_scheme := ''https'', u_raw_query := []\<rparr>)
      = Some (empty_url\<lparr>u_scheme := ''https'', u_host := ''chatgpt.com'', u_path := p\<rparr>)"
    using plain assms(2) by (simp add: rest_def parse_rest_def set_path_def empty_url_def has_prefix_def)
  moreover have "to_lower id ''https'' = ''https''" by (simp add: url_eval)
  moreover have "raw \<noteq> ''*''" by (simp add: raw_def)
  ultimately show ?thesis
    unfolding raw_def [symmetric] by (simp add: url_parse_def cuts parse_no_fragment_def scheme bytes query Let_def)
qed

lemma project_ident_chars:
  assumes "project_ident i"
  shows "list_all path_char (''/g/'' @ i @ ''/project'')"
proof -
  have "take 4 i = ''g-p-''" using assms by (simp add: project_ident_def has_prefix_def eval_nat_numeral)
  then have "list_all path_char (take 4 i)" by (simp add: path_char_def alnum_def in_range_def byte_def)
  moreover have "list_all path_char (drop 4 i)" using assms by (auto simp: project_ident_def list_all_iff path_char_def)
  ultimately have "list_all path_char i" by (metis append_take_drop_id list_all_append)
  then show ?thesis by (simp add: path_char_def alnum_def in_range_def byte_def)
qed

lemma normalize_project_url: 
  assumes "project_ident i"
  shows "normalize_project_url (project_url i) = Inr (project_url i)"
proof -
  let ?p = "''/g/'' @ i @ ''/project''"
  have "list_all path_char ?p" by (rule project_ident_chars [OF assms])
  then have ascii: "is_ascii ?p" by (auto simp: is_ascii_def path_char_def alnum_def in_range_def byte_def list_all_iff)
  have "trim_space (project_url i) = project_url i"
    by (rule trim_space_id) (use ascii in \<open>simp_all add: project_url_def is_space_def byte_def\<close>)
  moreover have "url_parse (project_url i) = Some (empty_url\<lparr>u_scheme := ''https'', u_host := ''chatgpt.com'', u_path := ?p\<rparr>)"
    unfolding project_url_def by (rule url_parse_plain [OF project_ident_chars [OF assms]]) simp
  moreover have "url_hostname (empty_url\<lparr>u_scheme := ''https'', u_host := ''chatgpt.com'', u_path := ?p\<rparr>) = ''chatgpt.com''"
    by (simp add: url_eval)
  ultimately show ?thesis
    using project_id_of [OF assms] by (simp add: normalize_project_url_def empty_url_def) (simp add: project_url_def)
qed

section \<open>What merging keeps\<close>

definition session_ok :: "saved_session \<Rightarrow> bool" where
  "session_ok s \<longleftrightarrow> (ss_project s = [] \<or> (\<exists>i. project_ident i \<and> ss_project s = project_url i))
     \<and> (ss_mode s = ProjectMode \<longrightarrow> ss_project s \<noteq> [])"

lemma merge_keeps_ok:
  assumes "merge_session now previous p = Inr s" and "\<forall>s0. previous = Some s0 \<longrightarrow> session_ok s0"
  shows "session_ok s"
proof -
  let ?old = "case previous of None \<Rightarrow> empty_session | Some s \<Rightarrow> s"
  obtain project where p: "(case sp_project p of None \<Rightarrow> Inr (ss_project ?old) | Some v \<Rightarrow> normalize_project_url v) = Inr project"
    and s: "ss_project s = project" "ss_mode s = ProjectMode \<longrightarrow> project \<noteq> []"
    using assms(1) unfolding merge_session_def Let_def by (force split: sum.splits if_splits)
  have "project = [] \<or> (\<exists>i. project_ident i \<and> project = project_url i)"
  proof (cases "sp_project p")
    case None
    then show ?thesis using p assms(2) by (auto simp: session_ok_def empty_session_def split: option.splits)
  next
    case (Some v)
    then show ?thesis using p normalize_form [of v project] by auto
  qed
  then show ?thesis using s by (auto simp: session_ok_def)
qed

lemma project_url_nonempty: "project_url i \<noteq> []"
  by (simp add: project_url_def)

lemma resolve_ok:
  assumes "session_ok s"
  shows "vw_project (resolve_session (Some s)) = nonempty (ss_project s)"
    and "vw_mode (resolve_session (Some s)) = (if ss_project s \<noteq> [] then ProjectMode else LongChat)"
    and "vw_project_ready (resolve_session (Some s)) \<longleftrightarrow> ss_project s \<noteq> []"
proof -
  have n: "ss_project s \<noteq> [] \<Longrightarrow> normalize_project_url (ss_project s) = Inr (ss_project s)"
    using assms normalize_project_url by (auto simp: session_ok_def)
  then show "vw_project (resolve_session (Some s)) = nonempty (ss_project s)"
    "vw_mode (resolve_session (Some s)) = (if ss_project s \<noteq> [] then ProjectMode else LongChat)"
    "vw_project_ready (resolve_session (Some s)) \<longleftrightarrow> ss_project s \<noteq> []"
    using assms by (auto simp: session_ok_def resolve_session_def nonempty_def Let_def)
qed

text \<open>The sessions of a workspace: patches arrive one after the other, a refused one changes nothing.\<close>

fun run_patches :: "(string \<times> session_patch) list \<Rightarrow> saved_session option \<Rightarrow> saved_session option" where
  "run_patches [] s = s"
| "run_patches ((now, p) # ps) s =
    run_patches ps (case merge_session now s p of Inl _ \<Rightarrow> s | Inr s' \<Rightarrow> Some s')"

lemma run_patches_ok: "\<forall>s0. s = Some s0 \<longrightarrow> session_ok s0 \<Longrightarrow> run_patches ps s = Some s' \<Longrightarrow> session_ok s'"
proof (induction ps arbitrary: s)
  case (Cons q ps)
  obtain now p where q: "q = (now, p)" by (cases q)
  show ?case
  proof (cases "merge_session now s p")
    case (Inl e)
    then show ?thesis using Cons by (simp add: q)
  next
    case (Inr s1)
    then have "session_ok s1" by (rule merge_keeps_ok [OF _ Cons.prems(1)])
    then show ?thesis using Cons.IH [of "Some s1"] Cons.prems(2) Inr by (simp add: q)
  qed
qed simp

text \<open>
  However a session was patched together, it resolves: a saved project address is in normal form, the
  view is in project mode exactly when there is one, and it is then ready.
\<close>

theorem patched_sessions_resolve:
  assumes "run_patches ps None = Some s"
  shows "vw_project (resolve_session (Some s)) = nonempty (ss_project s)
     \<and> (vw_mode (resolve_session (Some s)) = ProjectMode \<longleftrightarrow> ss_project s \<noteq> [])
     \<and> (vw_project_ready (resolve_session (Some s)) \<longleftrightarrow> ss_project s \<noteq> [])
     \<and> (ss_project s = [] \<or> normalize_project_url (ss_project s) = Inr (ss_project s))"
proof -
  have ok: "session_ok s" using run_patches_ok [of None ps s] assms by simp
  then show ?thesis using resolve_ok [OF ok] by (auto simp: session_ok_def normalize_project_url)
qed

text \<open>
  Once a project is saved, choosing the long chat is accepted and recorded but has no effect: the
  session still resolves to the project, and no patch takes the project away.
\<close>

theorem long_chat_choice_is_ignored:
  assumes "normalize_project_url (ss_project old) = Inr p" and "ss_project old \<noteq> []"
  shows "\<exists>s. merge_session now (Some old) (empty_patch\<lparr>sp_mode := Some LongChat\<rparr>) = Inr s \<and> ss_mode s = LongChat
    \<and> vw_mode (resolve_session (Some s)) = ProjectMode"
  using assms by (auto simp: merge_session_def empty_patch_def patched_def resolve_session_def Let_def)

definition example_patch :: session_patch where
  "example_patch = empty_patch\<lparr>sp_mode := Some ProjectMode, sp_project := Some (project_url ''g-p-ab'')\<rparr>"

lemma example_ident: "project_ident ''g-p-ab''"
  by (simp add: project_ident_def has_prefix_def alnum_def in_range_def byte_def)

theorem patched_sessions_resolve_witness:
  "\<exists>s. run_patches [(''now'', example_patch)] None = Some s \<and> vw_project_ready (resolve_session (Some s))"
proof -
  obtain s where s: "run_patches [(''now'', example_patch)] None = Some s" "ss_project s \<noteq> []"
    by (simp add: merge_session_def example_patch_def empty_patch_def patched_def normalize_project_url [OF example_ident]
        project_url_nonempty Let_def)
  from patched_sessions_resolve [OF s(1)] s show ?thesis by blast
qed

theorem long_chat_choice_is_ignored_witness:
  "\<exists>s. merge_session ''now'' (Some (empty_session\<lparr>ss_mode := ProjectMode, ss_project := project_url ''g-p-ab''\<rparr>))
      (empty_patch\<lparr>sp_mode := Some LongChat\<rparr>) = Inr s \<and> vw_mode (resolve_session (Some s)) = ProjectMode"
  using long_chat_choice_is_ignored [of "empty_session\<lparr>ss_mode := ProjectMode, ss_project := project_url ''g-p-ab''\<rparr>"]
    normalize_project_url [OF example_ident] project_url_nonempty by fastforce

end
