(* ===== verification/Tunnel.thy ===== *)
theory Tunnel
  imports StateFiles ControlModel
begin

text \<open>
  \<open>internal/tunnel/state.go\<close> and the provisioning of \<open>internal/tunnel/provision.go\<close>: host names, the saved
  tunnel of a workspace, and how a named tunnel is set up or given up.  The Cloudflare account is an
  interface; \<open>low\<close> is the lower-casing of characters beyond ASCII.
\<close>

section \<open>The saved tunnel\<close>

datatype preference = Unset | Quick | Named | OtherPreference string

record tunnel_state =
  ts_workspace :: string
  ts_preference :: preference
  ts_asked :: string
  ts_provider :: string
  ts_name :: string
  ts_tunnel_id :: string
  ts_hostname :: string
  ts_zone :: string
  ts_configured :: string
  ts_reason :: string

definition unset_tunnel :: "string \<Rightarrow> tunnel_state" where
  "unset_tunnel workspace_id = \<lparr>ts_workspace = workspace_id, ts_preference = Unset, ts_asked = [], ts_provider = [], ts_name = [],
     ts_tunnel_id = [], ts_hostname = [], ts_zone = [], ts_configured = [], ts_reason = []\<rparr>"

text \<open>Decoding starts from the unset state; an empty preference is \<open>OtherPreference []\<close>.\<close>

record tunnel_io =
  ti_root :: string
  ti_mkdir :: "string option"
  ti_read :: "string option"
  ti_write :: write_faults
  ti_now :: "nat \<Rightarrow> string"
  ti_decode :: "tunnel_state \<Rightarrow> string \<Rightarrow> tunnel_state option"
  ti_encode :: "tunnel_state \<Rightarrow> string + string"

definition read_tunnel :: "tunnel_io \<Rightarrow> string \<Rightarrow> disk \<Rightarrow> string + tunnel_state" where
  "read_tunnel io workspace_id d =
    (case repo_read_json (ti_root io) (ti_mkdir io) (ti_read io) (ti_decode io (unset_tunnel workspace_id)) ''tunnels'' workspace_id d of
       Inl e \<Rightarrow> Inl e
     | Inr None \<Rightarrow> Inr (unset_tunnel workspace_id)
     | Inr (Some s) \<Rightarrow> Inr (s\<lparr>ts_workspace := (if ts_workspace s = [] then workspace_id else ts_workspace s),
         ts_preference := (if ts_preference s = OtherPreference [] then Unset else ts_preference s)\<rparr>))"

definition write_tunnel :: "tunnel_io \<Rightarrow> tunnel_state \<Rightarrow> disk \<Rightarrow> (string + tunnel_state) \<times> disk" where
  "write_tunnel io s d =
    (if ts_workspace s = [] then (Inl ''workspace ID is required'', d)
     else case repo_write_json (ti_root io) (ti_write io) ''tunnels'' (ts_workspace s) (ti_encode io s) d of
       (Some e, d') \<Rightarrow> (Inl e, d') | (None, d') \<Rightarrow> (Inr s, d'))"

definition needs_choice :: "tunnel_state \<Rightarrow> bool" where
  "needs_choice s \<longleftrightarrow> ts_preference s = Unset \<or> ts_asked s = []"

definition named_ready :: "tunnel_state \<Rightarrow> bool" where
  "named_ready s \<longleftrightarrow> ts_preference s = Named \<and> trim_space (ts_name s) \<noteq> [] \<and> trim_space (ts_hostname s) \<noteq> []"

definition choose_quick :: "tunnel_io \<Rightarrow> string \<Rightarrow> string \<Rightarrow> disk \<Rightarrow> (string + tunnel_state) \<times> disk" where
  "choose_quick io workspace_id reason =
    write_tunnel io ((unset_tunnel workspace_id)\<lparr>ts_preference := Quick, ts_asked := ti_now io 0, ts_provider := ''cloudflare-quick'',
      ts_reason := reason\<rparr>)"

section \<open>Host names\<close>

text \<open>
  The letters of \<open>(?i:[a-z0-9])\<close>: besides ASCII, the two characters whose case folding is an ASCII letter,
  the long s and the Kelvin sign.
\<close>

definition host_letter :: "nat \<Rightarrow> bool" where
  "host_letter r \<longleftrightarrow> 97 \<le> r \<and> r \<le> 122 \<or> 65 \<le> r \<and> r \<le> 90 \<or> 48 \<le> r \<and> r \<le> 57 \<or> r = 0x17F \<or> r = 0x212A"

definition host_label :: "string \<Rightarrow> bool" where
  "host_label l \<longleftrightarrow> (let rs = runes l in
     rs \<noteq> [] \<and> length rs \<le> 63 \<and> host_letter (hd rs) \<and> host_letter (last rs)
     \<and> list_all (\<lambda>r. host_letter r \<or> r = 45) rs)"

definition hostname_matches :: "string \<Rightarrow> bool" where
  "hostname_matches h \<longleftrightarrow> (let ls = split_on CHR ''.'' h in 2 \<le> length ls \<and> list_all host_label ls)"

definition normalize_hostname :: "(nat \<Rightarrow> nat) \<Rightarrow> string \<Rightarrow> string + string" where
  "normalize_hostname low v =
    (let host = to_lower low (trim_suffix (trim_space v) ''.'')
     in if length host < 3 \<or> 253 < length host \<or> \<not> hostname_matches host then Inl (''invalid DNS hostname: '' @ v) else Inr host)"

definition parse_zone :: "(nat \<Rightarrow> nat) \<Rightarrow> string \<Rightarrow> string + string" where
  "parse_zone low v =
    (let s = trim_prefix (trim_prefix (trim_space v) ''https://'') ''http://''
     in normalize_hostname low (takeWhile (\<lambda>c. c \<noteq> slash) s))"

definition slug_letter :: "nat \<Rightarrow> bool" where
  "slug_letter r \<longleftrightarrow> 97 \<le> r \<and> r \<le> 122 \<or> 48 \<le> r \<and> r \<le> 57"

text \<open>The loop over the lower-cased name: the text built so far, and whether a hyphen was last.\<close>

fun slug_loop :: "nat list \<Rightarrow> string \<Rightarrow> bool \<Rightarrow> string" where
  "slug_loop [] b hyphen = b"
| "slug_loop (r # rs) b hyphen =
    (let (b', hyphen') = (if slug_letter r then (b @ [char_of r], False)
                          else if b \<noteq> [] \<and> \<not> hyphen then (b @ ''-'', True) else (b, hyphen))
     in if 30 \<le> length b' then b' else slug_loop rs b' hyphen')"

definition hostname_slug :: "(nat \<Rightarrow> nat) \<Rightarrow> string \<Rightarrow> string \<Rightarrow> string" where
  "hostname_slug low workspace_name workspace_id =
    (let label = trim_right_chars ''-'' (trim_left_chars ''-'' (slug_loop (runes (to_lower low workspace_name)) [] False))
     in ''codexlink-'' @ (if label = [] then ''ws-'' @ take 8 workspace_id else label))"

definition suggested_hostname :: "(nat \<Rightarrow> nat) \<Rightarrow> string \<Rightarrow> string \<Rightarrow> string \<Rightarrow> string + string" where
  "suggested_hostname low zone workspace_name workspace_id =
    (case parse_zone low zone of Inl e \<Rightarrow> Inl e
     | Inr z \<Rightarrow> normalize_hostname low (hostname_slug low workspace_name workspace_id @ ''.'' @ z))"

definition stable_public_ref :: "(string \<Rightarrow> string) \<Rightarrow> string \<Rightarrow> string \<Rightarrow> string" where
  "stable_public_ref sha secret workspace_id = take 16 (hex_encode (sha (secret @ workspace_id)))"

section \<open>Named tunnels\<close>

record listed_tunnel =
  lt_id :: string
  lt_name :: string

text \<open>What the account answers.\<close>

record account =
  ac_has_cert :: bool
  ac_login :: "string option"
  ac_create :: "string \<Rightarrow> string + listed_tunnel"
  ac_route :: "string \<Rightarrow> string \<Rightarrow> string option"

record provision_result =
  pv_ok :: bool
  pv_state :: "tunnel_state option"
  pv_fallback :: bool
  pv_error :: string

definition fall_back :: "tunnel_io \<Rightarrow> string \<Rightarrow> string \<Rightarrow> string \<Rightarrow> disk \<Rightarrow> provision_result \<times> disk" where
  "fall_back io workspace_id reason err d =
    (case choose_quick io workspace_id reason d of
       (Inl e, d') \<Rightarrow> (\<lparr>pv_ok = False, pv_state = None, pv_fallback = True, pv_error = err @ ''; state: '' @ e\<rparr>, d')
     | (Inr s, d') \<Rightarrow> (\<lparr>pv_ok = True, pv_state = Some s, pv_fallback = True, pv_error = err\<rparr>, d'))"

definition provision_named ::
  "(nat \<Rightarrow> nat) \<Rightarrow> tunnel_io \<Rightarrow> account \<Rightarrow> string \<Rightarrow> string \<Rightarrow> string \<Rightarrow> string \<Rightarrow> disk \<Rightarrow> provision_result \<times> disk" where
  "provision_named low io ac workspace_id workspace_name zone0 hostname0 d =
    (case parse_zone low zone0 of
       Inl e \<Rightarrow> fall_back io workspace_id ''invalid_zone'' e d
     | Inr zone \<Rightarrow>
        (case (if hostname0 = [] then suggested_hostname low zone workspace_name workspace_id else normalize_hostname low hostname0) of
           Inl e \<Rightarrow> fall_back io workspace_id ''invalid_hostname'' e d
         | Inr hostname \<Rightarrow>
            (case (if ac_has_cert ac then None else ac_login ac) of
               Some e \<Rightarrow> fall_back io workspace_id ''login_failed'' e d
             | None \<Rightarrow>
                (case ac_create ac (''codexlink-'' @ workspace_id) of
                   Inl e \<Rightarrow> fall_back io workspace_id ''create_failed'' e d
                 | Inr created \<Rightarrow>
                    (case ac_route ac (lt_name created) hostname of
                       Some e \<Rightarrow> fall_back io workspace_id ''dns_failed'' e d
                     | None \<Rightarrow>
                        (case write_tunnel io \<lparr>ts_workspace = workspace_id, ts_preference = Named, ts_asked = ti_now io 0,
                                ts_provider = ''cloudflare-named'', ts_name = lt_name created, ts_tunnel_id = lt_id created,
                                ts_hostname = hostname, ts_zone = zone, ts_configured = ti_now io 1, ts_reason = []\<rparr> d of
                           (Inl e, d') \<Rightarrow> fall_back io workspace_id ''state_failed'' e d'
                         | (Inr s, d') \<Rightarrow> (\<lparr>pv_ok = True, pv_state = Some s, pv_fallback = False, pv_error = []\<rparr>, d')))))))"

section \<open>Slugs are labels\<close>

lemma slug_loop_shape:
  "list_all (\<lambda>c. slug_letter (byte c) \<or> c = CHR ''-'') b \<Longrightarrow> length b < 30 \<Longrightarrow> (b = [] \<or> slug_letter (byte (hd b))) \<Longrightarrow>
    (let t = slug_loop rs b hyphen in
      list_all (\<lambda>c. slug_letter (byte c) \<or> c = CHR ''-'') t \<and> length t \<le> 30 \<and> (t = [] \<or> slug_letter (byte (hd t))))"
proof (induction rs arbitrary: b hyphen)
  case (Cons r rs)
  obtain b' hyphen' where step: "(if slug_letter r then (b @ [char_of r], False)
      else if b \<noteq> [] \<and> \<not> hyphen then (b @ ''-'', True) else (b, hyphen)) = (b', hyphen')" by fastforce
  have byte: "slug_letter r \<Longrightarrow> byte (char_of r) = r" by (rule byte_char_of) (auto simp: slug_letter_def)
  then have b': "list_all (\<lambda>c. slug_letter (byte c) \<or> c = CHR ''-'') b' \<and> length b' \<le> 30 \<and> (b' = [] \<or> slug_letter (byte (hd b')))"
    using step Cons.prems by (auto split: if_splits simp: hd_append)
  show ?case
  proof (cases "30 \<le> length b'")
    case True
    then show ?thesis using b' step by (simp add: Let_def)
  next
    case False
    then have "length b' < 30" by simp
    then show ?thesis using Cons.IH [of b' hyphen'] b' step by (simp add: Let_def)
  qed
qed simp

definition label_char :: "char \<Rightarrow> bool" where
  "label_char c \<longleftrightarrow> slug_letter (byte c) \<or> c = CHR ''-''"

text \<open>What a slug looks like: at most 40 letters, digits and hyphens, with letters at both ends.\<close>

definition label_text :: "string \<Rightarrow> bool" where
  "label_text l \<longleftrightarrow> l \<noteq> [] \<and> list_all label_char l \<and> slug_letter (byte (hd l)) \<and> slug_letter (byte (last l))"

lemma trimmed_hyphens:
  assumes "list_all label_char t"
  shows "let l = trim_right_chars ''-'' (trim_left_chars ''-'' t) in list_all label_char l \<and> length l \<le> length t
    \<and> (l \<noteq> [] \<longrightarrow> slug_letter (byte (last l)))"
proof -
  let ?l = "trim_right_chars ''-'' (trim_left_chars ''-'' t)"
  have sub: "set ?l \<subseteq> set t" by (auto simp: trim_right_chars_def trim_left_chars_def dest!: set_dropWhileD)
  have "length ?l \<le> length t"
    unfolding trim_right_chars_def trim_left_chars_def by (metis length_dropWhile_le length_rev order_trans)
  moreover have "last ?l \<noteq> CHR ''-''" if "?l \<noteq> []"
    using that hd_dropWhile [of "\<lambda>c. c \<in> set ''-''" "rev (trim_left_chars ''-'' t)"] by (auto simp: trim_right_chars_def last_rev)
  moreover have "last ?l \<in> set t" if "?l \<noteq> []" using that sub last_in_set by blast
  ultimately show ?thesis using assms sub by (auto simp: list_all_iff label_char_def Let_def)
qed

lemma slug_is_label:
  assumes "list_all lower_hex workspace_id" and "workspace_id \<noteq> []"
  shows "label_text (hostname_slug low workspace_name workspace_id) \<and> length (hostname_slug low workspace_name workspace_id) \<le> 40"
proof -
  define l where "l = trim_right_chars ''-'' (trim_left_chars ''-'' (slug_loop (runes (to_lower low workspace_name)) [] False))"
  have loop: "list_all label_char (slug_loop (runes (to_lower low workspace_name)) [] False)"
    "length (slug_loop (runes (to_lower low workspace_name)) [] False) \<le> 30"
    using slug_loop_shape [of "[]" "runes (to_lower low workspace_name)" False] by (simp_all add: label_char_def Let_def list_all_iff)
  from trimmed_hyphens [OF loop(1)] loop(2) have l: "list_all label_char l" "length l \<le> 30" "l \<noteq> [] \<Longrightarrow> slug_letter (byte (last l))"
    by (auto simp: l_def Let_def)
  have hex: "slug_letter (byte c)" if "c \<in> set workspace_id" for c
    using assms(1) that by (auto simp: list_all_iff lower_hex_def slug_letter_def in_range_def)
  have id: "list_all label_char (take 8 workspace_id)" "slug_letter (byte (last (take 8 workspace_id)))" "take 8 workspace_id \<noteq> []"
    using hex assms(2) in_set_takeD [OF last_in_set, of 8 workspace_id] by (auto simp: list_all_iff label_char_def dest: in_set_takeD)
  have slug: "hostname_slug low workspace_name workspace_id = ''codexlink-'' @ (if l = [] then ''ws-'' @ take 8 workspace_id else l)"
    by (simp add: hostname_slug_def l_def)
  have "list_all label_char ''codexlink-''" "list_all label_char ''ws-''" by (simp_all add: label_char_def slug_letter_def byte_def)
  then show ?thesis
    using l id by (simp add: slug label_text_def slug_letter_def) (simp add: byte_def min_def)
qed

definition capital :: "char \<Rightarrow> bool" where
  "capital c \<longleftrightarrow> 65 \<le> byte c \<and> byte c \<le> 90"

text \<open>Lower-casing never makes an upper-case letter of ASCII out of another character.\<close>

definition lower_ok :: "(nat \<Rightarrow> nat) \<Rightarrow> bool" where
  "lower_ok low \<longleftrightarrow> (\<forall>r \<ge> 128. \<not> (65 \<le> low r \<and> low r \<le> 90))"

lemma to_lower_ascii: "is_ascii s \<Longrightarrow> list_all (\<lambda>c. \<not> capital c) s \<Longrightarrow> to_lower low s = s"
  by (induction s) (auto simp: to_lower_def runes_Cons_ascii encode_runes_def encode_rune_def lower_rune_def capital_def)

lemma to_lower_append:
  "is_ascii s \<Longrightarrow> is_ascii t \<Longrightarrow> to_lower low (s @ t) = to_lower low s @ to_lower low t"
  by (induction s) (simp_all add: to_lower_def runes_Cons_ascii encode_runes_def)

lemma to_lower_dot: "to_lower low (CHR ''.'' # z) = CHR ''.'' # to_lower low z"
  by (simp add: to_lower_def runes_Cons_ascii encode_runes_def encode_rune_def lower_rune_def byte_def char_of_is)

lemma encode_rune_ascii: "is_ascii (encode_rune r) \<Longrightarrow> r < 128 \<and> encode_rune r = [char_of r]"
  by (auto simp: encode_rune_def byte_char_of split: if_splits)

lemma to_lower_no_capitals:
  assumes "lower_ok low" and "is_ascii (to_lower low s)"
  shows "list_all (\<lambda>c. \<not> capital c) (to_lower low s)"
proof -
  have "is_ascii (concat (map encode_rune (map (lower_rune low) rs))) \<Longrightarrow>
      list_all (\<lambda>c. \<not> capital c) (concat (map encode_rune (map (lower_rune low) rs)))" for rs
  proof (induction rs)
    case (Cons r rs)
    then have "lower_rune low r < 128" "encode_rune (lower_rune low r) = [char_of (lower_rune low r)]" using encode_rune_ascii by auto
    moreover have "\<not> (65 \<le> lower_rune low r \<and> lower_rune low r \<le> 90)"
      using assms(1) by (auto simp: lower_rune_def lower_ok_def split: if_splits)
    ultimately show ?case using Cons by (auto simp: byte_char_of capital_def)
  qed simp
  then show ?thesis using assms(2) by (simp add: to_lower_def encode_runes_def)
qed

lemma to_lower_idem: "lower_ok low \<Longrightarrow> is_ascii (to_lower low s) \<Longrightarrow> to_lower low (to_lower low s) = to_lower low s"
  by (rule to_lower_ascii) (simp_all add: to_lower_no_capitals)

text \<open>A host name in normal form.\<close>

definition plain_host :: "(nat \<Rightarrow> nat) \<Rightarrow> string \<Rightarrow> bool" where
  "plain_host low h \<longleftrightarrow> is_ascii h \<and> to_lower low h = h \<and> 3 \<le> length h \<and> length h \<le> 253 \<and> hostname_matches h"

lemma join_ends:
  "ls \<noteq> [] \<Longrightarrow> \<forall>l \<in> set ls. l \<noteq> [] \<Longrightarrow> hd (join_with d ls) = hd (hd ls) \<and> last (join_with d ls) = last (last ls) \<and> join_with d ls \<noteq> []"
  by (induction d ls rule: join_with.induct) (auto simp: hd_append last_append)

lemma set_join: "l \<in> set ls \<Longrightarrow> set l \<subseteq> set (join_with d ls)"
  by (induction d ls rule: join_with.induct) auto

lemma host_label_ascii:
  assumes "host_label l" and "is_ascii l"
  shows "l \<noteq> []" "host_letter (byte (hd l))" "host_letter (byte (last l))"
  using assms by (auto simp: host_label_def runes_ascii Let_def hd_map last_map)

lemma host_letter_graph: "host_letter (byte c) \<Longrightarrow> byte c < 128 \<Longrightarrow> \<not> is_space (byte c) \<and> c \<noteq> CHR ''.''"
  by (auto simp: host_letter_def is_space_def byte_def)

lemma host_ends:
  assumes "hostname_matches h" and "is_ascii h"
  shows "h \<noteq> [] \<and> \<not> is_space (byte (hd h)) \<and> \<not> is_space (byte (last h)) \<and> last h \<noteq> CHR ''.''"
proof -
  let ?ls = "split_on CHR ''.'' h"
  have h: "join_with ''.'' ?ls = h" by (rule join_split)
  have labels: "host_label l \<and> is_ascii l" if "l \<in> set ?ls" for l
    using assms set_join [OF that, of "''.''"] that by (auto simp: h hostname_matches_def Let_def list_all_iff is_ascii_def)
  then have "\<forall>l \<in> set ?ls. l \<noteq> []" using host_label_ascii(1) by blast
  from join_ends [OF _ this, of "''.''"] have ends: "hd h = hd (hd ?ls)" "last h = last (last ?ls)" "h \<noteq> []" by (simp_all add: h)
  then have "host_letter (byte (hd h))" "host_letter (byte (last h))"
    using labels host_label_ascii(2,3) by simp_all
  moreover have "byte (hd h) < 128" "byte (last h) < 128" using assms(2) ends(3) by (simp_all add: is_ascii_def list_all_iff)
  ultimately show ?thesis using host_letter_graph ends(3) by blast
qed

lemma trim_no_dot: "s \<noteq> [] \<Longrightarrow> last s \<noteq> CHR ''.'' \<Longrightarrow> trim_suffix s ''.'' = s"
  by (cases s rule: rev_cases) (auto simp: trim_suffix_def has_suffix_def)

lemma normalize_plain_host: "plain_host low h \<Longrightarrow> normalize_hostname low h = Inr h"
  using host_ends [of h] trim_space_id [of h] by (simp add: plain_host_def normalize_hostname_def trim_no_dot Let_def)

lemma normalize_is_plain:
  assumes "lower_ok low" and "normalize_hostname low v = Inr h" and "is_ascii h"
  shows "plain_host low h"
  using assms to_lower_idem [OF assms(1)] by (auto simp: normalize_hostname_def plain_host_def Let_def split: if_splits)

lemma label_host:
  assumes "label_text l" and "length l \<le> 63"
  shows "host_label l" "is_ascii l" "CHR ''.'' \<notin> set l" "to_lower low l = l"
proof -
  have c: "byte c < 128" "\<not> capital c" "host_letter (byte c) \<or> byte c = 45" "c \<noteq> CHR ''.''" if "label_char c" for c
    using that by (auto simp: label_char_def slug_letter_def capital_def host_letter_def byte_def)
  have all: "label_char c" if "c \<in> set l" for c using assms(1) that by (auto simp: label_text_def list_all_iff)
  then show ascii: "is_ascii l" using c by (auto simp: is_ascii_def list_all_iff)
  show "CHR ''.'' \<notin> set l" using all c(4) by blast
  from ascii show "to_lower low l = l" using all c by (intro to_lower_ascii) (auto simp: list_all_iff)
  show "host_label l"
    using assms all c ascii by (auto simp: host_label_def runes_ascii label_text_def list_all_iff hd_map last_map slug_letter_def host_letter_def Let_def)
qed

text \<open>
  Every workspace gets a host name below a usable zone: whatever its name is, the slug is a DNS label
  of at most 40 letters, digits and hyphens, and the suggestion is that label in front of the zone.
\<close>

theorem suggested_hostname_is_under_zone:
  assumes "lower_ok low" and "parse_zone low zone = Inr z" and "is_ascii z" and "length z \<le> 212"
    and "list_all lower_hex workspace_id" and "workspace_id \<noteq> []"
  shows "suggested_hostname low zone name workspace_id = Inr (hostname_slug low name workspace_id @ ''.'' @ z)
    \<and> host_label (hostname_slug low name workspace_id)"
proof -
  let ?l = "hostname_slug low name workspace_id"
  have l: "label_text ?l" "length ?l \<le> 40" using slug_is_label [OF assms(5,6)] by auto
  from label_host [OF l(1)] l(2) have label: "host_label ?l" "is_ascii ?l" "CHR ''.'' \<notin> set ?l" "to_lower low ?l = ?l" by auto
  have z: "plain_host low z" using normalize_is_plain [OF assms(1) _ assms(3)] assms(2) by (auto simp: parse_zone_def)
  have lower: "to_lower low (?l @ ''.'' @ z) = ?l @ ''.'' @ z"
    using z label(2,4) assms(3) by (simp add: to_lower_append is_ascii_def to_lower_dot plain_host_def byte_def)
  have "plain_host low (?l @ ''.'' @ z)"
    using z label lower l(2) assms(4) by (simp add: plain_host_def hostname_matches_def split_on_head Let_def byte_def)
  from normalize_plain_host [OF this] label(1) show ?thesis by (simp add: suggested_hostname_def assms(2))
qed

theorem suggested_hostname_is_under_zone_witness:
  "suggested_hostname id ''https://example.com/zone'' ''my Project'' ''0a1b''
    = Inr (hostname_slug id ''my Project'' ''0a1b'' @ ''.example.com'') \<and> host_label (hostname_slug id ''my Project'' ''0a1b'')"
proof -
  have ok: "lower_ok id" by (auto simp: lower_ok_def)
  have lower: "to_lower id ''example.com'' = ''example.com''"
    by (rule to_lower_ascii) (simp_all add: is_ascii_def capital_def byte_def)
  have "hostname_matches ''example.com''"
    by (simp add: hostname_matches_def host_label_def runes_Cons_ascii host_letter_def byte_def)
  then have "plain_host id ''example.com''" using lower by (simp add: plain_host_def is_ascii_def byte_def)
  moreover have "trim_space ''https://example.com/zone'' = ''https://example.com/zone''"
    by (rule trim_space_id) (simp_all add: is_space_def byte_def)
  ultimately have zone: "parse_zone id ''https://example.com/zone'' = Inr ''example.com''"
    by (simp add: parse_zone_def trim_prefix_def has_prefix_def slash_def normalize_plain_host)
  show ?thesis
    using suggested_hostname_is_under_zone [OF ok zone, of "''0a1b''" "''my Project''"]
    by (simp add: is_ascii_def lower_hex_def in_range_def byte_def)
qed

section \<open>Host names beyond ASCII\<close>

text \<open>The long s counts as a letter of the case-insensitive class, so a host name that no DNS label spells is accepted.\<close>

theorem long_s_hostname_is_accepted:
  "normalize_hostname id ([CHR 0xC5, CHR 0xBF] @ ''.example.com'') = Inr ([CHR 0xC5, CHR 0xBF] @ ''.example.com'')"
proof -
  let ?h = "[CHR 0xC5, CHR 0xBF] @ ''.example.com''"
  have rs: "runes [CHR 0xC5, CHR 0xBF] = [0x17F]"
    by (simp add: runes_def segs.simps(2) decode1_def in_range_def byte_def)
  have "runes ?h = 0x17F # map byte ''.example.com''"
    by (simp add: runes_def segs.simps(2) decode1_def in_range_def byte_def)
  then have "to_lower id ?h = ?h"
    by (simp add: to_lower_def lower_rune_def encode_runes_def encode_rune_def byte_def char_of_is)
  moreover have "trim_space ?h = ?h" by (simp add: trim_space_def segs.simps(2) decode1_def in_range_def byte_def is_space_def)
  moreover have "hostname_matches ?h"
    by (simp add: hostname_matches_def host_label_def rs) (simp add: runes_Cons_ascii host_letter_def byte_def)
  ultimately show ?thesis by (simp add: normalize_hostname_def trim_no_dot)
qed

section \<open>Provisioning settles the choice\<close>

lemma write_atomic_done:
  "write_file_atomic flt path data d = (None, d') \<Longrightarrow> d' path = Some data \<and> wf_mkdir flt = None"
  by (auto simp: write_file_atomic_def Let_def split: option.splits sum.splits prod.splits)

lemma write_tunnel_done:
  assumes "write_tunnel io s d = (Inr s', d')"
  shows "s' = s \<and> ts_workspace s \<noteq> [] \<and> (\<exists>data path. ti_encode io s = Inr data \<and> d' path = Some (data @ [CHR 0x0A])
    \<and> repo_path (ti_root io) None ''tunnels'' (ts_workspace s) ''.json'' = Inr path)"
  using assms write_atomic_done
  by (fastforce simp: write_tunnel_def repo_write_json_def write_json_file_def split: if_splits option.splits sum.splits prod.splits)

text \<open>Decoding undoes encoding: what \<open>encoding/json\<close> does on a state whose strings are valid UTF-8.\<close>

definition json_inverse :: "tunnel_io \<Rightarrow> bool" where
  "json_inverse io \<longleftrightarrow> (\<forall>s data base. ti_encode io s = Inr data \<longrightarrow> ts_workspace base = ts_workspace s
     \<longrightarrow> ti_decode io base (data @ [CHR 0x0A]) = Some s)"

lemma written_tunnel_reads_back:
  assumes "write_tunnel io s d = (Inr s', d')" and "ts_preference s \<noteq> OtherPreference []" and "json_inverse io"
    and "ti_mkdir io = None" and "ti_read io = None"
  shows "read_tunnel io (ts_workspace s) d' = Inr s"
proof -
  from write_tunnel_done [OF assms(1)] obtain data path where w: "ts_workspace s \<noteq> []" "ti_encode io s = Inr data"
    "d' path = Some (data @ [CHR 0x0A])" "repo_path (ti_root io) None ''tunnels'' (ts_workspace s) ''.json'' = Inr path" by blast
  have "ti_decode io (unset_tunnel (ts_workspace s)) (data @ [CHR 0x0A]) = Some s"
    using assms(3) w(2) by (simp add: json_inverse_def unset_tunnel_def)
  then show ?thesis using w assms(2,4,5) by (simp add: read_tunnel_def repo_read_json_def read_json_file_def)
qed

lemma choose_quick_done:
  assumes "choose_quick io w reason d = (Inr s, d')"
  shows "ts_workspace s = w \<and> ts_preference s = Quick \<and> ts_asked s = ti_now io 0 \<and> write_tunnel io s d = (Inr s, d')"
proof -
  have w: "write_tunnel io ((unset_tunnel w)\<lparr>ts_preference := Quick, ts_asked := ti_now io 0, ts_provider := ''cloudflare-quick'',
      ts_reason := reason\<rparr>) d = (Inr s, d')" using assms by (simp add: choose_quick_def)
  from write_tunnel_done [OF w] w show ?thesis by (simp add: unset_tunnel_def)
qed

lemma fall_back_done:
  assumes "fall_back io w reason e d = (r, d')" and "pv_ok r"
  shows "\<exists>s. pv_state r = Some s \<and> pv_fallback r \<and> ts_workspace s = w \<and> ts_preference s = Quick \<and> ts_asked s = ti_now io 0
    \<and> write_tunnel io s d = (Inr s, d')"
  using assms choose_quick_done by (fastforce simp: fall_back_def split: sum.splits prod.splits)

lemma write_tunnel_same: "write_tunnel io s d = (Inr s', d') \<Longrightarrow> s' = s"
  using write_tunnel_done by blast

lemma provision_cases:
  assumes "provision_named low io ac w name zone hostname d = (r, d')"
  shows "(\<exists>reason e d0. fall_back io w reason e d0 = (r, d'))
    \<or> (\<exists>s. write_tunnel io s d = (Inr s, d') \<and> pv_state r = Some s \<and> \<not> pv_fallback r
        \<and> ts_workspace s = w \<and> ts_preference s = Named \<and> ts_asked s = ti_now io 0)"
proof -
  note d = assms [unfolded provision_named_def]
  show ?thesis
  proof (cases "parse_zone low zone")
    case (Inr z)
    let ?host = "if hostname = [] then suggested_hostname low z name w else normalize_hostname low hostname"
    show ?thesis
    proof (cases ?host)
      case host: (Inr h)
      show ?thesis
      proof (cases "if ac_has_cert ac then None else ac_login ac")
        case None
        show ?thesis
        proof (cases "ac_create ac (''codexlink-'' @ w)")
          case created: (Inr c)
          show ?thesis
          proof (cases "ac_route ac (lt_name c) h")
            case route: None
            let ?s = "\<lparr>ts_workspace = w, ts_preference = Named, ts_asked = ti_now io 0, ts_provider = ''cloudflare-named'',
              ts_name = lt_name c, ts_tunnel_id = lt_id c, ts_hostname = h, ts_zone = z, ts_configured = ti_now io 1, ts_reason = []\<rparr>"
            obtain o' d1 where wr: "write_tunnel io ?s d = (o', d1)" by fastforce
            have "(case (o', d1) of (Inl e, d2) \<Rightarrow> fall_back io w ''state_failed'' e d2
                | (Inr s, d2) \<Rightarrow> (\<lparr>pv_ok = True, pv_state = Some s, pv_fallback = False, pv_error = []\<rparr>, d2)) = (r, d')"
              using d unfolding Inr sum.case host None option.case created route wr .
            then show ?thesis using wr write_tunnel_same [of io ?s d _ d1] by (cases o') auto
          qed (use d host None created Inr in auto)
        qed (use d host None Inr in auto)
      qed (use d host Inr in auto)
    qed (use d Inr in auto)
  qed (use d in auto)
qed

text \<open>
  Provisioning settles the choice of tunnel: when it reports success, whichever of its steps failed on
  the way, the reported state is the one the workspace reads back, it is a named tunnel exactly when
  nothing fell back, and the user is not asked again.
\<close>

theorem provisioning_settles_the_choice:
  assumes "provision_named low io ac w name zone hostname d = (r, d')" and "pv_ok r" and "json_inverse io"
    and "ti_mkdir io = None" and "ti_read io = None" and "ti_now io 0 \<noteq> []"
  shows "\<exists>s. pv_state r = Some s \<and> read_tunnel io w d' = Inr s \<and> \<not> needs_choice s
    \<and> ts_preference s = (if pv_fallback r then Quick else Named)"
proof -
  from provision_cases [OF assms(1)] have "\<exists>s d0. pv_state r = Some s \<and> ts_workspace s = w
      \<and> ts_preference s = (if pv_fallback r then Quick else Named) \<and> ts_asked s = ti_now io 0 \<and> write_tunnel io s d0 = (Inr s, d')"
    using fall_back_done [OF _ assms(2)] by fastforce
  then obtain s d0 where s: "pv_state r = Some s" "ts_workspace s = w" "ts_preference s = (if pv_fallback r then Quick else Named)"
    "ts_asked s = ti_now io 0" "write_tunnel io s d0 = (Inr s, d')" by blast
  have "read_tunnel io w d' = Inr s"
    using written_tunnel_reads_back [OF s(5) _ assms(3-5)] s(2,3) by auto
  then show ?thesis using s assms(6) by (auto simp: needs_choice_def)
qed

definition quick_example :: tunnel_state where
  "quick_example = (unset_tunnel ''w'')\<lparr>ts_preference := Quick, ts_asked := ''2025'', ts_provider := ''cloudflare-quick'',
    ts_reason := ''invalid_zone''\<rparr>"

text \<open>A codec of this one state.\<close>

definition tunnel_example :: tunnel_io where
  "tunnel_example = \<lparr>ti_root = ''/s'', ti_mkdir = None, ti_read = None,
    ti_write = \<lparr>wf_mkdir = None, wf_temp = Inr ''/s/tunnels/.w.json-1'', wf_chmod = None, wf_write = None, wf_sync = None,
      wf_close = None, wf_rename = None\<rparr>,
    ti_now = (\<lambda>_. ''2025''), ti_decode = (\<lambda>_ _. Some quick_example),
    ti_encode = (\<lambda>s. if s = quick_example then Inr ''{}'' else Inl ''unsupported'')\<rparr>"

definition account_example :: account where
  "account_example = \<lparr>ac_has_cert = True, ac_login = None, ac_create = (\<lambda>n. Inr \<lparr>lt_id = ''1'', lt_name = n\<rparr>), ac_route = (\<lambda>_ _. None)\<rparr>"

theorem provisioning_settles_the_choice_witness:
  "\<exists>r d'. provision_named id tunnel_example account_example ''w'' ''n'' [] [] Map.empty = (r, d')
    \<and> (\<exists>s. pv_state r = Some s \<and> read_tunnel tunnel_example ''w'' d' = Inr s \<and> \<not> needs_choice s)"
proof -
  have zone: "parse_zone id [] = Inl (''invalid DNS hostname: '')"
    by (simp add: parse_zone_def normalize_hostname_def trim_space_def trim_prefix_def trim_suffix_def has_prefix_def has_suffix_def
        to_lower_def encode_runes_def runes_def)
  have path: "repo_path ''/s'' None ''tunnels'' ''w'' ''.json'' = Inr (go_join [go_join [''/s'', ''tunnels''], ''w.json''])"
    by (simp add: repo_path_def repo_bucket_def safe_component_def slash_def has_prefix_def)
  obtain r d' where r: "provision_named id tunnel_example account_example ''w'' ''n'' [] [] Map.empty = (r, d')" "pv_ok r"
    by (simp add: provision_named_def zone fall_back_def choose_quick_def write_tunnel_def repo_write_json_def path unset_tunnel_def
        write_json_file_def write_file_atomic_def tunnel_example_def quick_example_def Let_def)
  have "json_inverse tunnel_example" by (simp add: json_inverse_def tunnel_example_def)
  from provisioning_settles_the_choice [OF r this] r(1) show ?thesis by (auto simp: tunnel_example_def)
qed

end
