(* ===== verification/Lock.thy ===== *)
theory Lock
  imports Prelude
begin

text \<open>
  The lock of a workspace, \<open>acquireWorkspaceLock\<close> of \<open>internal/bridge/server.go\<close>.  Two relations: \<open>lock_step\<close>
  interleaves the system calls of several processes, \<open>calm_step\<close> lets every acquisition run without
  interruption.  The lock excludes in the second, as long as its record is written, and does not in the first.
\<close>

section \<open>The lock file\<close>

record lock_record =
  lk_pid :: int
  lk_created :: int

text \<open>
  The file at the path of the lock: the process that created this file, and the record once it is written.
  A file whose text is missing or cut does not decode and leaves the zero record.
\<close>

type_synonym lock_file = "(int \<times> lock_record option) option"

definition read_lock :: "lock_file \<Rightarrow> lock_record" where
  "read_lock f = (case f of Some (_, Some r) \<Rightarrow> r | _ \<Rightarrow> \<lparr>lk_pid = 0, lk_created = 0\<rparr>)"

text \<open>\<open>now\<close> is in nanoseconds; \<open>alive\<close> is \<open>processAlive\<close>.\<close>

definition lock_refuses :: "(int \<Rightarrow> bool) \<Rightarrow> int \<Rightarrow> lock_record \<Rightarrow> bool" where
  "lock_refuses alive now r \<longleftrightarrow> now - lk_created r * second < 30 * second \<or> 0 < lk_pid r \<and> alive (lk_pid r)"

definition lock_text :: "int \<Rightarrow> int \<Rightarrow> lock_record" where
  "lock_text p now = \<lparr>lk_pid = p, lk_created = now div second\<rparr>"

text \<open>
  What the file system does to one acquisition: an error of creating the file other than that it exists, whether
  the record is written (errors of writing and of \<open>Sync\<close> are ignored), and whether a stale file is removed (that
  error is ignored as well).
\<close>

record lock_faults =
  lf_create :: "string option"
  lf_written :: bool
  lf_removed :: bool

datatype lock_outcome = Acquired | RunningOrStarting int | CreateFailed string | Unable

text \<open>The loop of two attempts, when nothing else touches the file.\<close>

fun acquire_attempts :: "nat \<Rightarrow> lock_faults \<Rightarrow> int \<Rightarrow> (int \<Rightarrow> bool) \<Rightarrow> int \<Rightarrow> lock_file \<Rightarrow> lock_outcome \<times> lock_file" where
  "acquire_attempts 0 fs p alive now f = (Unable, f)"
| "acquire_attempts (Suc n) fs p alive now f =
    (case lf_create fs of
       Some e \<Rightarrow> (CreateFailed e, f)
     | None \<Rightarrow>
        (case f of
           None \<Rightarrow> (Acquired, Some (p, if lf_written fs then Some (lock_text p now) else None))
         | Some _ \<Rightarrow>
            (let r = read_lock f
             in if lock_refuses alive now r then (RunningOrStarting (lk_pid r), f)
                else acquire_attempts n fs p alive now (if lf_removed fs then None else f))))"

definition acquire_workspace_lock :: "lock_faults \<Rightarrow> int \<Rightarrow> (int \<Rightarrow> bool) \<Rightarrow> int \<Rightarrow> lock_file \<Rightarrow> lock_outcome \<times> lock_file" where
  "acquire_workspace_lock fs p alive now f = acquire_attempts 2 fs p alive now f"

section \<open>Processes\<close>

datatype phase = Idle | Opening nat | Writing | Reading nat | Removing nat | Holding | Finished lock_outcome

record lock_world =
  lw_file :: lock_file
  lw_phase :: "int \<Rightarrow> phase"
  lw_alive :: "int \<Rightarrow> bool"
  lw_now :: int

definition enter :: "int \<Rightarrow> phase \<Rightarrow> lock_world \<Rightarrow> lock_world" where
  "enter p ph w = w\<lparr>lw_phase := (lw_phase w)(p := ph)\<rparr>"

text \<open>Only a file that this process created, and that still is at the path, receives the record.\<close>

definition written_lock :: "int \<Rightarrow> int \<Rightarrow> lock_file \<Rightarrow> lock_file" where
  "written_lock p now f = (case f of Some (q, _) \<Rightarrow> if q = p then Some (p, Some (lock_text p now)) else f | None \<Rightarrow> None)"

text \<open>What processes and time do beside acquiring: a holder closes its bridge (and the file
  is removed, or that fails), a process ends, time passes.\<close>

inductive other_step :: "lock_world \<Rightarrow> lock_world \<Rightarrow> bool" where
  closed: "lw_alive w p \<Longrightarrow> lw_phase w p = Holding \<Longrightarrow> other_step w (enter p (Finished Acquired) (w\<lparr>lw_file := None\<rparr>))"
| closed_only: "lw_alive w p \<Longrightarrow> lw_phase w p = Holding \<Longrightarrow> other_step w (enter p (Finished Acquired) w)"
| ended: "lw_alive w p \<Longrightarrow> other_step w (w\<lparr>lw_alive := (lw_alive w)(p := False)\<rparr>)"
| passed: "0 \<le> t \<Longrightarrow> other_step w (w\<lparr>lw_now := lw_now w + t\<rparr>)"

inductive lock_step :: "lock_world \<Rightarrow> lock_world \<Rightarrow> bool" where
  other: "other_step w w' \<Longrightarrow> lock_step w w'"
| start: "lw_alive w p \<Longrightarrow> lw_phase w p = Idle \<Longrightarrow> lock_step w (enter p (Opening 0) w)"
| created: "lw_alive w p \<Longrightarrow> lw_phase w p = Opening n \<Longrightarrow> n < 2 \<Longrightarrow> lw_file w = None \<Longrightarrow>
    lock_step w (enter p Writing (w\<lparr>lw_file := Some (p, None)\<rparr>))"
| exists: "lw_alive w p \<Longrightarrow> lw_phase w p = Opening n \<Longrightarrow> n < 2 \<Longrightarrow> lw_file w \<noteq> None \<Longrightarrow> lock_step w (enter p (Reading n) w)"
| gave_up: "lw_alive w p \<Longrightarrow> lw_phase w p = Opening 2 \<Longrightarrow> lock_step w (enter p (Finished Unable) w)"
| wrote: "lw_alive w p \<Longrightarrow> lw_phase w p = Writing \<Longrightarrow>
    lock_step w (enter p Holding (w\<lparr>lw_file := written_lock p (lw_now w) (lw_file w)\<rparr>))"
| wrote_nothing: "lw_alive w p \<Longrightarrow> lw_phase w p = Writing \<Longrightarrow> lock_step w (enter p Holding w)"
| create_failed: "lw_alive w p \<Longrightarrow> lw_phase w p = Opening n \<Longrightarrow> n < 2 \<Longrightarrow> lock_step w (enter p (Finished (CreateFailed e)) w)"
| refused: "lw_alive w p \<Longrightarrow> lw_phase w p = Reading n \<Longrightarrow> r = read_lock (lw_file w) \<Longrightarrow> lock_refuses (lw_alive w) (lw_now w) r \<Longrightarrow>
    lock_step w (enter p (Finished (RunningOrStarting (lk_pid r))) w)"
| stale: "lw_alive w p \<Longrightarrow> lw_phase w p = Reading n \<Longrightarrow> \<not> lock_refuses (lw_alive w) (lw_now w) (read_lock (lw_file w)) \<Longrightarrow>
    lock_step w (enter p (Removing n) w)"
| removed: "lw_alive w p \<Longrightarrow> lw_phase w p = Removing n \<Longrightarrow> lock_step w (enter p (Opening (Suc n)) (w\<lparr>lw_file := None\<rparr>))"
| not_removed: "lw_alive w p \<Longrightarrow> lw_phase w p = Removing n \<Longrightarrow> lock_step w (enter p (Opening (Suc n)) w)"

definition phase_of :: "lock_outcome \<Rightarrow> phase" where
  "phase_of out = (if out = Acquired then Holding else Finished out)"

definition acquire_step :: "lock_faults \<Rightarrow> int \<Rightarrow> lock_world \<Rightarrow> lock_world" where
  "acquire_step fs p w = (case acquire_workspace_lock fs p (lw_alive w) (lw_now w) (lw_file w) of
     (out, f) \<Rightarrow> enter p (phase_of out) (w\<lparr>lw_file := f\<rparr>))"

text \<open>\<open>faulty\<close> says whether a record may fail to be written.\<close>

inductive calm_step :: "bool \<Rightarrow> lock_world \<Rightarrow> lock_world \<Rightarrow> bool" for faulty where
  calm: "other_step w w' \<Longrightarrow> calm_step faulty w w'"
| acquired: "lw_alive w p \<Longrightarrow> lw_phase w p = Idle \<Longrightarrow> lf_written fs \<or> faulty \<Longrightarrow> calm_step faulty w (acquire_step fs p w)"

inductive_cases calm_stepE: "calm_step faulty w w'"

definition new_world :: "(int \<Rightarrow> bool) \<Rightarrow> int \<Rightarrow> lock_world" where
  "new_world alive now = \<lparr>lw_file = None, lw_phase = (\<lambda>_. Idle), lw_alive = alive, lw_now = now\<rparr>"

section \<open>Acquisitions that do not overlap\<close>

text \<open>Who holds the lock and lives owns the file; processes have positive identifiers.\<close>

definition lock_owned :: "lock_world \<Rightarrow> bool" where
  "lock_owned w \<longleftrightarrow> (\<forall>p. lw_alive w p \<longrightarrow> 0 < p) \<and>
    (\<forall>p. lw_alive w p \<and> lw_phase w p = Holding \<longrightarrow> (\<exists>t. lw_file w = Some (p, Some \<lparr>lk_pid = p, lk_created = t\<rparr>)))"

lemma acquire_cases:
  "acquire_workspace_lock fs p alive now f =
    (case lf_create fs of Some e \<Rightarrow> (CreateFailed e, f)
     | None \<Rightarrow> if f = None \<or> \<not> lock_refuses alive now (read_lock f) \<and> lf_removed fs
               then (Acquired, Some (p, if lf_written fs then Some (lock_text p now) else None))
               else if lock_refuses alive now (read_lock f) then (RunningOrStarting (lk_pid (read_lock f)), f) else (Unable, f))"
  by (cases f) (simp_all add: acquire_workspace_lock_def numeral_2_eq_2 Let_def split: option.split)

lemma owned_unique:
  assumes "lock_owned w" and "lw_alive w p" and "lw_phase w p = Holding" and "lw_alive w q" and "lw_phase w q = Holding"
  shows "p = q"
proof -
  obtain t where "lw_file w = Some (p, Some \<lparr>lk_pid = p, lk_created = t\<rparr>)" using assms by (auto simp: lock_owned_def)
  moreover obtain u where "lw_file w = Some (q, Some \<lparr>lk_pid = q, lk_created = u\<rparr>)" using assms by (auto simp: lock_owned_def)
  ultimately show ?thesis by simp
qed

lemma finish_keeps_owned: "lock_owned w \<Longrightarrow> lock_owned (enter p (Finished out) w)"
  by (auto simp: lock_owned_def enter_def split: if_splits)

lemma other_keeps_owned:
  assumes "other_step w w'" and "lock_owned w"
  shows "lock_owned w'"
  using assms(1)
proof (cases rule: other_step.cases)
  case (closed p)
  then have "\<not> (lw_alive w q \<and> lw_phase w q = Holding)" if "q \<noteq> p" for q using owned_unique [OF assms(2)] that by blast
  then have "\<not> (lw_alive w' q \<and> lw_phase w' q = Holding)" for q
    using closed by (cases "q = p") (auto simp: enter_def)
  moreover have "\<forall>q. lw_alive w' q \<longrightarrow> 0 < q" using assms(2) closed(1) by (simp add: lock_owned_def enter_def)
  ultimately show ?thesis unfolding lock_owned_def by blast
next
  case (closed_only p)
  then show ?thesis using finish_keeps_owned [OF assms(2)] by simp
qed (use assms(2) in \<open>simp_all add: lock_owned_def\<close>)

lemma live_lock_refuses: "0 < p \<Longrightarrow> alive p \<Longrightarrow> lock_refuses alive now \<lparr>lk_pid = p, lk_created = t\<rparr>"
  by (simp add: lock_refuses_def)

lemma acquire_keeps_owned:
  assumes "lock_owned w" and "lw_alive w p" and "lw_phase w p = Idle" and "lf_written fs"
  shows "lock_owned (acquire_step fs p w)"
proof (cases "lf_create fs = None \<and> (\<forall>q. lw_alive w q \<longrightarrow> lw_phase w q \<noteq> Holding)")
  case True
  then show ?thesis using assms
    by (auto simp: lock_owned_def acquire_step_def acquire_cases enter_def phase_of_def lock_text_def)
next
  case False
  have "\<exists>out. acquire_step fs p w = enter p (Finished out) w"
  proof (cases "lf_create fs")
    case None
    then obtain q t where "lw_alive w q" "0 < q" "lw_file w = Some (q, Some \<lparr>lk_pid = q, lk_created = t\<rparr>)"
      using assms(1) False by (auto simp: lock_owned_def)
    then have "acquire_step fs p w = enter p (Finished (RunningOrStarting q)) w"
      using None by (simp add: acquire_step_def acquire_cases read_lock_def live_lock_refuses phase_of_def enter_def)
    then show ?thesis by (intro exI [of _ "RunningOrStarting q"]) simp
  next
    case (Some e)
    then show ?thesis by (intro exI [of _ "CreateFailed e"]) (simp add: acquire_step_def acquire_cases phase_of_def enter_def)
  qed
  then show ?thesis using finish_keeps_owned [OF assms(1)] by auto
qed

lemma calm_keeps_owned: "calm_step False w w' \<Longrightarrow> lock_owned w \<Longrightarrow> lock_owned w'"
  by (erule calm_stepE) (simp_all add: other_keeps_owned acquire_keeps_owned)


text \<open>An acquisition without interruption is a run of the interleaved relation.\<close>

lemma enter_enter [simp]: "enter p a (enter p b w) = enter p a w" "lw_file (enter p a w) = lw_file w" "lw_alive (enter p a w) = lw_alive w"
  "lw_now (enter p a w) = lw_now w" "lw_phase (enter p a w) q = (if q = p then a else lw_phase w q)"
  "(enter p a w)\<lparr>lw_file := f\<rparr> = enter p a (w\<lparr>lw_file := f\<rparr>)" "w\<lparr>lw_file := lw_file w\<rparr> = w"
  by (simp_all add: enter_def)

lemma create_and_write:
  assumes "lw_alive w p" and "n < 2" and "lw_file w = None"
  shows "lock_step\<^sup>*\<^sup>* (enter p (Opening n) w)
    (enter p Holding (w\<lparr>lw_file := Some (p, if written then Some (lock_text p (lw_now w)) else None)\<rparr>))"
proof -
  let ?w = "enter p Writing (w\<lparr>lw_file := Some (p, None)\<rparr>)"
  have "lock_step (enter p (Opening n) w) ?w"
    using lock_step.created [of "enter p (Opening n) w" p n] assms by simp
  moreover have "lock_step ?w (enter p Holding (w\<lparr>lw_file := Some (p, if written then Some (lock_text p (lw_now w)) else None)\<rparr>))"
    using lock_step.wrote [of ?w p] lock_step.wrote_nothing [of ?w p] assms by (simp add: written_lock_def)
  ultimately show ?thesis by (meson converse_rtranclp_into_rtranclp rtranclp.rtrancl_refl)
qed

text \<open>One attempt finds the file stale; it is removed or it stays.\<close>

lemma stale_attempt:
  assumes "lw_alive w p" and "n < 2" and "lw_file w \<noteq> None" and "\<not> lock_refuses (lw_alive w) (lw_now w) (read_lock (lw_file w))"
  shows "lock_step\<^sup>*\<^sup>* (enter p (Opening n) w) (enter p (Opening (Suc n)) (w\<lparr>lw_file := (if removed then None else lw_file w)\<rparr>))"
proof -
  have "lock_step (enter p (Opening n) w) (enter p (Reading n) w)"
    using lock_step.exists [of "enter p (Opening n) w" p n] assms by simp
  moreover have "lock_step (enter p (Reading n) w) (enter p (Removing n) w)"
    using lock_step.stale [of "enter p (Reading n) w" p n] assms by simp
  moreover have "lock_step (enter p (Removing n) w) (enter p (Opening (Suc n)) (w\<lparr>lw_file := (if removed then None else lw_file w)\<rparr>))"
    using lock_step.removed [of "enter p (Removing n) w" p n] lock_step.not_removed [of "enter p (Removing n) w" p n] assms(1) by simp
  ultimately show ?thesis by (meson converse_rtranclp_into_rtranclp rtranclp.rtrancl_refl)
qed

lemma acquire_is_run:
  assumes "lw_alive w p" and "lw_phase w p = Idle"
  shows "lock_step\<^sup>*\<^sup>* w (acquire_step fs p w)"
proof -
  have start: "lock_step w (enter p (Opening 0) w)" using assms lock_step.start by blast
  have "lock_step\<^sup>*\<^sup>* (enter p (Opening 0) w) (acquire_step fs p w)"
  proof (cases "lf_create fs")
    case (Some e)
    then have "acquire_step fs p w = enter p (Finished (CreateFailed e)) w" by (simp add: acquire_step_def acquire_cases phase_of_def)
    then show ?thesis using lock_step.create_failed [of "enter p (Opening 0) w" p 0 e] assms(1) by auto
  next
    case ok: None
    let ?r = "read_lock (lw_file w)" and ?w = "w\<lparr>lw_file := None\<rparr>"
    consider "lw_file w = None" | "lw_file w \<noteq> None" "lock_refuses (lw_alive w) (lw_now w) ?r"
      | "lw_file w \<noteq> None" "\<not> lock_refuses (lw_alive w) (lw_now w) ?r" by blast
    then show ?thesis
    proof cases
      case 1
      then show ?thesis using create_and_write [OF assms(1), of 0 "lf_written fs"] ok by (simp add: acquire_step_def acquire_cases phase_of_def)
    next
      case 2
      have "lock_step (enter p (Opening 0) w) (enter p (Reading 0) w)"
        using lock_step.exists [of "enter p (Opening 0) w" p 0] assms(1) 2(1) by simp
      moreover have "lock_step (enter p (Reading 0) w) (enter p (Finished (RunningOrStarting (lk_pid ?r))) w)"
        using lock_step.refused [of "enter p (Reading 0) w" p 0 ?r] assms(1) 2(2) by simp
      ultimately show ?thesis using 2 ok by (simp add: acquire_step_def acquire_cases phase_of_def del: not_None_eq)
    next
      case 3
      show ?thesis
      proof (cases "lf_removed fs")
        case True
        then have "acquire_step fs p w = enter p Holding (w\<lparr>lw_file := Some (p, if lf_written fs then Some (lock_text p (lw_now w)) else None)\<rparr>)"
          using 3(2) ok by (simp add: acquire_step_def acquire_cases phase_of_def)
        moreover have "lock_step\<^sup>*\<^sup>* (enter p (Opening 0) w) (enter p (Opening 1) ?w)"
          using stale_attempt [OF assms(1) _ 3, of 0 True] by simp
        moreover have "lock_step\<^sup>*\<^sup>* (enter p (Opening 1) ?w)
            (enter p Holding (?w\<lparr>lw_file := Some (p, if lf_written fs then Some (lock_text p (lw_now ?w)) else None)\<rparr>))"
          by (rule create_and_write) (use assms(1) in simp_all)
        moreover have "?w\<lparr>lw_file := f\<rparr> = w\<lparr>lw_file := f\<rparr>" "lw_now ?w = lw_now w" for f by simp_all
        ultimately show ?thesis by (metis rtranclp_trans)
      next
        case False
        then have "acquire_step fs p w = enter p (Finished Unable) w" using 3 ok by (simp add: acquire_step_def acquire_cases phase_of_def del: not_None_eq)
        moreover have "lock_step\<^sup>*\<^sup>* (enter p (Opening 1) w) (enter p (Opening 2) w)"
          using stale_attempt [OF assms(1) _ 3, of 1 False] by (simp add: numeral_2_eq_2)
        moreover have "lock_step (enter p (Opening 2) w) (enter p (Finished Unable) w)"
          using lock_step.gave_up [of "enter p (Opening 2) w" p] assms(1) by simp
        moreover have "lock_step\<^sup>*\<^sup>* (enter p (Opening 0) w) (enter p (Opening 1) w)"
          using stale_attempt [OF assms(1) _ 3, of 0 False] by simp
        ultimately show ?thesis by (metis rtranclp_trans rtranclp.rtrancl_into_rtrancl)
      qed
    qed
  qed
  with start show ?thesis by (rule converse_rtranclp_into_rtranclp)
qed

lemma calm_is_run: "calm_step faulty w w' \<Longrightarrow> lock_step\<^sup>*\<^sup>* w w'"
  by (erule calm_stepE) (auto intro: lock_step.other acquire_is_run)

section \<open>Acquisitions that overlap\<close>

text \<open>
  The lock does not exclude two starts that overlap: from a state without a lock file both processes come
  to hold the lock, because the second one finds the file of the first before its record is written, takes
  the empty file for a stale lock of 1970 and removes it.
\<close>

theorem overlapping_starts_share_the_lock:
  "\<exists>w. lock_step\<^sup>*\<^sup>* (new_world (\<lambda>p. p = 1 \<or> p = 2) 1700000000000000000) w \<and> lw_alive w 1 \<and> lw_alive w 2
    \<and> lw_phase w 1 = Holding \<and> lw_phase w 2 = Holding"
proof -
  let ?now = "1700000000000000000 :: int"
  define w0 where "w0 = new_world (\<lambda>p. p = 1 \<or> p = 2) ?now"
  define w1 where "w1 = enter 1 (Opening 0) w0"
  define w2 where "w2 = enter 1 Writing (w1\<lparr>lw_file := Some (1, None)\<rparr>)"
  define w3 where "w3 = enter 2 (Opening 0) w2"
  define w4 where "w4 = enter 2 (Reading 0) w3"
  define w5 where "w5 = enter 2 (Removing 0) w4"
  define w6 where "w6 = enter 2 (Opening 1) (w5\<lparr>lw_file := None\<rparr>)"
  define w7 where "w7 = enter 2 Writing (w6\<lparr>lw_file := Some (2, None)\<rparr>)"
  define w8 where "w8 = enter 2 Holding (w7\<lparr>lw_file := written_lock 2 (lw_now w7) (lw_file w7)\<rparr>)"
  define w9 where "w9 = enter 1 Holding (w8\<lparr>lw_file := written_lock 1 (lw_now w8) (lw_file w8)\<rparr>)"
  note ws = w0_def w1_def w2_def w3_def w4_def w5_def w6_def w7_def w8_def w9_def new_world_def
  have "lock_step w0 w1" unfolding w1_def by (rule start) (simp_all add: ws)
  moreover have "lock_step w1 w2" unfolding w2_def by (rule created [of _ _ 0]) (simp_all add: ws)
  moreover have "lock_step w2 w3" unfolding w3_def by (rule start) (simp_all add: ws)
  moreover have "lock_step w3 w4" unfolding w4_def by (rule exists) (simp_all add: ws)
  moreover have "lock_step w4 w5" unfolding w5_def by (rule stale) (simp_all add: ws read_lock_def lock_refuses_def)
  moreover have "lock_step w5 w6" unfolding w6_def using removed [of w5 2 0] by (simp add: ws)
  moreover have "lock_step w6 w7" unfolding w7_def by (rule created [of _ _ 1]) (simp_all add: ws)
  moreover have "lock_step w7 w8" unfolding w8_def by (rule wrote) (simp_all add: ws)
  moreover have "lock_step w8 w9" unfolding w9_def by (rule wrote) (simp_all add: ws)
  ultimately have "lock_step\<^sup>*\<^sup>* w0 w9" by (meson converse_rtranclp_into_rtranclp rtranclp.rtrancl_refl)
  moreover have "lw_alive w9 1 \<and> lw_alive w9 2 \<and> lw_phase w9 1 = Holding \<and> lw_phase w9 2 = Holding" by (simp add: ws)
  ultimately show ?thesis unfolding w0_def by blast
qed

section \<open>Records that are not written\<close>

abbreviation no_faults :: lock_faults where
  "no_faults \<equiv> \<lparr>lf_create = None, lf_written = True, lf_removed = True\<rparr>"

text \<open>
  When the record of a lock cannot be written (a full disk), its owner holds an empty file: the next start, however
  late, takes it for a stale lock of 1970, removes it and holds the lock as well.
\<close>

theorem unwritten_lock_is_shared:
  "\<exists>w. (calm_step True)\<^sup>*\<^sup>* (new_world (\<lambda>p. p = 1 \<or> p = 2) 1700000000000000000) w \<and> lw_alive w 1 \<and> lw_alive w 2
    \<and> lw_phase w 1 = Holding \<and> lw_phase w 2 = Holding"
proof -
  let ?w0 = "new_world (\<lambda>p. p = 1 \<or> p = 2) 1700000000000000000"
  let ?w1 = "acquire_step (no_faults\<lparr>lf_written := False\<rparr>) 1 ?w0"
  have w1: "?w1 = enter 1 Holding (?w0\<lparr>lw_file := Some (1, None)\<rparr>)"
    by (simp add: acquire_step_def acquire_cases phase_of_def new_world_def)
  have w2: "acquire_step no_faults 2 ?w1 = enter 2 Holding (enter 1 Holding (?w0\<lparr>lw_file := Some (2, Some (lock_text 2 1700000000000000000))\<rparr>))"
    unfolding w1 by (simp add: acquire_step_def acquire_cases phase_of_def read_lock_def lock_refuses_def new_world_def)
  have "calm_step True ?w0 ?w1" by (rule acquired) (simp_all add: new_world_def)
  moreover have "calm_step True ?w1 (acquire_step no_faults 2 ?w1)" by (rule acquired) (unfold w1, simp_all add: new_world_def)
  ultimately have "(calm_step True)\<^sup>*\<^sup>* ?w0 (acquire_step no_faults 2 ?w1)" by (meson converse_rtranclp_into_rtranclp rtranclp.rtrancl_refl)
  moreover have "lw_alive (acquire_step no_faults 2 ?w1) 1 \<and> lw_alive (acquire_step no_faults 2 ?w1) 2
      \<and> lw_phase (acquire_step no_faults 2 ?w1) 1 = Holding \<and> lw_phase (acquire_step no_faults 2 ?w1) 2 = Holding"
    unfolding w2 by (simp add: new_world_def)
  ultimately show ?thesis by blast
qed

section \<open>Stale locks\<close>

text \<open>A crashed owner blocks the workspace for thirty seconds at most; a living one keeps its lock.\<close>

lemma dead_owner_is_replaced:
  "\<not> alive q \<Longrightarrow> 30 * second \<le> now - t * second \<Longrightarrow>
     acquire_workspace_lock no_faults p alive now (Some (c, Some \<lparr>lk_pid = q, lk_created = t\<rparr>)) = (Acquired, Some (p, Some (lock_text p now)))"
  by (simp add: acquire_cases read_lock_def lock_refuses_def)

definition crashed_world :: lock_world where
  "crashed_world = (acquire_step no_faults 1 (new_world (\<lambda>p. p = 1 \<or> p = 2) 0))\<lparr>lw_alive := (\<lambda>p. p = 2), lw_now := 30000000000\<rparr>"

lemma holder_crashed:
  "(calm_step False)\<^sup>*\<^sup>* (new_world (\<lambda>p. p = 1 \<or> p = 2) 0) (acquire_step no_faults 2 crashed_world)"
  "lw_phase (acquire_step no_faults 2 crashed_world) 2 = Holding" "lw_alive (acquire_step no_faults 2 crashed_world) 2"
proof -
  let ?a = "new_world (\<lambda>p. p = 1 \<or> p = 2) 0" and ?w = "acquire_step no_faults 2 crashed_world"
  let ?b = "acquire_step no_faults 1 ?a"
  let ?c = "?b\<lparr>lw_alive := (lw_alive ?b)(1 := False)\<rparr>"
  have b: "?b = enter 1 Holding (?a\<lparr>lw_file := Some (1, Some \<lparr>lk_pid = 1, lk_created = 0\<rparr>)\<rparr>)"
    by (simp add: acquire_step_def acquire_cases phase_of_def new_world_def lock_text_def)
  have c: "crashed_world = ?c\<lparr>lw_now := lw_now ?c + 30000000000\<rparr>"
    unfolding crashed_world_def b by (auto simp: new_world_def fun_eq_iff enter_def)
  have "calm_step False ?a ?b" by (rule acquired) (simp_all add: new_world_def)
  moreover have "calm_step False ?b ?c" by (rule calm, rule ended) (simp add: b, simp add: new_world_def)
  moreover have "calm_step False ?c crashed_world" unfolding c by (rule calm, rule passed) simp
  moreover have "calm_step False crashed_world ?w" by (rule acquired) (simp_all add: crashed_world_def b, simp add: new_world_def)
  ultimately show "(calm_step False)\<^sup>*\<^sup>* ?a ?w" by (meson converse_rtranclp_into_rtranclp rtranclp.rtrancl_refl)
  have e: "crashed_world = \<lparr>lw_file = Some (1, Some \<lparr>lk_pid = 1, lk_created = 0\<rparr>), lw_phase = (\<lambda>_. Idle)(1 := Holding),
      lw_alive = (\<lambda>p. p = 2), lw_now = 30000000000\<rparr>"
    unfolding crashed_world_def b by (simp add: enter_def new_world_def)
  have "?w = enter 2 Holding (crashed_world\<lparr>lw_file := Some (2, Some (lock_text 2 30000000000))\<rparr>)"
    using dead_owner_is_replaced [of "\<lambda>p. p = 2" 1 30000000000 0 2 1] by (simp add: e acquire_step_def phase_of_def)
  then show "lw_phase ?w 2 = Holding" "lw_alive ?w 2" by (simp_all add: crashed_world_def)
qed


end
