(* ===== verification/Query.thy ===== *)
theory Query
  imports Url Encoding
begin

text \<open>
  \<open>url.Values\<close> with \<open>ParseQuery\<close> and \<open>Encode\<close> of \<open>net/url\<close>, and \<open>SplitHostPort\<close> of \<open>net\<close>.  A
  \<open>Values\<close> is a Go map from keys to lists of strings.
\<close>

section \<open>Escaping of query components\<close>

definition query_plain :: "char \<Rightarrow> bool" where
  "query_plain c \<longleftrightarrow> alnum c \<or> c \<in> set ''-_.~''"

definition query_escape :: "string \<Rightarrow> string" where
  "query_escape s = concat (map (\<lambda>c. if query_plain c then [c] else if c = CHR '' '' then ''+''
     else [CHR ''%'', upper_hex (byte c div 16), upper_hex (byte c mod 16)]) s)"

fun query_unescape :: "string \<Rightarrow> string option" where
  "query_unescape [] = Some []"
| "query_unescape (c # s) =
    (if c = CHR ''%'' then
       (case s of a # b # s' \<Rightarrow>
          (case (unhex a, unhex b) of
             (Some x, Some y) \<Rightarrow> map_option (Cons (char_of (x * 16 + y))) (query_unescape s')
           | _ \<Rightarrow> None)
        | _ \<Rightarrow> None)
     else map_option (Cons (if c = CHR ''+'' then CHR '' '' else c)) (query_unescape s))"

section \<open>Values\<close>

type_synonym url_values = "(string, string list) gomap"

definition values_get :: "url_values \<Rightarrow> string \<Rightarrow> string" where
  "values_get vs k = (case gm_get vs k of Some (v # _) \<Rightarrow> v | _ \<Rightarrow> [])"

definition values_set :: "string \<Rightarrow> string \<Rightarrow> url_values \<Rightarrow> url_values" where
  "values_set k v vs = gm_put k [v] vs"

definition values_add :: "string \<Rightarrow> string \<Rightarrow> url_values \<Rightarrow> url_values" where
  "values_add k v vs = gm_put k ((case gm_get vs k of Some l \<Rightarrow> l | None \<Rightarrow> []) @ [v]) vs"

text \<open>\<open>ParseQuery\<close>; the pairs it reports as malformed are dropped, as \<open>URL.Query\<close> does.\<close>

definition query_pair :: "string \<Rightarrow> (string \<times> string) option" where
  "query_pair p =
    (if CHR '';'' \<in> set p \<or> p = [] then None
     else case (query_unescape (fst (cut CHR ''='' p)), query_unescape (snd (cut CHR ''='' p))) of
       (Some k, Some v) \<Rightarrow> Some (k, v)
     | _ \<Rightarrow> None)"

definition parse_query :: "string \<Rightarrow> url_values" where
  "parse_query q = foldl (\<lambda>vs p. case query_pair p of None \<Rightarrow> vs | Some (k, v) \<Rightarrow> values_add k v vs) [] (split_on CHR ''&'' q)"

definition encode_values :: "url_values \<Rightarrow> string" where
  "encode_values vs = join_with ''&''
     (concat (map (\<lambda>(k, l). map (\<lambda>v. query_escape k @ ''='' @ query_escape v) l) (sort_key fst vs)))"

section \<open>Addresses with a port\<close>

text \<open>\<open>net.SplitHostPort\<close>; \<open>None\<close> is an error.\<close>

definition net_split_host_port :: "string \<Rightarrow> (string \<times> string) option" where
  "net_split_host_port hp =
    (case cut_last CHR '':'' hp of
       None \<Rightarrow> None
     | Some (before, port) \<Rightarrow>
         if has_prefix hp ''['' then
           (case index_byte CHR '']'' hp of
              None \<Rightarrow> None
            | Some e \<Rightarrow>
                if Suc e \<noteq> length before then None
                else if CHR ''['' \<in> set (drop 1 hp) \<or> CHR '']'' \<in> set (drop (Suc e) hp) then None
                else Some (drop 1 (take e hp), port))
         else if CHR '':'' \<in> set before then None
         else if CHR ''['' \<in> set hp \<or> CHR '']'' \<in> set hp then None
         else Some (before, port))"

text \<open>\<open>strings.Contains\<close>.\<close>

definition str_contains :: "string \<Rightarrow> string \<Rightarrow> bool" where
  "str_contains s sub \<longleftrightarrow> find_sub sub s \<noteq> None"

section \<open>What is escaped comes back\<close>

lemma query_unescape_append:
  "query_unescape s = Some a \<Longrightarrow> query_unescape (s @ t) = map_option ((@) a) (query_unescape t)"
proof (induction s arbitrary: a rule: query_unescape.induct)
  case 1
  then show ?case by (cases "query_unescape t") auto
next
  case (2 c s)
  show ?case
  proof (cases "c = CHR ''%''")
    case False
    then obtain a' where a: "query_unescape s = Some a'" "a = (if c = CHR ''+'' then CHR '' '' else c) # a'"
      using 2(3) by auto
    from 2(2) [OF False a(1)] False a(2) show ?thesis by (cases "query_unescape t") auto
  next
    case True
    then obtain x y s' n m a' where s: "s = x # y # s'" "unhex x = Some n" "unhex y = Some m"
        "query_unescape s' = Some a'" "a = char_of (n * 16 + m) # a'"
      using 2(3) by (auto split: list.splits option.splits)
    from 2(1) [OF True s(1) refl _ s(2) s(3) s(4)] s True show ?thesis by (cases "query_unescape t") auto
  qed
qed

lemma unhex_upper: "n < 16 \<Longrightarrow> unhex (upper_hex n) = Some n"
proof -
  assume "n < 16"
  then have "n \<in> {0, 1, 2, 3, 4, 5, 6, 7, 8, 9, 10, 11, 12, 13, 14, 15}" by (simp only: insert_iff empty_iff) presburger
  then show ?thesis by (auto simp: unhex_def upper_hex_def in_range_def byte_def)
qed

lemma query_escape_round_trip: "query_unescape (query_escape s) = Some s"
proof (induction s)
  case (Cons c s)
  let ?e = "if query_plain c then [c] else if c = CHR '' '' then ''+''
     else [CHR ''%'', upper_hex (byte c div 16), upper_hex (byte c mod 16)]"
  have "query_unescape ?e = Some [c]"
  proof (cases "query_plain c")
    case True
    then have "c \<noteq> CHR ''%'' \<and> c \<noteq> CHR ''+''" by (auto simp: query_plain_def alnum_def in_range_def byte_def)
    with True show ?thesis by simp
  next
    case False
    have "byte c div 16 < 16" using byte_less [of c] by (intro less_mult_imp_div_less) simp
    then show ?thesis using False by (simp add: unhex_upper)
  qed
  from query_unescape_append [OF this] Cons show ?case by (simp add: query_escape_def)
qed (simp add: query_escape_def)

end
