(* ===== verification/NetIP.thy ===== *)
theory NetIP
  imports ClientMetadata Query Paths
begin

text \<open>
  What the bridge uses of package \<open>net\<close>: \<open>ParseIP\<close> (through \<open>netip.ParseAddr\<close>), \<open>IsLoopback\<close>,
  \<open>JoinHostPort\<close>.
\<close>

section \<open>Parsing addresses\<close>

definition decimal :: "string \<Rightarrow> nat" where
  "decimal s = foldl (\<lambda>n c. n * 10 + (byte c - 48)) 0 s"

text \<open>A part of a dotted address: digits, no leading zero, at most 255.\<close>

definition octet :: "string \<Rightarrow> nat option" where
  "octet f = (if f \<noteq> [] \<and> list_all (in_range 48 57) f \<and> (hd f = CHR ''0'' \<longrightarrow> length f = 1) \<and> decimal f \<le> 255
     then Some (decimal f) else None)"

definition parse_ipv4 :: "string \<Rightarrow> nat option" where
  "parse_ipv4 s = (case map octet (split_on CHR ''.'' s) of
     [Some a, Some b, Some c, Some d] \<Rightarrow> Some (((a * 256 + b) * 256 + c) * 256 + d) | _ \<Rightarrow> None)"

definition hex_value :: "string \<Rightarrow> nat" where
  "hex_value s = foldl (\<lambda>n c. n * 16 + (case unhex c of Some d \<Rightarrow> d | None \<Rightarrow> 0)) 0 s"

text \<open>
  The loop of \<open>parseIPv6\<close>: the groups still allowed, the text, the groups read, the place of the ellipsis.
\<close>

fun ipv6_groups :: "nat \<Rightarrow> string \<Rightarrow> nat list \<Rightarrow> nat option \<Rightarrow> (nat list \<times> nat option \<times> string) option" where
  "ipv6_groups 0 s gs el = Some (gs, el, s)"
| "ipv6_groups (Suc n) s gs el =
    (let g = takeWhile (\<lambda>c. unhex c \<noteq> None) s; gs' = gs @ [hex_value g]
     in if g = [] \<or> 4 < length g then None
        else (case drop (length g) s of
           [] \<Rightarrow> Some (gs', el, [])
         | c # t \<Rightarrow>
            if c = CHR ''.'' then
              (if el = None \<and> length gs \<noteq> 6 \<or> 6 < length gs then None
               else (case parse_ipv4 s of None \<Rightarrow> None | Some v \<Rightarrow> Some (gs @ [v div 65536, v mod 65536], el, [])))
            else if c \<noteq> CHR '':'' \<or> t = [] then None
            else if hd t = CHR '':'' then
              (if el \<noteq> None then None
               else if tl t = [] then Some (gs', Some (length gs'), [])
               else ipv6_groups n (tl t) gs' (Some (length gs')))
            else ipv6_groups n t gs' el))"

definition ipv6_value :: "nat list \<Rightarrow> nat" where
  "ipv6_value gs = foldl (\<lambda>n g. n * 65536 + g) 0 gs"

definition finish_ipv6 :: "nat list \<times> nat option \<times> string \<Rightarrow> nat option" where
  "finish_ipv6 = (\<lambda>(gs, el, rest).
     if rest \<noteq> [] then None
     else if length gs < 8
     then (case el of None \<Rightarrow> None | Some e \<Rightarrow> Some (ipv6_value (take e gs @ replicate (8 - length gs) 0 @ drop e gs)))
     else if el \<noteq> None then None else Some (ipv6_value gs))"

definition parse_ipv6 :: "string \<Rightarrow> nat option" where
  "parse_ipv6 s =
    (if s = ''::'' then Some 0
     else case (if has_prefix s ''::'' then ipv6_groups 8 (drop 2 s) [] (Some 0) else ipv6_groups 8 s [] None) of
       None \<Rightarrow> None | Some r \<Rightarrow> finish_ipv6 r)"

text \<open>The first dot, colon or percent sign tells the family; an address with a zone is not an \<open>IP\<close>.\<close>

definition parse_ip :: "string \<Rightarrow> ip_addr option" where
  "parse_ip s =
    (case dropWhile (\<lambda>c. c \<noteq> CHR ''.'' \<and> c \<noteq> CHR '':'' \<and> c \<noteq> CHR ''%'') s of
       [] \<Rightarrow> None
     | c # _ \<Rightarrow> if c = CHR ''.'' then map_option IPv4 (parse_ipv4 s)
                else if CHR ''%'' \<in> set s then None else map_option IPv6 (parse_ipv6 s))"

definition is_loopback_addr :: "ip_addr \<Rightarrow> bool" where
  "is_loopback_addr a = (case unmap_addr a of IPv4 v \<Rightarrow> v div 2 ^ 24 = 127 | IPv6 v \<Rightarrow> v = 1)"

text \<open>\<open>isLoopbackHost\<close>.\<close>

definition is_loopback_host :: "string \<Rightarrow> bool" where
  "is_loopback_host host = (case parse_ip host of None \<Rightarrow> False | Some a \<Rightarrow> is_loopback_addr a)"

definition join_host_port :: "string \<Rightarrow> string \<Rightarrow> string" where
  "join_host_port host port =
    (if CHR '':'' \<in> set host \<or> CHR ''%'' \<in> set host then ''['' @ host @ '']:'' @ port else host @ '':'' @ port)"

section \<open>Dotted addresses\<close>

lemma digits_decimal: "decimal (digits n) = n"
proof (induction n rule: digits.induct)
  case (1 n)
  have byte: "byte (char_of (48 + d)) = 48 + d" if "d < 10" for d :: nat using that by (intro byte_char_of) simp
  show ?case
  proof (cases "n < 10")
    case True
    then show ?thesis by (simp add: digits.simps [of n] decimal_def byte)
  next
    case False
    then have "decimal (digits n) = decimal (digits (n div 10)) * 10 + n mod 10"
      by (simp add: digits.simps [of n] decimal_def byte)
    then show ?thesis using 1 False by simp
  qed
qed

lemma digits_shape: "digits n \<noteq> [] \<and> list_all (in_range 48 57) (digits n) \<and> (hd (digits n) = CHR ''0'' \<longrightarrow> length (digits n) = 1)
  \<and> (0 < n \<longrightarrow> hd (digits n) \<noteq> CHR ''0'')"
proof (induction n rule: digits.induct)
  case (1 n)
  have byte: "byte (char_of (48 + d)) = 48 + d" if "d < 10" for d :: nat using that by (intro byte_char_of) simp
  have zero: "char_of (48 + d) = CHR ''0'' \<longleftrightarrow> d = 0" if "d < 10" for d :: nat
    using that char_of_is(1) [of "48 + d" "CHR ''0''"] by (simp add: byte_def)
  show ?case
  proof (cases "n < 10")
    case True
    then have "digits n = [char_of (48 + n)]" by (simp add: digits.simps [of n])
    then show ?thesis using True zero [OF True] byte [OF True] by (simp add: in_range_def digits.simps [of 0])
  next
    case False
    then show ?thesis using 1 by (simp add: digits.simps [of n] in_range_def byte hd_append)
  qed
qed

lemma octet_digits: "n < 256 \<Longrightarrow> octet (digits n) = Some n"
  using digits_shape [of n] by (simp add: octet_def digits_decimal)

lemma digits_no_dot: "CHR ''.'' \<notin> set (digits n)"
  using digits_shape [of n] by (auto simp: list_all_iff in_range_def byte_def)

definition dotted :: "nat \<Rightarrow> nat \<Rightarrow> nat \<Rightarrow> nat \<Rightarrow> string" where
  "dotted a b c d = digits a @ ''.'' @ digits b @ ''.'' @ digits c @ ''.'' @ digits d"

lemma parse_dotted:
  assumes "a < 256" and "b < 256" and "c < 256" and "d < 256"
  shows "parse_ip (dotted a b c d) = Some (v4 a b c d)"
proof -
  have "split_on CHR ''.'' (dotted a b c d) = [digits a, digits b, digits c, digits d]"
    by (simp add: dotted_def split_on_head split_on_no_sep digits_no_dot)
  then have v: "parse_ipv4 (dotted a b c d) = Some (((a * 256 + b) * 256 + c) * 256 + d)"
    using assms by (simp add: parse_ipv4_def octet_digits)
  have "\<forall>x \<in> set (digits a). x \<noteq> CHR ''.'' \<and> x \<noteq> CHR '':'' \<and> x \<noteq> CHR ''%''"
    using digits_shape [of a] by (auto simp: list_all_iff in_range_def byte_def)
  then have "dropWhile (\<lambda>x. x \<noteq> CHR ''.'' \<and> x \<noteq> CHR '':'' \<and> x \<noteq> CHR ''%'') (dotted a b c d) = CHR ''.'' # digits b @ ''.'' @ digits c @ ''.'' @ digits d"
    unfolding dotted_def by (subst dropWhile_append2) auto
  then show ?thesis by (simp add: parse_ip_def v v4_def)
qed

text \<open>
  The bridge accepts a dotted address as its host exactly when it is a loopback address: every text of
  four numbers is read as those numbers, and it is a loopback address if and only if the first one is 127.
\<close>

theorem loopback_hosts_start_with_127:
  assumes "a < 256" and "b < 256" and "c < 256" and "d < 256"
  shows "is_loopback_host (dotted a b c d) \<longleftrightarrow> a = 127"
proof -
  have "(((a * 256 + b) * 256 + c) * 256 + d) div 2 ^ 24 = a" using assms by simp
  then show ?thesis by (simp add: is_loopback_host_def parse_dotted [OF assms] v4_def is_loopback_addr_def)
qed

theorem loopback_hosts_start_with_127_witness:
  "is_loopback_host (dotted 127 8 0 1) \<and> \<not> is_loopback_host (dotted 10 8 0 1)"
  using loopback_hosts_start_with_127 [of 127 8 0 1] loopback_hosts_start_with_127 [of 10 8 0 1] by simp

lemma eight_groups:
  "ipv6_groups 8 = ipv6_groups (Suc (Suc (Suc (Suc (Suc (Suc (Suc (Suc 0))))))))"
  by (simp add: eval_nat_numeral)

lemma zero_groups: "foldl (\<lambda>n g. n * 65536 + g) 0 (replicate k (0 :: nat)) = 0"
  by (induction k) simp_all

lemmas ip_eval = zero_groups is_loopback_host_def parse_ip_def parse_ipv4_def parse_ipv6_def octet_def decimal_def in_range_def byte_def
  has_prefix_def unhex_def hex_value_def ipv6_value_def finish_ipv6_def is_loopback_addr_def eight_groups

lemma loopback_texts:
  "is_loopback_host ''::1''" "is_loopback_host ''0:0::0:1''" "is_loopback_host ''::ffff:127.0.0.1''"
  "\<not> is_loopback_host ''127.0.0.01''" "\<not> is_loopback_host ''localhost''" "\<not> is_loopback_host ''::1%lo''"
  by (simp_all add: ip_eval)

end
