(* ===== verification/Assertion.thy ===== *)
theory Assertion
  imports AuthStore
begin

text \<open>
  \<open>internal/auth/client_assertion.go\<close>: verification of \<open>private_key_jwt\<close> client assertions and the
  cache of signing keys.  Parameters (\<open>jwt_lib\<close>): the JSON decoder on the four documents that are
  read, SHA-256, the RSA signature check, the check of \<open>MarshalPKIXPublicKey\<close>, and the HTTPS
  request for the key set.  Base 64 and the numbers are modelled.
\<close>

section \<open>Documents\<close>

definition chatgpt_client_id :: string where
  "chatgpt_client_id = ''https://chatgpt.com/oauth/client.json''"

definition chatgpt_jwks_uri :: string where
  "chatgpt_jwks_uri = ''https://chatgpt.com/oauth/jwks.json''"

text \<open>The JSON value of an audience claim, as far as the two \<open>Unmarshal\<close> calls distinguish it.\<close>

datatype aud_claim = AudMissing | AudNull | AudString string | AudList "string option list" | AudOther

record jwt_claims =
  jc_iss :: string
  jc_sub :: string
  jc_aud :: aud_claim
  jc_exp :: string
  jc_iat :: string
  jc_nbf :: string
  jc_jti :: string

record jwk =
  jk_kty :: string
  jk_use :: string
  jk_alg :: string
  jk_kid :: string
  jk_n :: string
  jk_e :: string

type_synonym rsa_key = "nat \<times> nat"

record jwt_lib =
  jl_header :: "string \<Rightarrow> (string \<times> string) option"
  jl_claims :: "string \<Rightarrow> jwt_claims option"
  jl_issuer :: "string \<Rightarrow> string option"
  jl_jwks :: "string \<Rightarrow> jwk list option"
  jl_sha256 :: "string \<Rightarrow> string"
  jl_verify :: "rsa_key \<Rightarrow> string \<Rightarrow> string \<Rightarrow> bool"
  jl_pkix_ok :: "rsa_key \<Rightarrow> bool"

definition client_assertion_issuer :: "jwt_lib \<Rightarrow> string \<Rightarrow> string" where
  "client_assertion_issuer lib assertion =
    (if length assertion = 0 \<or> 16 * 1024 < length assertion then []
     else let parts = split_on CHR ''.'' assertion in
       if length parts \<noteq> 3 then []
       else case b64_decode (parts ! 1) of
         None \<Rightarrow> []
       | Some payload \<Rightarrow>
          if 8192 < length payload then []
          else case jl_issuer lib payload of
            None \<Rightarrow> []
          | Some iss \<Rightarrow> if \<not> is_metadata_client_id iss then [] else iss)"

text \<open>\<open>json.Number.Int64\<close>: \<open>ParseInt\<close> in base 10 with 64 bits.\<close>

definition parse_digits :: "string \<Rightarrow> int option" where
  "parse_digits s =
    (if s \<noteq> [] \<and> list_all (in_range 48 57) s then Some (foldl (\<lambda>n c. n * 10 + int (byte c - 48)) 0 s) else None)"

definition parse_int64 :: "string \<Rightarrow> int option" where
  "parse_int64 s =
    (let (neg, ds) = (case s of c # r \<Rightarrow> if c = CHR ''-'' then (True, r) else if c = CHR ''+'' then (False, r) else (False, s)
                      | [] \<Rightarrow> (False, []))
     in case parse_digits ds of
          None \<Rightarrow> None
        | Some n \<Rightarrow>
            if neg then (if n \<le> 2 ^ 63 then Some (- n) else None)
            else (if n < 2 ^ 63 then Some n else None))"

definition jwt_audience_contains :: "aud_claim \<Rightarrow> string \<Rightarrow> bool" where
  "jwt_audience_contains raw expected =
    (case raw of
       AudString s \<Rightarrow> s = expected
     | AudNull \<Rightarrow> [] = expected
     | AudList as \<Rightarrow> list_ex (\<lambda>a. (case a of Some s \<Rightarrow> s | None \<Rightarrow> []) = expected) as
     | _ \<Rightarrow> False)"

section \<open>Signing keys\<close>

definition jwk_skipped :: "jwk \<Rightarrow> bool" where
  "jwk_skipped k \<longleftrightarrow> jk_kty k \<noteq> ''RSA'' \<or> jk_alg k \<noteq> ''RS256'' \<or> (jk_use k \<noteq> [] \<and> jk_use k \<noteq> ''sig'')
     \<or> jk_kid k = [] \<or> 256 < length (jk_kid k)"

text \<open>One key of the set; \<open>None\<close> is \<open>continue\<close>.\<close>

definition jwk_key :: "jwt_lib \<Rightarrow> jwk \<Rightarrow> rsa_key option" where
  "jwk_key lib k =
    (if jwk_skipped k then None
     else case (b64_decode (jk_n k), b64_decode (jk_e k)) of
       (Some modulus, Some exponent) \<Rightarrow>
         if length modulus < 256 \<or> 512 < length modulus \<or> length exponent = 0 \<or> 4 < length exponent then None
         else let e = bytes_value exponent; key = (bytes_value modulus, e) in
           if e < 3 \<or> e mod 2 = 0 then None
           else if \<not> jl_pkix_ok lib key then None
           else Some key
     | _ \<Rightarrow> None)"

definition parse_rsa_jwks :: "jwt_lib \<Rightarrow> string \<Rightarrow> (string, rsa_key) gomap option" where
  "parse_rsa_jwks lib body =
    (case jl_jwks lib body of
       None \<Rightarrow> None
     | Some items \<Rightarrow>
        if length items = 0 \<or> 32 < length items then None
        else let keys = foldl (\<lambda>m k. case jwk_key lib k of None \<Rightarrow> m | Some key \<Rightarrow> gm_put (jk_kid k) key m) [] items
          in if length keys = 0 then None else Some keys)"

record assertion_verifier =
  av_cache_ttl :: duration
  av_keys :: "(string, rsa_key) gomap"
  av_expires_at :: time

definition new_assertion_verifier :: assertion_verifier where
  "new_assertion_verifier = \<lparr>av_cache_ttl = 5 * minute, av_keys = [], av_expires_at = zero_time\<rparr>"

definition key_ttl :: "assertion_verifier \<Rightarrow> duration" where
  "key_ttl v = (if av_cache_ttl v \<le> 0 \<or> hour < av_cache_ttl v then 5 * minute else av_cache_ttl v)"

text \<open>\<open>response\<close> is what the request for the key set yields: a status and a body, or nothing.\<close>

definition assertion_key ::
  "jwt_lib \<Rightarrow> (nat \<times> string option) option \<Rightarrow> string \<Rightarrow> time \<Rightarrow> assertion_verifier \<Rightarrow> rsa_key option \<times> assertion_verifier" where
  "assertion_key lib response kid now v =
    (if now < av_expires_at v then (gm_get (av_keys v) kid, v)
     else case response of
       None \<Rightarrow> (None, v)
     | Some (status, body0) \<Rightarrow>
        if status \<noteq> 200 then (None, v)
        else case body0 of
          None \<Rightarrow> (None, v)
        | Some body \<Rightarrow>
           if 256 * 1024 < length body then (None, v)
           else case parse_rsa_jwks lib body of
             None \<Rightarrow> (None, v)
           | Some keys \<Rightarrow> (gm_get keys kid, v\<lparr>av_keys := keys, av_expires_at := now + key_ttl v\<rparr>))"

section \<open>Verification\<close>

definition not_before_ok :: "time \<Rightarrow> string \<Rightarrow> bool" where
  "not_before_ok now nbf \<longleftrightarrow> nbf = [] \<or> (case parse_int64 nbf of None \<Rightarrow> False | Some n \<Rightarrow> \<not> now + minute < n * second)"

definition issued_at_ok :: "time \<Rightarrow> string \<Rightarrow> bool" where
  "issued_at_ok now iat \<longleftrightarrow> iat = [] \<or> (case parse_int64 iat of None \<Rightarrow> False
     | Some n \<Rightarrow> \<not> now + minute < n * second \<and> \<not> n * second < now - 5 * minute)"

text \<open>The checks of the claims: the identifier of the assertion and its expiry.\<close>

definition check_claims :: "string \<Rightarrow> string \<Rightarrow> time \<Rightarrow> jwt_claims \<Rightarrow> (string \<times> time) option" where
  "check_claims client_id audience now c =
    (if jc_iss c \<noteq> client_id \<or> jc_sub c \<noteq> client_id \<or> \<not> jwt_audience_contains (jc_aud c) audience then None
     else case parse_int64 (jc_exp c) of
       None \<Rightarrow> None
     | Some n \<Rightarrow>
        let expires_at = n * second in
        if \<not> now < expires_at \<or> now + 5 * minute < expires_at then None
        else if \<not> issued_at_ok now (jc_iat c) then None
        else if \<not> not_before_ok now (jc_nbf c) then None
        else if jc_jti c = [] \<or> 256 < length (jc_jti c) then None
        else Some (jc_jti c, expires_at))"

text \<open>The key identifier of an acceptable header.\<close>

definition header_kid :: "jwt_lib \<Rightarrow> string \<Rightarrow> string option" where
  "header_kid lib part =
    (case b64_decode part of
       None \<Rightarrow> None
     | Some text \<Rightarrow>
        if 4096 < length text then None
        else case jl_header lib text of
          None \<Rightarrow> None
        | Some (alg, kid) \<Rightarrow> if alg \<noteq> ''RS256'' \<or> kid = [] \<or> 256 < length kid then None else Some kid)"

definition claims_of :: "jwt_lib \<Rightarrow> string \<Rightarrow> jwt_claims option" where
  "claims_of lib part =
    (case b64_decode part of
       None \<Rightarrow> None
     | Some text \<Rightarrow> if 8192 < length text then None else jl_claims lib text)"

definition verify_assertion ::
  "jwt_lib \<Rightarrow> (nat \<times> string option) option \<Rightarrow> string \<Rightarrow> auth_client \<Rightarrow> string \<Rightarrow> time \<Rightarrow> assertion_verifier
     \<Rightarrow> (string \<times> time) option \<times> assertion_verifier" where
  "verify_assertion lib response assertion client audience now v =
    (if ac_id client \<noteq> chatgpt_client_id \<or> ac_jwks_uri client \<noteq> chatgpt_jwks_uri \<or> ac_signing_alg client \<noteq> ''RS256''
     then (None, v)
     else if length assertion = 0 \<or> 16 * 1024 < length assertion then (None, v)
     else let parts = split_on CHR ''.'' assertion in
       if length parts \<noteq> 3 then (None, v)
       else case header_kid lib (parts ! 0) of
         None \<Rightarrow> (None, v)
       | Some kid \<Rightarrow>
       case claims_of lib (parts ! 1) of
         None \<Rightarrow> (None, v)
       | Some claims \<Rightarrow>
       case check_claims (ac_id client) audience now claims of
         None \<Rightarrow> (None, v)
       | Some verdict \<Rightarrow>
       case assertion_key lib response kid now v of
         (None, v') \<Rightarrow> (None, v')
       | (Some key, v') \<Rightarrow>
       case b64_decode (parts ! 2) of
         None \<Rightarrow> (None, v')
       | Some signature \<Rightarrow>
           if \<not> jl_verify lib key (jl_sha256 lib (parts ! 0 @ ''.'' @ parts ! 1)) signature then (None, v')
           else (Some verdict, v'))"

section \<open>What an accepted assertion proves\<close>

text \<open>The keys of a key set satisfy the checks on algorithm, lengths and exponent.\<close>

definition usable_key :: "rsa_key \<Rightarrow> bool" where
  "usable_key k \<longleftrightarrow> 3 \<le> snd k \<and> odd (snd k) \<and> snd k < 2 ^ 32 \<and> fst k < 2 ^ 4096"

lemma bytes_value_bound: "bytes_value bs < 256 ^ length bs"
proof (induction bs rule: rev_induct)
  case (snoc c bs)
  have "bytes_value bs * 256 + byte c < (bytes_value bs + 1) * 256" by simp
  also have "\<dots> \<le> 256 ^ length bs * 256" using snoc by (intro mult_le_mono1) simp
  finally show ?case by (simp add: bytes_value_def)
qed (simp add: bytes_value_def)

lemma jwk_key_usable: "jwk_key lib k = Some key \<Longrightarrow> usable_key key"
proof -
  assume "jwk_key lib k = Some key"
  then obtain m e where k: "key = (bytes_value m, bytes_value e)" "length m \<le> 512" "length e \<le> 4"
      "3 \<le> bytes_value e" "odd (bytes_value e)"
    by (auto simp: jwk_key_def Let_def odd_iff_mod_2_eq_one split: if_splits option.splits)
  have "bytes_value m < 256 ^ length m" "(256 :: nat) ^ length m \<le> 256 ^ 512"
    by (simp_all only: bytes_value_bound power_increasing k(2) one_le_numeral)
  moreover have "(256 :: nat) ^ 512 = 2 ^ 4096" using power_mult [of "2 :: nat" 8 512] by simp
  moreover have "bytes_value e < 256 ^ length e" "(256 :: nat) ^ length e \<le> 256 ^ 4"
    by (simp_all only: bytes_value_bound power_increasing k(3) one_le_numeral)
  ultimately show ?thesis using k by (simp add: usable_key_def)
qed

lemma parse_rsa_jwks_usable:
  assumes "parse_rsa_jwks lib body = Some keys" and "gm_get keys kid = Some key"
  shows "usable_key key"
proof -
  let ?add = "\<lambda>m k. case jwk_key lib k of None \<Rightarrow> m | Some key \<Rightarrow> gm_put (jk_kid k) key m"
  have "usable_key key" if "gm_get (foldl ?add m items) kid = Some key" "\<forall>key'. gm_get m kid = Some key' \<longrightarrow> usable_key key'"
    for m items
    using that
  proof (induction items arbitrary: m)
    case (Cons k items)
    have "\<forall>key'. gm_get (?add m k) kid = Some key' \<longrightarrow> usable_key key'"
    proof (cases "jwk_key lib k")
      case (Some key')
      then show ?thesis using Cons.prems(2) jwk_key_usable [OF Some] by (auto simp: gomap_simps)
    qed (use Cons.prems(2) in simp)
    from Cons.IH [OF _ this] Cons.prems(1) show ?case by simp
  qed simp
  from this [of "[]"] assms show ?thesis
    by (auto simp: parse_rsa_jwks_def Let_def split: option.splits if_splits)
qed

text \<open>The invariant of the key cache: usable keys, and none is served an hour after \<open>last\<close> or later.\<close>

definition verifier_inv :: "time \<Rightarrow> assertion_verifier \<Rightarrow> bool" where
  "verifier_inv fetched v \<longleftrightarrow> (\<forall>kid key. gm_get (av_keys v) kid = Some key \<longrightarrow> usable_key key)
     \<and> av_expires_at v \<le> fetched + hour"

lemma key_ttl_bounds: "0 < key_ttl v" "key_ttl v \<le> hour"
  by (simp_all add: key_ttl_def)

lemma assertion_key_inv:
  assumes "assertion_key lib response kid now v = (k, v')" and "verifier_inv fetched v"
  shows "(\<exists>fetched'. (fetched' = fetched \<or> fetched' = now) \<and> verifier_inv fetched' v' \<and> (\<forall>key. k = Some key \<longrightarrow> usable_key key \<and> now < fetched' + hour))"
proof (cases "now < av_expires_at v")
  case True
  then have "k = gm_get (av_keys v) kid \<and> v' = v" using assms(1) by (auto simp: assertion_key_def)
  with True assms(2) show ?thesis by (auto simp: verifier_inv_def)
next
  case False
  show ?thesis
  proof (cases "v' = v \<and> k = None")
    case True
    with assms(2) show ?thesis by auto
  next
    case changed: False
    then obtain body keys where new: "parse_rsa_jwks lib body = Some keys" "k = gm_get keys kid"
        "v' = v\<lparr>av_keys := keys, av_expires_at := now + key_ttl v\<rparr>"
      using assms(1) False by (auto simp: assertion_key_def split: option.splits if_splits prod.splits)
    have "verifier_inv now v'"
      using parse_rsa_jwks_usable [OF new(1)] key_ttl_bounds [of v] by (simp add: verifier_inv_def new(3))
    moreover have "usable_key key" if "k = Some key" for key using parse_rsa_jwks_usable [OF new(1)] that new(2) by simp
    ultimately show ?thesis by (auto intro!: exI [of _ now])
  qed
qed

text \<open>
  C38: an accepted client assertion is a compact JWT for the ChatGPT client itself (issuer and
  subject), names the expected audience, is alive for at most five more minutes, and its signature
  over header and claims was checked with a usable key from the published key set that was fetched
  less than an hour ago.
\<close>

theorem accepted_assertion_is_bound:
  assumes "verify_assertion lib response assertion client audience now v = (Some (jti, expires_at), v')"
    and "verifier_inv fetched v"
  shows "ac_id client = chatgpt_client_id \<and> now < expires_at \<and> expires_at \<le> now + 5 * minute \<and> jti \<noteq> []
    \<and> (\<exists>head body sig claims key signature fetched'.
         split_on CHR ''.'' assertion = [head, body, sig] \<and> claims_of lib body = Some claims
         \<and> jc_iss claims = chatgpt_client_id \<and> jc_sub claims = chatgpt_client_id \<and> jc_jti claims = jti
         \<and> jwt_audience_contains (jc_aud claims) audience
         \<and> b64_decode sig = Some signature \<and> jl_verify lib key (jl_sha256 lib (head @ ''.'' @ body)) signature
         \<and> usable_key key \<and> (fetched' = fetched \<or> fetched' = now) \<and> now < fetched' + hour)"
proof -
  let ?p = "split_on CHR ''.'' assertion"
  obtain kid claims key signature where ok: "length ?p = 3" "ac_id client = chatgpt_client_id"
      "claims_of lib (?p ! 1) = Some claims"
      "check_claims (ac_id client) audience now claims = Some (jti, expires_at)"
      "assertion_key lib response kid now v = (Some key, v')" "b64_decode (?p ! 2) = Some signature"
      "jl_verify lib key (jl_sha256 lib (?p ! 0 @ ''.'' @ ?p ! 1)) signature"
    using assms(1) by (auto simp: verify_assertion_def Let_def split: if_splits option.splits prod.splits)
  obtain head body sig where p: "?p = [head, body, sig]"
    using ok(1) by (auto simp: length_Suc_conv eval_nat_numeral)
  obtain f where "f = fetched \<or> f = now" "usable_key key" "now < f + hour"
    using assertion_key_inv [OF ok(5) assms(2)] by blast
  moreover have "jc_iss claims = ac_id client" "jc_sub claims = ac_id client" "jwt_audience_contains (jc_aud claims) audience"
      "jc_jti claims = jti" "jti \<noteq> []" "now < expires_at" "expires_at \<le> now + 5 * minute"
    using ok(4) by (auto simp: check_claims_def Let_def split: if_splits option.splits)
  moreover note ok p
  ultimately show ?thesis by (intro conjI exI [of _ head] exI [of _ body] exI [of _ sig] exI [of _ claims] exI [of _ key]
      exI [of _ signature] exI [of _ f]) simp_all
qed

definition example_claims :: jwt_claims where
  "example_claims = \<lparr>jc_iss = chatgpt_client_id, jc_sub = chatgpt_client_id, jc_aud = AudList [None, Some ''t''],
     jc_exp = ''20'', jc_iat = [], jc_nbf = ''10'', jc_jti = ''j''\<rparr>"

definition example_jwt_lib :: jwt_lib where
  "example_jwt_lib = \<lparr>jl_header = (\<lambda>_. Some (''RS256'', ''k'')), jl_claims = (\<lambda>_. Some example_claims), jl_issuer = (\<lambda>_. None),
     jl_jwks = (\<lambda>_. None), jl_sha256 = id, jl_verify = (\<lambda>k d s. s = ''a''), jl_pkix_ok = (\<lambda>_. True)\<rparr>"

definition example_chatgpt :: auth_client where
  "example_chatgpt = \<lparr>ac_id = chatgpt_client_id, ac_name = ''C'', ac_redirect_uris = [], ac_auth_method = ''private_key_jwt'',
     ac_grant_types = [], ac_response_types = [], ac_application_type = [], ac_jwks_uri = chatgpt_jwks_uri,
     ac_signing_alg = ''RS256'', ac_created_at = []\<rparr>"

definition example_verifier :: assertion_verifier where
  "example_verifier = \<lparr>av_cache_ttl = 0, av_keys = [(''k'', (5, 3))], av_expires_at = 100 * second\<rparr>"

lemma example_b64: "b64_decode ''YQ'' = Some ''a''"
proof -
  have "b64_encode ''a'' = ''YQ''" by (simp add: b64_char_def b64_alphabet_def byte_def)
  then show ?thesis using b64_round_trip [of "''a''"] by simp
qed

lemma example_assertion:
  "verify_assertion example_jwt_lib None ''YQ.YQ.YQ'' example_chatgpt ''t'' (15 * second) example_verifier
     = (Some (''j'', 20 * second), example_verifier)"
  by (simp add: verify_assertion_def example_chatgpt_def header_kid_def claims_of_def check_claims_def example_claims_def
      example_jwt_lib_def example_b64 jwt_audience_contains_def parse_int64_def parse_digits_def in_range_def byte_def
      issued_at_ok_def not_before_ok_def assertion_key_def example_verifier_def Let_def)

theorem accepted_assertion_is_bound_witness:
  "ac_id example_chatgpt = chatgpt_client_id \<and> 15 * second < (20 :: int) * second"
proof -
  have "verifier_inv 0 example_verifier"
    by (simp add: verifier_inv_def example_verifier_def usable_key_def)
  from accepted_assertion_is_bound [OF example_assertion this] show ?thesis by simp
qed

end
