(* ===== verification/OAuthServer.thy ===== *)
theory OAuthServer
  imports Assertion Query Pairing RateLimit
begin

text \<open>
  \<open>internal/auth/http.go\<close>: the OAuth endpoints over the token store, the pairing manager and the
  request limiters.  A handler is a transformer of the server state that yields the response it
  writes; \<open>Panicked\<close> is a nil dereference.  What surrounds a request is its \<open>http_env\<close>: the readings
  of \<open>s.now()\<close> and of the clock of the store, the base URL the callback returns, what the metadata
  resolver and the assertion verifier (interfaces of the server) answer, the random draws, and the
  error of the state write.  A Go map that is written as JSON is a list of members.
\<close>

section \<open>Requests and responses\<close>

datatype registration_body = NotObject | TrailingData string | Registration client_metadata

text \<open>
  \<open>hr_form\<close> is what \<open>ParseForm\<close> leaves in \<open>PostForm\<close> (or the text of its error), \<open>hr_json\<close> the
  string-valued members of a body that is one JSON object.
\<close>

record http_request =
  hr_method :: string
  hr_query :: string
  hr_remote_addr :: string
  hr_cf_ip :: string
  hr_content_type :: string
  hr_authorization :: string
  hr_form :: "string + url_values"
  hr_json :: "string + (string \<times> string) list"
  hr_registration :: registration_body

datatype json = JStr string | JStrs "string list" | JBool bool | JInt int

record pairing_page =
  pp_request_id :: string
  pp_workspace_name :: string
  pp_scopes :: "string list"
  pp_error :: string

datatype http_body =
    NoBody | JsonBody "(string \<times> json) list" | TextBody string | PageBody pairing_page | NavigationBody string

record http_response =
  hs_status :: nat
  hs_headers :: "(string \<times> string) list"
  hs_body :: http_body

datatype outcome = Panicked | Answer http_response

record oauth_lib =
  xl_auth :: auth_lib
  xl_fold :: "nat \<Rightarrow> nat"
  xl_upper :: "nat \<Rightarrow> nat"
  xl_parse_ip :: "string \<Rightarrow> string option"
  xl_parse_unix :: "string \<Rightarrow> int"
  xl_scope_text :: "string \<Rightarrow> string"

record http_env =
  he_clk :: "nat \<Rightarrow> time"
  he_store_clk :: "nat \<Rightarrow> time"
  he_base :: string
  he_resolve :: "string \<Rightarrow> auth_client option"
  he_verify :: "(string \<Rightarrow> auth_client \<Rightarrow> string \<Rightarrow> time \<Rightarrow> (string \<times> time) option) option"
  he_issuer :: "string \<Rightarrow> string"
  he_draw :: "string option"
  he_draws :: draws
  he_write :: "string option"

definition json_headers :: "(string \<times> string) list" where
  "json_headers = [(''Content-Type'', ''application/json; charset=utf-8''), (''Cache-Control'', ''no-store''),
     (''Pragma'', ''no-cache'')]"

definition write_json :: "nat \<Rightarrow> (string \<times> json) list \<Rightarrow> http_response" where
  "write_json status v = \<lparr>hs_status = status, hs_headers = json_headers, hs_body = JsonBody v\<rparr>"

definition oauth_error_response :: "nat \<Rightarrow> string \<Rightarrow> string \<Rightarrow> http_response" where
  "oauth_error_response status code description =
     write_json status [(''error'', JStr code), (''error_description'', JStr description)]"

definition m_not_allowed :: "string list \<Rightarrow> http_response" where
  "m_not_allowed allowed =
     (let r = write_json 405 [(''error'', JStr (''m'' @ ''ethod_not_allowed''))]
      in r\<lparr>hs_headers := (''Allow'', join_with '', '' allowed) # hs_headers r\<rparr>)"

text \<open>The headers of \<open>secureHTMLHeaders\<close>; \<open>'self'\<close> is written with its quotes.\<close>

definition quoted :: "string \<Rightarrow> string" where
  "quoted s = CHR 0x27 # s @ [CHR 0x27]"

definition html_policy :: string where
  "html_policy = ''default-src '' @ quoted ''none'' @ ''; style-src '' @ quoted ''unsafe-inline'' @ ''; form-action ''
     @ quoted ''self'' @ ''; frame-ancestors '' @ quoted ''none'' @ ''; base-uri '' @ quoted ''none''"

definition navigation_policy :: string where
  "navigation_policy = ''default-src '' @ quoted ''none'' @ ''; style-src '' @ quoted ''unsafe-inline'' @ ''; frame-ancestors ''
     @ quoted ''none'' @ ''; base-uri '' @ quoted ''none''"

definition secure_html_headers :: "(string \<times> string) list" where
  "secure_html_headers = [(''Cache-Control'', ''no-store''), (''Content-Security-Policy'', html_policy),
     (''Referrer-Policy'', ''no-referrer''), (''X-Content-Type-Options'', ''nosniff''), (''X-Frame-Options'', ''DENY'')]"

text \<open>\<open>http.Error\<close> sets its own content type, after \<open>secureHTMLHeaders\<close> where \<open>secure\<close> holds.\<close>

definition http_error :: "bool \<Rightarrow> nat \<Rightarrow> string \<Rightarrow> http_response" where
  "http_error secure status text =
    \<lparr>hs_status = status, hs_headers = (if secure then secure_html_headers else [])
        @ [(''Content-Type'', ''text/plain; charset=utf-8''), (''X-Content-Type-Options'', ''nosniff'')],
     hs_body = TextBody text\<rparr>"

definition html_page :: "nat \<Rightarrow> pairing_page \<Rightarrow> http_response" where
  "html_page status page = \<lparr>hs_status = status,
     hs_headers = secure_html_headers @ [(''Content-Type'', ''text/html; charset=utf-8'')], hs_body = PageBody page\<rparr>"

definition write_authorization_redirect :: "string \<Rightarrow> http_response" where
  "write_authorization_redirect location =
    \<lparr>hs_status = 200,
     hs_headers = [(''Cache-Control'', ''no-store''), (''Content-Security-Policy'', navigation_policy),
       (''Referrer-Policy'', ''no-referrer''), (''X-Content-Type-Options'', ''nosniff''), (''X-Frame-Options'', ''DENY''),
       (''Content-Type'', ''text/html; charset=utf-8''), (''Location'', location)],
     hs_body = NavigationBody location\<rparr>"

definition oauth_code :: "auth_error \<Rightarrow> string" where
  "oauth_code e = (case e of ErrInvalidGrant \<Rightarrow> ''invalid_grant'' | ErrInvalidClient \<Rightarrow> ''invalid_client''
     | ErrInvalidTarget \<Rightarrow> ''invalid_target'' | ErrCapacity \<Rightarrow> ''temporarily_unavailable'' | _ \<Rightarrow> ''server_error'')"

definition oauth_status :: "auth_error \<Rightarrow> nat" where
  "oauth_status e = (if e = ErrCapacity then 503 else 400)"

definition write_token_set :: "token_set \<Rightarrow> http_response" where
  "write_token_set ts = write_json 200
     ([(''access_token'', JStr (ts_access ts)), (''token_type'', JStr ''Bearer''), (''expires_in'', JInt (ts_expires_in ts)),
       (''scope'', JStr (join_with '' '' (ts_scopes ts)))]
      @ (if ts_refresh ts \<noteq> [] then [(''refresh_token'', JStr (ts_refresh ts))] else []))"

definition pairing_failure_message :: "pairing_result \<Rightarrow> string" where
  "pairing_failure_message r =
    (case pr_failure r of
       Some PairingInvalid \<Rightarrow> ''The code is not correct. '' @ digits (nat (pr_attempts_left r)) @ '' attempt(s) remain.''
     | Some PairingExpired \<Rightarrow> ''The code expired. Generate a new code in the local CLI.''
     | Some PairingTooManyAttempts \<Rightarrow> ''The code was locked after too many attempts. Generate a new one.''
     | Some PairingRateLimited \<Rightarrow> ''Too many attempts from this address. Try again after a short pause.''
     | _ \<Rightarrow> ''No active pairing code exists. Generate one in the local CLI.'')"

definition client_ip :: "oauth_lib \<Rightarrow> http_request \<Rightarrow> string" where
  "client_ip lib q =
    (let v = trim_space (hr_cf_ip q);
         fallback = (case net_split_host_port (hr_remote_addr q) of Some (host, _) \<Rightarrow> host | None \<Rightarrow> hr_remote_addr q)
     in if v \<noteq> [] then (case xl_parse_ip lib v of Some ip \<Rightarrow> ip | None \<Rightarrow> fallback) else fallback)"

definition parse_oauth_parameters :: "oauth_lib \<Rightarrow> http_request \<Rightarrow> string + url_values" where
  "parse_oauth_parameters lib q =
    (if str_contains (to_lower (al_lower (xl_auth lib)) (hr_content_type q)) ''application/json''
     then map_sum (\<lambda>e. e) (foldl (\<lambda>vs (k, v). values_set k v vs) []) (hr_json q)
     else hr_form q)"

definition secure_id :: "string option \<Rightarrow> string option" where
  "secure_id draw = map_option b64_encode draw"

section \<open>The server\<close>

record pending_authorization =
  pa_id :: string
  pa_client_id :: string
  pa_redirect_uri :: string
  pa_scopes :: "string list"
  pa_state :: string
  pa_challenge :: string
  pa_audience :: string
  pa_refresh_allowed :: bool
  pa_expires_at :: time

record completed_authorization =
  ca_location :: string
  ca_expires_at :: time

record oauth_server =
  os_store :: auth_store
  os_pairing :: pairing_manager
  os_workspace_name :: string
  os_pending :: "(string, pending_authorization) gomap"
  os_completed :: "(string, completed_authorization) gomap"
  os_jtis :: "(string, time) gomap"
  os_limits :: oauth_limits
  os_register_limiter :: request_limiter
  os_authorize_limiter :: request_limiter

definition new_oauth_server :: "auth_store \<Rightarrow> pairing_manager \<Rightarrow> string \<Rightarrow> oauth_limits option \<Rightarrow> oauth_server" where
  "new_oauth_server store pairing workspace_name limits0 =
    (let limits = normalize_oauth_limits (case limits0 of None \<Rightarrow> default_oauth_limits | Some l \<Rightarrow> normalize_oauth_limits l)
     in \<lparr>os_store = store, os_pairing = pairing, os_workspace_name = workspace_name, os_pending = [], os_completed = [],
         os_jtis = [], os_limits = limits,
         os_register_limiter = new_request_limiter (ol_registration_per_ip limits) (ol_registration_global limits)
           (ol_window limits) (ol_max_tracked_addresses limits),
         os_authorize_limiter = new_request_limiter (ol_authorization_per_ip limits) (ol_authorization_global limits)
           (ol_window limits) (ol_max_tracked_addresses limits)\<rparr>)"

definition trimmed_base :: "http_env \<Rightarrow> string" where
  "trimmed_base env = trim_right_chars ''/'' (he_base env)"

definition canonical_audience :: "oauth_lib \<Rightarrow> http_env \<Rightarrow> string" where
  "canonical_audience lib env =
    (case canonical_resource (al_lower (xl_auth lib)) (trimmed_base env @ ''/mcp'') of
       None \<Rightarrow> trimmed_base env @ ''/mcp''
     | Some r \<Rightarrow> r)"

definition authorization_metadata :: "http_env \<Rightarrow> http_request \<Rightarrow> http_response" where
  "authorization_metadata env q =
    (if hr_method q \<noteq> ''GET'' then m_not_allowed [''GET'']
     else let base = trimmed_base env in write_json 200
       [(''issuer'', JStr base),
        (''authorization_endpoint'', JStr (base @ ''/oauth/authorize'')),
        (''token_endpoint'', JStr (base @ ''/oauth/token'')),
        (''registration_endpoint'', JStr (base @ ''/oauth/register'')),
        (''revocation_endpoint'', JStr (base @ ''/oauth/revoke'')),
        (''response_types_supported'', JStrs [''code'']),
        (''response_modes_supported'', JStrs [''query'']),
        (''grant_types_supported'', JStrs [''authorization_code'', ''refresh_token'']),
        (''code_challenge_m'' @ ''ethods_supported'', JStrs [''S256'']),
        (''token_endpoint_auth_m'' @ ''ethods_supported'', JStrs [''none'', ''private_key_jwt'']),
        (''token_endpoint_auth_signing_alg_values_supported'', JStrs [''RS256'']),
        (''client_id_metadata_document_supported'', JBool True),
        (''authorization_response_iss_parameter_supported'', JBool True),
        (''scopes_supported'', JStrs supported_scopes)])"

definition resource_metadata :: "oauth_lib \<Rightarrow> http_env \<Rightarrow> http_request \<Rightarrow> http_response" where
  "resource_metadata lib env q =
    (if hr_method q \<noteq> ''GET'' then m_not_allowed [''GET'']
     else write_json 200
       [(''resource'', JStr (canonical_audience lib env)),
        (''authorization_servers'', JStrs [trimmed_base env]),
        (''scopes_supported'', JStrs supported_scopes),
        (''bearer_m'' @ ''ethods_supported'', JStrs [''header'']),
        (''resource_name'', JStr ''CodexLink'')])"

definition rate_limited_headers :: "oauth_server \<Rightarrow> (string \<times> string) list" where
  "rate_limited_headers s = [(''Retry-After'', digits (nat (ol_window (os_limits s) div second)))]"

definition registered_body :: "oauth_lib \<Rightarrow> auth_client \<Rightarrow> (string \<times> json) list" where
  "registered_body lib c =
    [(''client_id'', JStr (ac_id c)), (''client_id_issued_at'', JInt (xl_parse_unix lib (ac_created_at c))),
     (''client_name'', JStr (ac_name c)), (''redirect_uris'', JStrs (ac_redirect_uris c)),
     (''token_endpoint_auth_m'' @ ''ethod'', JStr (ac_auth_method c)), (''grant_types'', JStrs (ac_grant_types c)),
     (''response_types'', JStrs (ac_response_types c)), (''application_type'', JStr (ac_application_type c))]"

text \<open>The text of an error of \<open>RegisterClientMetadata\<close>; only whether it names a redirect URI matters.\<close>

definition registration_error_text :: "auth_error \<Rightarrow> string" where
  "registration_error_text e = (case e of ErrMetadata what \<Rightarrow> what | ErrSave what \<Rightarrow> what | _ \<Rightarrow> ''rand'')"

definition register_client :: "oauth_lib \<Rightarrow> http_env \<Rightarrow> http_request \<Rightarrow> oauth_server \<Rightarrow> outcome \<times> oauth_server" where
  "register_client lib env q s0 =
    (if hr_method q = ''OPTIONS'' then (Answer \<lparr>hs_status = 204, hs_headers = [], hs_body = NoBody\<rparr>, s0)
     else if hr_method q \<noteq> ''POST'' then (Answer (m_not_allowed [''POST'']), s0)
     else let (allowed, limiter) = rl_allow (os_register_limiter s0) (client_ip lib q, he_clk env 0);
              s = s0\<lparr>os_register_limiter := limiter\<rparr>
       in if \<not> allowed then
            (let r = oauth_error_response 429 ''temporarily_unavailable'' ''client registration rate limit exceeded''
             in (Answer (r\<lparr>hs_headers := rate_limited_headers s @ hs_headers r\<rparr>), s))
          else case hr_registration q of
            NotObject \<Rightarrow> (Answer (oauth_error_response 400 ''invalid_client_metadata'' ''request body must be a JSON object''), s)
          | TrailingData text \<Rightarrow> (Answer (oauth_error_response 400 ''invalid_client_metadata'' text), s)
          | Registration metadata \<Rightarrow>
              let (res, store) = register_client_metadata (xl_auth lib) (xl_fold lib) (he_store_clk env) (he_write env) (he_draw env)
                    metadata (os_store s);
                  s' = s\<lparr>os_store := store\<rparr>
              in case res of
                   Inl ErrPanic \<Rightarrow> (Panicked, s')
                 | Inl ErrCapacity \<Rightarrow>
                     (Answer (oauth_error_response 503 ''temporarily_unavailable'' ''client registration capacity reached''), s')
                 | Inl e \<Rightarrow>
                     (Answer (oauth_error_response 400
                        (if str_contains (registration_error_text e) ''redirect URI'' then ''invalid_redirect_uri'' else ''invalid_client_metadata'')
                        (registration_error_text e)), s')
                 | Inr client \<Rightarrow> (Answer (write_json 201 (registered_body lib client)), s'))"

definition resolve_oauth_client :: "http_env \<Rightarrow> string \<Rightarrow> oauth_server \<Rightarrow> auth_client option" where
  "resolve_oauth_client env client_id s =
    (case find_client client_id (os_store s) of
       Some c \<Rightarrow> Some c
     | None \<Rightarrow> if \<not> is_metadata_client_id client_id then None else he_resolve env client_id)"

definition pending_dead :: "time \<Rightarrow> pending_authorization \<Rightarrow> bool" where
  "pending_dead now p \<longleftrightarrow> \<not> now < pa_expires_at p"

definition completed_dead :: "time \<Rightarrow> completed_authorization \<Rightarrow> bool" where
  "completed_dead now c \<longleftrightarrow> \<not> now < ca_expires_at c"

definition prune_pending :: "time \<Rightarrow> oauth_server \<Rightarrow> oauth_server" where
  "prune_pending now s = s\<lparr>os_pending := gm_retain (\<lambda>_ p. \<not> pending_dead now p) (os_pending s),
     os_completed := gm_retain (\<lambda>_ c. \<not> completed_dead now c) (os_completed s)\<rparr>"

text \<open>
  A location with the given parameters set in its query: \<open>url.Parse\<close>, \<open>Query\<close>, \<open>Set\<close>, \<open>Encode\<close>,
  \<open>String\<close>.  \<open>None\<close>: the parse failed, and its error is ignored.
\<close>

definition with_parameters :: "(string \<times> string) list \<Rightarrow> string \<Rightarrow> string option" where
  "with_parameters ps redirect =
    map_option (\<lambda>u. url_string (u\<lparr>u_raw_query := encode_values
      (foldl (\<lambda>vs (k, v). values_set k v vs) (parse_query (u_raw_query u)) ps)\<rparr>)) (url_parse redirect)"

definition failure_parameters :: "http_env \<Rightarrow> string \<Rightarrow> string \<Rightarrow> string \<Rightarrow> (string \<times> string) list" where
  "failure_parameters env code description state =
    [(''error'', code), (''error_description'', description)] @ (if state \<noteq> [] then [(''state'', state)] else [])
      @ [(''iss'', trimmed_base env)]"

definition success_parameters :: "http_env \<Rightarrow> string \<Rightarrow> string \<Rightarrow> (string \<times> string) list" where
  "success_parameters env code state =
    [(''code'', code)] @ (if state \<noteq> [] then [(''state'', state)] else []) @ [(''iss'', trimmed_base env)]"

text \<open>The closure \<open>fail\<close> of \<open>authorizeStart\<close>.\<close>

definition fail_redirect :: "http_env \<Rightarrow> string \<Rightarrow> string \<Rightarrow> string \<Rightarrow> string \<Rightarrow> outcome" where
  "fail_redirect env redirect state code description =
    (case with_parameters (failure_parameters env code description state) redirect of
       None \<Rightarrow> Panicked
     | Some location \<Rightarrow> Answer \<lparr>hs_status = 302, hs_headers = [(''Location'', location)], hs_body = NoBody\<rparr>)"

text \<open>
  The checks of an authorization request after its redirect URI: an error for \<open>fail\<close>, or the scopes,
  the challenge and whether refresh tokens are allowed.
\<close>

definition check_authorization ::
  "oauth_lib \<Rightarrow> http_env \<Rightarrow> url_values \<Rightarrow> auth_client \<Rightarrow> (string \<times> string) + (string \<times> string list \<times> bool)" where
  "check_authorization lib env query client =
    (if values_get query ''response_type'' \<noteq> ''code''
     then Inl (''unsupported_response_type'', ''only response_type=code is supported'')
     else let challenge = values_get query ''code_challenge'' in
       if values_get query (''code_challenge_m'' @ ''ethod'') \<noteq> ''S256'' \<or> \<not> valid_challenge challenge
       then Inl (''invalid_request'', ''PKCE S256 is required'')
       else if values_get query ''resource'' \<noteq> []
               \<and> \<not> same_resource (al_lower (xl_auth lib)) (values_get query ''resource'') (canonical_audience lib env)
       then Inl (''invalid_target'', ''resource does not identify this MCP endpoint'')
       else case parse_scopes (values_get query ''scope'') of
         Inl _ \<Rightarrow> Inl (''invalid_scope'', xl_scope_text lib (values_get query ''scope''))
       | Inr scopes \<Rightarrow>
          let refresh_allowed = contains_string (ac_grant_types client) ''refresh_token'' in
          if contains_scope scopes ''offline_access'' \<and> \<not> refresh_allowed
          then Inl (''invalid_scope'', ''offline_access requires the refresh_token grant'')
          else Inr (challenge, scopes, refresh_allowed))"

text \<open>An acceptable request becomes pending, if there is room.\<close>

definition accept_authorization ::
  "oauth_lib \<Rightarrow> http_env \<Rightarrow> string \<Rightarrow> string \<Rightarrow> auth_client \<Rightarrow> string \<Rightarrow> string list \<Rightarrow> bool \<Rightarrow> oauth_server
     \<Rightarrow> outcome \<times> oauth_server" where
  "accept_authorization lib env redirect state client challenge scopes refresh_allowed s =
    (case secure_id (he_draw env) of
       None \<Rightarrow> (Answer (http_error False 500 ''authorization service unavailable''), s)
     | Some i \<Rightarrow>
        let pending = \<lparr>pa_id = i, pa_client_id = ac_id client, pa_redirect_uri = redirect, pa_scopes = scopes,
              pa_state = state, pa_challenge = challenge, pa_audience = canonical_audience lib env,
              pa_refresh_allowed = refresh_allowed, pa_expires_at = he_clk env 1 + 10 * minute\<rparr>;
            s1 = prune_pending (he_clk env 2) s
        in if ol_max_pending (os_limits s1) \<le> int (length (os_pending s1))
           then (fail_redirect env redirect state ''temporarily_unavailable'' ''too many authorization requests are pending'', s1)
           else (Answer (html_page 200 \<lparr>pp_request_id = i, pp_workspace_name = os_workspace_name s1,
                   pp_scopes = scopes, pp_error = []\<rparr>),
                 s1\<lparr>os_pending := gm_put i pending (os_pending s1)\<rparr>))"

definition authorize_start :: "oauth_lib \<Rightarrow> http_env \<Rightarrow> http_request \<Rightarrow> oauth_server \<Rightarrow> outcome \<times> oauth_server" where
  "authorize_start lib env q s0 =
    (let (allowed, limiter) = rl_allow (os_authorize_limiter s0) (client_ip lib q, he_clk env 0);
         s = s0\<lparr>os_authorize_limiter := limiter\<rparr>;
         query = parse_query (hr_query q)
     in if \<not> allowed then
          (let r = http_error True 429 ''Authorization rate limit exceeded. Try again shortly.''
           in (Answer (r\<lparr>hs_headers := rate_limited_headers s @ hs_headers r\<rparr>), s))
        else case resolve_oauth_client env (values_get query ''client_id'') s of
          None \<Rightarrow> (Answer (http_error True 400 ''Unknown or invalid OAuth client. Start the connection again.''), s)
        | Some client \<Rightarrow>
           let redirect = values_get query ''redirect_uri''; state = values_get query ''state'' in
           if \<not> redirect_uri_matches (al_lower (xl_auth lib)) (ac_redirect_uris client) redirect
           then (Answer (http_error True 400 ''The redirect URI is not registered for this client.''), s)
           else case check_authorization lib env query client of
             Inl (code, description) \<Rightarrow> (fail_redirect env redirect state code description, s)
           | Inr (challenge, scopes, refresh_allowed) \<Rightarrow>
              accept_authorization lib env redirect state client challenge scopes refresh_allowed s)"

text \<open>\<open>request.Form\<close> has the values of the body before those of the query.\<close>

definition form_get :: "http_request \<Rightarrow> url_values \<Rightarrow> string \<Rightarrow> string" where
  "form_get q post k = (case gm_get post k of Some (v # _) \<Rightarrow> v | _ \<Rightarrow> values_get (parse_query (hr_query q)) k)"

definition code_request_of :: "pending_authorization \<Rightarrow> pairing_result \<Rightarrow> code_request" where
  "code_request_of pending verdict =
    \<lparr>cr_client_id = pa_client_id pending, cr_redirect_uri = pa_redirect_uri pending, cr_challenge = pa_challenge pending,
     cr_scopes = pa_scopes pending, cr_pairing_id = pr_session_id verdict, cr_audience = pa_audience pending,
     cr_refresh_allowed = pa_refresh_allowed pending\<rparr>"

text \<open>What follows a successful pairing.\<close>

definition approve_authorization ::
  "oauth_lib \<Rightarrow> http_env \<Rightarrow> string \<Rightarrow> pending_authorization \<Rightarrow> pairing_result \<Rightarrow> oauth_server \<Rightarrow> outcome \<times> oauth_server" where
  "approve_authorization lib env request_id pending verdict s1 =
    (let (res, store) = create_authorization_code (xl_auth lib) (he_store_clk env) (he_draw env)
           (code_request_of pending verdict) (os_store s1);
         s2 = s1\<lparr>os_store := store\<rparr>
     in case res of
          Inl _ \<Rightarrow> (Answer (http_error False 500 ''authorization service unavailable''), s2)
        | Inr code \<Rightarrow>
            case with_parameters (success_parameters env code (pa_state pending)) (pa_redirect_uri pending) of
              None \<Rightarrow> (Panicked, s2)
            | Some location \<Rightarrow>
                (Answer (write_authorization_redirect location),
                 s2\<lparr>os_pending := gm_del request_id (os_pending s2),
                    os_completed := gm_put request_id \<lparr>ca_location = location, ca_expires_at = he_clk env 1 + minute\<rparr>
                      (os_completed s2)\<rparr>))"

definition authorize_complete :: "oauth_lib \<Rightarrow> http_env \<Rightarrow> http_request \<Rightarrow> time \<Rightarrow> oauth_server \<Rightarrow> outcome \<times> oauth_server" where
  "authorize_complete lib env q pairing_now s0 =
    (case hr_form q of
       Inl _ \<Rightarrow> (Answer (http_error False 400 ''invalid authorization form''), s0)
     | Inr post \<Rightarrow>
        let request_id = form_get q post ''request_id''; s = prune_pending (he_clk env 0) s0 in
        case gm_get (os_pending s) request_id of
          None \<Rightarrow>
            (case gm_get (os_completed s) request_id of
               Some completed \<Rightarrow> (Answer (write_authorization_redirect (ca_location completed)), s)
             | None \<Rightarrow> (Answer (http_error True 400 ''This authorization request expired. Start the connection again.''), s))
        | Some pending \<Rightarrow>
            let (verdict, pairing) = pm_verify (xl_upper lib) (hv (xl_auth lib)) (form_get q post ''pairing_code'')
                  (client_ip lib q) pairing_now (os_pairing s);
                s1 = s\<lparr>os_pairing := pairing\<rparr>
            in if \<not> pr_ok verdict then
                 (Answer (html_page (if pr_failure verdict = Some PairingInvalid then 401 else 410)
                    \<lparr>pp_request_id = request_id, pp_workspace_name = os_workspace_name s1, pp_scopes = pa_scopes pending,
                     pp_error = pairing_failure_message verdict\<rparr>), s1)
               else approve_authorization lib env request_id pending verdict s1)"

definition oauth_authorize :: "oauth_lib \<Rightarrow> http_env \<Rightarrow> http_request \<Rightarrow> time \<Rightarrow> oauth_server \<Rightarrow> outcome \<times> oauth_server" where
  "oauth_authorize lib env q pairing_now s =
    (if hr_method q = ''GET'' then authorize_start lib env q s
     else if hr_method q = ''POST'' then authorize_complete lib env q pairing_now s
     else (Answer (m_not_allowed [''GET'', ''POST'']), s))"

section \<open>The token endpoint\<close>

text \<open>The key under which an assertion is remembered: \<open>client.ID + "\x00" + jti\<close>.\<close>

definition jti_key :: "string \<Rightarrow> string \<Rightarrow> string" where
  "jti_key client_id jti = client_id @ [CHR 0x00] @ jti"

definition prune_jtis :: "time \<Rightarrow> (string, time) gomap \<Rightarrow> (string, time) gomap" where
  "prune_jtis now m = gm_retain (\<lambda>_ expiry. now < expiry) m"

text \<open>\<open>authenticateTokenClient\<close>: the client and the identifier of its assertion.\<close>

definition authenticate_token_client ::
  "oauth_lib \<Rightarrow> http_env \<Rightarrow> url_values \<Rightarrow> string \<Rightarrow> oauth_server \<Rightarrow> (auth_client \<times> string) option \<times> oauth_server" where
  "authenticate_token_client lib env params client_id s =
    (if client_id = [] then (None, s)
     else case resolve_oauth_client env client_id s of
       None \<Rightarrow> (None, s)
     | Some client \<Rightarrow>
        if ac_auth_method client = [] \<or> ac_auth_method client = ''none'' then
          (if values_get params ''client_assertion'' \<noteq> [] then (None, s) else (Some (client, []), s))
        else if ac_auth_method client = ''private_key_jwt'' then
          (if values_get params ''client_assertion_type'' \<noteq> ''urn:ietf:params:oauth:client-assertion-type:jwt-bearer'' then (None, s)
           else let assertion = values_get params ''client_assertion'' in
             if assertion = [] then (None, s)
             else case he_verify env of
               None \<Rightarrow> (None, s)
             | Some verify \<Rightarrow>
                case verify assertion client (trimmed_base env @ ''/oauth/token'') (he_clk env 0) of
                  None \<Rightarrow> (None, s)
                | Some (jti, _) \<Rightarrow>
                    let s' = s\<lparr>os_jtis := prune_jtis (he_clk env 1) (os_jtis s)\<rparr>
                    in if gm_get (os_jtis s') (jti_key (ac_id client) jti) \<noteq> None then (None, s')
                       else (Some (client, jti), s'))
        else (None, s))"

definition record_assertion_jti :: "string \<Rightarrow> string \<Rightarrow> time \<Rightarrow> oauth_server \<Rightarrow> oauth_server" where
  "record_assertion_jti client_id jti now s =
    (if jti = [] then s else s\<lparr>os_jtis := gm_put (jti_key client_id jti) (now + 5 * minute) (os_jtis s)\<rparr>)"

text \<open>The answer to an exchange or a refresh; a success remembers the assertion.\<close>

definition finish_grant ::
  "http_env \<Rightarrow> string \<Rightarrow> string \<Rightarrow> string \<Rightarrow> (auth_error + token_set) \<times> auth_store \<Rightarrow> oauth_server \<Rightarrow> http_response \<times> oauth_server" where
  "finish_grant env client_id jti what result s =
    (let s' = s\<lparr>os_store := snd result\<rparr> in
     case fst result of
       Inl e \<Rightarrow> (oauth_error_response (oauth_status e) (oauth_code e) (what @ '' exchange failed''), s')
     | Inr ts \<Rightarrow> (write_token_set ts, record_assertion_jti client_id jti (he_clk env 2) s'))"

text \<open>What follows the authentication of the client.\<close>

definition grant_tokens ::
  "oauth_lib \<Rightarrow> http_env \<Rightarrow> url_values \<Rightarrow> string \<Rightarrow> auth_client \<times> string \<Rightarrow> oauth_server \<Rightarrow> http_response \<times> oauth_server" where
  "grant_tokens lib env params client_id auth s =
    (let (client, jti) = auth; grant = values_get params ''grant_type''
     in if grant = ''authorization_code'' then
          (let code = values_get params ''code''; verifier = values_get params ''code_verifier'';
               redirect_uri = values_get params ''redirect_uri''
           in if code = [] \<or> verifier = [] \<or> client_id = [] \<or> redirect_uri = []
              then (oauth_error_response 400 ''invalid_request'' ''code, code_verifier, client_id, and redirect_uri are required'', s)
              else finish_grant env (ac_id client) jti ''authorization code''
                     (exchange_authorization_code (xl_auth lib) (he_store_clk env) (he_draws env) (he_write env) code client_id
                       redirect_uri verifier (values_get params ''resource'') (os_store s)) s)
        else if grant = ''refresh_token'' then
          (let refresh = values_get params ''refresh_token''
           in if refresh = [] \<or> client_id = []
              then (oauth_error_response 400 ''invalid_request'' ''refresh_token and client_id are required'', s)
              else finish_grant env (ac_id client) jti ''refresh token''
                     (as_refresh (xl_auth lib) (he_store_clk env) (he_draws env) (he_write env) refresh client_id
                       (values_get params ''resource'') (os_store s)) s)
        else (oauth_error_response 400 ''unsupported_grant_type'' ''supported grants: authorization_code, refresh_token'', s))"

text \<open>The parameters and the client identifier the request is about.\<close>

definition token_parameters :: "http_env \<Rightarrow> url_values \<Rightarrow> url_values \<times> string" where
  "token_parameters env params =
    (let i = values_get params ''client_id'' in
     if i = [] then
       (let j = he_issuer env (values_get params ''client_assertion'')
        in (if j \<noteq> [] then values_set ''client_id'' j params else params, j))
     else (params, i))"

definition oauth_token :: "oauth_lib \<Rightarrow> http_env \<Rightarrow> http_request \<Rightarrow> oauth_server \<Rightarrow> http_response \<times> oauth_server" where
  "oauth_token lib env q s =
    (if hr_method q \<noteq> ''POST'' then (m_not_allowed [''POST''], s)
     else case parse_oauth_parameters lib q of
       Inl text \<Rightarrow> (oauth_error_response 400 ''invalid_request'' text, s)
     | Inr params0 \<Rightarrow>
        let (params, client_id) = token_parameters env params0 in
        case authenticate_token_client lib env params client_id s of
          (None, s') \<Rightarrow> (oauth_error_response 401 ''invalid_client'' ''client authentication failed'', s')
        | (Some auth, s') \<Rightarrow> grant_tokens lib env params client_id auth s')"

definition oauth_revoke :: "oauth_lib \<Rightarrow> http_env \<Rightarrow> http_request \<Rightarrow> oauth_server \<Rightarrow> http_response \<times> oauth_server" where
  "oauth_revoke lib env q s =
    (if hr_method q \<noteq> ''POST'' then (m_not_allowed [''POST''], s)
     else (write_json 200 [],
       case parse_oauth_parameters lib q of
         Inl _ \<Rightarrow> s
       | Inr params \<Rightarrow>
          if values_get params ''token'' = [] then s
          else s\<lparr>os_store := snd (as_revoke (xl_auth lib) (he_store_clk env 0) (he_write env) (values_get params ''token'') (os_store s))\<rparr>))"

section \<open>The bearer check\<close>

definition bearer_challenge :: "http_env \<Rightarrow> string \<Rightarrow> http_response" where
  "bearer_challenge env description =
    (let quote = go_quote;
         r = write_json 401 [(''error'', JStr ''unauthorized''), (''error_description'', JStr description)]
     in r\<lparr>hs_headers := (''WWW-Authenticate'', ''Bearer realm='' @ quote ''codexlink'' @ '', error='' @ quote ''invalid_token''
            @ '', error_description='' @ quote description
            @ '', resource_metadata='' @ quote (trimmed_base env @ ''/.well-known/oauth-protected-resource/mcp'')
            @ '', scope='' @ quote (join_with '' '' supported_scopes)) # hs_headers r\<rparr>)"

text \<open>\<open>BearerMiddleware\<close>: a challenge, or the principal the next handler sees.\<close>

definition bearer_check :: "oauth_lib \<Rightarrow> http_env \<Rightarrow> http_request \<Rightarrow> auth_store \<Rightarrow> http_response + principal" where
  "bearer_check lib env q store =
    (let audience = (case canonical_resource (al_lower (xl_auth lib)) (trimmed_base env @ ''/mcp'') of None \<Rightarrow> [] | Some r \<Rightarrow> r);
         header = trim_space (hr_authorization q)
     in if length header < 8 \<or> \<not> equal_fold (xl_fold lib) (take 7 header) ''Bearer ''
        then Inl (bearer_challenge env ''authentication is required'')
        else case verify_access (xl_auth lib) (he_store_clk env 0) (trim_space (drop 7 header)) audience store of
          Inl _ \<Rightarrow> Inl (bearer_challenge env ''the access token is invalid or expired'')
        | Inr p \<Rightarrow> Inr p)"

section \<open>Labels and routes\<close>

definition scope_labels :: "(string \<times> string) list" where
  "scope_labels =
    [(''workspace.read'', ''Read non-sensitive files and project metadata''),
     (''workspace.search'', ''Search text inside the workspace''),
     (''git.read'', ''Inspect Git status and safe diffs''),
     (''execution.read'', ''Read local execution and test summaries''),
     (control_respond, ''Submit bounded ephemeral planning/review responses''),
     (''offline_access'', ''Refresh the connection without re-pairing'')]"

definition scope_label :: "string \<Rightarrow> string" where
  "scope_label scope =
    (case gm_get scope_labels scope of Some label \<Rightarrow> if label \<noteq> [] then label else scope | None \<Rightarrow> scope)"

text \<open>
  \<open>Register\<close>: the endpoint of a path.  The patterns are exact, so every other path is left to the
  mux (\<open>None\<close>).
\<close>

datatype oauth_endpoint = ServerMetadata | ResourceMetadata | RegisterEndpoint | AuthorizeEndpoint | TokenEndpoint | RevokeEndpoint

definition oauth_routes :: "(string \<times> oauth_endpoint) list" where
  "oauth_routes =
    [(''/.well-known/oauth-authorization-server'', ServerMetadata),
     (''/.well-known/oauth-authorization-server/mcp'', ServerMetadata),
     (''/.well-known/openid-configuration'', ServerMetadata),
     (''/.well-known/oauth-protected-resource'', ResourceMetadata),
     (''/.well-known/oauth-protected-resource/mcp'', ResourceMetadata),
     (''/oauth/register'', RegisterEndpoint),
     (''/oauth/authorize'', AuthorizeEndpoint),
     (''/oauth/token'', TokenEndpoint),
     (''/oauth/revoke'', RevokeEndpoint)]"

definition oauth_serve ::
  "oauth_lib \<Rightarrow> http_env \<Rightarrow> oauth_endpoint \<Rightarrow> http_request \<Rightarrow> time \<Rightarrow> oauth_server \<Rightarrow> outcome \<times> oauth_server" where
  "oauth_serve lib env endpoint q pairing_now s =
    (case endpoint of
       ServerMetadata \<Rightarrow> (Answer (authorization_metadata env q), s)
     | ResourceMetadata \<Rightarrow> (Answer (resource_metadata lib env q), s)
     | RegisterEndpoint \<Rightarrow> register_client lib env q s
     | AuthorizeEndpoint \<Rightarrow> oauth_authorize lib env q pairing_now s
     | TokenEndpoint \<Rightarrow> map_prod Answer id (oauth_token lib env q s)
     | RevokeEndpoint \<Rightarrow> map_prod Answer id (oauth_revoke lib env q s))"

end
