(* ===== verification/SetupUI.thy ===== *)
theory SetupUI
  imports NetIP OAuthServer
begin

text \<open>
  \<open>internal/setupui/manager.go\<close>: the local page that shows the pairing code.  The template is left out: a page
  is the data that fills it.  \<open>status\<close> is the callback that tells how far the authorization is.
\<close>

section \<open>Sessions\<close>

record setup_session =
  sn_id :: string
  sn_workspace :: string
  sn_connector :: string
  sn_action :: string
  sn_mcp_url :: string
  sn_code :: string
  sn_expires :: time

datatype setup_progress = StateWaiting | StateFinishing | StateConnected | StateFailed | StateEmpty

record setup_status =
  us_state :: setup_progress
  us_authorized :: bool
  us_tokens :: int
  us_message :: string

definition failed_status :: "string \<Rightarrow> setup_status" where
  "failed_status message = \<lparr>us_state = StateFailed, us_authorized = False, us_tokens = 0, us_message = message\<rparr>"

definition plain_status :: "setup_progress \<Rightarrow> setup_status" where
  "plain_status p = \<lparr>us_state = p, us_authorized = False, us_tokens = 0, us_message = []\<rparr>"

type_synonym setup_manager = "(string, setup_session) gomap"

definition new_setup_manager :: setup_manager where
  "new_setup_manager = []"

text \<open>\<open>truncate\<close> and \<open>randomID\<close>; the draw is \<open>None\<close> when the random source fails.\<close>

definition truncate_text :: "nat \<Rightarrow> string \<Rightarrow> string" where
  "truncate_text n v = encode_runes (take n (runes (trim_space v)))"

definition random_id :: "string option \<Rightarrow> string option" where
  "random_id draw = map_option b64_encode draw"

definition prune_sessions :: "time \<Rightarrow> setup_manager \<Rightarrow> setup_manager" where
  "prune_sessions now m = gm_retain (\<lambda>_ s. now < sn_expires s) m"

definition setup_create :: "string option \<Rightarrow> setup_session \<Rightarrow> setup_manager \<Rightarrow> (string + setup_session) \<times> setup_manager" where
  "setup_create draw s m =
    (if trim_space (sn_workspace s) = [] \<or> trim_space (sn_connector s) = [] then (Inl ''workspace and connector names are required'', m)
     else if \<not> has_suffix (trim_right_chars ''/'' (sn_mcp_url s)) ''/mcp'' then (Inl ''MCP URL must end with /mcp'', m)
     else if trim_space (sn_code s) = [] \<or> sn_expires s = zero_time then (Inl ''pairing code and expiration are required'', m)
     else case random_id draw of
       None \<Rightarrow> (Inl ''rand'', m)
     | Some i \<Rightarrow>
        let s' = s\<lparr>sn_id := i, sn_workspace := truncate_text 160 (sn_workspace s), sn_connector := truncate_text 200 (sn_connector s),
              sn_mcp_url := trim_space (sn_mcp_url s), sn_action := trim_space (sn_action s)\<rparr>
        in (Inr s', [(i, s')]))"

definition setup_lookup :: "time \<Rightarrow> string \<Rightarrow> setup_manager \<Rightarrow> setup_session option \<times> setup_manager" where
  "setup_lookup now i m = (let m' = prune_sessions now m in (gm_get m' i, m'))"

section \<open>Pages\<close>

record setup_request =
  sr_verb :: string
  sr_path :: string
  sr_remote_addr :: string
  sr_cf_ip :: string
  sr_forwarded_for :: string
  sr_forwarded :: string

definition remote_host :: "string \<Rightarrow> string" where
  "remote_host addr = (case net_split_host_port addr of Some (host, _) \<Rightarrow> host | None \<Rightarrow> addr)"

definition direct_loopback_request :: "setup_request \<Rightarrow> bool" where
  "direct_loopback_request q \<longleftrightarrow> is_loopback_host (trim_space (remote_host (sr_remote_addr q)))
     \<and> \<not> (sr_cf_ip q \<noteq> [] \<or> sr_forwarded_for q \<noteq> [] \<or> sr_forwarded q \<noteq> [])"

definition setup_policy :: "string \<Rightarrow> string" where
  "setup_policy nonce =
    ''default-src '' @ quoted ''none'' @ ''; style-src '' @ quoted ''unsafe-inline'' @ ''; img-src '' @ quoted ''none''
      @ ''; connect-src '' @ quoted ''self'' @ ''; frame-ancestors '' @ quoted ''none'' @ ''; base-uri '' @ quoted ''none''
      @ ''; form-action '' @ quoted ''none'' @ (if nonce \<noteq> [] then ''; script-src '' @ quoted (''nonce-'' @ nonce) else [])"

definition clamp_duration :: "int \<Rightarrow> duration" where
  "clamp_duration d = max (- (2 ^ 63)) (min (2 ^ 63 - 1) d)"

text \<open>\<open>Duration.Round(time.Minute)\<close>, in minutes.\<close>

definition round_minutes :: "duration \<Rightarrow> int" where
  "round_minutes d =
    (if d < 0 then (let r = (- d) mod minute in - ((- (clamp_duration (if r + r < minute then d + r else d - minute + r))) div minute))
     else (let r = d mod minute in clamp_duration (if r + r < minute then d - r else d + minute - r) div minute))"

text \<open>\<open>clock\<close> is the reading of \<open>time.Until\<close>, which counts only when \<open>now\<close> is the zero time.\<close>

definition format_remaining :: "time \<Rightarrow> time \<Rightarrow> time \<Rightarrow> string" where
  "format_remaining clock now expires =
    (let minutes = round_minutes (clamp_duration (if now = zero_time then expires - clock else expires - now))
     in if minutes < 1 then ''less than one minute'' else if minutes = 1 then ''about one minute''
        else ''about '' @ digits (nat minutes) @ '' minutes'')"

datatype setup_reply =
    SetupNotFound
  | SetupGoneStatus setup_status
  | SetupGonePage string
  | SetupStatus setup_status
  | SetupPage setup_session string string
  | SetupUnavailable

text \<open>\<open>clk\<close> are the readings of the clock: of the lookup, of the page, of \<open>time.Until\<close>.\<close>

definition setup_serve ::
  "(setup_session \<Rightarrow> setup_status) option \<Rightarrow> (nat \<Rightarrow> time) \<Rightarrow> string option \<Rightarrow> setup_request \<Rightarrow> setup_manager \<Rightarrow> setup_reply \<times> setup_manager" where
  "setup_serve status clk draw q m =
    (if sr_verb q \<noteq> ''GET'' \<or> \<not> direct_loopback_request q then (SetupNotFound, m)
     else let relative = trim_right_chars ''/'' (trim_left_chars ''/'' (trim_prefix (sr_path q) ''/setup/''));
              parts = split_on CHR ''/'' relative
       in if relative = [] \<or> 2 < length parts \<or> length parts = 2 \<and> parts ! 1 \<noteq> ''status'' then (SetupNotFound, m)
          else case setup_lookup (clk 0) (parts ! 0) m of
            (None, m') \<Rightarrow>
              (if length parts = 2 then SetupGoneStatus (failed_status ''This setup session expired. Run codexlink again.'')
               else SetupGonePage ''This setup link expired. Run codexlink again.'', m')
          | (Some s, m') \<Rightarrow>
              if length parts = 2
              then let st = (case status of None \<Rightarrow> plain_status StateWaiting | Some f \<Rightarrow> f s);
                       st1 = (if us_authorized st then st\<lparr>us_state := StateConnected\<rparr> else st);
                       st2 = (if us_state st1 = StateEmpty then st1\<lparr>us_state := StateWaiting\<rparr> else st1)
                   in (SetupStatus st2, m')
              else (case random_id draw of
                      None \<Rightarrow> (SetupUnavailable, m')
                    | Some nonce \<Rightarrow> (SetupPage s nonce (format_remaining (clk 2) (clk 1) (sn_expires s)), m')))"

section \<open>Only the latest session is shown, and only locally\<close>

datatype setup_call = CallSetup "string option" setup_session
  | CallVisit "(setup_session \<Rightarrow> setup_status) option" "nat \<Rightarrow> time" "string option" setup_request

text \<open>A history of calls: the manager, and the session created last.\<close>

fun setup_step :: "setup_manager \<times> setup_session option \<Rightarrow> setup_call \<Rightarrow> setup_manager \<times> setup_session option" where
  "setup_step (m, l) (CallSetup draw s) =
    (case setup_create draw s m of (Inl _, m') \<Rightarrow> (m', l) | (Inr s', m') \<Rightarrow> (m', Some s'))"
| "setup_step (m, l) (CallVisit status clk draw q) = (snd (setup_serve status clk draw q m), l)"

definition setup_run :: "setup_call list \<Rightarrow> setup_manager \<times> setup_session option" where
  "setup_run calls = foldl setup_step (new_setup_manager, None) calls"

definition setup_inv :: "setup_manager \<times> setup_session option \<Rightarrow> bool" where
  "setup_inv = (\<lambda>(m, l). m = [] \<or> (\<exists>s. l = Some s \<and> m = [(sn_id s, s)]))"

lemma prune_inv: "setup_inv (m, l) \<Longrightarrow> setup_inv (prune_sessions now m, l)"
  by (auto simp: setup_inv_def prune_sessions_def gm_retain_def)

lemma serve_manager: "snd (setup_serve status clk draw q m) = m \<or> snd (setup_serve status clk draw q m) = prune_sessions (clk 0) m"
  by (auto simp: setup_serve_def setup_lookup_def Let_def split: option.split)

lemma step_inv: "setup_inv ml \<Longrightarrow> setup_inv (setup_step ml c)"
proof (cases ml; cases c)
  fix m l draw s
  assume "setup_inv ml" "ml = (m, l)" "c = CallSetup draw s"
  then show ?thesis by (auto simp: setup_create_def setup_inv_def Let_def split: option.split)
next
  fix m l status clk draw q
  assume "setup_inv ml" "ml = (m, l)" "c = CallVisit status clk draw q"
  then show ?thesis using prune_inv [of m l] serve_manager [of status clk draw q m] by auto
qed

lemma setup_run_inv: "setup_inv (setup_run calls)"
proof -
  have "setup_inv ml \<Longrightarrow> setup_inv (foldl setup_step ml calls)" for ml
    by (induction calls arbitrary: ml) (simp_all add: step_inv)
  then show ?thesis by (simp add: setup_run_def new_setup_manager_def setup_inv_def)
qed

text \<open>
  The page with the pairing code is shown to the local browser only, and only for the session that was
  created last and has not expired: whatever setup sessions and visits came before, a page answers a direct
  request from a loopback address whose path names that session.
\<close>

theorem setup_page_is_local_and_latest:
  assumes "setup_run calls = (m, latest)" and "fst (setup_serve status clk draw q m) = SetupPage s nonce remaining"
  shows "latest = Some s \<and> clk 0 < sn_expires s \<and> sr_verb q = ''GET'' \<and> direct_loopback_request q
    \<and> trim_right_chars ''/'' (trim_left_chars ''/'' (trim_prefix (sr_path q) ''/setup/'')) = sn_id s"
proof -
  let ?rel = "trim_right_chars ''/'' (trim_left_chars ''/'' (trim_prefix (sr_path q) ''/setup/''))"
  let ?parts = "split_on CHR ''/'' ?rel"
  from assms(2) have local: "sr_verb q = ''GET''" "direct_loopback_request q"
    and one: "length ?parts \<le> 2" "length ?parts \<noteq> 2" and found: "fst (setup_lookup (clk 0) (?parts ! 0) m) = Some s"
    by (auto simp: setup_serve_def Let_def split: if_splits option.splits prod.splits)
  have "0 < length ?parts" by simp
  then have "length ?parts = 1" using one by linarith
  then have "?parts = [?parts ! 0]" by (cases ?parts) auto
  then have rel: "?parts ! 0 = ?rel" using join_split [of "CHR ''/''" ?rel] by (metis join_with.simps(2))
  have "setup_inv (m, latest)" using setup_run_inv [of calls] assms(1) by simp
  then show ?thesis
    using found local rel by (auto simp: setup_inv_def setup_lookup_def prune_sessions_def gm_retain_def split: if_splits)
qed

definition example_session :: setup_session where
  "example_session = \<lparr>sn_id = [], sn_workspace = ''w'', sn_connector = ''c'', sn_action = ''create'',
    sn_mcp_url = ''https://x.test/mcp'', sn_code = ''ABCD-EFGH'', sn_expires = 10\<rparr>"

definition example_visit :: setup_request where
  "example_visit = \<lparr>sr_verb = ''GET'', sr_path = ''/setup/QUFB'', sr_remote_addr = ''127.0.0.1:5000'', sr_cf_ip = [],
    sr_forwarded_for = [], sr_forwarded = []\<rparr>"

theorem setup_page_is_local_and_latest_witness:
  "\<exists>s nonce remaining. fst (setup_serve None (\<lambda>_. 5) (Some ''BBB'') example_visit (fst (setup_run [CallSetup (Some ''AAA'') example_session])))
      = SetupPage s nonce remaining \<and> 5 < sn_expires s \<and> snd (setup_run [CallSetup (Some ''AAA'') example_session]) = Some s"
proof -
  have trims: "trim_space ''w'' = ''w''" "trim_space ''c'' = ''c''" "trim_space ''ABCD-EFGH'' \<noteq> []"
    by (simp_all add: trim_space_id is_ascii_def is_space_def byte_def)
  have url: "trim_right_chars ''/'' ''https://x.test/mcp'' = ''https://x.test/mcp''" by (simp add: trim_right_chars_def)
  have id: "random_id (Some ''AAA'') = Some ''QUFB''" by (simp add: random_id_def Let_def byte_def b64_char_def b64_alphabet_def)
  obtain m s where run: "setup_run [CallSetup (Some ''AAA'') example_session] = (m, Some s)" "m = [(''QUFB'', s)]" "sn_expires s = 10"
    by (simp add: setup_run_def setup_create_def example_session_def trims url id Let_def has_suffix_def zero_time_def)
  have host: "is_loopback_host ''127.0.0.1''" by (simp add: ip_eval)
  have "trim_space ''127.0.0.1'' = ''127.0.0.1''" by (rule trim_space_id) (simp_all add: is_space_def byte_def)
  moreover have "net_split_host_port ''127.0.0.1:5000'' = Some (''127.0.0.1'', ''5000'')"
    by (simp add: net_split_host_port_def cut_last_def cut_def has_prefix_def)
  ultimately have direct: "direct_loopback_request example_visit"
    using host by (simp add: direct_loopback_request_def example_visit_def remote_host_def)
  have "\<exists>nonce remaining. fst (setup_serve None (\<lambda>_. 5) (Some ''BBB'') example_visit m) = SetupPage s nonce remaining"
    using direct run(2,3)
    by (simp add: setup_serve_def setup_lookup_def prune_sessions_def gm_retain_def random_id_def)
       (simp add: example_visit_def trim_prefix_def has_prefix_def trim_left_chars_def trim_right_chars_def setup_lookup_def
          prune_sessions_def gm_retain_def random_id_def Let_def)
  then obtain nonce remaining where page: "fst (setup_serve None (\<lambda>_. 5) (Some ''BBB'') example_visit m) = SetupPage s nonce remaining" by blast
  from setup_page_is_local_and_latest [OF run(1) page] page run(1) show ?thesis by auto
qed

end
