(* ===== verification/Bridge.thy ===== *)
theory Bridge
  imports SetupUI McpProps
begin

text \<open>
  \<open>internal/bridge\<close>: one HTTP server over the OAuth server, the MCP endpoint, the setup pages and the
  administration of the local command line.  \<open>bridge_serve\<close> is one request, from the mux to the handlers;
  the lock of the workspace is in \<open>Lock.thy\<close>.
\<close>

section \<open>The server\<close>

record bridge =
  bg_host :: string
  bg_port :: nat
  bg_admin_token :: string
  bg_public_url :: string
  bg_oauth :: oauth_server
  bg_mcp :: mcp_state
  bg_setup :: setup_manager
  bg_closing :: bool

text \<open>What does not change: libraries, the registry of tools, the variable \<open>CODEXLINK_ALLOWED_ORIGINS\<close>.\<close>

record bridge_lib =
  bl_oauth :: oauth_lib
  bl_mcp :: mcp_lib
  bl_render :: "tool_value \<Rightarrow> jvalue option"
  bl_registry :: "(mcp_state, tool_value) registry"
  bl_codec :: codec
  bl_origins :: string

abbreviation bl_low :: "bridge_lib \<Rightarrow> nat \<Rightarrow> nat" where
  "bl_low lib \<equiv> al_lower (xl_auth (bl_oauth lib))"

definition local_base_url :: "bridge \<Rightarrow> string" where
  "local_base_url b = ''http://'' @ join_host_port (bg_host b) (digits (bg_port b))"

definition base_url :: "bridge \<Rightarrow> string" where
  "base_url b = (if bg_public_url b \<noteq> [] then trim_right_chars ''/'' (bg_public_url b) else local_base_url b)"

text \<open>What a decoder finds behind the first value of a body.\<close>

datatype json_tail = NoMore | AnotherValue | BadTail

text \<open>
  A request: what the OAuth endpoints and the MCP endpoint read of it, its path (\<open>URL.Path\<close>), and its body as a
  decoder yields it that may read that many bytes.
\<close>

record bridge_request =
  bq_http :: http_request
  bq_mcp :: mcp_request
  bq_path :: string
  bq_origin :: string
  bq_forwarded_for :: string
  bq_forwarded :: string
  bq_body :: "nat \<Rightarrow> (jvalue \<times> json_tail) option"

abbreviation bq_verb :: "bridge_request \<Rightarrow> string" where
  "bq_verb q \<equiv> hr_method (bq_http q)"

section \<open>Guards\<close>

definition normalize_origin :: "(nat \<Rightarrow> nat) \<Rightarrow> string \<Rightarrow> string option" where
  "normalize_origin low v =
    (case url_parse (trim_space v) of
       None \<Rightarrow> None
     | Some u \<Rightarrow>
        if u_scheme u = [] \<or> u_host u = [] \<or> u_user u \<noteq> None \<or> u_raw_query u \<noteq> [] \<or> u_fragment u \<noteq> [] then None
        else if u_scheme u \<noteq> ''http'' \<and> u_scheme u \<noteq> ''https'' then None
        else if u_path u \<noteq> [] \<and> u_path u \<noteq> ''/'' then None
        else Some (trim_right_chars ''/'' (url_string (u\<lparr>u_scheme := to_lower low (u_scheme u), u_host := to_lower low (u_host u), u_path := []\<rparr>))))"

definition configured_origins :: "string \<Rightarrow> string list" where
  "configured_origins v = filter (\<lambda>c. c \<noteq> []) (map trim_space (split_on CHR '','' v))"

definition allowed_origins :: "bridge_lib \<Rightarrow> bridge \<Rightarrow> string list" where
  "allowed_origins lib b =
    [local_base_url b, ''https://chatgpt.com'', ''https://www.chatgpt.com'', ''https://chat.openai.com'']
      @ (if bg_public_url b \<noteq> [] then [bg_public_url b] else []) @ configured_origins (bl_origins lib)"

definition allowed_origin :: "bridge_lib \<Rightarrow> bridge \<Rightarrow> string \<Rightarrow> bool" where
  "allowed_origin lib b origin \<longleftrightarrow> list_ex (\<lambda>c. normalize_origin (bl_low lib) c = Some origin) (allowed_origins lib b)"

definition mcp_origin_guard :: "bridge_lib \<Rightarrow> bridge \<Rightarrow> bridge_request \<Rightarrow> bool" where
  "mcp_origin_guard lib b q \<longleftrightarrow>
    (let origin = trim_space (bq_origin q)
     in origin = [] \<or> (case normalize_origin (bl_low lib) origin of None \<Rightarrow> False | Some n \<Rightarrow> allowed_origin lib b n))"

definition is_forwarded :: "bridge_request \<Rightarrow> bool" where
  "is_forwarded q \<longleftrightarrow> hr_cf_ip (bq_http q) \<noteq> [] \<or> bq_forwarded_for q \<noteq> [] \<or> bq_forwarded q \<noteq> []"

definition admin_token :: "bridge_lib \<Rightarrow> bridge_request \<Rightarrow> string" where
  "admin_token lib q =
    (let header = trim_space (hr_authorization (bq_http q))
     in if 7 \<le> length header \<and> equal_fold (xl_fold (bl_oauth lib)) (take 7 header) ''Bearer '' then trim_space (drop 7 header) else [])"

definition admin_only :: "bridge_lib \<Rightarrow> bridge \<Rightarrow> bridge_request \<Rightarrow> bool" where
  "admin_only lib b q \<longleftrightarrow> is_loopback_host (remote_host (hr_remote_addr (bq_http q))) \<and> \<not> is_forwarded q
     \<and> admin_token lib q = bg_admin_token b"

section \<open>Replies\<close>

record bridge_info =
  bi_public_url :: "string option"
  bi_token_count :: int
  bi_record_count :: int
  bi_pairing_active :: bool
  bi_audience :: string
  bi_control_authorized :: bool

datatype admin_result =
    SetupLink string int string
  | PairingCode string int
  | Info bridge_info
  | Prepared ctl_request
  | Waited ctl_request
  | Cancelled bool ctl_request
  | TunnelStarted string
  | TunnelStopped
  | Revoked int
  | ShuttingDown

datatype bridge_reply =
    NotFound
  | MuxRedirect string
  | NotAllowed string
  | OriginRefused
  | InternalError
  | Healthy
  | FromOAuth http_response
  | FromMcp "tool_value mcp_reply"
  | FromSetup setup_reply
  | AdminError nat string string
  | AdminOk admin_result
  | ClientGone

definition control_error :: "ctl_error \<Rightarrow> bridge_reply" where
  "control_error e = (case e of
     Fail code message \<Rightarrow>
       AdminError (if code = ''CONTROL_RESPONSE_CONFLICT'' then 409 else if code = ''CONTROL_REQUEST_NOT_FOUND'' then 404 else 400) code message
   | Other _ \<Rightarrow> AdminError 500 ''control_failed'' ''control operation failed'')"

definition bad_request :: "string \<Rightarrow> bridge_reply" where
  "bad_request message = AdminError 400 ''invalid_request'' message"

definition ensure_single_json_value :: "json_tail \<Rightarrow> string option" where
  "ensure_single_json_value t = (case t of NoMore \<Rightarrow> None
     | AnotherValue \<Rightarrow> Some ''request body must contain exactly one JSON value''
     | BadTail \<Rightarrow> Some ''invalid JSON after request object'')"

text \<open>A body of at most \<open>n\<close> bytes with one value, stored into a struct.\<close>

definition decode_body :: "bool \<Rightarrow> nat \<Rightarrow> 'r js_fields \<Rightarrow> 'r \<Rightarrow> bridge_request \<Rightarrow> bridge_reply + 'r" where
  "decode_body strict n fs zero q =
    (case bq_body q n of
       None \<Rightarrow> Inl (bad_request ''request body must be valid JSON'')
     | Some (v, t) \<Rightarrow>
        (case into_struct strict fs v zero of
           (_, False) \<Rightarrow> Inl (bad_request ''request body must be valid JSON'')
         | (x, True) \<Rightarrow> (case ensure_single_json_value t of Some e \<Rightarrow> Inl (bad_request e) | None \<Rightarrow> Inr x)))"

section \<open>Administration of control requests\<close>

text \<open>What surrounds a request: clocks, random draws, failing writes, the tunnel.\<close>

record poll =
  po_clk :: "nat \<Rightarrow> time"
  po_save :: "nat \<Rightarrow> save_env"
  po_now :: time
  po_gone :: bool
  po_others :: "ctl_store \<Rightarrow> ctl_store"

record bridge_env =
  be_http :: http_env
  be_pairing_now :: time
  be_code :: "string option"
  be_session_id :: "string option"
  be_draw :: "string option"
  be_setup_clk :: "nat \<Rightarrow> time"
  be_control_clk :: "nat \<Rightarrow> time"
  be_save :: "nat \<Rightarrow> save_env"
  be_request_id :: "string option"
  be_start :: time
  be_polls :: "poll list"
  be_tunnel_start :: "string + string"
  be_tunnel_stop :: "string option"
  be_persist :: "string option"

definition http_of :: "bridge_env \<Rightarrow> bridge \<Rightarrow> http_env" where
  "http_of env b = (be_http env)\<lparr>he_base := base_url b\<rparr>"

abbreviation store_now :: "bridge_env \<Rightarrow> time" where
  "store_now env \<equiv> he_store_clk (be_http env) 0"

record prepare_body =
  pb_task_id :: string
  pb_iteration :: int
  pb_ttl :: int

definition prepare_fields :: "prepare_body js_fields" where
  "prepare_fields = [string_field ''taskId'' pb_task_id (\<lambda>x r. r\<lparr>pb_task_id := x\<rparr>),
     int_field ''iteration'' pb_iteration (\<lambda>x r. r\<lparr>pb_iteration := x\<rparr>), int_field ''ttlSeconds'' pb_ttl (\<lambda>x r. r\<lparr>pb_ttl := x\<rparr>)]"

record identity_body =
  ib_request_id :: string
  ib_task_id :: string
  ib_iteration :: int
  ib_wait :: int

definition identity_fields :: "identity_body js_fields" where
  "identity_fields = [string_field ''requestId'' ib_request_id (\<lambda>x r. r\<lparr>ib_request_id := x\<rparr>),
     string_field ''taskId'' ib_task_id (\<lambda>x r. r\<lparr>ib_task_id := x\<rparr>), int_field ''iteration'' ib_iteration (\<lambda>x r. r\<lparr>ib_iteration := x\<rparr>)]"

definition wait_fields :: "identity_body js_fields" where
  "wait_fields = identity_fields @ [int_field ''waitMs'' ib_wait (\<lambda>x r. r\<lparr>ib_wait := x\<rparr>)]"

definition no_identity :: identity_body where
  "no_identity = \<lparr>ib_request_id = [], ib_task_id = [], ib_iteration = 0, ib_wait = 0\<rparr>"

text \<open>\<open>time.Duration(in.TTLSeconds) * time.Second\<close> in 64 bits.\<close>

definition ttl_duration :: "int \<Rightarrow> duration" where
  "ttl_duration n = sint ((word_of_int n :: 64 word) * word_of_int second)"

definition ttl_accepted :: "int \<Rightarrow> bool" where
  "ttl_accepted n \<longleftrightarrow> \<not> (n \<noteq> 0 \<and> (ttl_duration n < min_ttl \<or> max_ttl < ttl_duration n))"

definition set_store :: "ctl_store \<Rightarrow> bridge \<Rightarrow> bridge" where
  "set_store c b = b\<lparr>bg_mcp := (bg_mcp b)\<lparr>ms_store := c\<rparr>\<rparr>"

definition audience_of :: "bridge \<Rightarrow> string" where
  "audience_of b = base_url b @ ''/mcp''"

definition control_prepare :: "bridge_lib \<Rightarrow> bridge_env \<Rightarrow> bridge_request \<Rightarrow> bridge \<Rightarrow> bridge_reply \<times> bridge" where
  "control_prepare lib env q b =
    (if \<not> has_active_scope_for_audience (xl_auth (bl_oauth lib)) (store_now env) (audience_of b) control_respond (os_store (bg_oauth b))
     then (AdminError 409 ''control_scope_required'' ''authorize control.respond before preparing a response'', b)
     else case decode_body True 16384 prepare_fields \<lparr>pb_task_id = [], pb_iteration = 0, pb_ttl = 0\<rparr> q of
       Inl e \<Rightarrow> (e, b)
     | Inr x \<Rightarrow>
        if \<not> ttl_accepted (pb_ttl x) then (bad_request ''ttlSeconds must be between 60 and 14400'', b)
        else (case ctl_prepare (bl_codec lib) (be_control_clk env) (be_save env) (be_request_id env) (pb_task_id x) (pb_iteration x)
                     (ttl_duration (pb_ttl x)) (ms_store (bg_mcp b)) of
                (Inl e, c) \<Rightarrow> (control_error e, set_store c b)
              | (Inr r, c) \<Rightarrow> (AdminOk (Prepared r), set_store c b)))"

text \<open>
  The loop of \<open>wait\<close>: a poll reads the request, then a pause lets other requests work on the store.  \<open>None\<close>
  means that the polls are used up and the handler still waits.
\<close>

fun wait_loop :: "codec \<Rightarrow> identity_body \<Rightarrow> time \<Rightarrow> poll list \<Rightarrow> ctl_store \<Rightarrow> bridge_reply option \<times> ctl_store" where
  "wait_loop cd x deadline [] s = (None, s)"
| "wait_loop cd x deadline (p # ps) s =
    (case ctl_get cd (po_clk p) (po_save p) (ib_request_id x) (ib_task_id x) (ib_iteration x) s of
       (Inl e, s1) \<Rightarrow> (Some (control_error e), s1)
     | (Inr r, s1) \<Rightarrow>
        if rq_status r = ''submitted'' \<or> \<not> po_now p < deadline then (Some (AdminOk (Waited r)), s1)
        else if po_gone p then (Some ClientGone, s1)
        else wait_loop cd x deadline ps (po_others p s1))"

definition control_wait :: "bridge_lib \<Rightarrow> bridge_env \<Rightarrow> bridge_request \<Rightarrow> bridge \<Rightarrow> bridge_reply option \<times> bridge" where
  "control_wait lib env q b =
    (case decode_body True 16384 wait_fields no_identity q of
       Inl e \<Rightarrow> (Some e, b)
     | Inr x \<Rightarrow>
        if ib_wait x < 0 \<or> 25000 < ib_wait x then (Some (bad_request ''waitMs must be between 0 and 25000''), b)
        else (case wait_loop (bl_codec lib) x (be_start env + ib_wait x * millisecond) (be_polls env) (ms_store (bg_mcp b)) of
                (r, c) \<Rightarrow> (r, set_store c b)))"

definition control_cancel :: "bridge_lib \<Rightarrow> bridge_env \<Rightarrow> bridge_request \<Rightarrow> bridge \<Rightarrow> bridge_reply \<times> bridge" where
  "control_cancel lib env q b =
    (case decode_body True 16384 identity_fields no_identity q of
       Inl e \<Rightarrow> (e, b)
     | Inr x \<Rightarrow>
        (case ctl_cancel (bl_codec lib) (be_control_clk env) (be_save env) (ib_request_id x) (ib_task_id x) (ib_iteration x) (ms_store (bg_mcp b)) of
           (Inl e, c) \<Rightarrow> (control_error e, set_store c b)
         | (Inr (r, cancelled), c) \<Rightarrow> (AdminOk (Cancelled cancelled r), set_store c b)))"

section \<open>Administration of pairing, tunnel and tokens\<close>

definition set_pairing :: "pairing_manager \<Rightarrow> bridge \<Rightarrow> bridge" where
  "set_pairing m b = b\<lparr>bg_oauth := (bg_oauth b)\<lparr>os_pairing := m\<rparr>\<rparr>"

definition create_code :: "bridge_lib \<Rightarrow> bridge_env \<Rightarrow> bridge \<Rightarrow> (string \<times> time) option \<times> bridge" where
  "create_code lib env b =
    (case pm_create (hv (xl_auth (bl_oauth lib))) (be_code env) (be_session_id env) (be_pairing_now env) (os_pairing (bg_oauth b)) of
       (r, m) \<Rightarrow> (r, set_pairing m b))"

record setup_body =
  sb_connector :: string
  sb_action :: string
  sb_mcp_url :: string

definition setup_fields :: "setup_body js_fields" where
  "setup_fields = [string_field ''connectorName'' sb_connector (\<lambda>x r. r\<lparr>sb_connector := x\<rparr>),
     string_field ''connectorAction'' sb_action (\<lambda>x r. r\<lparr>sb_action := x\<rparr>), string_field ''mcpUrl'' sb_mcp_url (\<lambda>x r. r\<lparr>sb_mcp_url := x\<rparr>)]"

definition admin_setup_session :: "bridge_lib \<Rightarrow> bridge_env \<Rightarrow> bridge_request \<Rightarrow> bridge \<Rightarrow> bridge_reply \<times> bridge" where
  "admin_setup_session lib env q b =
    (case decode_body False 65536 setup_fields \<lparr>sb_connector = [], sb_action = [], sb_mcp_url = []\<rparr> q of
       Inl e \<Rightarrow> (e, b)
     | Inr x \<Rightarrow>
        if sb_action x \<noteq> [] \<and> sb_action x \<notin> {''create'', ''update'', ''none''}
        then (bad_request ''connectorAction must be create, update, or none'', b)
        else (case create_code lib env b of
           (None, b1) \<Rightarrow> (AdminError 500 ''pairing_failed'' ''rand'', b1)
         | (Some (code, expires), b1) \<Rightarrow>
            (case setup_create (be_draw env)
                    \<lparr>sn_id = [], sn_workspace = os_workspace_name (bg_oauth b1), sn_connector = sb_connector x, sn_action = sb_action x,
                     sn_mcp_url = sb_mcp_url x, sn_code = code, sn_expires = expires\<rparr> (bg_setup b1) of
               (Inl e, m) \<Rightarrow> (bad_request e, (set_pairing (pm_invalidate (be_pairing_now env) (os_pairing (bg_oauth b1))) b1)\<lparr>bg_setup := m\<rparr>)
             | (Inr s, m) \<Rightarrow> (AdminOk (SetupLink code (unix_milli expires) (local_base_url b1 @ ''/setup/'' @ sn_id s)), b1\<lparr>bg_setup := m\<rparr>))))"

definition admin_pairing :: "bridge_lib \<Rightarrow> bridge_env \<Rightarrow> bridge \<Rightarrow> bridge_reply \<times> bridge" where
  "admin_pairing lib env b =
    (case create_code lib env b of
       (None, b1) \<Rightarrow> (AdminError 500 ''pairing_failed'' ''rand'', b1)
     | (Some (code, expires), b1) \<Rightarrow> (AdminOk (PairingCode code (unix_milli expires)), b1))"

definition admin_info :: "bridge_lib \<Rightarrow> bridge_env \<Rightarrow> bridge \<Rightarrow> bridge_reply \<times> bridge" where
  "admin_info lib env b =
    (let audience = trim_right_chars ''/'' (base_url b) @ ''/mcp''; store = os_store (bg_oauth b); al = xl_auth (bl_oauth lib)
     in case pm_active (be_pairing_now env) (os_pairing (bg_oauth b)) of (active, m) \<Rightarrow>
       (AdminOk (Info \<lparr>bi_public_url = (if bg_public_url b = [] then None else Some (bg_public_url b)),
          bi_token_count = token_count_for_audience al (store_now env) audience store, bi_record_count = token_count (store_now env) store,
          bi_pairing_active = active, bi_audience = audience,
          bi_control_authorized = has_active_scope_for_audience al (store_now env) audience control_respond store\<rparr>), set_pairing m b))"

definition admin_tunnel_start :: "bridge_env \<Rightarrow> bridge \<Rightarrow> bridge_reply \<times> bridge" where
  "admin_tunnel_start env b =
    (case be_tunnel_start env of
       Inl e \<Rightarrow> (AdminError 500 ''tunnel_failed'' e, b)
     | Inr url \<Rightarrow>
        let b1 = b\<lparr>bg_public_url := trim_right_chars ''/'' url\<rparr>
        in (case be_persist env of Some e \<Rightarrow> (AdminError 500 ''runtime_state_failed'' e, b1) | None \<Rightarrow> (AdminOk (TunnelStarted url), b1)))"

definition admin_tunnel_stop :: "bridge_env \<Rightarrow> bridge \<Rightarrow> bridge_reply \<times> bridge" where
  "admin_tunnel_stop env b =
    (case be_tunnel_stop env of
       Some e \<Rightarrow> (AdminError 500 ''tunnel_stop_failed'' e, b)
     | None \<Rightarrow> (AdminOk TunnelStopped, b\<lparr>bg_public_url := []\<rparr>))"

text \<open>
  The handler of \<open>/admin/revoke-all\<close> has two critical sections, that of the store and that of the pairing manager;
  other requests can be served between them.
\<close>

definition revoke_tokens :: "bridge_lib \<Rightarrow> bridge_env \<Rightarrow> bridge \<Rightarrow> (int \<times> auth_error option) \<times> bridge" where
  "revoke_tokens lib env b =
    (case revoke_all (xl_auth (bl_oauth lib)) (store_now env) (he_write (be_http env)) (os_store (bg_oauth b)) of
       (n, e, s) \<Rightarrow> ((n, e), b\<lparr>bg_oauth := (bg_oauth b)\<lparr>os_store := s\<rparr>\<rparr>))"

definition close_pairing :: "bridge_env \<Rightarrow> bridge \<Rightarrow> bridge" where
  "close_pairing env b = set_pairing (pm_invalidate (be_pairing_now env) (os_pairing (bg_oauth b))) b"

definition admin_revoke_all :: "bridge_lib \<Rightarrow> bridge_env \<Rightarrow> bridge \<Rightarrow> bridge_reply \<times> bridge" where
  "admin_revoke_all lib env b =
    (case revoke_tokens lib env b of
       ((n, Some e), b1) \<Rightarrow> (AdminError 500 ''revoke_failed'' ''write'', b1)
     | ((n, None), b1) \<Rightarrow> (AdminOk (Revoked n), close_pairing env b1))"

section \<open>The mux\<close>

definition mux_clean :: "string \<Rightarrow> string" where
  "mux_clean p =
    (if p = [] then ''/''
     else let q = (if has_prefix p ''/'' then p else ''/'' @ p); np = go_clean q
          in if has_suffix q ''/'' \<and> np \<noteq> ''/'' then np @ ''/'' else np)"

datatype admin_route = SetupSession | PairingRoute | InfoPage | Prepare | Wait | Cancel | TunnelStart | TunnelStop | RevokeAll | Shutdown

datatype route = Health | Setup | OAuth oauth_endpoint | Mcp | Admin admin_route

definition admin_routes :: "(string \<times> admin_route) list" where
  "admin_routes =
    [(''/admin/setup-session'', SetupSession), (''/admin/pairing'', PairingRoute), (''/admin/info'', InfoPage),
     (''/admin/control/prepare'', Prepare), (''/admin/control/wait'', Wait), (''/admin/control/cancel'', Cancel),
     (''/admin/tunnel/start'', TunnelStart), (''/admin/tunnel/stop'', TunnelStop), (''/admin/revoke-all'', RevokeAll),
     (''/admin/shutdown'', Shutdown)]"

definition bridge_routes :: "(string \<times> route) list" where
  "bridge_routes = [(''/health'', Health), (''/mcp'', Mcp)] @ map (map_prod id OAuth) oauth_routes @ map (map_prod id Admin) admin_routes"

definition route_of :: "string \<Rightarrow> route option" where
  "route_of p = (case gm_get bridge_routes p of Some r \<Rightarrow> Some r | None \<Rightarrow> if has_prefix p ''/setup/'' then Some Setup else None)"

definition admin_verb :: "admin_route \<Rightarrow> string" where
  "admin_verb r = (if r = InfoPage then ''GET'' else ''POST'')"

definition serve_admin :: "bridge_lib \<Rightarrow> bridge_env \<Rightarrow> admin_route \<Rightarrow> bridge_request \<Rightarrow> bridge \<Rightarrow> bridge_reply option \<times> bridge" where
  "serve_admin lib env r q b =
    (if \<not> admin_only lib b q then (Some NotFound, b)
     else if bq_verb q \<noteq> admin_verb r then (Some (NotAllowed (admin_verb r)), b)
     else (case r of
         Wait \<Rightarrow> control_wait lib env q b
       | SetupSession \<Rightarrow> map_prod Some id (admin_setup_session lib env q b)
       | PairingRoute \<Rightarrow> map_prod Some id (admin_pairing lib env b)
       | InfoPage \<Rightarrow> map_prod Some id (admin_info lib env b)
       | Prepare \<Rightarrow> map_prod Some id (control_prepare lib env q b)
       | Cancel \<Rightarrow> map_prod Some id (control_cancel lib env q b)
       | TunnelStart \<Rightarrow> map_prod Some id (admin_tunnel_start env b)
       | TunnelStop \<Rightarrow> map_prod Some id (admin_tunnel_stop env b)
       | RevokeAll \<Rightarrow> map_prod Some id (admin_revoke_all lib env b)
       | Shutdown \<Rightarrow> (Some (AdminOk ShuttingDown), b\<lparr>bg_closing := True\<rparr>)))"

text \<open>The callback of the setup pages: it asks the store first and reads the pairing manager only without a token.\<close>

definition setup_progress_of :: "time \<Rightarrow> pairing_status \<Rightarrow> setup_status" where
  "setup_progress_of now st =
    (case pst_state st of
       PairingStateActive \<Rightarrow> plain_status StateWaiting
     | PairingStateConsumed \<Rightarrow>
        if now - pst_changed_at st \<le> minute then plain_status StateFinishing
        else failed_status ''ChatGPT did not finish the token exchange. Run codexlink again.''
     | PairingStateExpired \<Rightarrow> failed_status ''The pairing code expired. Run codexlink again.''
     | PairingStateLocked \<Rightarrow> failed_status ''The pairing code was locked after too many attempts. Run codexlink again.''
     | _ \<Rightarrow> failed_status ''No active pairing session exists. Run codexlink again.'')"

definition setup_status_of :: "bridge_lib \<Rightarrow> bridge_env \<Rightarrow> bridge \<Rightarrow> setup_session \<Rightarrow> setup_status" where
  "setup_status_of lib env b s =
    (let n = token_count_for_audience (xl_auth (bl_oauth lib)) (store_now env) (sn_mcp_url s) (os_store (bg_oauth b))
     in if 0 < n then \<lparr>us_state = StateConnected, us_authorized = True, us_tokens = n, us_message = []\<rparr>
        else setup_progress_of (be_setup_clk env 3) (fst (pm_status (be_pairing_now env) (os_pairing (bg_oauth b)))))"

definition setup_request_of :: "bridge_request \<Rightarrow> setup_request" where
  "setup_request_of q = \<lparr>sr_verb = bq_verb q, sr_path = bq_path q, sr_remote_addr = hr_remote_addr (bq_http q),
     sr_cf_ip = hr_cf_ip (bq_http q), sr_forwarded_for = bq_forwarded_for q, sr_forwarded = bq_forwarded q\<rparr>"

definition serve_setup :: "bridge_lib \<Rightarrow> bridge_env \<Rightarrow> bridge_request \<Rightarrow> bridge \<Rightarrow> bridge_reply \<times> bridge" where
  "serve_setup lib env q b =
    (case setup_serve (Some (setup_status_of lib env b)) (be_setup_clk env) (be_draw env) (setup_request_of q) (bg_setup b) of
       (reply, m) \<Rightarrow>
         (FromSetup reply,
          (case reply of
             SetupStatus st \<Rightarrow> if us_authorized st then b else set_pairing (snd (pm_status (be_pairing_now env) (os_pairing (bg_oauth b)))) b
           | _ \<Rightarrow> b)\<lparr>bg_setup := m\<rparr>))"

definition serve_mcp :: "bridge_lib \<Rightarrow> bridge_env \<Rightarrow> bridge_request \<Rightarrow> bridge \<Rightarrow> bridge_reply \<times> bridge" where
  "serve_mcp lib env q b =
    (if \<not> mcp_origin_guard lib b q then (OriginRefused, b)
     else case bearer_check (bl_oauth lib) (http_of env b) (bq_http q) (os_store (bg_oauth b)) of
       Inl r \<Rightarrow> (FromOAuth r, b)
     | Inr p \<Rightarrow>
        (case mcp_serve (bl_mcp lib) (bl_render lib) (bl_registry lib) p ((bq_mcp q)\<lparr>mq_verb := bq_verb q\<rparr>) (bg_mcp b) of
           (reply, s) \<Rightarrow> (FromMcp reply, b\<lparr>bg_mcp := s\<rparr>)))"

definition serve_route :: "bridge_lib \<Rightarrow> bridge_env \<Rightarrow> route \<Rightarrow> bridge_request \<Rightarrow> bridge \<Rightarrow> bridge_reply option \<times> bridge" where
  "serve_route lib env r q b =
    (case r of
       Health \<Rightarrow> (Some (if bq_verb q \<noteq> ''GET'' then NotAllowed ''GET'' else Healthy), b)
     | Setup \<Rightarrow> map_prod Some id (serve_setup lib env q b)
     | OAuth e \<Rightarrow>
        (case oauth_serve (bl_oauth lib) (http_of env b) e (bq_http q) (be_pairing_now env) (bg_oauth b) of
           (Panicked, s) \<Rightarrow> (Some InternalError, b\<lparr>bg_oauth := s\<rparr>)
         | (Answer r, s) \<Rightarrow> (Some (FromOAuth r), b\<lparr>bg_oauth := s\<rparr>))
     | Mcp \<Rightarrow> map_prod Some id (serve_mcp lib env q b)
     | Admin a \<Rightarrow> serve_admin lib env a q b)"

text \<open>One request; the paths of \<open>CONNECT\<close> are not cleaned.\<close>

definition bridge_serve :: "bridge_lib \<Rightarrow> bridge_env \<Rightarrow> bridge_request \<Rightarrow> bridge \<Rightarrow> bridge_reply option \<times> bridge" where
  "bridge_serve lib env q b =
    (let p = (if bq_verb q = ''CONNECT'' then bq_path q else mux_clean (bq_path q))
     in if p = ''/setup'' then (Some (MuxRedirect ''/setup/''), b)
        else if p \<noteq> bq_path q then (Some (MuxRedirect p), b)
        else (case route_of p of None \<Rightarrow> (Some NotFound, b) | Some r \<Rightarrow> serve_route lib env r q b))"

end
