(* ===== verification/AuthGrants.thy ===== *)
theory AuthGrants
  imports AuthProps
begin

text \<open>
  What the records of the token store grant: a property \<open>G\<close> of client, audience, scopes and the
  permission to refresh that holds of every authorization code request holds of every code and of
  every token, through exchange, refresh and rotation.  Then the functional behaviour of exchange,
  refresh and revocation.
\<close>

section \<open>Grants are never widened\<close>

type_synonym grant_policy = "string \<Rightarrow> string \<Rightarrow> string list \<Rightarrow> bool \<Rightarrow> bool"

definition code_ok :: "grant_policy \<Rightarrow> auth_code \<Rightarrow> bool" where
  "code_ok G r \<longleftrightarrow> G (co_client_id r) (co_audience r) (co_scopes r) (co_refresh_allowed r)"

definition token_ok :: "grant_policy \<Rightarrow> token_record \<Rightarrow> bool" where
  "token_ok G r \<longleftrightarrow> G (tk_client_id r) (tk_audience r) (tk_scopes r) (tk_refresh_allowed r)
     \<and> (tk_kind r = ''refresh'' \<longrightarrow> tk_refresh_allowed r \<and> contains_scope (tk_scopes r) ''offline_access'')"

definition grants_ok :: "grant_policy \<Rightarrow> auth_store \<Rightarrow> bool" where
  "grants_ok G s \<longleftrightarrow> (\<forall>k r. gm_get (as_codes s) k = Some r \<longrightarrow> code_ok G r)
     \<and> (\<forall>k r. gm_get (as_tokens s) k = Some r \<longrightarrow> token_ok G r)"

lemma grants_ok_forgets: "grants_ok G s \<Longrightarrow> forgets s s' \<Longrightarrow> grants_ok G s'"
  unfolding grants_ok_def using forgets_token forgets_code by blast

lemma grants_ok_granted:
  assumes "grants_ok G s" and "G client_id audience scopes ra"
    and "refresh \<noteq> None \<Longrightarrow> ra \<and> contains_scope scopes ''offline_access''"
  shows "grants_ok G (granted_store lib access refresh client_id family scopes audience ra now s)"
  using assms
  by (auto simp: grants_ok_def granted_store_get token_ok_def access_record_def refresh_record_def split: if_splits)

lemma issue_grants:
  assumes "issue_tokens lib clk dr err client_id scopes audience family0 ra s0 = (res, s')" and "as_keyed s0"
    and "grants_ok G s0" and "G client_id audience scopes ra"
  shows "grants_ok G s'"
proof (cases res)
  case (Inl e)
  then show ?thesis using issue_tokens_error [OF _ assms(2)] assms(1,3) grants_ok_forgets by blast
next
  case (Inr ts)
  let ?s = "as_prune (clk 0) s0"
  obtain family refresh where ok:
    "if ra \<and> contains_scope scopes ''offline_access''
       then refresh = Some (ts_refresh ts) \<and> random_token ''cl_rt'' (dr_refresh dr) = refresh
       else refresh = None \<and> ts_refresh ts = []"
    "as_save lib (clk 2) err (granted_store lib (ts_access ts) refresh client_id family scopes audience ra (clk 1) ?s) = (None, s')"
    using issue_tokens_ok [OF assms(1) [unfolded Inr]] by blast
  have "grants_ok G ?s" using assms(2,3) grants_ok_forgets as_prune_forgets by blast
  then have "grants_ok G (granted_store lib (ts_access ts) refresh client_id family scopes audience ra (clk 1) ?s)"
    by (rule grants_ok_granted) (use assms(4) ok(1) in \<open>auto split: if_splits\<close>)
  moreover have "as_keyed (granted_store lib (ts_access ts) refresh client_id family scopes audience ra (clk 1) ?s)"
    using assms(2) by (intro granted_store_keyed as_prune_keyed)
  ultimately show ?thesis using as_save_forgets [OF ok(2)] grants_ok_forgets by blast
qed

lemma drop_code_forgets: "forgets s (s\<lparr>as_codes := gm_del k (as_codes s)\<rparr>)"
  by (auto simp: forgets_def map_le_iff gomap_simps)

lemma exchange_grants:
  assumes "exchange_authorization_code lib clk dr err code client_id redirect verifier audience s = (res, s')"
    and "as_inv s" and "grants_ok G s"
  shows "grants_ok G s'"
proof -
  let ?s = "as_prune (clk 0) s" let ?d = "?s\<lparr>as_codes := gm_del (hv lib code) (as_codes ?s)\<rparr>"
  have i: "as_inv ?s" by (rule as_prune_inv [OF assms(2)])
  then have d: "as_inv ?d" by (rule drop_code_inv)
  have gs: "grants_ok G ?s" using assms(2,3) grants_ok_forgets as_prune_forgets by (blast intro: assms(2) [unfolded as_inv_def, THEN conjunct1])
  then have gd: "grants_ok G ?d" using drop_code_forgets by (rule grants_ok_forgets)
  consider "s' = ?d"
    | r where "gm_get (as_codes ?s) (hv lib code) = Some r" "co_client_id r = client_id"
        "issue_tokens lib (\<lambda>i. clk (i + 2)) dr err client_id (co_scopes r) (co_audience r) [] (co_refresh_allowed r) ?d = (res, s')"
    using assms(1) by (auto simp: exchange_authorization_code_def Let_def split: option.splits if_splits)
  then show ?thesis
  proof cases
    case (2 r)
    then have "G client_id (co_audience r) (co_scopes r) (co_refresh_allowed r)"
      using gs by (auto simp: grants_ok_def code_ok_def)
    then show ?thesis using issue_grants [OF 2(3) _ gd] d by (simp add: as_inv_def)
  qed (use gd in simp)
qed

lemma revoke_family_forgets: "gm_ok (as_tokens s) \<Longrightarrow> forgets s (revoke_family f s)"
  by (auto simp: forgets_def revoke_family_def map_le_iff gomap_simps split: option.splits if_splits)

lemma rotated_grants: "as_keyed s \<Longrightarrow> grants_ok G s \<Longrightarrow> grants_ok G (rotated lib token r s)"
  by (auto simp: grants_ok_def rotated_def gomap_simps split: if_splits)

lemma refresh_grants:
  assumes "as_refresh lib clk dr err token client_id audience s = (res, s')" and "as_inv s" and "grants_ok G s"
  shows "grants_ok G s'"
proof -
  let ?s = "as_prune (clk 0) s"
  have i: "as_inv ?s" by (rule as_prune_inv [OF assms(2)])
  then have k: "as_keyed ?s" by (simp add: as_inv_def)
  have gs: "grants_ok G ?s" using assms(2,3) grants_ok_forgets as_prune_forgets by (auto simp: as_inv_def)
  from as_refresh_cases [OF assms(1)] show ?thesis
  proof (elim disjE exE conjE)
    fix tomb e assume sv: "as_save lib (clk 1) err (revoke_family (tb_family_id tomb) ?s) = (e, s')"
    have rv: "as_keyed (revoke_family (tb_family_id tomb) ?s)" using revoke_family_inv [OF i] by (simp add: as_inv_def)
    have "grants_ok G (revoke_family (tb_family_id tomb) ?s)"
      by (rule grants_ok_forgets [OF gs revoke_family_forgets]) (simp add: k del: as_prune_simps)
    then show ?thesis using as_save_forgets [OF sv rv] grants_ok_forgets by blast
  next
    fix q s2 assume q: "gm_get (as_tokens ?s) (hv lib token) = Some q"
        "refresh_refused lib (clk 2) client_id audience q ?s = None"
      and issue: "issue_tokens lib (\<lambda>i. clk (i + 3)) dr err client_id (tk_scopes q) (tk_audience q) (tk_family_id q) True
         (rotated lib token q ?s) = (res, s2)"
      and s': "s' = (case res of Inl _ \<Rightarrow> unrotated lib token q s2 | Inr _ \<Rightarrow> s2)"
    have tok: "token_ok G q" using gs q(1) by (auto simp: grants_ok_def)
    have "tk_client_id q = client_id" "tk_refresh_allowed q" using q(2) by (auto simp: refresh_refused_def split: if_splits)
    then have G: "G client_id (tk_audience q) (tk_scopes q) True" using tok by (simp add: token_ok_def)
    have "as_keyed (rotated lib token q ?s)" using rotated_inv [OF i q] by (simp add: as_inv_def)
    from issue_grants [OF issue this rotated_grants [OF k gs] G] have g2: "grants_ok G s2" .
    then show ?thesis
    proof (cases res)
      case (Inl e)
      then show ?thesis using g2 tok s' by (auto simp: grants_ok_def unrotated_def gomap_simps split: if_splits)
    qed (use s' in simp)
  qed (use gs in simp)
qed

lemma save_grants: "as_save lib t err s = (e, s') \<Longrightarrow> as_keyed s \<Longrightarrow> grants_ok G s \<Longrightarrow> grants_ok G s'"
  using as_save_forgets grants_ok_forgets by blast

lemma register_cases:
  assumes "register_client_metadata lib sf clk err draw m s = (res, s')"
  shows "s' = s \<or> s' = make_client_room (as_prune (clk 1) s)
    \<or> (\<exists>i c e s4. as_save lib (clk 2) err ((make_client_room (as_prune (clk 1) s))\<lparr>as_clients :=
           gm_put i c (as_clients (make_client_room (as_prune (clk 1) s)))\<rparr>) = (e, s4)
        \<and> ac_id c = i \<and> s' = (if e = None then s4 else s4\<lparr>as_clients := as_clients (as_prune (clk 1) s)\<rparr>))"
proof -
  let ?s1 = "as_prune (clk 1) s" let ?s2 = "make_client_room ?s1"
  show ?thesis
  proof (cases "s' = s \<or> s' = ?s2")
    case False
    then obtain meta i where m: "normalized_metadata (al_lower lib) sf m = Inr meta"
        "random_token ''cl_client'' draw = Some i" "int (length (as_clients ?s2)) < so_max_clients (as_options ?s2)"
      using assms by (auto simp: register_client_metadata_def Let_def not_le split: sum.splits metadata_error.splits option.splits if_splits)
    let ?c = "client_of i (rfc3339_nano (clk 0)) meta"
    obtain e s4 where sv: "as_save lib (clk 2) err (?s2\<lparr>as_clients := gm_put i ?c (as_clients ?s2)\<rparr>) = (e, s4)" by fastforce
    have "s' = (if e = None then s4 else s4\<lparr>as_clients := as_clients ?s1\<rparr>)"
      using assms m sv by (auto simp: register_client_metadata_def Let_def not_le [symmetric] split: option.splits)
    moreover have "ac_id ?c = i" by (simp add: client_of_def)
    ultimately show ?thesis using sv by blast
  qed auto
qed

lemma register_forgets:
  assumes "register_client_metadata lib sf clk err draw m s = (res, s')" and "as_inv s"
  shows "forgets s s'"
proof -
  let ?s1 = "as_prune (clk 1) s" let ?s2 = "make_client_room ?s1"
  have i2: "as_inv ?s2" using assms(2) by (simp add: as_prune_inv make_client_room_inv)
  have f1: "forgets s ?s1" using assms(2) by (simp add: as_prune_forgets as_inv_def)
  then have f2: "forgets s (?s2\<lparr>as_clients := cs\<rparr>)" for cs by (simp add: forgets_def)
  from register_cases [OF assms(1)] consider "s' = s" | "s' = ?s2"
    | i c e s4 where "as_save lib (clk 2) err (?s2\<lparr>as_clients := gm_put i c (as_clients ?s2)\<rparr>) = (e, s4)" "ac_id c = i"
        "s' = (if e = None then s4 else s4\<lparr>as_clients := as_clients ?s1\<rparr>)" by blast
  then show ?thesis
  proof cases
    case 1
    then show ?thesis by simp
  next
    case 2
    then show ?thesis using f2 [of "as_clients ?s2"] by simp
  next
    case (3 i c e s4)
    have "as_keyed (?s2\<lparr>as_clients := gm_put i c (as_clients ?s2)\<rparr>)"
      using i2 3(2) by (simp add: as_inv_def as_keyed_def keyed_by_put)
    from as_save_forgets [OF 3(1) this] f2 have "forgets s s4" using forgets_trans by blast
    with 3(3) show ?thesis by (auto simp: forgets_def split: if_splits)
  qed
qed

text \<open>What a call asks for: only \<open>CreateAuthorizationCode\<close> brings in a new grant.\<close>

definition call_grants :: "grant_policy \<Rightarrow> auth_call \<Rightarrow> bool" where
  "call_grants G c = (case c of
     CallCode clk draw q \<Rightarrow> G (cr_client_id q) (cr_audience q) (cr_scopes q) (cr_refresh_allowed q) | _ \<Rightarrow> True)"

lemma auth_step_grants:
  assumes "auth_good s" and "grants_ok G s" and "call_grants G c"
  shows "grants_ok G (auth_step lib sf s c)"
proof -
  have i: "as_inv s" and k: "as_keyed s" using assms(1) by (simp_all add: auth_good_def as_inv_def)
  show ?thesis
  proof (cases c)
    case (CallRegister clk err draw m)
    then show ?thesis using register_forgets [OF prod.collapse [symmetric] i] assms(2) grants_ok_forgets by (metis auth_step.simps(1))
  next
    case (CallCode clk draw q)
    obtain res s' where cc: "create_authorization_code lib clk draw q s = (res, s')" by fastforce
    have gp: "grants_ok G (as_prune (clk 1) s)" using as_prune_forgets [OF k] assms(2) grants_ok_forgets by blast
    have "grants_ok G s'"
      using create_code_cases [OF cc]
    proof (elim disjE exE conjE)
      fix code assume "s' = (as_prune (clk 1) s)\<lparr>as_codes := gm_put (hv lib code) (code_record lib s q (clk 0) code) (prune_codes (clk 1) (as_codes s))\<rparr>"
      then show ?thesis using gp assms(3) CallCode
        by (auto simp: grants_ok_def call_grants_def gomap_simps code_ok_def code_record_def split: if_splits)
    qed (use gp assms(2) in simp_all)
    then show ?thesis using cc CallCode by simp
  next
    case (CallExchange clk dr err code client redirect verifier aud)
    then show ?thesis using exchange_grants [OF prod.collapse [symmetric] i assms(2)] by simp
  next
    case (CallRefresh clk dr err token client aud)
    then show ?thesis using refresh_grants [OF prod.collapse [symmetric] i assms(2)] by simp
  next
    case (CallRevoke t err token)
    obtain s1 where s1: "as_revoke lib t err token s = as_save lib t err s1"
        "s1 = without_token (hv lib token) s \<or> (\<exists>f. s1 = revoke_family f s) \<or> s1 = s"
      using as_revoke_eq by blast
    have "as_keyed s1" using s1(2) k without_token_keyed revoke_family_inv [OF i] by (auto simp: as_inv_def)
    moreover have "forgets s s1"
      using s1(2)
    proof (elim disjE exE)
      assume "s1 = without_token (hv lib token) s"
      then show ?thesis by (auto simp: forgets_def map_le_iff gomap_simps split: if_splits)
    next
      fix f assume "s1 = revoke_family f s"
      then show ?thesis using revoke_family_forgets k by simp
    qed simp
    moreover obtain e s2 where sv: "as_save lib t err s1 = (e, s2)" by fastforce
    ultimately show ?thesis using save_grants [OF sv] grants_ok_forgets [OF assms(2)] s1(1) CallRevoke by simp
  next
    case (CallRevokeAll t err)
    have "grants_ok G (s\<lparr>as_tokens := [], as_codes := [], as_tombstones := []\<rparr>)" by (simp add: grants_ok_def)
    moreover have "as_keyed (s\<lparr>as_tokens := [], as_codes := [], as_tombstones := []\<rparr>)" using k by (simp add: as_keyed_def)
    ultimately show ?thesis using save_grants [OF prod.collapse [symmetric]] CallRevokeAll by (simp add: revoke_all_def)
  next
    case (CallRevokeAudience t err aud)
    let ?P = "\<lambda>_ t. \<not> same_resource (al_lower lib) (tk_audience t) aud"
    let ?Q = "\<lambda>_ t. \<not> same_resource (al_lower lib) (tb_audience t) aud"
    let ?s = "s\<lparr>as_tokens := gm_retain ?P (as_tokens s), as_tombstones := gm_retain ?Q (as_tombstones s)\<rparr>"
    have "forgets s ?s" using k by (auto simp: forgets_def map_le_iff gomap_simps split: option.splits if_splits)
    then have "grants_ok G ?s" using assms(2) grants_ok_forgets by blast
    moreover have "as_keyed ?s" using k by (simp add: as_keyed_def keyed_by_retain gm_all_retain keyed_by_ok)
    ultimately show ?thesis using save_grants [OF prod.collapse [symmetric]] CallRevokeAudience by (simp add: revoke_audience_def Let_def)
  qed
qed

section \<open>Exchange\<close>

lemma random_token_nonempty: "random_token p d = Some t \<Longrightarrow> t \<noteq> []"
  by (auto simp: random_token_def)

lemma issue_refresh_iff:
  assumes "issue_tokens lib clk dr err client_id scopes audience family0 ra s0 = (Inr ts, s')"
  shows "ts_scopes ts = scopes \<and> (ts_refresh ts \<noteq> [] \<longleftrightarrow> ra \<and> contains_scope scopes ''offline_access'')"
proof -
  obtain refresh where ok: "if ra \<and> contains_scope scopes ''offline_access''
       then refresh = Some (ts_refresh ts) \<and> random_token ''cl_rt'' (dr_refresh dr) = refresh
       else refresh = None \<and> ts_refresh ts = []" "ts_scopes ts = scopes"
    using issue_tokens_ok [OF assms] by blast
  then show ?thesis using random_token_nonempty by (auto split: if_splits)
qed

text \<open>
  C25: a code is exchanged only by the client it was issued to, with the redirect URI it was issued
  for, before it expires, and by whoever holds the PKCE verifier of its challenge; the tokens carry
  the scopes of the code, and a refresh token is issued exactly when the client may refresh and asked
  for offline access.
\<close>

theorem exchange_needs_proof_of_possession:
  assumes "exchange_authorization_code lib clk dr err code client_id redirect verifier audience s = (Inr ts, s')" and "as_keyed s"
  shows "\<exists>r. gm_get (as_codes s) (hv lib code) = Some r \<and> clk 0 < co_expires_at r \<and> clk 1 < co_expires_at r
    \<and> co_client_id r = client_id \<and> co_redirect_uri r = redirect \<and> redirect \<noteq> []
    \<and> valid_verifier verifier \<and> pkce_challenge (al_sha256 lib) verifier = co_challenge r
    \<and> (audience = [] \<or> same_resource (al_lower lib) audience (co_audience r))
    \<and> ts_scopes ts = co_scopes r
    \<and> (ts_refresh ts \<noteq> [] \<longleftrightarrow> co_refresh_allowed r \<and> contains_scope (co_scopes r) ''offline_access'')"
proof -
  let ?s = "as_prune (clk 0) s" let ?d = "?s\<lparr>as_codes := gm_del (hv lib code) (as_codes ?s)\<rparr>"
  obtain r where r: "gm_get (prune_codes (clk 0) (as_codes s)) (hv lib code) = Some r" "clk 1 < co_expires_at r" "redirect \<noteq> []"
      "co_client_id r = client_id" "co_redirect_uri r = redirect" "audience = [] \<or> same_resource (al_lower lib) audience (co_audience r)"
      "valid_verifier verifier" "safe_equal (pkce_challenge (al_sha256 lib) verifier) (co_challenge r)"
      "issue_tokens lib (\<lambda>i. clk (i + 2)) dr err client_id (co_scopes r) (co_audience r) [] (co_refresh_allowed r) ?d = (Inr ts, s')"
    using assms(1) by (auto simp: exchange_authorization_code_def Let_def split: option.splits if_splits)
  have "gm_get (as_codes s) (hv lib code) = Some r" "clk 0 < co_expires_at r"
    using r(1) assms(2) by (simp_all add: get_prune_codes code_dead_def)
  moreover have "pkce_challenge (al_sha256 lib) verifier = co_challenge r" using r(8) by (simp add: safe_equal_def split: if_splits)
  ultimately show ?thesis using r issue_refresh_iff [OF r(9)] by blast
qed

section \<open>Refresh: rotation, replay, rollback\<close>

lemma refresh_ok:
  assumes "as_refresh lib clk dr err token client_id audience s = (Inr ts, s')"
  shows "\<exists>r. gm_get (prune_tokens (clk 0) (as_tokens s)) (hv lib token) = Some r
    \<and> refresh_refused lib (clk 2) client_id audience r (as_prune (clk 0) s) = None
    \<and> issue_tokens lib (\<lambda>i. clk (i + 3)) dr err client_id (tk_scopes r) (tk_audience r) (tk_family_id r) True
         (rotated lib token r (as_prune (clk 0) s)) = (Inr ts, s')"
  using assms
  by (auto simp: as_refresh_def Let_def rotated_def split: option.splits prod.splits sum.splits)

lemma issue_tombstones:
  assumes "issue_tokens lib clk dr err client_id scopes audience family0 ra s0 = (Inr ts, s')" and "as_keyed s0"
  shows "gm_get (as_tombstones s') k = Some b \<longleftrightarrow> gm_get (as_tombstones s0) k = Some b
    \<and> \<not> tombstone_dead (unix_milli (clk 0)) b \<and> \<not> tombstone_dead (unix_milli (clk 2)) b"
proof -
  obtain family refresh where sv: "as_save lib (clk 2) err (granted_store lib (ts_access ts) refresh client_id family scopes audience ra (clk 1) (as_prune (clk 0) s0)) = (None, s')"
    using issue_tokens_ok [OF assms(1)] by blast
  have ok: "gm_ok (prune_tombstones (clk 0) (as_tombstones s0))" using assms(2) by (simp add: tombstones.ok_prune)
  show ?thesis using as_save_eq [OF sv] ok assms(2) by (auto simp: get_prune_tombstones)
qed

lemma issue_tokens_get:
  assumes "issue_tokens lib clk dr err client_id scopes audience family0 ra s0 = (Inr ts, s')" and "as_keyed s0"
    and "k \<noteq> hv lib (ts_access ts)" and "ts_refresh ts \<noteq> [] \<longrightarrow> k \<noteq> hv lib (ts_refresh ts)"
    and "gm_get (as_tokens s') k = Some r"
  shows "gm_get (as_tokens s0) k = Some r"
proof -
  let ?s = "as_prune (clk 0) s0"
  obtain family refresh where ok: "if ra \<and> contains_scope scopes ''offline_access''
       then refresh = Some (ts_refresh ts) \<and> random_token ''cl_rt'' (dr_refresh dr) = refresh
       else refresh = None \<and> ts_refresh ts = []"
    "as_save lib (clk 2) err (granted_store lib (ts_access ts) refresh client_id family scopes audience ra (clk 1) ?s) = (None, s')"
    using issue_tokens_ok [OF assms(1)] by blast
  let ?g = "granted_store lib (ts_access ts) refresh client_id family scopes audience ra (clk 1) ?s"
  have g: "as_keyed ?g" using assms(2) by (intro granted_store_keyed as_prune_keyed)
  have "gm_get (as_tokens ?g) k = Some r" using as_save_forgets [OF ok(2) g] assms(5) forgets_token by blast
  moreover have "map_option (hv lib) refresh \<noteq> Some k"
    using ok(1) assms(4) random_token_nonempty by (auto split: if_splits)
  ultimately have "gm_get (as_tokens ?s) k = Some r" using assms(3)
    by (auto simp: granted_store_get split: if_splits simp del: as_prune_simps)
  then show ?thesis using forgets_token [OF as_prune_forgets [OF assms(2)]] by blast
qed

text \<open>
  C24: refreshing rotates: the presented token was a live refresh token of this client, the new tokens
  carry the same scopes, and the presented token is gone.  Presenting it once more while its
  tombstone lives is refused and takes every token of its family with it, the freshly issued ones
  included, even when the state file cannot be written.
\<close>

theorem refresh_rotates_and_replay_revokes:
  assumes "as_refresh lib clk dr err token client_id audience s = (Inr ts, s1)" and "as_inv s"
    and "gm_get (as_tokens s) (hv lib token) = Some r"
    and "hv lib token \<noteq> hv lib (ts_access ts)" and "ts_refresh ts \<noteq> [] \<longrightarrow> hv lib token \<noteq> hv lib (ts_refresh ts)"
    and "as_refresh lib clk' dr' err' token client' audience' s1 = (res, s2)"
    and "unix_milli (clk 3) < tk_expires_at r" "unix_milli (clk 5) < tk_expires_at r" "unix_milli (clk' 0) < tk_expires_at r"
  shows "tk_kind r = ''refresh'' \<and> tk_client_id r = client_id \<and> ts_scopes ts = tk_scopes r
    \<and> gm_get (as_tokens s1) (hv lib token) = None
    \<and> (\<forall>ts'. res \<noteq> Inr ts')
    \<and> (tk_family_id r \<noteq> [] \<longrightarrow> (\<forall>k q. gm_get (as_tokens s2) k = Some q \<longrightarrow> tk_family_id q \<noteq> tk_family_id r))"
proof -
  let ?s = "as_prune (clk 0) s" and ?h = "hv lib token"
  have i: "as_inv ?s" by (rule as_prune_inv [OF assms(2)])
  have k: "as_keyed s" using assms(2) by (simp add: as_inv_def)
  obtain r' where r': "gm_get (prune_tokens (clk 0) (as_tokens s)) ?h = Some r'"
      "refresh_refused lib (clk 2) client_id audience r' ?s = None"
      "issue_tokens lib (\<lambda>i. clk (i + 3)) dr err client_id (tk_scopes r') (tk_audience r') (tk_family_id r') True (rotated lib token r' ?s) = (Inr ts, s1)"
    using refresh_ok [OF assms(1)] by blast
  have [simp]: "r' = r" using r'(1) k assms(3) by (simp add: get_prune_tokens)
  have rk: "as_keyed (rotated lib token r ?s)" using rotated_inv [OF i _ r'(2)] r'(1) by (simp add: as_inv_def)
  have "gm_get (as_tokens (rotated lib token r ?s)) ?h = None" by (simp add: rotated_def gomap_simps)
  then have gone: "gm_get (as_tokens s1) ?h = None"
    using issue_tokens_get [OF r'(3)] rk assms(4,5) by (cases "gm_get (as_tokens s1) ?h") auto
  have s1: "as_keyed s1" using refresh_inv [OF assms(1,2)] by (simp add: as_inv_def)
  have tomb: "gm_get (as_tombstones s1) ?h = Some (tombstone_of r ?h)"
    using issue_tombstones [OF r'(3), of ?h "tombstone_of r ?h"] rk assms(7,8)
    by (simp add: rotated_def gomap_simps tombstone_dead_def tombstone_of_def)
  let ?s1 = "as_prune (clk' 0) s1"
  have none: "gm_get (as_tokens ?s1) ?h = None" using gone s1 by (simp add: tokens.get_prune)
  have tomb1: "gm_get (as_tombstones ?s1) ?h = Some (tombstone_of r ?h)"
    using tomb s1 assms(9) by (simp add: get_prune_tombstones tombstone_dead_def tombstone_of_def)
  obtain e where sv: "as_save lib (clk' 1) err' (revoke_family (tk_family_id r) ?s1) = (e, s2)" "\<forall>ts'. res \<noteq> Inr ts'"
    using assms(6) none tomb1
    by (auto simp: as_refresh_def Let_def tombstone_of_def split: prod.splits option.splits simp del: as_prune_simps)
  have i1: "as_inv ?s1" using refresh_inv [OF assms(1,2)] as_prune_inv by blast
  have rv: "as_keyed (revoke_family (tk_family_id r) ?s1)" using revoke_family_inv [OF i1] by (simp add: as_inv_def)
  have "tk_family_id q \<noteq> tk_family_id r" if "tk_family_id r \<noteq> []" "gm_get (as_tokens s2) k = Some q" for k q
  proof -
    have "gm_get (as_tokens (revoke_family (tk_family_id r) ?s1)) k = Some q"
      using as_save_forgets [OF sv(1) rv] that(2) forgets_token by blast
    moreover have "gm_ok (as_tokens ?s1)" using i1 by (simp add: as_inv_def del: as_prune_simps)
    ultimately show ?thesis using that(1)
      by (auto simp: revoke_family_def gomap_simps split: option.splits if_splits simp del: as_prune_simps)
  qed
  moreover have "tk_kind r = ''refresh''" "tk_client_id r = client_id" using r'(2) by (auto simp: refresh_refused_def split: if_splits)
  moreover have "ts_scopes ts = tk_scopes r" using issue_refresh_iff [OF r'(3)] by simp
  ultimately show ?thesis using gone sv(2) by blast
qed

text \<open>
  a refresh that fails, for whatever reason, does not cost the client its token: the record is
  back under its hash, unless the token had expired.
\<close>

theorem failed_refresh_keeps_token:
  assumes "as_refresh lib clk dr err token client_id audience s = (Inl e, s')" and "as_inv s"
    and "gm_get (as_tokens s) (hv lib token) = Some r" and "unix_milli (clk 0) < tk_expires_at r"
  shows "gm_get (as_tokens s') (hv lib token) = Some r"
proof -
  let ?s = "as_prune (clk 0) s"
  have live: "gm_get (as_tokens ?s) (hv lib token) = Some r"
    using assms(2-4) by (simp add: get_prune_tokens as_inv_def token_dead_def)
  from as_refresh_cases [OF assms(1)] show ?thesis
  proof (elim disjE exE conjE)
    fix q s2 assume "gm_get (as_tokens ?s) (hv lib token) = Some q"
      and "s' = (case Inl e of Inl _ \<Rightarrow> unrotated lib token q s2 | Inr _ \<Rightarrow> s2)"
    then show ?thesis using live by (simp add: unrotated_def gomap_simps)
  qed (use live in simp_all)
qed

section \<open>Revocation\<close>

text \<open>
  a revoked token is refused from then on, and so is every other token of its family, even when
  the state file could not be written.
\<close>

theorem revoked_family_is_refused:
  assumes "as_revoke lib t err token s = (e, s')" and "as_inv s" and "gm_get (as_tokens s) (hv lib token) = Some r"
    and "gm_get (as_tokens s) (hv lib other) = Some q" and "tk_family_id q = tk_family_id r \<and> tk_family_id r \<noteq> [] \<or> other = token"
  shows "verify_access lib now other audience s' = Inl Unknown"
proof -
  let ?s1 = "if tk_family_id r = [] then without_token (hv lib token) s else revoke_family (tk_family_id r) s"
  have sv: "as_save lib t err ?s1 = (e, s')"
    using assms(1,3) by (auto simp: as_revoke_def Let_def without_token_def split: if_splits)
  have k: "as_keyed ?s1" using assms(2) without_token_keyed revoke_family_inv [OF assms(2)] by (auto simp: as_inv_def)
  have "gm_get (as_tokens ?s1) (hv lib other) = None"
    using assms(2-5) by (auto simp: revoke_family_def gomap_simps as_inv_def split: option.splits)
  then have "gm_get (as_tokens s') (hv lib other) = None"
    using as_save_forgets [OF sv k] forgets_token by (cases "gm_get (as_tokens s') (hv lib other)") fastforce+
  then show ?thesis by (simp add: verify_access_def)
qed

section \<open>Examples\<close>

definition example_verifier_text :: string where
  "example_verifier_text = replicate 43 CHR ''a''"

definition example_code :: auth_code where
  "example_code = \<lparr>co_hash = hv example_lib ''x'', co_client_id = ''c'', co_redirect_uri = ''r'',
     co_challenge = pkce_challenge (al_sha256 example_lib) example_verifier_text, co_scopes = [''git.read''], co_workspace_id = ''w'',
     co_pairing_id = ''p'', co_audience = [], co_refresh_allowed = False, co_expires_at = 100\<rparr>"

definition example_token :: token_record where
  "example_token = \<lparr>tk_hash = hv example_lib ''t'', tk_kind = ''refresh'', tk_client_id = ''c'', tk_workspace_id = ''w'',
     tk_audience = [], tk_scopes = [''offline_access''], tk_family_id = ''f'', tk_refresh_allowed = True,
     tk_issued_at = 0, tk_expires_at = 50\<rparr>"

definition example_draws :: draws where
  "example_draws = \<lparr>dr_access = Some ''1'', dr_family = Some ''2'', dr_refresh = Some ''3''\<rparr>"

abbreviation code_store :: auth_store where
  "code_store \<equiv> example_store\<lparr>as_codes := [(hv example_lib ''x'', example_code)]\<rparr>"

abbreviation token_store :: auth_store where
  "token_store \<equiv> example_store\<lparr>as_tokens := [(hv example_lib ''t'', example_token)]\<rparr>"

lemma example_verifier_ok: "valid_verifier example_verifier_text"
proof -
  have "is_ascii example_verifier_text" by (simp add: example_verifier_text_def is_ascii_def list_all_iff byte_def)
  then have "runes example_verifier_text = map byte (replicate 43 CHR ''a'')"
    by (simp only: runes_ascii) (simp add: example_verifier_text_def)
  moreover have "list_all verifier_rune (map byte (replicate 43 CHR ''a''))"
    by (simp add: list_all_iff verifier_rune_def byte_def)
  ultimately show ?thesis by (simp add: valid_verifier_def example_verifier_text_def)
qed

lemma example_caps:
  "so_max_clients (as_options example_store) = 2" "so_max_tokens (as_options example_store) = 4"
  "so_max_tombstones (as_options example_store) = 4"
  "so_max_state_bytes (as_options example_store) = 8 * 1024 * 1024" "so_access_ttl (as_options example_store) = hour"
  "so_refresh_ttl (as_options example_store) = 30 * 24 * hour" "as_tokens example_store = []" "as_codes example_store = []"
  "as_tombstones example_store = []" "as_clients example_store = []" "as_workspace_id example_store = ''w''"
  by (simp_all add: example_store_def example_options_def apply_store_defaults_def default_int_def)

lemma code_store_inv: "as_inv code_store"
  by (simp add: as_inv_def as_keyed_def as_within_def example_store_def example_options_def apply_store_defaults_def
      default_int_def keyed_by_def gm_ok_def example_code_def)

lemma token_store_inv: "as_inv token_store"
  by (simp add: as_inv_def as_keyed_def as_within_def example_store_def example_options_def apply_store_defaults_def
      default_int_def keyed_by_def gm_ok_def gm_all_def example_token_def upgrade_token_def)

lemmas store_eval =
  issue_tokens_def as_prune_def prune_tokens_def prune_codes_def prune_tombstones_def gm_retain_def token_dead_def code_dead_def
  tombstone_dead_def as_save_def random_token_def example_draws_def example_caps unix_milli_def Let_def

lemma example_exchange:
  "\<exists>ts s'. exchange_authorization_code example_lib int example_draws None ''x'' ''c'' ''r'' example_verifier_text [] code_store = (Inr ts, s')
     \<and> ts_scopes ts = [''git.read'']"
  by (simp add: exchange_authorization_code_def store_eval example_code_def example_verifier_ok safe_equal_def contains_scope_def
      example_lib_def)

theorem exchange_needs_proof_of_possession_witness:
  "valid_verifier example_verifier_text \<and> co_challenge example_code = pkce_challenge id example_verifier_text"
proof -
  obtain ts s' where "exchange_authorization_code example_lib int example_draws None ''x'' ''c'' ''r'' example_verifier_text [] code_store = (Inr ts, s')"
    using example_exchange by blast
  from exchange_needs_proof_of_possession [OF this] code_store_inv show ?thesis
    by (auto simp: as_inv_def example_lib_def)
qed

lemma example_refresh:
  "\<exists>ts s'. as_refresh example_lib int example_draws None ''t'' ''c'' [] token_store = (Inr ts, s')
     \<and> ts_access ts = ''cl_at_'' @ b64_encode ''1'' \<and> ts_refresh ts = ''cl_rt_'' @ b64_encode ''3''"
  by (simp add: as_refresh_def refresh_refused_def store_eval example_token_def contains_scope_def example_lib_def)

lemma example_hash: "hv example_lib u = hv example_lib v \<longleftrightarrow> u = v"
  by (simp add: hash_value_def example_lib_def)

theorem refresh_rotates_and_replay_revokes_witness:
  "\<exists>ts s1. as_refresh example_lib int example_draws None ''t'' ''c'' [] token_store = (Inr ts, s1)
     \<and> (\<forall>k q. gm_get (as_tokens (snd (as_refresh example_lib int example_draws (Some ''disk full'') ''t'' ''c'' [] s1))) k = Some q
          \<longrightarrow> tk_family_id q \<noteq> ''f'')"
proof -
  obtain ts s1 where r: "as_refresh example_lib int example_draws None ''t'' ''c'' [] token_store = (Inr ts, s1)"
      "ts_access ts = ''cl_at_'' @ b64_encode ''1''" "ts_refresh ts = ''cl_rt_'' @ b64_encode ''3''"
    using example_refresh by blast
  obtain res s2 where r2: "as_refresh example_lib int example_draws (Some ''disk full'') ''t'' ''c'' [] s1 = (res, s2)" by fastforce
  have get: "gm_get (as_tokens token_store) (hv example_lib ''t'') = Some example_token" by simp
  have "\<forall>k q. gm_get (as_tokens s2) k = Some q \<longrightarrow> tk_family_id q \<noteq> tk_family_id example_token"
    using refresh_rotates_and_replay_revokes [OF r(1) token_store_inv get _ _ r2] r(2,3)
    by (simp add: example_hash unix_milli_def example_token_def)
  then show ?thesis using r(1) r2 by (simp add: example_token_def)
qed

theorem failed_refresh_keeps_token_witness:
  "gm_get (as_tokens (snd (as_refresh example_lib int example_draws (Some ''disk full'') ''t'' ''c'' [] token_store))) (hv example_lib ''t'')
     = Some example_token"
proof -
  obtain res s' where r: "as_refresh example_lib int example_draws (Some ''disk full'') ''t'' ''c'' [] token_store = (res, s')"
    by fastforce
  moreover have "fst (as_refresh example_lib int example_draws (Some ''disk full'') ''t'' ''c'' [] token_store) = Inl (ErrSave ''disk full'')"
    unfolding as_refresh_def refresh_refused_def
    by (simp add: store_eval example_token_def contains_scope_def example_lib_def)
  ultimately have "as_refresh example_lib int example_draws (Some ''disk full'') ''t'' ''c'' [] token_store = (Inl (ErrSave ''disk full''), s')"
    by simp
  from failed_refresh_keeps_token [OF this token_store_inv, of example_token] r show ?thesis
    by (simp add: unix_milli_def example_token_def)
qed

theorem revoked_family_is_refused_witness:
  "verify_access example_lib 3 ''t'' [] (snd (as_revoke example_lib 2 (Some ''disk full'') ''t'' token_store)) = Inl Unknown"
proof -
  obtain e s' where r: "as_revoke example_lib 2 (Some ''disk full'') ''t'' token_store = (e, s')" by fastforce
  have get: "gm_get (as_tokens token_store) (hv example_lib ''t'') = Some example_token" by simp
  have "verify_access example_lib 3 ''t'' [] s' = Inl Unknown"
    by (rule revoked_family_is_refused [OF r token_store_inv get get]) simp
  then show ?thesis by (simp add: r)
qed

section \<open>Opening what was saved\<close>

lemma option_eqI: "(\<And>v. a = Some v \<longleftrightarrow> b = Some v) \<Longrightarrow> a = b"
  by (cases a; cases b) auto

lemma persisted_distinct:
  assumes "keyed_by f m"
  shows "distinct (map f (map snd (sort_key fst m)))"
proof -
  have ok: "gm_ok m" using assms by (rule keyed_by_ok)
  have "map f (map snd (sort_key fst m)) = map fst (sort_key fst m)"
    using assms gm_set_iff [OF ok] by (auto simp: keyed_by_def)
  moreover have "distinct (map fst (sort_key fst m))" using ok by (simp add: gm_ok_def distinct_map)
  ultimately show ?thesis by (simp only:)
qed

lemma persisted_member:
  assumes "keyed_by f m"
  shows "v \<in> set (map snd (sort_key fst m)) \<and> f v = k \<longleftrightarrow> gm_get m k = Some v"
proof -
  have ok: "gm_ok m" using assms by (rule keyed_by_ok)
  have "v \<in> set (map snd (sort_key fst m)) \<longleftrightarrow> (\<exists>k'. gm_get m k' = Some v)"
    using gm_set_iff [OF ok] by force
  then show ?thesis using assms by (auto simp: keyed_by_def)
qed

lemma load_persisted:
  assumes "keyed_by f m" and "\<And>v. g v = v \<or> \<not> (\<exists>k. gm_get m k = Some v)"
  shows "gm_get (gm_load f P g (map snd (sort_key fst m))) k = Some v \<longleftrightarrow> gm_get m k = Some v \<and> P v"
proof -
  have g: "g v = v" if "v \<in> set (map snd (sort_key fst m))" for v
    using that persisted_member [OF assms(1), of v "f v"] assms(2) by blast
  then have eq: "map (\<lambda>x. f (g x)) (map snd (sort_key fst m)) = map f (map snd (sort_key fst m))"
    by (intro map_cong) simp_all
  have "distinct (map (\<lambda>x. f (g x)) (map snd (sort_key fst m)))"
    unfolding eq by (rule persisted_distinct [OF assms(1)])
  from gm_load_get [where key = f and g = g, OF this]
  have "gm_get (gm_load f P g (map snd (sort_key fst m))) k = Some v
    \<longleftrightarrow> (\<exists>x\<in>set (map snd (sort_key fst m)). P x \<and> v = g x \<and> f v = k)" .
  also have "\<dots> \<longleftrightarrow> (v \<in> set (map snd (sort_key fst m)) \<and> f v = k) \<and> P v" using g by metis
  finally show ?thesis unfolding persisted_member [OF assms(1)] .
qed

text \<open>
  opening the file that a successful save wrote restores every client, and every token and replay
  record that has not expired; authorization codes do not survive a restart.
\<close>

theorem auth_store_reopen_restores:
  assumes "as_save lib t err s = (None, s')" and "auth_good s" and "as_options s = apply_store_defaults opts"
    and "bytes \<le> so_max_state_bytes (as_options s)"
  shows "\<exists>st s2. as_file s' = Some st \<and> new_auth_store wid opts (Inr (Some (st, bytes))) now = Inr s2
    \<and> gm_get (as_clients s2) = gm_get (as_clients s') \<and> as_codes s2 = []
    \<and> (\<forall>k r. gm_get (as_tokens s2) k = Some r \<longleftrightarrow> gm_get (as_tokens s') k = Some r \<and> unix_milli now < tk_expires_at r)
    \<and> (\<forall>k r. gm_get (as_tombstones s2) k = Some r \<longleftrightarrow> gm_get (as_tombstones s') k = Some r \<and> unix_milli now < tb_expires_at r)"
proof -
  let ?p = "as_prune t s" let ?st = "persisted ?p"
  have s': "s' = ?p\<lparr>as_file := Some ?st\<rparr>"
    using assms(1) by (auto simp: as_save_def Let_def split: if_splits option.splits)
  have i: "as_inv ?p" using assms(2) by (intro as_prune_inv) (simp add: auth_good_def)
  then have k: "keyed_by ac_id (as_clients ?p)" "keyed_by tk_hash (as_tokens ?p)" "keyed_by tb_hash (as_tombstones ?p)"
      "gm_all (\<lambda>t. upgrade_token t = t) (as_tokens ?p)"
    by (simp_all add: as_inv_def as_keyed_def del: as_prune_simps)
  have o: "as_options ?p = apply_store_defaults opts" using assms(3) by simp
  have fits: "\<not> so_max_state_bytes (apply_store_defaults opts) < bytes"
      "\<not> so_max_clients (apply_store_defaults opts) < int (length (ps_clients ?st))"
      "\<not> so_max_tokens (apply_store_defaults opts) < int (length (ps_tokens ?st))"
      "\<not> so_max_tombstones (apply_store_defaults opts) < int (length (ps_tombstones ?st))"
    using i assms(3,4) by (simp_all add: as_inv_def as_within_def persisted_def not_less)
  define s2 where "s2 = \<lparr>as_workspace_id = wid, as_options = apply_store_defaults opts, as_clients = load_clients (ps_clients ?st),
     as_tokens = load_tokens (unix_milli now) (ps_tokens ?st), as_codes = [],
     as_tombstones = load_tombstones (unix_milli now) (ps_tombstones ?st), as_file = Some ?st\<rparr>"
  have "new_auth_store wid opts (Inr (Some (?st, bytes))) now = Inr s2"
    using fits by (simp add: new_auth_store_def s2_def)
  moreover have "gm_get (as_clients s2) = gm_get (as_clients s')"
  proof
    fix j
    have "gm_get (as_clients s2) j = Some v \<longleftrightarrow> gm_get (as_clients s') j = Some v" for v
      using load_persisted [OF k(1), of "\<lambda>c. c" "\<lambda>_. True"] by (simp add: s2_def s' load_clients_def persisted_def)
    then show "gm_get (as_clients s2) j = gm_get (as_clients s') j" by (rule option_eqI)
  qed
  moreover have "gm_get (as_tokens s2) j = Some r \<longleftrightarrow> gm_get (as_tokens s') j = Some r \<and> unix_milli now < tk_expires_at r" for j r
  proof -
    have "upgrade_token v = v \<or> \<not> (\<exists>k. gm_get (as_tokens ?p) k = Some v)" for v using k(4) by (auto simp: gm_all_def)
    from load_persisted [OF k(2) this, of "\<lambda>t. \<not> tk_expires_at t \<le> unix_milli now"]
    show ?thesis by (simp add: s2_def s' load_tokens_def persisted_def not_le del: as_prune_simps)
  qed
  moreover have "gm_get (as_tombstones s2) j = Some r \<longleftrightarrow> gm_get (as_tombstones s') j = Some r \<and> unix_milli now < tb_expires_at r" for j r
    using load_persisted [OF k(3), of "\<lambda>t. t" "\<lambda>t. unix_milli now < tb_expires_at t"]
    by (simp add: s2_def s' load_tombstones_def persisted_def del: as_prune_simps)
  moreover have "as_file s' = Some ?st" "as_codes s2 = []" by (simp_all add: s' s2_def)
  ultimately show ?thesis by blast
qed

theorem auth_store_reopen_restores_witness:
  "\<exists>st s2. new_auth_store ''w'' example_options (Inr (Some (st, 100))) 3000000 = Inr s2
     \<and> gm_get (as_tokens s2) (hv example_lib ''t'') = Some example_token"
proof -
  obtain s' where sv: "as_save example_lib 1 None token_store = (None, s')" "gm_get (as_tokens s') (hv example_lib ''t'') = Some example_token"
    by (simp add: store_eval example_lib_def example_token_def)
  have good: "auth_good token_store"
    using token_store_inv example_store_good by (simp add: auth_good_def)
  have "as_options token_store = apply_store_defaults example_options" by (simp add: example_store_def)
  from auth_store_reopen_restores [OF sv(1) good this, of 100 "''w''" 3000000] obtain st s2 where
      "new_auth_store ''w'' example_options (Inr (Some (st, 100))) 3000000 = Inr s2"
      "\<forall>k r. gm_get (as_tokens s2) k = Some r \<longleftrightarrow> gm_get (as_tokens s') k = Some r \<and> unix_milli 3000000 < tk_expires_at r"
    by (auto simp: example_caps)
  moreover have "unix_milli 3000000 < tk_expires_at example_token" by (simp add: unix_milli_def example_token_def)
  ultimately show ?thesis using sv(2) by blast
qed

section \<open>Which client makes room\<close>

text \<open>A client registered at a time.\<close>

definition client_at :: "string \<Rightarrow> time \<Rightarrow> auth_client" where
  "client_at i t = \<lparr>ac_id = i, ac_name = [], ac_redirect_uris = [], ac_auth_method = ''none'', ac_grant_types = [],
     ac_response_types = [], ac_application_type = [], ac_jwks_uri = [], ac_signing_alg = [], ac_created_at = rfc3339_nano t\<rparr>"

text \<open>
  when the store is full, clients are evicted in the order of their creation times as text; a
  client created half a second after another one, within the same second, goes before it.
\<close>

theorem newer_client_is_evicted_first:
  "gm_get (as_clients (make_client_room (example_store\<lparr>as_clients :=
      [(''old'', client_at ''old'' 1700000000000000000), (''new'', client_at ''new'' 1700000000500000000)]\<rparr>))) ''new'' = None
   \<and> gm_get (as_clients (make_client_room (example_store\<lparr>as_clients :=
      [(''old'', client_at ''old'' 1700000000000000000), (''new'', client_at ''new'' 1700000000500000000)]\<rparr>))) ''old'' \<noteq> None"
  by (simp add: make_client_room_def example_caps eviction_order_def active_clients_def client_at_def rfc3339_nano_examples
      Let_def less_char_def)

end
