(* ===== verification/OAuthFlow.thy ===== *)
theory OAuthFlow
  imports OAuthServer AuthGrants
begin

text \<open>
  What the OAuth server guarantees over any sequence of requests: what a token grants was consented to, a code
  needs a pairing, errors do not redirect to foreign URIs, a form can be submitted twice, and how
  assertions are remembered.
\<close>

section \<open>Calls\<close>

datatype oauth_call =
    RegisterCall http_env http_request
  | AuthorizeCall http_env http_request time
  | TokenCall http_env http_request
  | RevokeCall http_env http_request
  | PairingCreate "string option" "string option" time
  | PairingInvalidate time

fun oauth_step :: "oauth_lib \<Rightarrow> oauth_server \<Rightarrow> oauth_call \<Rightarrow> oauth_server" where
  "oauth_step lib s (RegisterCall env q) = snd (register_client lib env q s)"
| "oauth_step lib s (AuthorizeCall env q t) = snd (oauth_authorize lib env q t s)"
| "oauth_step lib s (TokenCall env q) = snd (oauth_token lib env q s)"
| "oauth_step lib s (RevokeCall env q) = snd (oauth_revoke lib env q s)"
| "oauth_step lib s (PairingCreate raw sid now) = s\<lparr>os_pairing := snd (pm_create (hv (xl_auth lib)) raw sid now (os_pairing s))\<rparr>"
| "oauth_step lib s (PairingInvalidate now) = s\<lparr>os_pairing := pm_invalidate now (os_pairing s)\<rparr>"

text \<open>The policy of the server: supported scopes only, offline access only for clients that may refresh.\<close>

definition scope_policy :: grant_policy where
  "scope_policy client_id audience scopes ra \<longleftrightarrow> set scopes \<subseteq> set supported_scopes \<and> (contains_scope scopes ''offline_access'' \<longrightarrow> ra)"

definition pending_ok :: "pending_authorization \<Rightarrow> bool" where
  "pending_ok p \<longleftrightarrow> scope_policy (pa_client_id p) (pa_audience p) (pa_scopes p) (pa_refresh_allowed p) \<and> valid_challenge (pa_challenge p)"

definition server_ok :: "oauth_server \<Rightarrow> bool" where
  "server_ok s \<longleftrightarrow> auth_good (os_store s) \<and> grants_ok scope_policy (os_store s) \<and> gm_ok (os_pending s) \<and> gm_all pending_ok (os_pending s)"

lemma parse_scopes_supported: "parse_scopes text = Inr scopes \<Longrightarrow> set scopes \<subseteq> set supported_scopes"
proof -
  have d: "set default_scopes \<subseteq> set supported_scopes" by (simp add: default_scopes_def supported_scopes_def)
  have "set r \<subseteq> set supported_scopes" if "scope_loop [] xs = Some r" for xs r
    using that by (auto simp: scope_loop_eq split: if_splits)
  moreover assume "parse_scopes text = Inr scopes"
  then have "scopes = default_scopes \<or> scope_loop [] (str_fields (replace_char CHR ''+'' CHR '' '' text)) = Some scopes"
    unfolding parse_scopes_def by (auto split: if_splits option.splits list.splits)
  ultimately show "set scopes \<subseteq> set supported_scopes" using d by blast
qed

lemma check_authorization_ok:
  "check_authorization lib env query client = Inr (challenge, scopes, ra) \<Longrightarrow> valid_challenge challenge \<and> scope_policy c a scopes ra"
  using parse_scopes_supported
  by (auto simp: check_authorization_def Let_def scope_policy_def split: if_splits sum.splits)

lemma prune_pending_ok: "server_ok s \<Longrightarrow> server_ok (prune_pending t s)"
  by (auto simp: server_ok_def prune_pending_def intro: gm_all_retain)

lemma server_ok_update [simp]:
  "server_ok (s\<lparr>os_register_limiter := l\<rparr>) = server_ok s" "server_ok (s\<lparr>os_authorize_limiter := l\<rparr>) = server_ok s"
  "server_ok (s\<lparr>os_pairing := m\<rparr>) = server_ok s" "server_ok (s\<lparr>os_jtis := j\<rparr>) = server_ok s"
  "server_ok (s\<lparr>os_completed := c\<rparr>) = server_ok s"
  by (simp_all add: server_ok_def)

lemma server_ok_pending:
  "server_ok s \<Longrightarrow> gm_ok p \<and> gm_all pending_ok p \<Longrightarrow> server_ok (s\<lparr>os_pending := p, os_completed := c\<rparr>)"
  by (simp add: server_ok_def)

text \<open>A handler that runs one operation of the store.\<close>

lemma store_call_ok:
  assumes "server_ok s" and "call_grants scope_policy c" and "store = auth_step (xl_auth lib) (xl_fold lib) (os_store s) c"
  shows "server_ok (s\<lparr>os_store := store\<rparr>)"
  using assms auth_step_grants auth_step_inv by (simp add: server_ok_def)

lemma register_client_cases:
  "\<exists>l. snd (register_client lib env q s) \<in> {s, s\<lparr>os_register_limiter := l\<rparr>}
    \<or> (\<exists>m. snd (register_client lib env q s) = s\<lparr>os_register_limiter := l, os_store :=
         auth_step (xl_auth lib) (xl_fold lib) (os_store s) (CallRegister (he_store_clk env) (he_write env) (he_draw env) m)\<rparr>)"
proof -
  obtain a l where al: "rl_allow (os_register_limiter s) (client_ip lib q, he_clk env 0) = (a, l)" by fastforce
  show ?thesis
  proof (cases "hr_method q = ''POST'' \<and> a")
    case False
    then show ?thesis by (auto simp: register_client_def Let_def al)
  next
    case True
    show ?thesis
    proof (cases "hr_registration q")
      case (Registration m)
      obtain res store where r: "register_client_metadata (xl_auth lib) (xl_fold lib) (he_store_clk env) (he_write env) (he_draw env) m (os_store s) = (res, store)"
        by fastforce
      have "snd (register_client lib env q s) = s\<lparr>os_register_limiter := l, os_store := store\<rparr>"
      proof (cases res)
        case (Inl e)
        then show ?thesis using True by (cases e) (simp_all add: register_client_def al Registration r)
      qed (use True in \<open>simp add: register_client_def al Registration r\<close>)
      then have "snd (register_client lib env q s) = s\<lparr>os_register_limiter := l, os_store :=
         auth_step (xl_auth lib) (xl_fold lib) (os_store s) (CallRegister (he_store_clk env) (he_write env) (he_draw env) m)\<rparr>"
        by (simp add: r)
      then show ?thesis by blast
    qed (use True in \<open>auto simp: register_client_def Let_def al\<close>)
  qed
qed

lemma register_client_ok: "server_ok s \<Longrightarrow> server_ok (snd (register_client lib env q s))"
proof -
  assume ok: "server_ok s"
  obtain l where "snd (register_client lib env q s) \<in> {s, s\<lparr>os_register_limiter := l\<rparr>}
    \<or> (\<exists>m. snd (register_client lib env q s) = s\<lparr>os_register_limiter := l, os_store :=
         auth_step (xl_auth lib) (xl_fold lib) (os_store s) (CallRegister (he_store_clk env) (he_write env) (he_draw env) m)\<rparr>)"
    using register_client_cases by blast
  then show ?thesis
  proof (elim disjE exE)
    fix m assume "snd (register_client lib env q s) = s\<lparr>os_register_limiter := l, os_store :=
         auth_step (xl_auth lib) (xl_fold lib) (os_store s) (CallRegister (he_store_clk env) (he_write env) (he_draw env) m)\<rparr>"
    moreover have "server_ok (s\<lparr>os_register_limiter := l\<rparr>)" using ok by simp
    then have "server_ok (s\<lparr>os_register_limiter := l\<rparr>\<lparr>os_store :=
         auth_step (xl_auth lib) (xl_fold lib) (os_store s) (CallRegister (he_store_clk env) (he_write env) (he_draw env) m)\<rparr>)"
      by (rule store_call_ok [where lib = lib and c = "CallRegister (he_store_clk env) (he_write env) (he_draw env) m"])
         (simp_all add: call_grants_def)
    ultimately show ?thesis by (simp only:)
  qed (use ok in auto)
qed

lemma accept_authorization_ok:
  assumes "server_ok s" and "valid_challenge challenge" and "scope_policy (ac_id client) (canonical_audience lib env) scopes ra"
  shows "server_ok (snd (accept_authorization lib env redirect state client challenge scopes ra s))"
proof (cases "secure_id (he_draw env)")
  case (Some i)
  have ok: "server_ok (prune_pending (he_clk env 2) s)" using assms(1) by (rule prune_pending_ok)
  then show ?thesis using assms(2,3)
    by (auto simp: accept_authorization_def Some Let_def server_ok_def gm_all_put pending_ok_def)
qed (use assms(1) in \<open>simp add: accept_authorization_def\<close>)

lemma authorize_start_ok: "server_ok s \<Longrightarrow> server_ok (snd (authorize_start lib env q s))"
proof -
  assume ok: "server_ok s"
  obtain a l where al: "rl_allow (os_authorize_limiter s) (client_ip lib q, he_clk env 0) = (a, l)" by fastforce
  let ?s = "s\<lparr>os_authorize_limiter := l\<rparr>" and ?query = "parse_query (hr_query q)"
  have s1: "server_ok ?s" using ok by simp
  show ?thesis
  proof (cases "resolve_oauth_client env (values_get ?query ''client_id'') ?s")
    case None
    then show ?thesis using s1 by (cases a) (simp_all add: authorize_start_def al Let_def)
  next
    case (Some client)
    note r = this
    show ?thesis
    proof (cases "a \<and> redirect_uri_matches (al_lower (xl_auth lib)) (ac_redirect_uris client) (values_get ?query ''redirect_uri'')")
      case False
      then show ?thesis using s1 by (cases a) (simp_all add: authorize_start_def al r Let_def)
    next
      case True
      note def = authorize_start_def al r True [THEN conjunct1] True [THEN conjunct2] Let_def
      show ?thesis
      proof (cases "check_authorization lib env ?query client")
        case (Inl e)
        then show ?thesis using s1 by (cases e) (simp add: def)
      next
        case (Inr x)
        obtain challenge scopes ra where x: "x = (challenge, scopes, ra)" by (cases x)
        show ?thesis using check_authorization_ok [OF Inr [unfolded x]] accept_authorization_ok [OF s1]
          by (simp add: def Inr x)
      qed
    qed
  qed
qed

text \<open>A pairing that succeeded closes the session.\<close>

lemma pm_verify_ok_session:
  assumes "pm_verify up sha input ip now m = (verdict, m')" and "pr_ok verdict"
  shows "pm_session m \<noteq> None \<and> pm_session m' = None"
proof -
  obtain m1 where a: "allow_ip ip now m = (True, m1)" "check_code sha (normalize_pairing_code up input) now m1 = (verdict, m')"
    using assms by (auto simp: pm_verify_def failed_def split: prod.splits bool.splits)
  have "pm_session m1 = pm_session m" using a(1) by (auto simp: allow_ip_def Let_def split: if_splits option.splits)
  with a(2) assms(2) show ?thesis
    by (auto simp: check_code_def failed_def close_session_def Let_def split: option.splits if_splits)
qed

lemma pm_verify_session:
  assumes "pm_verify up sha input ip now m = (verdict, m')" and "pm_session m = None"
  shows "pm_session m' = None"
proof -
  obtain b m1 where a: "allow_ip ip now m = (b, m1)" by fastforce
  then have "pm_session m1 = None" using assms(2) by (auto simp: allow_ip_def Let_def split: if_splits option.splits)
  with a assms(1) show ?thesis by (cases b) (auto simp: pm_verify_def check_code_def)
qed

text \<open>
  \<open>authorizeComplete\<close> creates a code only for a pending request and a pairing that succeeded, with
  the data of the pending request.
\<close>

definition approves :: "oauth_lib \<Rightarrow> http_env \<Rightarrow> http_request \<Rightarrow> time \<Rightarrow> oauth_server \<Rightarrow> pending_authorization \<Rightarrow> pairing_result \<Rightarrow> pairing_manager \<Rightarrow> bool" where
  "approves lib env q t s pending verdict m \<longleftrightarrow> pr_ok verdict
     \<and> (\<exists>post. hr_form q = Inr post \<and> gm_get (os_pending (prune_pending (he_clk env 0) s)) (form_get q post ''request_id'') = Some pending
       \<and> pm_verify (xl_upper lib) (hv (xl_auth lib)) (form_get q post ''pairing_code'') (client_ip lib q) t (os_pairing s) = (verdict, m))"

lemma prune_pending_simps [simp]:
  "os_pairing (prune_pending t s) = os_pairing s" "os_store (prune_pending t s) = os_store s"
  by (simp_all add: prune_pending_def)

lemma authorize_complete_cases:
  "(\<exists>m. snd (authorize_complete lib env q t s) \<in> {s, prune_pending (he_clk env 0) s, (prune_pending (he_clk env 0) s)\<lparr>os_pairing := m\<rparr>}
        \<and> (pm_session (os_pairing s) = None \<longrightarrow> pm_session m = None))
   \<or> (\<exists>pending verdict m i. approves lib env q t s pending verdict m
        \<and> authorize_complete lib env q t s = approve_authorization lib env i pending verdict ((prune_pending (he_clk env 0) s)\<lparr>os_pairing := m\<rparr>))"
proof (cases "hr_form q")
  case (Inl e)
  then show ?thesis by (auto simp: authorize_complete_def)
next
  case (Inr post)
  let ?s = "prune_pending (he_clk env 0) s" let ?id = "form_get q post ''request_id''"
  show ?thesis
  proof (cases "gm_get (os_pending ?s) ?id")
    case None
    then have "snd (authorize_complete lib env q t s) = ?s"
      by (cases "gm_get (os_completed ?s) ?id") (simp_all add: authorize_complete_def Inr Let_def)
    then show ?thesis by auto
  next
    case (Some pending)
    obtain verdict m where v: "pm_verify (xl_upper lib) (hv (xl_auth lib)) (form_get q post ''pairing_code'') (client_ip lib q) t (os_pairing s) = (verdict, m)"
      by fastforce
    show ?thesis
    proof (cases "pr_ok verdict")
      case False
      then have "snd (authorize_complete lib env q t s) = ?s\<lparr>os_pairing := m\<rparr>"
        by (simp add: authorize_complete_def Inr Some v Let_def)
      moreover have "pm_session (os_pairing s) = None \<longrightarrow> pm_session m = None" using pm_verify_session [OF v] by blast
      ultimately show ?thesis by (intro disjI1 exI [of _ m]) simp
    next
      case True
      then have "approves lib env q t s pending verdict m" using Inr Some v by (simp add: approves_def)
      moreover have "authorize_complete lib env q t s = approve_authorization lib env ?id pending verdict (?s\<lparr>os_pairing := m\<rparr>)"
        using True by (simp add: authorize_complete_def Inr Some v Let_def)
      ultimately show ?thesis by blast
    qed
  qed
qed

lemma approve_authorization_effect:
  "\<exists>p c. (p = os_pending s \<or> p = gm_del i (os_pending s))
     \<and> snd (approve_authorization lib env i pending verdict s) = s\<lparr>os_store := auth_step (xl_auth lib) (xl_fold lib) (os_store s)
          (CallCode (he_store_clk env) (he_draw env) (code_request_of pending verdict)), os_pending := p, os_completed := c\<rparr>"
proof -
  obtain res store where cc: "create_authorization_code (xl_auth lib) (he_store_clk env) (he_draw env)
      (code_request_of pending verdict) (os_store s) = (res, store)" by fastforce
  show ?thesis
  proof (cases "\<exists>code location. res = Inr code \<and> with_parameters (success_parameters env code (pa_state pending)) (pa_redirect_uri pending) = Some location")
    case True
    then obtain code location where w: "res = Inr code"
        "with_parameters (success_parameters env code (pa_state pending)) (pa_redirect_uri pending) = Some location" by blast
    have "snd (approve_authorization lib env i pending verdict s) = s\<lparr>os_store := store, os_pending := gm_del i (os_pending s),
        os_completed := gm_put i \<lparr>ca_location = location, ca_expires_at = he_clk env 1 + minute\<rparr> (os_completed s)\<rparr>"
      by (simp add: approve_authorization_def cc w Let_def)
    then show ?thesis
      by (intro exI [of _ "gm_del i (os_pending s)"]
          exI [of _ "gm_put i \<lparr>ca_location = location, ca_expires_at = he_clk env 1 + minute\<rparr> (os_completed s)"]) (simp add: cc)
  next
    case False
    then have "snd (approve_authorization lib env i pending verdict s) = s\<lparr>os_store := store\<rparr>"
      by (cases res) (auto simp: approve_authorization_def cc Let_def split: option.split)
    then show ?thesis by (intro exI [of _ "os_pending s"] exI [of _ "os_completed s"]) (simp add: cc)
  qed
qed

lemma authorize_complete_ok: "server_ok s \<Longrightarrow> server_ok (snd (authorize_complete lib env q t s))"
proof -
  assume ok: "server_ok s"
  let ?s = "prune_pending (he_clk env 0) s"
  have ok1: "server_ok ?s" using ok by (rule prune_pending_ok)
  from authorize_complete_cases [of lib env q t s] show ?thesis
  proof (elim disjE exE conjE)
    fix m assume "snd (authorize_complete lib env q t s) \<in> {s, ?s, ?s\<lparr>os_pairing := m\<rparr>}"
    then show ?thesis using ok ok1 by auto
  next
    fix pending verdict m i assume ap: "approves lib env q t s pending verdict m"
      and eq: "authorize_complete lib env q t s = approve_authorization lib env i pending verdict (?s\<lparr>os_pairing := m\<rparr>)"
    have p: "pending_ok pending" using ap ok1 by (auto simp: approves_def server_ok_def gm_all_def)
    let ?t = "?s\<lparr>os_pairing := m\<rparr>"
    obtain p c where pc: "p = os_pending ?t \<or> p = gm_del i (os_pending ?t)"
        "snd (approve_authorization lib env i pending verdict ?t) = ?t\<lparr>os_store := auth_step (xl_auth lib) (xl_fold lib) (os_store ?t)
          (CallCode (he_store_clk env) (he_draw env) (code_request_of pending verdict)), os_pending := p, os_completed := c\<rparr>"
      using approve_authorization_effect [of ?t i lib env pending verdict] by (elim exE conjE)
    have "server_ok (?s\<lparr>os_pairing := m\<rparr>\<lparr>os_store := auth_step (xl_auth lib) (xl_fold lib) (os_store (?s\<lparr>os_pairing := m\<rparr>))
          (CallCode (he_store_clk env) (he_draw env) (code_request_of pending verdict))\<rparr>)"
      by (rule store_call_ok [OF _ _ refl]) (use ok1 p in \<open>simp_all add: call_grants_def code_request_of_def pending_ok_def\<close>)
    moreover have "gm_ok p \<and> gm_all pending_ok p" using pc(1) ok1 by (auto simp: server_ok_def intro: gm_all_del)
    ultimately show ?thesis unfolding eq pc(2) using server_ok_pending by blast
  qed
qed

lemma jtis_ok: "authenticate_token_client lib env params client_id s = (a, s') \<Longrightarrow> \<exists>j. s' = s\<lparr>os_jtis := j\<rparr>"
proof -
  assume a: "authenticate_token_client lib env params client_id s = (a, s')"
  have s: "\<exists>j. s = s\<lparr>os_jtis := j\<rparr>" by (intro exI [of _ "os_jtis s"]) simp
  show ?thesis
    using a s unfolding authenticate_token_client_def Let_def
    by (auto split: if_splits option.splits prod.splits)
qed

lemma finish_grant_effect: "\<exists>j. snd (finish_grant env i jti what result s) = s\<lparr>os_store := snd result, os_jtis := j\<rparr>"
proof (cases "fst result")
  case (Inl e)
  then show ?thesis by (intro exI [of _ "os_jtis s"]) (simp add: finish_grant_def Let_def)
next
  case (Inr ts)
  show ?thesis
  proof (cases "jti = []")
    case True
    then show ?thesis by (intro exI [of _ "os_jtis s"]) (simp add: finish_grant_def Inr record_assertion_jti_def Let_def)
  next
    case False
    then show ?thesis
      by (intro exI [of _ "gm_put (jti_key i jti) (he_clk env 2 + 5 * minute) (os_jtis s)"])
         (simp add: finish_grant_def Inr record_assertion_jti_def Let_def)
  qed
qed

lemma grant_tokens_effect:
  "snd (grant_tokens lib env params client_id auth s) = s
    \<or> (\<exists>c j. (case c of CallCode _ _ _ \<Rightarrow> False | _ \<Rightarrow> True)
        \<and> snd (grant_tokens lib env params client_id auth s) = s\<lparr>os_store := auth_step (xl_auth lib) (xl_fold lib) (os_store s) c, os_jtis := j\<rparr>)"
proof -
  obtain client jti where auth: "auth = (client, jti)" by fastforce
  let ?x = "exchange_authorization_code (xl_auth lib) (he_store_clk env) (he_draws env) (he_write env) (values_get params ''code'')
         client_id (values_get params ''redirect_uri'') (values_get params ''code_verifier'') (values_get params ''resource'') (os_store s)"
  let ?r = "as_refresh (xl_auth lib) (he_store_clk env) (he_draws env) (he_write env) (values_get params ''refresh_token'')
         client_id (values_get params ''resource'') (os_store s)"
  let ?g = "grant_tokens lib env params client_id auth s"
  have "snd ?g = s \<or> (\<exists>what. ?g = finish_grant env (ac_id client) jti what ?x s) \<or> (\<exists>what. ?g = finish_grant env (ac_id client) jti what ?r s)"
    unfolding grant_tokens_def Let_def auth by simp blast
  then show ?thesis
  proof (elim disjE exE)
    fix what assume g: "?g = finish_grant env (ac_id client) jti what ?x s"
    obtain j where "snd ?g = s\<lparr>os_store := snd ?x, os_jtis := j\<rparr>" using finish_grant_effect unfolding g by blast
    moreover have "snd ?x = auth_step (xl_auth lib) (xl_fold lib) (os_store s) (CallExchange (he_store_clk env) (he_draws env) (he_write env)
       (values_get params ''code'') client_id (values_get params ''redirect_uri'') (values_get params ''code_verifier'') (values_get params ''resource''))"
      by simp
    ultimately show ?thesis
      by (intro disjI2 exI [of _ "CallExchange (he_store_clk env) (he_draws env) (he_write env)
       (values_get params ''code'') client_id (values_get params ''redirect_uri'') (values_get params ''code_verifier'') (values_get params ''resource'')"]
       exI [of _ j]) (simp only: auth_call.case)
  next
    fix what assume g: "?g = finish_grant env (ac_id client) jti what ?r s"
    obtain j where "snd ?g = s\<lparr>os_store := snd ?r, os_jtis := j\<rparr>" using finish_grant_effect unfolding g by blast
    moreover have "snd ?r = auth_step (xl_auth lib) (xl_fold lib) (os_store s) (CallRefresh (he_store_clk env) (he_draws env) (he_write env)
       (values_get params ''refresh_token'') client_id (values_get params ''resource''))"
      by simp
    ultimately show ?thesis
      by (intro disjI2 exI [of _ "CallRefresh (he_store_clk env) (he_draws env) (he_write env)
       (values_get params ''refresh_token'') client_id (values_get params ''resource'')"] exI [of _ j]) (simp only: auth_call.case)
  qed simp
qed

lemma oauth_token_effect:
  "\<exists>j. snd (oauth_token lib env q s) = s\<lparr>os_jtis := j\<rparr>
    \<or> (\<exists>c. (case c of CallCode _ _ _ \<Rightarrow> False | _ \<Rightarrow> True)
        \<and> snd (oauth_token lib env q s) = s\<lparr>os_store := auth_step (xl_auth lib) (xl_fold lib) (os_store s) c, os_jtis := j\<rparr>)"
proof -
  have same: "\<exists>j. s = s\<lparr>os_jtis := j\<rparr>" by (intro exI [of _ "os_jtis s"]) simp
  show ?thesis
  proof (cases "hr_method q = ''POST'' \<and> (\<exists>p. parse_oauth_parameters lib q = Inr p)")
    case False
    then have "snd (oauth_token lib env q s) = s"
      by (cases "parse_oauth_parameters lib q") (auto simp: oauth_token_def)
    then show ?thesis using same by metis
  next
    case True
    then obtain p0 where p: "hr_method q = ''POST''" "parse_oauth_parameters lib q = Inr p0" by blast
    obtain params client_id where t: "token_parameters env p0 = (params, client_id)" by fastforce
    obtain a s' where au: "authenticate_token_client lib env params client_id s = (a, s')" by fastforce
    obtain j where s': "s' = s\<lparr>os_jtis := j\<rparr>" using jtis_ok [OF au] by blast
    show ?thesis
    proof (cases a)
      case None
      then show ?thesis using s' by (intro exI [of _ j]) (simp add: oauth_token_def p t au)
    next
      case (Some auth)
      have g: "snd (oauth_token lib env q s) = snd (grant_tokens lib env params client_id auth s')"
        by (simp add: oauth_token_def p t au Some)
      from grant_tokens_effect [of lib env params client_id auth s'] show ?thesis
      proof (elim disjE exE conjE)
        fix c j' assume "case c of CallCode _ _ _ \<Rightarrow> False | _ \<Rightarrow> True"
          and "snd (grant_tokens lib env params client_id auth s')
            = s'\<lparr>os_store := auth_step (xl_auth lib) (xl_fold lib) (os_store s') c, os_jtis := j'\<rparr>"
        then show ?thesis unfolding g by (intro exI [of _ j'] disjI2 exI [of _ c]) (simp add: s')
      qed (auto simp: g s' intro: exI [of _ j])
    qed
  qed
qed

lemma oauth_revoke_effect:
  "snd (oauth_revoke lib env q s) = s
    \<or> (\<exists>t. snd (oauth_revoke lib env q s)
         = s\<lparr>os_store := auth_step (xl_auth lib) (xl_fold lib) (os_store s) (CallRevoke (he_store_clk env 0) (he_write env) t)\<rparr>)"
  by (cases "parse_oauth_parameters lib q") (auto simp: oauth_revoke_def)

lemma not_code_grants: "(case c of CallCode _ _ _ \<Rightarrow> False | _ \<Rightarrow> True) \<Longrightarrow> call_grants G c"
  by (cases c) (simp_all add: call_grants_def)

lemma oauth_step_ok: "server_ok s \<Longrightarrow> server_ok (oauth_step lib s c)"
proof (cases c)
  case (RegisterCall env q)
  moreover assume "server_ok s"
  ultimately show ?thesis by (simp add: register_client_ok)
next
  case (AuthorizeCall env q t)
  moreover assume "server_ok s"
  ultimately show ?thesis by (simp add: oauth_authorize_def authorize_start_ok authorize_complete_ok)
next
  case (TokenCall env q)
  assume ok: "server_ok s"
  from oauth_token_effect [of lib env q s] show ?thesis
  proof (elim exE disjE conjE)
    fix j c assume nc: "case c of CallCode _ _ _ \<Rightarrow> False | _ \<Rightarrow> True"
      and eq: "snd (oauth_token lib env q s) = s\<lparr>os_store := auth_step (xl_auth lib) (xl_fold lib) (os_store s) c, os_jtis := j\<rparr>"
    have "server_ok (s\<lparr>os_store := auth_step (xl_auth lib) (xl_fold lib) (os_store s) c\<rparr>)"
      by (rule store_call_ok [OF ok not_code_grants [OF nc] refl])
    then show ?thesis using TokenCall by (simp add: eq server_ok_def)
  qed (use ok TokenCall in simp)
next
  case (RevokeCall env q)
  assume ok: "server_ok s"
  from oauth_revoke_effect [of lib env q s] show ?thesis
  proof (elim exE disjE)
    fix t assume eq: "snd (oauth_revoke lib env q s)
         = s\<lparr>os_store := auth_step (xl_auth lib) (xl_fold lib) (os_store s) (CallRevoke (he_store_clk env 0) (he_write env) t)\<rparr>"
    have "server_ok (s\<lparr>os_store := auth_step (xl_auth lib) (xl_fold lib) (os_store s) (CallRevoke (he_store_clk env 0) (he_write env) t)\<rparr>)"
      by (rule store_call_ok [OF ok _ refl]) (simp add: call_grants_def)
    then show ?thesis using RevokeCall by (simp add: eq)
  qed (use ok RevokeCall in simp)
qed simp_all

interpretation oauth_machine: guarded_machine "oauth_step lib" "\<lambda>_ _. True" server_ok for lib
  by unfold_locales (rule oauth_step_ok)

section \<open>A code needs a pairing\<close>

text \<open>How many calls of a run satisfy a test of the state before them.\<close>

fun count_calls :: "('s \<Rightarrow> 'e \<Rightarrow> bool) \<Rightarrow> ('s \<Rightarrow> 'e \<Rightarrow> 's) \<Rightarrow> 's \<Rightarrow> 'e list \<Rightarrow> nat" where
  "count_calls P step s [] = 0"
| "count_calls P step s (e # es) = (if P s e then 1 else 0) + count_calls P step (step s e) es"

definition code_keys :: "oauth_server \<Rightarrow> string set" where
  "code_keys s = fst ` set (as_codes (os_store s))"

definition adds_code :: "oauth_lib \<Rightarrow> oauth_server \<Rightarrow> oauth_call \<Rightarrow> bool" where
  "adds_code lib s c \<longleftrightarrow> \<not> code_keys (oauth_step lib s c) \<subseteq> code_keys s"

definition creates_pairing :: "oauth_call \<Rightarrow> bool" where
  "creates_pairing c \<longleftrightarrow> (case c of PairingCreate (Some _) (Some _) _ \<Rightarrow> True | _ \<Rightarrow> False)"

definition open_sessions :: "oauth_server \<Rightarrow> nat" where
  "open_sessions s = (if pm_session (os_pairing s) = None then 0 else 1)"

lemma auth_step_keys:
  assumes "auth_good st" and "case c of CallCode _ _ _ \<Rightarrow> False | _ \<Rightarrow> True"
  shows "fst ` set (as_codes (auth_step lib sf st c)) \<subseteq> fst ` set (as_codes st)"
proof
  fix k assume "k \<in> fst ` set (as_codes (auth_step lib sf st c))"
  then obtain r where "gm_get (as_codes (auth_step lib sf st c)) k = Some r"
    by (metis domD dom_map_of_conv_image_fst)
  from auth_step_codes [OF assms(1) this] assms(2) have "gm_get (as_codes st) k = Some r" by auto
  then show "k \<in> fst ` set (as_codes st)" by (metis domI dom_map_of_conv_image_fst)
qed

lemma authorize_start_frame:
  "os_store (snd (authorize_start lib env q s)) = os_store s \<and> os_pairing (snd (authorize_start lib env q s)) = os_pairing s"
proof -
  obtain a l where al: "rl_allow (os_authorize_limiter s) (client_ip lib q, he_clk env 0) = (a, l)" by fastforce
  let ?s = "s\<lparr>os_authorize_limiter := l\<rparr>" and ?query = "parse_query (hr_query q)"
  have acc: "os_store (snd (accept_authorization lib env r st c ch sc ra s')) = os_store s'
      \<and> os_pairing (snd (accept_authorization lib env r st c ch sc ra s')) = os_pairing s'" for r st c ch sc ra s'
    by (cases "secure_id (he_draw env)") (simp_all add: accept_authorization_def Let_def)
  show ?thesis
  proof (cases "resolve_oauth_client env (values_get ?query ''client_id'') ?s")
    case None
    then show ?thesis by (cases a) (simp_all add: authorize_start_def al Let_def)
  next
    case (Some client)
    note r = this
    show ?thesis
    proof (cases "a \<and> redirect_uri_matches (al_lower (xl_auth lib)) (ac_redirect_uris client) (values_get ?query ''redirect_uri'')")
      case False
      then show ?thesis by (cases a) (simp_all add: authorize_start_def al r Let_def)
    next
      case True
      note def = authorize_start_def al r True [THEN conjunct1] True [THEN conjunct2] Let_def
      show ?thesis
      proof (cases "check_authorization lib env ?query client")
        case (Inl e)
        then show ?thesis by (cases e) (simp add: def)
      next
        case (Inr x)
        then show ?thesis using acc by (cases x) (simp add: def)
      qed
    qed
  qed
qed

lemma authorize_sessions:
  "(if code_keys (snd (authorize_complete lib env q t s)) \<subseteq> code_keys s then 0 else 1)
     + open_sessions (snd (authorize_complete lib env q t s)) \<le> open_sessions s"
proof -
  let ?s = "prune_pending (he_clk env 0) s"
  from authorize_complete_cases [of lib env q t s] show ?thesis
  proof (elim disjE exE conjE)
    fix m assume "snd (authorize_complete lib env q t s) \<in> {s, ?s, ?s\<lparr>os_pairing := m\<rparr>}"
      and "pm_session (os_pairing s) = None \<longrightarrow> pm_session m = None"
    then show ?thesis by (auto simp: code_keys_def open_sessions_def)
  next
    fix pending verdict m i assume ap: "approves lib env q t s pending verdict m"
      and eq: "authorize_complete lib env q t s = approve_authorization lib env i pending verdict (?s\<lparr>os_pairing := m\<rparr>)"
    have m: "pm_session (os_pairing s) \<noteq> None \<and> pm_session m = None"
      using ap pm_verify_ok_session by (auto simp: approves_def)
    have "os_pairing (snd (authorize_complete lib env q t s)) = m"
      using approve_authorization_effect [of "?s\<lparr>os_pairing := m\<rparr>" i lib env pending verdict] by (auto simp: eq)
    then show ?thesis using m by (simp add: open_sessions_def)
  qed
qed

lemma oauth_step_sessions:
  assumes "server_ok s"
  shows "(if adds_code lib s c then 1 else 0) + open_sessions (oauth_step lib s c)
    \<le> open_sessions s + (if creates_pairing c then 1 else 0)"
proof -
  have good: "auth_good (os_store s)" using assms by (simp add: server_ok_def)
  note defs = adds_code_def code_keys_def open_sessions_def
  show ?thesis
  proof (cases c)
    case (RegisterCall env q)
    obtain l where "snd (register_client lib env q s) \<in> {s, s\<lparr>os_register_limiter := l\<rparr>}
      \<or> (\<exists>m. snd (register_client lib env q s) = s\<lparr>os_register_limiter := l, os_store :=
           auth_step (xl_auth lib) (xl_fold lib) (os_store s) (CallRegister (he_store_clk env) (he_write env) (he_draw env) m)\<rparr>)"
      using register_client_cases by blast
    then show ?thesis
    proof (elim disjE exE)
      fix m assume eq: "snd (register_client lib env q s) = s\<lparr>os_register_limiter := l, os_store :=
           auth_step (xl_auth lib) (xl_fold lib) (os_store s) (CallRegister (he_store_clk env) (he_write env) (he_draw env) m)\<rparr>"
      have "fst ` set (as_codes (auth_step (xl_auth lib) (xl_fold lib) (os_store s) (CallRegister (he_store_clk env) (he_write env) (he_draw env) m)))
          \<subseteq> fst ` set (as_codes (os_store s))"
        by (rule auth_step_keys [OF good]) simp
      then show ?thesis using RegisterCall by (simp add: defs eq)
    qed (use RegisterCall in \<open>auto simp: defs\<close>)
  next
    case (AuthorizeCall env q t)
    show ?thesis
    proof (cases "hr_method q = ''POST''")
      case True
      then have "oauth_step lib s c = snd (authorize_complete lib env q t s)" using AuthorizeCall by (simp add: oauth_authorize_def)
      then show ?thesis using authorize_sessions [of lib env q t s] by (simp add: adds_code_def split: if_splits)
    next
      case False
      then have "oauth_step lib s c = s \<or> oauth_step lib s c = snd (authorize_start lib env q s)"
        using AuthorizeCall by (simp add: oauth_authorize_def)
      then show ?thesis using authorize_start_frame [of lib env q s] by (auto simp: defs)
    qed
  next
    case (TokenCall env q)
    from oauth_token_effect [of lib env q s] show ?thesis
    proof (elim exE disjE conjE)
      fix j c' assume nc: "case c' of CallCode _ _ _ \<Rightarrow> False | _ \<Rightarrow> True"
        and eq: "snd (oauth_token lib env q s) = s\<lparr>os_store := auth_step (xl_auth lib) (xl_fold lib) (os_store s) c', os_jtis := j\<rparr>"
      then show ?thesis using auth_step_keys [OF good nc, of "xl_auth lib" "xl_fold lib"] TokenCall by (simp add: defs eq)
    qed (use TokenCall in \<open>simp add: defs\<close>)
  next
    case (RevokeCall env q)
    from oauth_revoke_effect [of lib env q s] show ?thesis
    proof (elim exE disjE)
      fix t assume eq: "snd (oauth_revoke lib env q s)
           = s\<lparr>os_store := auth_step (xl_auth lib) (xl_fold lib) (os_store s) (CallRevoke (he_store_clk env 0) (he_write env) t)\<rparr>"
      have "fst ` set (as_codes (auth_step (xl_auth lib) (xl_fold lib) (os_store s) (CallRevoke (he_store_clk env 0) (he_write env) t)))
          \<subseteq> fst ` set (as_codes (os_store s))"
        by (rule auth_step_keys [OF good]) simp
      then show ?thesis using RevokeCall by (simp add: defs eq)
    qed (use RevokeCall in \<open>simp add: defs\<close>)
  next
    case (PairingCreate raw sid now)
    then show ?thesis by (auto simp: defs creates_pairing_def pm_create_def split: option.splits)
  next
    case (PairingInvalidate now)
    then show ?thesis by (simp add: defs pm_invalidate_def close_session_def)
  qed
qed

text \<open>
  C4: over any sequence of requests there are never more authorization codes issued than pairing
  codes created: every code costs one successful pairing.
\<close>

theorem codes_need_pairings:
  assumes "auth_good store" and "grants_ok scope_policy store"
  shows "count_calls (adds_code lib) (oauth_step lib) (new_oauth_server store (new_pairing_manager options) name limits) cs
    \<le> length (filter creates_pairing cs)"
proof -
  have "count_calls (adds_code lib) (oauth_step lib) s cs \<le> open_sessions s + length (filter creates_pairing cs)"
    if "server_ok s" for s
    using that
  proof (induction cs arbitrary: s)
    case (Cons c cs)
    from Cons.IH [OF oauth_step_ok [OF Cons.prems], of lib c] oauth_step_sessions [OF Cons.prems, of lib c]
    show ?case by (auto split: if_splits)
  qed simp
  moreover have "server_ok (new_oauth_server store (new_pairing_manager options) name limits)"
    using assms by (simp add: server_ok_def new_oauth_server_def gm_all_def Let_def)
  moreover have "open_sessions (new_oauth_server store (new_pairing_manager options) name limits) = 0"
    by (simp add: open_sessions_def new_oauth_server_def new_pairing_manager_def Let_def)
  ultimately show ?thesis by fastforce
qed

section \<open>Consent\<close>

text \<open>
  A person is asked for consent when an authorization request of a client is answered with the page that lists the
  scopes it asked for; and consents when the form of that page comes back with the right pairing code.
\<close>

definition asks :: "oauth_lib \<Rightarrow> oauth_server \<Rightarrow> oauth_call \<Rightarrow> pending_authorization \<Rightarrow> bool" where
  "asks lib s c p \<longleftrightarrow> (\<exists>env q t client. c = AuthorizeCall env q t \<and> hr_method q = ''GET''
     \<and> resolve_oauth_client env (values_get (parse_query (hr_query q)) ''client_id'') s = Some client \<and> pa_client_id p = ac_id client
     \<and> parse_scopes (values_get (parse_query (hr_query q)) ''scope'') = Inr (pa_scopes p)
     \<and> pa_refresh_allowed p = contains_string (ac_grant_types client) ''refresh_token'' \<and> pa_audience p = canonical_audience lib env
     \<and> fst (oauth_authorize lib env q t s) = Answer (html_page 200 \<lparr>pp_request_id = pa_id p, pp_workspace_name = os_workspace_name s,
         pp_scopes = pa_scopes p, pp_error = []\<rparr>))"

definition consents :: "oauth_lib \<Rightarrow> oauth_server \<Rightarrow> oauth_call \<Rightarrow> pending_authorization \<Rightarrow> bool" where
  "consents lib s c p \<longleftrightarrow> (\<exists>env q t post verdict m. c = AuthorizeCall env q t \<and> hr_method q = ''POST'' \<and> hr_form q = Inr post
     \<and> form_get q post ''request_id'' = pa_id p \<and> approves lib env q t s p verdict m)"

text \<open>Some call of a run satisfies a test of the state before it.\<close>

fun some_call :: "('s \<Rightarrow> 'e \<Rightarrow> bool) \<Rightarrow> ('s \<Rightarrow> 'e \<Rightarrow> 's) \<Rightarrow> 's \<Rightarrow> 'e list \<Rightarrow> bool" where
  "some_call P step s [] = False"
| "some_call P step s (e # es) = (P s e \<or> some_call P step (step s e) es)"

definition pending_from :: "(pending_authorization \<Rightarrow> bool) \<Rightarrow> oauth_server \<Rightarrow> bool" where
  "pending_from A s \<longleftrightarrow> (\<forall>k p. gm_get (os_pending s) k = Some p \<longrightarrow> pa_id p = k \<and> A p)"

lemma pending_from_prune: "server_ok s \<Longrightarrow> pending_from A s \<Longrightarrow> pending_from A (prune_pending t s)"
  by (auto simp: pending_from_def prune_pending_def server_ok_def gm_get_retain split: option.splits if_splits)

lemma pending_from_del: "pending_from A s \<Longrightarrow> p = os_pending s \<or> p = gm_del i (os_pending s) \<Longrightarrow> os_pending s' = p \<Longrightarrow> pending_from A s'"
  by (auto simp: pending_from_def gomap_simps split: if_splits)

lemma start_pending:
  assumes "server_ok s" and "pending_from A s" and "hr_method q = ''GET''" and "\<forall>p. asks lib s (AuthorizeCall env q t) p \<longrightarrow> A p"
  shows "pending_from A (snd (authorize_start lib env q s))"
proof -
  obtain a l where al: "rl_allow (os_authorize_limiter s) (client_ip lib q, he_clk env 0) = (a, l)" by fastforce
  let ?s = "s\<lparr>os_authorize_limiter := l\<rparr>" and ?query = "parse_query (hr_query q)"
  have s1: "pending_from A ?s" using assms(2) by (simp add: pending_from_def)
  have resolve: "resolve_oauth_client env i ?s = resolve_oauth_client env i s" for i by (simp add: resolve_oauth_client_def)
  show ?thesis
  proof (cases "resolve_oauth_client env (values_get ?query ''client_id'') ?s")
    case None
    then show ?thesis using s1 by (cases a) (simp_all add: authorize_start_def al Let_def)
  next
    case (Some client)
    note r = this
    show ?thesis
    proof (cases "a \<and> redirect_uri_matches (al_lower (xl_auth lib)) (ac_redirect_uris client) (values_get ?query ''redirect_uri'')")
      case False
      then show ?thesis using s1 by (cases a) (simp_all add: authorize_start_def al r Let_def)
    next
      case True
      note def = authorize_start_def al r True [THEN conjunct1] True [THEN conjunct2] Let_def
      show ?thesis
      proof (cases "check_authorization lib env ?query client")
        case (Inl e)
        then show ?thesis using s1 by (cases e) (simp add: def)
      next
        case (Inr x)
        obtain challenge scopes ra where x: "x = (challenge, scopes, ra)" by (cases x)
        let ?redirect = "values_get ?query ''redirect_uri''" and ?state = "values_get ?query ''state''"
        let ?s1 = "prune_pending (he_clk env 2) ?s"
        have start: "authorize_start lib env q s = accept_authorization lib env ?redirect ?state client challenge scopes ra ?s"
          by (simp add: def Inr x)
        have parsed: "parse_scopes (values_get ?query ''scope'') = Inr scopes" "ra = contains_string (ac_grant_types client) ''refresh_token''"
          using Inr x by (auto simp: check_authorization_def Let_def split: if_splits sum.splits)
        have s2: "pending_from A ?s1" by (rule pending_from_prune) (use assms(1) s1 in simp_all)
        show ?thesis
        proof (cases "secure_id (he_draw env)")
          case None
          then show ?thesis using s1 by (simp add: start accept_authorization_def)
        next
          case (Some i)
          let ?p = "\<lparr>pa_id = i, pa_client_id = ac_id client, pa_redirect_uri = ?redirect, pa_scopes = scopes, pa_state = ?state,
            pa_challenge = challenge, pa_audience = canonical_audience lib env, pa_refresh_allowed = ra, pa_expires_at = he_clk env 1 + 10 * minute\<rparr>"
          show ?thesis
          proof (cases "ol_max_pending (os_limits ?s1) \<le> int (length (os_pending ?s1))")
            case True
            then show ?thesis using s2 by (simp add: start accept_authorization_def Some Let_def)
          next
            case False
            then have page: "authorize_start lib env q s = (Answer (html_page 200 \<lparr>pp_request_id = i, pp_workspace_name = os_workspace_name s,
                pp_scopes = scopes, pp_error = []\<rparr>), ?s1\<lparr>os_pending := gm_put i ?p (os_pending ?s1)\<rparr>)"
              by (simp add: start accept_authorization_def Some Let_def) (simp add: prune_pending_def)
            have "asks lib s (AuthorizeCall env q t) ?p"
              using r parsed assms(3) by (simp add: asks_def oauth_authorize_def page resolve)
            then have "A ?p" using assms(4) by blast
            then show ?thesis using s2 by (simp add: page pending_from_def gomap_simps)
          qed
        qed
      qed
    qed
  qed
qed

text \<open>One call: what becomes pending was asked for, and what is granted was consented to.\<close>

lemma complete_consents:
  assumes "server_ok s" and "pending_from A s" and "grants_ok G (os_store s)" and "hr_method q = ''POST''"
    and "\<forall>p. consents lib s (AuthorizeCall env q t) p \<longrightarrow> A p \<longrightarrow> G (pa_client_id p) (pa_audience p) (pa_scopes p) (pa_refresh_allowed p)"
  shows "pending_from A (snd (authorize_complete lib env q t s)) \<and> grants_ok G (os_store (snd (authorize_complete lib env q t s)))"
proof -
  let ?s = "prune_pending (he_clk env 0) s"
  have pruned: "pending_from A ?s" using assms(1,2) by (rule pending_from_prune)
  from authorize_complete_cases [of lib env q t s] show ?thesis
  proof (elim disjE exE conjE)
    fix m assume "snd (authorize_complete lib env q t s) \<in> {s, ?s, ?s\<lparr>os_pairing := m\<rparr>}"
    then show ?thesis using assms(2,3) pruned by (auto simp: pending_from_def)
  next
    fix pending verdict m i assume ap: "approves lib env q t s pending verdict m"
      and eq: "authorize_complete lib env q t s = approve_authorization lib env i pending verdict (?s\<lparr>os_pairing := m\<rparr>)"
    let ?t = "?s\<lparr>os_pairing := m\<rparr>"
    obtain post where post: "hr_form q = Inr post" "gm_get (os_pending ?s) (form_get q post ''request_id'') = Some pending"
      using ap by (auto simp: approves_def)
    have own: "form_get q post ''request_id'' = pa_id pending" "A pending" using pruned post(2) by (auto simp: pending_from_def)
    then have "consents lib s (AuthorizeCall env q t) pending" using ap assms(4) post(1) by (auto simp: consents_def)
    then have G: "G (pa_client_id pending) (pa_audience pending) (pa_scopes pending) (pa_refresh_allowed pending)" using assms(5) own(2) by blast
    obtain p c where pc: "p = os_pending ?t \<or> p = gm_del i (os_pending ?t)"
        "snd (approve_authorization lib env i pending verdict ?t) = ?t\<lparr>os_store := auth_step (xl_auth lib) (xl_fold lib) (os_store ?t)
          (CallCode (he_store_clk env) (he_draw env) (code_request_of pending verdict)), os_pending := p, os_completed := c\<rparr>"
      using approve_authorization_effect [of ?t i lib env pending verdict] by (elim exE conjE)
    have "grants_ok G (auth_step (xl_auth lib) (xl_fold lib) (os_store s) (CallCode (he_store_clk env) (he_draw env) (code_request_of pending verdict)))"
      by (rule auth_step_grants) (use assms(1,3) G in \<open>simp_all add: server_ok_def call_grants_def code_request_of_def\<close>)
    moreover have "pending_from A ?t" using pruned by (simp add: pending_from_def)
    then have "pending_from A (snd (authorize_complete lib env q t s))"
      by (rule pending_from_del [OF _ pc(1)]) (simp add: eq pc(2))
    ultimately show ?thesis unfolding eq pc(2) by simp
  qed
qed

lemma oauth_step_consents:
  assumes "server_ok s" and "pending_from A s" and "grants_ok G (os_store s)" and "\<forall>p. asks lib s c p \<longrightarrow> A p"
    and "\<forall>p. consents lib s c p \<longrightarrow> A p \<longrightarrow> G (pa_client_id p) (pa_audience p) (pa_scopes p) (pa_refresh_allowed p)"
  shows "pending_from A (oauth_step lib s c) \<and> grants_ok G (os_store (oauth_step lib s c))"
proof -
  have store: "grants_ok G (auth_step al sf (os_store s) d)" if "case d of CallCode _ _ _ \<Rightarrow> False | _ \<Rightarrow> True" for al sf d
    by (rule auth_step_grants) (use assms(1,3) not_code_grants [OF that] in \<open>simp_all add: server_ok_def\<close>)
  show ?thesis
  proof (cases c)
    case (RegisterCall env q)
    have "grants_ok G (snd (register_client_metadata al sf a d e m (os_store s)))" for al sf a d e m
      using store [of "CallRegister a d e m" al sf] by simp
    then show ?thesis using register_client_cases [of lib env q s] assms(2,3) RegisterCall by (auto simp: pending_from_def)
  next
    case (AuthorizeCall env q t)
    consider "hr_method q = ''GET''" | "hr_method q = ''POST''" | "hr_method q \<noteq> ''GET''" "hr_method q \<noteq> ''POST''" by blast
    then show ?thesis
    proof cases
      case 1
      then show ?thesis using start_pending [OF assms(1,2) 1] assms(3,4) authorize_start_frame [of lib env q s] AuthorizeCall
        by (simp add: oauth_authorize_def)
    next
      case 2
      then show ?thesis using complete_consents [OF assms(1-3) 2] assms(5) AuthorizeCall by (simp add: oauth_authorize_def)
    qed (use assms(2,3) AuthorizeCall in \<open>simp add: oauth_authorize_def\<close>)
  next
    case (TokenCall env q)
    then show ?thesis using oauth_token_effect [of lib env q s] assms(2,3) store by (auto simp: pending_from_def)
  next
    case (RevokeCall env q)
    have "grants_ok G (snd (as_revoke al a d t (os_store s)))" for al a d t
      using store [of "CallRevoke a d t" al undefined] by simp
    then show ?thesis using oauth_revoke_effect [of lib env q s] assms(2,3) RevokeCall by (auto simp: pending_from_def)
  qed (use assms(2,3) in \<open>simp_all add: pending_from_def\<close>)
qed

lemma run_consents:
  "server_ok s \<Longrightarrow> pending_from A s \<Longrightarrow> grants_ok G (os_store s) \<Longrightarrow>
    (\<And>p. some_call (\<lambda>s c. asks lib s c p) (oauth_step lib) s cs \<Longrightarrow> A p) \<Longrightarrow>
    (\<And>p. some_call (\<lambda>s c. consents lib s c p) (oauth_step lib) s cs \<Longrightarrow> A p \<Longrightarrow> G (pa_client_id p) (pa_audience p) (pa_scopes p) (pa_refresh_allowed p)) \<Longrightarrow>
    server_ok (run_calls (oauth_step lib) s cs) \<and> grants_ok G (os_store (run_calls (oauth_step lib) s cs))"
proof (induction cs arbitrary: s)
  case (Cons c cs)
  have "pending_from A (oauth_step lib s c) \<and> grants_ok G (os_store (oauth_step lib s c))"
    by (rule oauth_step_consents) (use Cons.prems in auto)
  then show ?case using Cons.IH [of "oauth_step lib s c"] Cons.prems oauth_step_ok [of s lib c] by simp
qed simp

text \<open>What the tokens and codes of a store already grant.\<close>

definition held_grant :: "auth_store \<Rightarrow> grant_policy" where
  "held_grant st client_id audience scopes ra \<longleftrightarrow>
     (\<exists>k r. gm_get (as_codes st) k = Some r \<and> co_client_id r = client_id \<and> co_audience r = audience \<and> co_scopes r = scopes \<and> co_refresh_allowed r = ra)
   \<or> (\<exists>k r. gm_get (as_tokens st) k = Some r \<and> tk_client_id r = client_id \<and> tk_audience r = audience \<and> tk_scopes r = scopes \<and> tk_refresh_allowed r = ra)"

lemma held_grants:
  assumes "grants_ok H st"
  shows "grants_ok (held_grant st) st"
proof -
  have "held_grant st (co_client_id r) (co_audience r) (co_scopes r) (co_refresh_allowed r)" if "gm_get (as_codes st) k = Some r" for k r
    unfolding held_grant_def using that by blast
  moreover have "held_grant st (tk_client_id r) (tk_audience r) (tk_scopes r) (tk_refresh_allowed r)" if "gm_get (as_tokens st) k = Some r" for k r
    unfolding held_grant_def using that by blast
  ultimately show ?thesis using assms by (simp add: grants_ok_def code_ok_def token_ok_def)
qed

lemma grants_ok_mono: "grants_ok H st \<Longrightarrow> (\<And>c a sc r. H c a sc r \<Longrightarrow> G c a sc r) \<Longrightarrow> grants_ok G st"
  by (auto simp: grants_ok_def code_ok_def token_ok_def)

text \<open>
  C3: Whatever requests the server handles, in whatever order and with whatever failures: a bearer token that it
  accepts names a client, an audience and scopes that the store granted from the start, or else exactly those of an
  authorization request for which, during the run, the server showed the page that lists these scopes, as that
  client had asked for them, and for which the form of this page came back with the right pairing code.  The scopes
  are supported ones, offline access is among them only for a client that may refresh, and the token is one of this
  workspace.  (The tokens that the store starts with have to be within that policy.)
\<close>

theorem bearer_scopes_were_consented:
  assumes "auth_good store" and "grants_ok scope_policy store"
    and "bearer_check lib env q (os_store (run_calls (oauth_step lib) (new_oauth_server store pairing name limits) cs)) = Inr p"
  shows "set (pr_scopes p) \<subseteq> set supported_scopes
    \<and> pr_workspace_id p = as_workspace_id (os_store (run_calls (oauth_step lib) (new_oauth_server store pairing name limits) cs))
    \<and> (\<exists>ra. (contains_scope (pr_scopes p) ''offline_access'' \<longrightarrow> ra)
        \<and> (held_grant store (pr_client_id p) (pr_audience p) (pr_scopes p) ra
         \<or> (\<exists>a. some_call (\<lambda>s c. asks lib s c a) (oauth_step lib) (new_oauth_server store pairing name limits) cs
              \<and> some_call (\<lambda>s c. consents lib s c a) (oauth_step lib) (new_oauth_server store pairing name limits) cs
              \<and> pa_client_id a = pr_client_id p \<and> pa_audience a = pr_audience p \<and> pa_scopes a = pr_scopes p \<and> pa_refresh_allowed a = ra)))"
proof -
  let ?new = "new_oauth_server store pairing name limits"
  let ?s = "run_calls (oauth_step lib) ?new cs"
  define A where "A a \<longleftrightarrow> some_call (\<lambda>s c. asks lib s c a) (oauth_step lib) ?new cs" for a
  define G where "G c au sc ra \<longleftrightarrow> held_grant store c au sc ra
     \<or> (\<exists>a. A a \<and> some_call (\<lambda>s c. consents lib s c a) (oauth_step lib) ?new cs
          \<and> pa_client_id a = c \<and> pa_audience a = au \<and> pa_scopes a = sc \<and> pa_refresh_allowed a = ra)" for c au sc ra
  have new: "server_ok ?new" "pending_from A ?new" "os_store ?new = store"
    using assms(1,2) by (simp_all add: server_ok_def new_oauth_server_def gm_all_def Let_def pending_from_def)
  have "grants_ok G store" using held_grants [OF assms(2)] by (rule grants_ok_mono) (simp add: G_def)
  then have run: "server_ok ?s" "grants_ok G (os_store ?s)"
    using run_consents [where s = ?new and A = A and G = G and lib = lib and cs = cs] new by (auto simp: A_def G_def)
  obtain token aud where "verify_access (xl_auth lib) (he_store_clk env 0) token aud (os_store ?s) = Inr p"
    using assms(3) by (auto simp: bearer_check_def Let_def split: if_splits sum.splits)
  then obtain r where r: "gm_get (as_tokens (os_store ?s)) (hv (xl_auth lib) token) = Some r" "pr_scopes p = tk_scopes r"
      "pr_client_id p = tk_client_id r" "pr_audience p = tk_audience r"
      "pr_workspace_id p = tk_workspace_id r" "tk_workspace_id r = as_workspace_id (os_store ?s)"
    by (auto simp: verify_access_def split: option.splits if_splits)
  then have "scope_policy (tk_client_id r) (tk_audience r) (tk_scopes r) (tk_refresh_allowed r)"
      "G (tk_client_id r) (tk_audience r) (tk_scopes r) (tk_refresh_allowed r)"
    using run by (auto simp: server_ok_def grants_ok_def token_ok_def)
  then have facts: "set (pr_scopes p) \<subseteq> set supported_scopes" "contains_scope (pr_scopes p) ''offline_access'' \<longrightarrow> tk_refresh_allowed r"
      "G (pr_client_id p) (pr_audience p) (pr_scopes p) (tk_refresh_allowed r)"
    by (simp_all add: r(2-4) scope_policy_def)
  show ?thesis
    by (intro conjI exI [of _ "tk_refresh_allowed r"]) (use facts r(5,6) in \<open>simp_all add: G_def A_def\<close>)
qed

section \<open>Where errors are sent\<close>

lemma values_get_set: "values_get (values_set k v vs) x = (if x = k then v else values_get vs x)"
  by (simp add: values_get_def values_set_def gomap_simps)

text \<open>
  an authorization request is answered by a redirect only to a redirect URI that matches one of
  the client's registered URIs, unchanged except for its query; the query names this server as the
  issuer and returns the state of the request.
\<close>

theorem errors_redirect_to_registered_uri:
  assumes "fst (authorize_start lib env q s) = Answer r" and "hs_status r = 302"
  shows "\<exists>client u ps. resolve_oauth_client env (values_get (parse_query (hr_query q)) ''client_id'') s = Some client
    \<and> redirect_uri_matches (al_lower (xl_auth lib)) (ac_redirect_uris client) (values_get (parse_query (hr_query q)) ''redirect_uri'')
    \<and> url_parse (values_get (parse_query (hr_query q)) ''redirect_uri'') = Some u
    \<and> hs_headers r = [(''Location'', url_string (u\<lparr>u_raw_query := encode_values ps\<rparr>))]
    \<and> values_get ps ''iss'' = trimmed_base env
    \<and> (values_get (parse_query (hr_query q)) ''state'' \<noteq> [] \<longrightarrow> values_get ps ''state'' = values_get (parse_query (hr_query q)) ''state'')"
proof -
  obtain a l where al: "rl_allow (os_authorize_limiter s) (client_ip lib q, he_clk env 0) = (a, l)" by fastforce
  let ?s = "s\<lparr>os_authorize_limiter := l\<rparr>" and ?query = "parse_query (hr_query q)"
  let ?redirect = "values_get ?query ''redirect_uri''" and ?state = "values_get ?query ''state''"
  have resolve: "resolve_oauth_client env i ?s = resolve_oauth_client env i s" for i
    by (simp add: resolve_oauth_client_def)
  have fail: "\<exists>u ps. url_parse ?redirect = Some u \<and> hs_headers r = [(''Location'', url_string (u\<lparr>u_raw_query := encode_values ps\<rparr>))]
      \<and> values_get ps ''iss'' = trimmed_base env \<and> (?state \<noteq> [] \<longrightarrow> values_get ps ''state'' = ?state)"
    if f: "fail_redirect env ?redirect ?state code description = Answer r" for code description
  proof -
    obtain u where u: "url_parse ?redirect = Some u"
        "hs_headers r = [(''Location'', url_string (u\<lparr>u_raw_query := encode_values
          (foldl (\<lambda>vs (k, v). values_set k v vs) (parse_query (u_raw_query u)) (failure_parameters env code description ?state))\<rparr>))]"
      using f by (auto simp: fail_redirect_def with_parameters_def split: option.splits)
    show ?thesis
      by (rule exI [of _ u], rule exI [of _ "foldl (\<lambda>vs (k, v). values_set k v vs) (parse_query (u_raw_query u)) (failure_parameters env code description ?state)"])
         (use u in \<open>simp add: failure_parameters_def values_get_set\<close>)
  qed
  show ?thesis
  proof (cases "resolve_oauth_client env (values_get ?query ''client_id'') ?s")
    case None
    then show ?thesis using assms by (cases a) (auto simp: authorize_start_def al Let_def http_error_def)
  next
    case (Some client)
    note r = this
    show ?thesis
    proof (cases "a \<and> redirect_uri_matches (al_lower (xl_auth lib)) (ac_redirect_uris client) ?redirect")
      case False
      then show ?thesis using assms by (cases a) (auto simp: authorize_start_def al r Let_def http_error_def)
    next
      case True
      note def = authorize_start_def al r True [THEN conjunct1] True [THEN conjunct2] Let_def
      have "\<exists>code description. fail_redirect env ?redirect ?state code description = Answer r"
      proof (cases "check_authorization lib env ?query client")
        case (Inl e)
        then show ?thesis using assms(1) by (cases e) (auto simp: def)
      next
        case (Inr x)
        obtain challenge scopes ra where x: "x = (challenge, scopes, ra)" by (cases x)
        then have acc: "fst (accept_authorization lib env ?redirect ?state client challenge scopes ra ?s) = Answer r"
          using assms(1) by (simp add: def Inr)
        then show ?thesis using assms(2)
          by (cases "secure_id (he_draw env)")
             (auto simp: accept_authorization_def http_error_def html_page_def Let_def split: if_splits)
      qed
      then show ?thesis using fail Some True resolve by metis
    qed
  qed
qed

section \<open>A form that is submitted twice\<close>

text \<open>
  submitting the approved form once more within a minute shows the same redirect and neither
  creates a second code nor touches the pairing.
\<close>

theorem resubmitted_form_repeats_redirect:
  assumes "authorize_complete lib env q t s = (Answer r, s1)" and "hr_form q = Inr post"
    and "gm_get (os_pending (prune_pending (he_clk env 0) s)) (form_get q post ''request_id'') = Some pending"
    and "hs_status r = 200" and "he_clk env' 0 < he_clk env 1 + minute" and "server_ok s" and "gm_ok (os_completed s)"
  shows "fst (authorize_complete lib env' q t' s1) = Answer r
    \<and> os_store (snd (authorize_complete lib env' q t' s1)) = os_store s1
    \<and> os_pairing (snd (authorize_complete lib env' q t' s1)) = os_pairing s1"
proof -
  let ?id = "form_get q post ''request_id''" and ?s = "prune_pending (he_clk env 0) s"
  obtain verdict m where v: "pm_verify (xl_upper lib) (hv (xl_auth lib)) (form_get q post ''pairing_code'') (client_ip lib q) t (os_pairing s) = (verdict, m)"
    by fastforce
  have ok: "pr_ok verdict" using assms(1,4) by (auto simp: authorize_complete_def assms(2,3) v html_page_def Let_def split: if_splits)
  then have ap: "approve_authorization lib env ?id pending verdict (?s\<lparr>os_pairing := m\<rparr>) = (Answer r, s1)"
    using assms(1) by (simp add: authorize_complete_def assms(2,3) v Let_def)
  obtain res store where cc: "create_authorization_code (xl_auth lib) (he_store_clk env) (he_draw env)
      (code_request_of pending verdict) (os_store s) = (res, store)" by fastforce
  obtain code location where w: "res = Inr code"
      "with_parameters (success_parameters env code (pa_state pending)) (pa_redirect_uri pending) = Some location"
    using ap assms(4) by (cases res) (auto simp: approve_authorization_def cc http_error_def Let_def split: option.splits)
  have r: "r = write_authorization_redirect location"
    and s1: "s1 = ?s\<lparr>os_pairing := m, os_store := store, os_pending := gm_del ?id (os_pending ?s),
        os_completed := gm_put ?id \<lparr>ca_location = location, ca_expires_at = he_clk env 1 + minute\<rparr> (os_completed ?s)\<rparr>"
    using ap by (simp_all add: approve_authorization_def cc w Let_def)
  let ?s2 = "prune_pending (he_clk env' 0) s1"
  have okp: "gm_ok (os_pending ?s)" "gm_ok (os_completed ?s)"
    using prune_pending_ok [OF assms(6)] assms(7) by (simp_all add: server_ok_def) (simp add: prune_pending_def)
  then have "gm_get (os_pending ?s2) ?id = None"
    by (simp add: s1 prune_pending_def gomap_simps)
  moreover have "gm_get (os_completed ?s2) ?id = Some \<lparr>ca_location = location, ca_expires_at = he_clk env 1 + minute\<rparr>"
    using okp assms(5) by (simp add: s1 prune_pending_def gomap_simps completed_dead_def)
  ultimately show ?thesis by (simp add: authorize_complete_def assms(2) r Let_def)
qed

section \<open>Assertions\<close>

text \<open>
  authenticating a client by an assertion does not reserve the assertion: until one of the token
  requests succeeds, any number of requests that present the same assertion are authenticated, since
  the identifier is looked up and recorded in two separate critical sections.
\<close>

theorem assertion_is_not_reserved:
  assumes "authenticate_token_client lib env params client_id s = (Some (client, jti), s')"
  shows "fst (authenticate_token_client lib env params client_id s') = Some (client, jti)"
proof -
  obtain j where j: "s' = s\<lparr>os_jtis := j\<rparr>" using jtis_ok [OF assms] by blast
  have res: "resolve_oauth_client env client_id s' = resolve_oauth_client env client_id s"
    by (simp add: j resolve_oauth_client_def)
  have twice: "prune_jtis t (prune_jtis t m) = prune_jtis t m" for t m
    by (simp add: prune_jtis_def gm_retain_def)
  obtain c where c: "client_id \<noteq> []" "resolve_oauth_client env client_id s = Some c"
    using assms by (auto simp: authenticate_token_client_def split: if_splits option.splits)
  show ?thesis
  proof (cases "ac_auth_method c = [] \<or> ac_auth_method c = ''none''")
    case True
    then show ?thesis using assms c res by (auto simp: authenticate_token_client_def split: if_splits)
  next
    case False
    then show ?thesis using assms c res twice
      by (auto simp: authenticate_token_client_def Let_def split: if_splits option.splits prod.splits)
  qed
qed

section \<open>Examples\<close>

definition example_oauth_lib :: oauth_lib where
  "example_oauth_lib = \<lparr>xl_auth = example_lib, xl_fold = id, xl_upper = id, xl_parse_ip = (\<lambda>_. None), xl_parse_unix = (\<lambda>_. 0),
     xl_scope_text = id\<rparr>"

definition example_env :: http_env where
  "example_env = \<lparr>he_clk = int, he_store_clk = int, he_base = ''https://h'', he_resolve = (\<lambda>_. None),
     he_verify = Some (\<lambda>_ _ _ _. Some (''j'', 9)), he_issuer = (\<lambda>_. []), he_draw = Some ''a'', he_draws = example_draws, he_write = None\<rparr>"

definition example_http :: http_request where
  "example_http = \<lparr>hr_method = ''GET'', hr_query = ''client_id=c&redirect_uri=https://h/cb'', hr_remote_addr = [], hr_cf_ip = [],
     hr_content_type = [], hr_authorization = ''Bearer t'', hr_form = Inr [(''request_id'', [''i'']), (''pairing_code'', [''p''])],
     hr_json = Inr [], hr_registration = NotObject\<rparr>"

definition example_client :: auth_client where
  "example_client = \<lparr>ac_id = ''c'', ac_name = ''C'', ac_redirect_uris = [''https://h/cb''], ac_auth_method = ''private_key_jwt'',
     ac_grant_types = [''authorization_code''], ac_response_types = [''code''], ac_application_type = [], ac_jwks_uri = [],
     ac_signing_alg = ''RS256'', ac_created_at = []\<rparr>"

definition example_access :: token_record where
  "example_access = \<lparr>tk_hash = hv example_lib ''t'', tk_kind = ''access'', tk_client_id = ''c'', tk_workspace_id = ''w'',
     tk_audience = ''https://h/mcp'', tk_scopes = [''git.read''], tk_family_id = ''f'', tk_refresh_allowed = False,
     tk_issued_at = 0, tk_expires_at = 50\<rparr>"

definition client_store :: auth_store where
  "client_store = example_store\<lparr>as_clients := [(''c'', example_client)], as_tokens := [(hv example_lib ''t'', example_access)]\<rparr>"

lemma client_store_good: "auth_good client_store" "grants_ok scope_policy client_store"
proof -
  have "as_inv client_store"
    by (simp add: as_inv_def as_keyed_def as_within_def client_store_def example_store_def example_options_def apply_store_defaults_def
      default_int_def keyed_by_def gm_ok_def gm_all_def example_access_def example_client_def upgrade_token_def)
  then show "auth_good client_store" using example_store_good by (simp add: auth_good_def client_store_def)
  show "grants_ok scope_policy client_store"
    by (simp add: grants_ok_def client_store_def example_caps token_ok_def scope_policy_def example_access_def
        supported_scopes_def contains_scope_def)
qed

lemmas example_defs = example_oauth_lib_def example_env_def example_http_def example_lib_def

lemma example_resource: "canonical_resource id ''https://h/mcp'' = Some ''https://h/mcp''"
  by (simp add: canonical_resource_def url_eval)

lemma example_bearer:
  "bearer_check example_oauth_lib example_env example_http client_store
    = Inr \<lparr>pr_token = ''t'', pr_client_id = ''c'', pr_workspace_id = ''w'', pr_audience = ''https://h/mcp'',
        pr_scopes = [''git.read''], pr_expires_at = 50000000\<rparr>"
  by (simp add: bearer_check_def trimmed_base_def trim_right_chars_def example_defs example_resource equal_fold_def url_eval
      verify_access_def client_store_def same_resource_def example_access_def unix_milli_def example_caps Let_def)

definition example_pairing_options :: pairing_options where
  "example_pairing_options = \<lparr>po_ttl = 0, po_max_attempts = 0, po_ip_limit = 0, po_ip_window = 0, po_max_tracked_ips = 0\<rparr>"

theorem bearer_scopes_were_consented_witness:
  "\<exists>p. bearer_check example_oauth_lib example_env example_http (os_store (run_calls (oauth_step example_oauth_lib)
      (new_oauth_server client_store (new_pairing_manager example_pairing_options) ''n'' None) [PairingInvalidate 5])) = Inr p
    \<and> pr_scopes p = [''git.read''] \<and> set (pr_scopes p) \<subseteq> set supported_scopes
    \<and> (\<exists>ra. held_grant client_store ''c'' ''https://h/mcp'' [''git.read''] ra)"
proof -
  have "bearer_check example_oauth_lib example_env example_http (os_store (run_calls (oauth_step example_oauth_lib)
      (new_oauth_server client_store (new_pairing_manager example_pairing_options) ''n'' None) [PairingInvalidate 5]))
    = Inr \<lparr>pr_token = ''t'', pr_client_id = ''c'', pr_workspace_id = ''w'', pr_audience = ''https://h/mcp'',
        pr_scopes = [''git.read''], pr_expires_at = 50000000\<rparr>"
    using example_bearer by (simp add: new_oauth_server_def Let_def)
  note accepted = this and facts = bearer_scopes_were_consented [OF client_store_good this]
  have "\<not> some_call (\<lambda>s c. consents example_oauth_lib s c a) (oauth_step example_oauth_lib) s [PairingInvalidate 5]" for a s
    by (simp add: consents_def)
  then have "\<exists>ra. held_grant client_store ''c'' ''https://h/mcp'' [''git.read''] ra" using facts by auto
  then show ?thesis using accepted facts by simp
qed

theorem codes_need_pairings_witness:
  "count_calls (adds_code example_oauth_lib) (oauth_step example_oauth_lib)
     (new_oauth_server client_store (new_pairing_manager example_pairing_options) ''n'' None)
     [PairingCreate (Some ''AAAAAAAA'') (Some ''i'') 0, AuthorizeCall example_env example_http 1,
      AuthorizeCall example_env (example_http\<lparr>hr_method := ''POST''\<rparr>) 2,
      AuthorizeCall example_env (example_http\<lparr>hr_method := ''POST''\<rparr>) 3] \<le> 1"
  using codes_need_pairings [OF client_store_good, of example_oauth_lib example_pairing_options "''n''" None
     "[PairingCreate (Some ''AAAAAAAA'') (Some ''i'') 0, AuthorizeCall example_env example_http 1,
      AuthorizeCall example_env (example_http\<lparr>hr_method := ''POST''\<rparr>) 2,
      AuthorizeCall example_env (example_http\<lparr>hr_method := ''POST''\<rparr>) 3]"]
  by (simp only: filter.simps creates_pairing_def oauth_call.case option.case if_True if_False list.size)

abbreviation example_server :: oauth_server where
  "example_server \<equiv> new_oauth_server client_store (new_pairing_manager example_pairing_options) ''n'' None"

lemma example_query: "parse_query (hr_query example_http) = [(''client_id'', [''c'']), (''redirect_uri'', [''https://h/cb''])]"
  by (simp add: example_http_def parse_query_def query_pair_def cut_def values_add_def)

lemma example_limiter: "fst (rl_allow (os_authorize_limiter example_server) (ip, 0))"
  by (simp add: new_oauth_server_def rl_allow_def new_request_limiter_def prune_buckets_def gm_retain_def
      normalize_oauth_limits_def default_oauth_limits_def positive_or_def refresh_global_def bucket_over_def Let_def)

lemma example_start:
  "\<exists>r. fst (authorize_start example_oauth_lib example_env example_http example_server) = Answer r \<and> hs_status r = 302"
proof -
  obtain l where l: "rl_allow (os_authorize_limiter example_server) (client_ip example_oauth_lib example_http, he_clk example_env 0) = (True, l)"
    using example_limiter [of "client_ip example_oauth_lib example_http"]
    by (cases "rl_allow (os_authorize_limiter example_server) (client_ip example_oauth_lib example_http, 0)") (simp add: example_env_def)
  have c: "find_client ''c'' client_store = Some example_client" by (simp add: find_client_def client_store_def)
  have r: "resolve_oauth_client example_env ''c'' (example_server\<lparr>os_authorize_limiter := l\<rparr>) = Some example_client"
    by (simp add: resolve_oauth_client_def new_oauth_server_def Let_def c)
  have m: "redirect_uri_matches low (ac_redirect_uris example_client) ''https://h/cb''" for low
    by (simp add: redirect_uri_matches_def example_client_def)
  obtain u where u: "url_parse ''https://h/cb'' = Some u" by (simp add: url_eval)
  show ?thesis
    by (simp add: authorize_start_def l example_query values_get_def r m check_authorization_def fail_redirect_def with_parameters_def u Let_def)
qed

theorem errors_redirect_to_registered_uri_witness:
  "\<exists>ps u r. url_parse ''https://h/cb'' = Some u
     \<and> fst (authorize_start example_oauth_lib example_env example_http example_server) = Answer r
     \<and> hs_headers r = [(''Location'', url_string (u\<lparr>u_raw_query := encode_values ps\<rparr>))]"
proof -
  obtain r where r: "fst (authorize_start example_oauth_lib example_env example_http example_server) = Answer r" "hs_status r = 302"
    using example_start by blast
  from errors_redirect_to_registered_uri [OF r] r(1) show ?thesis
    by (auto simp: example_query values_get_def)
qed

text \<open>A pending request and a pairing session whose code is submitted.\<close>

definition example_pending :: pending_authorization where
  "example_pending = \<lparr>pa_id = ''i'', pa_client_id = ''c'', pa_redirect_uri = ''https://h/cb'', pa_scopes = [''git.read''],
     pa_state = [], pa_challenge = b64_encode (replicate 32 CHR ''a''), pa_audience = ''https://h/mcp'',
     pa_refresh_allowed = False, pa_expires_at = 100\<rparr>"

definition example_session :: pairing_session where
  "example_session = \<lparr>ps_id = ''s'', ps_hash = hv example_lib (normalize_pairing_code id ''p''), ps_created_at = 0,
     ps_expires_at = 100, ps_attempts_left = 5\<rparr>"

definition pending_server :: oauth_server where
  "pending_server = example_server\<lparr>os_pending := [(''i'', example_pending)],
     os_pairing := (new_pairing_manager example_pairing_options)\<lparr>pm_session := Some example_session\<rparr>\<rparr>"

lemma example_pending_ok: "pending_ok example_pending"
proof -
  have "valid_challenge (pa_challenge example_pending)"
    using b64_encode_length [of "replicate 32 CHR ''a''"]
    by (simp add: valid_challenge_def example_pending_def b64_encode_decodes)
  then show ?thesis by (simp add: pending_ok_def scope_policy_def example_pending_def supported_scopes_def contains_scope_def)
qed

lemma pending_server_ok: "server_ok pending_server" "gm_ok (os_completed pending_server)"
  using client_store_good example_pending_ok
  by (simp_all add: server_ok_def pending_server_def new_oauth_server_def gm_all_def gm_ok_def Let_def)

lemma example_verify:
  "\<exists>m. pm_verify id (hv example_lib) ''p'' ip 7 (os_pairing pending_server) = (paired ''s'', m)"
  by (simp add: pm_verify_def allow_ip_def prune_ips_def gm_retain_def pending_server_def new_pairing_manager_def example_pairing_options_def
      check_code_def example_session_def Let_def)

lemma example_complete:
  "\<exists>r s1. authorize_complete example_oauth_lib example_env example_http 7 pending_server = (Answer r, s1) \<and> hs_status r = 200"
proof -
  have get: "gm_get (os_pending (prune_pending (he_clk example_env 0) pending_server)) ''i'' = Some example_pending"
    by (simp add: prune_pending_def pending_server_def gm_retain_def pending_dead_def example_pending_def example_env_def)
  obtain m where v: "pm_verify id (hv example_lib) ''p'' (client_ip example_oauth_lib example_http) 7 (os_pairing pending_server) = (paired ''s'', m)"
    using example_verify by blast
  obtain code st where cc: "create_authorization_code example_lib int (Some ''a'') (code_request_of example_pending (paired ''s'')) client_store = (Inr code, st)"
    by (simp add: create_authorization_code_def client_store_def store_eval example_store_def example_options_def apply_store_defaults_def default_int_def)
  obtain u where u: "url_parse ''https://h/cb'' = Some u" by (simp add: url_eval)
  have st: "os_store pending_server = client_store" by (simp add: pending_server_def new_oauth_server_def Let_def)
  have f: "form_get example_http [(''request_id'', [''i'']), (''pairing_code'', [''p''])] ''request_id'' = ''i''"
    "form_get example_http [(''request_id'', [''i'']), (''pairing_code'', [''p''])] ''pairing_code'' = ''p''"
    by (simp_all add: form_get_def)
  have h: "hr_form example_http = Inr [(''request_id'', [''i'']), (''pairing_code'', [''p''])]" by (simp add: example_http_def)
  have x: "xl_upper example_oauth_lib = id" "xl_auth example_oauth_lib = example_lib" "he_store_clk example_env = int" "he_draw example_env = Some ''a''"
    by (simp_all add: example_oauth_lib_def example_env_def)
  have p: "pa_redirect_uri example_pending = ''https://h/cb''" by (simp add: example_pending_def)
  have ok: "pr_ok (paired ''s'')" by (simp add: paired_def)
  show ?thesis
    by (simp add: authorize_complete_def h f get v x ok approve_authorization_def cc st with_parameters_def
        p u write_authorization_redirect_def Let_def)
qed

theorem resubmitted_form_repeats_redirect_witness:
  "\<exists>r s1. fst (authorize_complete example_oauth_lib example_env example_http 7 pending_server) = Answer r
     \<and> fst (authorize_complete example_oauth_lib example_env example_http 8 s1) = Answer r"
proof -
  obtain r s1 where c: "authorize_complete example_oauth_lib example_env example_http 7 pending_server = (Answer r, s1)" "hs_status r = 200"
    using example_complete by blast
  have get: "gm_get (os_pending (prune_pending (he_clk example_env 0) pending_server))
      (form_get example_http [(''request_id'', [''i'']), (''pairing_code'', [''p''])] ''request_id'') = Some example_pending"
    by (simp add: prune_pending_def pending_server_def gm_retain_def pending_dead_def example_pending_def example_env_def form_get_def)
  have h: "hr_form example_http = Inr [(''request_id'', [''i'']), (''pairing_code'', [''p''])]" by (simp add: example_http_def)
  have clk: "he_clk example_env 0 < he_clk example_env 1 + minute" by (simp add: example_env_def)
  from resubmitted_form_repeats_redirect [OF c(1) h get c(2) clk pending_server_ok, of 8] c(1)
  show ?thesis by auto
qed

text \<open>A client that authenticates by an assertion.\<close>

definition example_params :: "(string \<times> string list) list" where
  "example_params = [(''client_assertion_type'', [''urn:ietf:params:oauth:client-assertion-type:jwt-bearer'']),
     (''client_assertion'', [''x''])]"

theorem assertion_is_not_reserved_witness:
  "\<exists>s'. authenticate_token_client example_oauth_lib example_env example_params ''c'' example_server = (Some (example_client, ''j''), s')
     \<and> fst (authenticate_token_client example_oauth_lib example_env example_params ''c'' s') = Some (example_client, ''j'')"
proof -
  have c: "find_client ''c'' client_store = Some example_client" by (simp add: find_client_def client_store_def)
  have r: "resolve_oauth_client example_env ''c'' example_server = Some example_client"
    by (simp add: resolve_oauth_client_def new_oauth_server_def Let_def c)
  obtain s' where a: "authenticate_token_client example_oauth_lib example_env example_params ''c'' example_server = (Some (example_client, ''j''), s')"
    using r by (simp add: authenticate_token_client_def example_client_def example_params_def values_get_def example_env_def
        new_oauth_server_def prune_jtis_def gm_retain_def Let_def)
  with assertion_is_not_reserved [OF a] show ?thesis by blast
qed

end
