(* ===== verification/BridgeProps.thy ===== *)
theory BridgeProps
  imports Bridge OAuthFlow
begin

text \<open>
  Properties of the whole bridge: who can change the control store, who sees pairing codes, that nobody is
  served without tokens, codes and pairing or after a revocation, and that waiting ends.
\<close>

section \<open>Effects of the routes\<close>

lemma set_simps [simp]:
  "bg_mcp (set_pairing m b) = bg_mcp b" "bg_setup (set_pairing m b) = bg_setup b" "bg_admin_token (set_pairing m b) = bg_admin_token b"
  "bg_oauth (set_store c b) = bg_oauth b" "bg_admin_token (set_store c b) = bg_admin_token b" "bg_public_url (set_pairing m b) = bg_public_url b"
  "bg_oauth (set_pairing m b) = (bg_oauth b)\<lparr>os_pairing := m\<rparr>"
  by (simp_all add: set_pairing_def set_store_def)

lemma serve_setup_mcp: "bg_mcp (snd (serve_setup lib env q b)) = bg_mcp b"
  by (auto simp: serve_setup_def split: prod.splits setup_reply.splits)

lemma serve_setup_oauth:
  "\<exists>now. bg_oauth (snd (serve_setup lib env q b)) = bg_oauth b
    \<or> bg_oauth (snd (serve_setup lib env q b)) = (bg_oauth b)\<lparr>os_pairing := snd (pm_status now (os_pairing (bg_oauth b)))\<rparr>"
  by (auto simp: serve_setup_def split: prod.splits setup_reply.splits)

text \<open>The endpoint of a route as a call of the OAuth server.\<close>

definition call_of :: "http_env \<Rightarrow> oauth_endpoint \<Rightarrow> http_request \<Rightarrow> time \<Rightarrow> oauth_call option" where
  "call_of env e q t = (case e of RegisterEndpoint \<Rightarrow> Some (RegisterCall env q) | AuthorizeEndpoint \<Rightarrow> Some (AuthorizeCall env q t)
     | TokenEndpoint \<Rightarrow> Some (TokenCall env q) | RevokeEndpoint \<Rightarrow> Some (RevokeCall env q) | _ \<Rightarrow> None)"

lemma oauth_serve_call:
  "snd (oauth_serve lib env e q t s) = (case call_of env e q t of None \<Rightarrow> s | Some c \<Rightarrow> oauth_step lib s c)"
  by (cases e) (simp_all add: oauth_serve_def call_of_def)

lemma call_of_no_pairing: "call_of env e q t = Some c \<Longrightarrow> \<not> creates_pairing c"
  by (cases e) (auto simp: call_of_def creates_pairing_def)

lemma serve_mcp_effect:
  "snd (serve_mcp lib env q b) = b
   \<or> (mcp_origin_guard lib b q \<and> (\<exists>p. bearer_check (bl_oauth lib) (http_of env b) (bq_http q) (os_store (bg_oauth b)) = Inr p
        \<and> snd (serve_mcp lib env q b) = b\<lparr>bg_mcp := snd (mcp_serve (bl_mcp lib) (bl_render lib) (bl_registry lib) p
             ((bq_mcp q)\<lparr>mq_verb := bq_verb q\<rparr>) (bg_mcp b))\<rparr>))"
  by (auto simp: serve_mcp_def split: sum.splits prod.splits)

text \<open>A request either is answered without a change, or reaches a handler.\<close>

lemma bridge_serve_cases:
  "snd (bridge_serve lib env q b) = b \<or> (\<exists>r. bridge_serve lib env q b = serve_route lib env r q b)"
  by (auto simp: bridge_serve_def Let_def split: option.split)

lemma admin_refused: "\<not> admin_only lib b q \<Longrightarrow> serve_admin lib env a q b = (Some NotFound, b)"
  by (simp add: serve_admin_def)

lemma bridge_effect [case_names same page oauth mcp admin]:
  assumes "snd (bridge_serve lib env q b) = b \<Longrightarrow> thesis"
    and "snd (bridge_serve lib env q b) = snd (serve_setup lib env q b) \<Longrightarrow> thesis"
    and "\<And>e. snd (bridge_serve lib env q b) =
      b\<lparr>bg_oauth := snd (oauth_serve (bl_oauth lib) (http_of env b) e (bq_http q) (be_pairing_now env) (bg_oauth b))\<rparr> \<Longrightarrow> thesis"
    and "snd (bridge_serve lib env q b) = snd (serve_mcp lib env q b) \<Longrightarrow> thesis"
    and "admin_only lib b q \<Longrightarrow> thesis"
  shows thesis
proof (cases "snd (bridge_serve lib env q b) = b")
  case False
  then obtain r where r: "bridge_serve lib env q b = serve_route lib env r q b" using bridge_serve_cases by blast
  show ?thesis
  proof (cases r)
    case Health
    then show ?thesis using r False by (simp add: serve_route_def)
  next
    case Setup
    then show ?thesis using r assms(2) by (simp add: serve_route_def)
  next
    case (OAuth e)
    then show ?thesis using r assms(3) [of e] by (simp add: serve_route_def split: prod.splits outcome.splits)
  next
    case Mcp
    then show ?thesis using r assms(4) by (simp add: serve_route_def)
  next
    case (Admin a)
    then have "admin_only lib b q" using r False admin_refused by (fastforce simp: serve_route_def)
    then show ?thesis by (rule assms(5))
  qed
qed (rule assms(1))

section \<open>Who can change the control store\<close>

text \<open>
  C2: The control store of a bridge changes for two kinds of callers only: the local administrator, who
  connects from a loopback address without a proxy and knows the token of the bridge, and a client of the MCP
  endpoint from an allowed origin whose bearer token is valid for this bridge and carries control.respond.
\<close>

theorem control_store_changes_need_authority:
  assumes "workspace_tools tb control = Inr (bl_registry lib)"
    and "ms_store (bg_mcp (snd (bridge_serve lib env q b))) \<noteq> ms_store (bg_mcp b)"
  shows "admin_only lib b q
    \<or> mcp_origin_guard lib b q \<and> (\<exists>p. bearer_check (bl_oauth lib) (http_of env b) (bq_http q) (os_store (bg_oauth b)) = Inr p
         \<and> has_scope p control_respond)"
proof (cases rule: bridge_effect [of lib env q b])
  case same
  then show ?thesis using assms(2) by simp
next
  case page
  then show ?thesis using assms(2) by (simp add: serve_setup_mcp)
next
  case (oauth e)
  then show ?thesis using assms(2) by simp
next
  case mcp
  from serve_mcp_effect [of lib env q b] show ?thesis
  proof (elim disjE conjE exE)
    fix p
    let ?m = "mcp_serve (bl_mcp lib) (bl_render lib) (bl_registry lib) p ((bq_mcp q)\<lparr>mq_verb := bq_verb q\<rparr>) (bg_mcp b)"
    assume g: "mcp_origin_guard lib b q" and p: "bearer_check (bl_oauth lib) (http_of env b) (bq_http q) (os_store (bg_oauth b)) = Inr p"
      and "snd (serve_mcp lib env q b) = b\<lparr>bg_mcp := snd ?m\<rparr>"
    then have "ms_store (snd ?m) \<noteq> ms_store (bg_mcp b)" using assms(2) mcp by simp
    moreover have "tool_steps (bl_registry lib) p (bg_mcp b) (snd ?m)" by (rule serve_steps [OF prod.collapse [symmetric]])
    ultimately have "has_scope p control_respond" using steps_need_scope [OF assms(1)] by blast
    then show ?thesis using g p by blast
  qed (use assms(2) mcp in simp)
qed simp

section \<open>Who sees a pairing code\<close>

definition disclosed_code :: "bridge_reply option \<Rightarrow> string option" where
  "disclosed_code r = (case r of
     Some (AdminOk (SetupLink code _ _)) \<Rightarrow> Some code
   | Some (AdminOk (PairingCode code _)) \<Rightarrow> Some code
   | Some (FromSetup (SetupPage s _ _)) \<Rightarrow> Some (sn_code s)
   | _ \<Rightarrow> None)"

lemma setup_page_is_local:
  "fst (setup_serve status clk draw q m) = SetupPage s nonce remaining \<Longrightarrow> direct_loopback_request q"
  by (auto simp: setup_serve_def Let_def split: if_splits)

text \<open>
  C15: A pairing code leaves the bridge only over the loopback interface: whatever the request is, if the reply
  discloses a code, the peer has a loopback address and no header of a proxy is present, so nothing that comes
  through the public tunnel can read the code that opens an authorization.
\<close>

theorem pairing_codes_stay_local:
  assumes "disclosed_code (fst (bridge_serve lib env q b)) = Some code"
  shows "\<not> is_forwarded q \<and> (is_loopback_host (remote_host (hr_remote_addr (bq_http q)))
    \<or> is_loopback_host (trim_space (remote_host (hr_remote_addr (bq_http q)))))"
proof -
  have "\<exists>r. bridge_serve lib env q b = serve_route lib env r q b"
    using assms by (auto simp: bridge_serve_def Let_def disclosed_code_def split: if_splits option.splits)
  then obtain r where r: "fst (bridge_serve lib env q b) = fst (serve_route lib env r q b)" by auto
  show ?thesis
  proof (cases r)
    case Health
    then show ?thesis using assms r by (simp add: serve_route_def disclosed_code_def split: if_splits)
  next
    case Setup
    obtain reply m where sv: "setup_serve (Some (setup_status_of lib env b)) (be_setup_clk env) (be_draw env) (setup_request_of q) (bg_setup b) = (reply, m)"
      by fastforce
    then have "fst (bridge_serve lib env q b) = Some (FromSetup reply)" using r by (simp add: Setup serve_route_def serve_setup_def)
    then obtain s n e where "reply = SetupPage s n e" using assms by (cases reply) (auto simp: disclosed_code_def)
    then have "direct_loopback_request (setup_request_of q)" using setup_page_is_local sv by (metis fst_conv)
    then show ?thesis by (auto simp: direct_loopback_request_def setup_request_of_def is_forwarded_def)
  next
    case (OAuth e)
    then show ?thesis using assms r by (auto simp: serve_route_def disclosed_code_def split: prod.splits outcome.splits)
  next
    case Mcp
    then show ?thesis using assms r by (auto simp: serve_route_def serve_mcp_def disclosed_code_def split: prod.splits sum.splits if_splits)
  next
    case (Admin a)
    have "admin_only lib b q"
      using assms r admin_refused [of lib b q env a] by (force simp: Admin serve_route_def disclosed_code_def)
    then show ?thesis by (simp add: admin_only_def)
  qed
qed

section \<open>Without the administrator nobody is served\<close>

text \<open>No token and no code can come from a policy that grants nothing.\<close>

definition nobody :: grant_policy where
  "nobody = (\<lambda>_ _ _ _. False)"

definition sealed :: "oauth_server \<Rightarrow> bool" where
  "sealed s \<longleftrightarrow> server_ok s \<and> grants_ok nobody (os_store s)"

definition shut :: "oauth_server \<Rightarrow> bool" where
  "shut s \<longleftrightarrow> sealed s \<and> pm_session (os_pairing s) = None"

lemma nobody_has_tokens:
  assumes "grants_ok nobody st"
  shows "as_tokens st = []"
proof (rule ccontr)
  assume "as_tokens st \<noteq> []"
  then obtain k r ts where "as_tokens st = (k, r) # ts" by (cases "as_tokens st") auto
  then have "gm_get (as_tokens st) k = Some r" by simp
  then show False using assms by (auto simp: grants_ok_def token_ok_def nobody_def)
qed

lemma sealed_store:
  assumes "sealed s" and "case c of CallCode _ _ _ \<Rightarrow> False | _ \<Rightarrow> True"
  shows "grants_ok nobody (auth_step al sf (os_store s) c)"
  using auth_step_grants [of "os_store s" nobody c] assms not_code_grants by (auto simp: sealed_def server_ok_def)

text \<open>A request completes an authorization: it submits the right pairing code for a pending request.\<close>

definition completes :: "oauth_lib \<Rightarrow> oauth_server \<Rightarrow> oauth_call \<Rightarrow> bool" where
  "completes lib s c \<longleftrightarrow> (\<exists>env q t pending verdict m. c = AuthorizeCall env q t \<and> hr_method q = ''POST'' \<and> approves lib env q t s pending verdict m)"

lemma sealed_step:
  assumes "sealed s" and "\<not> completes lib s c"
  shows "sealed (oauth_step lib s c)"
proof -
  have ok: "server_ok (oauth_step lib s c)" using assms(1) oauth_step_ok by (simp add: sealed_def)
  have none: "grants_ok nobody (os_store s)" using assms(1) by (simp add: sealed_def)
  have "grants_ok nobody (os_store (oauth_step lib s c))"
  proof (cases c)
    case (RegisterCall env q)
    have "grants_ok nobody (snd (register_client_metadata al sf a d e m (os_store s)))" for al sf a d e m
      using sealed_store [OF assms(1), of "CallRegister a d e m" al sf] by simp
    then show ?thesis using register_client_cases [of lib env q s] none RegisterCall by auto
  next
    case (AuthorizeCall env q t)
    have "os_store (snd (authorize_complete lib env q t s)) = os_store s" if "hr_method q = ''POST''"
      using authorize_complete_cases [of lib env q t s] assms(2) that AuthorizeCall by (fastforce simp: completes_def)
    then show ?thesis using authorize_start_frame [of lib env q s] none AuthorizeCall by (auto simp: oauth_authorize_def)
  next
    case (TokenCall env q)
    then show ?thesis using oauth_token_effect [of lib env q s] none sealed_store [OF assms(1)] by auto
  next
    case (RevokeCall env q)
    have "grants_ok nobody (snd (as_revoke al a d t (os_store s)))" for al a d t
      using sealed_store [OF assms(1), of "CallRevoke a d t" al undefined] by simp
    then show ?thesis using oauth_revoke_effect [of lib env q s] none RevokeCall by auto
  qed (use none in simp_all)
  then show ?thesis using ok by (simp add: sealed_def)
qed

lemma shut_step:
  assumes "shut s" and "\<not> creates_pairing c"
  shows "shut (oauth_step lib s c)"
proof -
  have none: "pm_session (os_pairing s) = None" using assms(1) by (simp add: shut_def)
  then have "\<not> completes lib s c" using pm_verify_ok_session by (fastforce simp: completes_def approves_def)
  then have "sealed (oauth_step lib s c)" using assms(1) sealed_step by (simp add: shut_def)
  moreover have "open_sessions (oauth_step lib s c) = 0"
    using oauth_step_sessions [of s lib c] assms by (simp add: shut_def sealed_def open_sessions_def)
  then have "pm_session (os_pairing (oauth_step lib s c)) = None" by (simp add: open_sessions_def split: if_splits)
  ultimately show ?thesis by (simp add: shut_def)
qed

lemma sealed_status: "sealed s \<Longrightarrow> sealed (s\<lparr>os_pairing := snd (pm_status now (os_pairing s))\<rparr>)"
  by (simp add: sealed_def)

lemma shut_status: "shut s \<Longrightarrow> shut (s\<lparr>os_pairing := snd (pm_status now (os_pairing s))\<rparr>)"
  by (simp add: shut_def sealed_status) (simp add: pm_status_def Let_def)

lemma sealed_refuses: "sealed (bg_oauth b) \<Longrightarrow> \<exists>r. bearer_check lib env q (os_store (bg_oauth b)) = Inl r"
  using nobody_has_tokens [of "os_store (bg_oauth b)"] by (auto simp: sealed_def bearer_check_def verify_access_def Let_def)

definition bridge_step :: "bridge_lib \<Rightarrow> bridge \<Rightarrow> bridge_env \<times> bridge_request \<Rightarrow> bridge" where
  "bridge_step lib b = (\<lambda>(env, q). snd (bridge_serve lib env q b))"

definition refused :: "bridge_reply \<Rightarrow> bool" where
  "refused r \<longleftrightarrow> r = OriginRefused \<or> (\<exists>h. r = FromOAuth h \<and> hs_status h = 401)"

lemma bearer_refusal: "bearer_check lib env q st = Inl r \<Longrightarrow> hs_status r = 401"
  by (auto simp: bearer_check_def bearer_challenge_def write_json_def Let_def split: if_splits sum.splits)

lemma sealed_serves_nobody:
  assumes "sealed (bg_oauth b)"
  shows "snd (serve_mcp lib env q b) = b \<and> refused (fst (serve_mcp lib env q b))"
proof (cases "mcp_origin_guard lib b q")
  case True
  obtain r where "bearer_check (bl_oauth lib) (http_of env b) (bq_http q) (os_store (bg_oauth b)) = Inl r"
    using sealed_refuses [OF assms] by blast
  then show ?thesis using bearer_refusal True by (simp add: serve_mcp_def refused_def)
qed (simp add: serve_mcp_def refused_def)

text \<open>A request of an outsider that keeps a property of the OAuth server at its own endpoints keeps it altogether.\<close>

lemma outsider_step:
  assumes "sealed (bg_oauth b)" and "\<not> admin_only lib b q" and "P (bg_oauth b)"
    and "\<And>now. P ((bg_oauth b)\<lparr>os_pairing := snd (pm_status now (os_pairing (bg_oauth b)))\<rparr>)"
    and "\<And>e c. call_of (http_of env b) e (bq_http q) (be_pairing_now env) = Some c \<Longrightarrow> P (oauth_step (bl_oauth lib) (bg_oauth b) c)"
  shows "P (bg_oauth (bridge_step lib b (env, q))) \<and> bg_mcp (bridge_step lib b (env, q)) = bg_mcp b
    \<and> bg_admin_token (bridge_step lib b (env, q)) = bg_admin_token b"
proof (cases rule: bridge_effect [of lib env q b])
  case same
  then show ?thesis using assms(3) by (simp add: bridge_step_def)
next
  case page
  have "bg_admin_token (snd (serve_setup lib env q b)) = bg_admin_token b"
    by (auto simp: serve_setup_def split: prod.splits setup_reply.splits)
  moreover have "P (bg_oauth (snd (serve_setup lib env q b)))"
    using serve_setup_oauth [of lib env q b] assms(3,4) by metis
  ultimately show ?thesis using page serve_setup_mcp [of lib env q b] by (simp add: bridge_step_def)
next
  case (oauth e)
  have "P (snd (oauth_serve (bl_oauth lib) (http_of env b) e (bq_http q) (be_pairing_now env) (bg_oauth b)))"
    using assms(3,5) by (auto simp: oauth_serve_call split: option.split)
  then show ?thesis using oauth by (simp add: bridge_step_def)
next
  case mcp
  then show ?thesis using sealed_serves_nobody [OF assms(1)] assms(3) by (simp add: bridge_step_def)
qed (use assms(2) in simp)

lemma shut_bridge_step:
  assumes "shut (bg_oauth b)" and "\<not> admin_only lib b q"
  shows "shut (bg_oauth (bridge_step lib b (env, q))) \<and> bg_mcp (bridge_step lib b (env, q)) = bg_mcp b
    \<and> bg_admin_token (bridge_step lib b (env, q)) = bg_admin_token b"
  by (rule outsider_step [where P = shut])
    (use assms shut_step shut_status call_of_no_pairing in \<open>auto simp: shut_def [of "bg_oauth b"]\<close>)

text \<open>A request that completes an authorization, at the bridge.\<close>

definition completes_authorization :: "bridge_lib \<Rightarrow> bridge \<Rightarrow> bridge_env \<times> bridge_request \<Rightarrow> bool" where
  "completes_authorization lib b = (\<lambda>(env, q).
     completes (bl_oauth lib) (bg_oauth b) (AuthorizeCall (http_of env b) (bq_http q) (be_pairing_now env)))"

lemma sealed_bridge_step:
  assumes "sealed (bg_oauth b)" and "\<not> admin_only lib b q" and "\<not> completes_authorization lib b (env, q)"
  shows "sealed (bg_oauth (bridge_step lib b (env, q))) \<and> bg_mcp (bridge_step lib b (env, q)) = bg_mcp b
    \<and> bg_admin_token (bridge_step lib b (env, q)) = bg_admin_token b"
proof (rule outsider_step [where P = sealed])
  fix e c assume "call_of (http_of env b) e (bq_http q) (be_pairing_now env) = Some c"
  then have "\<not> completes (bl_oauth lib) (bg_oauth b) c"
    using assms(3) by (cases e) (auto simp: call_of_def completes_authorization_def completes_def)
  then show "sealed (oauth_step (bl_oauth lib) (bg_oauth b) c)" using sealed_step assms(1) by blast
qed (use assms sealed_status in auto)

lemma same_administrator: "bg_admin_token b = bg_admin_token b' \<Longrightarrow> admin_only lib b q = admin_only lib b' q"
  by (simp add: admin_only_def)

lemma outsiders_keep_sealed:
  assumes "sealed (bg_oauth b)" and "\<forall>(env, q) \<in> set qs. \<not> admin_only lib b q"
    and "\<not> some_call (completes_authorization lib) (bridge_step lib) b qs"
  shows "sealed (bg_oauth (run_calls (bridge_step lib) b qs)) \<and> bg_mcp (run_calls (bridge_step lib) b qs) = bg_mcp b
    \<and> bg_admin_token (run_calls (bridge_step lib) b qs) = bg_admin_token b"
  using assms
proof (induction qs arbitrary: b)
  case (Cons eq qs)
  obtain env q where eq: "eq = (env, q)" by (cases eq)
  have "\<not> admin_only lib b q" "\<not> completes_authorization lib b (env, q)" using Cons.prems(2,3) by (simp_all add: eq)
  note step = sealed_bridge_step [OF Cons.prems(1) this]
  then have "\<forall>(env, q) \<in> set qs. \<not> admin_only lib (bridge_step lib b eq) q"
    using Cons.prems(2) same_administrator [of "bridge_step lib b eq" b lib] by (auto simp: eq)
  then show ?case using Cons.IH [of "bridge_step lib b eq"] step Cons.prems(3) by (simp add: eq)
qed simp

lemma outsiders_keep_shut:
  assumes "shut (bg_oauth b)" and "\<forall>(env, q) \<in> set qs. \<not> admin_only lib b q"
  shows "shut (bg_oauth (run_calls (bridge_step lib) b qs)) \<and> bg_mcp (run_calls (bridge_step lib) b qs) = bg_mcp b"
  using assms
proof (induction qs arbitrary: b)
  case (Cons eq qs)
  obtain env q where eq: "eq = (env, q)" by (cases eq)
  note step = shut_bridge_step [OF Cons.prems(1), of lib q env]
  have now: "\<not> admin_only lib b q" using Cons.prems(2) by (simp add: eq)
  have "admin_only lib (bridge_step lib b (env, q)) q' = admin_only lib b q'" for q'
    using step now by (simp add: admin_only_def)
  then show ?case using Cons.IH [of "bridge_step lib b (env, q)"] step now Cons.prems(2) by (simp add: eq)
qed simp

text \<open>
  C1: The MCP endpoint of a bridge without tokens, authorization codes and an open pairing session serves nobody:
  whatever requests arrive at the bridge, in whatever order, as long as none of them comes from a loopback address
  with the admin token, the endpoint goes on to refuse every request, with 401 or for its origin, and no tool has
  run.  (The pages that are there for everyone, the health check, the metadata documents and the registration of
  clients among them, still answer.)
\<close>

theorem unpaired_bridge_refuses_outsiders:
  assumes "server_ok (bg_oauth b)" and "as_tokens (os_store (bg_oauth b)) = []" and "as_codes (os_store (bg_oauth b)) = []"
    and "pm_session (os_pairing (bg_oauth b)) = None" and "\<forall>(env, q) \<in> set qs. \<not> admin_only lib b q"
  shows "refused (fst (serve_mcp lib env q (run_calls (bridge_step lib) b qs)))
    \<and> bg_mcp (run_calls (bridge_step lib) b qs) = bg_mcp b"
proof -
  have "shut (bg_oauth b)" using assms(1-4) by (simp add: shut_def sealed_def grants_ok_def)
  from outsiders_keep_shut [OF this assms(5)] show ?thesis using sealed_serves_nobody by (simp add: shut_def)
qed

lemma revoke_tokens_seals:
  assumes "server_ok (bg_oauth b)" and "revoke_tokens lib env b = (result, b1)"
  shows "sealed (bg_oauth b1) \<and> bg_mcp b1 = bg_mcp b \<and> bg_admin_token b1 = bg_admin_token b"
proof -
  let ?c = "CallRevokeAll (store_now env) (he_write (be_http env))"
  let ?st = "auth_step (xl_auth (bl_oauth lib)) (xl_fold (bl_oauth lib)) (os_store (bg_oauth b)) ?c"
  have b1: "b1 = b\<lparr>bg_oauth := (bg_oauth b)\<lparr>os_store := ?st\<rparr>\<rparr>"
    using assms(2) by (auto simp: revoke_tokens_def split: prod.splits)
  have "server_ok ((bg_oauth b)\<lparr>os_store := ?st\<rparr>)"
    by (rule store_call_ok [OF assms(1), where lib = "bl_oauth lib" and c = ?c]) (simp_all add: call_grants_def)
  moreover have "grants_ok nobody ?st"
    by (auto simp: revoke_all_def as_save_def Let_def as_prune_def prune_tokens_def prune_codes_def gm_retain_def grants_ok_def split: option.split)
  ultimately show ?thesis by (simp add: b1 sealed_def)
qed

lemma close_pairing_shuts:
  assumes "sealed (bg_oauth b)"
  shows "shut (bg_oauth (close_pairing env b)) \<and> bg_mcp (close_pairing env b) = bg_mcp b \<and> bg_admin_token (close_pairing env b) = bg_admin_token b"
  using assms by (simp add: close_pairing_def shut_def sealed_def pm_invalidate_def close_session_def)

text \<open>
  C5: Revoking everything ends every session, in its two steps, unless an authorization is completed meanwhile.  When
  the tokens have been revoked, outsiders send any requests, none of which completes an authorization with the pairing
  code that is still open, and then the pairing session is closed, the MCP endpoint refuses every request from then on,
  and no request of an outsider, of whatever kind, opens a way back; no tool runs after the first step.  A request is
  handled as a whole here: none is under way at either step.  (Both conditions are needed, see
  \<open>code_between_the_steps_survives\<close> and \<open>accepted_before_revocation_survives\<close>.)
\<close>

theorem revocation_ends_every_session:
  assumes "server_ok (bg_oauth b)" and "revoke_tokens lib env1 b = ((n, failure), b1)"
    and "\<forall>(env, q) \<in> set qs1. \<not> admin_only lib b1 q" and "\<not> some_call (completes_authorization lib) (bridge_step lib) b1 qs1"
    and "b2 = close_pairing env2 (run_calls (bridge_step lib) b1 qs1)" and "\<forall>(env, q) \<in> set qs2. \<not> admin_only lib b2 q"
  shows "refused (fst (serve_mcp lib env q (run_calls (bridge_step lib) b2 qs2)))
    \<and> bg_mcp (run_calls (bridge_step lib) b2 qs2) = bg_mcp b"
proof -
  note first = revoke_tokens_seals [OF assms(1,2)]
  note between = outsiders_keep_sealed [OF first [THEN conjunct1] assms(3,4)]
  note second = close_pairing_shuts [OF between [THEN conjunct1], of env2, folded assms(5)]
  from outsiders_keep_shut [OF second [THEN conjunct1] assms(6)] show ?thesis
    using sealed_serves_nobody first between second by (simp add: shut_def)
qed

section \<open>Waiting and lifetimes\<close>

lemma wait_loop_returns:
  "i < length ps \<Longrightarrow> \<not> po_now (ps ! i) < deadline \<Longrightarrow> fst (wait_loop cd x deadline ps s) \<noteq> None"
proof (induction ps arbitrary: i s)
  case (Cons p ps)
  obtain r s1 where g: "ctl_get cd (po_clk p) (po_save p) (ib_request_id x) (ib_task_id x) (ib_iteration x) s = (r, s1)" by fastforce
  show ?case
  proof (cases i)
    case 0
    then show ?thesis using Cons.prems by (cases r) (auto simp: g)
  next
    case (Suc j)
    then have "fst (wait_loop cd x deadline ps (po_others p s1)) \<noteq> None" using Cons.IH [of j] Cons.prems by simp
    then show ?thesis by (cases r) (auto simp: g)
  qed
qed simp

text \<open>
  C39: Waiting for a control response ends: polls are at least a tenth of a second apart, so whatever other
  requests do to the store in between, the handler has answered after at most 251 polls, for every waiting
  time that it accepts.
\<close>

theorem wait_answers_within_251_polls:
  assumes "ib_wait x \<le> 25000" and "251 \<le> length polls"
    and "\<forall>i < length polls. start + int i * 100 * millisecond \<le> po_now (polls ! i)"
  shows "fst (wait_loop cd x (start + ib_wait x * millisecond) polls s) \<noteq> None"
proof -
  have "start + int 250 * 100 * millisecond \<le> po_now (polls ! 250)" using assms(2) assms(3) [rule_format, of 250] by simp
  then have "\<not> po_now (polls ! 250) < start + ib_wait x * millisecond" using assms(1) by simp
  then show ?thesis using wait_loop_returns [of 250 polls] assms(2) by simp
qed

lemma ttl_duration_small:
  assumes "\<bar>n\<bar> \<le> 9223372036"
  shows "ttl_duration n = n * second"
proof -
  have "ttl_duration n = signed_take_bit 63 (n * second)"
    unfolding ttl_duration_def wi_hom_mult sint_sbintrunc' by simp
  also have "\<dots> = n * second" by (rule signed_take_bit_int_eq_self) (use assms in auto)
  finally show ?thesis .
qed

text \<open>
  The check of ttlSeconds is what its message says for every number of seconds that fits a
  duration: none, or between 60 and 14400.
\<close>

theorem ttl_check_is_exact:
  assumes "\<bar>n\<bar> \<le> 9223372036"
  shows "ttl_accepted n \<longleftrightarrow> n = 0 \<or> 60 \<le> n \<and> n \<le> 14400"
  using assms by (auto simp: ttl_accepted_def ttl_duration_small)

text \<open>Beyond that the product wraps around: more than a billion years are accepted as one minute.\<close>

theorem overflowing_ttl_is_accepted: "ttl_accepted (2 ^ 55 + 60) \<and> ttl_duration (2 ^ 55 + 60) = min_ttl"
proof -
  have "ttl_duration (2 ^ 55 + 60) = min_ttl" unfolding ttl_duration_def by simp
  then show ?thesis by (simp add: ttl_accepted_def)
qed

theorem ttl_check_is_exact_witness: "ttl_accepted 14400 \<and> \<not> ttl_accepted 14401 \<and> \<not> ttl_accepted (- 1)"
  using ttl_check_is_exact [of 14400] ttl_check_is_exact [of 14401] ttl_check_is_exact [of "- 1"] by simp

section \<open>Examples\<close>

definition visit :: "string \<Rightarrow> string \<Rightarrow> string \<Rightarrow> jvalue \<Rightarrow> bridge_request" where
  "visit path addr authorization body =
    \<lparr>bq_http = OAuthFlow.example_http\<lparr>hr_method := ''POST'', hr_remote_addr := addr, hr_authorization := authorization\<rparr>,
     bq_mcp = McpProps.example_http, bq_path = path, bq_origin = [], bq_forwarded_for = [], bq_forwarded = [],
     bq_body = (\<lambda>_. Some (body, NoMore))\<rparr>"

definition example_bridge :: "auth_store \<Rightarrow> mcp_state \<Rightarrow> bridge" where
  "example_bridge store mcp = \<lparr>bg_host = ''127.0.0.1'', bg_port = 8787, bg_admin_token = ''secret'', bg_public_url = [],
    bg_oauth = new_oauth_server store (new_pairing_manager example_pairing_options) ''n'' None, bg_mcp = mcp, bg_setup = [], bg_closing = False\<rparr>"

lemma example_bridge_ok:
  assumes "auth_good store" and "grants_ok scope_policy store"
  shows "server_ok (bg_oauth (example_bridge store mcp))" "pm_session (os_pairing (bg_oauth (example_bridge store mcp))) = None"
    "os_store (bg_oauth (example_bridge store mcp)) = store"
  using assms by (simp_all add: example_bridge_def server_ok_def new_oauth_server_def new_pairing_manager_def gm_all_def Let_def)

lemma outsider: "\<not> admin_only lib (example_bridge store mcp) (visit path addr [] body)"
  by (simp add: admin_only_def admin_token_def visit_def example_bridge_def trim_space_def)

lemma administrator: "bl_oauth lib = example_oauth_lib \<Longrightarrow> admin_only lib (example_bridge store mcp) (visit path ''127.0.0.1:5000'' ''Bearer secret'' body)"
proof -
  have "net_split_host_port ''127.0.0.1:5000'' = Some (''127.0.0.1'', ''5000'')"
    by (simp add: net_split_host_port_def cut_last_def cut_def has_prefix_def)
  moreover have "is_loopback_host ''127.0.0.1''" by (simp add: ip_eval)
  moreover have "trim_space ''Bearer secret'' = ''Bearer secret''" "trim_space ''secret'' = ''secret''"
    by (rule trim_space_id; simp add: is_space_def byte_def)+
  moreover assume "bl_oauth lib = example_oauth_lib"
  ultimately show ?thesis
    by (simp add: admin_only_def admin_token_def visit_def example_bridge_def remote_host_def is_forwarded_def equal_fold_def Let_def)
       (simp add: OAuthFlow.example_http_def)
qed

lemma empty_store_good: "grants_ok scope_policy example_store"
  by (simp add: grants_ok_def example_store_def)

theorem unpaired_bridge_refuses_outsiders_witness:
  "\<forall>lib env q mcp. refused (fst (serve_mcp lib env q (run_calls (bridge_step lib) (example_bridge example_store mcp)
      [(env, visit ''/oauth/authorize'' ''10.0.0.9:1'' [] JsNull), (env, visit ''/mcp'' ''10.0.0.9:1'' [] JsNull)])))"
proof (intro allI)
  fix lib env q mcp
  note ok = example_bridge_ok [OF example_store_good empty_store_good, of mcp]
  have none: "as_tokens (os_store (bg_oauth (example_bridge example_store mcp))) = []"
    "as_codes (os_store (bg_oauth (example_bridge example_store mcp))) = []"
    unfolding ok(3) by (simp_all add: example_store_def)
  show "refused (fst (serve_mcp lib env q (run_calls (bridge_step lib) (example_bridge example_store mcp)
      [(env, visit ''/oauth/authorize'' ''10.0.0.9:1'' [] JsNull), (env, visit ''/mcp'' ''10.0.0.9:1'' [] JsNull)])))"
    by (rule unpaired_bridge_refuses_outsiders [OF ok(1) none ok(2), THEN conjunct1]) (simp add: outsider)
qed

theorem revocation_ends_every_session_witness:
  "\<forall>lib env q mcp. \<exists>b1. as_tokens client_store \<noteq> []
    \<and> revoke_tokens (lib\<lparr>bl_oauth := example_oauth_lib\<rparr>) (env\<lparr>be_http := example_env\<rparr>) (example_bridge client_store mcp) = ((1, None), b1)
    \<and> refused (fst (serve_mcp (lib\<lparr>bl_oauth := example_oauth_lib\<rparr>) env q (close_pairing env (bridge_step (lib\<lparr>bl_oauth := example_oauth_lib\<rparr>) b1
        (env, visit ''/mcp'' ''10.0.0.9:1'' ''Bearer t'' JsNull)))))"
proof (intro allI)
  fix lib :: bridge_lib and env :: bridge_env and q :: bridge_request and mcp
  let ?lib = "lib\<lparr>bl_oauth := example_oauth_lib\<rparr> :: bridge_lib" and ?env = "env\<lparr>be_http := example_env\<rparr> :: bridge_env"
  let ?q = "(env, visit ''/mcp'' ''10.0.0.9:1'' ''Bearer t'' JsNull)"
  note ok = example_bridge_ok [OF client_store_good, of mcp]
  obtain st where "revoke_all (xl_auth example_oauth_lib) (he_store_clk example_env 0) (he_write example_env) client_store = (1, None, st)"
    by (simp add: revoke_all_def as_save_def example_defs client_store_def example_store_def
        example_options_def apply_store_defaults_def default_int_def as_prune_def Let_def)
  then obtain b1 where b1: "revoke_tokens ?lib ?env (example_bridge client_store mcp) = ((1, None), b1)" "bg_oauth b1 = (bg_oauth (example_bridge client_store mcp))\<lparr>os_store := st\<rparr>"
      "bg_admin_token b1 = ''secret''"
    by (simp add: revoke_tokens_def ok(3)) (simp add: example_bridge_def)
  have outside: "\<not> admin_only ?lib b1 (visit ''/mcp'' ''10.0.0.9:1'' ''Bearer t'' JsNull)"
  proof -
    have "\<not> is_loopback_host (remote_host ''10.0.0.9:1'')"
      by (simp add: remote_host_def net_split_host_port_def cut_last_def cut_def has_prefix_def ip_eval)
    then show ?thesis by (simp add: admin_only_def visit_def)
  qed
  have "pm_session (os_pairing (bg_oauth b1)) = None" using ok(2) by (simp add: b1)
  then have "\<not> completes_authorization ?lib b1 ?q"
    using pm_verify_ok_session by (fastforce simp: completes_authorization_def completes_def approves_def)
  from revocation_ends_every_session [OF ok(1) b1(1), of "[?q]" "close_pairing env (bridge_step ?lib b1 ?q)" env "[]" env q]
    this outside b1
  show "\<exists>b1. as_tokens client_store \<noteq> [] \<and> revoke_tokens ?lib ?env (example_bridge client_store mcp) = ((1, None), b1)
      \<and> refused (fst (serve_mcp ?lib env q (close_pairing env (bridge_step ?lib b1 ?q))))"
    by (auto simp: client_store_def)
qed

lemma revoke_client_store:
  obtains st where "revoke_all example_lib 0 None client_store = (1, None, st)" "as_codes st = []"
    "as_options st = as_options client_store"
  by (simp add: revoke_all_def as_save_def example_lib_def client_store_def example_store_def
      example_options_def apply_store_defaults_def default_int_def as_prune_def prune_codes_def gm_retain_def Let_def)

lemma code_is_created:
  assumes "as_codes st = []" and "as_options st = as_options client_store"
  obtains code st1 where "create_authorization_code example_lib int (Some ''a'') rq st = (Inr code, st1)" "as_codes st1 \<noteq> []"
proof -
  have none: "as_codes (as_prune (int 1) st) = []" and "as_options (as_prune (int 1) st) = as_options client_store"
    using assms by (simp_all add: as_prune_def prune_codes_def gm_retain_def Let_def)
  then have "\<not> so_max_codes (as_options (as_prune (int 1) st)) \<le> int (length (as_codes (as_prune (int 1) st)))"
    by (simp add: client_store_def example_store_def example_options_def apply_store_defaults_def default_int_def)
  moreover obtain code where "random_token ''cl_ac'' (Some ''a'') = Some code" by (simp add: random_token_def)
  ultimately have "create_authorization_code example_lib int (Some ''a'') rq st = (Inr code, (as_prune (int 1) st)
      \<lparr>as_codes := gm_put (hv example_lib code) (code_record example_lib st rq (int 0) code) []\<rparr>)"
    using none by (simp add: create_authorization_code_def Let_def)
  then show ?thesis by (rule that) simp
qed

lemma approval_creates_code:
  assumes "as_codes (os_store s) = []" and "as_options (os_store s) = as_options client_store"
  shows "as_codes (os_store (snd (approve_authorization example_oauth_lib (example_env\<lparr>he_base := base\<rparr>) i pending verdict s))) \<noteq> []"
proof -
  obtain code st1 where "create_authorization_code example_lib int (Some ''a'') (code_request_of pending verdict) (os_store s) = (Inr code, st1)"
      "as_codes st1 \<noteq> []"
    by (rule code_is_created [OF assms])
  then show ?thesis
    by (simp add: approve_authorization_def example_oauth_lib_def example_env_def Let_def split: option.split)
qed

text \<open>
  Between the two steps of the revocation the pairing code still counts: an authorization that is completed there leaves
  a code after the revocation.
\<close>

theorem code_between_the_steps_survives:
  "\<forall>lib env mcp b0 b1 q b2. b0 = (example_bridge client_store mcp)\<lparr>bg_oauth := pending_server\<rparr>
     \<and> b1 = snd (revoke_tokens (lib\<lparr>bl_oauth := example_oauth_lib\<rparr>) (env\<lparr>be_http := example_env\<rparr>) b0)
     \<and> q = visit ''/oauth/authorize'' ''10.0.0.9:1'' [] JsNull
     \<and> b2 = bridge_step (lib\<lparr>bl_oauth := example_oauth_lib\<rparr>) b1 (env\<lparr>be_http := example_env, be_pairing_now := 7\<rparr>, q)
     \<longrightarrow> as_codes (os_store (bg_oauth (close_pairing env b2))) \<noteq> []"
proof (intro allI impI, elim conjE)
  fix lib env mcp b0 b1 q b2
  assume b0: "b0 = (example_bridge client_store mcp)\<lparr>bg_oauth := pending_server\<rparr>"
    and b1: "b1 = snd (revoke_tokens (lib\<lparr>bl_oauth := example_oauth_lib\<rparr>) (env\<lparr>be_http := example_env\<rparr>) b0)"
    and q: "q = visit ''/oauth/authorize'' ''10.0.0.9:1'' [] JsNull"
    and b2: "b2 = bridge_step (lib\<lparr>bl_oauth := example_oauth_lib\<rparr>) b1 (env\<lparr>be_http := example_env, be_pairing_now := 7\<rparr>, q)"
  obtain st where st: "revoke_all example_lib 0 None client_store = (1, None, st)" "as_codes st = []" "as_options st = as_options client_store"
    by (rule revoke_client_store)
  have x: "xl_upper example_oauth_lib = id" "xl_auth example_oauth_lib = example_lib" "he_store_clk example_env = int" "he_write example_env = None"
    "he_clk example_env = int"
    by (simp_all add: example_oauth_lib_def example_env_def)
  have "os_store pending_server = client_store" by (simp add: pending_server_def new_oauth_server_def Let_def)
  then have b1': "b1 = b0\<lparr>bg_oauth := pending_server\<lparr>os_store := st\<rparr>\<rparr>"
    unfolding b1 b0 using st(1) by (simp add: revoke_tokens_def x)
  let ?s = "prune_pending 0 (pending_server\<lparr>os_store := st\<rparr>)"
  have pending: "gm_get (os_pending ?s) ''i'' = Some example_pending"
    by (simp add: prune_pending_def pending_server_def gm_retain_def pending_dead_def example_pending_def)
  have form: "hr_form (bq_http q) = Inr [(''request_id'', [''i'']), (''pairing_code'', [''p''])]" "hr_method (bq_http q) = ''POST''"
    by (simp_all add: q visit_def OAuthFlow.example_http_def)
  have f: "form_get (bq_http q) [(''request_id'', [''i'']), (''pairing_code'', [''p''])] ''request_id'' = ''i''"
    "form_get (bq_http q) [(''request_id'', [''i'']), (''pairing_code'', [''p''])] ''pairing_code'' = ''p''"
    by (simp_all add: form_get_def)
  obtain m where v: "pm_verify id (hv example_lib) ''p'' (client_ip example_oauth_lib (bq_http q)) 7 (os_pairing pending_server) = (paired ''s'', m)"
    using example_verify by blast
  let ?e = "example_env\<lparr>he_base := base_url b1\<rparr>"
  obtain answer s3 where ap: "approve_authorization example_oauth_lib ?e ''i'' example_pending (paired ''s'') (?s\<lparr>os_pairing := m\<rparr>) = (answer, s3)"
    by fastforce
  have "authorize_complete example_oauth_lib ?e (bq_http q) 7 (pending_server\<lparr>os_store := st\<rparr>)
      = (answer, s3)"
    unfolding ap [symmetric] by (simp add: authorize_complete_def form f pending v x Let_def) (simp add: paired_def)
  moreover have "as_codes (os_store s3) \<noteq> []"
    using approval_creates_code [of "?s\<lparr>os_pairing := m\<rparr>" "base_url b1" "''i''" example_pending "paired ''s''"] st(2,3) ap by simp
  moreover have "mux_clean ''/oauth/authorize'' = ''/oauth/authorize''" "route_of ''/oauth/authorize'' = Some (OAuth AuthorizeEndpoint)"
    by (simp_all add: mux_clean_def has_prefix_def has_suffix_def path_eval)
      (simp_all add: route_of_def bridge_routes_def oauth_routes_def admin_routes_def)
  moreover have "bq_path q = ''/oauth/authorize''" "bq_verb q = ''POST''" by (simp_all add: q visit_def)
  ultimately have "as_codes (os_store (bg_oauth b2)) \<noteq> []"
    by (simp add: b2 bridge_step_def bridge_serve_def serve_route_def oauth_serve_def oauth_authorize_def form http_of_def b1' Let_def
        split: prod.split outcome.split)
  then show "as_codes (os_store (bg_oauth (close_pairing env b2))) \<noteq> []" by (simp add: close_pairing_def)
qed

text \<open>
  The same holds for a request whose pairing code was accepted before the revocation: the code is created afterwards.
\<close>

theorem accepted_before_revocation_survives:
  "\<forall>lib env mcp m s. s = bg_oauth (close_pairing env (snd (revoke_tokens (lib\<lparr>bl_oauth := example_oauth_lib\<rparr>) (env\<lparr>be_http := example_env\<rparr>)
       ((example_bridge client_store mcp)\<lparr>bg_oauth := pending_server\<lparr>os_pairing := m\<rparr>\<rparr>))))
     \<longrightarrow> as_codes (os_store s) = [] \<and> pm_session (os_pairing s) = None
       \<and> as_codes (os_store (snd (approve_authorization example_oauth_lib example_env ''i'' example_pending (paired ''s'') s))) \<noteq> []"
proof (intro allI impI)
  fix lib env mcp m s
  assume s: "s = bg_oauth (close_pairing env (snd (revoke_tokens (lib\<lparr>bl_oauth := example_oauth_lib\<rparr>) (env\<lparr>be_http := example_env\<rparr>)
       ((example_bridge client_store mcp)\<lparr>bg_oauth := pending_server\<lparr>os_pairing := m\<rparr>\<rparr>))))"
  obtain st where st: "revoke_all example_lib 0 None client_store = (1, None, st)" "as_codes st = []" "as_options st = as_options client_store"
    by (rule revoke_client_store)
  have store: "os_store s = st" and none: "pm_session (os_pairing s) = None"
    unfolding s using st(1)
    by (simp_all add: revoke_tokens_def close_pairing_def pm_invalidate_def close_session_def pending_server_def new_oauth_server_def
        example_oauth_lib_def example_env_def Let_def)
  have same: "example_env\<lparr>he_base := ''https://h''\<rparr> = example_env" by (simp add: example_env_def)
  have "as_codes (os_store (snd (approve_authorization example_oauth_lib (example_env\<lparr>he_base := ''https://h''\<rparr>) ''i'' example_pending (paired ''s'') s))) \<noteq> []"
    by (rule approval_creates_code) (simp_all add: store st)
  then show "as_codes (os_store s) = [] \<and> pm_session (os_pairing s) = None
       \<and> as_codes (os_store (snd (approve_authorization example_oauth_lib example_env ''i'' example_pending (paired ''s'') s))) \<noteq> []"
    unfolding same by (simp add: store st none)
qed

theorem wait_answers_within_251_polls_witness:
  "\<forall>cd s clk sv. fst (wait_loop cd (no_identity\<lparr>ib_wait := 25000\<rparr>) (0 + 25000 * millisecond)
     (map (\<lambda>i. \<lparr>po_clk = clk, po_save = sv, po_now = int i * 100 * millisecond, po_gone = False, po_others = id\<rparr>) [0..<251]) s) \<noteq> None"
  using wait_answers_within_251_polls [of "no_identity\<lparr>ib_wait := 25000\<rparr>"
      "map (\<lambda>i. \<lparr>po_clk = clk, po_save = sv, po_now = int i * 100 * millisecond, po_gone = False, po_others = id\<rparr>) [0..<251]" 0 for clk sv]
  by simp

lemma route_control_cancel: "mux_clean ''/admin/control/cancel'' = ''/admin/control/cancel''"
    "route_of ''/admin/control/cancel'' = Some (Admin Cancel)"
    "mux_clean ''/admin/pairing'' = ''/admin/pairing''" "route_of ''/admin/pairing'' = Some (Admin PairingRoute)"
  by (simp_all add: mux_clean_def has_prefix_def has_suffix_def path_eval)
     (simp_all add: route_of_def bridge_routes_def oauth_routes_def admin_routes_def)

theorem pairing_codes_stay_local_witness:
  "\<forall>lib env mcp. disclosed_code (fst (bridge_serve (lib\<lparr>bl_oauth := example_oauth_lib\<rparr>)
       (env\<lparr>be_code := Some ''ABCDEFGH'', be_session_id := Some ''i''\<rparr>) (visit ''/admin/pairing'' ''127.0.0.1:5000'' ''Bearer secret'' JsNull)
       (example_bridge example_store mcp))) = Some ''ABCD-EFGH''
    \<and> \<not> is_forwarded (visit ''/admin/pairing'' ''127.0.0.1:5000'' ''Bearer secret'' JsNull)"
proof (intro allI)
  fix lib :: bridge_lib and env :: bridge_env and mcp
  let ?q = "visit ''/admin/pairing'' ''127.0.0.1:5000'' ''Bearer secret'' JsNull"
  let ?r = "bridge_serve (lib\<lparr>bl_oauth := example_oauth_lib\<rparr>) (env\<lparr>be_code := Some ''ABCDEFGH'', be_session_id := Some ''i''\<rparr>) ?q
       (example_bridge example_store mcp)"
  have q: "bq_path ?q = ''/admin/pairing''" "bq_verb ?q = ''POST''" by (simp_all add: visit_def)
  have "disclosed_code (fst ?r) = Some ''ABCD-EFGH''"
    using administrator by (simp add: bridge_serve_def q route_control_cancel serve_route_def serve_admin_def admin_verb_def
        admin_pairing_def create_code_def pm_create_def format_code_def disclosed_code_def)
  from pairing_codes_stay_local [OF this] this show "disclosed_code (fst ?r) = Some ''ABCD-EFGH'' \<and> \<not> is_forwarded ?q" by blast
qed

definition expired_request :: ctl_request where
  "expired_request = new_request ''w'' ''r'' ''cl_0123abcd'' 0 0 1"

definition expired_state :: "mcp_state \<Rightarrow> mcp_state" where
  "expired_state mcp = mcp\<lparr>ms_store := \<lparr>cs_workspace_id = ''w'', cs_records = [(''r'', expired_request)], cs_file = None\<rparr>\<rparr>"

definition cancel_body :: jvalue where
  "cancel_body = JsObject [(''requestId'', JsString ''r''), (''taskId'', JsString ''cl_0123abcd''), (''iteration'', JsNumber (Whole 0))]"

theorem control_store_changes_need_authority_witness:
  "\<forall>lib env mcp tb. \<exists>reg. workspace_tools tb True = Inr reg
    \<and> ms_store (bg_mcp (snd (bridge_serve (lib\<lparr>bl_oauth := example_oauth_lib, bl_registry := reg\<rparr>)
         (env\<lparr>be_control_clk := (\<lambda>_. 5), be_save := (\<lambda>_. \<lparr>sv_location = None, sv_remove = None, sv_write = None\<rparr>)\<rparr>)
         (visit ''/admin/control/cancel'' ''127.0.0.1:5000'' ''Bearer secret'' cancel_body) (example_bridge example_store (expired_state mcp)))))
       \<noteq> ms_store (expired_state mcp)
    \<and> admin_only (lib\<lparr>bl_oauth := example_oauth_lib, bl_registry := reg\<rparr>) (example_bridge example_store (expired_state mcp))
        (visit ''/admin/control/cancel'' ''127.0.0.1:5000'' ''Bearer secret'' cancel_body)"
proof (intro allI)
  fix lib :: bridge_lib and env :: bridge_env and mcp tb
  obtain reg where reg: "workspace_tools tb True = Inr reg" using workspace_tools_ok by blast
  let ?lib = "lib\<lparr>bl_oauth := example_oauth_lib, bl_registry := reg\<rparr>"
  let ?env = "env\<lparr>be_control_clk := (\<lambda>_. 5), be_save := (\<lambda>_. \<lparr>sv_location = None, sv_remove = None, sv_write = None\<rparr>)\<rparr>"
  let ?q = "visit ''/admin/control/cancel'' ''127.0.0.1:5000'' ''Bearer secret'' cancel_body"
  let ?b = "example_bridge example_store (expired_state mcp)"
  have q: "bq_path ?q = ''/admin/control/cancel''" "bq_verb ?q = ''POST''" "bq_body ?q n = Some (cancel_body, NoMore)" for n
    by (simp_all add: visit_def)
  have admin: "admin_only ?lib ?b ?q" by (rule administrator) simp
  have mcp: "bg_mcp ?b = expired_state mcp" by (simp add: example_bridge_def)
  have body: "decode_body True 16384 identity_fields no_identity ?q
      = Inr \<lparr>ib_request_id = ''r'', ib_task_id = ''cl_0123abcd'', ib_iteration = 0, ib_wait = 0\<rparr>"
    unfolding decode_body_def q(3)
    by (simp add: cancel_body_def into_struct_def identity_fields_def field_for_def string_field_def int_field_def
        into_string_def into_int_def no_identity_def ensure_single_json_value_def)
  have task: "validate_identity ''cl_0123abcd'' 0 = None"
    by (simp add: validate_identity_def task_pattern_def has_prefix_def lower_hex_def in_range_def byte_def)
  have "ms_store (bg_mcp (snd (bridge_serve ?lib ?env ?q ?b))) \<noteq> ms_store (bg_mcp ?b)"
    using admin
    by (simp add: bridge_serve_def q route_control_cancel serve_route_def serve_admin_def admin_verb_def control_cancel_def body mcp)
       (simp add: expired_state_def ctl_cancel_def ctl_get_def task drop_if_expired_def rq_expired_def expired_request_def new_request_def
         save_locked_def set_store_def)
  from control_store_changes_need_authority [OF _ this, of tb True] this reg admin mcp
  show "\<exists>reg. workspace_tools tb True = Inr reg
      \<and> ms_store (bg_mcp (snd (bridge_serve (lib\<lparr>bl_oauth := example_oauth_lib, bl_registry := reg\<rparr>) ?env ?q ?b))) \<noteq> ms_store (expired_state mcp)
      \<and> admin_only (lib\<lparr>bl_oauth := example_oauth_lib, bl_registry := reg\<rparr>) ?b ?q"
    by auto
qed

end
