(* ===== verification/Repositories.thy ===== *)
theory Repositories
  imports WorkspaceProps WorkspaceRead
begin

text \<open>
  \<open>internal/workspace/repositories.go\<close>: what counts as a Git repository of the workspace, how repositories are
  discovered, and how a caller selects one and a path in it.  \<open>re_same\<close> is \<open>os.SameFile\<close> on two paths, and
  \<open>re_fold\<close> the case folding of \<open>strings.EqualFold\<close>.
\<close>

record repo_env =
  re_os :: os_env
  re_same :: "string \<Rightarrow> string \<Rightarrow> bool"
  re_fold :: "nat \<Rightarrow> nat"

abbreviation re_low :: "repo_env \<Rightarrow> nat \<Rightarrow> nat" where
  "re_low env \<equiv> os_lower (re_os env)"

record repository =
  rp_path :: string
  rp_name :: string
  rp_root :: string

section \<open>Git metadata\<close>

text \<open>Paths in the files of Git, and what a relative one is relative to.\<close>

definition bad_git_path :: "string \<Rightarrow> bool" where
  "bad_git_path v \<longleftrightarrow> v = [] \<or> CHR 0x00 \<in> set v \<or> CHR 0x0D \<in> set v \<or> CHR 0x0A \<in> set v"

definition git_path :: "string \<Rightarrow> string \<Rightarrow> string" where
  "git_path dir v = (if rooted v then v else go_join [dir, v])"

definition resolve_git_common_dir :: "os_env \<Rightarrow> string \<Rightarrow> ws_error + string" where
  "resolve_git_common_dir env git_dir =
    (case read_bounded env (go_join [git_dir, ''commondir'']) (8 * 1024) of
       None \<Rightarrow> Inr git_dir
     | Some (Inl e) \<Rightarrow> bad_config (''cannot read Git commondir: '' @ e)
     | Some (Inr data) \<Rightarrow>
        (let v = trim_space data in
         if bad_git_path v then bad_config ''invalid Git commondir''
         else (case os_eval env (git_path git_dir v) of
            None \<Rightarrow> bad_config ''cannot resolve Git commondir''
          | Some real \<Rightarrow>
             if os_stat env real \<noteq> StatOk Directory then bad_config ''Git commondir is not a directory''
             else Inr (go_clean real))))"

text \<open>The alternates of an object directory, line by line.\<close>

definition alternate_lines :: "string \<Rightarrow> string list" where
  "alternate_lines data = filter (\<lambda>v. v \<noteq> []) (map (\<lambda>l. trim_space (trim_suffix l [CHR 0x0D])) (split_on CHR 0x0A data))"

fun check_alternates :: "os_env \<Rightarrow> workspace \<Rightarrow> string \<Rightarrow> string list \<Rightarrow> ws_error option" where
  "check_alternates env w objects [] = None"
| "check_alternates env w objects (v # vs) =
    (case os_eval env (git_path objects v) of
       None \<Rightarrow> Some (WsError InvalidConfig ''cannot resolve Git object alternate'')
     | Some real \<Rightarrow>
        if \<not> ws_contains env w real then Some (WsError OutsideWorkspace ''Git object alternate resolves outside the workspace'')
        else check_alternates env w objects vs)"

definition validate_git_alternates :: "os_env \<Rightarrow> workspace \<Rightarrow> string \<Rightarrow> ws_error option" where
  "validate_git_alternates env w objects =
    (case read_bounded env (go_join [objects, ''info'', ''alternates'']) (256 * 1024) of
       None \<Rightarrow> None
     | Some (Inl e) \<Rightarrow> Some (WsError InvalidConfig (''cannot read Git object alternates: '' @ e))
     | Some (Inr data) \<Rightarrow> check_alternates env w objects (alternate_lines data))"

definition go_dir :: "string \<Rightarrow> string" where
  "go_dir p = go_clean (join_elems (butlast (elems p) @ [[]]))"

text \<open>A linked worktree outside the workspace: its metadata must point back to the marker.\<close>

definition validate_linked_worktree :: "repo_env \<Rightarrow> string \<Rightarrow> string \<Rightarrow> string + string" where
  "validate_linked_worktree env marker git_dir =
    (let os = re_os env; expected = go_dir (go_dir git_dir) in
     if (case os_lstat os marker of StatOk (Regular _) \<Rightarrow> False | _ \<Rightarrow> True) then Inl ''invalid worktree marker''
     else if go_base (go_dir git_dir) \<noteq> ''worktrees'' then Inl ''invalid worktree metadata layout''
     else if os_stat os expected \<noteq> StatOk Directory then Inl ''invalid common directory''
     else (case read_bounded os (go_join [git_dir, ''gitdir'']) (8 * 1024) of
        Some (Inr data) \<Rightarrow>
          (let v = trim_space data; backlink = git_path git_dir v in
           if bad_git_path v then Inl ''invalid linked-worktree backlink''
           else (case os_stat os backlink of
              StatOk _ \<Rightarrow>
                if \<not> re_same env marker backlink then Inl ''linked-worktree backlink mismatch''
                else (case resolve_git_common_dir os git_dir of
                   Inl _ \<Rightarrow> Inl ''invalid linked-worktree common directory''
                 | Inr common \<Rightarrow>
                    if (case os_stat os common of StatOk _ \<Rightarrow> \<not> re_same env expected common | _ \<Rightarrow> True)
                    then Inl ''linked-worktree common directory mismatch''
                    else if os_lstat os (go_join [common, ''objects'']) \<noteq> StatOk Directory
                    then Inl ''invalid linked-worktree object directory''
                    else Inr common)
            | _ \<Rightarrow> Inl ''invalid linked-worktree backlink''))
      | _ \<Rightarrow> Inl ''invalid linked-worktree backlink''))"

text \<open>The directory that the marker \<open>.git\<close> names, where it exists.\<close>

definition marker_git_dir :: "repo_env \<Rightarrow> string \<Rightarrow> (ws_error + string) option" where
  "marker_git_dir env root =
    (let os = re_os env; marker = go_join [root, ''.git''] in
     case os_lstat os marker of
       StatMissing \<Rightarrow> None
     | StatFailed e \<Rightarrow> Some (Inl (OsError e))
     | StatOk Symlink \<Rightarrow> Some (Inl (WsError OutsideWorkspace (''Git metadata marker is a symbolic link: '' @ marker)))
     | StatOk Directory \<Rightarrow> Some (Inr marker)
     | StatOk OtherKind \<Rightarrow> Some (bad_config (''unsupported Git metadata marker: '' @ marker))
     | StatOk (Regular _) \<Rightarrow>
        Some (case read_bounded os marker (8 * 1024) of
          Some (Inr data) \<Rightarrow>
            (let line = trim_space data in
             if \<not> has_prefix (to_lower (re_low env) line) ''gitdir:'' then bad_config (''invalid Git metadata marker: '' @ marker)
             else let v = trim_space (drop (length ''gitdir:'') line) in
               if bad_git_path v then bad_config (''invalid Git metadata path in '' @ marker) else Inr (git_path root v))
        | _ \<Rightarrow> bad_config (''cannot read Git metadata marker '' @ marker)))"

definition repository_marker :: "repo_env \<Rightarrow> workspace \<Rightarrow> string \<Rightarrow> ws_error + bool" where
  "repository_marker env w root =
    (let os = re_os env;
         accept = (\<lambda>common. case validate_git_alternates os w (go_join [common, ''objects'']) of Some e \<Rightarrow> Inl e | None \<Rightarrow> Inr True)
     in case marker_git_dir env root of
       None \<Rightarrow> Inr False
     | Some (Inl e) \<Rightarrow> Inl e
     | Some (Inr git_dir) \<Rightarrow>
        (case os_eval os git_dir of
           None \<Rightarrow> bad_config (''cannot resolve Git metadata directory for '' @ root)
         | Some real \<Rightarrow>
            if os_stat os real \<noteq> StatOk Directory then bad_config (''Git metadata directory is not a directory for '' @ root)
            else if \<not> ws_contains os w real
            then (case validate_linked_worktree env (go_join [root, ''.git'']) real of
                    Inl _ \<Rightarrow> Inl (WsError OutsideWorkspace (''Git metadata for '' @ root @ '' resolves outside the workspace''))
                  | Inr common \<Rightarrow> accept common)
            else (case resolve_git_common_dir os real of
                    Inl e \<Rightarrow> Inl e
                  | Inr common \<Rightarrow>
                     if \<not> ws_contains os w common
                     then Inl (WsError OutsideWorkspace (''Git common directory for '' @ root @ '' resolves outside the workspace''))
                     else accept common)))"

section \<open>Discovery\<close>

definition new_repository :: "string \<Rightarrow> string \<Rightarrow> repository" where
  "new_repository root relative =
    (let r = go_clean relative in \<lparr>rp_path = (if r = [] then ''.'' else r), rp_name = go_base root, rp_root = go_clean root\<rparr>)"

text \<open>\<open>sort.Slice\<close> does not fix the order of equal keys; here they keep the order they had.\<close>

definition sort_repositories :: "(nat \<Rightarrow> nat) \<Rightarrow> repository list \<Rightarrow> repository list" where
  "sort_repositories low = sort_key (\<lambda>r. to_lower low (rp_path r))"

definition repository_missing :: "string \<Rightarrow> string \<Rightarrow> ws_error" where
  "repository_missing name why = WsError RepositoryMissing (name @ why)"

text \<open>The repositories of the configuration, in its order; \<open>seen\<close> holds the identities of their roots.\<close>

fun configured_loop :: "repo_env \<Rightarrow> workspace \<Rightarrow> string list \<Rightarrow> repository list \<Rightarrow> string list \<Rightarrow> ws_error + repository list" where
  "configured_loop env w seen acc [] = Inr acc"
| "configured_loop env w seen acc (c # cs) =
    (case ws_resolve (re_os env) w c False of
       Inl e \<Rightarrow> bad_config (''configured repository '' @ go_quote c @ '' is invalid: '' @ snd (error_text e))
     | Inr (absolute, relative) \<Rightarrow>
        if os_stat (re_os env) absolute \<noteq> StatOk Directory
        then Inl (repository_missing (''configured repository '' @ go_quote c) '' is not a directory'')
        else case repository_marker env w absolute of
          Inl e \<Rightarrow> Inl e
        | Inr False \<Rightarrow> Inl (repository_missing (''configured repository '' @ go_quote c) '' has no .git marker'')
        | Inr True \<Rightarrow>
           (let i = normalize_identity_path (re_os env) absolute in
            if i \<in> set seen then bad_config (''configured repositories resolve to the same directory: '' @ go_quote c)
            else configured_loop env w (i # seen) (acc @ [new_repository absolute relative]) cs))"

abbreviation (input) max_repositories :: nat where "max_repositories \<equiv> 128"

definition repo_child :: "string \<Rightarrow> string \<Rightarrow> string" where
  "repo_child dir name = (if dir \<noteq> [] \<and> dir \<noteq> ''.'' then trim_suffix dir ''/'' @ ''/'' @ name else name)"

definition skips_entry :: "policy \<Rightarrow> string \<Rightarrow> dir_entry \<Rightarrow> bool" where
  "skips_entry pol dir e \<longleftrightarrow>
    (let rel = repo_child dir (de_name e) in de_kind e \<noteq> Directory \<or> is_hidden pol rel \<or> is_hidden pol (rel @ ''/''))"

text \<open>The entries of one directory; \<open>descend\<close> walks a directory below it.\<close>

fun walk_repositories ::
  "repo_env \<Rightarrow> workspace \<Rightarrow> (string \<Rightarrow> string \<Rightarrow> repository list \<Rightarrow> ws_error + repository list) \<Rightarrow> string \<Rightarrow> string
     \<Rightarrow> dir_entry list \<Rightarrow> repository list \<Rightarrow> ws_error + repository list" where
  "walk_repositories env w descend dir rel [] acc = Inr acc"
| "walk_repositories env w descend dir rel (e # es) acc =
    (if skips_entry (ws_policy w) rel e then walk_repositories env w descend dir rel es acc
     else let below = go_join [dir, de_name e]; path = repo_child rel (de_name e) in
       case repository_marker env w below of
         Inl err \<Rightarrow> Inl err
       | Inr True \<Rightarrow>
          (let acc' = acc @ [new_repository below path] in
           if max_repositories < length acc'
           then Inl (WsError RepositoryLimit ''workspace contains more than 128 repositories; configure an explicit repositories allowlist'')
           else walk_repositories env w descend dir rel es acc')
       | Inr False \<Rightarrow>
          (case descend below path acc of
             Inl err \<Rightarrow> Inl err
           | Inr acc' \<Rightarrow> walk_repositories env w descend dir rel es acc'))"

text \<open>\<open>walk\<close> with the number of levels it may still enter.\<close>

primrec repo_walk :: "repo_env \<Rightarrow> workspace \<Rightarrow> nat \<Rightarrow> string \<Rightarrow> string \<Rightarrow> repository list \<Rightarrow> ws_error + repository list" where
  "repo_walk env w 0 dir rel acc = Inr acc"
| "repo_walk env w (Suc n) dir rel acc =
    (case os_readdir (re_os env) dir of
       None \<Rightarrow> Inr acc
     | Some es \<Rightarrow>
        walk_repositories env w (repo_walk env w n) dir rel (sort_key (\<lambda>e. to_lower (re_low env) (de_name e)) es) acc)"

definition repository_depth :: "workspace \<Rightarrow> nat" where
  "repository_depth w = nat (if pc_depth (ws_config w) \<le> 0 then 3 else pc_depth (ws_config w))"

definition discover_repositories :: "repo_env \<Rightarrow> workspace \<Rightarrow> ws_error + repository list" where
  "discover_repositories env w =
    (if pc_repositories (ws_config w) \<noteq> []
     then map_sum id (sort_repositories (re_low env)) (configured_loop env w [] [] (pc_repositories (ws_config w)))
     else case repository_marker env w (ws_root w) of
       Inl e \<Rightarrow> Inl e
     | Inr True \<Rightarrow> Inr [new_repository (ws_root w) ''.'']
     | Inr False \<Rightarrow> map_sum id (sort_repositories (re_low env)) (repo_walk env w (repository_depth w) (ws_root w) [] []))"

text \<open>\<open>Repositories\<close> discovers once and answers the same ever after.\<close>

definition ws_repositories ::
  "repo_env \<Rightarrow> workspace \<Rightarrow> (ws_error + repository list) option \<Rightarrow> (ws_error + repository list) \<times> (ws_error + repository list) option" where
  "ws_repositories env w once = (let r = (case once of Some r \<Rightarrow> r | None \<Rightarrow> discover_repositories env w) in (r, Some r))"

datatype topology_mode = TopologyDirectory | TopologySingle | TopologyGroup

definition topology_mode_of :: "repository list \<Rightarrow> topology_mode" where
  "topology_mode_of rs = (case rs of [] \<Rightarrow> TopologyDirectory | [_] \<Rightarrow> TopologySingle | _ \<Rightarrow> TopologyGroup)"

section \<open>Selection\<close>

definition normalize_selector :: "(nat \<Rightarrow> nat) \<Rightarrow> string \<Rightarrow> string" where
  "normalize_selector low s0 =
    (let s1 = trim_space (replace_char CHR 0x5C CHR ''/'' s0);
         s2 = (if has_prefix (to_lower low s1) ''workspace:'' then drop (length ''workspace:'') s1 else s1)
     in trim_suffix (trim_left_chars ''/'' s2) ''/'')"

definition equal_selector :: "(nat \<Rightarrow> nat) \<Rightarrow> string \<Rightarrow> string \<Rightarrow> bool" where
  "equal_selector fld s path \<longleftrightarrow> equal_fold fld (trim_suffix s ''/'') (trim_suffix path ''/'')"

definition path_list :: "repository list \<Rightarrow> string" where
  "path_list rs = join_with '', '' (map rp_path rs)"

definition resolve_repository :: "repo_env \<Rightarrow> repository list \<Rightarrow> string \<Rightarrow> ws_error + repository" where
  "resolve_repository env rs selector0 =
    (let selector = normalize_selector (re_low env) selector0 in
     if selector = []
     then (case rs of
             [] \<Rightarrow> Inl (WsError RepositoryMissing ''workspace does not contain a Git repository'')
           | [r] \<Rightarrow> Inr r
           | _ \<Rightarrow> Inl (WsError RepositoryNeeded (''repository is required for this workspace group; choose one of: '' @ path_list rs)))
     else case List.find (\<lambda>r. equal_selector (re_fold env) selector (rp_path r)) rs of
       Some r \<Rightarrow> Inr r
     | None \<Rightarrow>
        (case filter (\<lambda>r. equal_fold (re_fold env) selector (rp_name r)) rs of
           [r] \<Rightarrow> Inr r
         | [] \<Rightarrow> Inl (repository_missing (''repository '' @ go_quote selector) '' is not part of this workspace'')
         | ms \<Rightarrow> Inl (WsError RepositoryNeeded (''repository name '' @ go_quote selector @ '' is ambiguous; use one of: '' @ path_list ms))))"

text \<open>The path of a file of a repository, seen from the workspace.\<close>

definition workspace_path :: "repository \<Rightarrow> string \<Rightarrow> string" where
  "workspace_path r p0 =
    (let p = trim_prefix p0 ''./'' in
     if rp_path r = ''.'' then (if p = [] then ''.'' else p)
     else if p = [] \<or> p = ''.'' then rp_path r else trim_suffix (rp_path r) ''/'' @ ''/'' @ p)"

text \<open>What is left of a requested path inside a repository before links are resolved.\<close>

definition repository_request :: "repo_env \<Rightarrow> repository \<Rightarrow> string \<Rightarrow> string option" where
  "repository_request env r requested0 =
    (let v0 = trim_space (replace_char CHR 0x5C CHR ''/'' requested0) in
     if v0 = [] \<or> v0 = ''.'' then None
     else let v1 = (if has_prefix (to_lower (re_low env) v0) ''workspace:'' then drop (length ''workspace:'') v0 else v0);
              v2 = trim_left_chars ''/'' v1; prefix = trim_suffix (rp_path r) ''/'' @ ''/''
       in if rp_path r = ''.'' then Some v2
          else if equal_fold (re_fold env) v2 (rp_path r) then None
          else if length prefix \<le> length v2 \<and> equal_fold (re_fold env) (take (length prefix) v2) prefix then Some (drop (length prefix) v2)
          else Some v2)"

definition repository_relative_path :: "repo_env \<Rightarrow> workspace \<Rightarrow> repository \<Rightarrow> string \<Rightarrow> ws_error + string" where
  "repository_relative_path env w r requested0 =
    (case repository_request env r requested0 of
       None \<Rightarrow> Inr ''.''
     | Some requested \<Rightarrow>
        (case canonicalize_deepest (os_eval (re_os env)) (go_join [rp_root r, requested]) of
           None \<Rightarrow> Inl (WsError InvalidPath (''cannot canonicalize repository path: '' @ requested))
         | Some canonical \<Rightarrow>
            if \<not> ws_contains (re_os env) w canonical
            then Inl (WsError OutsideWorkspace (''path resolves outside the connected workspace: '' @ requested))
            else (case go_rel (rp_root r) canonical of
               None \<Rightarrow> Inl (WsError OutsideWorkspace (''path resolves outside repository '' @ rp_path r))
             | Some rel0 \<Rightarrow>
                if rel0 = dotdot \<or> has_prefix rel0 ''../'' \<or> rooted rel0
                then Inl (WsError OutsideWorkspace (''path resolves outside repository '' @ rp_path r))
                else let rel = (if rel0 = [] then ''.'' else rel0);
                         seen_path = (if rp_path r \<noteq> ''.'' \<and> rel \<noteq> ''.'' then trim_suffix (rp_path r) ''/'' @ ''/'' @ rel
                                      else if rp_path r \<noteq> ''.'' then rp_path r else rel)
                  in if seen_path \<noteq> ''.'' \<and> is_sensitive (ws_policy w) seen_path
                     then Inl (WsError SensitiveFile (CHR 0x27 # seen_path @ CHR 0x27 # '' is blocked by the sensitive-file policy''))
                     else Inr rel)))"

section \<open>Accepted metadata stays inside\<close>

lemma check_alternates_inside:
  "check_alternates env w objects vs = None \<Longrightarrow> v \<in> set vs \<Longrightarrow> \<exists>real. os_eval env (git_path objects v) = Some real \<and> ws_contains env w real"
  by (induction vs) (auto split: option.splits if_splits)

lemma validated_alternates:
  assumes "validate_git_alternates env w objects = None"
  shows "case read_bounded env (go_join [objects, ''info'', ''alternates'']) (256 * 1024) of
      None \<Rightarrow> True | Some (Inl e) \<Rightarrow> False
    | Some (Inr data) \<Rightarrow> list_all (\<lambda>v. \<exists>real. os_eval env (git_path objects v) = Some real \<and> ws_contains env w real) (alternate_lines data)"
  using assms check_alternates_inside by (fastforce simp: validate_git_alternates_def list_all_iff split: option.splits sum.splits)

lemma accepted_marker_cases:
  assumes "repository_marker env w root = Inr True"
  obtains git_dir real common where "marker_git_dir env root = Some (Inr git_dir)" "os_eval (re_os env) git_dir = Some real"
    "os_stat (re_os env) real = StatOk Directory" "validate_git_alternates (re_os env) w (go_join [common, ''objects'']) = None"
    "ws_contains (re_os env) w real \<and> resolve_git_common_dir (re_os env) real = Inr common \<and> ws_contains (re_os env) w common
     \<or> validate_linked_worktree env (go_join [root, ''.git'']) real = Inr common"
  using assms by (auto simp: repository_marker_def Let_def bad_config_def split: option.splits sum.splits if_splits)

text \<open>Metadata outside the workspace that belongs to the marker: its back link and its place agree.\<close>

definition points_back :: "repo_env \<Rightarrow> string \<Rightarrow> string \<Rightarrow> string \<Rightarrow> bool" where
  "points_back env marker real common \<longleftrightarrow>
    (case read_bounded (re_os env) (go_join [real, ''gitdir'']) (8 * 1024) of
       Some (Inr data) \<Rightarrow> re_same env marker (git_path real (trim_space data))
     | _ \<Rightarrow> False)
    \<and> go_base (go_dir real) = ''worktrees'' \<and> re_same env (go_dir (go_dir real)) common"

lemma linked_points_back:
  "validate_linked_worktree env marker real = Inr common \<Longrightarrow>
    points_back env marker real common \<and> resolve_git_common_dir (re_os env) real = Inr common"
  by (auto simp: validate_linked_worktree_def points_back_def Let_def split: stat_result.splits entry_kind.splits option.splits sum.splits if_splits)

text \<open>The common directory that a Git directory names, without the code's way to it.\<close>

definition names_common :: "os_env \<Rightarrow> string \<Rightarrow> string \<Rightarrow> bool" where
  "names_common env real common \<longleftrightarrow>
    (case read_bounded env (go_join [real, ''commondir'']) (8 * 1024) of
       None \<Rightarrow> common = real
     | Some (Inl e) \<Rightarrow> False
     | Some (Inr data) \<Rightarrow> \<exists>dir. os_eval env (git_path real (trim_space data)) = Some dir
         \<and> os_stat env dir = StatOk Directory \<and> common = go_clean dir)"

lemma resolved_common: "resolve_git_common_dir env real = Inr common \<Longrightarrow> names_common env real common"
  by (auto simp: resolve_git_common_dir_def names_common_def bad_config_def Let_def split: option.splits sum.splits if_splits)

text \<open>
  C20: What is accepted as a repository keeps its Git data inside.  Let the Git directory be the one that \<open>.git\<close>
  names, after symbolic links, and the common directory the one its file \<open>commondir\<close> names, or itself where it
  has none: both lie in the workspace, or the Git directory is that of a linked worktree of the common directory
  and its back link names this very marker; and every line of the alternates of the object store in the common
  directory resolves to a place in the workspace.
\<close>

theorem accepted_metadata_stays_inside:
  assumes "repository_marker env w root = Inr True"
  shows "\<exists>git_dir real common. marker_git_dir env root = Some (Inr git_dir) \<and> os_eval (re_os env) git_dir = Some real
    \<and> os_stat (re_os env) real = StatOk Directory \<and> names_common (re_os env) real common
    \<and> (ws_contains (re_os env) w real \<and> ws_contains (re_os env) w common \<or> points_back env (go_join [root, ''.git'']) real common)
    \<and> (case read_bounded (re_os env) (go_join [go_join [common, ''objects''], ''info'', ''alternates'']) (256 * 1024) of
         None \<Rightarrow> True | Some (Inl e) \<Rightarrow> False
       | Some (Inr data) \<Rightarrow> list_all (\<lambda>v. \<exists>p. os_eval (re_os env) (git_path (go_join [common, ''objects'']) v) = Some p
           \<and> ws_contains (re_os env) w p) (alternate_lines data))"
  by (rule accepted_marker_cases [OF assms]) (use validated_alternates linked_points_back resolved_common in blast)

section \<open>Discovery\<close>

lemma rooted_append [simp]: "rooted dir \<Longrightarrow> rooted (dir @ s)"
  by (auto simp: rooted_def split: list.splits)

lemma child_elems:
  assumes "rooted dir" and "normal_elem name"
  shows "path_elems (go_join [dir, name]) = path_elems dir @ [name]" and "rooted (go_join [dir, name])"
    and "go_clean (go_join [dir, name]) = go_join [dir, name]"
proof -
  have ne: "dir \<noteq> []" "name \<noteq> []" using assms by (auto simp: rooted_def normal_elem_def plain_elem_def)
  then have j: "go_join [dir, name] = go_clean (dir @ slash # name)" by (simp add: go_join_def)
  have out: "clean_elems True out (es @ [name]) = clean_elems True out es @ [name]" for out es
  proof (induction True out es rule: clean_elems.induct)
    case (1 out)
    then show ?case using clean_elems_fixed [of "[name]" True out] assms(2) by simp
  qed (auto split: list.splits)
  have "split_on slash name = [name]" using assms(2) by (auto intro: split_on_no_sep simp: normal_elem_def plain_elem_def)
  then show "path_elems (go_join [dir, name]) = path_elems dir @ [name]"
    using assms(1) out unfolding j by (simp add: path_elems_clean) (simp add: path_elems_def split_on_sep)
  show "rooted (go_join [dir, name])" "go_clean (go_join [dir, name]) = go_join [dir, name]"
    unfolding j using assms(1) by (simp_all add: rooted_clean go_clean_idem)
qed

text \<open>A directory of the workspace and its relative path, as the walk carries them.\<close>

definition walk_at :: "workspace \<Rightarrow> string \<Rightarrow> string \<Rightarrow> bool" where
  "walk_at w dir rel \<longleftrightarrow> rooted dir \<and> path_elems dir = path_elems (ws_root w) @ (if rel = [] then [] else elems rel)
    \<and> (rel = [] \<or> list_all normal_elem (elems rel))"

definition plain_names :: "os_env \<Rightarrow> bool" where
  "plain_names env \<longleftrightarrow> (\<forall>dir es e. os_readdir env dir = Some es \<longrightarrow> e \<in> set es \<longrightarrow> normal_elem (de_name e))"

text \<open>What is known of a repository of the workspace.\<close>

definition governed :: "repo_env \<Rightarrow> workspace \<Rightarrow> repository \<Rightarrow> bool" where
  "governed env w r \<longleftrightarrow> repository_marker env w (rp_root r) = Inr True \<and> go_clean (rp_root r) = rp_root r
    \<and> path_elems (rp_root r) = path_elems (ws_root w) @ (if rp_path r = ''.'' then [] else elems (rp_path r))
    \<and> (rp_path r = ''.'' \<or> list_all normal_elem (elems (rp_path r)) \<and> \<not> is_sensitive (ws_policy w) (rp_path r))"

lemma elems_child:
  assumes "rel = [] \<or> list_all normal_elem (elems rel)" and "normal_elem name"
  shows "elems (repo_child rel name) = (if rel = [] then [] else elems rel) @ [name]"
    and "list_all normal_elem (elems (repo_child rel name))" and "repo_child rel name \<noteq> []"
proof -
  have n: "elems name = [name]" using assms(2) by (auto intro: split_on_no_sep simp: normal_elem_def plain_elem_def)
  show e: "elems (repo_child rel name) = (if rel = [] then [] else elems rel) @ [name]"
  proof (cases "rel = []")
    case False
    then have plain: "list_all normal_elem (elems rel)" using assms(1) by simp
    then have "rel \<noteq> ''.''" by (auto simp: normal_elem_def plain_elem_def slash_def)
    moreover have "\<not> has_suffix rel ''/''"
    proof
      assume "has_suffix rel ''/''"
      then obtain t where "rel = t @ slash # []" by (auto simp: has_suffix_iff slash_def)
      then have "[] \<in> set (elems rel)" by (simp add: split_on_sep)
      then show False using plain by (auto simp: list_all_iff normal_elem_def plain_elem_def)
    qed
    ultimately show ?thesis using False n split_on_sep [of slash rel name]
      by (simp add: repo_child_def trim_suffix_def slash_def)
  qed (simp add: repo_child_def n)
  show "list_all normal_elem (elems (repo_child rel name))" unfolding e using assms by auto
  show "repo_child rel name \<noteq> []" using assms(2) by (auto simp: repo_child_def normal_elem_def plain_elem_def)
qed

lemma normal_rel_clean:
  assumes "list_all normal_elem (elems rel)"
  shows "go_clean rel = rel"
proof -
  have shape: "clean_elems (rooted rel) [] (elems rel) = elems rel" using clean_elems_fixed [OF assms] by simp
  have "\<not> rooted rel"
  proof
    assume "rooted rel"
    then obtain t where "rel = slash # t" by (cases rel) (auto simp: rooted_def)
    then show False using assms by (simp add: normal_elem_def plain_elem_def)
  qed
  then show ?thesis using shape join_split [of slash rel] by (simp add: go_clean_def)
qed

lemma new_repository_governed:
  assumes "repository_marker env w root = Inr True" and "go_clean root = root"
    and "path_elems root = path_elems (ws_root w) @ (if rel = ''.'' then [] else elems rel)"
    and "rel = ''.'' \<or> list_all normal_elem (elems rel) \<and> \<not> is_sensitive (ws_policy w) rel"
  shows "governed env w (new_repository root rel)"
proof -
  have "go_clean rel = rel" using assms(4) normal_rel_clean by (auto simp: go_clean_def rooted_def slash_def)
  moreover have "rel \<noteq> []" using assms(4) by (auto simp: normal_elem_def plain_elem_def)
  ultimately show ?thesis using assms by (simp add: governed_def new_repository_def Let_def)
qed

lemma walk_governed:
  assumes "walk_repositories env w descend dir rel es acc = Inr rs" and "walk_at w dir rel" and "\<forall>e \<in> set es. normal_elem (de_name e)"
    and "\<And>d p a b. descend d p a = Inr b \<Longrightarrow> walk_at w d p \<Longrightarrow> list_all (governed env w) a \<Longrightarrow> length a \<le> max_repositories \<Longrightarrow>
      list_all (governed env w) b \<and> length b \<le> max_repositories"
    and "list_all (governed env w) acc" and "length acc \<le> max_repositories"
  shows "list_all (governed env w) rs \<and> length rs \<le> max_repositories"
  using assms(1,3,5,6)
proof (induction es arbitrary: acc)
  case (Cons e es)
  let ?below = "go_join [dir, de_name e]" and ?path = "repo_child rel (de_name e)"
  have name: "normal_elem (de_name e)" using Cons.prems(2) by simp
  have "rooted dir" "rel = [] \<or> list_all normal_elem (elems rel)" using assms(2) by (simp_all add: walk_at_def)
  note child = child_elems [OF this(1) name] and rel = elems_child [OF this(2) name]
  have at: "walk_at w ?below ?path" using assms(2) child rel by (auto simp: walk_at_def)
  show ?case
  proof (cases "skips_entry (ws_policy w) rel e")
    case False
    then have shown: "\<not> is_sensitive (ws_policy w) ?path" by (simp add: skips_entry_def is_hidden_def Let_def)
    show ?thesis
    proof (cases "repository_marker env w ?below")
      case (Inr marked)
      show ?thesis
      proof (cases marked)
        case True
        have "?path \<noteq> ''.''" using rel assms(2) by (auto simp: walk_at_def normal_elem_def plain_elem_def slash_def)
        then have "governed env w (new_repository ?below ?path)"
          using at child rel assms(2) shown True Inr by (intro new_repository_governed) (auto simp: walk_at_def)
        then show ?thesis using Cons False Inr True by (simp add: Let_def split: if_splits)
      next
        case unmarked: False
        then obtain acc' where d: "descend ?below ?path acc = Inr acc'" "walk_repositories env w descend dir rel es acc' = Inr rs"
          using Cons.prems(1) False Inr by (auto simp: Let_def split: sum.splits)
        from assms(4) [OF d(1) at Cons.prems(3,4)] Cons.IH [OF d(2)] Cons.prems(2) show ?thesis by simp
      qed
    qed (use Cons.prems(1) False in \<open>simp add: Let_def\<close>)
  qed (use Cons in simp)
qed simp

lemma repo_walk_governed:
  assumes "plain_names (re_os env)"
  shows "repo_walk env w n dir rel acc = Inr rs \<Longrightarrow> walk_at w dir rel \<Longrightarrow> list_all (governed env w) acc \<Longrightarrow> length acc \<le> max_repositories \<Longrightarrow>
    list_all (governed env w) rs \<and> length rs \<le> max_repositories"
proof (induction n arbitrary: dir rel acc rs)
  case (Suc n)
  show ?case
  proof (cases "os_readdir (re_os env) dir")
    case None
    then show ?thesis using Suc.prems by simp
  next
    case (Some es)
    have "\<forall>e \<in> set (sort_key (\<lambda>e. to_lower (re_low env) (de_name e)) es). normal_elem (de_name e)"
      using assms Some by (auto simp: plain_names_def)
    from walk_governed [OF _ Suc.prems(2) this Suc.IH Suc.prems(3,4)] Suc.prems(1) Some show ?thesis by simp
  qed
qed auto

lemma configured_governed:
  assumes "\<not> os_folds (re_os env)" and "rooted (ws_root w)" and "\<forall>q r. rooted q \<and> os_eval (re_os env) q = Some r \<longrightarrow> rooted r"
  shows "configured_loop env w seen acc cs = Inr rs \<Longrightarrow> list_all (governed env w) acc \<Longrightarrow>
    list_all (governed env w) rs \<and> length rs = length acc + length cs"
proof (induction cs arbitrary: seen acc)
  case (Cons c cs)
  obtain absolute relative where r: "ws_resolve (re_os env) w c False = Inr (absolute, relative)"
      "repository_marker env w absolute = Inr True"
    and rest: "configured_loop env w (normalize_identity_path (re_os env) absolute # seen) (acc @ [new_repository absolute relative]) cs = Inr rs"
    using Cons.prems(1) by (auto simp: bad_config_def Let_def split: sum.splits prod.splits if_splits bool.splits)
  from resolved_inside [OF r(1) assms] have "governed env w (new_repository absolute relative)"
    by (intro new_repository_governed r(2)) auto
  with Cons.IH [OF rest] Cons.prems(2) show ?case by simp
qed simp

text \<open>
  C13: On a system that respects case, every repository of a workspace whose configuration was loaded is governed by
  it: its marker was accepted, its root is the root of the workspace followed by the ordinary names of its path, it
  is not a sensitive path, and there are at most 128, whether they are configured or found by the walk.
\<close>

theorem repositories_are_governed:
  assumes "discover_repositories env w = Inr rs" and "\<not> os_folds (re_os env)" and "rooted (ws_root w)" and "go_clean (ws_root w) = ws_root w"
    and "\<forall>q r. rooted q \<and> os_eval (re_os env) q = Some r \<longrightarrow> rooted r" and "plain_names (re_os env)"
    and "load_project_config loaded_env decode (ws_root w) = Inr (ws_config w)"
  shows "list_all (governed env w) rs \<and> length rs \<le> max_repositories"
proof (cases "pc_repositories (ws_config w) = []")
  case True
  have at: "walk_at w (ws_root w) []" using assms(3) by (simp add: walk_at_def)
  from assms(1) True consider "repository_marker env w (ws_root w) = Inr True" "rs = [new_repository (ws_root w) ''.'']"
    | ps where "repo_walk env w (repository_depth w) (ws_root w) [] [] = Inr ps" "rs = sort_repositories (re_low env) ps"
    by (auto simp: discover_repositories_def split: sum.splits bool.splits) (auto simp: map_sum_def split: sum.splits)
  then show ?thesis
  proof cases
    case 1
    then show ?thesis using assms(4) new_repository_governed [of env w "ws_root w" "''.''"] by simp
  next
    case 2
    from repo_walk_governed [OF assms(6) 2(1) at] 2(2) show ?thesis by (simp add: sort_repositories_def list_all_iff)
  qed
next
  case False
  then obtain ps where "configured_loop env w [] [] (pc_repositories (ws_config w)) = Inr ps" "rs = sort_repositories (re_low env) ps"
    using assms(1) by (cases "configured_loop env w [] [] (pc_repositories (ws_config w))") (auto simp: discover_repositories_def)
  moreover have "length (pc_repositories (ws_config w)) \<le> max_repositories"
    using loaded_config_limits [OF assms(7)] by (simp add: config_ok_def)
  ultimately show ?thesis using configured_governed [OF assms(2,3,5), of "[]" "[]"] by (simp add: sort_repositories_def list_all_iff)
qed

section \<open>Selection\<close>

text \<open>
  A repository is never chosen by guess: the answer is a repository of the workspace, and it is the only one
  there is, the one whose path the selector spells up to case, or the only one of the selected name.
\<close>

theorem selection_is_never_a_guess:
  assumes "resolve_repository env rs s = Inr r"
  shows "r \<in> set rs \<and> (rs = [r] \<or> equal_selector (re_fold env) (normalize_selector (re_low env) s) (rp_path r)
    \<or> filter (\<lambda>r. equal_fold (re_fold env) (normalize_selector (re_low env) s) (rp_name r)) rs = [r])"
proof -
  have single: "r \<in> set rs" if "filter P rs = [r]" for P
    using that by (metis filter_is_subset list.set_intros(1) subsetD)
  show ?thesis
    using assms single
    by (auto simp: resolve_repository_def Let_def find_Some_iff split: if_splits list.splits option.splits dest: nth_mem)
qed

text \<open>Two repositories whose paths differ in case only: the selector of the second yields the first.\<close>

theorem case_twins_are_confused:
  "resolve_repository \<lparr>re_os = open_env False, re_same = (\<lambda>_ _. True), re_fold = id\<rparr>
     [\<lparr>rp_path = ''App'', rp_name = ''App'', rp_root = ''/w/App''\<rparr>, \<lparr>rp_path = ''app'', rp_name = ''app'', rp_root = ''/w/app''\<rparr>] ''app''
    = Inr \<lparr>rp_path = ''App'', rp_name = ''App'', rp_root = ''/w/App''\<rparr>"
  by (simp add: resolve_repository_def normalize_selector_def equal_selector_def equal_fold_def trim_suffix_def has_suffix_def
      replace_char_def has_prefix_def path_eval)

section \<open>Paths in a repository\<close>

lemma workspace_path_normal:
  assumes "rel = ''.'' \<or> list_all normal_elem (elems rel)"
  shows "workspace_path r rel = (if rp_path r \<noteq> ''.'' \<and> rel \<noteq> ''.'' then trim_suffix (rp_path r) ''/'' @ ''/'' @ rel
    else if rp_path r \<noteq> ''.'' then rp_path r else rel)"
proof -
  have "rel \<noteq> []" "trim_prefix rel ''./'' = rel"
  proof -
    show "rel \<noteq> []" using assms by (auto simp: normal_elem_def plain_elem_def)
    have "\<not> has_prefix rel ''./''"
    proof
      assume "has_prefix rel ''./''"
      then obtain t where "rel = ''.'' @ slash # t" by (auto simp: has_prefix_iff slash_def)
      then show False using assms split_on_sep [of slash "''.''" t] by (auto simp: normal_elem_def plain_elem_def slash_def)
    qed
    then show "trim_prefix rel ''./'' = rel" by (simp add: trim_prefix_def)
  qed
  then show ?thesis by (auto simp: workspace_path_def Let_def)
qed

text \<open>
  C14: A path that a caller names in a repository stays in it: it consists of ordinary names below the root of
  the repository after links are resolved, and the workspace does not hold it for sensitive.
\<close>

theorem repository_paths_stay_inside:
  assumes "repository_relative_path env w r requested = Inr rel" and "governed env w r" and "rooted (rp_root r)"
    and "\<forall>q p. rooted q \<and> os_eval (re_os env) q = Some p \<longrightarrow> rooted p"
  shows "(rel = ''.'' \<or> list_all normal_elem (elems rel))
    \<and> (workspace_path r rel = ''.'' \<or> \<not> is_sensitive (ws_policy w) (workspace_path r rel))
    \<and> (rel = ''.'' \<or> (\<exists>p q. canonicalize_deepest (os_eval (re_os env)) (go_join [rp_root r, q]) = Some p
          \<and> ws_contains (re_os env) w p \<and> path_elems p = path_elems (rp_root r) @ elems rel))"
proof (cases "repository_request env r requested")
  case None
  then show ?thesis using assms(1,2) workspace_path_normal [of "''.''" r] by (auto simp: repository_relative_path_def governed_def)
next
  case (Some q)
  obtain p rel0 where c: "canonicalize_deepest (os_eval (re_os env)) (go_join [rp_root r, q]) = Some p" "ws_contains (re_os env) w p"
      "go_rel (rp_root r) p = Some rel0" "rel0 \<noteq> dotdot" "\<not> has_prefix rel0 ''../''" "rel = (if rel0 = [] then ''.'' else rel0)"
      "let s = (if rp_path r \<noteq> ''.'' \<and> rel \<noteq> ''.'' then trim_suffix (rp_path r) ''/'' @ ''/'' @ rel
                else if rp_path r \<noteq> ''.'' then rp_path r else rel) in s = ''.'' \<or> \<not> is_sensitive (ws_policy w) s"
    using assms(1) Some unfolding repository_relative_path_def Let_def by (auto split: if_splits option.splits)
  have "rooted p" using c(1) assms(4) canonicalize_rooted [of "os_eval (re_os env)"] unfolding canonicalize_deepest_def by blast
  from rel_inside [OF c(3) assms(3) this c(4,5)] have "path_elems p = path_elems (rp_root r) @ (if rel0 = ''.'' then [] else elems rel0)"
      "rel0 = ''.'' \<or> list_all normal_elem (elems rel0)" by blast+
  moreover from this(2) have "rel0 \<noteq> []" by (auto simp: normal_elem_def plain_elem_def)
  ultimately show ?thesis using c workspace_path_normal [of rel r] by (auto simp: Let_def)
qed

section \<open>An example\<close>

text \<open>A workspace \<open>/w\<close> with one repository \<open>/w/api\<close>.\<close>

definition tree_env :: repo_env where
  "tree_env = \<lparr>re_os = (open_env False)\<lparr>
      os_lstat := (\<lambda>p. if p = ''/w/api/.git'' then StatOk Directory else StatMissing),
      os_stat := (\<lambda>p. if p = ''/w/api/.git'' then StatOk Directory else StatMissing),
      os_readdir := (\<lambda>p. if p = ''/w'' then Some [\<lparr>de_name = ''api'', de_kind = Directory, de_info = True\<rparr>] else None)\<rparr>,
    re_same = (\<lambda>_ _. False), re_fold = id\<rparr>"

lemmas repo_eval = tree_env_def repository_marker_def marker_git_dir_def read_bounded_def resolve_git_common_dir_def
  validate_git_alternates_def new_repository_def go_base_def has_prefix_def path_eval

definition api_repository :: repository where
  "api_repository = \<lparr>rp_path = ''api'', rp_name = ''api'', rp_root = ''/w/api''\<rparr>"

lemma api_marker: "repository_marker tree_env (plain_workspace ''/w'') ''/w/api'' = Inr True"
    "repository_marker tree_env (plain_workspace ''/w'') ''/w'' = Inr False"
  by (simp_all add: repo_eval)

lemma api_found: "discover_repositories tree_env (plain_workspace ''/w'') = Inr [api_repository]"
proof -
  have below: "go_join [''/w'', ''api''] = ''/w/api''" "new_repository ''/w/api'' ''api'' = api_repository"
    by (simp_all add: path_eval new_repository_def go_base_def api_repository_def)
  have root: "ws_root (plain_workspace ''/w'') = ''/w''" "pc_repositories (ws_config (plain_workspace ''/w'')) = []"
      "repository_depth (plain_workspace ''/w'') = 3"
    by (simp_all add: plain_workspace_def default_config_def empty_config_def repository_depth_def)
  have seen: "\<not> skips_entry (ws_policy (plain_workspace ''/w'')) [] \<lparr>de_name = ''api'', de_kind = Directory, de_info = True\<rparr>"
    by (simp add: skips_entry_def repo_child_def is_hidden_def is_noise_def path_eval)
  have "os_readdir (re_os tree_env) ''/w'' = Some [\<lparr>de_name = ''api'', de_kind = Directory, de_info = True\<rparr>]" by (simp add: tree_env_def)
  then show ?thesis
    using seen api_marker below by (simp add: discover_repositories_def root numeral_3_eq_3 repo_child_def sort_repositories_def)
qed

theorem accepted_metadata_stays_inside_witness:
  "\<exists>git_dir real common. marker_git_dir tree_env ''/w/api'' = Some (Inr git_dir) \<and> names_common (re_os tree_env) real common
    \<and> (ws_contains (re_os tree_env) (plain_workspace ''/w'') real \<and> ws_contains (re_os tree_env) (plain_workspace ''/w'') common
       \<or> points_back tree_env (go_join [''/w/api'', ''.git'']) real common)"
  using accepted_metadata_stays_inside [OF api_marker(1)] by blast

lemma tree_plain: "plain_names (re_os tree_env)" "\<not> os_folds (re_os tree_env)" "rooted (ws_root (plain_workspace ''/w''))"
    "go_clean (ws_root (plain_workspace ''/w'')) = ws_root (plain_workspace ''/w'')"
    "\<forall>q r. rooted q \<and> os_eval (re_os tree_env) q = Some r \<longrightarrow> rooted r"
  by (auto simp: plain_names_def normal_elem_def plain_elem_def tree_env_def path_eval split: if_splits)

lemma tree_config: "load_project_config (re_os tree_env) (\<lambda>_ _. Inl []) (ws_root (plain_workspace ''/w'')) = Inr (ws_config (plain_workspace ''/w''))"
  by (simp add: load_project_config_def config_source_def read_bounded_def tree_env_def path_eval)

theorem repositories_are_governed_witness:
  "discover_repositories tree_env (plain_workspace ''/w'') = Inr [api_repository]
    \<and> governed tree_env (plain_workspace ''/w'') api_repository"
  using repositories_are_governed [OF api_found tree_plain(2-5,1) tree_config] api_found by simp

theorem selection_is_never_a_guess_witness:
  "resolve_repository tree_env [api_repository] [] = Inr api_repository \<and> api_repository \<in> set [api_repository]"
proof -
  have "resolve_repository tree_env [api_repository] [] = Inr api_repository"
    by (simp add: resolve_repository_def normalize_selector_def replace_char_def trim_suffix_def has_suffix_def has_prefix_def trim_space_def path_eval)
  from selection_is_never_a_guess [OF this] this show ?thesis by blast
qed

lemma api_governed: "governed tree_env (plain_workspace ''/w'') api_repository"
proof -
  have "api_repository = new_repository ''/w/api'' ''api''" by (simp add: path_eval new_repository_def go_base_def api_repository_def)
  moreover have "governed tree_env (plain_workspace ''/w'') (new_repository ''/w/api'' ''api'')"
    by (rule new_repository_governed [OF api_marker(1)]) (simp_all add: normal_elem_def plain_elem_def path_eval)
  ultimately show ?thesis by simp
qed

theorem repository_paths_stay_inside_witness:
  "repository_relative_path tree_env (plain_workspace ''/w'') api_repository ''/api/src/a.go'' = Inr ''src/a.go''
    \<and> \<not> is_sensitive (ws_policy (plain_workspace ''/w'')) (workspace_path api_repository ''src/a.go'')"
proof -
  have r: "repository_relative_path tree_env (plain_workspace ''/w'') api_repository ''/api/src/a.go'' = Inr ''src/a.go''"
    by (simp add: repository_relative_path_def repository_request_def api_repository_def trim_suffix_def has_suffix_def replace_char_def equal_fold_def repo_eval)
  have "workspace_path api_repository ''src/a.go'' \<noteq> ''.''"
    by (simp add: workspace_path_def api_repository_def trim_suffix_def trim_prefix_def has_suffix_def has_prefix_def)
  moreover have "rooted (rp_root api_repository)" by (simp add: api_repository_def path_eval)
  ultimately show ?thesis using repository_paths_stay_inside [OF r api_governed _ tree_plain(5)] r by blast
qed

end
