(* ===== verification/Git.thy ===== *)
theory Git
  imports Repositories
begin

text \<open>
  \<open>internal/workspace/git.go\<close>: how Git is run, what status and diff say, and what they keep back.  Running a
  process is a parameter: \<open>ge_run\<close> answers an environment, a directory and arguments with the writes to the
  two outputs and the way the process ended; \<open>gr_ctx\<close> is the error of the caller's context at that point.
\<close>

datatype git_end = GitDone | GitExit nat | GitTimeout | GitLost string

record git_run =
  gr_out :: "string list"
  gr_err :: "string list"
  gr_end :: git_end
  gr_ctx :: "string option"

record git_env =
  ge_repo :: repo_env
  ge_upper :: "nat \<Rightarrow> nat"
  ge_environ :: "string list"
  ge_run :: "string list \<Rightarrow> string \<Rightarrow> string list \<Rightarrow> git_run"

abbreviation ge_low :: "git_env \<Rightarrow> nat \<Rightarrow> nat" where
  "ge_low env \<equiv> re_low (ge_repo env)"

text \<open>An operation fails with an error of the package, or its handler panics.\<close>

datatype git_error = GitErr ws_error | GitPanic

abbreviation git_failed :: "string \<Rightarrow> git_error + 'a" where
  "git_failed text \<equiv> Inl (GitErr (OsError text))"

section \<open>Running Git\<close>

definition dev_null :: string where "dev_null = ''/dev/null''"

definition git_config_overrides :: "string list" where
  "git_config_overrides =
    [''-c'', ''core.fsmonitor=false'', ''-c'', ''core.hooksPath='' @ dev_null, ''-c'', ''core.attributesFile='' @ dev_null,
     ''-c'', ''core.excludesFile='' @ dev_null, ''-c'', ''maintenance.auto=false'', ''-c'', ''gc.auto=0'', ''-c'', ''submodule.recurse=false'']"

definition kept_entry :: "(nat \<Rightarrow> nat) \<Rightarrow> string \<Rightarrow> bool" where
  "kept_entry up entry \<longleftrightarrow>
    (let name = to_upper up (takeWhile (\<lambda>c. c \<noteq> CHR ''='') entry)
     in CHR ''='' \<in> set entry \<and> \<not> has_prefix name ''GIT_'' \<and> name \<noteq> ''LC_ALL'' \<and> name \<noteq> ''PAGER'')"

definition fixed_environment :: "string list" where
  "fixed_environment =
    [''GIT_TERMINAL_PROMPT=0'', ''GIT_OPTIONAL_LOCKS=0'', ''GIT_PAGER=cat'', ''GIT_CONFIG_NOSYSTEM=1'', ''GIT_CONFIG_GLOBAL='' @ dev_null,
     ''GIT_CONFIG_SYSTEM='' @ dev_null, ''GIT_ATTR_NOSYSTEM=1'', ''GIT_NO_LAZY_FETCH=1'', ''PAGER=cat'', ''LC_ALL=C'']"

definition safe_git_environment :: "git_env \<Rightarrow> string list" where
  "safe_git_environment env = filter (kept_entry (ge_upper env)) (ge_environ env) @ fixed_environment"

definition end_text :: "git_end \<Rightarrow> string" where
  "end_text e = (case e of GitExit n \<Rightarrow> ''exit status '' @ digits n | GitLost t \<Rightarrow> t | GitDone \<Rightarrow> [] | GitTimeout \<Rightarrow> ''signal: killed'')"

definition run_message :: "string \<Rightarrow> git_end \<Rightarrow> string" where
  "run_message err e = (let m = trim_space err in if m = [] then end_text e else m)"

definition run_git_with_overrides :: "git_env \<Rightarrow> string \<Rightarrow> string list \<Rightarrow> string list \<Rightarrow> git_error + string" where
  "run_git_with_overrides env root overrides args =
    (let r = ge_run env (safe_git_environment env) root (overrides @ args) in
     case gr_end r of
       GitDone \<Rightarrow> Inr (concat (gr_out r))
     | GitTimeout \<Rightarrow> git_failed ''git command timed out''
     | e \<Rightarrow> git_failed (''git '' @ join_with '' '' args @ '' failed: '' @ run_message (concat (gr_err r)) e))"

section \<open>Filters\<close>

fun last_index :: "char \<Rightarrow> string \<Rightarrow> nat option" where
  "last_index c [] = None"
| "last_index c (d # s) = (case last_index c s of Some i \<Rightarrow> Some (Suc i) | None \<Rightarrow> if c = d then Some 0 else None)"

definition config_char :: "nat \<Rightarrow> bool" where
  "config_char r \<longleftrightarrow> 97 \<le> r \<and> r \<le> 122 \<or> 65 \<le> r \<and> r \<le> 90 \<or> 48 \<le> r \<and> r \<le> 57 \<or> r = byte CHR ''.'' \<or> r = byte CHR ''_'' \<or> r = byte CHR ''-''"

definition safe_git_config_subsection :: "string \<Rightarrow> bool" where
  "safe_git_config_subsection v \<longleftrightarrow> v \<noteq> [] \<and> length v \<le> 128 \<and> list_all config_char (runes v)"

text \<open>
  The driver of one configuration key, \<open>None\<close> for a key of another kind.  The position of the last dot is that
  of the lower-case text, which may be longer than the key: then the slice panics.
\<close>

definition filter_driver :: "(nat \<Rightarrow> nat) \<Rightarrow> string \<Rightarrow> git_error + string option" where
  "filter_driver low key =
    (let lower = to_lower low key in
     if \<not> has_prefix lower ''filter.'' then Inr None
     else case last_index CHR ''.'' lower of
       None \<Rightarrow> git_failed (''unsafe Git filter configuration key '' @ go_quote key)
     | Some last_dot \<Rightarrow>
        if last_dot \<le> length ''filter.'' then git_failed (''unsafe Git filter configuration key '' @ go_quote key)
        else if drop (Suc last_dot) lower \<notin> {''clean'', ''smudge'', ''process'', ''required''} then Inr None
        else if length key < last_dot then Inl GitPanic
        else let driver = drop (length ''filter.'') (take last_dot key)
          in if safe_git_config_subsection driver then Inr (Some driver)
             else git_failed (''unsafe Git filter driver name '' @ go_quote driver))"

fun filter_drivers :: "(nat \<Rightarrow> nat) \<Rightarrow> string list \<Rightarrow> string list \<Rightarrow> git_error + string list" where
  "filter_drivers low drivers [] = Inr drivers"
| "filter_drivers low drivers (raw # rest) =
    (let key = trim_space raw in
     if key = [] then filter_drivers low drivers rest
     else case filter_driver low key of
       Inl e \<Rightarrow> Inl e
     | Inr None \<Rightarrow> filter_drivers low drivers rest
     | Inr (Some d) \<Rightarrow> filter_drivers low (List.insert d drivers) rest)"

definition driver_overrides :: "string \<Rightarrow> string list" where
  "driver_overrides d =
    [''-c'', ''filter.'' @ d @ ''.clean='', ''-c'', ''filter.'' @ d @ ''.smudge='', ''-c'', ''filter.'' @ d @ ''.process='',
     ''-c'', ''filter.'' @ d @ ''.required=false'']"

definition filter_query :: "string list" where
  "filter_query = git_config_overrides
    @ [''config'', ''--local'', ''--null'', ''--name-only'', ''--get-regexp'', ''^filter'' @ [CHR 0x5C] @ ''..*'' @ [CHR 0x5C] @ ''.(clean|smudge|process|required)$'']"

definition discover_filter_overrides :: "git_env \<Rightarrow> string \<Rightarrow> git_error + string list" where
  "discover_filter_overrides env root =
    (let r = ge_run env (safe_git_environment env) root filter_query in
     case gr_end r of
       GitDone \<Rightarrow> map_sum id (\<lambda>ds. concat (map driver_overrides (sort ds))) (filter_drivers (ge_low env) [] (split_on CHR 0x00 (concat (gr_out r))))
     | GitExit n \<Rightarrow>
        if n = 1 then Inr []
        else git_failed (''cannot inspect Git filter configuration: '' @ run_message (concat (gr_err r)) (GitExit n))
     | GitTimeout \<Rightarrow> git_failed ''Git filter inspection timed out''
     | e \<Rightarrow> git_failed (''cannot inspect Git filter configuration: '' @ run_message (concat (gr_err r)) e))"

definition needs_filters :: "string list \<Rightarrow> bool" where
  "needs_filters args \<longleftrightarrow> (case args of a # _ \<Rightarrow> a = ''status'' \<or> a = ''diff'' | [] \<Rightarrow> False)"

definition run_git :: "git_env \<Rightarrow> string \<Rightarrow> string list \<Rightarrow> git_error + string" where
  "run_git env root args =
    (if needs_filters args
     then (case discover_filter_overrides env root of
             Inl e \<Rightarrow> Inl e
           | Inr fs \<Rightarrow> run_git_with_overrides env root (git_config_overrides @ fs) args)
     else run_git_with_overrides env root git_config_overrides args)"

section \<open>The repository\<close>

text \<open>\<open>known\<close> is what \<open>Repositories\<close> answers.\<close>

definition select_git_repository :: "git_env \<Rightarrow> workspace \<Rightarrow> ws_error + repository list \<Rightarrow> string \<Rightarrow> ws_error + repository option" where
  "select_git_repository env w known selector =
    (case known of
       Inl e \<Rightarrow> Inl e
     | Inr rs \<Rightarrow>
        if rs = []
        then (if trim_space selector \<noteq> [] then Inl (repository_missing (''repository '' @ go_quote selector) '' is not part of this workspace'')
              else Inr None)
        else case resolve_repository (ge_repo env) rs selector of
          Inl e \<Rightarrow> Inl e
        | Inr r \<Rightarrow>
           (case repository_marker (ge_repo env) w (rp_root r) of
              Inl e \<Rightarrow> Inl e
            | Inr False \<Rightarrow> Inl (repository_missing (''repository '' @ go_quote (rp_path r)) '' has no .git marker'')
            | Inr True \<Rightarrow> Inr (Some r)))"

definition wrap_repository_error :: "repository \<Rightarrow> git_error \<Rightarrow> git_error" where
  "wrap_repository_error r e = (case e of GitErr (OsError t) \<Rightarrow> GitErr (OsError (''repository '' @ rp_path r @ '': '' @ t)) | _ \<Rightarrow> e)"

record git_info =
  gi_repository :: string
  gi_is_repo :: bool
  gi_branch :: "string option"
  gi_commit :: "string option"
  gi_dirty :: bool

definition trimmed_output :: "git_error + string \<Rightarrow> string option" where
  "trimmed_output r = (case r of Inr out \<Rightarrow> let v = trim_space out in if v = [] then None else Some v | Inl _ \<Rightarrow> None)"

definition status_args :: "string \<Rightarrow> string list" where
  "status_args format = [''status'', format] @ (if format = ''--porcelain=v1'' then [''-z''] else [])
    @ [''--untracked-files=normal'', ''--ignore-submodules=all'', ''--'', ''.'']"

definition git_info_for :: "git_env \<Rightarrow> repository \<Rightarrow> git_error + git_info" where
  "git_info_for env r =
    (let run = run_git env (rp_root r); none = \<lparr>gi_repository = rp_path r, gi_is_repo = False, gi_branch = None, gi_commit = None, gi_dirty = False\<rparr>
     in if trimmed_output (run [''rev-parse'', ''--is-inside-work-tree'']) \<noteq> Some ''true'' then Inr none
        else let info = none\<lparr>gi_is_repo := True, gi_branch := trimmed_output (run [''symbolic-ref'', ''--quiet'', ''--short'', ''HEAD'']),
                   gi_commit := trimmed_output (run [''rev-parse'', ''--short'', ''HEAD''])\<rparr>
          in case run (status_args ''--porcelain'') of
               Inl GitPanic \<Rightarrow> Inl GitPanic
             | status \<Rightarrow> Inr (info\<lparr>gi_dirty := trimmed_output status \<noteq> None\<rparr>))"

definition git_info_by :: "git_env \<Rightarrow> workspace \<Rightarrow> ws_error + repository list \<Rightarrow> string \<Rightarrow> git_error + git_info" where
  "git_info_by env w known selector =
    (case select_git_repository env w known selector of
       Inl e \<Rightarrow> Inl (GitErr e)
     | Inr None \<Rightarrow> Inr \<lparr>gi_repository = [], gi_is_repo = False, gi_branch = None, gi_commit = None, gi_dirty = False\<rparr>
     | Inr (Some r) \<Rightarrow> git_info_for env r)"

section \<open>Status\<close>

record git_change =
  gc_path :: string
  gc_change :: string

record git_status =
  gs_repository :: string
  gs_is_repo :: bool
  gs_branch :: "string option"
  gs_upstream :: "string option"
  gs_ahead :: int
  gs_behind :: int
  gs_staged :: "git_change list"
  gs_unstaged :: "git_change list"
  gs_untracked :: "string list"
  gs_conflicted :: "string list"
  gs_redacted :: nat

definition empty_status :: git_status where
  "empty_status = \<lparr>gs_repository = [], gs_is_repo = False, gs_branch = None, gs_upstream = None, gs_ahead = 0, gs_behind = 0,
     gs_staged = [], gs_unstaged = [], gs_untracked = [], gs_conflicted = [], gs_redacted = 0\<rparr>"

definition split_nul :: "string \<Rightarrow> string list" where
  "split_nul data = filter (\<lambda>p. p \<noteq> []) (split_on CHR 0x00 data)"

definition conflict_codes :: "string list" where
  "conflict_codes = [''DD'', ''AU'', ''UD'', ''UA'', ''DU'', ''AA'', ''UU'']"

text \<open>One record of the status: its state, the path to show, and whether it is kept back.\<close>

definition status_entry :: "string \<Rightarrow> string \<Rightarrow> string \<Rightarrow> bool \<Rightarrow> git_status \<Rightarrow> git_status" where
  "status_entry xy path shown sensitive st =
    (if sensitive then st\<lparr>gs_redacted := Suc (gs_redacted st)\<rparr>
     else if xy = ''??'' then st\<lparr>gs_untracked := gs_untracked st @ [path]\<rparr>
     else if xy = ''!!'' then st
     else if xy \<in> set conflict_codes then st\<lparr>gs_conflicted := gs_conflicted st @ [shown]\<rparr>
     else let change = (\<lambda>c. \<lparr>gc_path = shown, gc_change = encode_rune (byte c)\<rparr>);
              st1 = (if xy ! 0 \<noteq> CHR '' '' then st\<lparr>gs_staged := gs_staged st @ [change (xy ! 0)]\<rparr> else st)
       in if xy ! 1 \<noteq> CHR '' '' then st1\<lparr>gs_unstaged := gs_unstaged st1 @ [change (xy ! 1)]\<rparr> else st1)"

function status_loop :: "(string \<Rightarrow> bool) \<Rightarrow> string list \<Rightarrow> git_status \<Rightarrow> git_status" where
  "status_loop sensitive [] st = st"
| "status_loop sensitive (record # rest) st =
    (if length record < 3 then status_loop sensitive rest st
     else let xy = take 2 record; path = drop 3 record in
       if (xy ! 0 = CHR ''R'' \<or> xy ! 0 = CHR ''C'') \<and> rest \<noteq> []
       then status_loop sensitive (tl rest)
              (status_entry xy path (hd rest @ '' -> '' @ path) (sensitive path \<or> sensitive (hd rest)) st)
       else status_loop sensitive rest (status_entry xy path path (sensitive path) st))"
  by pat_completeness auto

termination
  by (relation "measure (\<lambda>(_, rs, _). length rs)") auto

text \<open>\<open>strconv.Atoi\<close>, with the value it has next to an error.\<close>

definition go_atoi :: "string \<Rightarrow> int" where
  "go_atoi s =
    (let neg = has_prefix s ''-''; ds = (if neg \<or> has_prefix s ''+'' then tl s else s);
         n = foldl (\<lambda>n c. n * 10 + int (byte c) - 48) 0 ds
     in if ds = [] \<or> \<not> list_all (in_range 48 57) ds then 0
        else if neg then max (- (2 ^ 63)) (- n) else min (2 ^ 63 - 1) n)"

definition hidden_path :: "workspace \<Rightarrow> repository \<Rightarrow> string \<Rightarrow> bool" where
  "hidden_path w r p \<longleftrightarrow> is_sensitive (ws_policy w) (workspace_path r p)"

definition with_upstream :: "git_env \<Rightarrow> repository \<Rightarrow> git_status \<Rightarrow> git_status" where
  "with_upstream env r st =
    (case trimmed_output (run_git env (rp_root r) [''rev-parse'', ''--abbrev-ref'', ''--symbolic-full-name'', ''@'' @ ''{upstream}'']) of
       None \<Rightarrow> st
     | Some up \<Rightarrow>
        (let st1 = st\<lparr>gs_upstream := Some up\<rparr> in
         case run_git env (rp_root r) [''rev-list'', ''--left-right'', ''--count'', ''HEAD...@'' @ ''{upstream}''] of
           Inl _ \<Rightarrow> st1
         | Inr counts \<Rightarrow>
            (case str_fields counts of
               [a, b] \<Rightarrow> st1\<lparr>gs_ahead := go_atoi a, gs_behind := go_atoi b\<rparr>
             | _ \<Rightarrow> st1)))"

definition git_status_for :: "git_env \<Rightarrow> workspace \<Rightarrow> ws_error + repository list \<Rightarrow> string \<Rightarrow> git_error + git_status" where
  "git_status_for env w known selector =
    (case select_git_repository env w known selector of
       Inl e \<Rightarrow> Inl (GitErr e)
     | Inr None \<Rightarrow> Inr empty_status
     | Inr (Some r) \<Rightarrow>
        (case git_info_for env r of
           Inl e \<Rightarrow> Inl e
         | Inr info \<Rightarrow>
            (let st = empty_status\<lparr>gs_repository := rp_path r, gs_is_repo := gi_is_repo info, gs_branch := gi_branch info\<rparr> in
             if \<not> gi_is_repo info then Inr st
             else case run_git env (rp_root r) (status_args ''--porcelain=v1'') of
               Inl e \<Rightarrow> Inl (wrap_repository_error r e)
             | Inr out \<Rightarrow> Inr (status_loop (hidden_path w r) (split_nul out) (with_upstream env r st)))))"

end
