(* ===== verification/GitDiff.thy ===== *)
theory GitDiff
  imports Git
begin

text \<open>
  \<open>GitDiff\<close> of \<open>internal/workspace/git.go\<close>: an inventory of the changed files decides which paths Git is
  asked for; their diffs are fetched in batches and handed out in pages.
\<close>

section \<open>The inventory\<close>

record diff_options =
  di_repository :: string
  di_mode :: string
  di_path :: string
  di_offset :: int
  di_max_bytes :: int

definition diff_mode_args :: "string \<Rightarrow> (string list) option" where
  "diff_mode_args mode =
    (if mode = [] \<or> mode = ''unstaged'' then Some []
     else if mode = ''staged'' then Some [''--cached'']
     else if mode = ''head'' then Some [''HEAD'']
     else None)"

definition in_scope :: "string \<Rightarrow> string \<Rightarrow> bool" where
  "in_scope path scope \<longleftrightarrow> scope = [] \<or> scope = ''.'' \<or> path = scope \<or> has_prefix path (trim_suffix scope ''/'' @ ''/'')"

definition add_path :: "string \<Rightarrow> string list \<Rightarrow> string list" where
  "add_path p ps = (if p \<in> set ps then ps else ps @ [p])"

text \<open>The paths to ask for, and how many files are kept back.\<close>

function inventory_loop :: "(string \<Rightarrow> bool) \<Rightarrow> string \<Rightarrow> string list \<Rightarrow> string list \<times> nat \<Rightarrow> string list \<times> nat" where
  "inventory_loop sensitive scope [] (paths, redacted) = (paths, redacted)"
| "inventory_loop sensitive scope (status # rest) (paths, redacted) =
    (if status = [] then inventory_loop sensitive scope rest (paths, redacted)
     else if has_prefix status ''R'' \<or> has_prefix status ''C'' then
       (case rest of
          old # new # rest' \<Rightarrow>
            inventory_loop sensitive scope rest'
              (if sensitive old \<or> sensitive new then (paths, Suc redacted)
               else if \<not> in_scope old scope \<and> \<not> in_scope new scope then (paths, redacted)
               else (add_path new (add_path old paths), redacted))
        | _ \<Rightarrow> (paths, redacted))
     else (case rest of
          path # rest' \<Rightarrow>
            inventory_loop sensitive scope rest'
              (if sensitive path then (paths, Suc redacted)
               else if in_scope path scope then (add_path path paths, redacted)
               else (paths, redacted))
        | [] \<Rightarrow> (paths, redacted)))"
  by pat_completeness auto

termination
  by (relation "measure (\<lambda>(_, _, ts, _). length ts)") auto

section \<open>Batches\<close>

definition literal_arg :: "string \<Rightarrow> string" where
  "literal_arg p = '':(literal)'' @ p"

definition path_cost :: "string \<Rightarrow> nat" where
  "path_cost p = length p + length '':(literal)'' + 1"

text \<open>The batches that are complete and the one being filled, with the bytes it uses.\<close>

fun path_batches :: "nat \<Rightarrow> nat \<Rightarrow> string list \<Rightarrow> string list list \<times> string list \<times> nat \<Rightarrow> string list list \<times> string list \<times> nat" where
  "path_batches max_count max_bytes [] st = st"
| "path_batches max_count max_bytes (p # ps) (batches, current, used) =
    path_batches max_count max_bytes ps
      (if current \<noteq> [] \<and> (max_count \<le> length current \<or> max_bytes < used + path_cost p)
       then (batches @ [current], [p], path_cost p)
       else (batches, current @ [p], used + path_cost p))"

definition batch_paths :: "string list \<Rightarrow> nat \<Rightarrow> nat \<Rightarrow> string list list" where
  "batch_paths paths max_count max_bytes =
    (case path_batches max_count max_bytes paths ([], [], 0) of
       (batches, current, _) \<Rightarrow> if current = [] then batches else batches @ [current])"

definition diff_flags :: "string list" where
  "diff_flags = [''--no-ext-diff'', ''--no-textconv'', ''--ignore-submodules=all'', ''--find-renames=1%'']"

definition inventory_args :: "string list \<Rightarrow> string list" where
  "inventory_args mode_args = [''diff'', ''--name-status'', ''-z''] @ diff_flags @ mode_args @ [''--'', ''.'']"

definition batch_args :: "string list \<Rightarrow> string list \<Rightarrow> string list" where
  "batch_args mode_args paths = [''diff'', ''--no-color''] @ diff_flags @ mode_args @ [''--''] @ map literal_arg paths"

abbreviation aggregate_limit :: nat where "aggregate_limit \<equiv> 64 * 1024 * 1024"

fun fetch_batches :: "git_env \<Rightarrow> repository \<Rightarrow> string list \<Rightarrow> string list list \<Rightarrow> string \<Rightarrow> git_error + string" where
  "fetch_batches env r mode_args [] combined = Inr combined"
| "fetch_batches env r mode_args (b # bs) combined =
    (case run_git env (rp_root r) (batch_args mode_args b) of
       Inl e \<Rightarrow> Inl (wrap_repository_error r e)
     | Inr chunk \<Rightarrow>
        if aggregate_limit < length combined + length chunk
        then Inl (GitErr (WsError FileTooLarge ''git diff exceeds the 64 MiB safety limit''))
        else fetch_batches env r mode_args bs (combined @ chunk))"

section \<open>Pages\<close>

record diff_result =
  dr_repository :: string
  dr_is_repo :: bool
  dr_mode :: string
  dr_total :: nat
  dr_offset :: nat
  dr_returned :: nat
  dr_has_more :: bool
  dr_next :: "nat option"
  dr_diff :: string
  dr_redacted :: nat

definition page_bytes :: "int \<Rightarrow> nat" where
  "page_bytes max_bytes = nat (if max_bytes < 1024 then 64 * 1024 else if 256 * 1024 < max_bytes then 256 * 1024 else max_bytes)"

text \<open>The bytes of a page: up to the last newline unless the diff ends, and cut back to valid UTF-8.\<close>

definition page_chunk :: "string \<Rightarrow> nat \<Rightarrow> nat \<Rightarrow> string" where
  "page_chunk full offset size_limit =
    (let chunk = take size_limit (drop offset full);
         cut = (if offset + length chunk < length full
                then (case last_index CHR 0x0A chunk of Some i \<Rightarrow> if 0 < i then take (Suc i) chunk else chunk | None \<Rightarrow> chunk)
                else chunk)
     in take (safe_end cut (length cut)) cut)"

definition diff_page :: "string \<Rightarrow> int \<Rightarrow> int \<Rightarrow> diff_result \<Rightarrow> diff_result" where
  "diff_page full offset0 max_bytes result =
    (let offset = nat (if offset0 < 0 then 0 else if int (length full) < offset0 then int (length full) else offset0);
         chunk = page_chunk full offset (page_bytes max_bytes);
         stop = offset + length chunk
     in result\<lparr>dr_total := length full, dr_offset := offset, dr_returned := length chunk, dr_has_more := stop < length full,
         dr_next := (if stop < length full then Some stop else None), dr_diff := chunk\<rparr>)"

text \<open>The scope of a diff inside the repository.\<close>

definition diff_scope :: "git_env \<Rightarrow> workspace \<Rightarrow> repository \<Rightarrow> string \<Rightarrow> ws_error + string" where
  "diff_scope env w r path = (if trim_space path = [] then Inr ''.'' else repository_relative_path (ge_repo env) w r path)"

definition diff_of_paths :: "git_env \<Rightarrow> repository \<Rightarrow> string list \<Rightarrow> diff_options \<Rightarrow> string list \<Rightarrow> diff_result \<Rightarrow> git_error + diff_result" where
  "diff_of_paths env r mode_args opts paths result =
    (if paths = [] then Inr result
     else case fetch_batches env r mode_args (batch_paths (sort paths) 50 (32 * 1024)) [] of
       Inl e \<Rightarrow> Inl e
     | Inr full \<Rightarrow> Inr (diff_page full (di_offset opts) (di_max_bytes opts) result))"

definition git_diff :: "git_env \<Rightarrow> workspace \<Rightarrow> ws_error + repository list \<Rightarrow> diff_options \<Rightarrow> git_error + diff_result" where
  "git_diff env w known opts =
    (let mode = (if di_mode opts = [] then ''unstaged'' else di_mode opts) in
     case diff_mode_args mode of
       None \<Rightarrow> git_failed (''invalid diff mode: '' @ mode)
     | Some mode_args \<Rightarrow>
        (let none = \<lparr>dr_repository = [], dr_is_repo = False, dr_mode = mode, dr_total = 0, dr_offset = 0, dr_returned = 0,
               dr_has_more = False, dr_next = None, dr_diff = [], dr_redacted = 0\<rparr>
         in case select_git_repository env w known (di_repository opts) of
              Inl e \<Rightarrow> Inl (GitErr e)
            | Inr None \<Rightarrow> Inr none
            | Inr (Some r) \<Rightarrow>
               (case git_info_for env r of
                  Inl e \<Rightarrow> Inl e
                | Inr info \<Rightarrow>
                   if \<not> gi_is_repo info then Inr (none\<lparr>dr_repository := rp_path r\<rparr>)
                   else case diff_scope env w r (di_path opts) of
                     Inl e \<Rightarrow> Inl (GitErr e)
                   | Inr scope \<Rightarrow>
                      (case run_git env (rp_root r) (inventory_args mode_args) of
                         Inl e \<Rightarrow> Inl (wrap_repository_error r e)
                       | Inr inventory \<Rightarrow>
                          (case inventory_loop (hidden_path w r) scope (split_nul inventory) ([], 0) of
                             (paths, redacted) \<Rightarrow>
                               diff_of_paths env r mode_args opts paths
                                 (none\<lparr>dr_repository := rp_path r, dr_is_repo := True, dr_redacted := redacted\<rparr>))))))"

section \<open>What Git is asked for\<close>

lemma set_add_path [simp]: "set (add_path p ps) = insert p (set ps)"
  by (auto simp: add_path_def)

declare inventory_loop.simps(2) [simp del]

lemma inventory_visible:
  "\<forall>p \<in> set (fst st). \<not> sensitive p \<Longrightarrow> \<forall>p \<in> set (fst (inventory_loop sensitive scope ts st)). \<not> sensitive p"
proof (induction ts arbitrary: st rule: measure_induct_rule [where f = length])
  case (less ts)
  obtain paths n where st: "st = (paths, n)" by fastforce
  show ?case
  proof (cases ts)
    case Nil
    then show ?thesis using less.prems by (simp add: st)
  next
    case ts: (Cons status rest)
    note step = inventory_loop.simps(2) [of sensitive scope status _ paths n]
    consider "status = []" | old new rest' where "status \<noteq> []" "has_prefix status ''R'' \<or> has_prefix status ''C''" "rest = old # new # rest'"
      | path rest' where "status \<noteq> []" "\<not> has_prefix status ''R''" "\<not> has_prefix status ''C''" "rest = path # rest'"
      | "inventory_loop sensitive scope ts st = st"
      by (cases rest rule: remdups_adj.cases; cases "status = []"; cases "has_prefix status ''R'' \<or> has_prefix status ''C''") (auto simp: ts st step)
    then show ?thesis
    proof cases
      case 1
      then have e: "inventory_loop sensitive scope ts st = inventory_loop sensitive scope rest st" unfolding ts st step by simp
      show ?thesis unfolding e by (rule less.IH) (simp add: ts, rule less.prems)
    next
      case 2
      then have e: "inventory_loop sensitive scope ts st = inventory_loop sensitive scope rest'
          (if sensitive old \<or> sensitive new then (paths, Suc n)
           else if \<not> in_scope old scope \<and> \<not> in_scope new scope then (paths, n)
           else (add_path new (add_path old paths), n))"
        unfolding ts st step by simp
      show ?thesis unfolding e by (rule less.IH) (use less.prems in \<open>auto simp: ts st 2\<close>)
    next
      case 3
      then have e: "inventory_loop sensitive scope ts st = inventory_loop sensitive scope rest'
          (if sensitive path then (paths, Suc n) else if in_scope path scope then (add_path path paths, n) else (paths, n))"
        unfolding ts st step by simp
      show ?thesis unfolding e by (rule less.IH) (use less.prems in \<open>auto simp: ts st 3\<close>)
    next
      case 4
      then show ?thesis using less.prems by simp
    qed
  qed
qed

definition batch_ok :: "nat \<Rightarrow> nat \<Rightarrow> string list \<Rightarrow> bool" where
  "batch_ok m k b \<longleftrightarrow> length b \<le> m \<and> (length b = 1 \<or> sum_list (map path_cost b) \<le> k)"

lemma batch_loop_inv:
  assumes "path_batches m k ps (bs, cur, used) = (bs', cur', used')" and "0 < m"
    and "used = sum_list (map path_cost cur)" and "batch_ok m k cur" and "cur = [] \<longrightarrow> bs = []"
    and "\<forall>b \<in> set bs. b \<noteq> [] \<and> batch_ok m k b"
  shows "concat bs' @ cur' = concat bs @ cur @ ps \<and> (cur' = [] \<longrightarrow> bs' = []) \<and> batch_ok m k cur'
    \<and> (\<forall>b \<in> set bs'. b \<noteq> [] \<and> batch_ok m k b)"
  using assms
proof (induction ps arbitrary: bs cur used)
  case (Cons p ps)
  show ?case
  proof (cases "cur \<noteq> [] \<and> (m \<le> length cur \<or> k < used + path_cost p)")
    case True
    with Cons.prems(1) have l: "path_batches m k ps (bs @ [cur], [p], path_cost p) = (bs', cur', used')" by simp
    have ok: "batch_ok m k [p]" using Cons.prems(2) by (simp add: batch_ok_def)
    from Cons.IH [OF l Cons.prems(2) _ ok] Cons.prems(4,6) True show ?thesis by simp
  next
    case False
    then have l: "path_batches m k ps (bs, cur @ [p], used + path_cost p) = (bs', cur', used')" using Cons.prems(1) by (simp split: if_splits)
    have ok: "batch_ok m k (cur @ [p])" using Cons.prems(2,3) False by (cases "cur = []") (auto simp: batch_ok_def)
    from Cons.IH [OF l Cons.prems(2) _ ok] Cons.prems(3,6) show ?thesis by simp
  qed
qed simp

lemma batches_of_paths:
  assumes "0 < m"
  shows "concat (batch_paths ps m k) = ps" and "b \<in> set (batch_paths ps m k) \<Longrightarrow> b \<noteq> [] \<and> batch_ok m k b"
proof -
  obtain bs cur used where l: "path_batches m k ps ([], [], 0) = (bs, cur, used)" by (metis prod_cases3)
  from batch_loop_inv [OF l assms] have "concat bs @ cur = ps" "cur = [] \<longrightarrow> bs = []" "batch_ok m k cur" "\<forall>b \<in> set bs. b \<noteq> [] \<and> batch_ok m k b"
    by (simp_all add: batch_ok_def)
  then show "concat (batch_paths ps m k) = ps" "b \<in> set (batch_paths ps m k) \<Longrightarrow> b \<noteq> [] \<and> batch_ok m k b"
    by (auto simp: batch_paths_def l split: if_splits)
qed

text \<open>
  Batches lose nothing and keep their limits: put together they are the paths in their order, no batch is
  empty or has more than the maximal number of paths, and one that exceeds the bytes consists of a single path.
\<close>

theorem batches_partition_the_paths:
  assumes "0 < m"
  shows "concat (batch_paths ps m k) = ps
    \<and> (\<forall>b \<in> set (batch_paths ps m k). b \<noteq> [] \<and> length b \<le> m \<and> (length b = 1 \<or> sum_list (map path_cost b) \<le> k))"
  using batches_of_paths [OF assms] by (fastforce simp: batch_ok_def)

theorem batches_partition_the_paths_witness:
  "concat (batch_paths [''a'', ''b'', ''c''] 2 100) = [''a'', ''b'', ''c''] \<and> length (batch_paths [''a'', ''b'', ''c''] 2 100) = 2"
  using batches_partition_the_paths [of 2 "[''a'', ''b'', ''c'']" 100] by (simp add: batch_paths_def path_cost_def)

section \<open>Secrets are never asked for\<close>

definition allowed :: "(string \<Rightarrow> bool) \<Rightarrow> string list \<Rightarrow> bool" where
  "allowed hidden args \<longleftrightarrow> (\<forall>p. literal_arg p \<in> set args \<longrightarrow> \<not> hidden p)"

text \<open>Two ways to run Git that agree on every command that names no hidden path.\<close>

definition agree :: "(string \<Rightarrow> bool) \<Rightarrow> git_env \<Rightarrow> (string list \<Rightarrow> string \<Rightarrow> string list \<Rightarrow> git_run) \<Rightarrow> bool" where
  "agree hidden env run \<longleftrightarrow> (\<forall>vars dir args. allowed hidden args \<longrightarrow> run vars dir args = ge_run env vars dir args)"

lemma allowed_simps [simp]: "allowed hidden []" "allowed hidden (a @ b) \<longleftrightarrow> allowed hidden a \<and> allowed hidden b"
  by (auto simp: allowed_def)

lemma allowed_Cons [simp]: "\<not> has_prefix x '':'' \<Longrightarrow> allowed hidden (x # xs) \<longleftrightarrow> allowed hidden xs"
  by (auto simp: allowed_def literal_arg_def has_prefix_def)

lemma allowed_literals: "\<forall>p \<in> set ps. \<not> hidden p \<Longrightarrow> allowed hidden (map literal_arg ps)"
  by (auto simp: allowed_def literal_arg_def)

lemma allowed_overrides: "allowed hidden git_config_overrides" "allowed hidden filter_query" "allowed hidden (concat (map driver_overrides ds))"
  by (simp_all add: git_config_overrides_def filter_query_def has_prefix_def, induction ds, simp_all add: driver_overrides_def has_prefix_def)

lemma overrides_allowed: "map_sum id (\<lambda>ds. concat (map driver_overrides (f ds))) x = Inr fs \<Longrightarrow> allowed hidden fs"
  by (cases x) (auto simp: allowed_overrides)

lemma filters_allowed: "discover_filter_overrides env root = Inr fs \<Longrightarrow> allowed hidden fs"
  by (auto simp: discover_filter_overrides_def Let_def split: git_end.splits if_splits dest: overrides_allowed)

lemma same_environment: "safe_git_environment (env\<lparr>ge_run := run\<rparr>) = safe_git_environment env"
  by (simp add: safe_git_environment_def)

lemma agree_filters:
  assumes "agree hidden env run"
  shows "discover_filter_overrides (env\<lparr>ge_run := run\<rparr>) root = discover_filter_overrides env root"
proof -
  have "run (safe_git_environment env) root filter_query = ge_run env (safe_git_environment env) root filter_query"
    using assms allowed_overrides by (simp add: agree_def)
  then show ?thesis by (simp add: discover_filter_overrides_def same_environment Let_def split: git_end.split)
qed

lemma agree_run:
  assumes "agree hidden env run" and "allowed hidden args"
  shows "run_git (env\<lparr>ge_run := run\<rparr>) root args = run_git env root args"
proof -
  have "run_git_with_overrides (env\<lparr>ge_run := run\<rparr>) root fs args = run_git_with_overrides env root fs args" if "allowed hidden fs" for fs
    using assms that by (simp add: run_git_with_overrides_def same_environment agree_def)
  then show ?thesis
    using agree_filters [OF assms(1)] filters_allowed allowed_overrides(1)
    by (simp add: run_git_def split: sum.split)
qed

lemmas args_eval = has_prefix_def status_args_def

lemma agree_info:
  assumes "agree hidden env run"
  shows "git_info_for (env\<lparr>ge_run := run\<rparr>) r = git_info_for env r"
  by (simp add: git_info_for_def agree_run [OF assms] args_eval Let_def)

lemma agree_batches:
  assumes "agree hidden env run" and "\<forall>b \<in> set bs. \<forall>p \<in> set b. \<not> hidden p" and "allowed hidden mode_args"
  shows "fetch_batches (env\<lparr>ge_run := run\<rparr>) r mode_args bs combined = fetch_batches env r mode_args bs combined"
  using assms(2)
proof (induction bs arbitrary: combined)
  case (Cons b bs)
  have "allowed hidden (batch_args mode_args b)"
    using Cons.prems assms(3) by (simp add: batch_args_def diff_flags_def args_eval allowed_literals)
  from agree_run [OF assms(1) this] Cons show ?case by (simp split: sum.split)
qed simp

lemma agree_selected:
  "select_git_repository (env\<lparr>ge_run := run\<rparr>) w known selector = select_git_repository env w known selector"
  by (simp add: select_git_repository_def split: sum.split bool.split)

text \<open>
  C6: Git is never asked for the content of a sensitive file: whatever Git would answer to a command that names
  such a path, the diff is the same, because every command the diff consists of names visible paths only.
\<close>

theorem diff_never_asks_for_secrets:
  assumes "select_git_repository env w known (di_repository opts) = Inr (Some r)" and "agree (hidden_path w r) env run"
  shows "git_diff (env\<lparr>ge_run := run\<rparr>) w known opts = git_diff env w known opts"
proof -
  let ?env = "env\<lparr>ge_run := run\<rparr>"
  have modes: "allowed (hidden_path w r) m" if "diff_mode_args mode = Some m" for mode m
    using that by (auto simp: diff_mode_args_def args_eval split: if_splits)
  have inv: "run_git ?env (rp_root r) (inventory_args m) = run_git env (rp_root r) (inventory_args m)" if "diff_mode_args mode = Some m" for mode m
    by (rule agree_run [OF assms(2)]) (simp add: inventory_args_def diff_flags_def args_eval modes [OF that])
  have paths: "diff_of_paths ?env r m opts (fst (inventory_loop (hidden_path w r) scope ts ([], 0))) res
      = diff_of_paths env r m opts (fst (inventory_loop (hidden_path w r) scope ts ([], 0))) res" if "diff_mode_args mode = Some m" for mode m scope ts res
  proof -
    let ?ps = "fst (inventory_loop (hidden_path w r) scope ts ([], 0))"
    have vis: "\<forall>p \<in> set ?ps. \<not> hidden_path w r p" by (rule inventory_visible) simp
    have "set (concat (batch_paths (sort ?ps) 50 (32 * 1024))) = set ?ps" using batches_of_paths [of 50] by simp
    then have "\<forall>b \<in> set (batch_paths (sort ?ps) 50 (32 * 1024)). \<forall>p \<in> set b. \<not> hidden_path w r p" using vis by auto
    from agree_batches [OF assms(2) this modes [OF that]] show ?thesis by (simp add: diff_of_paths_def)
  qed
  have scope: "diff_scope ?env w r p = diff_scope env w r p" for p by (simp add: diff_scope_def)
  show ?thesis
    unfolding git_diff_def Let_def agree_selected assms(1) agree_info [OF assms(2)]
    using inv paths by (simp add: scope agree_info [OF assms(2)] case_prod_beta split: option.split sum.split)
qed

end
