(* ===== verification/GitPages.thy ===== *)
theory GitPages
  imports GitDiff
begin

text \<open>
  The pages of a diff: for a diff in valid UTF-8 they make progress and put together they are the whole diff;
  a byte that is not UTF-8 stops them for good.
\<close>

section \<open>Valid prefixes\<close>

text \<open>The shapes of a rune that is decoded without error.\<close>

lemma decode1_shape:
  assumes "decode1 (c # cs) = (r, n)" and "\<not> (r = rune_error \<and> n = 1)"
  obtains "byte c < 128" "n = 1"
  | c1 t where "128 \<le> byte c" "194 \<le> byte c" "byte c < 224" "cs = c1 # t" "cont_byte c1" "n = 2"
  | c1 c2 t where "194 \<le> byte c" "224 \<le> byte c" "byte c < 240" "cs = c1 # c2 # t"
      "in_range (if byte c = 224 then 160 else 128) (if byte c = 237 then 159 else 191) c1" "cont_byte c2" "n = 3"
  | c1 c2 c3 t where "194 \<le> byte c" "240 \<le> byte c" "byte c < 245" "cs = c1 # c2 # c3 # t"
      "in_range (if byte c = 240 then 144 else 128) (if byte c = 244 then 143 else 191) c1" "cont_byte c2" "cont_byte c3" "n = 4"
proof -
  consider "byte c < 128" | "128 \<le> byte c" "byte c < 194" | "194 \<le> byte c" "byte c < 224" | "224 \<le> byte c" "byte c < 240"
    | "240 \<le> byte c" "byte c < 245" | "245 \<le> byte c" by linarith
  then show thesis
  proof cases
    case 1 then show thesis using assms(1) that(1) by (simp add: decode1_def)
  next
    case 2 then show thesis using assms by (simp add: decode1_def)
  next
    case 3 then show thesis using assms that(2) by (auto simp: decode1_def Let_def split: list.splits if_splits)
  next
    case 4 then show thesis using assms that(3) by (auto simp: decode1_def Let_def split: list.splits if_splits)
  next
    case 5 then show thesis using assms that(4) by (auto simp: decode1_def Let_def split: list.splits if_splits)
  next
    case 6 then show thesis using assms by (simp add: decode1_def)
  qed
qed

lemma decode1_take:
  assumes "decode1 (c # cs) = (r, n)" and "\<not> (r = rune_error \<and> n = 1)"
  shows "decode1 (c # take (n - 1) cs @ t) = (r, n) \<and> 0 < n \<and> n \<le> 4 \<and> n - 1 \<le> length cs \<and> (\<forall>i < n - 1. 128 \<le> byte (cs ! i))"
proof (rule decode1_shape [OF assms])
  show ?thesis if "byte c < 128" "n = 1" using that assms(1) by (simp add: decode1_def)
next
  fix c1 u assume a: "128 \<le> byte c" "194 \<le> byte c" "byte c < 224" "cs = c1 # u" "cont_byte c1" "n = 2"
  then show ?thesis using assms(1) by (simp add: decode1_def in_range_def)
next
  fix c1 c2 u assume a: "194 \<le> byte c" "224 \<le> byte c" "byte c < 240" "cs = c1 # c2 # u"
    "in_range (if byte c = 224 then 160 else 128) (if byte c = 237 then 159 else 191) c1" "cont_byte c2" "n = 3"
  then have "128 \<le> byte c1" "128 \<le> byte c2" by (auto simp: in_range_def split: if_splits)
  then show ?thesis using a assms(1) by (auto simp: decode1_def less_Suc_eq numeral_2_eq_2)
next
  fix c1 c2 c3 u assume a: "194 \<le> byte c" "240 \<le> byte c" "byte c < 245" "cs = c1 # c2 # c3 # u"
    "in_range (if byte c = 240 then 144 else 128) (if byte c = 244 then 143 else 191) c1" "cont_byte c2" "cont_byte c3" "n = 4"
  then have "128 \<le> byte c1" "128 \<le> byte c2" "128 \<le> byte c3" by (auto simp: in_range_def split: if_splits)
  then show ?thesis using a assms(1) by (auto simp: decode1_def less_Suc_eq numeral_3_eq_3)
qed

lemma segs_Cons: "decode1 (c # cs) = (r, n) \<Longrightarrow> segs (c # cs) = (r, c # take (n - 1) cs) # segs (drop (n - 1) cs)"
  by (simp add: segs.simps(2))

text \<open>A valid text is decoded on its own, whatever follows.\<close>

lemma segs_append_valid: "utf8_valid a \<Longrightarrow> segs (a @ b) = segs a @ segs b"
proof (induction a rule: segs.induct)
  case (2 c cs)
  obtain r n where d: "decode1 (c # cs) = (r, n)" by fastforce
  have ok: "\<not> (r = rune_error \<and> n = 1)"
  proof
    assume "r = rune_error \<and> n = 1"
    then show False using "2.prems" segs_Cons [OF d] by (simp add: utf8_valid_def)
  qed
  note t = decode1_take [OF d ok]
  have split: "c # cs = (c # take (n - 1) cs) @ drop (n - 1) cs" by simp
  have d': "decode1 (c # cs @ b) = (r, n)"
    using t [of "drop (n - 1) cs @ b"] by (metis append.assoc append_take_drop_id)
  have "utf8_valid (drop (n - 1) cs)" using "2.prems" segs_Cons [OF d] by (simp add: utf8_valid_def)
  from "2.IH" [OF d [symmetric] this] have "segs (drop (n - 1) cs @ b) = segs (drop (n - 1) cs) @ segs b" .
  moreover have "n - Suc (length cs) = 0" using t [of "[]"] by linarith
  ultimately show ?case using segs_Cons [OF d] segs_Cons [OF d'] by simp
qed simp

lemma utf8_valid_append: "utf8_valid a \<Longrightarrow> utf8_valid (a @ b) \<longleftrightarrow> utf8_valid b"
  using segs_append_valid [of a b] by (auto simp: utf8_valid_def)

lemma utf8_valid_Nil [simp]: "utf8_valid []"
  by (simp add: utf8_valid_def)

text \<open>A valid text starts with a rune of at most four bytes; only its first byte can be a newline.\<close>

lemma first_rune:
  assumes "utf8_valid s" and "s \<noteq> []"
  obtains n where "0 < n" "n \<le> 4" "n \<le> length s" "utf8_valid (take n s)" "\<And>i. 0 < i \<Longrightarrow> i < n \<Longrightarrow> 128 \<le> byte (s ! i)"
proof -
  obtain c cs where s: "s = c # cs" using assms(2) by (cases s) auto
  obtain r n where d: "decode1 (c # cs) = (r, n)" by fastforce
  have ok: "\<not> (r = rune_error \<and> n = 1)"
  proof
    assume "r = rune_error \<and> n = 1"
    then show False using assms(1) segs_Cons [OF d] by (simp add: utf8_valid_def s)
  qed
  note t = decode1_take [OF d ok]
  have d1: "decode1 (c # take (n - 1) cs) = (r, n)" using t [of "[]"] by simp
  have "take n s = c # take (n - 1) cs" using t by (cases n) (auto simp: s)
  moreover have "utf8_valid (c # take (n - 1) cs)"
    using segs_Cons [OF d1] ok t by (auto simp: utf8_valid_def)
  ultimately have "utf8_valid (take n s)" by simp
  moreover have "128 \<le> byte (s ! i)" if "0 < i" "i < n" for i
  proof -
    have "i - 1 < n - 1" "s ! i = cs ! (i - 1)" using that by (auto simp: s nth_Cons')
    then show ?thesis using t by simp
  qed
  moreover have "n \<le> length s" using t by (cases n) (auto simp: s)
  ultimately show thesis using that [of n] t by blast
qed

lemma safe_end_bound:
  "safe_end data n \<le> n \<and> utf8_valid (take (safe_end data n) data) \<and> (\<forall>k \<le> n. utf8_valid (take k data) \<longrightarrow> k \<le> safe_end data n)"
  by (induction n) (auto simp: le_Suc_eq)

lemma last_index_some: "last_index c s = Some i \<Longrightarrow> i < length s \<and> s ! i = c"
  by (induction s arbitrary: i) (auto split: option.splits if_splits)

section \<open>Pages\<close>

definition page_cut :: "string \<Rightarrow> nat \<Rightarrow> nat \<Rightarrow> string" where
  "page_cut full offset m =
    (let chunk = take m (drop offset full)
     in if offset + length chunk < length full
        then (case last_index CHR 0x0A chunk of Some i \<Rightarrow> if 0 < i then take (Suc i) chunk else chunk | None \<Rightarrow> chunk) else chunk)"

lemma page_chunk_cut: "page_chunk full offset m = take (safe_end (page_cut full offset m) (length (page_cut full offset m))) (page_cut full offset m)"
  by (simp add: page_chunk_def page_cut_def Let_def)

lemma page_cut_cases:
  obtains "page_cut full offset m = take m (drop offset full)"
  | i where "page_cut full offset m = take (Suc i) (drop offset full)" "0 < i" "Suc i \<le> m" "i < length (drop offset full)"
      "drop offset full ! i = CHR 0x0A"
proof (cases "page_cut full offset m = take m (drop offset full)")
  case False
  then obtain i where i: "last_index CHR 0x0A (take m (drop offset full)) = Some i" "0 < i"
      "page_cut full offset m = take (Suc i) (take m (drop offset full))"
    by (auto simp: page_cut_def Let_def split: option.splits if_splits)
  from last_index_some [OF i(1)] have "i < m" "i < length (drop offset full)" "drop offset full ! i = CHR 0x0A" by auto
  with i that(2) [of i] show thesis by (simp add: min_def)
qed (rule that(1))

text \<open>A page of a valid diff that is not at its end says something.\<close>

lemma page_chunk_progress:
  assumes "utf8_valid (drop offset full)" and "offset < length full" and "4 \<le> m"
  shows "page_chunk full offset m \<noteq> [] \<and> utf8_valid (page_chunk full offset m)
    \<and> page_chunk full offset m = take (length (page_chunk full offset m)) (drop offset full)"
proof -
  let ?rest = "drop offset full"
  let ?cut = "page_cut full offset m"
  obtain n where n: "0 < n" "n \<le> 4" "n \<le> length ?rest" "utf8_valid (take n ?rest)" "\<And>i. 0 < i \<Longrightarrow> i < n \<Longrightarrow> 128 \<le> byte (?rest ! i)"
    using first_rune [OF assms(1)] assms(2) by auto
  obtain l where l: "?cut = take l ?rest" "n \<le> l"
  proof (rule page_cut_cases [of full offset m])
    assume "?cut = take m ?rest"
    then show thesis using that [of m] n(2) assms(3) by simp
  next
    fix i assume i: "?cut = take (Suc i) ?rest" "0 < i" "?rest ! i = CHR 0x0A"
    then have "\<not> i < n" using n(5) [of i] by (auto simp: byte_def)
    then show thesis using that [of "Suc i"] i(1) by simp
  qed
  then have "n \<le> length ?cut" "take n ?cut = take n ?rest" using n(3) by (auto simp: min_def)
  then have "n \<le> safe_end ?cut (length ?cut)" using safe_end_bound [of ?cut "length ?cut"] n(4) by auto
  then show ?thesis
    using safe_end_bound [of ?cut "length ?cut"] n(1,3) l unfolding page_chunk_cut by (auto simp: min_def)
qed

fun read_pages :: "nat \<Rightarrow> string \<Rightarrow> int \<Rightarrow> diff_result \<Rightarrow> nat \<Rightarrow> string option" where
  "read_pages 0 full max_bytes res offset = None"
| "read_pages (Suc n) full max_bytes res offset =
    (let p = diff_page full (int offset) max_bytes res in
     case dr_next p of
       None \<Rightarrow> Some (dr_diff p)
     | Some next_offset \<Rightarrow> map_option ((@) (dr_diff p)) (read_pages n full max_bytes res next_offset))"

lemma page_bytes_least: "4 \<le> page_bytes m"
  by (auto simp: page_bytes_def le_nat_iff)

lemma read_pages_from:
  "utf8_valid (drop offset full) \<Longrightarrow> offset \<le> length full \<Longrightarrow> length full - offset < n \<Longrightarrow>
    read_pages n full m res offset = Some (drop offset full)"
proof (induction n arbitrary: offset)
  case (Suc n)
  let ?c = "page_chunk full offset (page_bytes m)"
  show ?case
  proof (cases "offset = length full")
    case True
    then show ?thesis by (simp add: diff_page_def page_chunk_def Let_def)
  next
    case False
    then have lt: "offset < length full" using Suc.prems(2) by simp
    note p = page_chunk_progress [OF Suc.prems(1) lt page_bytes_least [of m]]
    have c: "drop offset full = ?c @ drop (offset + length ?c) full"
      by (metis p add.commute append_take_drop_id drop_drop)
    have valid: "utf8_valid (drop (offset + length ?c) full)" using Suc.prems(1) p c utf8_valid_append by metis
    have len: "offset + length ?c \<le> length full" using p lt by (metis add_diff_cancel_left' c diff_add le_add1 length_append length_drop less_imp_le nat_add_left_cancel_le)
    show ?thesis
    proof (cases "offset + length ?c < length full")
      case True
      have "dr_next (diff_page full (int offset) m res) = Some (offset + length ?c)" "dr_diff (diff_page full (int offset) m res) = ?c"
        using True lt by (simp_all add: diff_page_def Let_def)
      moreover have "read_pages n full m res (offset + length ?c) = Some (drop (offset + length ?c) full)"
        by (rule Suc.IH [OF valid len]) (use p Suc.prems(3) lt in \<open>cases ?c, simp_all\<close>)
      ultimately show ?thesis using c by simp
    next
      case last_page: False
      then show ?thesis using c len lt by (simp add: diff_page_def Let_def)
    qed
  qed
qed simp

text \<open>
  C26: The pages of a diff in valid UTF-8 are the diff: whoever follows the offsets from the start gets every
  byte in order and is done after finitely many pages, whatever page size is asked for.
\<close>

theorem diff_pages_are_the_diff:
  assumes "utf8_valid full"
  shows "read_pages (Suc (length full)) full max_bytes res 0 = Some full"
  using read_pages_from [of 0 full "Suc (length full)" max_bytes res] assms by (simp del: read_pages.simps)

theorem diff_pages_are_the_diff_witness:
  "utf8_valid [CHR 0xC3, CHR 0xA9] \<and> (\<forall>res. read_pages 3 [CHR 0xC3, CHR 0xA9] 4096 res 0 = Some [CHR 0xC3, CHR 0xA9])"
proof -
  have v: "utf8_valid [CHR 0xC3, CHR 0xA9]"
    by (simp add: utf8_valid_def segs.simps(2) decode1_def in_range_def byte_def)
  from diff_pages_are_the_diff [OF v, of 4096] v show ?thesis by (simp add: numeral_3_eq_3)
qed

text \<open>A byte that does not decode does not decode in any prefix of the text either.\<close>

lemma bad_prefix:
  assumes "decode1 (c # cs) = (rune_error, 1)"
  shows "\<not> utf8_valid (c # take j cs)"
proof -
  obtain r n where d: "decode1 (c # take j cs) = (r, n)" by fastforce
  have bad: "r = rune_error \<and> n = 1"
  proof (rule ccontr)
    assume ok: "\<not> (r = rune_error \<and> n = 1)"
    note t = decode1_take [OF d ok]
    have "take (n - 1) (take j cs) @ drop (n - 1) cs = cs" using t [of "[]"] by (simp add: min_absorb1)
    then show False using t [of "drop (n - 1) cs"] assms ok by simp
  qed
  then show ?thesis using segs_Cons [OF d] by (simp add: utf8_valid_def)
qed

lemma valid_prefix_before_bad:
  assumes "utf8_valid before" and "decode1 (c # cs) = (rune_error, 1)" and "utf8_valid (take k (before @ c # cs))"
  shows "k \<le> length before"
proof (rule ccontr)
  assume "\<not> k \<le> length before"
  then have "take k (before @ c # cs) = before @ c # take (k - length before - 1) cs" by (cases "k - length before") auto
  then show False using assms(1,3) bad_prefix [OF assms(2)] utf8_valid_append [of before] by metis
qed

lemma page_chunk_prefix:
  "\<exists>k. page_chunk full offset m = take k (drop offset full) \<and> utf8_valid (take k (drop offset full))"
proof -
  obtain l where l: "page_cut full offset m = take l (drop offset full)" by (rule page_cut_cases [of full offset m]) auto
  let ?k = "min (safe_end (take l (drop offset full)) (length (take l (drop offset full)))) l"
  have "page_chunk full offset m = take ?k (drop offset full)" unfolding page_chunk_cut l by (simp add: min.commute)
  moreover have "utf8_valid (page_chunk full offset m)" unfolding page_chunk_cut using safe_end_bound by blast
  ultimately show ?thesis by metis
qed

lemma page_before_bad:
  assumes "utf8_valid before" and "decode1 (c # cs) = (rune_error, 1)" and "offset \<le> length before" and "utf8_valid (drop offset before)"
  shows "\<exists>k \<le> length before - offset. page_chunk (before @ c # cs) offset m = take k (drop offset before) \<and> utf8_valid (drop (offset + k) before)"
proof -
  obtain k where k: "page_chunk (before @ c # cs) offset m = take k (drop offset (before @ c # cs))" "utf8_valid (take k (drop offset (before @ c # cs)))"
    using page_chunk_prefix by blast
  have d: "drop offset (before @ c # cs) = drop offset before @ c # cs" using assms(3) by simp
  have le: "k \<le> length (drop offset before)" by (rule valid_prefix_before_bad [OF assms(4,2)]) (rule k(2) [unfolded d])
  moreover have t: "take k (drop offset (before @ c # cs)) = take k (drop offset before)" unfolding d using le by simp
  moreover have "utf8_valid (drop (offset + k) before)"
    using k(2) assms(4) utf8_valid_append [of "take k (drop offset before)" "drop (offset + k) before"] unfolding t by (metis add.commute append_take_drop_id drop_drop)
  ultimately show ?thesis using k(1) by auto
qed

lemma read_pages_never_end:
  assumes "utf8_valid before" and "decode1 (c # cs) = (rune_error, 1)"
  shows "offset \<le> length before \<Longrightarrow> utf8_valid (drop offset before) \<Longrightarrow> read_pages n (before @ c # cs) m res offset = None"
proof (induction n arbitrary: offset)
  case (Suc n)
  let ?full = "before @ c # cs"
  obtain k where k: "k \<le> length before - offset" "page_chunk ?full offset (page_bytes m) = take k (drop offset before)" "utf8_valid (drop (offset + k) before)"
    using page_before_bad [OF assms Suc.prems] by blast
  then have "dr_next (diff_page ?full (int offset) m res) = Some (offset + k)"
    using Suc.prems(1) by (auto simp: diff_page_def Let_def)
  moreover have "read_pages n ?full m res (offset + k) = None" by (rule Suc.IH) (use k Suc.prems(1) in auto)
  ultimately show ?case by simp
qed simp

text \<open>
  C40: A byte that is not UTF-8 stops the pages: the page that starts at it is empty and names its own offset as
  the next one, so whoever follows the offsets from the start, however long, is never done and never sees the
  byte or anything after it.
\<close>

theorem bad_byte_stops_the_pages:
  assumes "utf8_valid before" and "decode1 (c # rest) = (rune_error, 1)"
  shows "dr_diff (diff_page (before @ c # rest) (int (length before)) max_bytes res) = []
    \<and> dr_next (diff_page (before @ c # rest) (int (length before)) max_bytes res) = Some (length before)
    \<and> read_pages n (before @ c # rest) max_bytes res 0 = None"
proof -
  have "page_chunk (before @ c # rest) (length before) (page_bytes max_bytes) = []"
    using page_before_bad [OF assms order_refl] by fastforce
  then show ?thesis using read_pages_never_end [OF assms, of 0 n max_bytes res] assms(1) by (simp add: diff_page_def Let_def)
qed

theorem bad_byte_stops_the_pages_witness:
  "utf8_valid ''a'' \<and> decode1 [CHR 0xE9, CHR 0x0A] = (rune_error, 1)
    \<and> (\<forall>n res. dr_diff (diff_page [CHR 0x61, CHR 0xE9, CHR 0x0A] 1 4096 res) = [] \<and> read_pages n [CHR 0x61, CHR 0xE9, CHR 0x0A] 4096 res 0 = None)"
proof -
  have v: "utf8_valid ''a''" by (simp add: utf8_valid_def segs.simps(2) decode1_def byte_def)
  have d: "decode1 [CHR 0xE9, CHR 0x0A] = (rune_error, 1)" by (simp add: decode1_def in_range_def byte_def)
  from bad_byte_stops_the_pages [OF v d, of 4096] v d show ?thesis by simp
qed

end
