(* ===== verification/GitLog.thy ===== *)
theory GitLog
  imports GitDiff
begin

text \<open>
  \<open>internal/workspace/git_history.go\<close>: pages of the history of a repository, read from the output of Git
  through a capture with a limit.
\<close>

section \<open>Captured output\<close>

text \<open>\<open>boundedCapture.Write\<close>: what is kept, and whether more was written than fits.\<close>

definition capture_write :: "nat \<Rightarrow> string \<times> bool \<Rightarrow> string \<Rightarrow> string \<times> bool" where
  "capture_write cap st data =
    (case st of (kept, exceeded) \<Rightarrow>
       if exceeded then st
       else let remaining = cap - length kept in (kept @ take remaining data, remaining < length data))"

definition captured :: "nat \<Rightarrow> string list \<Rightarrow> string \<times> bool" where
  "captured cap writes = foldl (capture_write cap) ([], False) writes"

lemma capture_from:
  "length kept \<le> cap \<Longrightarrow> foldl (capture_write cap) (kept, False) ws =
    (kept @ take (cap - length kept) (concat ws), cap < length kept + length (concat ws))"
proof (induction ws arbitrary: kept)
  case (Cons w ws)
  have more: "foldl (capture_write cap) (k, True) xs = (k, True)" for k xs
    by (induction xs) (simp_all add: capture_write_def)
  show ?case
  proof (cases "cap - length kept < length w")
    case True
    then have "capture_write cap (kept, False) w = (kept @ take (cap - length kept) w, True)" by (simp add: capture_write_def Let_def)
    then show ?thesis using more True by simp
  next
    case False
    then have "capture_write cap (kept, False) w = (kept @ w, False)" using Cons.prems by (simp add: capture_write_def Let_def)
    then show ?thesis using Cons.IH [of "kept @ w"] False Cons.prems by (simp add: diff_diff_left add.assoc)
  qed
qed simp

text \<open>However the output was split into writes, the first bytes are kept and the excess is noticed.\<close>

lemma captured_is: "captured cap ws = (take cap (concat ws), cap < length (concat ws))"
  using capture_from [of "[]" cap ws] by (simp add: captured_def)

section \<open>Running Git with a limit\<close>

abbreviation log_output_limit :: nat where "log_output_limit \<equiv> 128 * 1024"
abbreviation log_error_limit :: nat where "log_error_limit \<equiv> 16 * 1024"

definition too_large :: "string \<Rightarrow> git_error + 'a" where
  "too_large text = Inl (GitErr (WsError FileTooLarge text))"

definition run_git_bounded :: "git_env \<Rightarrow> string \<Rightarrow> nat \<Rightarrow> string list \<Rightarrow> git_error + string" where
  "run_git_bounded env root cap args =
    (let r = ge_run env (safe_git_environment env) root (git_config_overrides @ args);
         (out, more) = captured cap (gr_out r); (err, more_err) = captured log_error_limit (gr_err r)
     in if more then too_large (''git log exceeds the '' @ digits cap @ '' byte safety limit'')
        else if more_err then too_large ''git error output exceeds the 16384 byte safety limit''
        else if gr_end r = GitTimeout then git_failed ''git command timed out''
        else case gr_ctx r of
          Some e \<Rightarrow> git_failed e
        | None \<Rightarrow>
           if gr_end r \<noteq> GitDone then git_failed (''git '' @ join_with '' '' args @ '' failed: '' @ run_message err (gr_end r))
           else Inr out)"

definition git_head_exists :: "git_env \<Rightarrow> string \<Rightarrow> git_error + bool" where
  "git_head_exists env root =
    (let r = ge_run env (safe_git_environment env) root (git_config_overrides @ [''rev-parse'', ''--verify'', ''--quiet'', ''HEAD^{commit}'']);
         (out, more) = captured 1024 (gr_out r); (err, more_err) = captured log_error_limit (gr_err r)
     in if more \<or> more_err then too_large ''Git HEAD verification exceeded its safety limit''
        else if gr_end r = GitTimeout then git_failed ''Git HEAD verification timed out''
        else case gr_ctx r of
          Some e \<Rightarrow> git_failed e
        | None \<Rightarrow>
           if gr_end r = GitDone then Inr (trim_space out \<noteq> [])
           else if gr_end r = GitExit 1 \<and> trim_space err = [] then Inr False
           else git_failed (''git rev-parse HEAD failed: '' @ run_message err (gr_end r)))"

section \<open>Commits\<close>

record git_commit =
  cm_hash :: string
  cm_parents :: "string list"
  cm_authored :: string
  cm_subject :: string

record log_options =
  lg_repository :: string
  lg_path :: string
  lg_limit :: int
  lg_offset :: int

record log_result =
  lo_repository :: string
  lo_is_repo :: bool
  lo_path :: string
  lo_from :: int
  lo_count :: int
  lo_commits :: "git_commit list"
  lo_returned :: nat
  lo_has_more :: bool
  lo_next :: "int option"
  lo_truncated :: bool

definition commit_of :: "string \<Rightarrow> string \<Rightarrow> string \<Rightarrow> string \<Rightarrow> git_commit" where
  "commit_of h ps at subject =
    \<lparr>cm_hash = trim_space h, cm_parents = str_fields ps, cm_authored = trim_space at, cm_subject = bounded_single_line subject 300\<rparr>"

text \<open>Four tokens make a commit; what is left over is dropped.\<close>

fun commits_of :: "string list \<Rightarrow> git_commit list" where
  "commits_of (h # ps # at # subject # rest) = commit_of h ps at subject # commits_of rest"
| "commits_of _ = []"

definition log_tokens :: "string \<Rightarrow> string list" where
  "log_tokens output = rev (dropWhile (\<lambda>t. t = []) (rev (split_on CHR 0x00 output)))"

definition parse_log :: "string \<Rightarrow> git_commit list" where
  "parse_log output = commits_of (log_tokens output)"

abbreviation log_max_limit :: int where "log_max_limit \<equiv> 100"
abbreviation log_max_offset :: int where "log_max_offset \<equiv> 1000"

definition finish_log_page :: "int \<Rightarrow> int \<Rightarrow> log_result \<Rightarrow> log_result" where
  "finish_log_page page_limit offset r =
    (let r1 = (if page_limit < int (length (lo_commits r))
               then (let r0 = r\<lparr>lo_commits := take (nat page_limit) (lo_commits r)\<rparr>; n = offset + page_limit
                     in if n \<le> log_max_offset then r0\<lparr>lo_has_more := True, lo_next := Some n\<rparr> else r0\<lparr>lo_truncated := True\<rparr>)
               else r)
     in r1\<lparr>lo_returned := length (lo_commits r1)\<rparr>)"

definition log_args :: "int \<Rightarrow> int \<Rightarrow> string option \<Rightarrow> string list" where
  "log_args page_limit offset path =
    [''--no-replace-objects'', ''log'', ''--topo-order'', ''--no-show-signature'', ''--format=%H%x00%P%x00%aI%x00%s%x00'',
     ''--skip='' @ digits (nat offset), ''-n'', digits (nat (page_limit + 1))]
    @ (case path of None \<Rightarrow> [] | Some p \<Rightarrow> [''--'', literal_arg p])"

text \<open>The page of a repository that is known to have commits.\<close>

definition log_page :: "git_env \<Rightarrow> repository \<Rightarrow> int \<Rightarrow> int \<Rightarrow> string option \<Rightarrow> log_result \<Rightarrow> git_error + log_result" where
  "log_page env r page_limit offset path result =
    (case run_git_bounded env (rp_root r) log_output_limit (log_args page_limit offset path) of
       Inl e \<Rightarrow> Inl (wrap_repository_error r e)
     | Inr output \<Rightarrow> Inr (finish_log_page page_limit offset (result\<lparr>lo_commits := parse_log output\<rparr>)))"

definition git_log :: "git_env \<Rightarrow> workspace \<Rightarrow> ws_error + repository list \<Rightarrow> string option \<Rightarrow> log_options \<Rightarrow> git_error + log_result" where
  "git_log env w known ctx opts =
    (let page_limit = (if lg_limit opts = 0 then 20 else lg_limit opts); offset = lg_offset opts in
     case ctx of Some e \<Rightarrow> git_failed e
     | None \<Rightarrow>
       if page_limit < 1 \<or> log_max_limit < page_limit then Inl (GitErr (WsError InvalidArgument ''limit must be between 1 and 100''))
       else if offset < 0 \<or> log_max_offset < offset then Inl (GitErr (WsError InvalidArgument ''offset must be between 0 and 1000''))
       else let none = \<lparr>lo_repository = [], lo_is_repo = False, lo_path = [], lo_from = offset, lo_count = page_limit, lo_commits = [],
                  lo_returned = 0, lo_has_more = False, lo_next = None, lo_truncated = False\<rparr>
         in case select_git_repository env w known (lg_repository opts) of
              Inl e \<Rightarrow> Inl (GitErr e)
            | Inr None \<Rightarrow> Inr none
            | Inr (Some r) \<Rightarrow>
               (let found = none\<lparr>lo_repository := rp_path r\<rparr> in
                if trimmed_output (run_git_bounded env (rp_root r) 1024 [''rev-parse'', ''--is-inside-work-tree'']) \<noteq> Some ''true'' then Inr found
                else case (if trim_space (lg_path opts) = [] then Inr None
                           else map_sum id Some (repository_relative_path (ge_repo env) w r (lg_path opts))) of
                  Inl e \<Rightarrow> Inl (GitErr e)
                | Inr path \<Rightarrow>
                   (let result = found\<lparr>lo_is_repo := True, lo_path := (case path of None \<Rightarrow> [] | Some p \<Rightarrow> p)\<rparr> in
                    case git_head_exists env (rp_root r) of
                      Inl e \<Rightarrow> Inl (wrap_repository_error r e)
                    | Inr False \<Rightarrow> Inr result
                    | Inr True \<Rightarrow> log_page env r page_limit offset path result)))"

section \<open>Reading what Git writes\<close>

text \<open>The text Git writes for commits in that format: each one ends with a newline.\<close>

record raw_commit =
  rw_hash :: string
  rw_parents :: "string list"
  rw_authored :: string
  rw_subject :: string

definition render_commit :: "raw_commit \<Rightarrow> string" where
  "render_commit c = rw_hash c @ [CHR 0x00] @ join_with '' '' (rw_parents c) @ [CHR 0x00] @ rw_authored c @ [CHR 0x00]
     @ rw_subject c @ [CHR 0x00, CHR 0x0A]"

definition shown_commit :: "raw_commit \<Rightarrow> git_commit" where
  "shown_commit c = \<lparr>cm_hash = rw_hash c, cm_parents = rw_parents c, cm_authored = rw_authored c,
     cm_subject = bounded_single_line (rw_subject c) 300\<rparr>"

text \<open>A word: ASCII without white space, as hashes and dates are.\<close>

definition plain_word :: "string \<Rightarrow> bool" where
  "plain_word s \<longleftrightarrow> s \<noteq> [] \<and> list_all (\<lambda>c. 33 \<le> byte c \<and> byte c < 127) s"

definition plain_commit :: "raw_commit \<Rightarrow> bool" where
  "plain_commit c \<longleftrightarrow> plain_word (rw_hash c) \<and> list_all plain_word (rw_parents c) \<and> plain_word (rw_authored c)
     \<and> CHR 0x00 \<notin> set (rw_subject c)"

lemma trim_space_newline: "trim_space (CHR 0x0A # s) = trim_space s"
  by (simp add: trim_space_def segs_Cons_ascii byte_def is_space_def)

lemma plain_word_ascii: "plain_word s \<Longrightarrow> is_ascii s" "plain_word s \<Longrightarrow> c \<in> set s \<Longrightarrow> \<not> is_space (byte c) \<and> c \<noteq> CHR 0x00"
  by (auto simp: plain_word_def is_ascii_def list_all_iff is_space_def byte_def)

lemma trim_space_word: "plain_word s \<Longrightarrow> trim_space s = s"
  by (rule trim_space_id) (use plain_word_ascii in \<open>auto simp: plain_word_def\<close>)

lemma fields_word:
  "list_all (\<lambda>c. \<not> is_space (byte c)) w \<Longrightarrow> fields_segs acc (map (\<lambda>c. (byte c, [c])) (w @ rest)) = fields_segs (acc @ w) (map (\<lambda>c. (byte c, [c])) rest)"
  by (induction w arbitrary: acc) auto

lemma words_ascii: "list_all plain_word ws \<Longrightarrow> is_ascii (join_with '' '' ws)"
proof (induction ws)
  case (Cons w ws)
  then show ?case by (cases ws) (auto simp: plain_word_ascii byte_def)
qed simp

lemma words_no_nul: "list_all plain_word ws \<Longrightarrow> CHR 0x00 \<notin> set (join_with '' '' ws)"
proof (induction ws)
  case (Cons w ws)
  then show ?case using plain_word_ascii(2) by (cases ws) auto
qed simp

lemma str_fields_words: "list_all plain_word ws \<Longrightarrow> str_fields (join_with '' '' ws) = ws"
proof -
  assume ws: "list_all plain_word ws"
  have "fields_segs [] (map (\<lambda>c. (byte c, [c])) (join_with '' '' ws)) = ws" using ws
  proof (induction ws)
    case (Cons w ws)
    have w: "list_all (\<lambda>c. \<not> is_space (byte c)) w" "w \<noteq> []" using Cons.prems plain_word_ascii(2) by (auto simp: list_all_iff plain_word_def)
    show ?case
    proof (cases ws)
      case Nil
      then show ?thesis using fields_word [OF w(1), of "[]" "[]"] w(2) by simp
    next
      case (Cons w' ws')
      then show ?thesis using fields_word [OF w(1), of "[]" "CHR '' '' # join_with '' '' ws"] w(2) Cons.IH Cons.prems
        by (simp add: is_space_def byte_def)
    qed
  qed simp
  then show ?thesis using words_ascii [OF ws] by (simp add: str_fields_def segs_ascii)
qed

lemma commits_from:
  "list_all plain_commit cs \<Longrightarrow> pre = [] \<or> pre = [CHR 0x0A] \<Longrightarrow>
    commits_of (split_on CHR 0x00 (pre @ concat (map render_commit cs))) = map shown_commit cs"
proof (induction cs arbitrary: pre)
  case (Cons c cs)
  let ?more = "[CHR 0x0A] @ concat (map render_commit cs)"
  have plain: "plain_word (rw_hash c)" "list_all plain_word (rw_parents c)" "plain_word (rw_authored c)" "CHR 0x00 \<notin> set (rw_subject c)"
    using Cons.prems(1) by (simp_all add: plain_commit_def)
  have nul: "CHR 0x00 \<notin> set (pre @ rw_hash c)" "CHR 0x00 \<notin> set (join_with '' '' (rw_parents c))" "CHR 0x00 \<notin> set (rw_authored c)"
    using plain Cons.prems(2) plain_word_ascii(2) words_no_nul by auto
  have rendered: "pre @ concat (map render_commit (c # cs)) = (pre @ rw_hash c) @ CHR 0x00 # join_with '' '' (rw_parents c) @ CHR 0x00
      # rw_authored c @ CHR 0x00 # rw_subject c @ CHR 0x00 # ?more"
    by (simp add: render_commit_def)
  have "trim_space (pre @ rw_hash c) = rw_hash c"
    using Cons.prems(2) trim_space_word [OF plain(1)] by (auto simp: trim_space_newline)
  moreover have "commits_of (split_on CHR 0x00 ?more) = map shown_commit cs" using Cons.IH [of "[CHR 0x0A]"] Cons.prems(1) by simp
  ultimately show ?case
    unfolding rendered split_on_head [OF nul(1)] split_on_head [OF nul(2)] split_on_head [OF nul(3)] split_on_head [OF plain(4)] commits_of.simps
    by (simp add: commit_of_def shown_commit_def str_fields_words plain(2) trim_space_word plain(3))
qed auto

lemma parse_log_reads_git:
  assumes "list_all plain_commit cs"
  shows "parse_log (concat (map render_commit cs)) = map shown_commit cs"
proof -
  have "log_tokens (concat (map render_commit cs)) = split_on CHR 0x00 (concat (map render_commit cs)) \<or> cs = []"
  proof (cases cs rule: rev_cases)
    case (snoc cs' c)
    obtain t where "concat (map render_commit cs) = t @ CHR 0x00 # [CHR 0x0A]" by (simp add: snoc render_commit_def)
    then show ?thesis using split_on_sep [of "CHR 0x00" t "[CHR 0x0A]"] by (simp add: log_tokens_def)
  qed simp
  then show ?thesis using commits_from [OF assms, of "[]"] by (auto simp: parse_log_def log_tokens_def)
qed

text \<open>
  C29: The pages of the history are the history, within the window of the program: when Git prints the commits after
  the offset, one more than the limit, the page holds exactly the next commits in order, hash, parents and date as
  they are.  If the history goes on, the page names the next offset when that is at most 1000, and says that it is
  truncated when it is not; if the history ends with the page, it does neither.
\<close>

theorem log_pages_follow_the_history:
  assumes "run_git_bounded env (rp_root r) log_output_limit (log_args page_limit offset path)
      = Inr (concat (map render_commit (take (nat (page_limit + 1)) (drop (nat offset) history))))"
    and "list_all plain_commit history" and "1 \<le> page_limit" and "0 \<le> offset"
    and "lo_next result = None" and "\<not> lo_has_more result" and "\<not> lo_truncated result"
  shows "\<exists>page. log_page env r page_limit offset path result = Inr page
    \<and> lo_commits page = map shown_commit (take (nat page_limit) (drop (nat offset) history))
    \<and> lo_returned page = length (lo_commits page)
    \<and> lo_next page = (if offset + page_limit < int (length history) \<and> offset + page_limit \<le> 1000 then Some (offset + page_limit) else None)
    \<and> lo_has_more page = (offset + page_limit < int (length history) \<and> offset + page_limit \<le> 1000)
    \<and> lo_truncated page = (offset + page_limit < int (length history) \<and> 1000 < offset + page_limit)"
proof -
  let ?seen = "take (nat (page_limit + 1)) (drop (nat offset) history)"
  have plain: "list_all plain_commit ?seen" using assms(2) by (auto simp: list_all_iff dest: in_set_takeD in_set_dropD)
  have many: "page_limit < int (length ?seen) \<longleftrightarrow> offset + page_limit < int (length history)" using assms(3,4) by auto
  have page: "log_page env r page_limit offset path result = Inr (finish_log_page page_limit offset (result\<lparr>lo_commits := map shown_commit ?seen\<rparr>))"
    unfolding log_page_def assms(1) by (simp add: parse_log_reads_git [OF plain])
  have cut: "take (nat page_limit) ?seen = take (nat page_limit) (drop (nat offset) history)" using assms(3) by (simp add: min_def)
  show ?thesis
  proof (cases "page_limit < int (length ?seen)")
    case True
    then show ?thesis using many cut assms(5-7) unfolding page by (simp add: finish_log_page_def Let_def take_map del: take_take)
  next
    case False
    then have "take (nat page_limit) ?seen = ?seen" using assms(3) by (intro take_all) linarith
    then have "?seen = take (nat page_limit) (drop (nat offset) history)" using cut by simp
    then show ?thesis using False many assms(5-7) unfolding page by (simp add: finish_log_page_def Let_def del: take_take)
  qed
qed

definition example_commit :: raw_commit where
  "example_commit = \<lparr>rw_hash = ''0a1b'', rw_parents = [''1c2d'', ''2e3f''], rw_authored = ''2025-01-02T03:04:05Z'', rw_subject = ''Fix the loop''\<rparr>"

definition log_env :: git_env where
  "log_env = \<lparr>ge_repo = tree_env, ge_upper = id, ge_environ = [],
     ge_run = (\<lambda>_ _ _. \<lparr>gr_out = [render_commit example_commit], gr_err = [], gr_end = GitDone, gr_ctx = None\<rparr>)\<rparr>"

definition no_log :: log_result where
  "no_log = \<lparr>lo_repository = ''api'', lo_is_repo = True, lo_path = [], lo_from = 0, lo_count = 20, lo_commits = [], lo_returned = 0,
     lo_has_more = False, lo_next = None, lo_truncated = False\<rparr>"

theorem log_pages_follow_the_history_witness:
  "\<exists>page. log_page log_env api_repository 20 0 None no_log = Inr page \<and> lo_commits page = [shown_commit example_commit] \<and> lo_next page = None
     \<and> \<not> lo_truncated page"
proof -
  have "run_git_bounded log_env (rp_root api_repository) log_output_limit (log_args 20 0 None)
      = Inr (concat (map render_commit (take (nat (20 + 1)) (drop (nat 0) [example_commit]))))"
    by (simp add: run_git_bounded_def log_env_def captured_is Let_def) (simp add: render_commit_def example_commit_def)
  moreover have "list_all plain_commit [example_commit]"
    by (simp add: plain_commit_def example_commit_def plain_word_def byte_def)
  moreover have "lo_next no_log = None" "\<not> lo_has_more no_log" "\<not> lo_truncated no_log" by (simp_all add: no_log_def)
  ultimately show ?thesis
    using log_pages_follow_the_history [of log_env api_repository 20 0 None "[example_commit]" no_log] by (simp, blast)
qed

end
