(* ===== verification/GitProps.thy ===== *)
theory GitProps
  imports GitPages GitLog
begin

text \<open>
  What the status lists and keeps back, which configuration of a repository has no effect, and the places where the code
  does not do what it means to.
\<close>

section \<open>Status\<close>

text \<open>
  What a status should list, said without the loop.  The records of Git as the code reads them: two letters of
  state, a path, and after an R or C in the first column the path it had before in the next record.
\<close>

datatype status_line = StatusLine (sl_state: string) (sl_path: string) (sl_from: "string option")

function status_lines :: "string list \<Rightarrow> status_line list" where
  "status_lines [] = []"
| "status_lines (entry # rest) =
    (if length entry < 3 then status_lines rest
     else if entry ! 0 \<in> {CHR ''R'', CHR ''C''} \<and> rest \<noteq> []
     then StatusLine (take 2 entry) (drop 3 entry) (Some (hd rest)) # status_lines (tl rest)
     else StatusLine (take 2 entry) (drop 3 entry) None # status_lines rest)"
  by pat_completeness auto

termination
  by (relation "measure length") auto

definition line_visible :: "(string \<Rightarrow> bool) \<Rightarrow> status_line \<Rightarrow> bool" where
  "line_visible hidden l \<longleftrightarrow> \<not> hidden (sl_path l) \<and> (\<forall>p \<in> set_option (sl_from l). \<not> hidden p)"

definition line_label :: "status_line \<Rightarrow> string" where
  "line_label l = (case sl_from l of None \<Rightarrow> sl_path l | Some p \<Rightarrow> p @ '' -> '' @ sl_path l)"

definition line_changed :: "nat \<Rightarrow> status_line \<Rightarrow> bool" where
  "line_changed column l \<longleftrightarrow> sl_state l \<notin> {''??'', ''!!''} \<union> set conflict_codes \<and> sl_state l ! column \<noteq> CHR '' ''"

definition line_change :: "nat \<Rightarrow> status_line \<Rightarrow> git_change" where
  "line_change column l = \<lparr>gc_path = line_label l, gc_change = encode_rune (byte (sl_state l ! column))\<rparr>"

definition lists_visible :: "(string \<Rightarrow> bool) \<Rightarrow> status_line list \<Rightarrow> git_status \<Rightarrow> bool" where
  "lists_visible hidden ls st \<longleftrightarrow> (let seen = filter (line_visible hidden) ls in
     gs_staged st = map (line_change 0) (filter (line_changed 0) seen)
     \<and> gs_unstaged st = map (line_change 1) (filter (line_changed 1) seen)
     \<and> gs_untracked st = map sl_path (filter (\<lambda>l. sl_state l = ''??'') seen)
     \<and> gs_conflicted st = map line_label (filter (\<lambda>l. sl_state l \<in> set conflict_codes) seen)
     \<and> gs_redacted st = length (filter (\<lambda>l. \<not> line_visible hidden l) ls))"

text \<open>One record adds what it stands for to a status that lists those before it.\<close>

lemma conflict_states: "''??'' \<notin> set conflict_codes" "''!!'' \<notin> set conflict_codes"
  by (simp_all add: conflict_codes_def)

lemma status_entry_lists:
  assumes "lists_visible hidden ls st" and "sensitive \<longleftrightarrow> \<not> line_visible hidden l" and "shown = line_label l"
  shows "lists_visible hidden (ls @ [l]) (status_entry (sl_state l) (sl_path l) shown sensitive st)"
proof (cases sensitive)
  case True
  then show ?thesis using assms by (simp add: lists_visible_def status_entry_def Let_def)
next
  case False
  then have vis: "line_visible hidden l" using assms(2) by simp
  consider "sl_state l = ''??''" | "sl_state l = ''!!''" | "sl_state l \<in> set conflict_codes" | "sl_state l \<notin> {''??'', ''!!''} \<union> set conflict_codes"
    by auto
  then show ?thesis
  proof cases
    case 4
    then show ?thesis using assms(1,3) vis False
      by (simp add: lists_visible_def status_entry_def line_changed_def line_change_def Let_def)
  qed (use assms(1,3) vis False conflict_states in \<open>auto simp: lists_visible_def status_entry_def line_changed_def Let_def\<close>)
qed

declare status_loop.simps(2) [simp del] status_lines.simps(2) [simp del]

lemma status_loop_lists:
  "lists_visible hidden ls st \<Longrightarrow> lists_visible hidden (ls @ status_lines rs) (status_loop hidden rs st)"
proof (induction hidden rs st arbitrary: ls rule: status_loop.induct)
  case (2 hidden entry rest st)
  show ?case
  proof (cases "length entry < 3")
    case True
    then show ?thesis using 2(1) "2.prems" by (simp add: status_loop.simps(2) status_lines.simps(2))
  next
    case False
    let ?xy = "take 2 entry" and ?p = "drop 3 entry"
    have col: "?xy ! 0 = entry ! 0" by simp
    show ?thesis
    proof (cases "(?xy ! 0 = CHR ''R'' \<or> ?xy ! 0 = CHR ''C'') \<and> rest \<noteq> []")
      case True
      let ?l = "StatusLine ?xy ?p (Some (hd rest))"
      have "lists_visible hidden (ls @ [?l]) (status_entry ?xy ?p (hd rest @ '' -> '' @ ?p) (hidden ?p \<or> hidden (hd rest)) st)"
        using status_entry_lists [OF "2.prems", of _ ?l] by (simp add: line_visible_def line_label_def)
      from 2(2) [OF False refl refl True this] have
        "lists_visible hidden (ls @ ?l # status_lines (tl rest)) (status_loop hidden (tl rest)
           (status_entry ?xy ?p (hd rest @ '' -> '' @ ?p) (hidden ?p \<or> hidden (hd rest)) st))" by simp
      moreover have "status_lines (entry # rest) = ?l # status_lines (tl rest)"
        using False True col by (simp add: status_lines.simps(2))
      ultimately show ?thesis
        unfolding status_loop.simps(2) [of hidden entry rest st] using False True by (simp only: Let_def if_False if_True simp_thms)
    next
      case plain: False
      let ?l = "StatusLine ?xy ?p None"
      have "lists_visible hidden (ls @ [?l]) (status_entry ?xy ?p ?p (hidden ?p) st)"
        using status_entry_lists [OF "2.prems", of _ ?l] by (simp add: line_visible_def line_label_def)
      from 2(3) [OF False refl refl plain this] have
        "lists_visible hidden (ls @ ?l # status_lines rest) (status_loop hidden rest (status_entry ?xy ?p ?p (hidden ?p) st))" by simp
      moreover have "status_lines (entry # rest) = ?l # status_lines rest"
        using False plain col by (auto simp: status_lines.simps(2))
      ultimately show ?thesis
        unfolding status_loop.simps(2) [of hidden entry rest st] using False plain by (simp only: Let_def if_False)
    qed
  qed
qed simp

text \<open>
  C19: The status lists exactly the visible records of Git's answer, as the code reads them, each in its place and
  in order: a record whose path is sensitive, or the path it had before a rename or copy, is not listed at all
  but only counted.  (The code reads a rename in the work tree as two records, see
  \<open>worktree_rename_is_misread\<close>; what it then takes for a path is not the path.)
\<close>

theorem status_lists_the_visible_records:
  assumes "select_git_repository env w known selector = Inr (Some r)" and "git_status_for env w known selector = Inr st"
  shows "if gs_is_repo st
    then \<exists>out. run_git env (rp_root r) (status_args ''--porcelain=v1'') = Inr out
      \<and> lists_visible (hidden_path w r) (status_lines (split_nul out)) st
    else lists_visible (hidden_path w r) [] st"
proof -
  have none: "lists_visible h [] (empty_status\<lparr>gs_repository := a, gs_is_repo := b, gs_branch := c\<rparr>)" for h a b c
    by (simp add: empty_status_def lists_visible_def)
  have up: "lists_visible h ls (with_upstream env r s) = lists_visible h ls s" "gs_is_repo (with_upstream env r s) = gs_is_repo s" for h ls s
    by (auto simp: with_upstream_def lists_visible_def Let_def split: option.split sum.split list.split)
  have entry: "gs_is_repo (status_entry xy p shown b s) = gs_is_repo s" for xy p shown b s
    by (simp add: status_entry_def Let_def)
  have repo: "gs_is_repo (status_loop h rs s) = gs_is_repo s" for h rs s
    by (induction h rs s rule: status_loop.induct) (simp_all add: status_loop.simps(2) entry Let_def)
  note loop = status_loop_lists [of "hidden_path w r" "[]", simplified]
  show ?thesis
    using assms none loop
    by (auto simp: git_status_for_def Let_def up repo empty_status_def split: sum.splits if_splits)
qed

text \<open>
  Git writes a rename in the work tree (of a file added with intent to add) as a space, R, a space and the new
  name, and the old name in the next record.  The code expects the old name only after an R in the first
  column, so it takes the old name for a record of its own: its first two letters become a state and the
  rest a path, which is checked in its stead.
\<close>

theorem worktree_rename_is_misread:
  "status_loop (\<lambda>p. p = ''id_rsa'') ['' R key.txt'', ''id_rsa''] empty_status
    = empty_status\<lparr>gs_staged := [\<lparr>gc_path = ''rsa'', gc_change = ''i''\<rparr>],
        gs_unstaged := [\<lparr>gc_path = ''key.txt'', gc_change = ''R''\<rparr>, \<lparr>gc_path = ''rsa'', gc_change = ''d''\<rparr>]\<rparr>"
  by (simp add: status_loop.simps(2) status_entry_def empty_status_def conflict_codes_def encode_rune_def byte_def Let_def char_of_is)

section \<open>Diffs\<close>

text \<open>
  A file that became a directory: its path is asked for, and as a path of Git it covers everything below,
  a sensitive file of the same inventory included.
\<close>

theorem asked_path_covers_a_secret:
  "inventory_loop (\<lambda>p. p = ''config/.env'') ''.'' [''D'', ''config'', ''A'', ''config/.env''] ([], 0) = ([''config''], 1)
    \<and> in_scope ''config/.env'' ''config''"
  by (simp add: inventory_loop.simps(2) has_prefix_def in_scope_def trim_suffix_def has_suffix_def add_path_def)

section \<open>Filters\<close>

text \<open>A key of the filter configuration, as Git prints it.\<close>

definition filter_key :: "string \<Rightarrow> string \<Rightarrow> string" where
  "filter_key d suffix = ''filter.'' @ d @ ''.'' @ suffix"

lemma last_index_dot: "CHR ''.'' \<notin> set t \<Longrightarrow> last_index CHR ''.'' (s @ CHR ''.'' # t) = Some (length s)"
proof (induction s)
  case Nil
  have "CHR ''.'' \<notin> set t \<Longrightarrow> last_index CHR ''.'' t = None" for t by (induction t) auto
  then show ?case using Nil by simp
qed simp

lemma to_lower_length: "is_ascii s \<Longrightarrow> is_ascii (to_lower low s) \<and> length (to_lower low s) = length s"
  by (induction s) (auto simp: to_lower_def runes_Cons_ascii encode_runes_def encode_rune_def lower_rune_def)

lemma to_lower_parts: "is_ascii s \<Longrightarrow> is_ascii t \<Longrightarrow> to_lower low (s @ t) = to_lower low s @ to_lower low t"
  by (induction s) (simp_all add: to_lower_def runes_Cons_ascii encode_runes_def)

definition filter_suffixes :: "string list" where
  "filter_suffixes = [''clean'', ''smudge'', ''process'', ''required'']"

lemma to_lower_fixed: "to_lower low ''filter.'' = ''filter.''" "s \<in> set filter_suffixes \<Longrightarrow> to_lower low (CHR ''.'' # s) = CHR ''.'' # s"
  by (auto simp: filter_suffixes_def to_lower_def runes_Cons_ascii encode_runes_def encode_rune_def lower_rune_def byte_def char_of_is)

lemma filter_driver_key:
  assumes "is_ascii d" and "d \<noteq> []" and "suffix \<in> set filter_suffixes"
  shows "filter_driver low (filter_key d suffix) =
    (if safe_git_config_subsection d then Inr (Some d) else git_failed (''unsafe Git filter driver name '' @ go_quote d))"
proof -
  define p where "p = ''filter.''"
  define key where "key = filter_key d suffix"
  have tail: "is_ascii (CHR ''.'' # suffix)" "CHR ''.'' \<notin> set suffix" "suffix \<in> {''clean'', ''smudge'', ''process'', ''required''}"
    using assms(3) by (auto simp: filter_suffixes_def byte_def)
  have p: "is_ascii p" "length p = 7" "to_lower low p = p" by (simp_all add: p_def byte_def to_lower_fixed)
  have key: "key = p @ d @ CHR ''.'' # suffix" by (simp add: key_def filter_key_def p_def)
  have "to_lower low key = to_lower low p @ to_lower low (d @ CHR ''.'' # suffix)"
    unfolding key by (rule to_lower_parts) (use p assms(1) tail(1) in simp_all)
  also have "to_lower low (d @ CHR ''.'' # suffix) = to_lower low d @ to_lower low (CHR ''.'' # suffix)"
    by (rule to_lower_parts) (use assms(1) tail(1) in simp_all)
  finally have lower: "to_lower low key = p @ to_lower low d @ CHR ''.'' # suffix"
    using to_lower_fixed(2) [OF assms(3), of low] p(3) by simp
  have len: "length (to_lower low d) = length d" using to_lower_length [OF assms(1)] by simp
  have dot: "last_index CHR ''.'' (to_lower low key) = Some (7 + length d)"
    using last_index_dot [OF tail(2), of "p @ to_lower low d"] len p(2) by (simp add: lower)
  have parts: "drop (Suc (7 + length d)) (to_lower low key) = suffix" "has_prefix (to_lower low key) p"
    unfolding lower using len p(2) by simp_all
  have parts': "drop (length p) (take (7 + length d) key) = d" "\<not> length key < 7 + length d" "\<not> 7 + length d \<le> length p"
    unfolding key using p(2) assms(2) by simp_all
  have "filter_driver low key = (if safe_git_config_subsection d then Inr (Some d) else git_failed (''unsafe Git filter driver name '' @ go_quote d))"
    unfolding filter_driver_def p_def [symmetric] Let_def dot using parts parts' tail(3) by (simp only: option.simps if_False if_True not_not simp_thms)
  then show ?thesis by (simp only: key_def)
qed

text \<open>Beyond ASCII: the folded key still ends in the suffix, and the driver that is cut out holds a byte beyond ASCII.\<close>

lemma to_lower_before_ascii: "byte a < 128 \<Longrightarrow> to_lower low (s @ a # t) = to_lower low s @ to_lower low (a # t)"
  by (simp add: to_lower_def runes_def segs_before_ascii encode_runes_def)

lemma to_lower_after_ascii: "is_ascii s \<Longrightarrow> to_lower low (s @ t) = to_lower low s @ to_lower low t"
  by (induction s) (simp_all add: to_lower_def runes_Cons_ascii encode_runes_def)

lemma to_lower_nonempty: "to_lower low (c # s) \<noteq> []"
proof -
  have "encode_rune r \<noteq> []" for r by (simp add: encode_rune_def)
  then show ?thesis by (cases "decode1 (c # s)") (simp add: to_lower_def runes_def segs.simps(2) encode_runes_def)
qed

lemma safe_subsection_ascii: "safe_git_config_subsection v \<Longrightarrow> is_ascii v"
proof -
  assume "safe_git_config_subsection v"
  then have "list_all (\<lambda>r. r < 128) (runes v)"
    by (auto simp: safe_git_config_subsection_def list_all_iff config_char_def byte_def)
  then show ?thesis by (simp add: runes_ascii_iff)
qed

lemma filter_driver_beyond_ascii:
  assumes "suffix \<in> set filter_suffixes" and "\<not> is_ascii d \<or> d = []"
  shows "\<exists>e. filter_driver low (filter_key d suffix) = Inl e"
proof -
  define p where "p = ''filter.''"
  define key where "key = filter_key d suffix"
  define L where "L = to_lower low d"
  have tail: "CHR ''.'' \<notin> set suffix" "suffix \<in> {''clean'', ''smudge'', ''process'', ''required''}"
    using assms(1) by (auto simp: filter_suffixes_def byte_def)
  have p: "is_ascii p" "length p = 7" "to_lower low p = p" by (simp_all add: p_def byte_def to_lower_fixed)
  have key: "key = p @ d @ CHR ''.'' # suffix" by (simp add: key_def filter_key_def p_def)
  have "to_lower low (d @ CHR ''.'' # suffix) = L @ CHR ''.'' # suffix"
    using to_lower_before_ascii [of "CHR ''.''" low d suffix] to_lower_fixed(2) [OF assms(1)] by (simp add: L_def byte_def)
  then have lower: "to_lower low key = p @ L @ CHR ''.'' # suffix"
    unfolding key by (simp add: to_lower_after_ascii [OF p(1)] p(3))
  have dot: "last_index CHR ''.'' (to_lower low key) = Some (7 + length L)"
    using last_index_dot [OF tail(1), of "p @ L"] p(2) by (simp add: lower)
  have parts: "drop (Suc (7 + length L)) (to_lower low key) = suffix" "has_prefix (to_lower low key) p"
    unfolding lower using p(2) by simp_all
  have cut: "drop (length p) (take (7 + length L) key) = take (length L) (d @ CHR ''.'' # suffix)"
    unfolding key using p(2) by simp
  have "\<not> safe_git_config_subsection (take (length L) (d @ CHR ''.'' # suffix))" if "d \<noteq> []"
  proof
    assume "safe_git_config_subsection (take (length L) (d @ CHR ''.'' # suffix))"
    then have ascii: "is_ascii (take (length L) (d @ CHR ''.'' # suffix))" by (rule safe_subsection_ascii)
    have "\<not> list_all (\<lambda>c. byte c < 128) d" using assms(2) that by (simp add: is_ascii_def)
    then obtain a c e where d: "d = a @ c # e" "\<forall>x \<in> set a. byte x < 128" "\<not> byte c < 128"
      using split_list_first_prop [of d "\<lambda>c. \<not> byte c < 128"] by (auto simp: list_all_iff)
    then have a: "is_ascii a" by (simp add: is_ascii_def list_all_iff)
    have "length a < length L"
      using to_lower_length [OF a, of low] to_lower_nonempty [of low c e]
      by (simp add: L_def d(1) to_lower_after_ascii [OF a])
    then have "take (length L) (d @ CHR ''.'' # suffix) = a @ c # take (length L - Suc (length a)) (e @ CHR ''.'' # suffix)"
      by (simp add: d(1) take_Cons' split: if_splits)
    then show False using ascii d(3) by simp
  qed
  then have unsafe: "\<not> safe_git_config_subsection (drop (length p) (take (7 + length L) key))" if "d \<noteq> []"
    using that unfolding cut by blast
  have "L = []" if "d = []" using that by (simp add: L_def to_lower_def encode_runes_def)
  then have short: "7 + length L \<le> length p" if "d = []" using that p(2) by simp
  have unfolded: "filter_driver low key = (if 7 + length L \<le> length p then git_failed (''unsafe Git filter configuration key '' @ go_quote key)
      else if length key < 7 + length L then Inl GitPanic
      else if safe_git_config_subsection (drop (length p) (take (7 + length L) key)) then Inr (Some (drop (length p) (take (7 + length L) key)))
      else git_failed (''unsafe Git filter driver name '' @ go_quote (drop (length p) (take (7 + length L) key))))"
    unfolding filter_driver_def p_def [symmetric] Let_def dot using parts tail(2) by (simp only: option.simps if_False if_True not_not simp_thms)
  have "\<exists>e. filter_driver low key = Inl e"
  proof (cases "d = []")
    case True
    show ?thesis unfolding unfolded if_P [OF short [OF True]] by blast
  next
    case False
    show ?thesis unfolding unfolded if_not_P [OF unsafe [OF False]] by (simp split: if_split)
  qed
  then show ?thesis by (simp only: key_def)
qed

lemma filter_driver_result:
  assumes "filter_driver low (filter_key d suffix) = Inr found" and "suffix \<in> set filter_suffixes"
  shows "found = Some d \<and> safe_git_config_subsection d"
proof (cases "\<not> is_ascii d \<or> d = []")
  case True
  from filter_driver_beyond_ascii [OF assms(2) this, of low] assms(1) show ?thesis by (metis Inl_Inr_False)
next
  case False
  then have d: "is_ascii d" "d \<noteq> []" by blast+
  from filter_driver_key [OF d assms(2), of low] assms(1) show ?thesis by (cases "safe_git_config_subsection d") (metis sum.inject(2), metis Inl_Inr_False)
qed

lemma filter_drivers_found:
  "filter_drivers low ds raws = Inr ds' \<Longrightarrow> set ds \<subseteq> set ds' \<and> (\<forall>raw \<in> set raws. trim_space raw = [] \<or>
     (\<exists>o1. filter_driver low (trim_space raw) = Inr o1 \<and> (\<forall>d. o1 = Some d \<longrightarrow> d \<in> set ds')))"
  by (induction low ds raws rule: filter_drivers.induct) (fastforce simp: Let_def split: if_splits sum.splits option.splits)+

text \<open>The settings that switch a driver off.\<close>

definition switched_off :: "string \<Rightarrow> string list" where
  "switched_off d = concat (map (\<lambda>setting. [''-c'', ''filter.'' @ d @ setting]) [''.clean='', ''.smudge='', ''.process='', ''.required=false''])"

lemma overrides_switch_off: "driver_overrides = switched_off"
  by (rule ext) (simp add: driver_overrides_def switched_off_def)

text \<open>
  C21: Filters that a repository configures do not run: when a status or diff succeeds, the name of every driver
  that Git listed in its configuration, whatever bytes it is made of, is safe to put on a command line, and Git
  ran with the four settings of each of these drivers switched off.
\<close>

theorem configured_filters_are_disabled:
  assumes "run_git env root args = Inr out" and "needs_filters args"
    and "gr_end (ge_run env (safe_git_environment env) root filter_query) = GitDone"
  shows "\<exists>ds run. (\<forall>raw d suffix. raw \<in> set (split_on CHR 0x00 (concat (gr_out (ge_run env (safe_git_environment env) root filter_query))))
        \<and> trim_space raw = filter_key d suffix \<and> suffix \<in> set filter_suffixes \<longrightarrow> safe_git_config_subsection d \<and> d \<in> set ds)
    \<and> run = ge_run env (safe_git_environment env) root (git_config_overrides @ concat (map switched_off ds) @ args)
    \<and> gr_end run = GitDone \<and> out = concat (gr_out run)"
proof -
  obtain fs where fs: "discover_filter_overrides env root = Inr fs" "run_git_with_overrides env root (git_config_overrides @ fs) args = Inr out"
    using assms(1,2) by (auto simp: run_git_def split: sum.splits)
  obtain ds where ds: "filter_drivers (ge_low env) [] (split_on CHR 0x00 (concat (gr_out (ge_run env (safe_git_environment env) root filter_query)))) = Inr ds"
      "fs = concat (map driver_overrides (sort ds))"
    using fs(1) assms(3) by (auto simp: discover_filter_overrides_def Let_def map_sum_def split: sum.splits)
  have listed: "safe_git_config_subsection d \<and> d \<in> set (sort ds)"
    if "raw \<in> set (split_on CHR 0x00 (concat (gr_out (ge_run env (safe_git_environment env) root filter_query))))"
      and "trim_space raw = filter_key d suffix" and "suffix \<in> set filter_suffixes" for raw d suffix
  proof -
    have "filter_key d suffix \<noteq> []" by (simp add: filter_key_def)
    with filter_drivers_found [OF ds(1)] that(1,2) obtain found where
      found: "filter_driver (ge_low env) (filter_key d suffix) = Inr found" "\<forall>d'. found = Some d' \<longrightarrow> d' \<in> set ds" by fastforce
    from filter_driver_result [OF found(1) that(3)] found(2) show ?thesis by simp
  qed
  define run where "run = ge_run env (safe_git_environment env) root (git_config_overrides @ concat (map switched_off (sort ds)) @ args)"
  have "gr_end run = GitDone \<and> out = concat (gr_out run)"
    using fs(2) by (simp add: run_git_with_overrides_def ds(2) overrides_switch_off run_def Let_def split: git_end.splits)
  then show ?thesis using listed run_def by blast
qed

text \<open>
  A driver name beyond ASCII: invalid bytes grow from one byte to three when the key is folded, the position
  of the last dot lies beyond the end of the key, and the slice panics.
\<close>

theorem latin1_driver_panics:
  "filter_driver id (filter_key [CHR 0xE9, CHR 0xE9, CHR 0xE9, CHR 0xE9] ''clean'') = Inl GitPanic"
proof -
  let ?bad = "[CHR 0xEF, CHR 0xBF, CHR 0xBD]"
  have f: "to_lower id (filter_key [CHR 0xE9, CHR 0xE9, CHR 0xE9, CHR 0xE9] ''clean'') = ''filter.'' @ ?bad @ ?bad @ ?bad @ ?bad @ ''.clean''"
    by (simp add: filter_key_def to_lower_def runes_def segs.simps(2) decode1_def in_range_def byte_def encode_runes_def encode_rune_def
        lower_rune_def char_of_is)
  show ?thesis unfolding filter_driver_def f by (simp add: Let_def has_prefix_def filter_key_def)
qed

section \<open>The environment\<close>

lemma no_caller_variables:
  assumes "entry \<in> set (safe_git_environment env)" and "has_prefix (to_upper (ge_upper env) (takeWhile (\<lambda>c. c \<noteq> CHR ''='') entry)) ''GIT_''"
  shows "entry \<in> set fixed_environment"
  using assms by (auto simp: safe_git_environment_def kept_entry_def Let_def)

section \<open>Examples\<close>

definition secret_workspace :: workspace where
  "secret_workspace = (plain_workspace ''/w'')\<lparr>ws_policy := \<lparr>po_sensitive = new_rule_set [''id_rsa''], po_noise = [], po_custom = []\<rparr>\<rparr>"

lemma key_is_secret: "hidden_path secret_workspace api_repository ''id_rsa''"
proof -
  have parts: "rule_parts ''id_rsa'' = Some (False, False, False, ''id_rsa'')" by (simp add: glob_eval)
  have "foldl (last_rule ''api/id_rsa'') False (new_rule_set [''id_rsa''])"
    by (rule plain_rules_match [OF _ _ parts]) (simp_all add: plain_rule_def glob_eval)
  then show ?thesis
    by (simp add: hidden_path_def secret_workspace_def is_sensitive_def rule_set_matches_def workspace_path_def api_repository_def
        normalize_relative_def trim_suffix_def trim_prefix_def has_prefix_def has_suffix_def Let_def)
qed

text \<open>A repository with one new file and one changed file, and no filters.\<close>

definition demo_run :: "string list \<Rightarrow> string \<Rightarrow> string list \<Rightarrow> git_run" where
  "demo_run vars dir args =
    \<lparr>gr_out = [if ''-z'' \<in> set args then ''?? id_rsa'' @ [CHR 0x00] else ''true''],
     gr_err = [], gr_end = (if ''config'' \<in> set args then GitExit 1 else GitDone), gr_ctx = None\<rparr>"

definition demo_env :: git_env where
  "demo_env = \<lparr>ge_repo = tree_env, ge_upper = id, ge_environ = [], ge_run = demo_run\<rparr>"

lemma demo_selected: "select_git_repository (demo_env\<lparr>ge_run := run\<rparr>) secret_workspace (Inr [api_repository]) [] = Inr (Some api_repository)"
proof -
  have "repository_marker tree_env secret_workspace ''/w/api'' = Inr True" by (simp add: repo_eval secret_workspace_def)
  moreover have "rp_root api_repository = ''/w/api''" by (simp add: api_repository_def)
  moreover have "resolve_repository tree_env [api_repository] [] = Inr api_repository"
    by (simp add: resolve_repository_def normalize_selector_def replace_char_def trim_suffix_def has_suffix_def has_prefix_def trim_space_def path_eval)
  ultimately show ?thesis by (simp add: select_git_repository_def demo_env_def)
qed

lemma demo_git: "run_git demo_env root args = Inr (if ''-z'' \<in> set args then ''?? id_rsa'' @ [CHR 0x00] else ''true'')" if "''config'' \<notin> set args"
proof -
  have "''config'' \<in> set filter_query" "''config'' \<notin> set git_config_overrides" "''-z'' \<notin> set git_config_overrides"
    by (simp_all add: filter_query_def git_config_overrides_def)
  then show ?thesis
    using that by (simp add: run_git_def discover_filter_overrides_def run_git_with_overrides_def demo_env_def demo_run_def Let_def)
qed

theorem status_lists_the_visible_records_witness:
  "\<exists>st. git_status_for demo_env secret_workspace (Inr [api_repository]) [] = Inr st \<and> gs_is_repo st
    \<and> lists_visible (hidden_path secret_workspace api_repository) [StatusLine ''??'' ''id_rsa'' None] st \<and> gs_redacted st = 1"
proof -
  have sel: "select_git_repository demo_env secret_workspace (Inr [api_repository]) [] = Inr (Some api_repository)"
    using demo_selected [of demo_run] by (simp add: demo_env_def)
  have yes: "trim_space ''true'' = ''true''" by (simp add: glob_eval)
  have info: "\<exists>info. git_info_for demo_env api_repository = Inr info \<and> gi_is_repo info"
    by (simp add: git_info_for_def demo_git trimmed_output_def yes status_args_def)
  have records: "split_nul (''?? id_rsa'' @ [CHR 0x00]) = [''?? id_rsa'']" by (simp add: split_nul_def)
  have entry: "status_loop (hidden_path secret_workspace api_repository) [''?? id_rsa''] st = st\<lparr>gs_redacted := Suc (gs_redacted st)\<rparr>" for st
    by (simp add: status_loop.simps(2) status_entry_def key_is_secret)
  have up: "gs_redacted (with_upstream demo_env api_repository st) = gs_redacted st" "gs_is_repo (with_upstream demo_env api_repository st) = gs_is_repo st" for st
    by (simp_all add: with_upstream_def Let_def split: option.split sum.split list.split)
  from up have "\<exists>st. git_status_for demo_env secret_workspace (Inr [api_repository]) [] = Inr st \<and> gs_redacted st = 1 \<and> gs_is_repo st"
    using info by (auto simp: git_status_for_def sel demo_git status_args_def records [simplified] entry empty_status_def)
  then obtain st where st: "git_status_for demo_env secret_workspace (Inr [api_repository]) [] = Inr st" "gs_redacted st = 1" "gs_is_repo st" by blast
  have "run_git demo_env (rp_root api_repository) (status_args ''--porcelain=v1'') = Inr (''?? id_rsa'' @ [CHR 0x00])"
    by (simp add: demo_git status_args_def)
  moreover have "status_lines (split_nul (''?? id_rsa'' @ [CHR 0x00])) = [StatusLine ''??'' ''id_rsa'' None]"
    unfolding records by (simp add: status_lines.simps(2))
  ultimately have "lists_visible (hidden_path secret_workspace api_repository) [StatusLine ''??'' ''id_rsa'' None] st"
    using status_lists_the_visible_records [OF sel st(1)] st(3) by auto
  then show ?thesis using st by blast
qed

theorem diff_never_asks_for_secrets_witness:
  "git_diff (demo_env\<lparr>ge_run := (\<lambda>vars dir args. if literal_arg ''id_rsa'' \<in> set args then demo_run vars dir [] else demo_run vars dir args)\<rparr>)
      secret_workspace (Inr [api_repository]) \<lparr>di_repository = [], di_mode = [], di_path = [], di_offset = 0, di_max_bytes = 0\<rparr>
    = git_diff demo_env secret_workspace (Inr [api_repository]) \<lparr>di_repository = [], di_mode = [], di_path = [], di_offset = 0, di_max_bytes = 0\<rparr>"
proof -
  have "select_git_repository demo_env secret_workspace (Inr [api_repository]) [] = Inr (Some api_repository)"
    using demo_selected [of demo_run] by (simp add: demo_env_def)
  moreover have "agree (hidden_path secret_workspace api_repository) demo_env
      (\<lambda>vars dir args. if literal_arg ''id_rsa'' \<in> set args then demo_run vars dir [] else demo_run vars dir args)"
    using key_is_secret by (auto simp: agree_def allowed_def demo_env_def)
  ultimately show ?thesis by (intro diff_never_asks_for_secrets) simp_all
qed

definition lfs_env :: git_env where
  "lfs_env = demo_env\<lparr>ge_run := (\<lambda>_ _ _. \<lparr>gr_out = [filter_key ''lfs'' ''process'' @ [CHR 0x00]], gr_err = [], gr_end = GitDone, gr_ctx = None\<rparr>)\<rparr>"

theorem configured_filters_are_disabled_witness:
  "\<exists>out ds. run_git lfs_env ''/w/api'' [''diff''] = Inr out \<and> ''lfs'' \<in> set ds
    \<and> out = concat (gr_out (ge_run lfs_env (safe_git_environment lfs_env) ''/w/api'' (git_config_overrides @ concat (map switched_off ds) @ [''diff''])))"
proof -
  let ?out = "filter_key ''lfs'' ''process'' @ [CHR 0x00]"
  have raws: "split_on CHR 0x00 ?out = [filter_key ''lfs'' ''process'', []]" by (simp add: filter_key_def)
  have trimmed: "trim_space (filter_key ''lfs'' ''process'') = filter_key ''lfs'' ''process''" "trim_space [] = []" "filter_key ''lfs'' ''process'' \<noteq> []"
    by (simp_all add: filter_key_def trim_space_def segs_Cons_ascii byte_def is_space_def)
  have safe: "safe_git_config_subsection ''lfs''" by (simp add: safe_git_config_subsection_def runes_Cons_ascii config_char_def byte_def)
  have driver: "filter_driver low (filter_key ''lfs'' ''process'') = Inr (Some ''lfs'')" for low
    using filter_driver_key [of "''lfs''" "''process''" low] safe by (simp add: filter_suffixes_def byte_def)
  have "filter_drivers low [] (split_on CHR 0x00 ?out) = Inr [''lfs'']" for low
    unfolding raws by (simp add: trimmed driver Let_def)
  then obtain fs where fs: "discover_filter_overrides lfs_env ''/w/api'' = Inr fs"
    by (simp add: discover_filter_overrides_def lfs_env_def demo_env_def Let_def)
  have diff: "needs_filters [''diff'']" by (simp add: needs_filters_def)
  obtain out where out: "run_git lfs_env ''/w/api'' [''diff''] = Inr out"
    using fs diff by (simp add: run_git_def run_git_with_overrides_def lfs_env_def Let_def)
  obtain ds run where run: "\<forall>raw d suffix. raw \<in> set (split_on CHR 0x00 (concat (gr_out (ge_run lfs_env (safe_git_environment lfs_env) ''/w/api'' filter_query))))
        \<and> trim_space raw = filter_key d suffix \<and> suffix \<in> set filter_suffixes \<longrightarrow> safe_git_config_subsection d \<and> d \<in> set ds"
      "run = ge_run lfs_env (safe_git_environment lfs_env) ''/w/api'' (git_config_overrides @ concat (map switched_off ds) @ [''diff''])"
      "out = concat (gr_out run)"
    using configured_filters_are_disabled [OF out diff] by (auto simp: lfs_env_def)
  have "''lfs'' \<in> set ds"
    using run(1) [rule_format, of "filter_key ''lfs'' ''process''" "''lfs''" "''process''"]
    by (simp add: lfs_env_def raws trimmed filter_suffixes_def)
  then show ?thesis using out run(2,3) by blast
qed

end
