(* ===== verification/Search.thy ===== *)
theory Search
  imports WorkspaceProps WorkspaceRead WorkspaceList Query
begin

text \<open>
  \<open>internal/workspace/search.go\<close>: searching the content of the files of the workspace with ripgrep, or with the
  walk of the package when ripgrep is missing or fails.  Running ripgrep and \<open>regexp.Compile\<close> are parameters;
  the deadline is an argument that may end the walk at any check.  The walk descends as deep as the tree is, so
  it has fuel, and it is proved to end for every tree of finite depth.
\<close>

record content_options =
  co_query :: string
  co_where :: string
  co_glob :: string
  co_limit :: int
  co_regex :: bool

record search_match =
  sm_path :: string
  sm_line :: int
  sm_text :: string

datatype engine = EngineGo | EngineRipgrep

record search_result =
  sr_matches :: "search_match list"
  sr_count :: nat
  sr_truncated :: bool
  sr_engine :: engine

definition search_answer :: "engine \<Rightarrow> search_match list \<Rightarrow> bool \<Rightarrow> search_result" where
  "search_answer e ms truncated = \<lparr>sr_matches = ms, sr_count = length ms, sr_truncated = truncated, sr_engine = e\<rparr>"

abbreviation (input) search_file_limit :: int where "search_file_limit \<equiv> 2 * 1024 * 1024"

definition shown_line :: "string \<Rightarrow> string" where
  "shown_line l = (if 500 < length l then utf8_safe_prefix l 500 else l)"

section \<open>Ripgrep\<close>

text \<open>A line of the output: a match with path, line number and text, or something else.\<close>

datatype rg_event = RgOther | RgMatch string int string

datatype rg_end = RgDone | RgExit nat | RgLost

record rg_run =
  rg_start :: "string option"
  rg_events :: "rg_event list"
  rg_scan :: "string option"
  rg_ended :: rg_end
  rg_stderr :: string

text \<open>The path of a match as it is reported; an absolute one becomes relative to the root.\<close>

definition rg_path :: "workspace \<Rightarrow> string \<Rightarrow> string" where
  "rg_path w p = (if rooted p then (case go_rel (ws_root w) p of Some r \<Rightarrow> r | None \<Rightarrow> []) else p)"

fun rg_loop :: "workspace \<Rightarrow> nat \<Rightarrow> rg_event list \<Rightarrow> search_match list \<Rightarrow> search_match list \<times> bool" where
  "rg_loop w cap [] ms = (ms, False)"
| "rg_loop w cap (RgOther # es) ms = rg_loop w cap es ms"
| "rg_loop w cap (RgMatch p0 line text0 # es) ms =
    (let p = rg_path w p0 in
     if p0 = [] \<or> has_prefix p ''../'' \<or> is_hidden (ws_policy w) p then rg_loop w cap es ms
     else let ms' = ms @ [\<lparr>sm_path = p, sm_line = line, sm_text = shown_line (trim_right_chars [CHR 0x0D, CHR 0x0A] text0)\<rparr>]
       in if cap \<le> length ms' then (ms', True) else rg_loop w cap es ms')"

definition rg_args :: "content_options \<Rightarrow> string \<Rightarrow> string list" where
  "rg_args opts relative =
    [''--json'', ''--max-filesize'', ''2M'', ''--max-count'', ''20'', ''--smart-case''] @ (if co_regex opts then [] else [''-F''])
    @ (if co_glob opts \<noteq> [] then [''-g'', co_glob opts] else [])
    @ [''--'', co_query opts, if relative = [] then ''.'' else relative]"

definition search_ripgrep ::
  "workspace \<Rightarrow> (string \<Rightarrow> string list \<Rightarrow> rg_run) \<Rightarrow> string \<Rightarrow> content_options \<Rightarrow> nat \<Rightarrow> string + search_result" where
  "search_ripgrep w rg relative opts cap =
    (let run = rg (ws_root w) (rg_args opts relative) in
     case rg_start run of
       Some e \<Rightarrow> Inl e
     | None \<Rightarrow>
        (case rg_loop w cap (rg_events run) [] of
           (ms, truncated) \<Rightarrow>
             if rg_scan run \<noteq> None then Inl (the (rg_scan run))
             else if rg_ended run \<noteq> RgDone \<and> \<not> truncated \<and> rg_ended run \<noteq> RgExit 1
             then Inl (''ripgrep failed: '' @ trim_space (rg_stderr run))
             else Inr (search_answer EngineRipgrep ms truncated)))"

section \<open>The walk\<close>

definition contains_upper :: "string \<Rightarrow> bool" where
  "contains_upper v \<longleftrightarrow> list_ex (\<lambda>r. 65 \<le> r \<and> r \<le> 90) (runes v)"

text \<open>What counts as a hit in a line; \<open>rx\<close> compiles an expression.\<close>

definition line_test :: "(nat \<Rightarrow> nat) \<Rightarrow> (string \<Rightarrow> (string \<Rightarrow> bool) option) \<Rightarrow> string \<Rightarrow> bool \<Rightarrow> (string \<Rightarrow> bool) option" where
  "line_test low rx query regex =
    (let exact = contains_upper query in
     if regex then rx (if exact then query else ''(?i)'' @ query)
     else if exact then Some (\<lambda>l. str_contains l query)
     else Some (\<lambda>l. str_contains (to_lower low l) (to_lower low query)))"

record search_job =
  sj_env :: os_env
  sj_ws :: workspace
  sj_ended :: "nat \<Rightarrow> bool"
  sj_test :: "string \<Rightarrow> bool"
  sj_glob :: string
  sj_cap :: nat

record search_state =
  se_matches :: "search_match list"
  se_truncated :: bool
  se_checks :: nat

definition checked :: "search_state \<Rightarrow> search_state" where
  "checked st = st\<lparr>se_checks := Suc (se_checks st)\<rparr>"

definition search_lines :: "string \<Rightarrow> string list" where
  "search_lines data =
    (let ls = split_on CHR 0x0A data; ls' = (if last ls = [] then butlast ls else ls)
     in map drop_cr (takeWhile (\<lambda>l. length l < nat search_file_limit) ls'))"

text \<open>The lines of a file from line \<open>n\<close> on; the first component says that the walk is over.\<close>

fun line_loop :: "search_job \<Rightarrow> string \<Rightarrow> int \<Rightarrow> string list \<Rightarrow> search_state \<Rightarrow> bool \<times> search_state" where
  "line_loop j rel n [] st = (False, st)"
| "line_loop j rel n (l # ls) st =
    (if sj_ended j (se_checks st) then (True, checked st)
     else let st1 = checked st in
       if \<not> sj_test j l then line_loop j rel (n + 1) ls st1
       else let st2 = st1\<lparr>se_matches := se_matches st1 @ [\<lparr>sm_path = rel, sm_line = n, sm_text = shown_line l\<rparr>]\<rparr>
         in if sj_cap j \<le> length (se_matches st2) then (True, st2\<lparr>se_truncated := True\<rparr>)
            else line_loop j rel (n + 1) ls st2)"

text \<open>The lines that a file contributes to the search, if it is searched at all.\<close>

definition searched_lines :: "search_job \<Rightarrow> string \<Rightarrow> string \<Rightarrow> int \<Rightarrow> string list" where
  "searched_lines j path rel sz =
    (if search_file_limit < sz \<or> is_hidden (ws_policy (sj_ws j)) rel then []
     else if sj_glob j \<noteq> [] \<and> \<not> match_glob (sj_glob j) rel \<and> \<not> match_glob (sj_glob j) (go_base rel) then []
     else case os_read (sj_env j) path of
       Inl _ \<Rightarrow> []
     | Inr data \<Rightarrow> if is_binary data then [] else search_lines data)"

definition inspect_file :: "search_job \<Rightarrow> string \<Rightarrow> string \<Rightarrow> int \<Rightarrow> search_state \<Rightarrow> bool \<times> search_state" where
  "inspect_file j path rel sz st = line_loop j rel 1 (searched_lines j path rel sz) st"

datatype walk_action = Pass | SkipDirectory | StopWalk

text \<open>The callback of \<open>WalkDir\<close> for one entry.\<close>

definition visit_entry :: "search_job \<Rightarrow> string \<Rightarrow> dir_entry \<Rightarrow> search_state \<Rightarrow> walk_action \<times> search_state" where
  "visit_entry j path e st0 =
    (if sj_ended j (se_checks st0) then (StopWalk, checked st0)
     else let st = checked st0 in
       case go_rel (ws_root (sj_ws j)) path of
         None \<Rightarrow> (Pass, st)
       | Some rel \<Rightarrow>
          if rel = ''.'' then (Pass, st)
          else (case de_kind e of
             Symlink \<Rightarrow> (Pass, st)
           | Directory \<Rightarrow> (if is_hidden (ws_policy (sj_ws j)) rel then SkipDirectory else Pass, st)
           | Regular sz \<Rightarrow>
              if \<not> de_info e then (Pass, st)
              else (case inspect_file j path rel sz st of (stop, st') \<Rightarrow> (if stop then StopWalk else Pass, st'))
           | OtherKind \<Rightarrow> (Pass, st)))"

text \<open>One entry and what is below it; \<open>descend\<close> walks a directory, \<open>None\<close> is lack of fuel.\<close>

definition walk_entry ::
  "search_job \<Rightarrow> (string \<Rightarrow> search_state \<Rightarrow> (bool \<times> search_state) option) \<Rightarrow> string \<Rightarrow> dir_entry \<Rightarrow> search_state \<Rightarrow> (bool \<times> search_state) option" where
  "walk_entry j descend path e st =
    (case visit_entry j path e st of
       (StopWalk, st') \<Rightarrow> Some (True, st')
     | (SkipDirectory, st') \<Rightarrow> Some (False, st')
     | (Pass, st') \<Rightarrow> if is_directory e then descend path st' else Some (False, st'))"

fun walk_list ::
  "search_job \<Rightarrow> (string \<Rightarrow> search_state \<Rightarrow> (bool \<times> search_state) option) \<Rightarrow> string \<Rightarrow> dir_entry list \<Rightarrow> search_state \<Rightarrow> (bool \<times> search_state) option" where
  "walk_list j descend dir [] st = Some (False, st)"
| "walk_list j descend dir (e # es) st =
    (case walk_entry j descend (go_join [dir, de_name e]) e st of
       None \<Rightarrow> None
     | Some (True, st') \<Rightarrow> Some (True, st')
     | Some (False, st') \<Rightarrow> walk_list j descend dir es st')"

primrec walk_dir :: "search_job \<Rightarrow> nat \<Rightarrow> string \<Rightarrow> search_state \<Rightarrow> (bool \<times> search_state) option" where
  "walk_dir j 0 dir st = None"
| "walk_dir j (Suc n) dir st =
    (case os_readdir (sj_env j) dir of
       None \<Rightarrow> Some (False, st)
     | Some es \<Rightarrow> walk_list j (walk_dir j n) dir es st)"

definition start_search :: search_state where
  "start_search = \<lparr>se_matches = [], se_truncated = False, se_checks = 0\<rparr>"

text \<open>\<open>filepath.WalkDir\<close> from a root that may be missing.\<close>

definition walk_root :: "search_job \<Rightarrow> nat \<Rightarrow> string \<Rightarrow> search_state option" where
  "walk_root j fuel absolute =
    (case os_lstat (sj_env j) absolute of
       StatOk kind \<Rightarrow>
         map_option snd (walk_entry j (walk_dir j fuel) absolute \<lparr>de_name = go_base absolute, de_kind = kind, de_info = True\<rparr> start_search)
     | _ \<Rightarrow> Some start_search)"

definition search_go :: "search_job \<Rightarrow> nat \<Rightarrow> string \<Rightarrow> string \<Rightarrow> (ws_error + search_result) option" where
  "search_go j fuel absolute relative =
    (case os_stat (sj_env j) absolute of
       StatMissing \<Rightarrow> Some (Inl (OsError ''no such file or directory''))
     | StatFailed e \<Rightarrow> Some (Inl (OsError e))
     | StatOk (Regular sz) \<Rightarrow>
         (let st = snd (inspect_file j absolute (if relative = ''.'' then go_base absolute else relative) sz start_search)
          in Some (Inr (search_answer EngineGo (se_matches st) (se_truncated st))))
     | StatOk _ \<Rightarrow>
         map_option (\<lambda>st. Inr (search_answer EngineGo (se_matches st) (se_truncated st))) (walk_root j fuel absolute))"

section \<open>Search\<close>

definition search_cap :: "int \<Rightarrow> nat" where
  "search_cap n = nat (if n < 1 then 50 else if 200 < n then 200 else n)"

text \<open>
  \<open>Search\<close>; \<open>rg\<close> is the ripgrep that was found, if any, and \<open>rx\<close> compiles expressions.
\<close>

definition ws_search ::
  "os_env \<Rightarrow> workspace \<Rightarrow> (nat \<Rightarrow> bool) \<Rightarrow> (string \<Rightarrow> (string \<Rightarrow> bool) option) \<Rightarrow> (string \<Rightarrow> string list \<Rightarrow> rg_run) option
     \<Rightarrow> nat \<Rightarrow> content_options \<Rightarrow> (ws_error + search_result) option" where
  "ws_search env w ended rx rg fuel opts =
    (if length (trim_space (co_query opts)) < 2 then Some (Inr (search_answer EngineGo [] False))
     else let cap = search_cap (co_limit opts); invalid = Some (Inl (WsError InvalidExpression ''invalid regular expression'')) in
       case ws_resolve env w (if trim_space (co_where opts) = [] then ''.'' else co_where opts) False of
         Inl e \<Rightarrow> Some (Inl e)
       | Inr (absolute, relative) \<Rightarrow>
          if co_regex opts \<and> rx (co_query opts) = None then invalid
          else let by_walk = (case line_test (os_lower env) rx (co_query opts) (co_regex opts) of
                     None \<Rightarrow> invalid
                   | Some test \<Rightarrow>
                      search_go \<lparr>sj_env = env, sj_ws = w, sj_ended = ended, sj_test = test, sj_glob = co_glob opts, sj_cap = cap\<rparr>
                        fuel absolute relative)
            in case rg of
              None \<Rightarrow> by_walk
            | Some run \<Rightarrow> (case search_ripgrep w run relative opts cap of Inr r \<Rightarrow> Some (Inr r) | Inl _ \<Rightarrow> by_walk))"

section \<open>Hits are visible\<close>

definition hits_ok :: "workspace \<Rightarrow> nat \<Rightarrow> search_match list \<Rightarrow> bool" where
  "hits_ok w cap ms \<longleftrightarrow> list_all (\<lambda>m. \<not> is_hidden (ws_policy w) (sm_path m)) ms \<and> length ms \<le> cap"

text \<open>The result of a part of the walk: as long as it goes on there is room for another hit.\<close>

definition search_walk_ok :: "search_job \<Rightarrow> bool \<times> search_state \<Rightarrow> bool" where
  "search_walk_ok j r \<longleftrightarrow> hits_ok (sj_ws j) (sj_cap j) (se_matches (snd r)) \<and> (fst r \<or> length (se_matches (snd r)) < sj_cap j)"

lemma hits_Nil [simp]: "hits_ok w cap []"
  by (simp add: hits_ok_def)

lemma rg_loop_ok: "hits_ok w cap ms \<Longrightarrow> length ms < cap \<Longrightarrow> hits_ok w cap (fst (rg_loop w cap es ms))"
  by (induction w cap es ms rule: rg_loop.induct) (auto simp: hits_ok_def Let_def)

lemma checked_ok [simp]: "se_matches (checked st) = se_matches st" "se_truncated (checked st) = se_truncated st"
  by (simp_all add: checked_def)

lemma line_loop_ok: "search_walk_ok j (False, st) \<Longrightarrow> \<not> is_hidden (ws_policy (sj_ws j)) rel \<Longrightarrow> search_walk_ok j (line_loop j rel n ls st)"
  by (induction j rel n ls st rule: line_loop.induct) (auto simp: search_walk_ok_def hits_ok_def Let_def)

lemma inspect_ok: "search_walk_ok j (False, st) \<Longrightarrow> search_walk_ok j (inspect_file j path rel sz st)"
  by (cases "is_hidden (ws_policy (sj_ws j)) rel") (simp_all add: inspect_file_def searched_lines_def line_loop_ok)

lemma visit_ok:
  assumes "search_walk_ok j (False, st)" and "visit_entry j path e st = (v, st')"
  shows "search_walk_ok j (v = StopWalk, st')"
proof -
  have base: "search_walk_ok j (False, checked st)" "search_walk_ok j (True, checked st)" using assms(1) by (simp_all add: search_walk_ok_def)
  have ins: "search_walk_ok j (stop, s)" if "inspect_file j path rel sz (checked st) = (stop, s)" for rel sz stop s
    using inspect_ok [OF base(1), of path rel sz] that by simp
  show ?thesis
    using assms(2) base by (auto simp: visit_entry_def Let_def split: if_splits option.splits entry_kind.splits prod.splits dest: ins)
qed

lemma walk_entry_ok:
  assumes "search_walk_ok j (False, st)" and "\<And>d s r. descend d s = Some r \<Longrightarrow> search_walk_ok j (False, s) \<Longrightarrow> search_walk_ok j r"
    and "walk_entry j descend path e st = Some r"
  shows "search_walk_ok j r"
proof -
  obtain v st' where v: "visit_entry j path e st = (v, st')" by fastforce
  show ?thesis
    using visit_ok [OF assms(1) v] assms(2) [of path st' r] assms(3)
    by (cases v) (auto simp: walk_entry_def v search_walk_ok_def split: if_splits)
qed

lemma walk_list_ok:
  assumes "\<And>d s r. descend d s = Some r \<Longrightarrow> search_walk_ok j (False, s) \<Longrightarrow> search_walk_ok j r"
  shows "walk_list j descend dir es st = Some r \<Longrightarrow> search_walk_ok j (False, st) \<Longrightarrow> search_walk_ok j r"
proof (induction es arbitrary: st)
  case (Cons e es)
  then obtain stop st' where e: "walk_entry j descend (go_join [dir, de_name e]) e st = Some (stop, st')" by (auto split: option.splits)
  from walk_entry_ok [OF Cons.prems(2) assms e] Cons e show ?case by (cases stop) auto
qed auto

lemma walk_dir_ok: "walk_dir j n dir st = Some r \<Longrightarrow> search_walk_ok j (False, st) \<Longrightarrow> search_walk_ok j r"
proof (induction n arbitrary: dir st r)
  case (Suc n)
  then show ?case using walk_list_ok [of "walk_dir j n" j dir _ st r] by (auto split: option.splits)
qed simp

lemma search_go_ok:
  assumes "search_go j fuel absolute relative = Some (Inr r)" and "0 < sj_cap j"
  shows "hits_ok (sj_ws j) (sj_cap j) (sr_matches r)"
proof -
  have start: "search_walk_ok j (False, start_search)" using assms(2) by (simp add: search_walk_ok_def start_search_def)
  have root: "hits_ok (sj_ws j) (sj_cap j) (se_matches st)" if "walk_root j fuel absolute = Some st" for st
    using that start walk_entry_ok [OF start walk_dir_ok]
    by (auto simp: walk_root_def search_walk_ok_def start_search_def split: stat_result.splits)
  show ?thesis
    using assms(1) root inspect_ok [OF start]
    by (auto simp: search_go_def search_answer_def search_walk_ok_def Let_def split: stat_result.splits entry_kind.splits)
qed

text \<open>
  C7: A search shows visible files only: whichever engine answers, whatever ripgrep prints and whatever the query,
  the glob and the limit are, no match names a hidden path, and there are at most two hundred.
\<close>

theorem search_hits_are_visible:
  assumes "ws_search env w ended rx rg fuel opts = Some (Inr r)"
  shows "list_all (\<lambda>m. \<not> is_hidden (ws_policy w) (sm_path m)) (sr_matches r) \<and> length (sr_matches r) \<le> 200"
proof -
  let ?cap = "search_cap (co_limit opts)"
  have cap: "0 < ?cap" "?cap \<le> 200" by (auto simp: search_cap_def)
  have rg_ok: "hits_ok w ?cap (sr_matches r)" if "search_ripgrep w run relative opts ?cap = Inr r" for run relative
    using that rg_loop_ok [of w ?cap "[]" "rg_events (run (ws_root w) (rg_args opts relative))"] cap(1)
    by (auto simp: search_ripgrep_def search_answer_def Let_def split: option.splits prod.splits if_splits)
  have "sr_matches r = [] \<or> hits_ok w ?cap (sr_matches r)"
    using assms rg_ok search_go_ok cap(1)
    by (auto simp: ws_search_def Let_def search_answer_def split: if_splits sum.splits prod.splits option.splits dest!: search_go_ok)
  then show ?thesis using cap(2) by (auto simp: hits_ok_def)
qed

section \<open>What a search without deadline finds\<close>

text \<open>The hits of a file, of an entry and of a tree, read off directly.\<close>

fun line_hits :: "search_job \<Rightarrow> string \<Rightarrow> int \<Rightarrow> string list \<Rightarrow> search_match list" where
  "line_hits j rel n [] = []"
| "line_hits j rel n (l # ls) =
    (if sj_test j l then [\<lparr>sm_path = rel, sm_line = n, sm_text = shown_line l\<rparr>] else []) @ line_hits j rel (n + 1) ls"

definition entry_hits :: "search_job \<Rightarrow> (string \<Rightarrow> search_match list) \<Rightarrow> string \<Rightarrow> dir_entry \<Rightarrow> search_match list" where
  "entry_hits j below path e =
    (case go_rel (ws_root (sj_ws j)) path of
       None \<Rightarrow> if is_directory e then below path else []
     | Some rel \<Rightarrow>
        (case de_kind e of
           Directory \<Rightarrow> if rel \<noteq> ''.'' \<and> is_hidden (ws_policy (sj_ws j)) rel then [] else below path
         | Regular sz \<Rightarrow> if rel = ''.'' \<or> \<not> de_info e then [] else line_hits j rel 1 (searched_lines j path rel sz)
         | _ \<Rightarrow> []))"

primrec tree_hits :: "search_job \<Rightarrow> nat \<Rightarrow> string \<Rightarrow> search_match list" where
  "tree_hits j 0 dir = []"
| "tree_hits j (Suc n) dir =
    (case os_readdir (sj_env j) dir of
       None \<Rightarrow> []
     | Some es \<Rightarrow> concat (map (\<lambda>e. entry_hits j (tree_hits j n) (go_join [dir, de_name e]) e) es))"

text \<open>A tree of at most so many levels.\<close>

primrec shallow :: "os_env \<Rightarrow> nat \<Rightarrow> string \<Rightarrow> bool" where
  "shallow env 0 dir = False"
| "shallow env (Suc n) dir =
    (case os_readdir env dir of None \<Rightarrow> True | Some es \<Rightarrow> list_all (\<lambda>e. is_directory e \<longrightarrow> shallow env n (go_join [dir, de_name e])) es)"

text \<open>A part of the walk adds hits up to the cap, and is over when it is reached.\<close>

definition adds :: "nat \<Rightarrow> search_match list \<Rightarrow> search_state \<Rightarrow> bool \<times> search_state \<Rightarrow> bool" where
  "adds cap hits st r \<longleftrightarrow> fst r = (cap \<le> length (se_matches st @ hits)) \<and> se_matches (snd r) = take cap (se_matches st @ hits)
     \<and> se_truncated (snd r) = fst r"

definition fresh :: "nat \<Rightarrow> search_state \<Rightarrow> bool" where
  "fresh cap st \<longleftrightarrow> length (se_matches st) < cap \<and> \<not> se_truncated st"

lemma fresh_checked [simp]: "fresh cap (checked st) = fresh cap st"
  by (simp add: fresh_def)

lemma adds_nothing: "fresh cap st \<Longrightarrow> adds cap [] st (False, checked st)" "fresh cap st \<Longrightarrow> adds cap [] st (False, st)"
  by (simp_all add: adds_def fresh_def)

lemma adds_checked [simp]: "adds cap hits (checked st) r = adds cap hits st r"
  by (simp add: adds_def)

lemma adds_fresh: "adds cap hits st (False, st') \<Longrightarrow> fresh cap st'"
  unfolding adds_def fresh_def by (auto simp del: take_append)

lemma adds_then: "adds cap h1 st (False, st') \<Longrightarrow> adds cap h2 st' r \<Longrightarrow> adds cap (h1 @ h2) st r"
  by (auto simp: adds_def)

lemma adds_over: "adds cap h1 st (True, st') \<Longrightarrow> adds cap (h1 @ h2) st (True, st')"
  by (auto simp: adds_def)

lemma line_loop_adds:
  assumes "sj_ended j = (\<lambda>_. False)"
  shows "fresh (sj_cap j) st \<Longrightarrow> adds (sj_cap j) (line_hits j rel n ls) st (line_loop j rel n ls st)"
proof (induction ls arbitrary: n st)
  case (Cons l ls)
  let ?hit = "\<lparr>sm_path = rel, sm_line = n, sm_text = shown_line l\<rparr>"
  let ?st = "(checked st)\<lparr>se_matches := se_matches (checked st) @ [?hit]\<rparr>"
  show ?case
  proof (cases "sj_test j l")
    case False
    then show ?thesis using Cons.IH [of "checked st" "n + 1"] Cons.prems assms by (simp add: Let_def)
  next
    case hit: True
    show ?thesis
    proof (cases "sj_cap j \<le> length (se_matches ?st)")
      case True
      then have "sj_cap j - length (se_matches st) = 1" using Cons.prems by (auto simp: fresh_def)
      then show ?thesis using True Cons.prems hit assms by (simp add: Let_def adds_def fresh_def)
    next
      case False
      then have "fresh (sj_cap j) ?st" "adds (sj_cap j) [?hit] st (False, ?st)" using Cons.prems by (simp_all add: fresh_def adds_def)
      from adds_then [OF this(2) Cons.IH [OF this(1)]] hit False assms show ?thesis by (simp add: Let_def)
    qed
  qed
qed (simp add: adds_nothing)

lemma walk_entry_adds:
  assumes never: "sj_ended j = (\<lambda>_. False)" and "fresh (sj_cap j) st"
    and "is_directory e \<Longrightarrow> \<exists>r. descend path (checked st) = Some r \<and> adds (sj_cap j) (below path) (checked st) r"
  shows "\<exists>r. walk_entry j descend path e st = Some r \<and> adds (sj_cap j) (entry_hits j below path e) st r"
proof -
  have pass: "\<exists>r. (if is_directory e then descend path (checked st) else Some (False, checked st)) = Some r
      \<and> adds (sj_cap j) (if is_directory e then below path else []) st r"
    using assms(2,3) adds_nothing by auto
  show ?thesis
  proof (cases "go_rel (ws_root (sj_ws j)) path")
    case None
    then show ?thesis using pass never by (simp add: walk_entry_def visit_entry_def entry_hits_def Let_def)
  next
    case rel: (Some rel)
    show ?thesis
    proof (cases "de_kind e")
      case (Regular sz)
      obtain stop st' where i: "inspect_file j path rel sz (checked st) = (stop, st')" by fastforce
      have a: "adds (sj_cap j) (line_hits j rel 1 (searched_lines j path rel sz)) st (stop, st')"
        using line_loop_adds [OF never, of "checked st" rel 1] assms(2) i by (simp add: inspect_file_def) (metis adds_checked)
      have plain: "\<not> is_directory e" by (simp add: is_directory_def Regular)
      show ?thesis
      proof (cases "rel = ''.'' \<or> \<not> de_info e")
        case True
        then have "visit_entry j path e st = (Pass, checked st)" "entry_hits j below path e = []"
          using never rel Regular by (auto simp: visit_entry_def entry_hits_def Let_def)
        then show ?thesis using plain adds_nothing(1) [OF assms(2)] by (simp add: walk_entry_def)
      next
        case False
        then have "visit_entry j path e st = (if stop then StopWalk else Pass, st')"
            "entry_hits j below path e = line_hits j rel 1 (searched_lines j path rel sz)"
          using never rel Regular i by (simp_all add: visit_entry_def entry_hits_def Let_def)
        then show ?thesis using plain a by (cases stop) (simp_all add: walk_entry_def)
      qed
    next
      case Directory
      then have dir: "is_directory e" by (simp add: is_directory_def)
      show ?thesis
      proof (cases "rel \<noteq> ''.'' \<and> is_hidden (ws_policy (sj_ws j)) rel")
        case True
        then have "visit_entry j path e st = (SkipDirectory, checked st)" "entry_hits j below path e = []"
          using never rel Directory by (simp_all add: visit_entry_def entry_hits_def Let_def)
        then show ?thesis using adds_nothing(1) [OF assms(2)] by (simp add: walk_entry_def)
      next
        case False
        then have "visit_entry j path e st = (Pass, checked st)" "entry_hits j below path e = below path"
          using never rel Directory by (auto simp: visit_entry_def entry_hits_def Let_def)
        then show ?thesis using dir pass by (simp add: walk_entry_def)
      qed
    qed (use pass rel never in \<open>auto simp: walk_entry_def visit_entry_def entry_hits_def is_directory_def Let_def\<close>)
  qed
qed

lemma walk_list_adds:
  assumes never: "sj_ended j = (\<lambda>_. False)"
  shows "fresh (sj_cap j) st \<Longrightarrow>
    (\<And>e s. e \<in> set es \<Longrightarrow> is_directory e \<Longrightarrow> fresh (sj_cap j) s \<Longrightarrow>
      \<exists>r. descend (go_join [dir, de_name e]) s = Some r \<and> adds (sj_cap j) (below (go_join [dir, de_name e])) s r) \<Longrightarrow>
    \<exists>r. walk_list j descend dir es st = Some r
      \<and> adds (sj_cap j) (concat (map (\<lambda>e. entry_hits j below (go_join [dir, de_name e]) e) es)) st r"
proof (induction es arbitrary: st)
  case (Cons e es)
  have "\<exists>r. walk_entry j descend (go_join [dir, de_name e]) e st = Some r \<and> adds (sj_cap j) (entry_hits j below (go_join [dir, de_name e]) e) st r"
    by (rule walk_entry_adds [OF never Cons.prems(1)], rule Cons.prems(2)) (use Cons.prems(1) in simp_all)
  then obtain stop st' where e: "walk_entry j descend (go_join [dir, de_name e]) e st = Some (stop, st')"
      "adds (sj_cap j) (entry_hits j below (go_join [dir, de_name e]) e) st (stop, st')" by auto
  show ?case
  proof (cases stop)
    case True
    then show ?thesis using e adds_over by auto
  next
    case False
    have "\<exists>r. walk_list j descend dir es st' = Some r
        \<and> adds (sj_cap j) (concat (map (\<lambda>e. entry_hits j below (go_join [dir, de_name e]) e) es)) st' r"
      by (rule Cons.IH) (use e False adds_fresh Cons.prems(2) in auto)
    then show ?thesis using e False adds_then by auto
  qed
qed (simp add: adds_nothing)

lemma walk_dir_adds:
  assumes never: "sj_ended j = (\<lambda>_. False)"
  shows "fresh (sj_cap j) st \<Longrightarrow> shallow (sj_env j) n dir \<Longrightarrow> \<exists>r. walk_dir j n dir st = Some r \<and> adds (sj_cap j) (tree_hits j n dir) st r"
proof (induction n arbitrary: dir st)
  case (Suc n)
  show ?case
  proof (cases "os_readdir (sj_env j) dir")
    case None
    then show ?thesis using Suc.prems adds_nothing by simp
  next
    case (Some es)
    have "\<exists>r. walk_list j (walk_dir j n) dir es st = Some r
        \<and> adds (sj_cap j) (concat (map (\<lambda>e. entry_hits j (tree_hits j n) (go_join [dir, de_name e]) e) es)) st r"
      by (rule walk_list_adds [OF never Suc.prems(1)]) (use Suc.IH Suc.prems(2) Some in \<open>auto simp: list_all_iff\<close>)
    then show ?thesis using Some by simp
  qed
qed simp

text \<open>
  C18: A search that no deadline cuts short returns, for every tree of finite depth, exactly the first hits of the
  tree in the order of the walk, up to the cap, and it says that it was truncated exactly when the cap is reached.
\<close>

theorem search_finds_the_first_hits:
  assumes "sj_ended j = (\<lambda>_. False)" and "0 < sj_cap j" and "os_stat (sj_env j) absolute = StatOk Directory"
    and "os_lstat (sj_env j) absolute = StatOk Directory" and "shallow (sj_env j) fuel absolute"
    and "go_rel (ws_root (sj_ws j)) absolute = Some rel" and "rel = ''.'' \<or> \<not> is_hidden (ws_policy (sj_ws j)) rel"
  shows "search_go j fuel absolute rel =
    Some (Inr (search_answer EngineGo (take (sj_cap j) (tree_hits j fuel absolute)) (sj_cap j \<le> length (tree_hits j fuel absolute))))"
proof -
  let ?e = "\<lparr>de_name = go_base absolute, de_kind = Directory, de_info = True\<rparr>"
  have fresh: "fresh (sj_cap j) start_search" using assms(2) by (simp add: fresh_def start_search_def)
  have "\<exists>r. walk_entry j (walk_dir j fuel) absolute ?e start_search = Some r
      \<and> adds (sj_cap j) (entry_hits j (tree_hits j fuel) absolute ?e) start_search r"
    by (rule walk_entry_adds [OF assms(1) fresh]) (rule walk_dir_adds [OF assms(1) _ assms(5)], simp add: fresh)
  moreover have "entry_hits j (tree_hits j fuel) absolute ?e = tree_hits j fuel absolute"
    using assms(6,7) by (auto simp: entry_hits_def)
  ultimately show ?thesis
    using assms(3,4) by (auto simp: search_go_def walk_root_def adds_def start_search_def)
qed

text \<open>
  A search whose deadline has passed finds nothing and does not say so: the error of the context is swallowed,
  and the answer looks like that of a search without hits.
\<close>

theorem expired_search_looks_complete:
  assumes "sj_ended j = (\<lambda>_. True)" and "os_stat (sj_env j) absolute = StatOk Directory" and "os_lstat (sj_env j) absolute = StatOk Directory"
  shows "search_go j fuel absolute rel = Some (Inr (search_answer EngineGo [] False))"
  using assms by (simp add: search_go_def walk_root_def walk_entry_def visit_entry_def start_search_def checked_def)

section \<open>An example\<close>

definition note_env :: os_env where
  "note_env = (open_env False)\<lparr>
      os_lstat := (\<lambda>p. if p = ''/w'' then StatOk Directory else StatMissing),
      os_stat := (\<lambda>p. if p = ''/w'' then StatOk Directory else StatMissing),
      os_read := (\<lambda>_. Inr (''one'' @ [CHR 0x0A] @ ''a loop'' @ [CHR 0x0A])),
      os_readdir := (\<lambda>p. if p = ''/w'' then Some [\<lparr>de_name = ''n.txt'', de_kind = Regular 11, de_info = True\<rparr>] else None)\<rparr>"

definition note_job :: search_job where
  "note_job = \<lparr>sj_env = note_env, sj_ws = plain_workspace ''/w'', sj_ended = (\<lambda>_. False), sj_test = (\<lambda>l. str_contains l ''loop''),
     sj_glob = [], sj_cap = 50\<rparr>"

lemmas search_eval = note_env_def is_hidden_def is_noise_def has_prefix_def path_eval

lemma note_hits: "tree_hits note_job 1 ''/w'' = [\<lparr>sm_path = ''n.txt'', sm_line = 2, sm_text = ''a loop''\<rparr>]"
proof -
  have lines: "searched_lines note_job ''/w/n.txt'' ''n.txt'' 11 = [''one'', ''a loop'']"
    by (simp add: searched_lines_def note_job_def is_binary_def search_lines_def drop_cr_def search_eval)
  have path: "go_join [''/w'', ''n.txt''] = ''/w/n.txt''" "go_rel ''/w'' ''/w/n.txt'' = Some ''n.txt''" by (simp_all add: path_eval)
  have job: "os_readdir (sj_env note_job) ''/w'' = Some [\<lparr>de_name = ''n.txt'', de_kind = Regular 11, de_info = True\<rparr>]"
      "ws_root (sj_ws note_job) = ''/w''" "sj_test note_job = (\<lambda>l. str_contains l ''loop'')"
    by (simp_all add: note_job_def note_env_def plain_workspace_def)
  have hit: "str_contains ''a loop'' ''loop''" "\<not> str_contains ''one'' ''loop''" by (simp_all add: str_contains_def has_prefix_def)
  show ?thesis
    by (simp add: job hit entry_hits_def path lines shown_line_def has_prefix_def)
qed

theorem search_finds_the_first_hits_witness:
  "search_go note_job 1 ''/w'' ''.'' =
    Some (Inr (search_answer EngineGo [\<lparr>sm_path = ''n.txt'', sm_line = 2, sm_text = ''a loop''\<rparr>] False))"
proof -
  have job: "sj_ended note_job = (\<lambda>_. False)" "0 < sj_cap note_job" "os_stat (sj_env note_job) ''/w'' = StatOk Directory"
      "os_lstat (sj_env note_job) ''/w'' = StatOk Directory" "shallow (sj_env note_job) 1 ''/w''"
      "go_rel (ws_root (sj_ws note_job)) ''/w'' = Some ''.''" "sj_cap note_job = 50"
    by (simp_all add: note_job_def note_env_def plain_workspace_def go_rel_def is_directory_def)
  show ?thesis using search_finds_the_first_hits [OF job(1-6)] by (simp add: note_hits job(7) del: walk_dir.simps One_nat_def)
qed

theorem search_hits_are_visible_witness:
  "\<exists>r. ws_search note_env (plain_workspace ''/w'') (\<lambda>_. False) (\<lambda>_. None)
      (Some (\<lambda>_ _. \<lparr>rg_start = None, rg_events = [RgMatch ''src/a.go'' 3 ''loop'', RgMatch ''../b'' 1 ''loop''], rg_scan = None,
        rg_ended = RgDone, rg_stderr = []\<rparr>)) 0
      \<lparr>co_query = ''loop'', co_where = [], co_glob = [], co_limit = 0, co_regex = False\<rparr> = Some (Inr r)
    \<and> length (sr_matches r) = 1 \<and> list_all (\<lambda>m. \<not> is_hidden (ws_policy (plain_workspace ''/w'')) (sm_path m)) (sr_matches r)"
proof -
  let ?run = "\<lambda>_ _. \<lparr>rg_start = None, rg_events = [RgMatch ''src/a.go'' 3 ''loop'', RgMatch ''../b'' 1 ''loop''], rg_scan = None,
        rg_ended = RgDone, rg_stderr = []\<rparr>"
  let ?opts = "\<lparr>co_query = ''loop'', co_where = [], co_glob = [], co_limit = 0, co_regex = False\<rparr>"
  have res: "ws_resolve note_env (plain_workspace ''/w'') ''.'' False = Inr (''/w'', ''.'')" by (simp add: search_eval)
  have q: "trim_space ''loop'' = ''loop''" "trim_space [] = []" by (simp_all add: path_eval)
  have vis: "\<not> is_hidden (ws_policy (plain_workspace ''/w'')) p" for p
    by (simp add: is_hidden_def is_noise_def is_sensitive_def rule_set_matches_def plain_workspace_def Let_def)
  have rg: "search_ripgrep (plain_workspace ''/w'') ?run rel ?opts (search_cap 0)
      = Inr (search_answer EngineRipgrep [\<lparr>sm_path = ''src/a.go'', sm_line = 3, sm_text = ''loop''\<rparr>] False)" for rel
    by (simp add: search_ripgrep_def rg_path_def vis search_cap_def shown_line_def trim_right_chars_def has_prefix_def rooted_def slash_def)
  have found: "ws_search note_env (plain_workspace ''/w'') (\<lambda>_. False) (\<lambda>_. None) (Some ?run) 0 ?opts
      = Some (Inr (search_answer EngineRipgrep [\<lparr>sm_path = ''src/a.go'', sm_line = 3, sm_text = ''loop''\<rparr>] False))"
    by (simp add: ws_search_def Let_def q res rg)
  from search_hits_are_visible [OF found] found show ?thesis by (simp add: search_answer_def)
qed

end
