(* ===== verification/Outline.thy ===== *)
theory Outline
  imports WorkspaceRead WorkspaceProps
begin

text \<open>
  \<open>internal/workspace/outline.go\<close>: the declarations of a Go file and the headings of a Markdown file.  Markdown
  is scanned by the package itself and modelled line by line; Go files are parsed and printed by \<open>go/parser\<close> and
  \<open>go/printer\<close>, which are a parameter that answers with the declarations and their rendered parts.
\<close>

section \<open>Results\<close>

record outline_item =
  oi_kind :: string
  oi_name :: string
  oi_line :: nat
  oi_end :: nat
  oi_detail :: string

record outline_result =
  ol_path :: string
  ol_size :: int
  ol_language :: string
  ol_package :: string
  ol_imports :: "string list"
  ol_items :: "outline_item list"
  ol_total :: nat
  ol_returned :: nat
  ol_truncated :: bool
  ol_complete :: bool
  ol_parse_error :: string

definition append_outline :: "nat \<Rightarrow> outline_item \<Rightarrow> outline_result \<Rightarrow> outline_result" where
  "append_outline limit item result =
    (let counted = result\<lparr>ol_total := Suc (ol_total result)\<rparr>
     in if length (ol_items result) < limit then counted\<lparr>ol_items := ol_items result @ [item]\<rparr> else counted)"

section \<open>Markdown\<close>

text \<open>A line that opens or closes a block of code: its marker and how often the line repeats it.\<close>

definition markdown_fence :: "string \<Rightarrow> (char \<times> nat) option" where
  "markdown_fence s =
    (if length s < 3 \<or> hd s \<noteq> CHR 0x60 \<and> hd s \<noteq> CHR ''~'' then None
     else let n = length (takeWhile (\<lambda>c. c = hd s) s) in if 3 \<le> n then Some (hd s, n) else None)"

text \<open>The level and the name of a heading.\<close>

definition markdown_heading :: "string \<Rightarrow> (nat \<times> string) option" where
  "markdown_heading s =
    (let level = length (takeWhile (\<lambda>c. c = CHR ''#'') (take 6 s))
     in if level = 0 \<or> length s \<le> level \<or> s ! level \<noteq> CHR '' '' then None
        else let name = bounded_single_line (trim_space (trim_right_chars ''#'' (drop (level + 1) s))) 500
          in if name \<noteq> [] then Some (level, name) else None)"

definition heading_item :: "nat \<Rightarrow> nat \<times> string \<Rightarrow> outline_item" where
  "heading_item line h = \<lparr>oi_kind = ''heading'', oi_name = snd h, oi_line = line, oi_end = line, oi_detail = ''h'' @ digits (fst h)\<rparr>"

text \<open>The open block of code after a fence; the code keeps a zero marker where there is none.\<close>

definition after_fence :: "(char \<times> nat) option \<Rightarrow> char \<times> nat \<Rightarrow> (char \<times> nat) option" where
  "after_fence opened f =
    (case opened of
       None \<Rightarrow> Some f
     | Some (marker, n) \<Rightarrow> if fst f = marker \<and> n \<le> snd f then None else Some (marker, n))"

fun markdown_loop :: "nat \<Rightarrow> nat \<Rightarrow> (char \<times> nat) option \<Rightarrow> string list \<Rightarrow> outline_result \<Rightarrow> outline_result" where
  "markdown_loop limit line opened [] result = result"
| "markdown_loop limit line opened (l # ls) result =
    (let s = trim_space l in
     case markdown_fence s of
       Some f \<Rightarrow> markdown_loop limit (Suc line) (after_fence opened f) ls result
     | None \<Rightarrow>
        if opened \<noteq> None then markdown_loop limit (Suc line) opened ls result
        else markdown_loop limit (Suc line) opened ls
          (case markdown_heading s of
             None \<Rightarrow> result
           | Some h \<Rightarrow> append_outline limit (heading_item (Suc line) h) result))"

text \<open>The buffer of the scanner holds every line of a file of at most one mebibyte, so it never fails.\<close>

definition outline_markdown :: "string \<Rightarrow> nat \<Rightarrow> outline_result \<Rightarrow> outline_result" where
  "outline_markdown data limit result = markdown_loop limit 0 None (file_lines data) result"

section \<open>Go\<close>

text \<open>
  What the code takes from a parsed file.  A function has its rendered receiver, if it has one, its name and its
  rendered type, in which the literals were cleared; positions are the first and the last line.
\<close>

datatype go_spec = GoType string nat nat | GoNames "string list" nat nat | GoOther

datatype go_decl = GoFunc "string option" string string nat nat | GoGen string "go_spec list" | GoBad

record go_file =
  gf_package :: string
  gf_imports :: "string option list"
  gf_decls :: "go_decl list"

fun func_item :: "string option \<Rightarrow> string \<Rightarrow> string \<Rightarrow> nat \<Rightarrow> nat \<Rightarrow> outline_item" where
  "func_item receiver name rendered line stop =
    \<lparr>oi_kind = (if receiver = None then ''function'' else ''method''), oi_name = name, oi_line = line, oi_end = stop,
     oi_detail = bounded_single_line
       (''func '' @ (case receiver of None \<Rightarrow> [] | Some r \<Rightarrow> r @ '' '') @ name @ trim_prefix rendered ''func'') 500\<rparr>"

fun spec_item :: "(nat \<Rightarrow> nat) \<Rightarrow> string \<Rightarrow> go_spec \<Rightarrow> outline_item option" where
  "spec_item low tok (GoType name line stop) =
    Some \<lparr>oi_kind = ''type'', oi_name = name, oi_line = line, oi_end = stop, oi_detail = ''type '' @ name\<rparr>"
| "spec_item low tok (GoNames names line stop) =
    Some \<lparr>oi_kind = to_lower low tok, oi_name = join_with '', '' names, oi_line = line, oi_end = stop,
      oi_detail = to_lower low tok @ '' '' @ join_with '', '' names\<rparr>"
| "spec_item low tok GoOther = None"

fun decl_items :: "(nat \<Rightarrow> nat) \<Rightarrow> go_decl \<Rightarrow> outline_item list" where
  "decl_items low (GoFunc receiver name rendered line stop) = [func_item receiver name rendered line stop]"
| "decl_items low (GoGen tok specs) = List.map_filter (spec_item low tok) specs"
| "decl_items low GoBad = []"

definition outline_go :: "(nat \<Rightarrow> nat) \<Rightarrow> (string \<Rightarrow> string \<Rightarrow> go_file option \<times> bool) \<Rightarrow> string \<Rightarrow> nat \<Rightarrow> outline_result \<Rightarrow> outline_result" where
  "outline_go low parse data limit result =
    (case parse (ol_path result) data of
       (None, _) \<Rightarrow> result\<lparr>ol_complete := False, ol_parse_error := ''source contains parse errors; outline is incomplete''\<rparr>
     | (Some f, failed) \<Rightarrow>
        let named = result\<lparr>ol_package := gf_package f, ol_imports := ol_imports result @ List.map_filter id (gf_imports f)\<rparr>;
            listed = fold (append_outline limit) (concat (map (decl_items low) (gf_decls f))) named
        in if failed then listed\<lparr>ol_complete := False, ol_parse_error := ''source contains parse errors; outline may be incomplete''\<rparr>
           else listed)"

section \<open>A file\<close>

definition go_ext :: "string \<Rightarrow> string" where
  "go_ext p =
    (let r = takeWhile (\<lambda>c. c \<noteq> slash) (rev p)
     in if CHR ''.'' \<in> set r then CHR ''.'' # rev (takeWhile (\<lambda>c. c \<noteq> CHR ''.'') r) else [])"

abbreviation outline_max_bytes :: int where "outline_max_bytes \<equiv> 1024 * 1024"

text \<open>The data of a file that may be outlined, and its size.\<close>

definition outline_source :: "os_env \<Rightarrow> string \<Rightarrow> string \<Rightarrow> ws_error + (int \<times> string)" where
  "outline_source env absolute rel =
    (case os_stat env absolute of
       StatMissing \<Rightarrow> Inl (WsError FileNotFound (''file not found: '' @ rel))
     | StatFailed e \<Rightarrow> Inl (OsError e)
     | StatOk (Regular sz) \<Rightarrow>
        if outline_max_bytes < sz
        then Inl (WsError FileTooLarge (''file exceeds '' @ digits (nat outline_max_bytes) @ '' bytes: '' @ rel))
        else (case os_read env absolute of
                Inl e \<Rightarrow> Inl (OsError e)
              | Inr bytes \<Rightarrow>
                 if is_binary bytes then Inl (WsError BinaryFile (''binary file: '' @ rel))
                 else (case read_bounded env absolute outline_max_bytes of
                         None \<Rightarrow> Inl (OsError ''file does not exist'')
                       | Some (Inl e) \<Rightarrow> Inl (OsError e)
                       | Some (Inr data) \<Rightarrow> Inr (sz, data)))
     | StatOk _ \<Rightarrow> Inl (WsError NotFile (''not a regular file: '' @ rel)))"

definition new_outline :: "string \<Rightarrow> int \<Rightarrow> outline_result" where
  "new_outline rel sz = \<lparr>ol_path = rel, ol_size = sz, ol_language = [], ol_package = [], ol_imports = [], ol_items = [],
     ol_total = 0, ol_returned = 0, ol_truncated = False, ol_complete = True, ol_parse_error = []\<rparr>"

definition finish_outline :: "outline_result \<Rightarrow> outline_result" where
  "finish_outline r = r\<lparr>ol_returned := length (ol_items r), ol_truncated := length (ol_items r) < ol_total r\<rparr>"

definition outline_limit :: "int \<Rightarrow> int" where
  "outline_limit limit = (if limit = 0 then 200 else limit)"

definition outline_file ::
  "os_env \<Rightarrow> workspace \<Rightarrow> (string \<Rightarrow> string \<Rightarrow> go_file option \<times> bool) \<Rightarrow> string \<Rightarrow> int \<Rightarrow> ws_error + outline_result" where
  "outline_file env w parse requested limit0 =
    (let limit = outline_limit limit0 in
     if trim_space requested = [] then Inl (WsError InvalidArgument ''path is required'')
     else if limit < 1 \<or> 500 < limit then Inl (WsError InvalidArgument ''limit must be between 1 and 500'')
     else case ws_resolve env w requested False of
       Inl e \<Rightarrow> Inl e
     | Inr (absolute, rel) \<Rightarrow>
        (case outline_source env absolute rel of
           Inl e \<Rightarrow> Inl e
         | Inr (sz, data) \<Rightarrow>
            let ext = to_lower (os_lower env) (go_ext rel); result = new_outline rel sz
            in if ext = ''.go''
               then Inr (finish_outline (outline_go (os_lower env) parse data (nat limit) (result\<lparr>ol_language := ''go''\<rparr>)))
               else if ext = ''.md'' \<or> ext = ''.markdown''
               then Inr (finish_outline (outline_markdown data (nat limit) (result\<lparr>ol_language := ''markdown''\<rparr>)))
               else Inl (WsError UnsupportedType ''file outline supports Go and Markdown files'')))"

section \<open>The headings, line by line\<close>

text \<open>
  What the scanner lists: the block of code that it takes to be open above a line, and the lines that neither lie
  in such a block nor are a fence.
\<close>

fun code_block :: "(char \<times> nat) option \<Rightarrow> string list \<Rightarrow> (char \<times> nat) option" where
  "code_block opened [] = opened"
| "code_block opened (l # ls) = code_block (case markdown_fence (trim_space l) of None \<Rightarrow> opened | Some f \<Rightarrow> after_fence opened f) ls"

definition heading_at :: "string list \<Rightarrow> nat \<Rightarrow> outline_item option" where
  "heading_at ls i =
    (if code_block None (take i ls) \<noteq> None \<or> markdown_fence (trim_space (ls ! i)) \<noteq> None then None
     else map_option (heading_item (Suc i)) (markdown_heading (trim_space (ls ! i))))"

definition scanned_headings :: "string list \<Rightarrow> outline_item list" where
  "scanned_headings ls = List.map_filter (heading_at ls) [0..<length ls]"

text \<open>
  What Markdown says, without the code: three or more backticks or tildes open a block, and what follows them may not
  contain another backtick if they are backticks; only a line of nothing but at least as many of the same characters
  closes it.  (Indentation counts for nothing here, as in the code.)
\<close>

definition leading :: "char \<Rightarrow> string \<Rightarrow> nat" where
  "leading c s = length (takeWhile (\<lambda>d. d = c) s)"

definition opens_block :: "char \<Rightarrow> string \<Rightarrow> bool" where
  "opens_block c s \<longleftrightarrow> 3 \<le> leading c s \<and> (c = CHR 0x60 \<longrightarrow> CHR 0x60 \<notin> set (drop (leading c s) s))"

definition closes_block :: "char \<times> nat \<Rightarrow> string \<Rightarrow> bool" where
  "closes_block b s \<longleftrightarrow> (\<exists>k \<ge> snd b. s = replicate k (fst b))"

definition next_block :: "(char \<times> nat) option \<Rightarrow> string \<Rightarrow> (char \<times> nat) option" where
  "next_block opened s =
    (case opened of
       Some b \<Rightarrow> if closes_block b s then None else Some b
     | None \<Rightarrow> if opens_block CHR 0x60 s then Some (CHR 0x60, leading CHR 0x60 s)
               else if opens_block CHR ''~'' s then Some (CHR ''~'', leading CHR ''~'' s) else None)"

definition block_above :: "string list \<Rightarrow> nat \<Rightarrow> (char \<times> nat) option" where
  "block_above ls i = foldl next_block None (map trim_space (take i ls))"

definition markdown_headings :: "string list \<Rightarrow> outline_item list" where
  "markdown_headings ls =
    List.map_filter (\<lambda>i. if block_above ls i = None \<and> next_block None (trim_space (ls ! i)) = None
       then map_option (heading_item (Suc i)) (markdown_heading (trim_space (ls ! i))) else None) [0..<length ls]"

text \<open>
  The documents on which the code agrees with that: inside a block, a line that repeats the marker often enough to
  close it consists of nothing else, and outside, what follows three backticks contains none.
\<close>

definition clear_fences :: "string list \<Rightarrow> bool" where
  "clear_fences ls \<longleftrightarrow> (\<forall>i < length ls. let s = trim_space (ls ! i) in
     case block_above ls i of
       Some (c, n) \<Rightarrow> n \<le> leading c s \<longrightarrow> s = replicate (length s) c
     | None \<Rightarrow> 3 \<le> leading CHR 0x60 s \<longrightarrow> opens_block CHR 0x60 s)"

lemma leading_Cons [simp]: "leading c [] = 0" "leading c (d # s) = (if d = c then Suc (leading c s) else 0)"
  by (simp_all add: leading_def)

lemma leading_length: "leading c s \<le> length s"
  by (simp add: leading_def length_takeWhile_le)

lemma leading_replicate [simp]: "leading c (replicate k c) = k"
  by (induction k) simp_all

text \<open>A fence of the code, said with \<open>leading\<close>.\<close>

lemma markdown_fence_is:
  "markdown_fence s = (if 3 \<le> leading CHR 0x60 s then Some (CHR 0x60, leading CHR 0x60 s)
     else if 3 \<le> leading CHR ''~'' s then Some (CHR ''~'', leading CHR ''~'' s) else None)"
proof (cases s)
  case (Cons d t)
  have "length s < 3 \<Longrightarrow> \<not> 3 \<le> leading c s" for c using leading_length [of c s] by linarith
  then show ?thesis by (auto simp: markdown_fence_def Cons leading_def [symmetric] Let_def simp del: leading_Cons) (auto simp: Cons)
qed (simp add: markdown_fence_def)

lemma leading_zero: "0 < leading c s \<Longrightarrow> c \<noteq> d \<Longrightarrow> leading d s = 0"
  by (cases s) (auto split: if_splits)

lemma next_block_agrees:
  assumes "case opened of Some (c, n) \<Rightarrow> (n \<le> leading c s \<longrightarrow> s = replicate (length s) c) \<and> 3 \<le> n \<and> c \<in> {CHR 0x60, CHR ''~''}
      | None \<Rightarrow> 3 \<le> leading CHR 0x60 s \<longrightarrow> opens_block CHR 0x60 s"
  shows "next_block opened s = (case markdown_fence s of None \<Rightarrow> opened | Some f \<Rightarrow> after_fence opened f)"
proof (cases opened)
  case None
  then show ?thesis using assms by (auto simp: next_block_def markdown_fence_is after_fence_def opens_block_def)
next
  case (Some b)
  obtain c n where b: "b = (c, n)" by fastforce
  have a: "n \<le> leading c s \<longrightarrow> s = replicate (length s) c" "3 \<le> n" "c = CHR 0x60 \<or> c = CHR ''~''"
    using assms by (simp_all add: Some b)
  have "closes_block b s \<longleftrightarrow> n \<le> leading c s"
  proof
    assume "n \<le> leading c s"
    then show "closes_block b s" using a(1) leading_length [of c s] unfolding closes_block_def b by (metis fst_conv order_trans snd_conv)
  qed (auto simp: closes_block_def b)
  moreover have "(case markdown_fence s of None \<Rightarrow> opened | Some f \<Rightarrow> after_fence opened f) = (if n \<le> leading c s then None else opened)"
    using a(2,3) leading_zero [of c s] by (auto simp: markdown_fence_is after_fence_def Some b)
  ultimately show ?thesis by (simp add: next_block_def Some)
qed

lemma block_above_Suc: "i < length ls \<Longrightarrow> block_above ls (Suc i) = next_block (block_above ls i) (trim_space (ls ! i))"
  by (simp add: block_above_def take_Suc_conv_app_nth)

lemma block_above_shape: "i \<le> length ls \<Longrightarrow> block_above ls i = Some (c, n) \<Longrightarrow> 3 \<le> n \<and> c \<in> {CHR 0x60, CHR ''~''}"
proof (induction i)
  case 0
  then show ?case by (simp add: block_above_def)
next
  case (Suc i)
  then show ?case
    by (auto simp: block_above_Suc next_block_def opens_block_def split: option.splits if_splits)
qed

lemma code_block_snoc: "code_block opened (ls @ [l]) =
  (case markdown_fence (trim_space l) of None \<Rightarrow> code_block opened ls | Some f \<Rightarrow> after_fence (code_block opened ls) f)"
  by (induction ls arbitrary: opened) (simp_all split: option.split)

lemma clear_step:
  assumes "clear_fences ls" and "i < length ls"
  shows "next_block (block_above ls i) (trim_space (ls ! i))
    = (case markdown_fence (trim_space (ls ! i)) of None \<Rightarrow> block_above ls i | Some f \<Rightarrow> after_fence (block_above ls i) f)"
proof (rule next_block_agrees)
  have "case block_above ls i of Some (c, n) \<Rightarrow> n \<le> leading c (trim_space (ls ! i)) \<longrightarrow> trim_space (ls ! i) = replicate (length (trim_space (ls ! i))) c
      | None \<Rightarrow> 3 \<le> leading CHR 0x60 (trim_space (ls ! i)) \<longrightarrow> opens_block CHR 0x60 (trim_space (ls ! i))"
    using assms unfolding clear_fences_def Let_def by blast
  then show "case block_above ls i of
      Some (c, n) \<Rightarrow> (n \<le> leading c (trim_space (ls ! i)) \<longrightarrow> trim_space (ls ! i) = replicate (length (trim_space (ls ! i))) c)
        \<and> 3 \<le> n \<and> c \<in> {CHR 0x60, CHR ''~''}
    | None \<Rightarrow> 3 \<le> leading CHR 0x60 (trim_space (ls ! i)) \<longrightarrow> opens_block CHR 0x60 (trim_space (ls ! i))"
    using block_above_shape [of i ls] assms(2) by (auto split: option.splits)
qed

lemma code_block_agrees: "clear_fences ls \<Longrightarrow> i \<le> length ls \<Longrightarrow> code_block None (take i ls) = block_above ls i"
proof (induction i)
  case 0
  then show ?case by (simp add: block_above_def)
next
  case (Suc i)
  then show ?case using clear_step [of ls i]
    by (cases "markdown_fence (trim_space (ls ! i))") (simp_all add: take_Suc_conv_app_nth code_block_snoc block_above_Suc)
qed

lemma scanned_is_markdown:
  assumes "clear_fences ls"
  shows "scanned_headings ls = markdown_headings ls"
proof -
  have "heading_at ls i = (if block_above ls i = None \<and> next_block None (trim_space (ls ! i)) = None
       then map_option (heading_item (Suc i)) (markdown_heading (trim_space (ls ! i))) else None)" if "i < length ls" for i
    using clear_step [OF assms that] code_block_agrees [OF assms, of i] that
    by (cases "block_above ls i"; cases "markdown_fence (trim_space (ls ! i))") (simp_all add: heading_at_def after_fence_def)
  then show ?thesis
    unfolding scanned_headings_def markdown_headings_def List.map_filter_def by (intro map_cong filter_cong) auto
qed

text \<open>A list of items, cut at the limit and counted.\<close>

definition cut_outline :: "nat \<Rightarrow> outline_item list \<Rightarrow> outline_result \<Rightarrow> outline_result" where
  "cut_outline limit items r = r\<lparr>ol_items := take limit items, ol_total := length items\<rparr>"

lemma append_cut: "append_outline limit item (cut_outline limit items r) = cut_outline limit (items @ [item]) r"
  by (auto simp: append_outline_def cut_outline_def Let_def)

lemma fold_append_cut: "fold (append_outline limit) new (cut_outline limit items r) = cut_outline limit (items @ new) r"
  by (induction new arbitrary: items) (simp_all add: append_cut)

lemma heading_at_prefix: "i < length ls \<Longrightarrow> heading_at (ls @ rest) i = heading_at ls i"
  by (simp add: heading_at_def nth_append)

lemma headings_snoc: "scanned_headings (ls @ [l]) = scanned_headings ls @ (case heading_at (ls @ [l]) (length ls) of None \<Rightarrow> [] | Some h \<Rightarrow> [h])"
proof -
  have "List.map_filter (heading_at (ls @ [l])) [0..<length ls] = List.map_filter (heading_at ls) [0..<length ls]"
    unfolding List.map_filter_def
    by (rule map_cong) (auto simp: heading_at_prefix intro!: filter_cong)
  then show ?thesis by (simp add: scanned_headings_def List.map_filter_def split: option.split)
qed

lemma markdown_loop_is:
  "markdown_loop limit (length before) (code_block None before) ls (cut_outline limit (scanned_headings before) r)
    = cut_outline limit (scanned_headings (before @ ls)) r"
proof (induction ls arbitrary: before)
  case (Cons l ls)
  have next_is: "markdown_loop limit (Suc (length before)) (code_block None (before @ [l])) ls (cut_outline limit (scanned_headings (before @ [l])) r)
      = cut_outline limit (scanned_headings (before @ l # ls)) r"
    using Cons [of "before @ [l]"] by simp
  show ?case
    unfolding next_is [symmetric]
    by (auto simp: Let_def code_block_snoc headings_snoc heading_at_def append_cut split: option.split)
qed simp

lemma outline_markdown_is: "outline_markdown data limit (cut_outline limit [] r) = cut_outline limit (scanned_headings (file_lines data)) r"
  using markdown_loop_is [of limit "[]" "file_lines data" r] by (simp add: outline_markdown_def scanned_headings_def List.map_filter_def)

text \<open>What a Go file declares, said of its declarations: kind, name, first and last line.\<close>

fun declared :: "(nat \<Rightarrow> nat) \<Rightarrow> go_decl \<Rightarrow> (string \<times> string \<times> nat \<times> nat) list" where
  "declared low (GoFunc None name _ first_line last_line) = [(''function'', name, first_line, last_line)]"
| "declared low (GoFunc (Some _) name _ first_line last_line) = [(''method'', name, first_line, last_line)]"
| "declared low (GoGen tok specs) = concat (map (\<lambda>spec. case spec of
     GoType name first_line last_line \<Rightarrow> [(''type'', name, first_line, last_line)]
   | GoNames names first_line last_line \<Rightarrow> [(to_lower low tok, join_with '', '' names, first_line, last_line)]
   | GoOther \<Rightarrow> []) specs)"
| "declared low GoBad = []"

definition item_key :: "outline_item \<Rightarrow> string \<times> string \<times> nat \<times> nat" where
  "item_key i = (oi_kind i, oi_name i, oi_line i, oi_end i)"

lemma decl_items_declared: "map item_key (decl_items low d) = declared low d"
proof (cases d)
  case (GoFunc receiver name rendered a b)
  then show ?thesis by (cases receiver) (simp_all add: item_key_def)
next
  case (GoGen tok specs)
  have "map item_key (List.map_filter (spec_item low tok) specs) = declared low (GoGen tok specs)"
  proof (induction specs)
    case (Cons spec specs)
    then show ?case by (cases spec) (simp_all add: List.map_filter_simps item_key_def)
  qed (simp add: List.map_filter_simps)
  then show ?thesis by (simp add: GoGen)
qed simp

text \<open>The items of a Go file, and what else the outline takes from it.\<close>

definition go_items :: "(nat \<Rightarrow> nat) \<Rightarrow> go_file option \<times> bool \<Rightarrow> outline_item list" where
  "go_items low parsed = (case fst parsed of None \<Rightarrow> [] | Some f \<Rightarrow> concat (map (decl_items low) (gf_decls f)))"

lemma outline_go_cut:
  "\<exists>r'. outline_go low parse data limit (cut_outline limit [] r) = cut_outline limit (go_items low (parse (ol_path r) data)) r'
    \<and> ol_path r' = ol_path r \<and> ol_language r' = ol_language r
    \<and> (ol_complete r' \<longleftrightarrow> ol_complete r \<and> fst (parse (ol_path r) data) \<noteq> None \<and> \<not> snd (parse (ol_path r) data))"
proof -
  have pull: "(cut_outline limit items r)\<lparr>ol_complete := c, ol_parse_error := e\<rparr> = cut_outline limit items (r\<lparr>ol_complete := c, ol_parse_error := e\<rparr>)"
    "(cut_outline limit items r)\<lparr>ol_package := p, ol_imports := is\<rparr> = cut_outline limit items (r\<lparr>ol_package := p, ol_imports := is\<rparr>)"
    for items r c e p "is" by (simp_all add: cut_outline_def)
  have old: "ol_imports (cut_outline limit [] r) = ol_imports r" "ol_path (cut_outline limit [] r) = ol_path r" by (simp_all add: cut_outline_def)
  show ?thesis
  proof (cases "parse (ol_path r) data")
    case (Pair found failed)
    show ?thesis
      by (cases found; cases failed)
        (simp_all add: outline_go_def go_items_def Let_def pull fold_append_cut old Pair, (rule exI, intro conjI, rule refl, simp_all)+)
  qed
qed


section \<open>Headings that are lost or invented\<close>

text \<open>
  The name of a heading loses every number sign at its end, also one that belongs to the last word: a section on
  C# is listed as one on C.
\<close>

lemma sharp_heading_is_cut: "markdown_heading ''# C#'' = Some (1, ''C'')"
  by (simp add: markdown_heading_def bounded_single_line_def trim_right_chars_def utf8_safe_prefix_def control_to_space_def str_fields_def is_space_def trim_space_def runes_def path_eval)

text \<open>
  A fence with a language closes a block for the code, although only a bare fence does so in Markdown: a comment in
  an example of a fenced block is listed as a heading.
\<close>

lemma example_fence_closes_block:
  "scanned_headings [''```text'', ''```sh'', ''# note''] = [heading_item 3 (1, ''note'')] \<and> markdown_headings [''```text'', ''```sh'', ''# note''] = []"
  by (simp add: markdown_headings_def block_above_def next_block_def opens_block_def closes_block_def Cons_replicate_eq scanned_headings_def heading_at_def markdown_fence_def after_fence_def markdown_heading_def bounded_single_line_def
    trim_right_chars_def utf8_safe_prefix_def control_to_space_def str_fields_def is_space_def trim_space_def List.map_filter_def heading_item_def path_eval)

section \<open>An example\<close>

definition md_env :: os_env where
  "md_env = (open_env False)\<lparr>os_lstat := (\<lambda>_. StatOk (Regular 4)), os_stat := (\<lambda>_. StatOk (Regular 4)), os_read := (\<lambda>_. Inr ''# A'')\<rparr>"


end
