(* ===== verification/Relations.thy ===== *)
theory Relations
  imports Repositories Json Url
begin

text \<open>
  \<open>internal/workspace/relations.go\<close>: which repositories of a workspace depend on which, read from \<open>package.json\<close>
  and \<open>go.mod\<close>.  The parser of JSON text is a parameter, as everywhere; a set or a map that the code iterates over
  and then sorts is a list of distinct elements here.
\<close>

section \<open>package.json\<close>

record node_document =
  nd_name :: string
  nd_groups :: "(string \<times> string) list list"

text \<open>A \<open>map[string]string\<close>; a map that is \<open>nil\<close> and an empty one are not told apart.\<close>

definition into_string_map :: "jvalue \<Rightarrow> (string \<times> string) list \<Rightarrow> (string \<times> string) list \<times> bool" where
  "into_string_map v old = (case v of
     JsObject kvs \<Rightarrow> (js_merge old (map (\<lambda>(k, v). (k, fst (into_string v []))) kvs), list_all (\<lambda>(k, v). snd (into_string v [])) kvs)
   | JsNull \<Rightarrow> ([], True) | _ \<Rightarrow> (old, False))"

definition into_group :: "nat \<Rightarrow> jvalue \<Rightarrow> node_document \<Rightarrow> node_document \<times> bool" where
  "into_group i v d = (case into_string_map v (nd_groups d ! i) of (m, ok) \<Rightarrow> (d\<lparr>nd_groups := (nd_groups d)[i := m]\<rparr>, ok))"

definition node_fields :: "node_document js_fields" where
  "node_fields =
    [(''name'', \<lambda>v d. case into_string v (nd_name d) of (s, ok) \<Rightarrow> (d\<lparr>nd_name := s\<rparr>, ok)),
     (''dependencies'', into_group 0), (''devDependencies'', into_group 1), (''peerDependencies'', into_group 2),
     (''optionalDependencies'', into_group 3)]"

definition read_node_metadata :: "os_env \<Rightarrow> (string \<Rightarrow> jvalue option) \<Rightarrow> string \<Rightarrow> string \<times> string list" where
  "read_node_metadata env parse root =
    (case read_bounded env (go_join [root, ''package.json'']) (1024 * 1024) of
       Some (Inr data) \<Rightarrow>
        (case parse data of
           None \<Rightarrow> ([], [])
         | Some v \<Rightarrow>
            (case into_struct False node_fields v \<lparr>nd_name = [], nd_groups = [[], [], [], []]\<rparr> of
               (d, True) \<Rightarrow> (trim_space (nd_name d), sort (remdups (map fst (concat (nd_groups d)))))
             | (d, False) \<Rightarrow> ([], [])))
     | _ \<Rightarrow> ([], []))"

section \<open>go.mod\<close>

record go_link =
  gk_module :: string
  gk_path :: string

record go_module =
  gm_name :: string
  gm_section :: string
  gm_requires :: "string list"
  gm_links :: "go_link list"

definition strip_comment :: "string \<Rightarrow> string" where
  "strip_comment line = (case find_sub ''//'' line of Some i \<Rightarrow> trim_space (take i line) | None \<Rightarrow> line)"

text \<open>What a directive outside the name of the module adds.\<close>

definition go_require :: "string \<Rightarrow> go_module \<Rightarrow> go_module" where
  "go_require v m =
    (case str_fields v of
       [] \<Rightarrow> m
     | r # _ \<Rightarrow> if r \<in> set (gm_requires m) then m else m\<lparr>gm_requires := gm_requires m @ [r]\<rparr>)"

definition go_replace :: "string \<Rightarrow> go_module \<Rightarrow> go_module" where
  "go_replace v m =
    (case find_sub ''=>'' v of
       None \<Rightarrow> m
     | Some i \<Rightarrow>
        (case (str_fields (trim_space (take i v)), str_fields (trim_space (drop (i + 2) v))) of
           (source # _, target # _) \<Rightarrow>
             if rooted target \<or> has_prefix target ''.''
             then m\<lparr>gm_links := gm_links m @ [\<lparr>gk_module = source, gk_path = target\<rparr>]\<rparr> else m
         | _ \<Rightarrow> m))"

definition go_directive :: "string \<Rightarrow> go_module \<Rightarrow> go_module" where
  "go_directive line m =
    (let (kind, v) =
       (if has_prefix line ''require '' then (''require'', trim_space (trim_prefix line ''require ''))
        else if has_prefix line ''replace '' then (''replace'', trim_space (trim_prefix line ''replace ''))
        else (gm_section m, line))
     in if kind = ''require'' then go_require v m else if kind = ''replace'' then go_replace v m else m)"

definition go_line :: "string \<Rightarrow> go_module \<Rightarrow> go_module" where
  "go_line raw m =
    (let line = strip_comment (trim_space raw) in
     if line = [] then m
     else if line = '')'' then m\<lparr>gm_section := []\<rparr>
     else if has_suffix line ''('' then
       (let fs = str_fields (trim_suffix line ''('')
        in if fs = [''require''] \<or> fs = [''replace''] then m\<lparr>gm_section := hd fs\<rparr> else m)
     else if has_prefix line ''module '' then
       (let fs = str_fields line in if 2 \<le> length fs then m\<lparr>gm_name := fs ! 1\<rparr> else m)
     else go_directive line m)"

definition link_key :: "go_link \<Rightarrow> string" where
  "link_key l = gk_module l @ CHR 0x00 # gk_path l"

definition read_go_metadata :: "os_env \<Rightarrow> string \<Rightarrow> string \<times> string list \<times> go_link list" where
  "read_go_metadata env root =
    (case read_bounded env (go_join [root, ''go.mod'']) (1024 * 1024) of
       Some (Inr data) \<Rightarrow>
        (let m = fold go_line (scan_lines data) \<lparr>gm_name = [], gm_section = [], gm_requires = [], gm_links = []\<rparr>
         in (trim_space (gm_name m), sort (gm_requires m), sort_key link_key (gm_links m)))
     | _ \<Rightarrow> ([], [], []))"

section \<open>Owners\<close>

record repository_metadata =
  mt_repository :: repository
  mt_node_name :: string
  mt_node_deps :: "string list"
  mt_go_module :: string
  mt_requires :: "string list"
  mt_links :: "go_link list"

definition metadata_of :: "os_env \<Rightarrow> (string \<Rightarrow> jvalue option) \<Rightarrow> repository \<Rightarrow> repository_metadata" where
  "metadata_of env parse r =
    (case (read_node_metadata env parse (rp_root r), read_go_metadata env (rp_root r)) of
       ((name, deps), (m, requires, links)) \<Rightarrow>
         \<lparr>mt_repository = r, mt_node_name = name, mt_node_deps = deps, mt_go_module = m, mt_requires = requires, mt_links = links\<rparr>)"

text \<open>The repository of every name, and the names that more than one repository has.\<close>

fun owner_loop :: "(repository_metadata \<Rightarrow> string) \<Rightarrow> repository_metadata list \<Rightarrow> (string \<rightharpoonup> repository) \<times> string list \<Rightarrow> (string \<rightharpoonup> repository) \<times> string list" where
  "owner_loop name [] acc = acc"
| "owner_loop name (item # items) (found, duplicates) =
    (let key = trim_space (name item) in
     if key = [] then owner_loop name items (found, duplicates)
     else if found key \<noteq> None then owner_loop name items (found, key # duplicates)
     else owner_loop name items (found(key \<mapsto> mt_repository item), duplicates))"

definition unique_owners :: "(repository_metadata \<Rightarrow> string) \<Rightarrow> repository_metadata list \<Rightarrow> (string \<rightharpoonup> repository)" where
  "unique_owners name items =
    (case owner_loop name items (Map.empty, []) of (found, duplicates) \<Rightarrow> \<lambda>key. if key \<in> set duplicates then None else found key)"

section \<open>Relations\<close>

record relation =
  re_from :: string
  re_to :: string
  re_type :: string
  re_reference :: string

definition relation_key :: "relation \<Rightarrow> string" where
  "relation_key r = re_from r @ CHR 0x00 # re_to r @ CHR 0x00 # re_type r @ CHR 0x00 # re_reference r"

definition add_relation :: "relation \<Rightarrow> relation list \<Rightarrow> relation list" where
  "add_relation r rs =
    (if re_from r = re_to r \<or> re_from r = [] \<or> re_to r = [] then rs
     else if relation_key r \<in> relation_key ` set rs then rs else rs @ [r])"

definition path_inside :: "string \<Rightarrow> string \<Rightarrow> bool" where
  "path_inside root candidate \<longleftrightarrow>
    (case go_rel (go_clean root) (go_clean candidate) of
       None \<Rightarrow> False | Some rel \<Rightarrow> rel \<noteq> dotdot \<and> \<not> has_prefix rel ''../'' \<and> \<not> rooted rel)"

text \<open>The first repository with the longest root around a target.\<close>

fun best_candidate :: "string \<Rightarrow> repository option \<Rightarrow> repository list \<Rightarrow> repository option" where
  "best_candidate target best [] = best"
| "best_candidate target best (c # cs) =
    best_candidate target
      (if path_inside (rp_root c) target \<and> (case best of None \<Rightarrow> True | Some b \<Rightarrow> length (rp_root b) < length (rp_root c))
       then Some c else best) cs"

definition owned_relations :: "(string \<rightharpoonup> repository) \<Rightarrow> string \<Rightarrow> repository_metadata \<Rightarrow> string list \<Rightarrow> relation list" where
  "owned_relations owners kind item names =
    List.map_filter (\<lambda>n. map_option (\<lambda>target. \<lparr>re_from = rp_path (mt_repository item), re_to = rp_path target, re_type = kind, re_reference = n\<rparr>)
      (owners n)) names"

definition link_target :: "os_env \<Rightarrow> repository_metadata \<Rightarrow> go_link \<Rightarrow> string" where
  "link_target env item l =
    (let target = go_clean (if rooted (gk_path l) then gk_path l else go_join [rp_root (mt_repository item), gk_path l])
     in case os_eval env target of Some real \<Rightarrow> real | None \<Rightarrow> target)"

definition link_owner :: "os_env \<Rightarrow> repository list \<Rightarrow> string \<Rightarrow> repository option" where
  "link_owner env rs target =
    (case find (\<lambda>r. normalize_identity_path env (rp_root r) = normalize_identity_path env target) (rev rs) of
       Some r \<Rightarrow> Some r | None \<Rightarrow> best_candidate target None rs)"

definition link_relations :: "os_env \<Rightarrow> string \<Rightarrow> repository list \<Rightarrow> repository_metadata \<Rightarrow> relation list" where
  "link_relations env workspace_root rs item =
    List.map_filter (\<lambda>l. let target = link_target env item l in
      if \<not> path_inside workspace_root target then None
      else map_option (\<lambda>r. \<lparr>re_from = rp_path (mt_repository item), re_to = rp_path r, re_type = ''go-replace'', re_reference = gk_module l\<rparr>)
        (link_owner env rs target)) (mt_links item)"

definition item_relations :: "os_env \<Rightarrow> string \<Rightarrow> repository list \<Rightarrow> repository_metadata list \<Rightarrow> repository_metadata \<Rightarrow> relation list" where
  "item_relations env workspace_root rs items item =
    owned_relations (unique_owners mt_node_name items) ''node-package'' item (mt_node_deps item)
    @ owned_relations (unique_owners mt_go_module items) ''go-module'' item (mt_requires item)
    @ link_relations env workspace_root rs item"

definition detect_relations :: "os_env \<Rightarrow> (string \<Rightarrow> jvalue option) \<Rightarrow> string \<Rightarrow> repository list \<Rightarrow> relation list" where
  "detect_relations env parse workspace_root rs =
    (let items = map (metadata_of env parse) rs
     in sort_key relation_key (fold add_relation (concat (map (item_relations env workspace_root rs items) items)) []))"

section \<open>Owners are unique\<close>

definition named :: "(repository_metadata \<Rightarrow> string) \<Rightarrow> repository_metadata list \<Rightarrow> string \<Rightarrow> repository list" where
  "named name items key = map mt_repository (filter (\<lambda>i. trim_space (name i) = key) items)"

lemma named_simps [simp]: "named name [] key = []"
    "named name (i # items) key = (if trim_space (name i) = key then mt_repository i # named name items key else named name items key)"
  by (simp_all add: named_def)

lemma owner_loop_is:
  "owner_loop name items (found, duplicates) = (found', duplicates') \<Longrightarrow>
    found' key = (case found key of Some r \<Rightarrow> Some r | None \<Rightarrow> if key = [] \<or> named name items key = [] then None else Some (hd (named name items key)))
    \<and> (key \<in> set duplicates' \<longleftrightarrow> key \<in> set duplicates
        \<or> key \<noteq> [] \<and> (if found key = None then 2 \<le> length (named name items key) else named name items key \<noteq> []))"
proof (induction name items "(found, duplicates)" arbitrary: found duplicates rule: owner_loop.induct)
  case (2 name item items found duplicates)
  show ?case
    using 2 by (auto simp: Let_def split: if_splits option.splits) (auto simp: Suc_le_eq length_greater_0_conv)
qed (auto split: option.split)

lemma unique_owners_iff: "unique_owners name items key = Some r \<longleftrightarrow> key \<noteq> [] \<and> named name items key = [r]"
proof -
  obtain found duplicates where run: "owner_loop name items (Map.empty, []) = (found, duplicates)" by fastforce
  show ?thesis
    using owner_loop_is [OF run, of key] by (cases "named name items key") (auto simp: unique_owners_def run Suc_le_eq)
qed

section \<open>What is found\<close>

lemma add_relations_set:
  assumes "inj_on relation_key (set cs \<union> set rs)"
  shows "set (fold add_relation cs rs) = set rs \<union> {c \<in> set cs. re_from c \<noteq> re_to c \<and> re_from c \<noteq> [] \<and> re_to c \<noteq> []}"
  using assms
proof (induction cs arbitrary: rs)
  case (Cons c cs)
  have "set (add_relation c rs) \<subseteq> set (c # rs)" by (auto simp: add_relation_def)
  then have "inj_on relation_key (set cs \<union> set (add_relation c rs))" by (intro inj_on_subset [OF Cons.prems]) auto
  from Cons.IH [OF this] have step: "set (fold add_relation (c # cs) rs)
      = set (add_relation c rs) \<union> {c \<in> set cs. re_from c \<noteq> re_to c \<and> re_from c \<noteq> [] \<and> re_to c \<noteq> []}" by simp
  have "c \<in> set rs" if "relation_key c \<in> relation_key ` set rs"
    using that Cons.prems by (auto dest: inj_onD)
  then show ?case unfolding step by (auto simp: add_relation_def)
qed simp

lemma add_relations_distinct: "distinct (map relation_key rs) \<Longrightarrow> distinct (map relation_key (fold add_relation cs rs))"
proof (induction cs arbitrary: rs)
  case (Cons c cs)
  then have "distinct (map relation_key (add_relation c rs))" by (auto simp: add_relation_def)
  with Cons.IH show ?case by simp
qed simp

lemma nul_split: "z \<notin> set a \<Longrightarrow> z \<notin> set b \<Longrightarrow> a @ z # s = b @ z # t \<Longrightarrow> a = b \<and> s = t"
  by (induction a arbitrary: b) (auto simp: Cons_eq_append_conv append_eq_Cons_conv)

definition plain_relation :: "relation \<Rightarrow> bool" where
  "plain_relation r \<longleftrightarrow> CHR 0x00 \<notin> set (re_from r) \<and> CHR 0x00 \<notin> set (re_to r) \<and> CHR 0x00 \<notin> set (re_type r)"

lemma relation_key_inj:
  assumes "plain_relation r" and "plain_relation q" and "relation_key r = relation_key q"
  shows "r = q"
proof -
  note z = assms(1,2) [unfolded plain_relation_def]
  have 1: "re_from r = re_from q \<and> re_to r @ CHR 0x00 # re_type r @ CHR 0x00 # re_reference r = re_to q @ CHR 0x00 # re_type q @ CHR 0x00 # re_reference q"
    by (rule nul_split [of "CHR 0x00"]) (use z assms(3) in \<open>simp_all add: relation_key_def\<close>)
  have 2: "re_to r = re_to q \<and> re_type r @ CHR 0x00 # re_reference r = re_type q @ CHR 0x00 # re_reference q"
    by (rule nul_split [of "CHR 0x00"]) (use z 1 in simp_all)
  have 3: "re_type r = re_type q \<and> re_reference r = re_reference q"
    by (rule nul_split [of "CHR 0x00"]) (use z 2 in simp_all)
  from 1 2 3 show ?thesis by (simp add: relation.equality)
qed

lemma best_candidate_in: "best_candidate target best rs = Some r \<Longrightarrow> best = Some r \<or> r \<in> set rs"
  by (induction rs arbitrary: best) (fastforce split: if_splits)+

lemma link_owner_in: "link_owner env rs target = Some r \<Longrightarrow> r \<in> set rs"
  using best_candidate_in [of target None rs r]
  by (auto simp: link_owner_def find_Some_iff split: option.splits) (metis nth_mem rev_nth length_rev set_rev)

lemma owner_in: "unique_owners name items key = Some r \<Longrightarrow> r \<in> mt_repository ` set items"
proof -
  assume "unique_owners name items key = Some r"
  then have "r \<in> set (named name items key)" by (simp add: unique_owners_iff)
  then show ?thesis by (auto simp: named_def)
qed

lemma metadata_of_simps [simp]: "mt_repository (metadata_of env parse r) = r"
    "mt_node_name (metadata_of env parse r) = fst (read_node_metadata env parse (rp_root r))"
    "mt_node_deps (metadata_of env parse r) = snd (read_node_metadata env parse (rp_root r))"
    "mt_go_module (metadata_of env parse r) = fst (read_go_metadata env (rp_root r))"
    "mt_requires (metadata_of env parse r) = fst (snd (read_go_metadata env (rp_root r)))"
    "mt_links (metadata_of env parse r) = snd (snd (read_go_metadata env (rp_root r)))"
  by (simp_all add: metadata_of_def split: prod.split)

lemma named_metadata: "named name (map (metadata_of env parse) rs) key = filter (\<lambda>r. trim_space (name (metadata_of env parse r)) = key) rs"
  by (simp add: named_def filter_map o_def)

lemma map_filter_in: "x \<in> set (List.map_filter f xs) \<longleftrightarrow> (\<exists>y\<in>set xs. f y = Some x)"
  by (force simp: List.map_filter_def)

text \<open>
  What a replaced module points at: the repository whose root is the target (the last one, should several be the
  same directory), and otherwise, of those the target lies in, the first with the longest root.
\<close>

definition innermost :: "string \<Rightarrow> repository list \<Rightarrow> repository \<Rightarrow> bool" where
  "innermost target rs q \<longleftrightarrow> (\<exists>before behind. filter (\<lambda>r. path_inside (rp_root r) target) rs = before @ q # behind
     \<and> (\<forall>r \<in> set before. length (rp_root r) < length (rp_root q)) \<and> (\<forall>r \<in> set behind. length (rp_root r) \<le> length (rp_root q)))"

definition pointed_at :: "os_env \<Rightarrow> repository list \<Rightarrow> string \<Rightarrow> repository \<Rightarrow> bool" where
  "pointed_at env rs target q \<longleftrightarrow>
    (let same = filter (\<lambda>r. normalize_identity_path env (rp_root r) = normalize_identity_path env target) rs
     in if same \<noteq> [] then q = last same else innermost target rs q)"

lemma innermost_Nil: "\<not> innermost target [] q"
  by (simp add: innermost_def)

lemma innermost_Cons:
  "innermost target (c # cs) q \<longleftrightarrow>
    (if path_inside (rp_root c) target
     then q = c \<and> (\<forall>r \<in> set cs. path_inside (rp_root r) target \<longrightarrow> length (rp_root r) \<le> length (rp_root c))
       \<or> innermost target cs q \<and> length (rp_root c) < length (rp_root q)
     else innermost target cs q)"
proof (cases "path_inside (rp_root c) target")
  case True
  let ?inside = "filter (\<lambda>r. path_inside (rp_root r) target) cs"
  have split: "c # ?inside = before @ q # behind \<longleftrightarrow> before = [] \<and> q = c \<and> behind = ?inside
      \<or> (\<exists>later. before = c # later \<and> ?inside = later @ q # behind)" for before behind
    by (cases before) auto
  let ?le = "\<lambda>rs. \<forall>r \<in> set rs. length (rp_root r) \<le> length (rp_root q)" and ?less = "\<lambda>rs. \<forall>r \<in> set rs. length (rp_root r) < length (rp_root q)"
  have "innermost target (c # cs) q \<longleftrightarrow> (\<exists>before behind. c # ?inside = before @ q # behind \<and> ?less before \<and> ?le behind)"
    unfolding innermost_def using True by simp
  also have "\<dots> \<longleftrightarrow> q = c \<and> ?le ?inside \<or> (\<exists>later behind. ?inside = later @ q # behind \<and> ?less (c # later) \<and> ?le behind)"
    unfolding split by (rule iffI) (elim exE conjE disjE, simp, blast, elim disjE conjE exE, metis empty_iff list.set(1), blast)
  also have "\<dots> \<longleftrightarrow> q = c \<and> ?le ?inside \<or> innermost target cs q \<and> length (rp_root c) < length (rp_root q)"
    unfolding innermost_def by auto
  finally show ?thesis using True by auto
qed (simp add: innermost_def)

lemma best_candidate_is:
  "best_candidate target best rs = Some q \<longleftrightarrow>
    (case best of
       None \<Rightarrow> innermost target rs q
     | Some b \<Rightarrow> q = b \<and> (\<forall>r \<in> set rs. path_inside (rp_root r) target \<longrightarrow> length (rp_root r) \<le> length (rp_root b))
         \<or> innermost target rs q \<and> length (rp_root b) < length (rp_root q))"
proof (induction rs arbitrary: best)
  case Nil
  then show ?case by (auto simp: innermost_Nil split: option.split)
next
  case (Cons c cs)
  have listed: "q \<in> set cs \<and> path_inside (rp_root q) target" if "innermost target cs q"
  proof -
    have "q \<in> set (filter (\<lambda>r. path_inside (rp_root r) target) cs)"
      using that unfolding innermost_def by (metis in_set_conv_decomp)
    then show ?thesis by simp
  qed
  show ?case
  proof (cases best)
    case None
    then show ?thesis by (simp add: Cons.IH innermost_Cons)
  next
    case (Some b)
    show ?thesis using listed by (auto simp: Some Cons.IH innermost_Cons not_less)
  qed
qed

lemma find_rev_last: "find P (rev xs) = (if filter P xs = [] then None else Some (last (filter P xs)))"
  by (induction xs rule: rev_induct) auto

lemma link_owner_is: "link_owner env rs target = Some q \<longleftrightarrow> pointed_at env rs target q"
  using best_candidate_is [of target None rs q] by (auto simp: link_owner_def pointed_at_def find_rev_last Let_def)

text \<open>
  C30: The relations are exactly the dependencies.  One repository depends on another by a package or a module when
  its metadata names it and the other is the only repository that has that name; it depends on another by a
  replacement when its \<open>go.mod\<close> replaces a module by a path that, links resolved, lies in the workspace and is or
  is in the other (the innermost one there).  There are no other relations, each is listed once and in order, and
  every one connects two different repositories of the workspace.
\<close>

theorem relations_are_the_dependencies:
  assumes "list_all (\<lambda>r. rp_path r \<noteq> [] \<and> CHR 0x00 \<notin> set (rp_path r)) rs"
  shows "(\<lparr>re_from = f, re_to = t, re_type = ''node-package'', re_reference = d\<rparr> \<in> set (detect_relations env parse root rs) \<longleftrightarrow>
      (\<exists>r \<in> set rs. \<exists>q. rp_path r = f \<and> rp_path q = t \<and> f \<noteq> t \<and> d \<noteq> [] \<and> d \<in> set (snd (read_node_metadata env parse (rp_root r)))
        \<and> filter (\<lambda>q. trim_space (fst (read_node_metadata env parse (rp_root q))) = d) rs = [q]))
    \<and> (\<lparr>re_from = f, re_to = t, re_type = ''go-module'', re_reference = d\<rparr> \<in> set (detect_relations env parse root rs) \<longleftrightarrow>
      (\<exists>r \<in> set rs. \<exists>q. rp_path r = f \<and> rp_path q = t \<and> f \<noteq> t \<and> d \<noteq> [] \<and> d \<in> set (fst (snd (read_go_metadata env (rp_root r))))
        \<and> filter (\<lambda>q. trim_space (fst (read_go_metadata env (rp_root q))) = d) rs = [q]))
    \<and> (\<lparr>re_from = f, re_to = t, re_type = ''go-replace'', re_reference = d\<rparr> \<in> set (detect_relations env parse root rs) \<longleftrightarrow>
      (\<exists>r \<in> set rs. \<exists>l \<in> set (snd (snd (read_go_metadata env (rp_root r)))). \<exists>q. rp_path r = f \<and> rp_path q = t \<and> f \<noteq> t \<and> gk_module l = d
        \<and> path_inside root (link_target env (metadata_of env parse r) l) \<and> pointed_at env rs (link_target env (metadata_of env parse r) l) q))
    \<and> distinct (detect_relations env parse root rs) \<and> sorted (map relation_key (detect_relations env parse root rs))
    \<and> (\<forall>x \<in> set (detect_relations env parse root rs). re_from x \<noteq> re_to x \<and> {re_from x, re_to x} \<subseteq> rp_path ` set rs
         \<and> re_type x \<in> {''node-package'', ''go-module'', ''go-replace''})"
proof -
  let ?items = "map (metadata_of env parse) rs"
  let ?cs = "concat (map (item_relations env root rs ?items) ?items)"
  have kinds: "re_type c \<in> {''node-package'', ''go-module'', ''go-replace''}" if "c \<in> set ?cs" for c
    using that by (auto simp: item_relations_def owned_relations_def link_relations_def map_filter_in Let_def split: if_splits)
  have ends: "{re_from c, re_to c} \<subseteq> rp_path ` set rs" "plain_relation c" "re_from c \<noteq> []" "re_to c \<noteq> []" if "c \<in> set ?cs" for c
  proof -
    have types: "CHR 0x00 \<notin> set ''node-package''" "CHR 0x00 \<notin> set ''go-module''" "CHR 0x00 \<notin> set ''go-replace''" by simp_all
    from that obtain r q where "r \<in> set rs" "q \<in> set rs" "re_from c = rp_path r" "re_to c = rp_path q" "CHR 0x00 \<notin> set (re_type c)"
      using types owner_in [of _ ?items] link_owner_in [of env rs]
      by (fastforce simp: item_relations_def owned_relations_def link_relations_def map_filter_in Let_def split: if_splits)
    then show "{re_from c, re_to c} \<subseteq> rp_path ` set rs" "plain_relation c" "re_from c \<noteq> []" "re_to c \<noteq> []"
      using assms by (auto simp: plain_relation_def list_all_iff)
  qed
  have is_set: "set (detect_relations env parse root rs) = {c \<in> set ?cs. re_from c \<noteq> re_to c}"
    using add_relations_set [of ?cs "[]"] relation_key_inj ends(2) ends(3,4)
    by (auto simp: detect_relations_def Let_def inj_on_def simp del: set_concat)
  have keys: "distinct (map relation_key (fold add_relation ?cs []))" by (simp add: add_relations_distinct)
  have node: "\<lparr>re_from = f, re_to = t, re_type = ''node-package'', re_reference = d\<rparr> \<in> set ?cs \<longleftrightarrow>
      (\<exists>r \<in> set rs. \<exists>q. rp_path r = f \<and> rp_path q = t \<and> d \<noteq> [] \<and> d \<in> set (snd (read_node_metadata env parse (rp_root r)))
        \<and> filter (\<lambda>q. trim_space (fst (read_node_metadata env parse (rp_root q))) = d) rs = [q])"
    by (auto simp: item_relations_def owned_relations_def link_relations_def map_filter_in Let_def unique_owners_iff named_metadata
        split: if_splits)
  have go: "\<lparr>re_from = f, re_to = t, re_type = ''go-module'', re_reference = d\<rparr> \<in> set ?cs \<longleftrightarrow>
      (\<exists>r \<in> set rs. \<exists>q. rp_path r = f \<and> rp_path q = t \<and> d \<noteq> [] \<and> d \<in> set (fst (snd (read_go_metadata env (rp_root r))))
        \<and> filter (\<lambda>q. trim_space (fst (read_go_metadata env (rp_root q))) = d) rs = [q])"
    by (auto simp: item_relations_def owned_relations_def link_relations_def map_filter_in Let_def unique_owners_iff named_metadata
        split: if_splits)
  have link: "\<lparr>re_from = f, re_to = t, re_type = ''go-replace'', re_reference = d\<rparr> \<in> set ?cs \<longleftrightarrow>
      (\<exists>r \<in> set rs. \<exists>l \<in> set (snd (snd (read_go_metadata env (rp_root r)))). \<exists>q. rp_path r = f \<and> rp_path q = t \<and> gk_module l = d
        \<and> path_inside root (link_target env (metadata_of env parse r) l) \<and> pointed_at env rs (link_target env (metadata_of env parse r) l) q)"
    by (auto simp: item_relations_def owned_relations_def link_relations_def map_filter_in Let_def link_owner_is split: if_splits)
  have "distinct (detect_relations env parse root rs)"
    using keys by (simp add: detect_relations_def Let_def distinct_map)
  then show ?thesis
    using ends(1) kinds unfolding is_set mem_Collect_eq node go link by (auto simp: detect_relations_def Let_def)
qed

section \<open>An example\<close>

text \<open>Two repositories: \<open>web\<close> depends on the package \<open>lib\<close>, which \<open>api\<close> is.\<close>

definition two_repositories :: "repository list" where
  "two_repositories = [api_repository, \<lparr>rp_path = ''web'', rp_name = ''web'', rp_root = ''/w/web''\<rparr>]"

definition link_env :: os_env where
  "link_env = (open_env False)\<lparr>
     os_lstat := (\<lambda>p. if p = ''/w/api/package.json'' \<or> p = ''/w/web/package.json'' then StatOk (Regular 1) else StatMissing),
     os_read := (\<lambda>p. if p = ''/w/api/package.json'' then Inr ''A'' else Inr ''B'')\<rparr>"

definition link_parse :: "string \<Rightarrow> jvalue option" where
  "link_parse data =
    Some (if data = ''A'' then JsObject [(''name'', JsString ''lib'')] else JsObject [(''dependencies'', JsObject [(''lib'', JsString ''1'')])])"

lemma link_metadata: "read_node_metadata link_env link_parse ''/w/api'' = (''lib'', [])"
    "read_node_metadata link_env link_parse ''/w/web'' = ([], [''lib''])"
  by (simp_all add: read_node_metadata_def read_bounded_def link_env_def link_parse_def into_struct_def field_for_def node_fields_def
      into_string_def into_group_def into_string_map_def js_merge_def trim_space_def is_space_def path_eval)

theorem relations_are_the_dependencies_witness:
  "\<lparr>re_from = ''web'', re_to = ''api'', re_type = ''node-package'', re_reference = ''lib''\<rparr>
      \<in> set (detect_relations link_env link_parse ''/w'' two_repositories)
    \<and> distinct (detect_relations link_env link_parse ''/w'' two_repositories)"
proof -
  have plain: "list_all (\<lambda>r. rp_path r \<noteq> [] \<and> CHR 0x00 \<notin> set (rp_path r)) two_repositories"
    by (simp add: two_repositories_def api_repository_def)
  have trims: "trim_space ''lib'' = ''lib''" "trim_space [] = []" by (simp_all add: trim_space_def is_space_def path_eval)
  show ?thesis
    using relations_are_the_dependencies [OF plain, of "''web''" "''api''" "''lib''" link_env link_parse "''/w''"]
    by (simp add: two_repositories_def api_repository_def link_metadata trims)
qed

end
