(* ===== verification/Topology.thy ===== *)
theory Topology
  imports Git Relations
begin

text \<open>
  \<open>detectProjectAt\<close> of \<open>internal/workspace/workspace.go\<close> and \<open>InspectTopology\<close> of \<open>repositories.go\<close>: what kind of
  project lies in a directory, and the summary of all repositories.  The parser of JSON text and
  \<open>filepath.Glob\<close>, which reads the file system, are parameters.
\<close>

section \<open>Projects\<close>

record project_info =
  pj_type :: string
  pj_languages :: "string list"
  pj_frameworks :: "string list"
  pj_manager :: "string option"
  pj_scripts :: "(string \<times> string) list"

record project_env =
  pe_os :: os_env
  pe_parse :: "string \<Rightarrow> jvalue option"
  pe_glob :: "string \<Rightarrow> string list"

record package_document =
  pd_scripts :: "(string \<times> string) list"
  pd_deps :: "(string \<times> string) list"
  pd_dev :: "(string \<times> string) list"

definition package_fields :: "package_document js_fields" where
  "package_fields =
    [(''scripts'', \<lambda>v d. case into_string_map v (pd_scripts d) of (m, ok) \<Rightarrow> (d\<lparr>pd_scripts := m\<rparr>, ok)),
     (''dependencies'', \<lambda>v d. case into_string_map v (pd_deps d) of (m, ok) \<Rightarrow> (d\<lparr>pd_deps := m\<rparr>, ok)),
     (''devDependencies'', \<lambda>v d. case into_string_map v (pd_dev d) of (m, ok) \<Rightarrow> (d\<lparr>pd_dev := m\<rparr>, ok))]"

text \<open>Errors are ignored: what was stored before and after a value of the wrong type stays.\<close>

definition read_package :: "project_env \<Rightarrow> string \<Rightarrow> package_document" where
  "read_package env root =
    (let none = \<lparr>pd_scripts = [], pd_deps = [], pd_dev = []\<rparr> in
     case read_bounded (pe_os env) (go_join [root, ''package.json'']) (1024 * 1024) of
       Some (Inr data) \<Rightarrow> (case pe_parse env data of None \<Rightarrow> none | Some v \<Rightarrow> fst (into_struct False package_fields v none))
     | _ \<Rightarrow> none)"

definition known_frameworks :: "(string \<times> string) list" where
  "known_frameworks =
    [(''next'', ''Next.js''), (''react'', ''React''), (''vue'', ''Vue''), (''svelte'', ''Svelte''), (''express'', ''Express''),
     (''fastify'', ''Fastify''), (''@nestjs/core'', ''NestJS''), (''electron'', ''Electron''), (''vitest'', ''Vitest''), (''jest'', ''Jest'')]"

definition has_regular :: "os_env \<Rightarrow> string \<Rightarrow> bool" where
  "has_regular env p \<longleftrightarrow> (case os_lstat env p of StatOk (Regular _) \<Rightarrow> True | _ \<Rightarrow> False)"

definition package_manager :: "(string \<Rightarrow> bool) \<Rightarrow> string" where
  "package_manager has =
    (if has ''pnpm-lock.yaml'' then ''pnpm'' else if has ''yarn.lock'' then ''yarn''
     else if has ''bun.lock'' \<or> has ''bun.lockb'' then ''bun'' else ''npm'')"

text \<open>
  The markers after \<open>package.json\<close> in the order of the code: whether one is there, and the language, the framework
  and the type it stands for.
\<close>

definition project_markers :: "project_env \<Rightarrow> string \<Rightarrow> (bool \<times> string \<times> string option \<times> string option) list" where
  "project_markers env root =
    (let has = (\<lambda>name. has_regular (pe_os env) (go_join [root, name])) in
     [(has ''tsconfig.json'', ''TypeScript'', None, None),
      (has ''pyproject.toml'' \<or> has ''requirements.txt'' \<or> has ''setup.py'', ''Python'', None, Some ''python''),
      (has ''Cargo.toml'', ''Rust'', None, Some ''rust''),
      (has ''go.mod'', ''Go'', None, Some ''go''),
      (has ''Package.swift'', ''Swift'', None, Some ''swift''),
      (has ''pom.xml'', ''Java'', Some ''Maven'', Some ''jvm''),
      (has ''build.gradle'' \<or> has ''build.gradle.kts'', ''Java/Kotlin'', Some ''Gradle'', Some ''jvm''),
      (list_ex (has_regular (pe_os env)) (pe_glob env (go_join [root, ''*.csproj''])), ''C#'', Some ''.NET'', Some ''dotnet'')])"

definition detect_project :: "project_env \<Rightarrow> string \<Rightarrow> project_info" where
  "detect_project env root =
    (let has = (\<lambda>name. has_regular (pe_os env) (go_join [root, name]));
         node = has ''package.json''; p = read_package env root; found = filter fst (project_markers env root);
         named = List.map_filter (\<lambda>(dep, label). if dep \<in> fst ` set (pd_deps p) \<or> dep \<in> fst ` set (pd_dev p) then Some label else None) known_frameworks;
         types = (if node then [''node''] else []) @ List.map_filter (\<lambda>(_, _, _, t). t) found
     in \<lparr>pj_type = (case types of [] \<Rightarrow> ''unknown'' | t # _ \<Rightarrow> t),
         pj_languages = sort (remdups ((if node then [''JavaScript''] else []) @ map (\<lambda>(_, l, _, _). l) found)),
         pj_frameworks = sort (remdups ((if node then named else []) @ List.map_filter (\<lambda>(_, _, f, _). f) found)),
         pj_manager = (if node then Some (package_manager has) else None),
         pj_scripts = (if node then pd_scripts p else [])\<rparr>)"

section \<open>The summary of the workspace\<close>

record repository_summary =
  su_path :: string
  su_name :: string
  su_project :: project_info
  su_git :: git_info

record topology =
  tp_mode :: topology_mode
  tp_count :: nat
  tp_default :: "string option"
  tp_repositories :: "repository_summary list"
  tp_relations :: "relation list"

fun summaries :: "git_env \<Rightarrow> project_env \<Rightarrow> workspace \<Rightarrow> repository list \<Rightarrow> git_error + repository_summary list" where
  "summaries env pe w [] = Inr []"
| "summaries env pe w (r # rs) =
    (case repository_marker (ge_repo env) w (rp_root r) of
       Inl e \<Rightarrow> Inl (GitErr e)
     | Inr False \<Rightarrow> Inl (GitErr (repository_missing (''repository '' @ go_quote (rp_path r)) '' has no .git marker''))
     | Inr True \<Rightarrow>
        (case git_info_for env r of
           Inl e \<Rightarrow> Inl e
         | Inr info \<Rightarrow> map_sum id (\<lambda>ss. \<lparr>su_path = rp_path r, su_name = rp_name r, su_project = detect_project pe (rp_root r), su_git = info\<rparr> # ss)
             (summaries env pe w rs)))"

definition inspect_topology :: "git_env \<Rightarrow> project_env \<Rightarrow> workspace \<Rightarrow> ws_error + repository list \<Rightarrow> git_error + topology" where
  "inspect_topology env pe w known =
    (case known of
       Inl e \<Rightarrow> Inl (GitErr e)
     | Inr rs \<Rightarrow>
        (case summaries env pe w rs of
           Inl e \<Rightarrow> Inl e
         | Inr ss \<Rightarrow> Inr \<lparr>tp_mode = topology_mode_of rs, tp_count = length rs,
             tp_default = (case rs of [r] \<Rightarrow> Some (rp_path r) | _ \<Rightarrow> None), tp_repositories = ss,
             tp_relations = detect_relations (re_os (ge_repo env)) (pe_parse pe) (ws_root w) rs\<rparr>))"

lemma summaries_are: "summaries env pe w rs = Inr ss \<Longrightarrow>
  map su_path ss = map rp_path rs \<and> map su_name ss = map rp_name rs
    \<and> list_all (\<lambda>r. repository_marker (ge_repo env) w (rp_root r) = Inr True) rs"
  by (induction rs arbitrary: ss) (auto simp: map_sum_def split: sum.splits bool.splits)

text \<open>
  A project has a type only if one of its markers is there, and a topology lists every repository once in its
  order, all of them checked again; it names a default exactly when there is a single one.
\<close>

lemma detected_type:
  assumes "pj_type (detect_project env root) \<noteq> ''unknown''"
  shows "has_regular (pe_os env) (go_join [root, ''package.json'']) \<or> list_ex fst (project_markers env root)"
proof (rule ccontr)
  assume none: "\<not> ?thesis"
  then have "filter fst (project_markers env root) = []" by (auto simp: filter_empty_conv list_ex_iff)
  with none assms show False by (simp add: detect_project_def Let_def List.map_filter_def)
qed

lemma inspected_topology:
  assumes "inspect_topology env pe w known = Inr t"
  shows "\<exists>rs. known = Inr rs \<and> map su_path (tp_repositories t) = map rp_path rs \<and> map su_name (tp_repositories t) = map rp_name rs
    \<and> list_all (\<lambda>r. repository_marker (ge_repo env) w (rp_root r) = Inr True) rs \<and> tp_count t = length rs
    \<and> (\<forall>p. tp_default t = Some p \<longleftrightarrow> map rp_path rs = [p])"
proof -
  obtain rs ss where known: "known = Inr rs" "summaries env pe w rs = Inr ss"
    using assms by (auto simp: inspect_topology_def split: sum.splits)
  have "tp_default t = (case rs of [r] \<Rightarrow> Some (rp_path r) | _ \<Rightarrow> None)" "tp_repositories t = ss" "tp_count t = length rs"
    using assms by (auto simp: inspect_topology_def known)
  then show ?thesis using known(1) summaries_are [OF known(2)] by (auto split: list.split)
qed

end
