(* ===== verification/Runtime.thy ===== *)
theory Runtime
  imports StateFiles OAuthChecks
begin

text \<open>
  \<open>internal/runtime/runtime.go\<close> and \<open>internal/config/endpoint.go\<close>: the record of a running bridge and the probe
  of its health, the errors of the administration client, the secret of the installation, and the endpoint a
  connector was created for.  HTTP, JSON and SHA-256 are parameters; several processes that create the secret at
  the same time are a step relation, one step for each system call.
\<close>

section \<open>The running bridge\<close>

record runtime_state =
  rt_service :: string
  rt_version :: string
  rt_workspace :: string
  rt_root :: string
  rt_ref :: string
  rt_pid :: int
  rt_port :: int
  rt_token :: string
  rt_url :: string
  rt_started :: string

record runtime_health =
  hl_service :: string
  hl_version :: string
  hl_ref :: string
  hl_pid :: int
  hl_status :: string

record runtime_io =
  ri_root :: string
  ri_mkdir :: "string option"
  ri_read :: "string option"
  ri_remove :: "string option"
  ri_write :: write_faults
  ri_decode :: "string \<Rightarrow> runtime_state option"
  ri_encode :: "runtime_state \<Rightarrow> string + string"
  ri_get :: "int \<Rightarrow> string \<Rightarrow> string + nat \<times> string"
  ri_health :: "string \<Rightarrow> string + runtime_health"

definition write_runtime :: "runtime_io \<Rightarrow> runtime_state \<Rightarrow> disk \<Rightarrow> string option \<times> disk" where
  "write_runtime io s d = repo_write_json (ri_root io) (ri_write io) ''runtime'' (rt_workspace s) (ri_encode io s) d"

definition read_runtime :: "runtime_io \<Rightarrow> string \<Rightarrow> disk \<Rightarrow> string + runtime_state option" where
  "read_runtime io workspace_id d = repo_read_json (ri_root io) (ri_mkdir io) (ri_read io) (ri_decode io) ''runtime'' workspace_id d"

definition clear_runtime :: "runtime_io \<Rightarrow> string \<Rightarrow> disk \<Rightarrow> string option \<times> disk" where
  "clear_runtime io workspace_id d = repo_remove (ri_root io) (ri_mkdir io) (ri_remove io) ''runtime'' workspace_id ''.json'' d"

text \<open>The body is cut at 64 KiB before it is decoded.\<close>

definition probe :: "runtime_io \<Rightarrow> int \<Rightarrow> string + runtime_health" where
  "probe io port =
    (if port < 1 \<or> 65535 < port then Inl (''invalid bridge port '' @ js_number (Whole port))
     else case ri_get io port ''/health'' of
       Inl e \<Rightarrow> Inl e
     | Inr (status, body) \<Rightarrow>
        if status \<noteq> 200 then Inl (''health returned '' @ digits status)
        else case ri_health io (take (64 * 1024) body) of
          Inl e \<Rightarrow> Inl e
        | Inr h \<Rightarrow> if hl_service h \<noteq> ''codexlink-bridge'' \<or> hl_status h \<noteq> ''ok'' then Inl ''unexpected service'' else Inr h)"

definition find_live :: "runtime_io \<Rightarrow> string \<Rightarrow> disk \<Rightarrow> (string + runtime_state option) \<times> disk" where
  "find_live io workspace_id d =
    (case read_runtime io workspace_id d of
       Inl e \<Rightarrow> (Inl e, d)
     | Inr None \<Rightarrow> (Inr None, d)
     | Inr (Some s) \<Rightarrow>
        (case probe io (rt_port s) of
           Inr h \<Rightarrow> if hl_ref h = rt_ref s then (Inr (Some s), d) else (Inr None, snd (clear_runtime io workspace_id d))
         | Inl _ \<Rightarrow> (Inr None, snd (clear_runtime io workspace_id d))))"

text \<open>
  The answer to a request of the administration client; \<open>dec\<close> decodes \<open>message\<close> and \<open>error\<close>, \<open>target\<close> stores the
  payload where there is a place for it.
\<close>

definition admin_message :: "(string \<Rightarrow> string \<times> string) \<Rightarrow> string \<Rightarrow> string" where
  "admin_message dec payload =
    (case dec payload of (message, e) \<Rightarrow> if message \<noteq> [] then message else if e \<noteq> [] then e else payload)"

definition admin_answer :: "(string \<Rightarrow> string \<times> string) \<Rightarrow> (string \<Rightarrow> string option) option \<Rightarrow> nat \<Rightarrow> string \<Rightarrow> string option" where
  "admin_answer dec target status body =
    (let payload = take (2 * 1024 * 1024) body in
     if status < 200 \<or> 300 \<le> status
     then Some (''admin request failed ('' @ digits status @ ''): '' @ admin_message dec payload)
     else case target of
       Some store \<Rightarrow> if trim_space payload \<noteq> [] then store payload else None
     | None \<Rightarrow> None)"

section \<open>The secret of the installation\<close>

definition secret_text :: "string \<Rightarrow> string" where
  "secret_text secret = b64_encode secret @ [CHR 0x0A]"

definition decode_install_secret :: "string \<Rightarrow> string option" where
  "decode_install_secret data =
    (case b64_decode (trim_space data) of None \<Rightarrow> None | Some x \<Rightarrow> if length x < 32 then None else Some x)"

definition public_ref :: "(string \<Rightarrow> string) \<Rightarrow> string \<Rightarrow> string \<Rightarrow> string" where
  "public_ref sha secret workspace_id = take 16 (hex_encode (sha (secret @ CHR 0x00 # workspace_id)))"

definition new_admin_token :: "string \<Rightarrow> string" where
  "new_admin_token buffer = ''cl_admin_'' @ b64_encode buffer"

text \<open>The secret that a file of the installation publishes.\<close>

definition published :: "string option \<Rightarrow> string option" where
  "published f = (case f of None \<Rightarrow> None | Some data \<Rightarrow> decode_install_secret data)"

text \<open>
  A process on its way through \<open>InstallSecret\<close>: it has not read the file yet, it waits for the lock, it has found
  the lock older than thirty seconds and is about to remove it, it owns the lock, it is about to remove a corrupt
  file, it is about to write a new one, it leaves with a secret that it has read or written, it has returned it, or
  it has failed.
\<close>

datatype secret_phase =
  Arriving | Queued | Stealing | Owning | Mending | Creating | Leaving string | Returned string | GaveUp

text \<open>The directory that is the lock: it is missing, or there, or there for more than thirty seconds.\<close>

datatype secret_lock = Unlocked | Locked | LockedLong

record secret_world =
  sw_file :: "string option"
  sw_lock :: secret_lock
  sw_phase :: "int \<Rightarrow> secret_phase"

definition move :: "int \<Rightarrow> secret_phase \<Rightarrow> secret_world \<Rightarrow> secret_world" where
  "move p ph s = s\<lparr>sw_phase := (sw_phase s)(p := ph)\<rparr>"

definition owns_lock :: "secret_phase \<Rightarrow> bool" where
  "owns_lock ph \<longleftrightarrow> (case ph of Owning \<Rightarrow> True | Mending \<Rightarrow> True | Creating \<Rightarrow> True | Leaving _ \<Rightarrow> True | _ \<Rightarrow> False)"

text \<open>What a process does after it has read the file under the lock.\<close>

definition checked_phase :: "string option \<Rightarrow> secret_phase" where
  "checked_phase f =
    (case f of None \<Rightarrow> Creating | Some data \<Rightarrow> (case decode_install_secret data of Some x \<Rightarrow> Leaving x | None \<Rightarrow> Mending))"

definition seen_phase :: "string option \<Rightarrow> secret_phase" where
  "seen_phase f = (case published f of Some x \<Rightarrow> Returned x | None \<Rightarrow> Queued)"

text \<open>
  The steps.  The age of a lock is read in one step and the lock removed in a later one; \<open>live\<close> says whether such a
  removal may hit a lock that a living process owns by then.  A process may crash at any point, its lock may stay
  behind, and one that is done may call again.
\<close>

inductive secret_step :: "bool \<Rightarrow> secret_world \<Rightarrow> secret_world \<Rightarrow> bool" for live where
  look: "sw_phase s p = Arriving \<Longrightarrow> secret_step live s (move p (seen_phase (sw_file s)) s)"
| acquire: "sw_phase s p = Queued \<Longrightarrow> sw_lock s = Unlocked \<Longrightarrow> secret_step live s (move p Owning (s\<lparr>sw_lock := Locked\<rparr>))"
| poll: "sw_phase s p = Queued \<Longrightarrow> secret_step live s (move p (seen_phase (sw_file s)) s)"
| ages: "sw_lock s = Locked \<Longrightarrow> secret_step live s (s\<lparr>sw_lock := LockedLong\<rparr>)"
| judge: "sw_phase s p = Queued \<Longrightarrow> sw_lock s = LockedLong \<Longrightarrow> secret_step live s (move p Stealing s)"
| steal: "sw_phase s p = Stealing \<Longrightarrow> live \<or> (\<forall>q. \<not> owns_lock (sw_phase s q)) \<Longrightarrow>
    secret_step live s (move p Queued (s\<lparr>sw_lock := Unlocked\<rparr>))"
| check: "sw_phase s p = Owning \<Longrightarrow> secret_step live s (move p (checked_phase (sw_file s)) s)"
| mend: "sw_phase s p = Mending \<Longrightarrow> secret_step live s (move p Creating (s\<lparr>sw_file := None\<rparr>))"
| publish: "sw_phase s p = Creating \<Longrightarrow> length x = 32 \<Longrightarrow> secret_step live s (move p (Leaving x) (s\<lparr>sw_file := Some (secret_text x)\<rparr>))"
| leave: "sw_phase s p = Leaving x \<Longrightarrow> secret_step live s (move p (Returned x) (s\<lparr>sw_lock := Unlocked\<rparr>))"
| leave_lock: "sw_phase s p = Leaving x \<Longrightarrow> secret_step live s (move p (Returned x) s)"
| fail: "owns_lock (sw_phase s p) \<Longrightarrow> secret_step live s (move p GaveUp (s\<lparr>sw_lock := Unlocked\<rparr>))"
| crash: "secret_step live s (move p GaveUp s)"
| again: "sw_phase s p = Returned x \<or> sw_phase s p = GaveUp \<Longrightarrow> secret_step live s (move p Arriving s)"

abbreviation secret_run :: "bool \<Rightarrow> secret_world \<Rightarrow> secret_world \<Rightarrow> bool" where
  "secret_run live \<equiv> (secret_step live)\<^sup>*\<^sup>*"

section \<open>Every process gets the same secret\<close>

lemma b64_encode_ascii: "is_ascii (b64_encode x)" "c \<in> set (b64_encode x) \<Longrightarrow> \<not> is_space (byte c)"
proof -
  have "c \<in> set b64_alphabet \<Longrightarrow> byte c < 128 \<and> \<not> is_space (byte c)" for c
    by (auto simp: b64_alphabet_def byte_def is_space_def)
  then have all: "c \<in> set (b64_encode x) \<Longrightarrow> byte c < 128 \<and> \<not> is_space (byte c)" for c using b64_encode_mem by blast
  then show "c \<in> set (b64_encode x) \<Longrightarrow> \<not> is_space (byte c)" by blast
  have "is_ascii s \<longleftrightarrow> (\<forall>c \<in> set s. byte c < 128)" for s by (induction s) simp_all
  with all show "is_ascii (b64_encode x)" by blast
qed

lemma trim_space_line:
  assumes "is_ascii s" and "s \<noteq> []" and "\<And>c. c \<in> set s \<Longrightarrow> \<not> is_space (byte c)"
  shows "trim_space (s @ [CHR 0x0A]) = s"
proof -
  let ?f = "\<lambda>c. (byte c, [c])"
  have nl: "is_space (byte (CHR 0x0A))" by (simp add: is_space_def byte_def)
  have ascii: "is_ascii (s @ [CHR 0x0A])" using assms(1) by (simp add: byte_def)
  have front: "dropWhile space_seg (map ?f s @ [?f (CHR 0x0A)]) = map ?f s @ [?f (CHR 0x0A)]"
    using assms(2,3) by (cases s) auto
  have "dropWhile space_seg (rev (map ?f s)) = rev (map ?f s)"
    using assms(2,3) by (cases s rule: rev_cases) auto
  then show ?thesis
    using nl front by (simp add: trim_space_def segs_ascii [OF ascii] comp_def)
qed

lemma published_secret:
  assumes "length x = 32"
  shows "published (Some (secret_text x)) = Some x"
proof -
  have "b64_encode x \<noteq> []" using b64_encode_length [of x] assms by auto
  then have "trim_space (b64_encode x @ [CHR 0x0A]) = b64_encode x"
    by (intro trim_space_line b64_encode_ascii) simp_all
  then show ?thesis using assms by (simp add: published_def decode_install_secret_def secret_text_def b64_round_trip)
qed

definition secret_inv :: "secret_world \<Rightarrow> bool" where
  "secret_inv s \<longleftrightarrow>
     (\<forall>p q. owns_lock (sw_phase s p) \<and> owns_lock (sw_phase s q) \<longrightarrow> p = q) \<and> (\<forall>p. owns_lock (sw_phase s p) \<longrightarrow> sw_lock s \<noteq> Unlocked)
     \<and> (\<forall>p. sw_phase s p = Mending \<or> sw_phase s p = Creating \<longrightarrow> published (sw_file s) = None)
     \<and> (\<forall>p x. sw_phase s p = Leaving x \<or> sw_phase s p = Returned x \<longrightarrow> published (sw_file s) = Some x)"

lemma seen_phase_cases: "seen_phase f = Queued \<or> (\<exists>x. seen_phase f = Returned x \<and> published f = Some x)"
  by (auto simp: seen_phase_def split: option.split)

lemma checked_phase_cases:
  "(checked_phase f = Creating \<or> checked_phase f = Mending) \<and> published f = None \<or> (\<exists>x. checked_phase f = Leaving x \<and> published f = Some x)"
  by (auto simp: checked_phase_def published_def split: option.split)

lemma move_simps [simp]: "sw_phase (move p ph s) q = (if q = p then ph else sw_phase s q)" "sw_file (move p ph s) = sw_file s"
    "sw_lock (move p ph s) = sw_lock s"
  by (simp_all add: move_def)

lemma owns_lock_simps [simp]: "owns_lock Owning" "owns_lock Mending" "owns_lock Creating" "owns_lock (Leaving x)"
    "\<not> owns_lock Arriving" "\<not> owns_lock Queued" "\<not> owns_lock Stealing" "\<not> owns_lock (Returned x)" "\<not> owns_lock GaveUp"
  by (simp_all add: owns_lock_def)

lemma secret_inv_owner:
  assumes "secret_inv s" and "owns_lock (sw_phase s p)" and "q \<noteq> p"
  shows "\<not> owns_lock (sw_phase s q)" and "sw_phase s q \<noteq> Mending \<and> sw_phase s q \<noteq> Creating \<and> sw_phase s q \<noteq> Owning \<and> sw_phase s q \<noteq> Leaving x"
proof -
  show "\<not> owns_lock (sw_phase s q)" using assms by (auto simp: secret_inv_def)
  then show "sw_phase s q \<noteq> Mending \<and> sw_phase s q \<noteq> Creating \<and> sw_phase s q \<noteq> Owning \<and> sw_phase s q \<noteq> Leaving x" by auto
qed

lemma secret_inv_locked: "secret_inv s \<Longrightarrow> owns_lock (sw_phase s p) \<Longrightarrow> sw_lock s \<noteq> Unlocked"
  by (auto simp: secret_inv_def)

lemma secret_step_keeps: "secret_step False s t \<Longrightarrow> secret_inv s \<Longrightarrow> secret_inv t"
proof (induction rule: secret_step.induct)
  case (look s p)
  then show ?case using seen_phase_cases [of "sw_file s"] by (auto simp: secret_inv_def)
next
  case (acquire s p)
  then show ?case by (auto simp: secret_inv_def)
next
  case (poll s p)
  then show ?case using seen_phase_cases [of "sw_file s"] by (auto simp: secret_inv_def)
next
  case (check s p)
  have own: "owns_lock (sw_phase s p)" using check by simp
  note other = secret_inv_owner [OF check(2) own] secret_inv_locked [OF check(2) own]
  show ?case using check other checked_phase_cases [of "sw_file s"] by (auto simp: secret_inv_def)
next
  case (mend s p)
  have own: "owns_lock (sw_phase s p)" "published None = None" using mend by (simp_all add: published_def)
  note other = secret_inv_owner [OF mend(2) own(1)] secret_inv_locked [OF mend(2) own(1)]
  show ?case using mend other own(2) by (auto simp: secret_inv_def)
next
  case (publish s p x)
  have own: "owns_lock (sw_phase s p)" using publish by simp
  note other = secret_inv_owner [OF publish(3) own] secret_inv_locked [OF publish(3) own]
  show ?case using publish other published_secret [of x] by (auto simp: secret_inv_def)
next
  case (leave s p x)
  have own: "owns_lock (sw_phase s p)" using leave by simp
  note other = secret_inv_owner [OF leave(2) own]
  have pub: "published (sw_file s) = Some x" using leave unfolding secret_inv_def by blast
  have same: "y = x" if "sw_phase s q = Returned y" for q y
  proof -
    have "published (sw_file s) = Some y" using leave(2) that unfolding secret_inv_def by blast
    with pub show ?thesis by simp
  qed
  have mend: "sw_phase s q \<noteq> Mending \<and> sw_phase s q \<noteq> Creating" for q
    using leave(2) pub unfolding secret_inv_def by fastforce
  show ?case
    unfolding secret_inv_def using other pub same mend by simp
next
  case (leave_lock s p x)
  have own: "owns_lock (sw_phase s p)" using leave_lock by simp
  note other = secret_inv_owner [OF leave_lock(2) own]
  have "published (sw_file s) = Some x" using leave_lock unfolding secret_inv_def by blast
  then have same: "y = x" if "sw_phase s q = Returned y" for q y using leave_lock(2) that unfolding secret_inv_def by (metis option.inject)
  show ?case using leave_lock other same by (auto simp: secret_inv_def)
next
  case (ages s)
  then show ?case by (auto simp: secret_inv_def)
next
  case (judge s p)
  then show ?case by (auto simp: secret_inv_def)
next
  case (steal s p)
  then have none: "\<not> owns_lock (sw_phase s q)" for q by blast
  then have "sw_phase s q \<noteq> Mending \<and> sw_phase s q \<noteq> Creating \<and> sw_phase s q \<noteq> Leaving x" for q x by (metis owns_lock_simps(2-4))
  then show ?case using steal none by (auto simp: secret_inv_def)
next
  case (fail s p)
  note other = secret_inv_owner [OF fail(2,1)]
  show ?case using fail other by (auto simp: secret_inv_def)
next
  case (crash s p)
  then show ?case by (auto simp: secret_inv_def)
next
  case (again s p x)
  then show ?case by (auto simp: secret_inv_def)
qed

lemma secret_run_keeps: "secret_run False s t \<Longrightarrow> secret_inv s \<Longrightarrow> secret_inv t"
  by (induction rule: rtranclp_induct) (blast dest: secret_step_keeps)+

lemma secret_step_stable: "secret_step False s t \<Longrightarrow> secret_inv s \<Longrightarrow> published (sw_file s) = Some x \<Longrightarrow> published (sw_file t) = Some x"
  by (induction rule: secret_step.induct) (auto simp: secret_inv_def)

lemma secret_run_stable: "secret_run False s t \<Longrightarrow> secret_inv s \<Longrightarrow> published (sw_file s) = Some x \<Longrightarrow> published (sw_file t) = Some x"
  by (induction rule: rtranclp_induct) (blast dest: secret_step_stable secret_run_keeps)+

text \<open>
  C31: Every process of the installation gets the same secret: however the calls interleave, with corrupt files,
  repeated calls and crashes in between, also of a process that holds the lock, which is taken over once it is
  thirty seconds old, a secret that one process has returned is the one that every process returns from then on.
  The condition is that whenever a process removes a lock for its age, no living process holds the lock at that
  moment; that it is needed show \<open>stalled_owner_splits_secret\<close> and \<open>two_rescuers_split_secret\<close>.
\<close>

theorem install_secret_is_shared:
  assumes "\<forall>p. sw_phase s0 p = Arriving" and "secret_run False s0 s" and "sw_phase s p = Returned x"
    and "secret_run False s t" and "sw_phase t q = Returned y"
  shows "x = y \<and> published (sw_file t) = Some x"
proof -
  have "secret_inv s0" using assms(1) by (simp add: secret_inv_def)
  from secret_run_keeps [OF assms(2) this] have s: "secret_inv s" .
  then have "published (sw_file s) = Some x" using assms(3) unfolding secret_inv_def by blast
  from secret_run_stable [OF assms(4) s this] have t: "published (sw_file t) = Some x" .
  moreover have "published (sw_file t) = Some y"
    using secret_run_keeps [OF assms(4) s] assms(5) unfolding secret_inv_def by blast
  ultimately show ?thesis by simp
qed

section \<open>The endpoint of a connector\<close>

record endpoint =
  ep_workspace :: string
  ep_port :: int
  ep_public_url :: "string option"
  ep_mcp_url :: "string option"
  ep_connector :: string
  ep_saved_at :: string

text \<open>A decoder, the clock, an encoder, and the faults of the disk.\<close>

record endpoint_io =
  ei_root :: string
  ei_mkdir :: "string option"
  ei_read :: "string option"
  ei_write :: write_faults
  ei_decode :: "string \<Rightarrow> endpoint option"
  ei_encode :: "endpoint \<Rightarrow> string + string"
  ei_now :: string

definition read_endpoint :: "endpoint_io \<Rightarrow> string \<Rightarrow> disk \<Rightarrow> string + endpoint option" where
  "read_endpoint io workspace_id d = repo_read_json (ei_root io) (ei_mkdir io) (ei_read io) (ei_decode io) ''endpoints'' workspace_id d"

definition write_endpoint :: "endpoint_io \<Rightarrow> endpoint \<Rightarrow> disk \<Rightarrow> (string + endpoint) \<times> disk" where
  "write_endpoint io e d =
    (let e' = e\<lparr>ep_saved_at := ei_now io\<rparr>
     in case repo_write_json (ei_root io) (ei_write io) ''endpoints'' (ep_workspace e) (ei_encode io e') d of
          (Some err, d') \<Rightarrow> (Inl err, d') | (None, d') \<Rightarrow> (Inr e', d'))"

definition normalize_public_url :: "(nat \<Rightarrow> nat) \<Rightarrow> string \<Rightarrow> string" where
  "normalize_public_url low v = to_lower low (trim_right_chars ''/'' (trim_space v))"

definition mcp_url :: "(nat \<Rightarrow> nat) \<Rightarrow> string \<Rightarrow> string" where
  "mcp_url low public_url = trim_suffix (normalize_public_url low public_url) ''/mcp'' @ ''/mcp''"

datatype connector_change = NoAction | CreateConnector | UpdateConnector

definition connector_action :: "(nat \<Rightarrow> nat) \<Rightarrow> string option \<Rightarrow> string option \<Rightarrow> connector_change" where
  "connector_action low previous following =
    (case following of
       None \<Rightarrow> NoAction
     | Some n \<Rightarrow>
        if trim_space n = [] then NoAction
        else case previous of
          None \<Rightarrow> CreateConnector
        | Some p \<Rightarrow>
            if trim_space p = [] then CreateConnector
            else if normalize_public_url low p = normalize_public_url low n then NoAction else UpdateConnector)"

text \<open>
  The name of a connector; \<open>is_word\<close> holds for the letters and numbers of Unicode.  Of the white space only blanks
  are left when runs of it are collapsed.
\<close>

fun collapse_blanks :: "nat list \<Rightarrow> nat list" where
  "collapse_blanks (a # b # rs) = (if a = 32 \<and> b = 32 then collapse_blanks (b # rs) else a # collapse_blanks (b # rs))"
| "collapse_blanks rs = rs"

definition connector_label :: "(nat \<Rightarrow> bool) \<Rightarrow> string \<Rightarrow> string" where
  "connector_label is_word workspace_name =
    (let kept = filter (\<lambda>r. is_word r \<or> r = byte CHR ''.'' \<or> r = byte CHR ''_'' \<or> r = byte CHR ''-'' \<or> r = byte CHR '' '') (runes workspace_name);
         label = trim_space (encode_runes (collapse_blanks kept))
     in if 40 < length (runes label) then encode_runes (take 40 (runes label)) else label)"

definition connector_name :: "(nat \<Rightarrow> bool) \<Rightarrow> string \<Rightarrow> string \<Rightarrow> endpoint option \<Rightarrow> string" where
  "connector_name is_word workspace_name workspace_id previous =
    (let label = connector_label is_word workspace_name;
         fresh = ''CodexLink '' @ encode_rune 0xB7 @ '' '' @ (if label = [] then take 6 workspace_id else label)
     in case previous of
          Some e \<Rightarrow> if trim_space (ep_connector e) \<noteq> [] then trim_space (ep_connector e) else fresh
        | None \<Rightarrow> fresh)"

text \<open>
  A connector is updated exactly when two addresses differ by more than case, white space and slashes at the end,
  and after the action nothing is left to do.
\<close>

lemma connector_action_settles: "connector_action low (Some n) (Some n) = NoAction"
  by (simp add: connector_action_def)

section \<open>Two processes\<close>

definition first_world :: secret_world where
  "first_world = \<lparr>sw_file = None, sw_lock = Unlocked, sw_phase = (\<lambda>_. Arriving)\<rparr>"

definition key_of :: "char \<Rightarrow> string" where
  "key_of c = replicate 32 c"

definition world :: "string option \<Rightarrow> secret_lock \<Rightarrow> secret_phase \<Rightarrow> secret_phase \<Rightarrow> secret_world" where
  "world f l a b = \<lparr>sw_file = f, sw_lock = l, sw_phase = (\<lambda>p. if p = 1 then a else if p = 2 then b else Arriving)\<rparr>"

lemma world_simps [simp]: "sw_phase (world f l a b) 1 = a" "sw_phase (world f l a b) 2 = b" "sw_file (world f l a b) = f"
    "sw_lock (world f l a b) = l" "move 1 ph (world f l a b) = world f l ph b" "move 2 ph (world f l a b) = world f l a ph"
    "(world f l a b)\<lparr>sw_lock := m\<rparr> = world f m a b" "(world f l a b)\<lparr>sw_file := g\<rparr> = world g l a b"
  by (auto simp: world_def move_def)

lemma world_first: "world None Unlocked Arriving Arriving = first_world"
  by (simp add: world_def first_world_def fun_eq_iff)

text \<open>The steps of each of the two processes.\<close>

lemma world_steps:
  "secret_step live (world f l Arriving b) (world f l (seen_phase f) b)" "secret_step live (world f l a Arriving) (world f l a (seen_phase f))"
  "secret_step live (world f Unlocked Queued b) (world f Locked Owning b)" "secret_step live (world f Unlocked a Queued) (world f Locked a Owning)"
  "secret_step live (world f l Owning b) (world f l (checked_phase f) b)" "secret_step live (world f l a Owning) (world f l a (checked_phase f))"
  "secret_step live (world f l Creating b) (world (Some (secret_text (key_of c))) l (Leaving (key_of c)) b)"
  "secret_step live (world f l a Creating) (world (Some (secret_text (key_of c))) l a (Leaving (key_of c)))"
  "secret_step live (world f l (Leaving x) b) (world f Unlocked (Returned x) b)"
  "secret_step live (world f l a (Leaving x)) (world f Unlocked a (Returned x))"
  using look [of "world f l Arriving b" 1] look [of "world f l a Arriving" 2] acquire [of "world f Unlocked Queued b" 1]
    acquire [of "world f Unlocked a Queued" 2] check [of "world f l Owning b" 1] check [of "world f l a Owning" 2]
    publish [of "world f l Creating b" 1 "key_of c"] publish [of "world f l a Creating" 2 "key_of c"]
    leave [of "world f l (Leaving x) b" 1 x] leave [of "world f l a (Leaving x)" 2 x]
  by (simp_all add: key_of_def)

lemma lock_steps:
  "secret_step live (world f Locked a b) (world f LockedLong a b)" "secret_step live (world f l a b) (world f l GaveUp b)"
  "secret_step live (world f l GaveUp b) (world f l Arriving b)"
  "secret_step live (world f LockedLong Queued b) (world f LockedLong Stealing b)" "secret_step live (world f LockedLong a Queued) (world f LockedLong a Stealing)"
  "live \<or> \<not> owns_lock b \<Longrightarrow> secret_step live (world f l Stealing b) (world f Unlocked Queued b)"
  "live \<or> \<not> owns_lock a \<Longrightarrow> secret_step live (world f l a Stealing) (world f Unlocked a Queued)"
  using ages [of "world f Locked a b"] crash [of live "world f l a b" 1] again [of "world f l GaveUp b" 1] judge [of "world f LockedLong Queued b" 1]
    judge [of "world f LockedLong a Queued" 2] steal [of "world f l Stealing b" 1 live] steal [of "world f l a Stealing" 2 live]
  by (simp_all, simp_all add: world_def)

lemma phases_of: "seen_phase None = Queued" "checked_phase None = Creating"
    "seen_phase (Some (secret_text (key_of c))) = Returned (key_of c)"
  using published_secret [of "key_of c"] by (simp_all add: seen_phase_def checked_phase_def published_def [of None] key_of_def)

lemma run_step: "secret_step live s t \<Longrightarrow> secret_run live t u \<Longrightarrow> secret_run live s u"
  by (rule converse_rtranclp_into_rtranclp)

abbreviation key_file :: "char \<Rightarrow> string option" where "key_file c \<equiv> Some (secret_text (key_of c))"

text \<open>The first process takes the lock and crashes; the second one takes the lock over and returns a secret.\<close>

lemma crashed_run: "secret_run live first_world (world None LockedLong GaveUp Queued)"
  unfolding world_first [symmetric]
  by (rule run_step [OF world_steps(1)], unfold phases_of, rule run_step [OF world_steps(3)], rule run_step [OF lock_steps(2)],
      rule run_step [OF world_steps(2)], unfold phases_of, rule run_step [OF lock_steps(1)], rule rtranclp.rtrancl_refl)

lemma rescue_run: "secret_run False (world None LockedLong GaveUp Queued) (world (key_file c) Unlocked GaveUp (Returned (key_of c)))"
  by (rule run_step [OF lock_steps(5)], rule run_step [OF lock_steps(7)], simp, rule run_step [OF world_steps(4)],
      rule run_step [OF world_steps(6)], unfold phases_of, rule run_step [OF world_steps(8)], rule run_step [OF world_steps(10)],
      rule rtranclp.rtrancl_refl)

lemma second_run: "secret_run False (world (key_file c) Unlocked GaveUp (Returned (key_of c)))
    (world (key_file c) Unlocked (Returned (key_of c)) (Returned (key_of c)))"
  by (rule run_step [OF lock_steps(3)], rule run_step [OF world_steps(1)], unfold phases_of, rule rtranclp.rtrancl_refl)

theorem install_secret_is_shared_witness:
  "secret_run False first_world (world (key_file CHR ''k'') Unlocked (Returned (key_of CHR ''k'')) (Returned (key_of CHR ''k'')))
    \<and> published (key_file CHR ''k'') = Some (key_of CHR ''k'')"
proof -
  have start: "\<forall>p. sw_phase first_world p = Arriving" by (simp add: first_world_def)
  note rescued = rtranclp_trans [OF crashed_run rescue_run, of "CHR ''k''"]
  have p: "sw_phase (world (key_file c) Unlocked a (Returned (key_of c))) 2 = Returned (key_of c)"
    "sw_phase (world (key_file c) Unlocked (Returned (key_of c)) b) 1 = Returned (key_of c)" for a b c by simp_all
  from install_secret_is_shared [OF start rescued p(1) second_run p(2)]
  show ?thesis using rtranclp_trans [OF rescued second_run] by simp
qed

text \<open>
  When the owner of the lock is held up for more than thirty seconds after it has looked at the file, a waiting
  process removes its lock and both write a secret: two processes work with different secrets, and the first one
  returns a secret that no longer is that of the installation.
\<close>

lemma both_publish:
  "secret_run True (world None Unlocked Creating Queued) (world (key_file a) Unlocked (Returned (key_of a)) (Returned (key_of b)))"
  by (rule run_step [OF world_steps(4)], rule run_step [OF world_steps(6)], unfold phases_of,
      rule run_step [OF world_steps(8) [where c = b]], rule run_step [OF world_steps(10)],
      rule run_step [OF world_steps(7) [where c = a]], rule run_step [OF world_steps(9)], rule rtranclp.rtrancl_refl)

lemma stalled_owner_splits_secret:
  "secret_run True first_world (world (key_file CHR ''a'') Unlocked (Returned (key_of CHR ''a'')) (Returned (key_of CHR ''b'')))
    \<and> key_of CHR ''a'' \<noteq> key_of CHR ''b''"
proof -
  have "secret_run True first_world (world None Unlocked Creating Queued)"
    unfolding world_first [symmetric]
    by (rule run_step [OF world_steps(1)], unfold phases_of, rule run_step [OF world_steps(3)], rule run_step [OF world_steps(5)],
        unfold phases_of, rule run_step [OF world_steps(2)], unfold phases_of, rule run_step [OF lock_steps(1)], rule run_step [OF lock_steps(5)],
        rule run_step [OF lock_steps(7)], simp, rule rtranclp.rtrancl_refl)
  from rtranclp_trans [OF this both_publish] show ?thesis by (simp add: key_of_def)
qed

text \<open>
  No owner need be slow for that: when the owner has crashed and two processes find its lock too old, the one that
  is later to remove it removes the new lock of the other.
\<close>

lemma two_rescuers_split_secret:
  "secret_run True (world None LockedLong Queued Queued) (world None Unlocked Creating Queued)
    \<and> secret_run True (world None Unlocked Creating Queued)
         (world (key_file CHR ''a'') Unlocked (Returned (key_of CHR ''a'')) (Returned (key_of CHR ''b'')))"
proof
  show "secret_run True (world None LockedLong Queued Queued) (world None Unlocked Creating Queued)"
    by (rule run_step [OF lock_steps(4)], rule run_step [OF lock_steps(5)], rule run_step [OF lock_steps(6)], simp,
        rule run_step [OF world_steps(3)], rule run_step [OF world_steps(5)], unfold phases_of, rule run_step [OF lock_steps(7)], simp,
        rule rtranclp.rtrancl_refl)
qed (rule both_publish)

end
