(* ===== verification/Release.thy ===== *)
theory Release
  imports Workspace "HOL-Library.Multiset"
begin

text \<open>
  \<open>internal/distribution/archive.go\<close> and \<open>platform.go\<close>: the files of a release archive, under which names they are
  stored, and the names of the supported targets.  The formats of tar, gzip and zip are those of the standard
  library; an archive is modelled as the list of its members.
\<close>

section \<open>Targets\<close>

record target =
  tg_system :: string
  tg_arch :: string

definition supported_targets :: "target list" where
  "supported_targets =
    [\<lparr>tg_system = ''darwin'', tg_arch = ''amd64''\<rparr>, \<lparr>tg_system = ''darwin'', tg_arch = ''arm64''\<rparr>,
     \<lparr>tg_system = ''linux'', tg_arch = ''amd64''\<rparr>, \<lparr>tg_system = ''linux'', tg_arch = ''arm64''\<rparr>,
     \<lparr>tg_system = ''windows'', tg_arch = ''amd64''\<rparr>]"

definition parse_target :: "(nat \<Rightarrow> nat) \<Rightarrow> string \<Rightarrow> string \<Rightarrow> string + target" where
  "parse_target low goos goarch =
    (let t = \<lparr>tg_system = to_lower low (trim_space goos), tg_arch = to_lower low (trim_space goarch)\<rparr>
     in if t \<in> set supported_targets then Inr t else Inl (''unsupported release target '' @ tg_system t @ ''/'' @ tg_arch t))"

definition executable :: "target \<Rightarrow> string \<Rightarrow> string" where
  "executable t name = (if tg_system t = ''windows'' then name @ ''.exe'' else name)"

definition archive_extension :: "target \<Rightarrow> string" where
  "archive_extension t = (if tg_system t = ''windows'' then ''.zip'' else ''.tar.gz'')"

definition artifact_name :: "target \<Rightarrow> string \<Rightarrow> string" where
  "artifact_name t product = product @ ''_'' @ tg_system t @ ''_'' @ tg_arch t @ archive_extension t"

text \<open>\<open>None\<close> is the panic.\<close>

definition cloudflared_asset :: "target \<Rightarrow> string option" where
  "cloudflared_asset t =
    (if tg_system t = ''darwin'' then Some (''cloudflared-darwin-'' @ tg_arch t @ ''.tgz'')
     else if tg_system t = ''linux'' then Some (''cloudflared-linux-'' @ tg_arch t)
     else if tg_system t = ''windows'' then Some (''cloudflared-windows-'' @ tg_arch t @ ''.exe'')
     else None)"

definition join_executable :: "target \<Rightarrow> string \<Rightarrow> string \<Rightarrow> string" where
  "join_executable t dir name = go_join [dir, executable t name]"

section \<open>Entries\<close>

record archive_entry =
  ae_source :: string
  ae_name :: string
  ae_mode :: nat

datatype archive_error =
    NoFiles | UnsafePath string | DuplicatePath string | StatError string | NotRegular string | SourceError string

definition clean_name :: "string \<Rightarrow> string" where
  "clean_name name = go_clean (replace_char CHR 0x5C CHR ''/'' name)"

definition unsafe_name :: "string \<Rightarrow> bool" where
  "unsafe_name p \<longleftrightarrow> p = ''.'' \<or> p = [] \<or> rooted p \<or> p = dotdot \<or> has_prefix p ''../''"

fun normalize_loop :: "os_env \<Rightarrow> string list \<Rightarrow> archive_entry list \<Rightarrow> archive_error + archive_entry list" where
  "normalize_loop env seen [] = Inr []"
| "normalize_loop env seen (e # es) =
    (let p = clean_name (ae_name e) in
     if unsafe_name p then Inl (UnsafePath (ae_name e))
     else if p \<in> set seen then Inl (DuplicatePath p)
     else case os_stat env (ae_source e) of
       StatMissing \<Rightarrow> Inl (StatError (ae_source e))
     | StatFailed _ \<Rightarrow> Inl (StatError (ae_source e))
     | StatOk (Regular _) \<Rightarrow>
         (case normalize_loop env (p # seen) es of
            Inl err \<Rightarrow> Inl err
          | Inr rest \<Rightarrow> Inr (e\<lparr>ae_name := p, ae_mode := (if ae_mode e = 0 then 420 else ae_mode e)\<rparr> # rest))
     | StatOk _ \<Rightarrow> Inl (NotRegular (ae_source e)))"

definition normalize_entries :: "os_env \<Rightarrow> archive_entry list \<Rightarrow> archive_error + archive_entry list" where
  "normalize_entries env es = (if es = [] then Inl NoFiles else map_sum id (sort_key ae_name) (normalize_loop env [] es))"

section \<open>Archives\<close>

record archive_member =
  am_name :: string
  am_mode :: nat
  am_data :: string

text \<open>
  The content of a source.  In a tar archive it must have the size that the header announced: what is longer fails
  when it is written, what is shorter when the next header is written or the archive is closed.
\<close>

definition member_data :: "os_env \<Rightarrow> bool \<Rightarrow> string \<Rightarrow> archive_error + string" where
  "member_data env exact source =
    (case os_stat env source of
       StatOk (Regular sz) \<Rightarrow>
        (case os_read env source of
           Inl _ \<Rightarrow> Inl (SourceError source)
         | Inr data \<Rightarrow> if exact \<and> int (length data) \<noteq> sz then Inl (SourceError source) else Inr data)
     | StatOk _ \<Rightarrow> Inl (SourceError source)
     | _ \<Rightarrow> Inl (StatError source))"

fun archive_members :: "os_env \<Rightarrow> bool \<Rightarrow> archive_entry list \<Rightarrow> archive_error + archive_member list" where
  "archive_members env tar [] = Inr []"
| "archive_members env tar (e # es) =
    (case member_data env tar (ae_source e) of
       Inl err \<Rightarrow> Inl err
     | Inr data \<Rightarrow>
        (case archive_members env tar es of
           Inl err \<Rightarrow> Inl err
         | Inr ms \<Rightarrow> Inr (\<lparr>am_name = ae_name e, am_mode = (if tar then ae_mode e mod 512 else ae_mode e), am_data = data\<rparr> # ms)))"

definition write_archive :: "os_env \<Rightarrow> target \<Rightarrow> archive_entry list \<Rightarrow> archive_error + archive_member list" where
  "write_archive env t es =
    (case normalize_entries env es of
       Inl err \<Rightarrow> Inl err
     | Inr rs \<Rightarrow> archive_members env (tg_system t \<noteq> ''windows'') rs)"

section \<open>Names that stay below the directory\<close>

lemma normalize_loop_names:
  "normalize_loop env seen es = Inr rs \<Longrightarrow>
    map ae_name rs = map (clean_name \<circ> ae_name) es \<and> map ae_source rs = map ae_source es
    \<and> distinct (map ae_name rs) \<and> set seen \<inter> set (map ae_name rs) = {} \<and> list_all (\<lambda>r. \<not> unsafe_name (ae_name r)) rs"
proof (induction es arbitrary: seen rs)
  case (Cons e es)
  from Cons.prems obtain rs' where rs: "normalize_loop env (clean_name (ae_name e) # seen) es = Inr rs'"
      "rs = e\<lparr>ae_name := clean_name (ae_name e), ae_mode := (if ae_mode e = 0 then 420 else ae_mode e)\<rparr> # rs'"
      "\<not> unsafe_name (clean_name (ae_name e))" "clean_name (ae_name e) \<notin> set seen"
    by (auto simp: Let_def split: if_splits stat_result.splits entry_kind.splits sum.splits)
  note ih = Cons.IH [OF rs(1)]
  have eq: "ae_name ` set rs' = (\<lambda>a. clean_name (ae_name a)) ` set es" using ih by (metis (no_types, lifting) comp_apply image_cong set_map)
  show ?case using ih rs(3,4) unfolding rs(2) by (auto simp: list_all_iff eq)
qed simp

lemma safe_names: "\<not> unsafe_name (clean_name n) \<Longrightarrow> list_all normal_elem (elems (clean_name n))"
  unfolding unsafe_name_def by (rule clean_relative_elems) (auto simp: clean_name_def go_clean_idem)

lemma archive_members_names: "archive_members env tar es = Inr ms \<Longrightarrow> map am_name ms = map ae_name es"
  by (induction es arbitrary: ms) (auto split: sum.splits)

text \<open>
  Unpacking a release writes below one directory: the members of an archive have distinct names in order, and
  each consists of ordinary names; they are the cleaned names of the entries, and none is lost.
\<close>

theorem archive_names_are_safe:
  assumes "write_archive env t es = Inr ms"
  shows "distinct (map am_name ms) \<and> sorted (map am_name ms) \<and> list_all (\<lambda>m. list_all normal_elem (elems (am_name m))) ms
    \<and> mset (map am_name ms) = mset (map (clean_name \<circ> ae_name) es)"
proof -
  obtain rs where rs: "normalize_loop env [] es = Inr rs" "archive_members env (tg_system t \<noteq> ''windows'') (sort_key ae_name rs) = Inr ms"
    using assms by (auto simp: write_archive_def normalize_entries_def map_sum_def split: sum.splits if_splits)
  note names = archive_members_names [OF rs(2)] and loop = normalize_loop_names [OF rs(1)]
  have set_eq: "am_name ` set ms = ae_name ` set rs" using names by (metis list.set_map set_sort)
  have safe: "list_all normal_elem (elems n)" if "n \<in> set (map am_name ms)" for n
  proof -
    from that obtain r where r: "r \<in> set rs" "n = ae_name r" using set_eq by auto
    then have "n \<in> set (map (clean_name \<circ> ae_name) es)" using loop by (metis image_eqI set_map)
    then obtain m where "n = clean_name m" by auto
    moreover have "\<not> unsafe_name n" using r loop by (simp add: list_all_iff)
    ultimately show ?thesis using safe_names by blast
  qed
  have perm: "mset (map am_name ms) = mset (map ae_name rs)" unfolding names by simp
  from perm have "distinct (map am_name ms) = distinct (map ae_name rs)" by (rule mset_eq_imp_distinct_iff)
  with loop have "distinct (map am_name ms)" by blast
  moreover have "sorted (map am_name ms)" unfolding names by simp
  moreover have "mset (map am_name ms) = mset (map (clean_name \<circ> ae_name) es)" using perm loop by metis
  moreover have "list_all (\<lambda>m. list_all normal_elem (elems (am_name m))) ms" unfolding list_all_iff [of _ ms] using safe by simp
  ultimately show ?thesis by blast
qed

text \<open>Every supported target has an asset of its own and an artifact of its own.\<close>

lemma supported_targets_have_assets:
  "parse_target low goos goarch = Inr t \<Longrightarrow> cloudflared_asset t \<noteq> None"
  "distinct (map cloudflared_asset supported_targets) \<and> distinct (map (\<lambda>t. artifact_name t product) supported_targets)"
  by (auto simp: parse_target_def supported_targets_def cloudflared_asset_def artifact_name_def archive_extension_def Let_def split: if_splits)

section \<open>An example\<close>

definition source_env :: os_env where
  "source_env = \<lparr>os_folds = False, os_lower = id, os_lstat = (\<lambda>_. StatMissing), os_stat = (\<lambda>_. StatOk (Regular 2)),
     os_read = (\<lambda>_. Inr ''ok''), os_readdir = (\<lambda>_. None), os_eval = Some\<rparr>"

definition linux :: target where
  "linux = \<lparr>tg_system = ''linux'', tg_arch = ''amd64''\<rparr>"

lemma release_example: "write_archive source_env linux [\<lparr>ae_source = ''/s/r'', ae_name = ''./doc/../README'', ae_mode = 0\<rparr>]
    = Inr [\<lparr>am_name = ''README'', am_mode = 420, am_data = ''ok''\<rparr>]"
  by (simp add: write_archive_def normalize_entries_def clean_name_def unsafe_name_def member_data_def source_env_def linux_def
      replace_char_def go_clean_def rooted_def slash_def has_prefix_def)

theorem archive_names_are_safe_witness:
  "\<exists>ms. write_archive source_env linux [\<lparr>ae_source = ''/s/r'', ae_name = ''./doc/../README'', ae_mode = 0\<rparr>] = Inr ms
    \<and> list_all (\<lambda>m. list_all normal_elem (elems (am_name m))) ms"
  using archive_names_are_safe [OF release_example] release_example by blast

end
