(* ===== verification/Spec2Isabelle.thy ===== *)
theory Spec2Isabelle
  imports Pairing RateLimit ControlProps Resolver PolicyProps WorkspaceReadProps WorkspaceFind StateFiles McpProps Session Tunnel Lock BridgeProps GitProps Search Outline Topology Runtime Release
begin

text \<open>
  A model of CodexLink, a bridge that lets a remote chat client inspect a local workspace, read-only, over the Model
  Context Protocol, and exchange control messages with a local command line.  One process serves one workspace over
  HTTP, usually behind a public tunnel.  A request passes the mux and its guards, is authorized by OAuth, whose
  consent needs a pairing code shown only on this machine, and reaches the tools.

  \<^bold>\<open>Parts, theories and sources\<close> (paths below \<open>src/internal\<close>)

  \<^item> Foundations.  \<open>Prelude\<close>: times, Go maps as association lists (\<open>gm_get\<close>, \<open>gm_put\<close>, \<open>gm_del\<close>), runs of calls, and the
    interfaces: finite maps, maps with entries that expire, machines that keep an invariant, machines with a capacity.
    \<open>FixedWindow\<close>: the contract of a rate limiter.  \<open>GoStrings\<close>, \<open>Encoding\<close>, \<open>Json\<close>, \<open>Url\<close>, \<open>Query\<close>, \<open>Paths\<close>, \<open>Regex\<close>, \<open>NetIP\<close>:
    what the program uses of the standard library of Go; strings are bytes, runes are decoded from them.
  \<^item> Authorization (\<open>auth/\<close>).  \<open>Pairing\<close> (\<open>pairing.go\<close>), \<open>RateLimit\<close> (\<open>limits.go\<close>), \<open>OAuthChecks\<close> and \<open>AuthStore\<close> (\<open>store.go\<close>),
    \<open>ClientMetadata\<close> and \<open>Resolver\<close> (\<open>client_metadata.go\<close>), \<open>Assertion\<close> (\<open>client_assertion.go\<close>), \<open>OAuthServer\<close> (\<open>http.go\<close>).
    \<open>AuthProps\<close> and \<open>AuthGrants\<close> hold the properties of the store, \<open>OAuthFlow\<close> those of the server over sequences of requests.
  \<^item> The workspace (\<open>workspace/\<close>).  \<open>Policy\<close> (\<open>policy.go\<close>), \<open>Workspace\<close> (\<open>workspace.go\<close>), \<open>WorkspaceRead\<close> (\<open>text.go\<close>,
    \<open>read_many.go\<close>), \<open>WorkspaceList\<close> and \<open>WorkspaceFind\<close> (\<open>catalog.go\<close>), \<open>Search\<close> (\<open>search.go\<close>), \<open>Outline\<close> (\<open>outline.go\<close>),
    \<open>Repositories\<close> (\<open>repositories.go\<close>), \<open>Relations\<close> (\<open>relations.go\<close>), \<open>Topology\<close> (project detection and the topology), \<open>Git\<close>
    and \<open>GitDiff\<close> (\<open>git.go\<close>), \<open>GitLog\<close> (\<open>git_history.go\<close>); their properties in place or in \<open>PolicyProps\<close>, \<open>WorkspaceProps\<close>,
    \<open>WorkspaceReadProps\<close>, \<open>GitProps\<close>, \<open>GitPages\<close>.
  \<^item> Control.  \<open>ControlModel\<close> (\<open>control/model.go\<close> and the validation of \<open>control/store.go\<close>), \<open>ControlStore\<close> (\<open>control/store.go\<close>),
    \<open>ControlProps\<close>: the invariant, memory against disk, and the refinement of the abstract life cycle of a request.
  \<^item> The protocol (\<open>mcp/\<close>).  \<open>McpProtocol\<close> (\<open>http_validation.go\<close> and the messages), \<open>McpServer\<close> (\<open>registry.go\<close>, \<open>http.go\<close>),
    \<open>McpTools\<close> (\<open>tools*.go\<close>), \<open>McpProps\<close>.
  \<^item> The bridge (\<open>bridge/\<close>, \<open>setupui/\<close>).  \<open>SetupUI\<close> (\<open>manager.go\<close>), \<open>Bridge\<close> (\<open>server.go\<close>, \<open>security.go\<close>, \<open>admin.go\<close>,
    \<open>control_admin.go\<close>), \<open>Lock\<close> (\<open>acquireWorkspaceLock\<close>), \<open>BridgeProps\<close>.
  \<^item> Files of the host.  \<open>StateFiles\<close> (\<open>state/repository.go\<close>, \<open>execution/records.go\<close>), \<open>Session\<close> (\<open>session/session.go\<close>),
    \<open>Tunnel\<close> (\<open>tunnel/state.go\<close>, \<open>tunnel/provision.go\<close>), \<open>Runtime\<close> (\<open>runtime/runtime.go\<close>, \<open>config/endpoint.go\<close>),
    \<open>Release\<close> (\<open>distribution/archive.go\<close>, \<open>distribution/platform.go\<close>).

  \<^bold>\<open>How state, effects and errors are modelled\<close>

  A struct is a record with the fields of the source, an operation a function from the state to its answer and the
  new state, an error a value of a sum.  Clocks, random bytes, system calls that fail, and the answers of other
  programs are arguments of the operation, so a theorem holds whatever they are.  Parameters stand for code that is
  not in the repository or not its own: SHA-256 and RS256, the parser of JSON text, Unicode tables, the file system,
  the processes of Git and ripgrep, \<open>go/parser\<close>, name lookup and HTTP clients.

  \<^bold>\<open>Concurrency\<close>

  A section under a mutex is one step.  A handler of the bridge is one step too, and a run is a list of requests; so
  the properties over runs speak of requests that are handled one after the other.  Where the code has several
  sections and the order matters, the sections are separate: \<open>Cancel\<close> of the control store, the two steps of
  revoking everything (\<open>revoke_tokens\<close>, \<open>close_pairing\<close>), the system calls of the workspace lock (\<open>lock_step\<close>) and of the
  installation secret (\<open>secret_step\<close>), with any number of processes in between.

  \<^bold>\<open>Fuel and bounds\<close>

  Loops over data are structural or have a measure.  Those that need not end have a supply: \<open>random_string\<close> takes the
  buffers that \<open>rand.Read\<close> returns (and answers \<open>RSMore\<close> when they run out), \<open>wait_loop\<close> the polls of the wait handler
  (251 are always enough), \<open>search_go\<close> the depth of the directory tree (any tree of that depth is enough: \<open>shallow\<close>),
  \<open>repo_walk\<close> the depth of the configuration, \<open>read_pages\<close> the number of pages asked for.

  \<^bold>\<open>What the properties show\<close>

  \<^item> Who is served: nobody without a token, a code or a pairing session; only what was consented; nobody after a
    revocation; the control store changes only for the administrator or with the control scope; pairing codes stay on
    the loopback interface, cost a session, and can be guessed only a bounded number of times.
  \<^item> What is shown: paths stay in the workspace and out of the sensitive files, for reading, searching, the status and
    the diff, in every repository; filters that a repository configures do not run.
  \<^item> That answers are complete: pages put together are the whole, listings and searches are the matches of the tree,
    relations are the dependencies, outlines the declarations and headings.
  \<^item> That state survives: memory agrees with the disk after failed writes, responses are immutable, one process holds
    the lock, one secret is shared.

  Where the code does not do what it means to, a theorem shows it on a concrete state; a property that holds only
  under a condition says so, and names the theorem that shows why it is needed.

  \<^bold>\<open>Simplifications\<close>

  Times are unbounded integers of nanoseconds (the code's seconds of a token claim wrap around beyond the year
  292277026596, the model refuses more).  A submission is stored as it is; the code stores a copy by way of JSON, which
  is the same for text that JSON was decoded from.  \<open>%q\<close> is modelled for printable text.  Log lines, HTML pages and the
  texts of the standard library's errors are left out.

  \<^bold>\<open>Not modelled\<close>

  The command line and the setup service (glue over the modelled parts), starting and observing processes, the output
  of cloudflared, the editing of the host's own configuration, file permissions, logging, and the archive formats.
\<close>

end
